(* ===== verification/Go_Prelude.thy ===== *)
theory Go_Prelude
  imports Main "HOL-Library.Word"
begin

text \<open>
  The prelude of the development: the types every component shares, the parts of Go's
  standard packages \<open>strings\<close>, \<open>bytes\<close> and \<open>strconv\<close> that the modelled code
  calls, and the generic lemmas about them.

  A Go string is an immutable sequence of bytes and is modelled as the HOL type
  \<^typ>\<open>string\<close> (a \<^typ>\<open>char\<close> is one byte); a Go \<open>[]byte\<close> is a list of
  \<open>8 word\<close>. The conversions \<open>[]byte(s)\<close> and \<open>string(b)\<close> are
  \<open>to_bytes\<close> and \<open>of_bytes\<close>. Case mapping and white space follow the ASCII
  rules of those packages; the Unicode letters and spaces beyond ASCII that Go also maps
  are left unchanged (host names, header names, base64 and the login names of this
  program are ASCII).
\<close>

section \<open>Shared types\<close>

type_synonym byte = "8 word"
type_synonym bytes = "byte list"
type_synonym 'a parsed = "('a \<times> bytes) option"

named_theorems go_string_simps \<open>rewriting rules for the models of the Go string functions\<close>
named_theorems wire_simps \<open>rewriting rules for the byte-level readers and writers\<close>

definition byte_of :: "char \<Rightarrow> byte" where
  "byte_of c = word_of_nat (of_char c)"

definition char_of_byte :: "byte \<Rightarrow> char" where
  "char_of_byte b = char_of (unat b)"

definition to_bytes :: "string \<Rightarrow> bytes" where
  "to_bytes s = map byte_of s"

definition of_bytes :: "bytes \<Rightarrow> string" where
  "of_bytes b = map char_of_byte b"

lemma char_of_byte_of [simp]: "char_of_byte (byte_of c) = c"
proof -
  have "unat (word_of_nat (of_char c) :: byte) = of_char c mod 256"
    by (simp add: unat_of_nat)
  then show ?thesis
    using nat_of_char_less_256 [of c] by (simp add: byte_of_def char_of_byte_def)
qed

lemma byte_of_char_of [simp]: "byte_of (char_of_byte b) = b"
proof -
  have "unat b < 2 ^ LENGTH(8)"
    by (rule unsigned_less)
  then show ?thesis
    by (simp add: byte_of_def char_of_byte_def of_char_of)
qed

lemma of_bytes_to_bytes [simp]: "of_bytes (to_bytes s) = s"
  by (simp add: of_bytes_def to_bytes_def comp_def)

lemma to_bytes_of_bytes [simp]: "to_bytes (of_bytes b) = b"
  by (simp add: of_bytes_def to_bytes_def comp_def)

lemma length_to_bytes [simp]: "length (to_bytes s) = length s"
  by (simp add: to_bytes_def)

lemma length_of_bytes [simp]: "length (of_bytes b) = length b"
  by (simp add: of_bytes_def)

lemma to_bytes_append [simp]: "to_bytes (s @ t) = to_bytes s @ to_bytes t"
  by (simp add: to_bytes_def)

lemma to_bytes_inject [simp]: "to_bytes s = to_bytes t \<longleftrightarrow> s = t"
  by (metis of_bytes_to_bytes)

section \<open>Errors as values and loops that return early\<close>

text \<open>
  A Go function that returns \<open>(T, error)\<close> is modelled in the sum \<open>'e + 'a\<close>. \<open>rbind\<close> is the
  \<open>if err != nil { return err }\<close> idiom; \<open>for_each\<close> is a \<open>range\<close> loop over a slice, with its
  index, whose body updates a state and may return early with an error.
\<close>

definition rbind :: "'e + 'a \<Rightarrow> ('a \<Rightarrow> 'e + 'b) \<Rightarrow> 'e + 'b" where
  "rbind r f = (case r of Inl e \<Rightarrow> Inl e | Inr a \<Rightarrow> f a)"

fun for_each :: "nat \<Rightarrow> (nat \<Rightarrow> 'a \<Rightarrow> 's \<Rightarrow> 'e + 's) \<Rightarrow> 'a list \<Rightarrow> 's \<Rightarrow> 'e + 's" where
  "for_each i f [] s = Inr s"
| "for_each i f (x # xs) s = rbind (f i x s) (for_each (Suc i) f xs)"

lemma rbind_simps [simp]: "rbind (Inl e) f = Inl e" "rbind (Inr a) f = f a"
  by (simp_all add: rbind_def)

lemma rbind_Inr_iff [simp]: "rbind r f = Inr b \<longleftrightarrow> (\<exists>a. r = Inr a \<and> f a = Inr b)"
  by (cases r) auto

lemma if_Inl_eq_Inr [simp]: "(if c then Inl e else r) = Inr a \<longleftrightarrow> \<not> c \<and> r = Inr a"
  by auto

text \<open>A loop that finished without error kept every invariant its body keeps.\<close>

lemma for_each_invariant:
  assumes "for_each i f xs s = Inr s'" and "P [] s"
    and "\<And>j x acc s s'. x \<in> set xs \<Longrightarrow> f j x s = Inr s' \<Longrightarrow> P acc s \<Longrightarrow> P (acc @ [x]) s'"
  shows "P xs s'"
proof -
  have "P (acc @ ys) s'" if "for_each j f ys s = Inr s'" "P acc s" "set ys \<subseteq> set xs" for j ys acc s
    using that
  proof (induction ys arbitrary: j acc s)
    case (Cons y ys)
    then obtain t where t: "f j y s = Inr t" "for_each (Suc j) f ys t = Inr s'" by auto
    with Cons.prems assms(3) have "P (acc @ [y]) t" by simp
    with Cons.IH [OF t(2), of "acc @ [y]"] Cons.prems show ?case by simp
  qed simp
  from this [of i xs s "[]"] assms show ?thesis by simp
qed

lemma for_each_unit:
  fixes f :: "nat \<Rightarrow> 'a \<Rightarrow> unit \<Rightarrow> 'e + unit"
  assumes "for_each i f xs () = Inr ()" and "x \<in> set xs"
  shows "\<exists>j. f j x () = Inr ()"
  using for_each_invariant [OF assms(1), of "\<lambda>acc _. \<forall>x\<in>set acc. \<exists>j. f j x () = Inr ()"] assms(2)
  by auto

section \<open>Searching: \<open>Index\<close>, \<open>Cut\<close>, \<open>Split\<close> and \<open>Join\<close>\<close>

definition has_prefix :: "'a list \<Rightarrow> 'a list \<Rightarrow> bool" where
  "has_prefix s p \<longleftrightarrow> take (length p) s = p"

definition has_suffix :: "'a list \<Rightarrow> 'a list \<Rightarrow> bool" where
  "has_suffix s p \<longleftrightarrow> length p \<le> length s \<and> drop (length s - length p) s = p"

text \<open>\<open>Index(s, sep)\<close>; \<^term>\<open>None\<close> stands for Go's \<open>-1\<close>.\<close>

fun index_of :: "'a list \<Rightarrow> 'a list \<Rightarrow> nat option" where
  "index_of [] sep = (if sep = [] then Some 0 else None)"
| "index_of (c # cs) sep =
     (if has_prefix (c # cs) sep then Some 0 else map_option Suc (index_of cs sep))"

definition contains :: "'a list \<Rightarrow> 'a list \<Rightarrow> bool" where
  "contains s sub \<longleftrightarrow> index_of s sub \<noteq> None"

definition contains_any :: "'a list \<Rightarrow> 'a list \<Rightarrow> bool" where
  "contains_any s cs \<longleftrightarrow> list_ex (\<lambda>c. c \<in> set cs) s"

text \<open>\<open>Cut(s, sep)\<close>: every caller tests the third result, which is \<^term>\<open>None\<close> here.\<close>

definition cut :: "'a list \<Rightarrow> 'a list \<Rightarrow> ('a list \<times> 'a list) option" where
  "cut s sep = map_option (\<lambda>i. (take i s, drop (i + length sep) s)) (index_of s sep)"

lemma has_prefix_iff: "has_prefix s p \<longleftrightarrow> (\<exists>t. s = p @ t)"
  unfolding has_prefix_def by (metis append_eq_conv_conj append_take_drop_id)

lemma has_prefix_append [simp]: "has_prefix (p @ s) p"
  by (simp add: has_prefix_def)

lemma has_prefix_length: "has_prefix s p \<Longrightarrow> length p \<le> length s"
  by (auto simp: has_prefix_iff)

lemma has_prefix_Nil [simp]: "has_prefix s []"
  by (simp add: has_prefix_def)

lemma index_of_SomeD:
  assumes "index_of s sep = Some i"
  shows "s = take i s @ sep @ drop (i + length sep) s \<and> i + length sep \<le> length s"
  using assms
proof (induction s arbitrary: i)
  case Nil
  then show ?case by (auto split: if_splits)
next
  case (Cons c cs)
  show ?case
  proof (cases "has_prefix (c # cs) sep")
    case True
    with Cons.prems have "i = 0" by simp
    then show ?thesis
      using True has_prefix_length [OF True]
      by (simp add: has_prefix_def) (metis append_take_drop_id)
  next
    case False
    with Cons.prems obtain k where k: "index_of cs sep = Some k" "i = Suc k"
      by auto
    from Cons.IH [OF k(1)] k(2) show ?thesis by auto
  qed
qed

lemma index_of_length: "index_of s sep = Some i \<Longrightarrow> i + length sep \<le> length s"
  using index_of_SomeD by blast

lemma index_of_prefix: "index_of s sep = Some i \<Longrightarrow> has_prefix (drop i s) sep"
  using index_of_SomeD [of s sep i]
  by (metis add_leD1 append_eq_conv_conj has_prefix_append length_take min.absorb2)

lemma index_of_least:
  assumes "index_of s sep = Some i" and "j < i"
  shows "\<not> has_prefix (drop j s) sep"
  using assms
proof (induction s arbitrary: i j)
  case Nil
  then show ?case by (auto split: if_splits)
next
  case (Cons c cs)
  then show ?case by (cases j) (auto split: if_splits)
qed

lemma index_of_None:
  assumes "index_of s sep = None"
  shows "\<not> has_prefix (drop j s) sep"
  using assms
proof (induction s arbitrary: j)
  case Nil
  then show ?case by (auto simp: has_prefix_def split: if_splits)
next
  case (Cons c cs)
  then show ?case by (cases j) (auto split: if_splits)
qed

lemma index_of_hit:
  assumes "has_prefix (drop j s) sep" and "j \<le> length s"
  shows "\<exists>i. index_of s sep = Some i \<and> i \<le> j"
proof (cases "index_of s sep")
  case None
  with assms(1) index_of_None show ?thesis by blast
next
  case (Some i)
  with assms(1) index_of_least [OF Some, of j] show ?thesis
    by (auto simp: not_less [symmetric])
qed

text \<open>The first occurrence is the unique position with a match and none before it.\<close>

lemma index_of_eq_SomeI:
  assumes "has_prefix (drop i s) sep" and "i \<le> length s"
    and "\<And>j. j < i \<Longrightarrow> \<not> has_prefix (drop j s) sep"
  shows "index_of s sep = Some i"
proof -
  obtain k where k: "index_of s sep = Some k" "k \<le> i"
    using index_of_hit [OF assms(1,2)] by blast
  have "has_prefix (drop k s) sep" by (rule index_of_prefix [OF k(1)])
  with assms(3) k show ?thesis
    by (metis le_neq_implies_less)
qed

lemma cut_SomeD:
  assumes "cut s sep = Some (a, b)"
  shows "s = a @ sep @ b"
  using assms index_of_SomeD [of s sep] by (fastforce simp: cut_def)

lemma cut_single:
  assumes "c \<notin> set a"
  shows "cut (a @ c # b) [c] = Some (a, b)"
proof -
  have "index_of (a @ c # b) [c] = Some (length a)"
    using assms by (induction a) (auto simp: has_prefix_def)
  then show ?thesis by (simp add: cut_def)
qed

lemma cut_single_notin:
  assumes "cut s [c] = Some (a, b)"
  shows "c \<notin> set a"
proof
  assume "c \<in> set a"
  then obtain a1 a2 where a: "a = a1 @ c # a2"
    by (meson split_list)
  obtain i where i: "index_of s [c] = Some i" "a = take i s"
    using assms by (auto simp: cut_def)
  have "s = a1 @ c # a2 @ [c] @ b"
    using cut_SomeD [OF assms] a by simp
  then have "has_prefix (drop (length a1) s) [c]"
    by (simp add: has_prefix_def)
  moreover have "length a1 < i"
    using a i(2) index_of_SomeD [OF i(1)] by (metis (no_types, lifting) add.right_neutral
        add_less_cancel_left length_Cons length_append length_take min.absorb2 add_leD1
        zero_less_Suc)
  ultimately show False
    using index_of_least [OF i(1)] by blast
qed

function split_str :: "'a list \<Rightarrow> 'a list \<Rightarrow> 'a list list" where
  "split_str s sep =
     (if sep = [] then [s]
      else case index_of s sep of
        None \<Rightarrow> [s]
      | Some i \<Rightarrow> take i s # split_str (drop (i + length sep) s) sep)"
  by pat_completeness auto
termination
  by (relation "measure (\<lambda>(s, sep). length s)")
     (auto dest!: index_of_SomeD simp: length_greater_0_conv [symmetric]
       simp del: length_greater_0_conv)

declare split_str.simps [simp del]

fun join :: "'a list list \<Rightarrow> 'a list \<Rightarrow> 'a list" where
  "join [] sep = []"
| "join [x] sep = x"
| "join (x # y # xs) sep = x @ sep @ join (y # xs) sep"

lemma split_str_nonempty [simp]: "split_str s sep \<noteq> []"
  by (subst split_str.simps) (simp split: option.split)

lemma join_Cons: "xs \<noteq> [] \<Longrightarrow> join (x # xs) sep = x @ sep @ join xs sep"
  by (cases xs) auto

lemma join_split [simp]: "join (split_str s sep) sep = s"
proof (induction s sep rule: split_str.induct)
  case (1 s sep)
  show ?case
  proof (cases "sep = [] \<or> index_of s sep = None")
    case True
    then show ?thesis by (subst split_str.simps) auto
  next
    case False
    then obtain i where i: "index_of s sep = Some i" by auto
    with False "1.IH" have "join (split_str (drop (i + length sep) s) sep) sep
        = drop (i + length sep) s" by blast
    with False i index_of_SomeD [OF i] show ?thesis
      by (subst split_str.simps) (simp add: join_Cons)
  qed
qed

section \<open>Trimming, fields and case\<close>

definition is_space :: "char \<Rightarrow> bool" where
  "is_space c \<longleftrightarrow> c \<in> {CHR 0x09, CHR 0x0A, CHR 0x0B, CHR 0x0C, CHR 0x0D, CHR 0x20}"

definition drop_while_end :: "('a \<Rightarrow> bool) \<Rightarrow> 'a list \<Rightarrow> 'a list" where
  "drop_while_end P s = rev (dropWhile P (rev s))"

definition trim_space :: "string \<Rightarrow> string" where
  "trim_space s = drop_while_end is_space (dropWhile is_space s)"

text \<open>\<open>TrimRight\<close> and \<open>Trim\<close> with a cut set of single-byte characters.\<close>

definition trim_right :: "string \<Rightarrow> string \<Rightarrow> string" where
  "trim_right s cs = drop_while_end (\<lambda>c. c \<in> set cs) s"

definition trim :: "string \<Rightarrow> string \<Rightarrow> string" where
  "trim s cs = drop_while_end (\<lambda>c. c \<in> set cs) (dropWhile (\<lambda>c. c \<in> set cs) s)"

definition trim_suffix :: "string \<Rightarrow> string \<Rightarrow> string" where
  "trim_suffix s p = (if has_suffix s p then take (length s - length p) s else s)"

definition trim_prefix :: "string \<Rightarrow> string \<Rightarrow> string" where
  "trim_prefix s p = (if has_prefix s p then drop (length p) s else s)"

function fields :: "string \<Rightarrow> string list" where
  "fields s =
     (let t = dropWhile is_space s in
      if t = [] then []
      else takeWhile (\<lambda>c. \<not> is_space c) t # fields (dropWhile (\<lambda>c. \<not> is_space c) t))"
  by pat_completeness auto
termination
proof (relation "measure length", goal_cases)
  case 1
  then show ?case by simp
next
  case (2 s t)
  then obtain c cs where t: "t = c # cs" "\<not> is_space c"
    by (metis dropWhile_eq_Cons_conv list.exhaust)
  have "length (dropWhile (\<lambda>c. \<not> is_space c) t) < length t"
    using t by (simp add: le_imp_less_Suc length_dropWhile_le)
  also have "length t \<le> length s"
    using 2(1) by (simp add: length_dropWhile_le)
  finally show ?case by simp
qed

declare fields.simps [simp del]

text \<open>\<open>ToLower\<close>, \<open>ToUpper\<close> and \<open>EqualFold\<close> on ASCII text.\<close>

definition lower_char :: "char \<Rightarrow> char" where
  "lower_char c =
     (if 65 \<le> (of_char c :: int) \<and> (of_char c :: int) \<le> 90
      then char_of ((of_char c :: int) + 32) else c)"

definition upper_char :: "char \<Rightarrow> char" where
  "upper_char c =
     (if 97 \<le> (of_char c :: int) \<and> (of_char c :: int) \<le> 122
      then char_of ((of_char c :: int) - 32) else c)"

definition to_lower :: "string \<Rightarrow> string" where
  "to_lower s = map lower_char s"

definition to_upper :: "string \<Rightarrow> string" where
  "to_upper s = map upper_char s"

definition equal_fold :: "string \<Rightarrow> string \<Rightarrow> bool" where
  "equal_fold s t \<longleftrightarrow> to_lower s = to_lower t"

lemma lower_char_idem [simp]: "lower_char (lower_char c) = lower_char c"
  by (auto simp: lower_char_def of_char_of)

lemma to_lower_idem [simp]: "to_lower (to_lower s) = to_lower s"
  by (simp add: to_lower_def comp_def)

lemma to_lower_Nil_iff [simp]: "to_lower s = [] \<longleftrightarrow> s = []"
  by (simp add: to_lower_def)

lemma length_to_lower [simp]: "length (to_lower s) = length s"
  by (simp add: to_lower_def)

lemma length_drop_while_end: "length (drop_while_end P s) \<le> length s"
  unfolding drop_while_end_def by (metis length_dropWhile_le length_rev)

lemma length_trim_space: "length (trim_space s) \<le> length s"
  unfolding trim_space_def
  using length_drop_while_end length_dropWhile_le order_trans by blast

lemma set_drop_while_end: "set (drop_while_end P s) \<subseteq> set s"
  unfolding drop_while_end_def using set_dropWhileD by fastforce

lemma set_trim_space: "set (trim_space s) \<subseteq> set s"
  unfolding trim_space_def
  by (meson order_trans set_dropWhileD set_drop_while_end subsetI)

section \<open>Numbers in decimal: \<open>strconv.Itoa\<close> and \<open>strconv.Atoi\<close>\<close>

definition digit_char :: "int \<Rightarrow> char" where
  "digit_char d = char_of (48 + d)"

definition is_digit :: "char \<Rightarrow> bool" where
  "is_digit c \<longleftrightarrow> 48 \<le> (of_char c :: int) \<and> (of_char c :: int) \<le> 57"

definition digit_val :: "char \<Rightarrow> int" where
  "digit_val c = of_char c - 48"

function udec :: "int \<Rightarrow> string" where
  "udec n = (if n < 10 then [digit_char n] else udec (n div 10) @ [digit_char (n mod 10)])"
  by pat_completeness auto
termination
  by (relation "measure nat") auto

declare udec.simps [simp del]

definition itoa :: "int \<Rightarrow> string" where
  "itoa i = (if i < 0 then CHR ''-'' # udec (- i) else udec i)"

definition nat_str :: "nat \<Rightarrow> string" where
  "nat_str n = itoa (int n)"

definition digits_val :: "string \<Rightarrow> int" where
  "digits_val s = foldl (\<lambda>n c. 10 * n + digit_val c) 0 s"

text \<open>
  \<open>Atoi\<close> takes an optional sign and at least one digit and refuses what does not fit
  in Go's 64-bit \<open>int\<close>.
\<close>

definition atoi :: "string \<Rightarrow> int option" where
  "atoi s =
     (let neg = (s \<noteq> [] \<and> hd s = CHR ''-'');
          ds = (if s \<noteq> [] \<and> hd s \<in> {CHR ''-'', CHR ''+''} then tl s else s);
          v = (if neg then - digits_val ds else digits_val ds)
      in if ds \<noteq> [] \<and> list_all is_digit ds \<and> - (2 ^ 63) \<le> v \<and> v < 2 ^ 63
         then Some v else None)"

lemma of_char_digit_char [simp]: "0 \<le> d \<Longrightarrow> d < 10 \<Longrightarrow> of_char (digit_char d) = 48 + d"
  by (simp add: digit_char_def of_char_of)

lemma is_digit_digit_char [simp]: "0 \<le> d \<Longrightarrow> d < 10 \<Longrightarrow> is_digit (digit_char d)"
  by (simp add: is_digit_def)

lemma digit_val_digit_char [simp]: "0 \<le> d \<Longrightarrow> d < 10 \<Longrightarrow> digit_val (digit_char d) = d"
  by (simp add: digit_val_def)

lemma udec_nonempty [simp]: "udec n \<noteq> []"
  by (subst udec.simps) simp

lemma udec_digits: "0 \<le> n \<Longrightarrow> list_all is_digit (udec n)"
proof (induction n rule: udec.induct)
  case (1 n)
  then show ?case by (subst udec.simps) simp
qed

lemma digits_val_udec [simp]: "0 \<le> n \<Longrightarrow> digits_val (udec n) = n"
proof (induction n rule: udec.induct)
  case (1 n)
  then show ?case by (subst udec.simps) (auto simp: digits_val_def)
qed

lemma is_digit_not_sign: "is_digit c \<Longrightarrow> c \<notin> {CHR ''-'', CHR ''+''}"
  by (auto simp: is_digit_def)

lemma hd_udec: "0 \<le> n \<Longrightarrow> hd (udec n) \<notin> {CHR ''-'', CHR ''+''}"
  using udec_digits [of n] by (cases "udec n") (auto dest: is_digit_not_sign)

lemma itoa_nonempty [simp]: "itoa i \<noteq> []"
  by (simp add: itoa_def)

lemma itoa_digits: "0 \<le> i \<Longrightarrow> c \<in> set (itoa i) \<Longrightarrow> is_digit c"
  using udec_digits [of i] by (auto simp: itoa_def list_all_iff)

lemma atoi_itoa:
  assumes "- (2 ^ 63) \<le> i" and "i < 2 ^ 63"
  shows "atoi (itoa i) = Some i"
proof (cases "i < 0")
  case True
  with assms show ?thesis
    by (simp add: atoi_def itoa_def udec_digits Let_def)
next
  case False
  with assms hd_udec [of i] show ?thesis
    by (simp add: atoi_def itoa_def udec_digits Let_def)
qed

text \<open>The number of decimal digits, for length bounds.\<close>

lemma length_udec: "n < 10 ^ k \<Longrightarrow> 0 < k \<Longrightarrow> length (udec n) \<le> k"
proof (induction n arbitrary: k rule: udec.induct)
  case (1 n)
  show ?case
  proof (cases "n < 10")
    case True
    with 1 show ?thesis by (subst udec.simps) simp
  next
    case False
    from "1.prems" obtain m where k: "k = Suc m"
      by (cases k) auto
    moreover have "0 < m"
      using False "1.prems" k by (auto intro: gr0I)
    ultimately have m: "k = Suc m" "0 < m" by simp_all
    with "1.prems" have "n div 10 < 10 ^ m" by simp
    with False m "1.IH" have "length (udec (n div 10)) \<le> m" by blast
    with False m show ?thesis by (subst udec.simps) simp
  qed
qed

lemma length_nat_str: "n < 10 ^ k \<Longrightarrow> 0 < k \<Longrightarrow> length (nat_str n) \<le> k"
  using length_udec [of "int n" k] by (simp add: nat_str_def itoa_def flip: of_nat_less_iff)

end
