(* ===== verification/Go_Unicode.thy ===== *)
theory Go_Unicode
  imports Go_Prelude
begin

text \<open>
  UTF-8 and UTF-16 as Go's \<open>unicode/utf8\<close> and \<open>unicode/utf16\<close> define them, on code points
  held as integers. A malformed sequence decodes to the replacement character, as in Go.
\<close>

type_synonym rune = int

definition RuneError :: rune where
  "RuneError = 0xFFFD"

abbreviation code :: "char \<Rightarrow> int" where
  "code c \<equiv> of_char c"

definition is_surrogate :: "rune \<Rightarrow> bool" where
  "is_surrogate r \<longleftrightarrow> 0xD800 \<le> r \<and> r < 0xE000"

definition valid_rune :: "rune \<Rightarrow> bool" where
  "valid_rune r \<longleftrightarrow> 0 \<le> r \<and> r \<le> 0x10FFFF \<and> \<not> is_surrogate r"

section \<open>UTF-8\<close>

text \<open>\<open>utf8.AppendRune\<close>.\<close>

definition utf8_encode :: "rune \<Rightarrow> string" where
  "utf8_encode r0 =
     (let r = (if valid_rune r0 then r0 else RuneError) in
      if r < 0x80 then [char_of r]
      else if r < 0x800 then [char_of (0xC0 + r div 64), char_of (0x80 + r mod 64)]
      else if r < 0x10000 then
        [char_of (0xE0 + r div 4096), char_of (0x80 + r div 64 mod 64), char_of (0x80 + r mod 64)]
      else
        [char_of (0xF0 + r div 262144), char_of (0x80 + r div 4096 mod 64),
         char_of (0x80 + r div 64 mod 64), char_of (0x80 + r mod 64)])"

definition cont :: "char \<Rightarrow> bool" where
  "cont c \<longleftrightarrow> 0x80 \<le> code c \<and> code c \<le> 0xBF"

text \<open>
  \<open>utf8.DecodeRune\<close> on a non-empty string: the code point and the number of bytes. The second
  byte of the lead bytes E0, ED, F0 and F4 has a narrower range.
\<close>

definition second_range :: "int \<Rightarrow> int \<times> int" where
  "second_range b =
     (if b = 0xE0 then (0xA0, 0xBF) else if b = 0xED then (0x80, 0x9F)
      else if b = 0xF0 then (0x90, 0xBF) else if b = 0xF4 then (0x80, 0x8F) else (0x80, 0xBF))"

fun utf8_decode :: "string \<Rightarrow> rune \<times> nat" where
  "utf8_decode [] = (RuneError, 0)"
| "utf8_decode (c # cs) =
     (let b = code c; (lo, hi) = second_range b;
          ok2 = (case cs of d # _ \<Rightarrow> lo \<le> code d \<and> code d \<le> hi | [] \<Rightarrow> False)
      in if b < 0x80 then (b, 1)
         else if 0xC2 \<le> b \<and> b \<le> 0xDF then
           (if ok2 then ((b - 0xC0) * 64 + (code (cs ! 0) - 0x80), 2) else (RuneError, 1))
         else if 0xE0 \<le> b \<and> b \<le> 0xEF then
           (if ok2 \<and> length cs \<ge> 2 \<and> cont (cs ! 1)
            then ((b - 0xE0) * 4096 + (code (cs ! 0) - 0x80) * 64 + (code (cs ! 1) - 0x80), 3)
            else (RuneError, 1))
         else if 0xF0 \<le> b \<and> b \<le> 0xF4 then
           (if ok2 \<and> length cs \<ge> 3 \<and> cont (cs ! 1) \<and> cont (cs ! 2)
            then ((b - 0xF0) * 262144 + (code (cs ! 0) - 0x80) * 4096
                  + (code (cs ! 1) - 0x80) * 64 + (code (cs ! 2) - 0x80), 4)
            else (RuneError, 1))
         else (RuneError, 1))"

lemma utf8_decode_size: "s \<noteq> [] \<Longrightarrow> 1 \<le> snd (utf8_decode s) \<and> snd (utf8_decode s) \<le> length s"
  by (cases s) (auto simp: Let_def split: prod.split list.split)

text \<open>\<open>[]rune(s)\<close> and \<open>string(rs)\<close>.\<close>

function runes :: "string \<Rightarrow> rune list" where
  "runes [] = []"
| "runes (c # cs) = (let (r, n) = utf8_decode (c # cs) in r # runes (drop n (c # cs)))"
  by pat_completeness auto
termination
proof (relation "measure length", goal_cases)
  case (2 c cs x r n)
  then have "n = snd (utf8_decode (c # cs))" by (metis snd_conv)
  then show ?case using utf8_decode_size [of "c # cs"] by simp
qed simp

definition of_runes :: "rune list \<Rightarrow> string" where
  "of_runes rs = concat (map utf8_encode rs)"

section \<open>UTF-16\<close>

type_synonym u16 = int

fun utf16_encode :: "rune list \<Rightarrow> u16 list" where
  "utf16_encode [] = []"
| "utf16_encode (r # rs) =
     (if 0x10000 \<le> r \<and> r \<le> 0x10FFFF
      then (0xD800 + (r - 0x10000) div 1024) # (0xDC00 + (r - 0x10000) mod 1024) # utf16_encode rs
      else if valid_rune r then r # utf16_encode rs
      else RuneError # utf16_encode rs)"

fun utf16_decode :: "u16 list \<Rightarrow> rune list" where
  "utf16_decode [] = []"
| "utf16_decode [u] = [if is_surrogate u then RuneError else u]"
| "utf16_decode (u # v # us) =
     (if \<not> is_surrogate u then u # utf16_decode (v # us)
      else if u < 0xDC00 \<and> 0xDC00 \<le> v \<and> v < 0xE000
      then ((u - 0xD800) * 1024 + (v - 0xDC00) + 0x10000) # utf16_decode us
      else RuneError # utf16_decode (v # us))"

lemma utf16_decode_bmp:
  "\<not> is_surrogate u \<Longrightarrow> utf16_decode (u # us) = u # utf16_decode us"
  by (cases us) auto

lemma utf16_decode_pair:
  assumes "0x10000 \<le> r" "r \<le> 0x10FFFF"
  shows "utf16_decode ((0xD800 + (r - 0x10000) div 1024) # (0xDC00 + (r - 0x10000) mod 1024) # us)
    = r # utf16_decode us"
proof -
  define q where "q = (r - 0x10000) div 1024"
  define m where "m = (r - 0x10000) mod 1024"
  have "r - 0x10000 = q * 1024 + m" by (simp add: q_def m_def)
  moreover have "0 \<le> q" "q < 1024" using assms by (auto simp: q_def)
  moreover have "0 \<le> m" "m < 1024" by (auto simp: m_def)
  ultimately show ?thesis
    by (fold q_def m_def) (simp add: is_surrogate_def algebra_simps)
qed

lemma utf16_decode_encode: "list_all valid_rune rs \<Longrightarrow> utf16_decode (utf16_encode rs) = rs"
proof (induction rs)
  case (Cons r rs)
  then show ?case
  proof (cases "0x10000 \<le> r")
    case True
    with Cons show ?thesis
      using utf16_decode_pair [of r "utf16_encode rs"] by (simp add: valid_rune_def)
  next
    case False
    with Cons show ?thesis by (simp add: utf16_decode_bmp valid_rune_def)
  qed
qed simp

lemma utf16_encode_range: "u \<in> set (utf16_encode rs) \<Longrightarrow> 0 \<le> u \<and> u < 65536"
  by (induction rs) (auto simp: valid_rune_def RuneError_def split: if_splits)

section \<open>Valid UTF-8 round trips\<close>

lemma code_nonneg [simp]: "0 \<le> code c"
  by (cases c) (simp add: horner_sum_simps)

lemma code_char_of [simp]: "0 \<le> i \<Longrightarrow> i < 256 \<Longrightarrow> code (char_of i) = i"
  by (simp add: of_char_of)

text \<open>One code point, in each of the four lengths.\<close>

lemma utf8_2:
  assumes "0x80 \<le> r" "r < 0x800"
  shows "utf8_decode (utf8_encode r @ s) = (r, length (utf8_encode r))"
proof -
  define q where "q = r div 64"
  define m where "m = r mod 64"
  have r: "r = q * 64 + m" by (simp add: q_def m_def)
  have "2 \<le> q" "q < 32" "0 \<le> m" "m < 64" using assms by (auto simp: q_def m_def)
  moreover have "utf8_encode r = [char_of (0xC0 + q), char_of (0x80 + m)]"
    using assms by (simp add: utf8_encode_def valid_rune_def is_surrogate_def q_def m_def)
  ultimately show ?thesis by (simp add: second_range_def r)
qed

lemma div_64:
  fixes r :: int
  shows "r div 4096 * 64 + r div 64 mod 64 = r div 64"
    and "r div 262144 * 64 + r div 4096 mod 64 = r div 4096"
  using div_mult_mod_eq [of "r div 64" 64] div_mult_mod_eq [of "r div 4096" 64]
  by (simp_all flip: zdiv_zmult2_eq)

lemma utf8_3:
  assumes "0x800 \<le> r" "r < 0x10000" "\<not> is_surrogate r"
  shows "utf8_decode (utf8_encode r @ s) = (r, length (utf8_encode r))"
proof -
  define p where "p = r div 4096"
  define q where "q = r div 64 mod 64"
  define m where "m = r mod 64"
  have r: "r = p * 4096 + q * 64 + m"
    using div_mult_mod_eq [of r 64] div_64 [of r] unfolding p_def q_def m_def by linarith
  have b: "0 \<le> p" "p < 16" "0 \<le> q" "q < 64" "0 \<le> m" "m < 64"
    using assms by (auto simp: p_def q_def m_def)
  have "p = 0 \<Longrightarrow> 32 \<le> q" using assms(1) b r by linarith
  moreover have "p = 13 \<Longrightarrow> q < 32" using assms(3) b r by (auto simp: is_surrogate_def)
  moreover have "utf8_encode r = [char_of (0xE0 + p), char_of (0x80 + q), char_of (0x80 + m)]"
    using assms by (simp add: utf8_encode_def valid_rune_def p_def q_def m_def)
  ultimately show ?thesis using b
    by (auto simp: second_range_def r cont_def Let_def numeral_2_eq_2)
qed

lemma utf8_4:
  assumes "0x10000 \<le> r" "r \<le> 0x10FFFF"
  shows "utf8_decode (utf8_encode r @ s) = (r, length (utf8_encode r))"
proof -
  define k where "k = r div 262144"
  define p where "p = r div 4096 mod 64"
  define q where "q = r div 64 mod 64"
  define m where "m = r mod 64"
  have r: "r = k * 262144 + p * 4096 + q * 64 + m"
    using div_mult_mod_eq [of r 64] div_64 [of r] unfolding k_def p_def q_def m_def by linarith
  have b: "0 \<le> k" "k \<le> 4" "0 \<le> p" "p < 64" "0 \<le> q" "q < 64" "0 \<le> m" "m < 64"
    using assms by (auto simp: k_def p_def q_def m_def)
  have "k = 0 \<Longrightarrow> 16 \<le> p" using assms(1) b r by linarith
  moreover have "k = 4 \<Longrightarrow> p < 16" using assms(2) b r by linarith
  moreover have "utf8_encode r
      = [char_of (0xF0 + k), char_of (0x80 + p), char_of (0x80 + q), char_of (0x80 + m)]"
    using assms by (simp add: utf8_encode_def valid_rune_def is_surrogate_def k_def p_def q_def m_def)
  ultimately show ?thesis using b
    by (auto simp: second_range_def r cont_def Let_def numeral_2_eq_2)
qed

lemma utf8_decode_encode:
  assumes "valid_rune r"
  shows "utf8_decode (utf8_encode r @ s) = (r, length (utf8_encode r))"
proof -
  have "utf8_decode (utf8_encode r @ s) = (r, length (utf8_encode r))" if "r < 0x80"
    using that assms by (simp add: utf8_encode_def valid_rune_def second_range_def)
  then show ?thesis
    using assms utf8_2 [of r s] utf8_3 [of r s] utf8_4 [of r s]
    unfolding valid_rune_def by linarith
qed

lemma utf8_encode_nonempty [simp]: "utf8_encode r \<noteq> []"
  by (simp add: utf8_encode_def Let_def)

lemma runes_of_runes: "list_all valid_rune rs \<Longrightarrow> runes (of_runes rs) = rs"
proof (induction rs)
  case (Cons r rs)
  obtain c cs where c: "utf8_encode r @ of_runes rs = c # cs"
    by (metis append_is_Nil_conv list.exhaust utf8_encode_nonempty)
  have "runes (utf8_encode r @ of_runes rs)
      = (let (x, n) = utf8_decode (utf8_encode r @ of_runes rs)
         in x # runes (drop n (utf8_encode r @ of_runes rs)))"
    unfolding c by (rule runes.simps)
  with Cons show ?case
    by (simp add: utf8_decode_encode of_runes_def del: runes.simps utf8_decode.simps)
qed (simp add: of_runes_def)

text \<open>The strings Go calls valid UTF-8, and the ASCII strings among them.\<close>

definition valid_utf8 :: "string \<Rightarrow> bool" where
  "valid_utf8 s \<longleftrightarrow> of_runes (runes s) = s \<and> list_all valid_rune (runes s)"

definition is_ascii :: "char \<Rightarrow> bool" where
  "is_ascii c \<longleftrightarrow> code c < 128"

lemma utf8_ascii:
  assumes "is_ascii c"
  shows "utf8_decode (c # cs) = (code c, 1)" and "utf8_encode (code c) = [c]"
  using assms by (auto simp: is_ascii_def utf8_encode_def valid_rune_def is_surrogate_def Let_def
      split: prod.split)

lemma runes_ascii: "list_all is_ascii s \<Longrightarrow> runes s = map code s"
  by (induction s) (auto simp: utf8_ascii simp del: utf8_decode.simps)

lemma of_runes_runes_ascii: "list_all is_ascii s \<Longrightarrow> of_runes (runes s) = s"
  by (induction s) (auto simp: utf8_ascii of_runes_def simp del: utf8_decode.simps)

lemma valid_utf8_ascii: "list_all is_ascii s \<Longrightarrow> valid_utf8 s"
  unfolding valid_utf8_def
  by (rule conjI, erule of_runes_runes_ascii)
     (auto simp: runes_ascii list_all_iff is_ascii_def valid_rune_def is_surrogate_def)

lemma valid_utf8_of_runes: "list_all valid_rune rs \<Longrightarrow> valid_utf8 (of_runes rs)"
  by (simp add: valid_utf8_def runes_of_runes)

end
