(* ===== verification/Go_Encoding.thy ===== *)
theory Go_Encoding
  imports Go_Prelude
begin

text \<open>
  The text encodings of Go's \<open>encoding/base64\<close> (\<open>StdEncoding\<close> and
  \<open>RawURLEncoding\<close>) and \<open>encoding/hex\<close>, with their round trips, and the
  little- and big-endian integers of \<open>encoding/binary\<close>. The locale \<open>text_codec\<close>
  is the contract the components rely on; it is interpreted for each encoding.
\<close>

section \<open>The contract of a text encoding\<close>

locale text_codec =
  fixes enc :: "bytes \<Rightarrow> string"
    and dec :: "string \<Rightarrow> bytes option"
  assumes dec_enc: "dec (enc b) = Some b"
begin

lemma enc_inject: "enc a = enc b \<longleftrightarrow> a = b"
  by (metis dec_enc option.inject)

end

text \<open>A codec whose output never holds the separator that joins two encoded parts.\<close>

locale separated_codec = text_codec +
  fixes sep :: char
  assumes sep_notin: "sep \<notin> set (enc b)"
begin

lemma cut_pair: "cut (enc a @ sep # s) [sep] = Some (enc a, s)"
  by (rule cut_single) (rule sep_notin)

end

section \<open>Base64\<close>

definition b64_std :: string where
  "b64_std = ''ABCDEFGHIJKLMNOPQRSTUVWXYZabcdefghijklmnopqrstuvwxyz0123456789+/''"

definition b64_url :: string where
  "b64_url = ''ABCDEFGHIJKLMNOPQRSTUVWXYZabcdefghijklmnopqrstuvwxyz0123456789-_''"

fun find_index :: "'a \<Rightarrow> 'a list \<Rightarrow> nat option" where
  "find_index c [] = None"
| "find_index c (x # xs) = (if c = x then Some 0 else map_option Suc (find_index c xs))"

lemma find_index_nth: "distinct xs \<Longrightarrow> i < length xs \<Longrightarrow> find_index (xs ! i) xs = Some i"
proof (induction xs arbitrary: i)
  case Nil
  then show ?case by simp
next
  case (Cons x xs)
  then show ?case by (cases i) auto
qed

lemma find_index_SomeD: "find_index c xs = Some i \<Longrightarrow> i < length xs \<and> xs ! i = c"
  by (induction xs arbitrary: i) (auto split: if_splits)

text \<open>One group of three bytes as four sextets, and the two partial groups.\<close>

definition sextets3 :: "nat \<Rightarrow> nat \<Rightarrow> nat \<Rightarrow> nat list" where
  "sextets3 a b c =
     [a div 4, a mod 4 * 16 + b div 16, b mod 16 * 4 + c div 64, c mod 64]"

fun b64_encode :: "bool \<Rightarrow> string \<Rightarrow> bytes \<Rightarrow> string" where
  "b64_encode pad al [] = []"
| "b64_encode pad al [a] =
     map ((!) al) (take 2 (sextets3 (unat a) 0 0)) @ (if pad then ''=='' else [])"
| "b64_encode pad al [a, b] =
     map ((!) al) (take 3 (sextets3 (unat a) (unat b) 0)) @ (if pad then ''='' else [])"
| "b64_encode pad al (a # b # c # rest) =
     map ((!) al) (sextets3 (unat a) (unat b) (unat c)) @ b64_encode pad al rest"

definition unsextets :: "nat \<Rightarrow> nat \<Rightarrow> nat \<Rightarrow> nat \<Rightarrow> bytes" where
  "unsextets p q r s =
     [word_of_nat (p * 4 + q div 16), word_of_nat (q mod 16 * 16 + r div 4),
      word_of_nat (r mod 4 * 64 + s)]"

text \<open>
  The decoder works on the input with line breaks removed, as Go's does. A final group is
  complete, or ends in padding (\<open>StdEncoding\<close>), or is short (\<open>RawURLEncoding\<close>).
\<close>

fun b64_quanta :: "bool \<Rightarrow> string \<Rightarrow> string \<Rightarrow> bytes option" where
  "b64_quanta pad al [] = Some []"
| "b64_quanta pad al [x] = None"
| "b64_quanta pad al [x, y] =
     (if pad then None else
      case (find_index x al, find_index y al) of
        (Some p, Some q) \<Rightarrow> Some (take 1 (unsextets p q 0 0))
      | _ \<Rightarrow> None)"
| "b64_quanta pad al [x, y, z] =
     (if pad then None else
      case (find_index x al, find_index y al, find_index z al) of
        (Some p, Some q, Some r) \<Rightarrow> Some (take 2 (unsextets p q r 0))
      | _ \<Rightarrow> None)"
| "b64_quanta pad al (x # y # z # w # rest) =
     (case (find_index x al, find_index y al, find_index z al, find_index w al) of
        (Some p, Some q, Some r, Some s) \<Rightarrow>
          map_option ((@) (unsextets p q r s)) (b64_quanta pad al rest)
      | (Some p, Some q, Some r, None) \<Rightarrow>
          if pad \<and> w = CHR ''='' \<and> rest = [] then Some (take 2 (unsextets p q r 0)) else None
      | (Some p, Some q, None, None) \<Rightarrow>
          if pad \<and> z = CHR ''='' \<and> w = CHR ''='' \<and> rest = []
          then Some (take 1 (unsextets p q 0 0)) else None
      | _ \<Rightarrow> None)"

definition b64_decode :: "bool \<Rightarrow> string \<Rightarrow> string \<Rightarrow> bytes option" where
  "b64_decode pad al s =
     b64_quanta pad al (filter (\<lambda>c. c \<noteq> CHR 0x0A \<and> c \<noteq> CHR 0x0D) s)"

abbreviation std_encode :: "bytes \<Rightarrow> string" where
  "std_encode \<equiv> b64_encode True b64_std"

abbreviation std_decode :: "string \<Rightarrow> bytes option" where
  "std_decode \<equiv> b64_decode True b64_std"

abbreviation rawurl_encode :: "bytes \<Rightarrow> string" where
  "rawurl_encode \<equiv> b64_encode False b64_url"

abbreviation rawurl_decode :: "string \<Rightarrow> bytes option" where
  "rawurl_decode \<equiv> b64_decode False b64_url"

text \<open>The alphabets have 64 distinct letters, none of them padding or a line break.\<close>

definition b64_alphabet :: "string \<Rightarrow> bool" where
  "b64_alphabet al \<longleftrightarrow> distinct al \<and> length al = 64 \<and>
     CHR ''='' \<notin> set al \<and> CHR 0x0A \<notin> set al \<and> CHR 0x0D \<notin> set al"

lemma b64_alphabet_std: "b64_alphabet b64_std"
  by (simp add: b64_alphabet_def b64_std_def)

lemma b64_alphabet_url: "b64_alphabet b64_url"
  by (simp add: b64_alphabet_def b64_url_def)

lemma find_index_notin: "c \<notin> set al \<Longrightarrow> find_index c al = None"
  by (induction al) auto

lemma find_index_alphabet:
  "b64_alphabet al \<Longrightarrow> i < 64 \<Longrightarrow> find_index (al ! i) al = Some i"
  by (simp add: b64_alphabet_def find_index_nth)

lemma unat_byte: "unat (b :: byte) < 256"
  using unsigned_less [of b] by simp

lemma sextet_bounds:
  fixes a b c :: byte
  shows "unat a div 4 < 64" "unat a mod 4 * 16 + unat b div 16 < 64"
    "unat b mod 16 * 4 + unat c div 64 < 64" "unat c mod 64 < 64"
    "unat a mod 4 * 16 < 64" "unat b mod 16 * 4 < 64"
  using unat_byte [of a] unat_byte [of b] unat_byte [of c] by auto

lemma unsextets_sextets:
  fixes a b c :: byte
  shows "unsextets (unat a div 4) (unat a mod 4 * 16 + unat b div 16)
      (unat b mod 16 * 4 + unat c div 64) (unat c mod 64) = [a, b, c]"
proof -
  have "unat b div 16 < 16" "unat c div 64 < 4"
    using unat_byte [of b] unat_byte [of c] by auto
  then have "unat a div 4 * 4 + (unat a mod 4 * 16 + unat b div 16) div 16 = unat a"
    and "(unat a mod 4 * 16 + unat b div 16) mod 16 * 16
      + (unat b mod 16 * 4 + unat c div 64) div 4 = unat b"
    and "(unat b mod 16 * 4 + unat c div 64) mod 4 * 64 + unat c mod 64 = unat c"
    by simp_all
  then show ?thesis by (simp add: unsextets_def)
qed

lemmas b64_roundtrip_simps =
  sextets3_def find_index_alphabet sextet_bounds unsextets_sextets

lemma b64_quanta_encode:
  assumes "b64_alphabet al"
  shows "b64_quanta pad al (b64_encode pad al bs) = Some bs"
  using assms
proof (induction pad al bs rule: b64_encode.induct)
  case (2 pad al a)
  have "take 1 (unsextets (unat a div 4) (unat a mod 4 * 16) 0 0) = [a]"
    using unsextets_sextets [of a 0 0] by simp
  moreover have "find_index (CHR ''='') al = None"
    using 2 by (simp add: b64_alphabet_def find_index_notin)
  ultimately show ?case
    using 2 by (simp add: b64_roundtrip_simps)
next
  case (3 pad al a b)
  have "take 2 (unsextets (unat a div 4) (unat a mod 4 * 16 + unat b div 16)
      (unat b mod 16 * 4) 0) = [a, b]"
    using unsextets_sextets [of a b 0] by simp
  moreover have "find_index (CHR ''='') al = None"
    using 3 by (simp add: b64_alphabet_def find_index_notin)
  ultimately show ?case
    using 3 by (simp add: b64_roundtrip_simps)
qed (simp_all add: b64_roundtrip_simps)

lemma nth_alphabet: "b64_alphabet al \<Longrightarrow> i < 64 \<Longrightarrow> al ! i \<in> set al"
  by (simp add: b64_alphabet_def)

lemma set_b64_encode:
  assumes "b64_alphabet al"
  shows "set (b64_encode pad al bs) \<subseteq> set al \<union> (if pad then {CHR ''=''} else {})"
  using assms
  by (induction pad al bs rule: b64_encode.induct)
     (auto simp: sextets3_def nth_alphabet sextet_bounds)

lemma b64_decode_encode:
  assumes "b64_alphabet al"
  shows "b64_decode pad al (b64_encode pad al bs) = Some bs"
proof -
  have "CHR 0x0A \<notin> set (b64_encode pad al bs)" "CHR 0x0D \<notin> set (b64_encode pad al bs)"
    using set_b64_encode [OF assms, of pad bs] assms
    by (auto simp: b64_alphabet_def split: if_splits)
  then have "filter (\<lambda>c. c \<noteq> CHR 0x0A \<and> c \<noteq> CHR 0x0D) (b64_encode pad al bs)
      = b64_encode pad al bs"
    by (auto simp: filter_id_conv)
  then show ?thesis
    by (simp add: b64_decode_def b64_quanta_encode assms)
qed

lemma dot_notin_b64_url: "CHR ''.'' \<notin> set b64_url"
  by (simp add: b64_url_def)

interpretation std_base64: text_codec std_encode std_decode
  by unfold_locales (rule b64_decode_encode [OF b64_alphabet_std])

interpretation rawurl_base64: separated_codec rawurl_encode rawurl_decode "CHR ''.''"
proof unfold_locales
  show "rawurl_decode (rawurl_encode b) = Some b" for b
    by (rule b64_decode_encode [OF b64_alphabet_url])
  show "CHR ''.'' \<notin> set (rawurl_encode b)" for b
    using set_b64_encode [OF b64_alphabet_url, of False b] dot_notin_b64_url by auto
qed

section \<open>Hexadecimal\<close>

definition hex_alphabet :: string where
  "hex_alphabet = ''0123456789abcdef''"

fun hex_encode :: "bytes \<Rightarrow> string" where
  "hex_encode [] = []"
| "hex_encode (b # bs) =
     hex_alphabet ! (unat b div 16) # hex_alphabet ! (unat b mod 16) # hex_encode bs"

definition hex_digit :: "char \<Rightarrow> nat option" where
  "hex_digit c = find_index (lower_char c) hex_alphabet"

fun hex_decode :: "string \<Rightarrow> bytes option" where
  "hex_decode [] = Some []"
| "hex_decode [x] = None"
| "hex_decode (x # y # rest) =
     (case (hex_digit x, hex_digit y) of
        (Some h, Some l) \<Rightarrow> map_option ((#) (word_of_nat (h * 16 + l))) (hex_decode rest)
      | _ \<Rightarrow> None)"

lemma lower_char_hex: "c \<in> set hex_alphabet \<Longrightarrow> lower_char c = c"
  by (auto simp: hex_alphabet_def lower_char_def)

lemma hex_digit_nth [simp]:
  assumes "i < 16"
  shows "hex_digit (hex_alphabet ! i) = Some i"
proof -
  have len: "length hex_alphabet = 16" and dist: "distinct hex_alphabet"
    by (simp_all add: hex_alphabet_def)
  with assms have "hex_alphabet ! i \<in> set hex_alphabet" by simp
  then show ?thesis
    using assms len dist by (simp add: hex_digit_def lower_char_hex find_index_nth)
qed

lemma hex_decode_encode: "hex_decode (hex_encode bs) = Some bs"
proof (induction bs)
  case (Cons b bs)
  moreover have "unat b div 16 < 16" using unat_byte [of b] by simp
  ultimately show ?case by simp
qed simp

lemma length_hex_encode [simp]: "length (hex_encode bs) = 2 * length bs"
  by (induction bs) auto

lemma length_hex_decode: "hex_decode s = Some b \<Longrightarrow> length s = 2 * length b"
  by (induction s arbitrary: b rule: hex_decode.induct) (auto split: option.splits)

interpretation hex: text_codec hex_encode hex_decode
  by unfold_locales (rule hex_decode_encode)

section \<open>Integers in little- and big-endian order\<close>

text \<open>
  \<open>encoding/binary\<close>: \<open>le_bytes n v\<close> is the \<open>n\<close>-byte little-endian form of \<open>v\<close>
  (reduced modulo \<open>256 ^ n\<close>, as a Go conversion to the unsigned type does).
\<close>

fun le_bytes :: "nat \<Rightarrow> int \<Rightarrow> bytes" where
  "le_bytes 0 v = []"
| "le_bytes (Suc n) v = word_of_int v # le_bytes n (v div 256)"

fun le_val :: "bytes \<Rightarrow> int" where
  "le_val [] = 0"
| "le_val (b # bs) = uint b + 256 * le_val bs"

definition be_bytes :: "nat \<Rightarrow> int \<Rightarrow> bytes" where
  "be_bytes n v = rev (le_bytes n v)"

definition be_val :: "bytes \<Rightarrow> int" where
  "be_val bs = le_val (rev bs)"

lemma length_le_bytes [simp]: "length (le_bytes n v) = n"
  by (induction n arbitrary: v) auto

lemma length_be_bytes [simp]: "length (be_bytes n v) = n"
  by (simp add: be_bytes_def)

lemma uint_byte: "0 \<le> uint (b :: byte)" "uint (b :: byte) < 256"
  using unsigned_less [of b, where ?'a = int] by simp_all

lemma le_val_le_bytes_mod: "le_val (le_bytes n v) = v mod 256 ^ n"
proof (induction n arbitrary: v)
  case (Suc n)
  have "uint (word_of_int v :: byte) = v mod 256"
    by (simp add: uint_word_of_int)
  with Suc show ?case
    by (simp add: zmod_zmult2_eq)
qed simp

lemma le_val_le_bytes [simp, wire_simps]: "0 \<le> v \<Longrightarrow> v < 256 ^ n \<Longrightarrow> le_val (le_bytes n v) = v"
  by (simp add: le_val_le_bytes_mod)

lemma be_val_be_bytes [simp, wire_simps]: "0 \<le> v \<Longrightarrow> v < 256 ^ n \<Longrightarrow> be_val (be_bytes n v) = v"
  by (simp add: be_val_def be_bytes_def)

lemma le_val_nonneg [simp]: "0 \<le> le_val bs"
  by (induction bs) simp_all

lemma be_val_nonneg [simp]: "0 \<le> be_val bs"
  by (simp add: be_val_def)

lemma le_val_less: "le_val bs < 256 ^ length bs"
proof (induction bs)
  case (Cons b bs)
  then have "256 * (le_val bs + 1) \<le> 256 * 256 ^ length bs" by simp
  then show ?case using uint_byte(2) [of b] by simp
qed simp

lemma be_val_less: "be_val bs < 256 ^ length bs"
  using le_val_less [of "rev bs"] by (simp add: be_val_def)

lemma le_bytes_le_val [simp]: "length bs = n \<Longrightarrow> le_bytes n (le_val bs) = bs"
proof (induction bs arbitrary: n)
  case (Cons b bs)
  then obtain m where "n = Suc m" "length bs = m" by auto
  moreover have zero: "(256 :: byte) = 0"
    by transfer (simp add: take_bit_eq_mod)
  have "256 * (x :: byte) = 0" for x
    by (simp only: zero mult_zero_left)
  ultimately show ?case
    using Cons.IH uint_byte [of b] by simp
qed simp

lemma be_bytes_be_val [simp]: "length bs = n \<Longrightarrow> be_bytes n (be_val bs) = bs"
  by (simp add: be_bytes_def be_val_def)

text \<open>The contract of a self-delimiting wire format: the reader gives back the value and the rest.\<close>

locale framing =
  fixes enc :: "'a \<Rightarrow> bytes"
    and dec :: "bytes \<Rightarrow> 'a parsed"
    and ok :: "'a \<Rightarrow> bool"
  assumes dec_enc: "ok x \<Longrightarrow> dec (enc x @ rest) = Some (x, rest)"
begin

fun enc_all :: "'a list \<Rightarrow> bytes" where
  "enc_all [] = []"
| "enc_all (x # xs) = enc x @ enc_all xs"

fun dec_n :: "nat \<Rightarrow> bytes \<Rightarrow> 'a list parsed" where
  "dec_n 0 b = Some ([], b)"
| "dec_n (Suc n) b =
     (case dec b of
        None \<Rightarrow> None
      | Some (x, rest) \<Rightarrow> map_option (\<lambda>(xs, r). (x # xs, r)) (dec_n n rest))"

lemma dec_n_enc_all:
  "list_all ok xs \<Longrightarrow> dec_n (length xs) (enc_all xs @ rest) = Some (xs, rest)"
  by (induction xs) (auto simp: dec_enc)

lemma enc_unique:
  "ok x \<Longrightarrow> ok y \<Longrightarrow> enc x @ r = enc y @ s \<Longrightarrow> x = y \<and> r = s"
  by (metis dec_enc option.inject prod.inject)

end

end
