(* ===== verification/Go_Json.thy ===== *)
theory Go_Json
  imports Go_Unicode Go_Encoding
begin

text \<open>
  The part of Go's \<open>encoding/json\<close> the program uses: the text form of a value as
  \<open>json.Marshal\<close> writes it (compact, with HTML characters escaped), and the scanner behind
  \<open>json.Unmarshal\<close> and \<open>json.Decoder\<close>, which tells a malformed text from one that is merely
  incomplete. The main lemma is the round trip of a printed value through the scanner.
\<close>

section \<open>Values and their text\<close>

datatype json =
    JNull
  | JBool bool
  | JNum string
  | JStr string
  | JArr "json list"
  | JObj "(string \<times> json) list"

definition bsl :: char where
  "bsl = CHR 0x5C"

definition dquote :: char where
  "dquote = CHR 0x22"

definition hex_char :: "int \<Rightarrow> char" where
  "hex_char i = hex_alphabet ! nat i"

definition json_escape :: "char \<Rightarrow> string" where
  "json_escape c =
     (if c = dquote \<or> c = bsl then [bsl, c]
      else if c = CHR 0x08 then [bsl, CHR ''b'']
      else if c = CHR 0x0C then [bsl, CHR ''f'']
      else if c = CHR 0x0A then [bsl, CHR ''n'']
      else if c = CHR 0x0D then [bsl, CHR ''r'']
      else if c = CHR 0x09 then [bsl, CHR ''t'']
      else if code c < 32 \<or> c \<in> {CHR ''<'', CHR ''>'', CHR ''&''}
      then [bsl, CHR ''u'', CHR ''0'', CHR ''0'', hex_char (code c div 16), hex_char (code c mod 16)]
      else [c])"

function json_quote_body :: "string \<Rightarrow> string" where
  "json_quote_body [] = []"
| "json_quote_body (c # cs) =
     (let (r, n) = utf8_decode (c # cs) in
      if is_ascii c then json_escape c @ json_quote_body cs
      else if r = RuneError \<and> n = 1 then (bsl # ''ufffd'') @ json_quote_body cs
      else if r = 0x2028 \<or> r = 0x2029
      then (bsl # ''u202'' @ [hex_char (r mod 16)]) @ json_quote_body (drop n (c # cs))
      else take n (c # cs) @ json_quote_body (drop n (c # cs)))"
  by pat_completeness auto
termination
proof (relation "measure length", goal_cases)
  case (4 c cs x r n)
  then have "n = snd (utf8_decode (c # cs))" by (metis snd_conv)
  then show ?case using utf8_decode_size [of "c # cs"] by simp
next
  case (5 c cs x r n)
  then have "n = snd (utf8_decode (c # cs))" by (metis snd_conv)
  then show ?case using utf8_decode_size [of "c # cs"] by simp
qed simp_all

definition json_quote :: "string \<Rightarrow> string" where
  "json_quote s = dquote # json_quote_body s @ [dquote]"

fun print_json :: "json \<Rightarrow> string" where
  "print_json JNull = ''null''"
| "print_json (JBool b) = (if b then ''true'' else ''false'')"
| "print_json (JNum s) = s"
| "print_json (JStr s) = json_quote s"
| "print_json (JArr vs) = ''['' @ join (map print_json vs) '','' @ '']''"
| "print_json (JObj ms) =
     ''{'' @ join (map (\<lambda>kv. json_quote (fst kv) @ '':'' @ print_json (snd kv)) ms) '','' @ ''}''"

section \<open>The scanner\<close>

text \<open>\<open>JMore\<close> is the scanner's \<open>io.ErrUnexpectedEOF\<close>, \<open>JBad\<close> a syntax error.\<close>

datatype 'a jres = JOk 'a string | JMore | JBad

definition is_json_space :: "char \<Rightarrow> bool" where
  "is_json_space c \<longleftrightarrow> c \<in> {CHR '' '', CHR 0x09, CHR 0x0A, CHR 0x0D}"

definition skip_ws :: "string \<Rightarrow> string" where
  "skip_ws s = dropWhile is_json_space s"

definition literal :: "string \<Rightarrow> 'a \<Rightarrow> string \<Rightarrow> 'a jres" where
  "literal w v s =
     (if has_prefix s w then JOk v (drop (length w) s)
      else if has_prefix w s then JMore else JBad)"

fun hex4 :: "string \<Rightarrow> (int \<times> string) jres" where
  "hex4 (a # b # c # d # rest) =
     (case (hex_digit a, hex_digit b, hex_digit c, hex_digit d) of
        (Some w, Some x, Some y, Some z) \<Rightarrow>
          JOk (int w * 4096 + int x * 256 + int y * 16 + int z, rest) rest
      | _ \<Rightarrow> JBad)"
| "hex4 s = (if list_all (\<lambda>c. hex_digit c \<noteq> None) s then JMore else JBad)"

definition unescape :: "char \<Rightarrow> char option" where
  "unescape e =
     (if e = dquote \<or> e = bsl \<or> e = CHR ''/'' then Some e
      else if e = CHR ''b'' then Some (CHR 0x08)
      else if e = CHR ''f'' then Some (CHR 0x0C)
      else if e = CHR ''n'' then Some (CHR 0x0A)
      else if e = CHR ''r'' then Some (CHR 0x0D)
      else if e = CHR ''t'' then Some (CHR 0x09)
      else None)"

text \<open>The low surrogate that must follow a high one for the pair to count.\<close>

fun low_surrogate :: "string \<Rightarrow> (int \<times> string) option" where
  "low_surrogate (b # u # s) =
     (if b = bsl \<and> u = CHR ''u'' then
        (case hex4 s of
           JOk (v, rest) _ \<Rightarrow> if 0xDC00 \<le> v \<and> v < 0xE000 then Some (v, rest) else None
         | _ \<Rightarrow> None)
      else None)"
| "low_surrogate s = None"

lemma hex4_rest: "hex4 s = JOk (v, rest) r \<Longrightarrow> length rest < length s"
  by (induction s rule: hex4.induct) (auto split: option.splits if_splits)

lemma low_surrogate_rest: "low_surrogate s = Some (v, rest) \<Longrightarrow> length rest < length s"
  by (induction s rule: low_surrogate.induct)
     (auto split: if_splits jres.splits prod.splits dest!: hex4_rest)

text \<open>A string after its opening quote; \<open>acc\<close> is what has been decoded.\<close>

function (sequential) parse_str :: "string \<Rightarrow> string \<Rightarrow> string jres" where
  "parse_str [] acc = JMore"
| "parse_str (c # cs) acc =
     (if c = dquote then JOk acc cs
      else if c = bsl then
        (case cs of
           [] \<Rightarrow> JMore
         | e # ds \<Rightarrow>
             if e = CHR ''u'' then
               (case hex4 ds of
                  JMore \<Rightarrow> JMore
                | JBad \<Rightarrow> JBad
                | JOk (u, rest) _ \<Rightarrow>
                    if 0xD800 \<le> u \<and> u < 0xDC00 then
                      (case low_surrogate rest of
                         Some (v, rest') \<Rightarrow>
                           parse_str rest'
                             (acc @ utf8_encode ((u - 0xD800) * 1024 + (v - 0xDC00) + 0x10000))
                       | None \<Rightarrow> parse_str rest (acc @ utf8_encode RuneError))
                    else parse_str rest (acc @ utf8_encode u))
             else (case unescape e of
                     Some d \<Rightarrow> parse_str ds (acc @ [d])
                   | None \<Rightarrow> JBad))
      else if code c < 32 then JBad
      else let (r, n) = utf8_decode (c # cs) in parse_str (drop n (c # cs)) (acc @ utf8_encode r))"
  by pat_completeness auto
termination
proof (relation "measure (\<lambda>(s, _). length s)", goal_cases)
  case (6 c cs acc x r n)
  then have "n = snd (utf8_decode (c # cs))" by (metis snd_conv)
  then show ?case using utf8_decode_size [of "c # cs"] by simp
qed (auto dest!: hex4_rest low_surrogate_rest)

text \<open>A number: \<open>-?(0|[1-9][0-9]*)(.[0-9]+)?([eE][+-]?[0-9]+)?\<close>; the text is kept.\<close>

definition digits1 :: "string \<Rightarrow> string jres" where
  "digits1 s =
     (let ds = takeWhile is_digit s; rest = dropWhile is_digit s
      in if ds \<noteq> [] then JOk ds rest else if s = [] then JMore else JBad)"

definition jbind :: "'a jres \<Rightarrow> ('a \<Rightarrow> string \<Rightarrow> 'b jres) \<Rightarrow> 'b jres" where
  "jbind r f = (case r of JOk a s \<Rightarrow> f a s | JMore \<Rightarrow> JMore | JBad \<Rightarrow> JBad)"

lemma jbind_simps [simp]:
  "jbind (JOk a s) f = f a s" "jbind JMore f = JMore" "jbind JBad f = JBad"
  by (simp_all add: jbind_def)

definition int_part :: "string \<Rightarrow> string jres" where
  "int_part s = (case s of CHR ''0'' # rest \<Rightarrow> JOk ''0'' rest | _ \<Rightarrow> digits1 s)"

definition frac_part :: "string \<Rightarrow> string jres" where
  "frac_part s =
     (case s of
        c # rest \<Rightarrow> if c = CHR ''.'' then jbind (digits1 rest) (\<lambda>ds r. JOk (c # ds) r) else JOk [] s
      | [] \<Rightarrow> JOk [] s)"

definition exp_part :: "string \<Rightarrow> string jres" where
  "exp_part s =
     (case s of
        c # rest \<Rightarrow>
          if c \<in> {CHR ''e'', CHR ''E''} then
            (case rest of
               d # r \<Rightarrow>
                 if d \<in> {CHR ''+'', CHR ''-''} then jbind (digits1 r) (\<lambda>ds r. JOk (c # d # ds) r)
                 else jbind (digits1 rest) (\<lambda>ds r. JOk (c # ds) r)
             | [] \<Rightarrow> JMore)
          else JOk [] s
      | [] \<Rightarrow> JOk [] s)"

definition parse_num :: "string \<Rightarrow> json jres" where
  "parse_num s =
     (let (sg, s) = (case s of c # r \<Rightarrow> if c = CHR ''-'' then ([c], r) else ([], s) | [] \<Rightarrow> ([], s))
      in jbind (int_part s) (\<lambda>i s. jbind (frac_part s) (\<lambda>f s. jbind (exp_part s) (\<lambda>e s.
           JOk (JNum (sg @ i @ f @ e)) s))))"

text \<open>
  Values, the elements of an array and the members of an object, on fuel: every call uses one
  unit, and \<open>parse_json\<close> starts with enough for the length of its input.
\<close>

fun parse_value :: "nat \<Rightarrow> string \<Rightarrow> json jres"
and parse_elems :: "nat \<Rightarrow> string \<Rightarrow> json list jres"
and parse_members :: "nat \<Rightarrow> string \<Rightarrow> (string \<times> json) list jres" where
  "parse_value 0 s = JBad"
| "parse_value (Suc n) s =
     (case skip_ws s of
        [] \<Rightarrow> JMore
      | c # cs \<Rightarrow>
          if c = dquote then jbind (parse_str cs []) (\<lambda>t r. JOk (JStr t) r)
          else if c = CHR ''{'' then
            (case skip_ws cs of
               d # ds \<Rightarrow> if d = CHR ''}'' then JOk (JObj []) ds
                         else jbind (parse_members n cs) (\<lambda>ms r. JOk (JObj ms) r)
             | [] \<Rightarrow> JMore)
          else if c = CHR ''['' then
            (case skip_ws cs of
               d # ds \<Rightarrow> if d = CHR '']'' then JOk (JArr []) ds
                         else jbind (parse_elems n cs) (\<lambda>vs r. JOk (JArr vs) r)
             | [] \<Rightarrow> JMore)
          else if c = CHR ''t'' then literal ''true'' (JBool True) (c # cs)
          else if c = CHR ''f'' then literal ''false'' (JBool False) (c # cs)
          else if c = CHR ''n'' then literal ''null'' JNull (c # cs)
          else if c = CHR ''-'' \<or> is_digit c then parse_num (c # cs)
          else JBad)"
| "parse_elems 0 s = JBad"
| "parse_elems (Suc n) s =
     jbind (parse_value n s) (\<lambda>v r.
       case skip_ws r of
         [] \<Rightarrow> JMore
       | c # cs \<Rightarrow>
           if c = CHR '','' then jbind (parse_elems n cs) (\<lambda>vs r. JOk (v # vs) r)
           else if c = CHR '']'' then JOk [v] cs
           else JBad)"
| "parse_members 0 s = JBad"
| "parse_members (Suc n) s =
     (case skip_ws s of
        [] \<Rightarrow> JMore
      | q # cs \<Rightarrow>
          if q \<noteq> dquote then JBad
          else jbind (parse_str cs []) (\<lambda>k r.
            case skip_ws r of
              [] \<Rightarrow> JMore
            | col # r \<Rightarrow>
                if col \<noteq> CHR '':'' then JBad
                else jbind (parse_value n r) (\<lambda>v r.
                  case skip_ws r of
                    [] \<Rightarrow> JMore
                  | c # cs \<Rightarrow>
                      if c = CHR '','' then jbind (parse_members n cs) (\<lambda>ms r. JOk ((k, v) # ms) r)
                      else if c = CHR ''}'' then JOk [(k, v)] cs
                      else JBad)))"

definition parse_json :: "string \<Rightarrow> json jres" where
  "parse_json s = parse_value (2 * length s + 2) s"

text \<open>\<open>json.Unmarshal\<close> reads one value that must be the whole text.\<close>

definition unmarshal_value :: "string \<Rightarrow> json option" where
  "unmarshal_value s =
     (case parse_json s of
        JOk v rest \<Rightarrow> if skip_ws rest = [] then Some v else None
      | _ \<Rightarrow> None)"

section \<open>Strings round trip\<close>

declare utf8_decode.simps [simp del] parse_str.simps [simp del] json_quote_body.simps(2) [simp del]

definition enc_rune :: "rune \<Rightarrow> string" where
  "enc_rune r =
     (if r < 128 then json_escape (char_of r)
      else if r = 0x2028 \<or> r = 0x2029 then bsl # ''u202'' @ [hex_char (r mod 16)]
      else utf8_encode r)"

lemma code_inject: "code a = code b \<longleftrightarrow> a = b"
  by (metis char_of_char)

lemma utf8_encode_high:
  assumes "valid_rune r" "128 \<le> r"
  shows "\<exists>c d cs. utf8_encode r = c # d # cs \<and> 0xC2 \<le> code c"
proof -
  consider "r < 0x800" | "0x800 \<le> r" "r < 0x10000" | "0x10000 \<le> r" by linarith
  then show ?thesis
    using assms by cases (auto simp: utf8_encode_def valid_rune_def)
qed

lemma utf8_encode_low: "0 \<le> r \<Longrightarrow> r < 128 \<Longrightarrow> utf8_encode r = [char_of r]"
  by (simp add: utf8_encode_def valid_rune_def is_surrogate_def)

lemma json_quote_body_rune:
  assumes "valid_rune r"
  shows "json_quote_body (utf8_encode r @ s) = enc_rune r @ json_quote_body s"
proof (cases "r < 128")
  case True
  with assms show ?thesis
    by (simp add: utf8_encode_low valid_rune_def enc_rune_def json_quote_body.simps(2) is_ascii_def
        split: prod.split)
next
  case False
  with assms obtain c d cs where c: "utf8_encode r = c # d # cs" "0xC2 \<le> code c"
    using utf8_encode_high [of r] by auto
  have dec: "utf8_decode (c # d # cs @ s) = (r, Suc (Suc (length cs)))"
    using utf8_decode_encode [OF assms, of s] c by simp
  show ?thesis
    using False c by (simp add: json_quote_body.simps(2) dec enc_rune_def is_ascii_def)
qed

lemma hex_digit_hex_char: "0 \<le> i \<Longrightarrow> i < 16 \<Longrightarrow> hex_digit (hex_char i) = Some (nat i)"
  by (simp add: hex_char_def)

lemma hex_digit_lit: "hex_digit (CHR ''0'') = Some 0" "hex_digit (CHR ''2'') = Some 2"
  by code_simp+

lemma hex4_low:
  assumes "code c < 128"
  shows "hex4 (CHR ''0'' # CHR ''0'' # hex_char (code c div 16) # hex_char (code c mod 16) # t)
    = JOk (code c, t) t"
proof -
  have "0 \<le> code c div 16" "code c div 16 < 16"
    using assms by (simp_all add: pos_imp_zdiv_nonneg_iff)
  then show ?thesis by (simp add: hex_digit_hex_char hex_digit_lit)
qed

lemma parse_str_escape:
  assumes "code c < 128"
  shows "parse_str (json_escape c @ t) acc = parse_str t (acc @ [c])"
proof -
  have high: "\<not> (0xD800 \<le> code c \<and> code c < 0xDC00)" "utf8_encode (code c) = [c]"
    using assms by (auto simp: utf8_encode_low)
  have plain: "utf8_decode (c # t) = (code c, 1)"
    using assms by (simp add: utf8_ascii is_ascii_def)
  show ?thesis
    using assms high plain hex4_low [OF assms, of t]
    by (auto simp: json_escape_def parse_str.simps unescape_def bsl_def dquote_def
        simp del: hex4.simps)
qed

lemma parse_str_rune:
  assumes "valid_rune r"
  shows "parse_str (enc_rune r @ t) acc = parse_str t (acc @ utf8_encode r)"
proof (cases "r < 128")
  case True
  then have "code (char_of r :: char) = r" using assms by (simp add: valid_rune_def)
  then show ?thesis
    using True assms parse_str_escape [of "char_of r" t acc]
    by (simp add: enc_rune_def utf8_encode_low valid_rune_def)
next
  case high: False
  show ?thesis
  proof (cases "r = 0x2028 \<or> r = 0x2029")
    case True
    then show ?thesis
      by (auto simp: enc_rune_def parse_str.simps bsl_def dquote_def hex_digit_lit
          hex_digit_hex_char)
  next
    case False
    with high assms obtain c d cs where c: "utf8_encode r = c # d # cs" "0xC2 \<le> code c"
      using utf8_encode_high [of r] by auto
    have "utf8_decode (c # d # cs @ t) = (r, Suc (Suc (length cs)))"
      using utf8_decode_encode [OF assms, of t] c by simp
    moreover have "c \<noteq> dquote" "c \<noteq> bsl"
      using c(2) by (auto simp: dquote_def bsl_def)
    ultimately show ?thesis
      using high False c by (simp add: enc_rune_def parse_str.simps)
  qed
qed

lemma parse_str_quote_body:
  assumes "list_all valid_rune rs"
  shows "parse_str (json_quote_body (of_runes rs) @ dquote # t) acc = JOk (acc @ of_runes rs) t"
  using assms
proof (induction rs arbitrary: acc)
  case Nil
  then show ?case by (simp add: of_runes_def parse_str.simps)
next
  case (Cons r rs)
  have "of_runes (r # rs) = utf8_encode r @ of_runes rs" by (simp add: of_runes_def)
  with Cons show ?case by (simp add: json_quote_body_rune parse_str_rune)
qed

lemma parse_str_quote:
  assumes "valid_utf8 s"
  shows "parse_str (json_quote_body s @ dquote # t) acc = JOk (acc @ s) t"
  using assms parse_str_quote_body [of "runes s" t acc] by (simp add: valid_utf8_def)

section \<open>Values round trip\<close>

text \<open>
  A value that can be printed: its strings are valid UTF-8 and its numbers are decimal integers
  (the only numbers the program writes).
\<close>

fun json_ok :: "json \<Rightarrow> bool" where
  "json_ok (JNum s) = (\<exists>i. s = itoa i)"
| "json_ok (JStr s) = valid_utf8 s"
| "json_ok (JArr vs) = list_all json_ok vs"
| "json_ok (JObj ms) = list_all (\<lambda>kv. valid_utf8 (fst kv) \<and> json_ok (snd kv)) ms"
| "json_ok _ = True"

text \<open>What may follow a value inside a larger text or at its end.\<close>

definition follows :: "string \<Rightarrow> bool" where
  "follows t \<longleftrightarrow> t = [] \<or> hd t \<in> {CHR '','', CHR '']'', CHR ''}'', CHR '' '', CHR 0x09, CHR 0x0A, CHR 0x0D}"

lemma follows_simps [simp]:
  "follows []" "follows (CHR '','' # t)" "follows (CHR '']'' # t)" "follows (CHR ''}'' # t)"
  by (simp_all add: follows_def)

lemma digits1_follows:
  assumes "ds \<noteq> []" "list_all is_digit ds" "follows t"
  shows "digits1 (ds @ t) = JOk ds t"
proof -
  have "takeWhile is_digit t = []" "dropWhile is_digit t = t"
    using assms(3) by (cases t; auto simp: follows_def is_digit_def)+
  with assms show ?thesis
    by (simp add: digits1_def list_all_iff)
qed

lemma frac_exp_follows: "follows t \<Longrightarrow> frac_part t = JOk [] t" "follows t \<Longrightarrow> exp_part t = JOk [] t"
  by (cases t; auto simp: frac_part_def exp_part_def follows_def)+

lemma udec_leading_zero: "0 \<le> n \<Longrightarrow> hd (udec n) = CHR ''0'' \<Longrightarrow> udec n = ''0''"
proof (induction n rule: udec.induct)
  case (1 n)
  show ?case
  proof (cases "n < 10")
    case True
    with 1 have "digit_char n = CHR ''0''" by (simp add: udec.simps)
    then have "n = 0"
      using of_char_digit_char [of n] 1 True by simp
    moreover have "udec 0 = ''0''" by code_simp
    ultimately show ?thesis by simp
  next
    case False
    then have u: "udec n = udec (n div 10) @ [digit_char (n mod 10)]" by (simp add: udec.simps)
    with 1 have "hd (udec (n div 10)) = CHR ''0''" by simp
    with 1 False have "udec (n div 10) = ''0''" by simp
    then have "n div 10 = 0"
      using digits_val_udec [of "n div 10"] False by (simp add: digits_val_def digit_val_def)
    with False show ?thesis by linarith
  qed
qed

lemma int_part_udec:
  assumes "0 \<le> n" "follows t"
  shows "int_part (udec n @ t) = JOk (udec n) t"
proof (cases "hd (udec n) = CHR ''0''")
  case True
  with udec_leading_zero [OF assms(1)] have "udec n = ''0''" by simp
  then show ?thesis by (simp add: int_part_def)
next
  case False
  then have "int_part (udec n @ t) = digits1 (udec n @ t)"
    unfolding int_part_def
    by (cases "udec n") (auto split: list.split char.split bool.split)
  then show ?thesis
    using digits1_follows [OF udec_nonempty udec_digits [OF assms(1)] assms(2)] by simp
qed

lemma parse_num_itoa:
  assumes "follows t"
  shows "parse_num (itoa i @ t) = JOk (JNum (itoa i)) t"
proof (cases "i < 0")
  case True
  then show ?thesis
    using assms by (simp add: parse_num_def itoa_def int_part_udec frac_exp_follows)
next
  case False
  obtain d ds where u: "udec i = d # ds" by (cases "udec i") auto
  with False hd_udec [of i] have "d \<noteq> CHR ''-''" by simp
  with False assms u int_part_udec [of i t] show ?thesis
    by (simp add: parse_num_def itoa_def frac_exp_follows)
qed

lemma skip_ws_Cons: "\<not> is_json_space c \<Longrightarrow> skip_ws (c # cs) = c # cs"
  by (simp add: skip_ws_def)

lemma skip_ws_print:
  assumes "json_ok v"
  shows "\<exists>c cs. print_json v = c # cs \<and> \<not> is_json_space c \<and> c \<notin> {CHR '']'', CHR ''}''}"
proof (cases v)
  case (JNum s)
  with assms obtain i where i: "s = itoa i" by auto
  obtain d ds where u: "udec (\<bar>i\<bar>) = d # ds" by (cases "udec (\<bar>i\<bar>)") auto
  then have "is_digit d" using udec_digits [of "\<bar>i\<bar>"] by simp
  with JNum i u show ?thesis
    by (cases "i < 0") (auto simp: itoa_def is_json_space_def is_digit_def)
qed (auto simp: json_quote_def is_json_space_def dquote_def)

definition roundtrips :: "json \<Rightarrow> bool" where
  "roundtrips v \<longleftrightarrow>
     (\<forall>n t. 2 * length (print_json v) \<le> n \<longrightarrow> follows t \<longrightarrow> parse_value n (print_json v @ t) = JOk v t)"

lemma roundtripsD:
  "roundtrips v \<Longrightarrow> 2 * length (print_json v) \<le> n \<Longrightarrow> follows t \<Longrightarrow>
   parse_value n (print_json v @ t) = JOk v t"
  by (simp add: roundtrips_def)

lemma skip_ws_punct [simp]:
  "skip_ws (CHR '','' # t) = CHR '','' # t" "skip_ws (CHR '']'' # t) = CHR '']'' # t"
  "skip_ws (CHR ''}'' # t) = CHR ''}'' # t" "skip_ws (CHR '':'' # t) = CHR '':'' # t"
  "skip_ws (CHR ''{'' # t) = CHR ''{'' # t" "skip_ws (CHR ''['' # t) = CHR ''['' # t"
  "skip_ws (dquote # t) = dquote # t"
  by (simp_all add: skip_ws_def is_json_space_def dquote_def)

lemma parse_elems_print:
  assumes "vs \<noteq> []" and "\<forall>v\<in>set vs. roundtrips v"
    and "2 * length (join (map print_json vs) '','') + 1 \<le> n"
  shows "parse_elems n (join (map print_json vs) '','' @ CHR '']'' # t) = JOk vs t"
  using assms
proof (induction vs arbitrary: n)
  case (Cons v vs)
  then obtain m where m: "n = Suc m" by (cases n) auto
  show ?case
  proof (cases "vs = []")
    case True
    with Cons.prems m show ?thesis by (simp add: roundtripsD)
  next
    case False
    with Cons.prems m have "parse_elems m (join (map print_json vs) '','' @ CHR '']'' # t) = JOk vs t"
      by (intro Cons.IH) (simp_all add: join_Cons)
    with False Cons.prems m show ?thesis by (simp add: join_Cons roundtripsD)
  qed
qed simp

definition print_member :: "string \<times> json \<Rightarrow> string" where
  "print_member kv = json_quote (fst kv) @ '':'' @ print_json (snd kv)"

lemma parse_members_print:
  assumes "ms \<noteq> []" and "\<forall>kv\<in>set ms. valid_utf8 (fst kv) \<and> roundtrips (snd kv)"
    and "2 * length (join (map print_member ms) '','') + 1 \<le> n"
  shows "parse_members n (join (map print_member ms) '','' @ CHR ''}'' # t) = JOk ms t"
  using assms
proof (induction ms arbitrary: n)
  case (Cons kv ms)
  then obtain m where m: "n = Suc m" by (cases n) auto
  obtain k v where kv: "kv = (k, v)" by fastforce
  have str: "parse_str (json_quote_body k @ dquote # u) [] = JOk k u" for u
    using parse_str_quote [of k u "[]"] Cons.prems kv by simp
  show ?case
  proof (cases "ms = []")
    case True
    with Cons.prems m kv show ?thesis
      by (simp add: print_member_def json_quote_def str roundtripsD)
  next
    case False
    with Cons.prems m have "parse_members m (join (map print_member ms) '','' @ CHR ''}'' # t) = JOk ms t"
      by (intro Cons.IH) (simp_all add: join_Cons)
    with False Cons.prems m kv show ?thesis
      by (simp add: join_Cons print_member_def [of "(k, v)"] json_quote_def str roundtripsD)
  qed
qed simp

lemma print_JObj: "print_json (JObj ms) = ''{'' @ join (map print_member ms) '','' @ ''}''"
proof -
  have "print_member = (\<lambda>kv. json_quote (fst kv) @ '':'' @ print_json (snd kv))"
    by (simp add: fun_eq_iff print_member_def)
  then show ?thesis by simp
qed

lemma roundtrips_arr:
  assumes "list_all json_ok vs" and "\<forall>v\<in>set vs. roundtrips v"
  shows "roundtrips (JArr vs)"
  unfolding roundtrips_def
proof (intro allI impI)
  fix n t assume n: "2 * length (print_json (JArr vs)) \<le> n"
  then obtain m where m: "n = Suc m" by (cases n) auto
  show "parse_value n (print_json (JArr vs) @ t) = JOk (JArr vs) t"
  proof (cases vs)
    case Nil
    with m show ?thesis by (simp add: dquote_def)
  next
    case (Cons v ws)
    obtain c cs where c: "print_json v = c # cs" "\<not> is_json_space c" "c \<noteq> CHR '']''"
      using skip_ws_print [of v] assms(1) Cons by auto
    have "\<exists>r. join (map print_json vs) '','' = c # r"
      using c(1) Cons by (cases ws) auto
    moreover have "parse_elems m (join (map print_json vs) '','' @ CHR '']'' # t) = JOk vs t"
      using assms(2) Cons n m by (intro parse_elems_print) auto
    ultimately show ?thesis
      using m c by (auto simp: dquote_def skip_ws_Cons)
  qed
qed

lemma dquote_other: "dquote \<noteq> CHR ''}''" "CHR ''{'' \<noteq> dquote"
  by (simp_all add: dquote_def)

text \<open>An object ends at its closing brace, so anything may follow it.\<close>

lemma parse_value_obj:
  assumes "\<forall>kv\<in>set ms. valid_utf8 (fst kv) \<and> roundtrips (snd kv)"
    and n: "2 * length (print_json (JObj ms)) \<le> n"
  shows "parse_value n (print_json (JObj ms) @ t) = JOk (JObj ms) t"
proof -
  obtain m where m: "n = Suc m" using n by (cases n) auto
  show ?thesis
  proof (cases ms)
    case Nil
    with m show ?thesis by (simp add: dquote_def)
  next
    case (Cons kv ks)
    obtain r where r: "join (map print_member ms) '','' = dquote # r"
      using Cons by (cases ks) (auto simp: print_member_def json_quote_def)
    have "parse_members m (join (map print_member ms) '','' @ CHR ''}'' # t) = JOk ms t"
      using assms Cons n m by (intro parse_members_print) (auto simp: print_JObj simp del: print_json.simps)
    then show ?thesis
      unfolding print_JObj using m r dquote_other by simp
  qed
qed

lemma roundtrips_obj:
  "\<forall>kv\<in>set ms. valid_utf8 (fst kv) \<and> roundtrips (snd kv) \<Longrightarrow> roundtrips (JObj ms)"
  by (simp add: roundtrips_def parse_value_obj del: print_json.simps)

lemma parse_literals:
  assumes "8 \<le> n"
  shows "parse_value n (CHR ''n'' # CHR ''u'' # CHR ''l'' # CHR ''l'' # t) = JOk JNull t"
    "parse_value n (CHR ''t'' # CHR ''r'' # CHR ''u'' # CHR ''e'' # t) = JOk (JBool True) t"
    "parse_value n (CHR ''f'' # CHR ''a'' # CHR ''l'' # CHR ''s'' # CHR ''e'' # t) = JOk (JBool False) t"
  using assms
  by (cases n; simp add: skip_ws_def is_json_space_def dquote_def literal_def has_prefix_def)+

lemma roundtrips: "json_ok v \<Longrightarrow> roundtrips v"
proof (induction v rule: print_json.induct)
  case (3 s)
  then obtain i where i: "s = itoa i" by auto
  obtain c cs where c: "itoa i = c # cs" by (cases "itoa i") auto
  have digit: "c = CHR ''-'' \<or> is_digit c"
    using c itoa_digits [of i c] by (auto simp: itoa_def split: if_splits)
  then have ws: "skip_ws (c # cs @ t) = c # cs @ t"
    and other: "c \<noteq> dquote" "c \<noteq> CHR ''{''" "c \<noteq> CHR ''[''" "c \<noteq> CHR ''t''" "c \<noteq> CHR ''f''"
      "c \<noteq> CHR ''n''" for t
    by (auto simp: skip_ws_def is_json_space_def is_digit_def dquote_def)
  show ?case
    unfolding roundtrips_def
  proof (intro allI impI)
    fix n t assume n: "2 * length (print_json (JNum s)) \<le> n" and t: "follows t"
    then obtain m where m: "n = Suc m" using i c by (cases n) auto
    have "parse_num (c # cs @ t) = JOk (JNum s) t"
      using parse_num_itoa [OF t, of i] i c by simp
    with digit show "parse_value n (print_json (JNum s) @ t) = JOk (JNum s) t"
      by (simp add: m i c ws other)
  qed
next
  case (4 s)
  have "parse_value n (print_json (JStr s) @ t) = JOk (JStr s) t"
    if "2 * length (print_json (JStr s)) \<le> n" for n t
    using that 4 parse_str_quote [of s t "[]"] by (cases n) (simp_all add: json_quote_def)
  then show ?case by (simp add: roundtrips_def)
next
  case (5 vs)
  then show ?case by (intro roundtrips_arr) (auto simp: list_all_iff)
next
  case (6 ms)
  then show ?case by (intro roundtrips_obj) (auto simp: list_all_iff)
qed (auto simp: roundtrips_def parse_literals)

lemma parse_json_print:
  "json_ok v \<Longrightarrow> follows t \<Longrightarrow> parse_json (print_json v @ t) = JOk v t"
  unfolding parse_json_def by (rule roundtripsD [OF roundtrips]) simp_all

lemma parse_json_print_obj:
  assumes "json_ok (JObj ms)"
  shows "parse_json (print_json (JObj ms) @ t) = JOk (JObj ms) t"
  unfolding parse_json_def
  using assms by (intro parse_value_obj) (auto simp: list_all_iff intro: roundtrips simp del: print_json.simps)

lemma unmarshal_print: "json_ok v \<Longrightarrow> unmarshal_value (print_json v) = Some v"
  using parse_json_print [of v "[]"] by (simp add: unmarshal_value_def skip_ws_def)

end
