(* ===== verification/Control_Message.thy ===== *)
theory Control_Message
  imports Go_Json
begin

text \<open>
  The messages of the control protocol between \<open>dproxy\<close> and \<open>dpipe\<close>
  (\<open>backstage/dproxy/internal/control/protocol.go\<close>, the same file as in \<open>dpipe\<close>): the message
  structure, its constructors, and its JSON form by the field tags of the structure, with the
  round trip through the scanner of \<open>Go_Json\<close>.
\<close>

section \<open>Constants and structures\<close>

definition Version :: int where "Version = 1"
definition MaxMsgSize :: nat where "MaxMsgSize = 4096"
definition MaxRecvFDs :: nat where "MaxRecvFDs = 64"
definition MaxConsolePrefix :: nat where "MaxConsolePrefix = 512"
definition MaxResolveDetails :: nat where "MaxResolveDetails = 3072"
definition MaxResolveHeader :: nat where "MaxResolveHeader = 256"
definition MaxResolvePath :: nat where "MaxResolvePath = 1024"
definition MaxNotice :: nat where "MaxNotice = 1024"
definition MaxNTLMBlob :: nat where "MaxNTLMBlob = 1024"

definition TypeCopy :: string where "TypeCopy = ''copy''"
definition TypeSSHAccept :: string where "TypeSSHAccept = ''ssh_accept''"
definition TypeTLSAccept :: string where "TypeTLSAccept = ''tls_accept''"
definition TypeConsoleAccept :: string where "TypeConsoleAccept = ''console_accept''"
definition TypeRDPAccept :: string where "TypeRDPAccept = ''rdp_accept''"
definition TypeDesktopAccept :: string where "TypeDesktopAccept = ''desktop_accept''"
definition TypeAgentAccept :: string where "TypeAgentAccept = ''agent_accept''"
definition TypeListenForward :: string where "TypeListenForward = ''listen_forward''"
definition TypeStop :: string where "TypeStop = ''stop''"
definition TypeStatus :: string where "TypeStatus = ''status''"
definition TypeResolve :: string where "TypeResolve = ''resolve''"
definition TypeOK :: string where "TypeOK = ''ok''"
definition TypeError :: string where "TypeError = ''error''"
definition TypeResolved :: string where "TypeResolved = ''resolved''"
definition TypeHandoverRequest :: string where "TypeHandoverRequest = ''handover_request''"
definition TypeHandover :: string where "TypeHandover = ''handover''"
definition TypeHandoverAck :: string where "TypeHandoverAck = ''handover_ack''"
definition KindSSH :: string where "KindSSH = ''ssh''"
definition KindHTTP :: string where "KindHTTP = ''http''"
definition KindRDP :: string where "KindRDP = ''rdp''"
definition ProtoTCP :: string where "ProtoTCP = ''tcp''"
definition ProtoHTTP :: string where "ProtoHTTP = ''http''"
definition ProtoSSH :: string where "ProtoSSH = ''ssh''"
definition ProtoTLS :: string where "ProtoTLS = ''tls''"
definition ProtoConsole :: string where "ProtoConsole = ''console''"
definition ProtoRDP :: string where "ProtoRDP = ''rdp''"
definition ProtoDesktop :: string where "ProtoDesktop = ''desktop''"
definition ProtoAgent :: string where "ProtoAgent = ''agent''"

definition SockControl :: string where "SockControl = ''control''"
definition SockUpgrade :: string where "SockUpgrade = ''upgrade''"
definition SockListenForward :: string where "SockListenForward = ''listen_forward''"

record SockDesc =
  sd_Kind :: string
  sd_ID :: string
  sd_Listen :: string
  sd_Target :: string

record Msg =
  m_V :: int
  m_Type :: string
  m_ID :: string
  m_Protocol :: string
  m_Listen :: string
  m_Target :: string
  m_Kind :: string
  m_SSHUser :: string
  m_SSHPubKey :: string
  m_SSHFingerprint :: string
  m_RDPUser :: string
  m_RDPDomain :: string
  m_RDPWorkstation :: string
  m_RDPChallenge :: string
  m_RDPNTResponse :: string
  m_Host :: string
  m_SNI :: string
  m_Cookie :: string
  m_Path :: string
  m_Accept :: string
  m_Upgrade :: string
  m_Connection :: string
  m_WSVersion :: string
  m_Status :: int
  m_Location :: string
  m_SetCookie :: string
  m_Sub :: string
  m_WSKey :: string
  m_Prefix :: string
  m_ClientIP :: string
  m_Authorized :: bool
  m_RemoteUser :: string
  m_RemotePassword :: string
  m_RDPSessionKey :: string
  m_Notice :: string
  m_Error :: string
  m_ActiveConns :: int
  m_ListenForwards :: int
  m_Draining :: bool
  m_Sockets :: "SockDesc list"

text \<open>The zero value; a composite literal of the source updates the fields it names.\<close>

definition zeroMsg :: Msg where
  "zeroMsg = \<lparr>m_V = 0, m_Type = [], m_ID = [], m_Protocol = [], m_Listen = [], m_Target = [], m_Kind =
     [], m_SSHUser = [], m_SSHPubKey = [], m_SSHFingerprint = [], m_RDPUser = [], m_RDPDomain
     = [], m_RDPWorkstation = [], m_RDPChallenge = [], m_RDPNTResponse = [], m_Host = [],
     m_SNI = [], m_Cookie = [], m_Path = [], m_Accept = [], m_Upgrade = [], m_Connection =
     [], m_WSVersion = [], m_Status = 0, m_Location = [], m_SetCookie = [], m_Sub = [],
     m_WSKey = [], m_Prefix = [], m_ClientIP = [], m_Authorized = False, m_RemoteUser = [],
     m_RemotePassword = [], m_RDPSessionKey = [], m_Notice = [], m_Error = [], m_ActiveConns
     = 0, m_ListenForwards = 0, m_Draining = False, m_Sockets = []\<rparr>"

definition IsReply :: "string \<Rightarrow> bool" where
  "IsReply t \<longleftrightarrow> t \<in> {TypeOK, TypeError, TypeResolved}"

text \<open>The identifier of a message; \<open>rand\<close> is what \<open>rand.Read\<close> gave, \<^term>\<open>None\<close> on an error.\<close>

definition NewID :: "bytes option \<Rightarrow> string" where
  "NewID rand = (case rand of None \<Rightarrow> ''0000000000000000'' | Some b \<Rightarrow> hex_encode b)"

definition OK :: "string \<Rightarrow> Msg" where
  "OK ident = zeroMsg\<lparr>m_V := Version, m_Type := TypeOK, m_ID := ident\<rparr>"

definition Err :: "string \<Rightarrow> string \<Rightarrow> Msg" where
  "Err ident msg = zeroMsg\<lparr>m_V := Version, m_Type := TypeError, m_ID := ident, m_Error := msg\<rparr>"

section \<open>The JSON form\<close>

text \<open>\<open>omitempty\<close> leaves out a field with its zero value.\<close>

definition str_field :: "string \<Rightarrow> string \<Rightarrow> (string \<times> json) list" where
  "str_field k s = (if s = [] then [] else [(k, JStr s)])"

definition int_field :: "string \<Rightarrow> int \<Rightarrow> (string \<times> json) list" where
  "int_field k i = (if i = 0 then [] else [(k, JNum (itoa i))])"

definition bool_field :: "string \<Rightarrow> bool \<Rightarrow> (string \<times> json) list" where
  "bool_field k b = (if b then [(k, JBool True)] else [])"

definition sock_json :: "SockDesc \<Rightarrow> json" where
  "sock_json d = JObj ([(''kind'', JStr (sd_Kind d))] @ str_field ''id'' (sd_ID d) @
     str_field ''listen'' (sd_Listen d) @ str_field ''target'' (sd_Target d))"

definition sockets_field :: "SockDesc list \<Rightarrow> (string \<times> json) list" where
  "sockets_field ds = (if ds = [] then [] else [(''sockets'', JArr (map sock_json ds))])"

definition required_fields :: "int \<Rightarrow> string \<Rightarrow> (string \<times> json) list" where
  "required_fields v t = [(''v'', JNum (itoa v)), (''type'', JStr t)]"

definition msg_json :: "Msg \<Rightarrow> json" where
  "msg_json m = JObj (
     required_fields (m_V m) (m_Type m) @
     str_field ''id'' (m_ID m) @
     str_field ''protocol'' (m_Protocol m) @
     str_field ''listen'' (m_Listen m) @
     str_field ''target'' (m_Target m) @
     str_field ''kind'' (m_Kind m) @
     str_field ''ssh_user'' (m_SSHUser m) @
     str_field ''ssh_pubkey'' (m_SSHPubKey m) @
     str_field ''ssh_fp'' (m_SSHFingerprint m) @
     str_field ''rdp_user'' (m_RDPUser m) @
     str_field ''rdp_domain'' (m_RDPDomain m) @
     str_field ''rdp_workstation'' (m_RDPWorkstation m) @
     str_field ''rdp_challenge'' (m_RDPChallenge m) @
     str_field ''rdp_nt_response'' (m_RDPNTResponse m) @
     str_field ''host'' (m_Host m) @
     str_field ''sni'' (m_SNI m) @
     str_field ''cookie'' (m_Cookie m) @
     str_field ''path'' (m_Path m) @
     str_field ''accept'' (m_Accept m) @
     str_field ''upgrade'' (m_Upgrade m) @
     str_field ''connection'' (m_Connection m) @
     str_field ''ws_version'' (m_WSVersion m) @
     int_field ''status'' (m_Status m) @
     str_field ''location'' (m_Location m) @
     str_field ''set_cookie'' (m_SetCookie m) @
     str_field ''sub'' (m_Sub m) @
     str_field ''ws_key'' (m_WSKey m) @
     str_field ''prefix'' (m_Prefix m) @
     str_field ''client_ip'' (m_ClientIP m) @
     bool_field ''authorized'' (m_Authorized m) @
     str_field ''remote_user'' (m_RemoteUser m) @
     str_field ''remote_password'' (m_RemotePassword m) @
     str_field ''rdp_session_key'' (m_RDPSessionKey m) @
     str_field ''notice'' (m_Notice m) @
     str_field ''error'' (m_Error m) @
     int_field ''active_conns'' (m_ActiveConns m) @
     int_field ''listen_forwards'' (m_ListenForwards m) @
     bool_field ''draining'' (m_Draining m) @
     sockets_field (m_Sockets m))"

text \<open>
  Decoding into a field: \<open>null\<close> leaves it alone, a value of the wrong type is an error. A field
  is found by its tag, ignoring case; a member with an unknown name is ignored.
\<close>

definition str_set :: "((string \<Rightarrow> string) \<Rightarrow> 'r \<Rightarrow> 'r) \<Rightarrow> json \<Rightarrow> 'r \<Rightarrow> 'r option" where
  "str_set upd v m =
     (case v of JStr s \<Rightarrow> Some (upd (\<lambda>_. s) m) | JNull \<Rightarrow> Some m | _ \<Rightarrow> None)"

definition int_set :: "((int \<Rightarrow> int) \<Rightarrow> 'r \<Rightarrow> 'r) \<Rightarrow> json \<Rightarrow> 'r \<Rightarrow> 'r option" where
  "int_set upd v m =
     (case v of JNum s \<Rightarrow> map_option (\<lambda>i. upd (\<lambda>_. i) m) (atoi s) | JNull \<Rightarrow> Some m | _ \<Rightarrow> None)"

definition bool_set :: "((bool \<Rightarrow> bool) \<Rightarrow> 'r \<Rightarrow> 'r) \<Rightarrow> json \<Rightarrow> 'r \<Rightarrow> 'r option" where
  "bool_set upd v m =
     (case v of JBool b \<Rightarrow> Some (upd (\<lambda>_. b) m) | JNull \<Rightarrow> Some m | _ \<Rightarrow> None)"

definition find_setter ::
  "(string \<times> (json \<Rightarrow> 'r \<Rightarrow> 'r option)) list \<Rightarrow> string \<Rightarrow> (json \<Rightarrow> 'r \<Rightarrow> 'r option) option" where
  "find_setter tab k = map_option snd (List.find (\<lambda>e. equal_fold (fst e) k) tab)"

fun decode_members ::
  "(string \<Rightarrow> (json \<Rightarrow> 'r \<Rightarrow> 'r option) option) \<Rightarrow> (string \<times> json) list \<Rightarrow> 'r \<Rightarrow> 'r option" where
  "decode_members setter [] m = Some m"
| "decode_members setter ((k, v) # ms) m =
     (case setter k of
        None \<Rightarrow> decode_members setter ms m
      | Some f \<Rightarrow> Option.bind (f v m) (decode_members setter ms))"

definition sock_setter :: "string \<Rightarrow> (json \<Rightarrow> SockDesc \<Rightarrow> SockDesc option) option" where
  "sock_setter = find_setter
     [(''kind'', str_set sd_Kind_update), (''id'', str_set sd_ID_update),
      (''listen'', str_set sd_Listen_update), (''target'', str_set sd_Target_update)]"

definition sock_decode :: "json \<Rightarrow> SockDesc option" where
  "sock_decode v =
     (let zero = \<lparr>sd_Kind = [], sd_ID = [], sd_Listen = [], sd_Target = []\<rparr> in
      case v of
        JObj ms \<Rightarrow> decode_members sock_setter ms zero
      | JNull \<Rightarrow> Some zero
      | _ \<Rightarrow> None)"

definition sockets_set :: "json \<Rightarrow> Msg \<Rightarrow> Msg option" where
  "sockets_set v m =
     (case v of
        JArr vs \<Rightarrow> map_option (\<lambda>ds. m\<lparr>m_Sockets := ds\<rparr>) (those (map sock_decode vs))
      | JNull \<Rightarrow> Some (m\<lparr>m_Sockets := []\<rparr>)
      | _ \<Rightarrow> None)"

definition msg_setter :: "string \<Rightarrow> (json \<Rightarrow> Msg \<Rightarrow> Msg option) option" where
  "msg_setter = find_setter
     [(''v'', int_set m_V_update),
      (''type'', str_set m_Type_update),
      (''id'', str_set m_ID_update),
      (''protocol'', str_set m_Protocol_update),
      (''listen'', str_set m_Listen_update),
      (''target'', str_set m_Target_update),
      (''kind'', str_set m_Kind_update),
      (''ssh_user'', str_set m_SSHUser_update),
      (''ssh_pubkey'', str_set m_SSHPubKey_update),
      (''ssh_fp'', str_set m_SSHFingerprint_update),
      (''rdp_user'', str_set m_RDPUser_update),
      (''rdp_domain'', str_set m_RDPDomain_update),
      (''rdp_workstation'', str_set m_RDPWorkstation_update),
      (''rdp_challenge'', str_set m_RDPChallenge_update),
      (''rdp_nt_response'', str_set m_RDPNTResponse_update),
      (''host'', str_set m_Host_update),
      (''sni'', str_set m_SNI_update),
      (''cookie'', str_set m_Cookie_update),
      (''path'', str_set m_Path_update),
      (''accept'', str_set m_Accept_update),
      (''upgrade'', str_set m_Upgrade_update),
      (''connection'', str_set m_Connection_update),
      (''ws_version'', str_set m_WSVersion_update),
      (''status'', int_set m_Status_update),
      (''location'', str_set m_Location_update),
      (''set_cookie'', str_set m_SetCookie_update),
      (''sub'', str_set m_Sub_update),
      (''ws_key'', str_set m_WSKey_update),
      (''prefix'', str_set m_Prefix_update),
      (''client_ip'', str_set m_ClientIP_update),
      (''authorized'', bool_set m_Authorized_update),
      (''remote_user'', str_set m_RemoteUser_update),
      (''remote_password'', str_set m_RemotePassword_update),
      (''rdp_session_key'', str_set m_RDPSessionKey_update),
      (''notice'', str_set m_Notice_update),
      (''error'', str_set m_Error_update),
      (''active_conns'', int_set m_ActiveConns_update),
      (''listen_forwards'', int_set m_ListenForwards_update),
      (''draining'', bool_set m_Draining_update),
      (''sockets'', sockets_set)]"

definition msg_decode :: "json \<Rightarrow> Msg option" where
  "msg_decode v =
     (case v of
        JObj ms \<Rightarrow> decode_members msg_setter ms zeroMsg
      | JNull \<Rightarrow> Some zeroMsg
      | _ \<Rightarrow> None)"

section \<open>Round trip\<close>

abbreviation set_members :: "(string \<times> json) list \<Rightarrow> Msg \<Rightarrow> Msg option" where
  "set_members \<equiv> decode_members msg_setter"

definition int64 :: "int \<Rightarrow> bool" where
  "int64 i \<longleftrightarrow> - (2 ^ 63) \<le> i \<and> i < 2 ^ 63"

lemma atoi_itoa_int64 [simp]: "int64 i \<Longrightarrow> atoi (itoa i) = Some i"
  by (simp add: int64_def atoi_itoa)

lemma decode_members_append:
  "decode_members setter (xs @ ys) m
    = Option.bind (decode_members setter xs m) (decode_members setter ys)"
  by (induction xs arbitrary: m) (auto split: option.split Option.bind_split)

lemma msg_setters:
  "msg_setter ''v'' = Some (int_set m_V_update)"
  "msg_setter ''type'' = Some (str_set m_Type_update)"
  "msg_setter ''id'' = Some (str_set m_ID_update)"
  "msg_setter ''protocol'' = Some (str_set m_Protocol_update)"
  "msg_setter ''listen'' = Some (str_set m_Listen_update)"
  "msg_setter ''target'' = Some (str_set m_Target_update)"
  "msg_setter ''kind'' = Some (str_set m_Kind_update)"
  "msg_setter ''ssh_user'' = Some (str_set m_SSHUser_update)"
  "msg_setter ''ssh_pubkey'' = Some (str_set m_SSHPubKey_update)"
  "msg_setter ''ssh_fp'' = Some (str_set m_SSHFingerprint_update)"
  "msg_setter ''rdp_user'' = Some (str_set m_RDPUser_update)"
  "msg_setter ''rdp_domain'' = Some (str_set m_RDPDomain_update)"
  "msg_setter ''rdp_workstation'' = Some (str_set m_RDPWorkstation_update)"
  "msg_setter ''rdp_challenge'' = Some (str_set m_RDPChallenge_update)"
  "msg_setter ''rdp_nt_response'' = Some (str_set m_RDPNTResponse_update)"
  "msg_setter ''host'' = Some (str_set m_Host_update)"
  "msg_setter ''sni'' = Some (str_set m_SNI_update)"
  "msg_setter ''cookie'' = Some (str_set m_Cookie_update)"
  "msg_setter ''path'' = Some (str_set m_Path_update)"
  "msg_setter ''accept'' = Some (str_set m_Accept_update)"
  "msg_setter ''upgrade'' = Some (str_set m_Upgrade_update)"
  "msg_setter ''connection'' = Some (str_set m_Connection_update)"
  "msg_setter ''ws_version'' = Some (str_set m_WSVersion_update)"
  "msg_setter ''status'' = Some (int_set m_Status_update)"
  "msg_setter ''location'' = Some (str_set m_Location_update)"
  "msg_setter ''set_cookie'' = Some (str_set m_SetCookie_update)"
  "msg_setter ''sub'' = Some (str_set m_Sub_update)"
  "msg_setter ''ws_key'' = Some (str_set m_WSKey_update)"
  "msg_setter ''prefix'' = Some (str_set m_Prefix_update)"
  "msg_setter ''client_ip'' = Some (str_set m_ClientIP_update)"
  "msg_setter ''authorized'' = Some (bool_set m_Authorized_update)"
  "msg_setter ''remote_user'' = Some (str_set m_RemoteUser_update)"
  "msg_setter ''remote_password'' = Some (str_set m_RemotePassword_update)"
  "msg_setter ''rdp_session_key'' = Some (str_set m_RDPSessionKey_update)"
  "msg_setter ''notice'' = Some (str_set m_Notice_update)"
  "msg_setter ''error'' = Some (str_set m_Error_update)"
  "msg_setter ''active_conns'' = Some (int_set m_ActiveConns_update)"
  "msg_setter ''listen_forwards'' = Some (int_set m_ListenForwards_update)"
  "msg_setter ''draining'' = Some (bool_set m_Draining_update)"
  "msg_setter ''sockets'' = Some (sockets_set)"
  by (simp_all add: msg_setter_def find_setter_def equal_fold_def to_lower_def lower_char_def)

lemma set_str_fields:
  "m_ID m = [] \<Longrightarrow> set_members (str_field ''id'' s) m = Some (m\<lparr>m_ID := s\<rparr>)"
  "m_Protocol m = [] \<Longrightarrow> set_members (str_field ''protocol'' s) m = Some (m\<lparr>m_Protocol := s\<rparr>)"
  "m_Listen m = [] \<Longrightarrow> set_members (str_field ''listen'' s) m = Some (m\<lparr>m_Listen := s\<rparr>)"
  "m_Target m = [] \<Longrightarrow> set_members (str_field ''target'' s) m = Some (m\<lparr>m_Target := s\<rparr>)"
  "m_Kind m = [] \<Longrightarrow> set_members (str_field ''kind'' s) m = Some (m\<lparr>m_Kind := s\<rparr>)"
  "m_SSHUser m = [] \<Longrightarrow> set_members (str_field ''ssh_user'' s) m = Some (m\<lparr>m_SSHUser := s\<rparr>)"
  "m_SSHPubKey m = [] \<Longrightarrow> set_members (str_field ''ssh_pubkey'' s) m = Some (m\<lparr>m_SSHPubKey := s\<rparr>)"
  "m_SSHFingerprint m = [] \<Longrightarrow> set_members (str_field ''ssh_fp'' s) m = Some (m\<lparr>m_SSHFingerprint := s\<rparr>)"
  "m_RDPUser m = [] \<Longrightarrow> set_members (str_field ''rdp_user'' s) m = Some (m\<lparr>m_RDPUser := s\<rparr>)"
  "m_RDPDomain m = [] \<Longrightarrow> set_members (str_field ''rdp_domain'' s) m = Some (m\<lparr>m_RDPDomain := s\<rparr>)"
  "m_RDPWorkstation m = [] \<Longrightarrow> set_members (str_field ''rdp_workstation'' s) m = Some (m\<lparr>m_RDPWorkstation := s\<rparr>)"
  "m_RDPChallenge m = [] \<Longrightarrow> set_members (str_field ''rdp_challenge'' s) m = Some (m\<lparr>m_RDPChallenge := s\<rparr>)"
  "m_RDPNTResponse m = [] \<Longrightarrow> set_members (str_field ''rdp_nt_response'' s) m = Some (m\<lparr>m_RDPNTResponse := s\<rparr>)"
  "m_Host m = [] \<Longrightarrow> set_members (str_field ''host'' s) m = Some (m\<lparr>m_Host := s\<rparr>)"
  "m_SNI m = [] \<Longrightarrow> set_members (str_field ''sni'' s) m = Some (m\<lparr>m_SNI := s\<rparr>)"
  "m_Cookie m = [] \<Longrightarrow> set_members (str_field ''cookie'' s) m = Some (m\<lparr>m_Cookie := s\<rparr>)"
  "m_Path m = [] \<Longrightarrow> set_members (str_field ''path'' s) m = Some (m\<lparr>m_Path := s\<rparr>)"
  "m_Accept m = [] \<Longrightarrow> set_members (str_field ''accept'' s) m = Some (m\<lparr>m_Accept := s\<rparr>)"
  "m_Upgrade m = [] \<Longrightarrow> set_members (str_field ''upgrade'' s) m = Some (m\<lparr>m_Upgrade := s\<rparr>)"
  "m_Connection m = [] \<Longrightarrow> set_members (str_field ''connection'' s) m = Some (m\<lparr>m_Connection := s\<rparr>)"
  "m_WSVersion m = [] \<Longrightarrow> set_members (str_field ''ws_version'' s) m = Some (m\<lparr>m_WSVersion := s\<rparr>)"
  "m_Location m = [] \<Longrightarrow> set_members (str_field ''location'' s) m = Some (m\<lparr>m_Location := s\<rparr>)"
  "m_SetCookie m = [] \<Longrightarrow> set_members (str_field ''set_cookie'' s) m = Some (m\<lparr>m_SetCookie := s\<rparr>)"
  "m_Sub m = [] \<Longrightarrow> set_members (str_field ''sub'' s) m = Some (m\<lparr>m_Sub := s\<rparr>)"
  "m_WSKey m = [] \<Longrightarrow> set_members (str_field ''ws_key'' s) m = Some (m\<lparr>m_WSKey := s\<rparr>)"
  "m_Prefix m = [] \<Longrightarrow> set_members (str_field ''prefix'' s) m = Some (m\<lparr>m_Prefix := s\<rparr>)"
  "m_ClientIP m = [] \<Longrightarrow> set_members (str_field ''client_ip'' s) m = Some (m\<lparr>m_ClientIP := s\<rparr>)"
  "m_RemoteUser m = [] \<Longrightarrow> set_members (str_field ''remote_user'' s) m = Some (m\<lparr>m_RemoteUser := s\<rparr>)"
  "m_RemotePassword m = [] \<Longrightarrow> set_members (str_field ''remote_password'' s) m = Some (m\<lparr>m_RemotePassword := s\<rparr>)"
  "m_RDPSessionKey m = [] \<Longrightarrow> set_members (str_field ''rdp_session_key'' s) m = Some (m\<lparr>m_RDPSessionKey := s\<rparr>)"
  "m_Notice m = [] \<Longrightarrow> set_members (str_field ''notice'' s) m = Some (m\<lparr>m_Notice := s\<rparr>)"
  "m_Error m = [] \<Longrightarrow> set_members (str_field ''error'' s) m = Some (m\<lparr>m_Error := s\<rparr>)"
  by (cases m; auto simp: str_field_def msg_setters str_set_def)+

lemma set_int_fields:
  "m_Status m = 0 \<Longrightarrow> int64 i \<Longrightarrow> set_members (int_field ''status'' i) m = Some (m\<lparr>m_Status := i\<rparr>)"
  "m_ActiveConns m = 0 \<Longrightarrow> int64 i \<Longrightarrow> set_members (int_field ''active_conns'' i) m = Some (m\<lparr>m_ActiveConns := i\<rparr>)"
  "m_ListenForwards m = 0 \<Longrightarrow> int64 i \<Longrightarrow> set_members (int_field ''listen_forwards'' i) m = Some (m\<lparr>m_ListenForwards := i\<rparr>)"
  by (cases m; auto simp: int_field_def msg_setters int_set_def)+

lemma set_bool_fields:
  "\<not> m_Authorized m \<Longrightarrow> set_members (bool_field ''authorized'' b) m = Some (m\<lparr>m_Authorized := b\<rparr>)"
  "\<not> m_Draining m \<Longrightarrow> set_members (bool_field ''draining'' b) m = Some (m\<lparr>m_Draining := b\<rparr>)"
  by (cases m; auto simp: bool_field_def msg_setters bool_set_def)+

lemma set_required_fields:
  "int64 i \<Longrightarrow> set_members (required_fields i s) m = Some (m\<lparr>m_V := i, m_Type := s\<rparr>)"
  by (simp add: required_fields_def msg_setters int_set_def str_set_def)

lemma sock_decode_json: "sock_decode (sock_json d) = Some d"
  by (cases d) (simp add: sock_decode_def sock_json_def str_field_def sock_setter_def find_setter_def
      equal_fold_def to_lower_def lower_char_def str_set_def)

lemma those_map_Some: "those (map Some xs) = Some xs"
  by (induction xs) simp_all

lemma set_sockets_field:
  "m_Sockets m = [] \<Longrightarrow> set_members (sockets_field ds) m = Some (m\<lparr>m_Sockets := ds\<rparr>)"
  by (cases m)
     (auto simp: sockets_field_def msg_setters sockets_set_def comp_def sock_decode_json
       those_map_Some)

text \<open>The messages a Go program can hold: 64-bit integers and valid text.\<close>

definition sock_ok :: "SockDesc \<Rightarrow> bool" where
  "sock_ok d \<longleftrightarrow> list_all valid_utf8 [sd_Kind d, sd_ID d, sd_Listen d, sd_Target d]"

definition msg_ok :: "Msg \<Rightarrow> bool" where
  "msg_ok m \<longleftrightarrow>
     int64 (m_V m) \<and> int64 (m_Status m) \<and> int64 (m_ActiveConns m) \<and> int64 (m_ListenForwards m) \<and>
     list_all sock_ok (m_Sockets m) \<and>
     list_all valid_utf8
       [m_Type m, m_ID m, m_Protocol m, m_Listen m, m_Target m, m_Kind m, m_SSHUser m,
        m_SSHPubKey m, m_SSHFingerprint m, m_RDPUser m, m_RDPDomain m, m_RDPWorkstation m,
        m_RDPChallenge m, m_RDPNTResponse m, m_Host m, m_SNI m, m_Cookie m, m_Path m, m_Accept
        m, m_Upgrade m, m_Connection m, m_WSVersion m, m_Location m, m_SetCookie m, m_Sub m,
        m_WSKey m, m_Prefix m, m_ClientIP m, m_RemoteUser m, m_RemotePassword m, m_RDPSessionKey
        m, m_Notice m, m_Error m]"

lemma msg_decode_json:
  assumes "msg_ok m"
  shows "msg_decode (msg_json m) = Some m"
proof -
  have "int64 (m_V m)" "int64 (m_Status m)" "int64 (m_ActiveConns m)" "int64 (m_ListenForwards m)"
    using assms by (simp_all add: msg_ok_def)
  then show ?thesis
    unfolding msg_decode_def msg_json_def
    by (simp add: decode_members_append set_str_fields set_int_fields set_bool_fields
        set_required_fields set_sockets_field zeroMsg_def del: decode_members.simps)
qed

end
