(* ===== verification/Control_Conn.thy ===== *)
theory Control_Conn
  imports Control_Message
begin

text \<open>
  The framed connection of the control protocol
  (\<open>backstage/dproxy/internal/control/conn.go\<close>, the same file as in \<open>dpipe\<close>): messages as JSON
  texts on a stream socket, and the file descriptors that arrive with them.

  A socket is the sequence of results its \<open>ReadMsgUnix\<close> calls will give. An event carries the
  bytes, the parsed control messages (\<open>unix.ParseSocketControlMessage\<close>, \<^term>\<open>None\<close> when it
  fails), the truncation flag and the error. The descriptors the code closes are recorded in the
  order of closing. The bytes of a message are kept as a \<^typ>\<open>string\<close>.
\<close>

section \<open>Model\<close>

datatype ctl_error =
    ErrMsgTooLarge
  | MalformedMessage
  | UnsupportedVersion int
  | TruncatedAncillary
  | ParseControlMessage
  | ParseRights
  | TooManyFDs
  | FDsWithIncompleteMessage
  | ConnEOF
  | ConnError string

definition marshal :: "Msg \<Rightarrow> ctl_error + string" where
  "marshal m =
     (let m = (if m_V m = 0 then m\<lparr>m_V := Version\<rparr> else m);
          b = print_json (msg_json m)
      in if length b > MaxMsgSize then Inl ErrMsgTooLarge else Inr b)"

text \<open>
  \<open>SendMsg\<close>: the first write carries the descriptors, later writes send what is left. \<open>writes\<close>
  gives the result of each write; the result holds the bytes on the wire, with the descriptors
  that went with the first of them, and \<^term>\<open>None\<close> means that the last write has not returned.
\<close>

fun writeRest :: "(string + nat) list \<Rightarrow> string \<Rightarrow> nat \<Rightarrow> (string \<times> ctl_error option) option" where
  "writeRest writes b n =
     (if n \<ge> length b then Some (take n b, None)
      else case writes of
             [] \<Rightarrow> None
           | Inl e # ws \<Rightarrow> Some (take n b, Some (ConnError e))
           | Inr w # ws \<Rightarrow> writeRest ws b (n + w))"

definition SendMsg ::
  "(string + nat) list \<Rightarrow> Msg \<Rightarrow> int list \<Rightarrow> ((string \<times> int list) \<times> ctl_error option) option" where
  "SendMsg writes m fds =
     (case marshal m of
        Inl e \<Rightarrow> Some (([], []), Some e)
      | Inr b \<Rightarrow>
          (case writes of
             [] \<Rightarrow> None
           | Inl e # ws \<Rightarrow> Some (([], []), Some (ConnError e))
           | Inr n # ws \<Rightarrow> map_option (\<lambda>(out, err). ((out, fds), err)) (writeRest ws b n)))"

definition trimLeadingSpace :: "string \<Rightarrow> string" where
  "trimLeadingSpace b = dropWhile (\<lambda>c. c \<in> {CHR '' '', CHR 0x09, CHR 0x0D, CHR 0x0A}) b"

datatype decoded = DecodeErr ctl_error | NoMessage | GotMsg Msg

definition decodeBuffered :: "string \<Rightarrow> string \<times> decoded" where
  "decodeBuffered rbuf0 =
     (let rbuf = trimLeadingSpace rbuf0 in
      if rbuf = [] then (rbuf, NoMessage)
      else case parse_json rbuf of
             JMore \<Rightarrow>
               (rbuf, if length rbuf > MaxMsgSize then DecodeErr ErrMsgTooLarge else NoMessage)
           | JBad \<Rightarrow> (rbuf, DecodeErr MalformedMessage)
           | JOk v rest \<Rightarrow>
               (case msg_decode v of
                  None \<Rightarrow> (rbuf, DecodeErr MalformedMessage)
                | Some m \<Rightarrow>
                    if m_V m \<noteq> Version then (rest, DecodeErr (UnsupportedVersion (m_V m)))
                    else (rest, GotMsg m)))"

datatype cmsg = Rights "int list option" | OtherCmsg

record recv_event =
  ev_data :: string
  ev_oobn :: nat
  ev_cmsgs :: "cmsg list option"
  ev_ctrunc :: bool
  ev_err :: "string option"

text \<open>The loop of \<open>parseRights\<close>; the second component is what it closes.\<close>

fun collectRights :: "cmsg list \<Rightarrow> int list \<Rightarrow> (ctl_error + int list) \<times> int list" where
  "collectRights [] out = (if length out > MaxRecvFDs then (Inl TooManyFDs, out) else (Inr out, []))"
| "collectRights (OtherCmsg # ms) out = collectRights ms out"
| "collectRights (Rights None # ms) out = (Inl ParseRights, out)"
| "collectRights (Rights (Some fds) # ms) out = collectRights ms (out @ fds)"

definition parseRights :: "nat \<Rightarrow> cmsg list option \<Rightarrow> (ctl_error + int list) \<times> int list" where
  "parseRights oobn msgs =
     (if oobn = 0 then (Inr [], [])
      else case msgs of
             None \<Rightarrow> (Inl ParseControlMessage, [])
           | Some ms \<Rightarrow> collectRights ms [])"

record recv_result =
  rr_out :: "ctl_error + (Msg \<times> int list)"
  rr_rbuf :: string
  rr_closed :: "int list"
  rr_rest :: "recv_event list"

text \<open>The body of the loop after a read that brought something.\<close>

definition recvStep ::
  "recv_event \<Rightarrow> string \<Rightarrow> (ctl_error + (Msg \<times> int list)) option \<times> string \<times> int list" where
  "recvStep ev rbuf =
     (let (r, closed) = parseRights (ev_oobn ev) (ev_cmsgs ev) in
      if ev_ctrunc ev then
        (Some (Inl TruncatedAncillary), rbuf, closed @ (case r of Inr fds \<Rightarrow> fds | Inl _ \<Rightarrow> []))
      else case r of
             Inl e \<Rightarrow> (Some (Inl e), rbuf, closed)
           | Inr fds \<Rightarrow>
               (let (rbuf', d) = decodeBuffered (rbuf @ ev_data ev) in
                case d of
                  DecodeErr e \<Rightarrow> (Some (Inl e), rbuf', closed @ fds)
                | GotMsg m \<Rightarrow> (Some (Inr (m, fds)), rbuf', closed)
                | NoMessage \<Rightarrow>
                    if fds \<noteq> [] then (Some (Inl FDsWithIncompleteMessage), rbuf', closed @ fds)
                    else (case ev_err ev of
                            Some e \<Rightarrow> (Some (Inl (ConnError e)), rbuf', closed)
                          | None \<Rightarrow> (None, rbuf', closed))))"

fun RecvMsg :: "recv_event list \<Rightarrow> string \<Rightarrow> int list \<Rightarrow> recv_result option" where
  "RecvMsg evs rbuf closed =
     (let (rbuf, d) = decodeBuffered rbuf in
      case d of
        DecodeErr e \<Rightarrow> Some \<lparr>rr_out = Inl e, rr_rbuf = rbuf, rr_closed = closed, rr_rest = evs\<rparr>
      | GotMsg m \<Rightarrow> Some \<lparr>rr_out = Inr (m, []), rr_rbuf = rbuf, rr_closed = closed, rr_rest = evs\<rparr>
      | NoMessage \<Rightarrow>
          (case evs of
             [] \<Rightarrow> None
           | ev # evs \<Rightarrow>
               if ev_data ev = [] \<and> ev_oobn ev = 0 then
                 Some \<lparr>rr_out = Inl (case ev_err ev of None \<Rightarrow> ConnEOF | Some e \<Rightarrow> ConnError e),
                       rr_rbuf = rbuf, rr_closed = closed, rr_rest = evs\<rparr>
               else (case recvStep ev rbuf of
                       (Some out, rbuf, cl) \<Rightarrow>
                         Some \<lparr>rr_out = out, rr_rbuf = rbuf, rr_closed = closed @ cl, rr_rest = evs\<rparr>
                     | (None, rbuf, cl) \<Rightarrow> RecvMsg evs rbuf (closed @ cl))))"

declare RecvMsg.simps [simp del] writeRest.simps [simp del]

section \<open>Messages on the wire\<close>

lemma valid_utf8_literal: "list_all is_ascii s \<Longrightarrow> valid_utf8 s"
  by (rule valid_utf8_ascii)

abbreviation members_ok :: "(string \<times> json) list \<Rightarrow> bool" where
  "members_ok \<equiv> list_all (\<lambda>kv. valid_utf8 (fst kv) \<and> json_ok (snd kv))"

lemma field_ok:
  "list_all is_ascii k \<Longrightarrow> valid_utf8 s \<Longrightarrow> members_ok (str_field k s)"
  "list_all is_ascii k \<Longrightarrow> members_ok (int_field k i)"
  "list_all is_ascii k \<Longrightarrow> members_ok (bool_field k b)"
  "valid_utf8 s \<Longrightarrow> members_ok (required_fields i s)"
  by (auto simp: str_field_def int_field_def bool_field_def required_fields_def valid_utf8_ascii
      is_ascii_def)

lemma sockets_field_ok: "list_all sock_ok ds \<Longrightarrow> members_ok (sockets_field ds)"
  by (auto simp: sockets_field_def list_all_iff sock_json_def sock_ok_def str_field_def
      valid_utf8_ascii is_ascii_def)

lemma json_ok_msg: "msg_ok m \<Longrightarrow> json_ok (msg_json m)"
  unfolding msg_json_def msg_ok_def
  by (simp add: field_ok sockets_field_ok is_ascii_def)

lemma print_msg_first: "\<exists>r. print_json (msg_json m) = CHR ''{'' # r"
  by (simp add: msg_json_def)

lemma trimLeadingSpace_print [simp]:
  "trimLeadingSpace (print_json (msg_json m) @ rest) = print_json (msg_json m) @ rest"
  using print_msg_first [of m] by (auto simp: trimLeadingSpace_def)

lemma decodeBuffered_print:
  assumes "msg_ok m" and "m_V m = Version"
  shows "decodeBuffered (print_json (msg_json m) @ rest) = (rest, GotMsg m)"
proof -
  have "parse_json (print_json (msg_json m) @ rest) = JOk (msg_json m) rest"
    using json_ok_msg [OF assms(1)] parse_json_print_obj unfolding msg_json_def by blast
  moreover have "print_json (msg_json m) @ rest \<noteq> []"
    using print_msg_first [of m] by auto
  ultimately show ?thesis
    using assms by (simp add: decodeBuffered_def msg_decode_json Let_def)
qed

text \<open>The wire form of one message, and what one call of \<open>RecvMsg\<close> takes from the buffer.\<close>

definition ctl_wire :: "Msg \<Rightarrow> bytes" where
  "ctl_wire m = to_bytes (print_json (msg_json m))"

definition ctl_take :: "bytes \<Rightarrow> Msg parsed" where
  "ctl_take b =
     (case RecvMsg [] (of_bytes b) [] of
        Some r \<Rightarrow> (case rr_out r of Inr (m, []) \<Rightarrow> Some (m, to_bytes (rr_rbuf r)) | _ \<Rightarrow> None)
      | None \<Rightarrow> None)"

definition ctl_ok :: "Msg \<Rightarrow> bool" where
  "ctl_ok m \<longleftrightarrow> msg_ok m \<and> m_V m = Version"

lemma of_bytes_append: "of_bytes (a @ b) = of_bytes a @ of_bytes b"
  by (simp add: of_bytes_def)

interpretation ctl: framing ctl_wire ctl_take ctl_ok
proof unfold_locales
  show "ctl_take (ctl_wire m @ rest) = Some (m, rest)" if "ctl_ok m" for m rest
    using that decodeBuffered_print [of m "of_bytes rest"]
    by (simp add: ctl_ok_def ctl_take_def ctl_wire_def of_bytes_append RecvMsg.simps)
qed

fun ctl_take_n :: "nat \<Rightarrow> bytes \<Rightarrow> Msg list parsed" where
  "ctl_take_n 0 b = Some ([], b)"
| "ctl_take_n (Suc n) b =
     (case ctl_take b of
        None \<Rightarrow> None
      | Some (m, rest) \<Rightarrow> map_option (\<lambda>(ms, r). (m # ms, r)) (ctl_take_n n rest))"

lemma ctl_take_n_dec: "ctl_take_n n b = ctl.dec_n n b"
  by (induction n arbitrary: b) (auto split: option.split)

lemma ctl_enc_all: "ctl.enc_all ms = concat (map ctl_wire ms)"
  by (induction ms) simp_all

section \<open>File descriptors\<close>

text \<open>
  The descriptors an event hands to the process. An event is well formed when the kernel's
  control messages parse, which is what \<open>unix.ParseSocketControlMessage\<close> documents for buffers
  the kernel filled.
\<close>

fun rights_fds :: "cmsg list \<Rightarrow> int list" where
  "rights_fds [] = []"
| "rights_fds (Rights (Some fds) # ms) = fds @ rights_fds ms"
| "rights_fds (_ # ms) = rights_fds ms"

definition event_fds :: "recv_event \<Rightarrow> int list" where
  "event_fds ev =
     (if ev_oobn ev = 0 then [] else case ev_cmsgs ev of None \<Rightarrow> [] | Some ms \<Rightarrow> rights_fds ms)"

definition event_ok :: "recv_event \<Rightarrow> bool" where
  "event_ok ev \<longleftrightarrow>
     (case ev_cmsgs ev of None \<Rightarrow> False | Some ms \<Rightarrow> Rights None \<notin> set ms)"

lemma collectRights_fds:
  assumes "Rights None \<notin> set ms"
  shows "collectRights ms out =
    (if length (out @ rights_fds ms) > MaxRecvFDs then (Inl TooManyFDs, out @ rights_fds ms)
     else (Inr (out @ rights_fds ms), []))"
  using assms by (induction ms out rule: collectRights.induct) auto

lemma parseRights_fds:
  assumes "event_ok ev"
  shows "parseRights (ev_oobn ev) (ev_cmsgs ev) =
    (if length (event_fds ev) > MaxRecvFDs then (Inl TooManyFDs, event_fds ev)
     else (Inr (event_fds ev), []))"
  using assms
  by (auto simp: parseRights_def event_fds_def event_ok_def collectRights_fds MaxRecvFDs_def
      split: option.splits)

text \<open>What a step that ends the call returns and closes is exactly what the event brought.\<close>

lemma recvStep_fds:
  assumes "event_ok ev" and "recvStep ev rbuf = (out, rbuf', cl)"
  shows "cl @ (case out of Some (Inr (m, fds)) \<Rightarrow> fds | _ \<Rightarrow> []) = event_fds ev"
    and "out = Some (Inr (m, fds)) \<Longrightarrow> length fds \<le> MaxRecvFDs"
  using assms
  by (auto simp: recvStep_def parseRights_fds Let_def
      split: if_splits prod.splits decoded.splits option.splits)

definition returned_fds :: "recv_result \<Rightarrow> int list" where
  "returned_fds r = (case rr_out r of Inr (m, fds) \<Rightarrow> fds | Inl _ \<Rightarrow> [])"

lemma RecvMsg_fds:
  assumes "list_all event_ok evs" and "RecvMsg evs rbuf closed = Some r"
  shows "rr_closed r @ returned_fds r @ concat (map event_fds (rr_rest r))
      = closed @ concat (map event_fds evs) \<and> length (returned_fds r) \<le> MaxRecvFDs"
  using assms
proof (induction evs rbuf closed rule: RecvMsg.induct)
  case (1 evs rbuf closed)
  obtain rb d where d: "decodeBuffered rbuf = (rb, d)" by fastforce
  show ?case
  proof (cases "d = NoMessage")
    case False
    with "1.prems"(2) d show ?thesis
      by (subst (asm) RecvMsg.simps) (auto simp: returned_fds_def split: decoded.splits)
  next
    case True
    with "1.prems"(2) d obtain ev es where evs: "evs = ev # es"
      by (subst (asm) RecvMsg.simps) (auto split: list.splits)
    obtain out rb' cl where st: "recvStep ev rb = (out, rb', cl)" by (metis surj_pair)
    have ev: "event_ok ev" "list_all event_ok es" using "1.prems"(1) evs by simp_all
    show ?thesis
    proof (cases "ev_data ev = [] \<and> ev_oobn ev = 0")
      case True
      then have "event_fds ev = []" by (simp add: event_fds_def)
      with True \<open>d = NoMessage\<close> "1.prems"(2) d evs show ?thesis
        by (subst (asm) RecvMsg.simps) (auto simp: returned_fds_def)
    next
      case False
      note step = recvStep_fds [OF ev(1) st]
      show ?thesis
      proof (cases out)
        case None
        with False \<open>d = NoMessage\<close> "1.prems"(2) d evs st
        have rec: "RecvMsg es rb' (closed @ cl) = Some r"
          by (subst (asm) RecvMsg.simps) auto
        have "rr_closed r @ returned_fds r @ concat (map event_fds (rr_rest r))
            = (closed @ cl) @ concat (map event_fds es) \<and> length (returned_fds r) \<le> MaxRecvFDs"
          by (rule "1.IH" [OF d [symmetric] refl True evs False st [symmetric] None refl ev(2) rec])
        with None step(1) evs show ?thesis by simp
      next
        case (Some o')
        with False \<open>d = NoMessage\<close> "1.prems"(2) d evs st step show ?thesis
          by (subst (asm) RecvMsg.simps) (auto simp: returned_fds_def split: sum.splits)
      qed
    qed
  qed
qed

lemma writeRest_complete:
  "writeRest ws b n = Some (out, None) \<Longrightarrow> out = b"
  by (induction ws b n rule: writeRest.induct)
     (subst (asm) (2) writeRest.simps, auto split: if_splits list.splits sum.splits)

section \<open>Properties\<close>

definition example_msgs :: "Msg list" where
  "example_msgs = [OK ''0123456789abcdef'', Err ''7'' ''unknown resolve kind \"x\"'']"

lemma example_msgs_ok: "list_all ctl_ok example_msgs"
  by code_simp



text \<open>
  Property C31. No descriptor is lost or closed twice on any path through \<open>RecvMsg\<close>, the error
  paths included: the descriptors it has closed, the ones it hands to its caller and the ones
  still to come are together, in order, exactly the ones received; and it never hands out more
  than \<open>MaxRecvFDs\<close>.
\<close>

theorem RecvMsg_descriptors:
  assumes "list_all event_ok evs" and "RecvMsg evs rbuf [] = Some r"
  shows "rr_closed r @ returned_fds r @ concat (map event_fds (rr_rest r))
      = concat (map event_fds evs) \<and> length (returned_fds r) \<le> MaxRecvFDs"
  using RecvMsg_fds [OF assms] by simp

definition example_event :: recv_event where
  "example_event = \<lparr>ev_data = print_json (msg_json (OK ''1'')) @ ''{'', ev_oobn = 24,
     ev_cmsgs = Some [OtherCmsg, Rights (Some [7, 8])], ev_ctrunc = False, ev_err = None\<rparr>"

theorem RecvMsg_descriptors_witness:
  "\<exists>r. RecvMsg [example_event] [] [] = Some r \<and> rr_closed r @ returned_fds r = [7, 8]"
proof -
  have "ctl_ok (OK ''1'')" by code_simp
  then have d: "decodeBuffered (print_json (msg_json (OK ''1'')) @ ''{'') = (''{'', GotMsg (OK ''1''))"
    by (simp add: decodeBuffered_print ctl_ok_def)
  have "recvStep example_event [] = (Some (Inr (OK ''1'', [7, 8])), ''{'', [])"
    using d by (simp add: recvStep_def example_event_def parseRights_def MaxRecvFDs_def)
  moreover have "decodeBuffered [] = ([], NoMessage)"
    by (simp add: decodeBuffered_def trimLeadingSpace_def)
  ultimately have r: "\<exists>r. RecvMsg [example_event] [] [] = Some r \<and> rr_rest r = []"
    by (subst RecvMsg.simps) (simp add: example_event_def)
  moreover have "event_ok example_event" "event_fds example_event = [7, 8]"
    by (simp_all add: event_ok_def event_fds_def example_event_def)
  ultimately show ?thesis
    using RecvMsg_descriptors [of "[example_event]" "[]"] by fastforce
qed

text \<open>
  Further result. When \<open>SendMsg\<close> reports success, exactly the marshalled message has been
  written, however the socket split the writes, the descriptors went with its first bytes, and
  the message was within \<open>MaxMsgSize\<close>.
\<close>

theorem SendMsg_complete:
  assumes "SendMsg writes m fds = Some ((out, sent), None)"
  shows "marshal m = Inr out \<and> sent = fds \<and> length out \<le> MaxMsgSize"
proof (cases "marshal m")
  case (Inl e)
  with assms show ?thesis by (simp add: SendMsg_def)
next
  case (Inr b)
  then have "length b \<le> MaxMsgSize" by (auto simp: marshal_def Let_def split: if_splits)
  with Inr assms show ?thesis
    by (auto simp: SendMsg_def split: list.splits sum.splits dest!: writeRest_complete)
qed

theorem SendMsg_complete_witness:
  "\<exists>out. SendMsg [Inr 5, Inr 100] (OK ''1'') [3, 4] = Some ((out, [3, 4]), None) \<and>
     marshal (OK ''1'') = Inr out"
proof -
  obtain out where "SendMsg [Inr 5, Inr 100] (OK ''1'') [3, 4] = Some ((out, [3, 4]), None)"
    by (rule that) code_simp
  then show ?thesis
    using SendMsg_complete by blast
qed

end
