(* ===== verification/Control_Peer.thy ===== *)
theory Control_Peer
  imports Control_Conn
begin

text \<open>
  The request/reply multiplexer on top of a control connection
  (\<open>backstage/dproxy/internal/control/peer.go\<close>, the same file as in \<open>dpipe\<close>).

  Every critical section of the source is one step of \<open>peer_step\<close>: the goroutines of the
  requests and the read loop interleave between them in any order. A request is named by the
  identity of the channel it made, a natural number that is fresh when the request starts; its
  phase says how far its goroutine has come. A reply channel has room for one message.
\<close>

section \<open>Model\<close>

datatype reply_error = RErrClosed | RDuplicateID | RSendFailed | RContextDone | RRemote string

datatype phase =
    Waiting string
  | Leaving string "reply_error + Msg"
  | Returned "reply_error + Msg"

record Peer =
  p_waiters :: "string \<rightharpoonup> nat"
  p_chan :: "nat \<rightharpoonup> Msg"
  p_phase :: "nat \<rightharpoonup> phase"
  p_closed :: bool

definition NewPeer :: Peer where
  "NewPeer = \<lparr>p_waiters = Map.empty, p_chan = Map.empty, p_phase = Map.empty, p_closed = False\<rparr>"

text \<open>The first critical section of \<open>Request\<close>: register a waiter, or return an error.\<close>

definition request_start :: "nat \<Rightarrow> string \<Rightarrow> Peer \<Rightarrow> Peer" where
  "request_start c i p =
     (if p_closed p then p\<lparr>p_phase := (p_phase p)(c \<mapsto> Returned (Inl RErrClosed))\<rparr>
      else if p_waiters p i \<noteq> None then p\<lparr>p_phase := (p_phase p)(c \<mapsto> Returned (Inl RDuplicateID))\<rparr>
      else p\<lparr>p_waiters := (p_waiters p)(i \<mapsto> c), p_phase := (p_phase p)(c \<mapsto> Waiting i)\<rparr>)"

text \<open>The result of a reply taken from the channel.\<close>

definition reply_result :: "Msg \<Rightarrow> reply_error + Msg" where
  "reply_result m = (if m_Type m = TypeError then Inl (RRemote (m_Error m)) else Inr m)"

text \<open>\<open>deliver\<close>: look up and delete the waiter, then send on its channel.\<close>

definition deliver :: "Msg \<Rightarrow> Peer \<Rightarrow> Peer" where
  "deliver m p =
     (let ch = p_waiters p (m_ID m);
          p = p\<lparr>p_waiters := (p_waiters p)(m_ID m := None)\<rparr>
      in case ch of
           None \<Rightarrow> p
         | Some c \<Rightarrow> p\<lparr>p_chan := (p_chan p)(c \<mapsto> m)\<rparr>)"

text \<open>The send in \<open>deliver\<close> blocks the read loop when the channel is full.\<close>

definition deliver_blocks :: "Msg \<Rightarrow> Peer \<Rightarrow> bool" where
  "deliver_blocks m p \<longleftrightarrow> (case p_waiters p (m_ID m) of None \<Rightarrow> False | Some c \<Rightarrow> p_chan p c \<noteq> None)"

definition shutdown :: "Peer \<Rightarrow> Peer" where
  "shutdown p = (if p_closed p then p else p\<lparr>p_closed := True, p_waiters := Map.empty\<rparr>)"

definition leave :: "nat \<Rightarrow> string \<Rightarrow> reply_error + Msg \<Rightarrow> Peer \<Rightarrow> Peer" where
  "leave c i r p = p\<lparr>p_phase := (p_phase p)(c \<mapsto> Leaving i r)\<rparr>"

text \<open>The deferred function of \<open>Request\<close>: delete the waiter of this identifier.\<close>

definition request_cleanup :: "nat \<Rightarrow> string \<Rightarrow> reply_error + Msg \<Rightarrow> Peer \<Rightarrow> Peer" where
  "request_cleanup c i r p =
     p\<lparr>p_waiters := (p_waiters p)(i := None), p_phase := (p_phase p)(c \<mapsto> Returned r)\<rparr>"

inductive peer_step :: "Peer \<Rightarrow> Peer \<Rightarrow> bool" where
  start: "p_phase p c = None \<Longrightarrow> peer_step p (request_start c i p)"
| send_failed: "p_phase p c = Some (Waiting i) \<Longrightarrow> peer_step p (leave c i (Inl RSendFailed) p)"
| reply: "p_phase p c = Some (Waiting i) \<Longrightarrow> p_chan p c = Some m \<Longrightarrow>
    peer_step p (leave c i (reply_result m) (p\<lparr>p_chan := (p_chan p)(c := None)\<rparr>))"
| context_done: "p_phase p c = Some (Waiting i) \<Longrightarrow> peer_step p (leave c i (Inl RContextDone) p)"
| peer_done: "p_phase p c = Some (Waiting i) \<Longrightarrow> p_closed p \<Longrightarrow>
    peer_step p (leave c i (Inl RErrClosed) p)"
| cleanup: "p_phase p c = Some (Leaving i r) \<Longrightarrow> peer_step p (request_cleanup c i r p)"
| deliver_reply: "IsReply (m_Type m) \<Longrightarrow> \<not> deliver_blocks m p \<Longrightarrow> peer_step p (deliver m p)"
| shutdown: "peer_step p (shutdown p)"

definition peer_reachable :: "Peer \<Rightarrow> bool" where
  "peer_reachable p \<longleftrightarrow> peer_step\<^sup>*\<^sup>* NewPeer p"

text \<open>One round of \<open>Serve\<close>: what is done with a received message and its descriptors.\<close>

datatype serve_action =
    ServeDeliver Msg
  | ServeUnsupported Msg
  | ServeDispatch Msg "int list"

definition serveMsg :: "bool \<Rightarrow> Msg \<Rightarrow> int list \<Rightarrow> int list \<times> serve_action" where
  "serveMsg hasHandler m fds =
     (if IsReply (m_Type m) then (fds, ServeDeliver m)
      else if \<not> hasHandler then (fds, ServeUnsupported (Err (m_ID m) ''unsupported request''))
      else ([], ServeDispatch m fds))"

section \<open>Invariant\<close>

text \<open>
  A registered waiter has an empty channel and belongs to a request with that identifier that
  has not returned; a message in a channel, and the reply a request ends with, carry the
  identifier of the request.
\<close>

fun phase_ident :: "phase \<Rightarrow> string option" where
  "phase_ident (Waiting i) = Some i"
| "phase_ident (Leaving i r) = Some i"
| "phase_ident (Returned r) = None"

fun phase_ok :: "phase \<Rightarrow> bool" where
  "phase_ok (Leaving i (Inr m)) = (m_ID m = i)"
| "phase_ok _ = True"

definition peer_inv :: "Peer \<Rightarrow> bool" where
  "peer_inv p \<longleftrightarrow>
     (\<forall>i c. p_waiters p i = Some c \<longrightarrow>
        p_chan p c = None \<and> (\<exists>ph. p_phase p c = Some ph \<and> phase_ident ph = Some i)) \<and>
     (\<forall>c m. p_chan p c = Some m \<longrightarrow>
        (\<exists>ph. p_phase p c = Some ph \<and> (\<forall>i. phase_ident ph = Some i \<longrightarrow> m_ID m = i))) \<and>
     (\<forall>c ph. p_phase p c = Some ph \<longrightarrow> phase_ok ph) \<and>
     (p_closed p \<longrightarrow> p_waiters p = Map.empty)"

lemma peer_invI:
  assumes "\<And>i c. p_waiters p i = Some c \<Longrightarrow>
        p_chan p c = None \<and> (\<exists>ph. p_phase p c = Some ph \<and> phase_ident ph = Some i)"
    and "\<And>c m. p_chan p c = Some m \<Longrightarrow>
        \<exists>ph. p_phase p c = Some ph \<and> (\<forall>i. phase_ident ph = Some i \<longrightarrow> m_ID m = i)"
    and "\<And>c ph. p_phase p c = Some ph \<Longrightarrow> phase_ok ph"
    and "p_closed p \<Longrightarrow> p_waiters p = Map.empty"
  shows "peer_inv p"
  using assms by (simp add: peer_inv_def)

lemma peer_invD:
  assumes "peer_inv p"
  shows "p_waiters p i = Some c \<Longrightarrow> p_chan p c = None"
    and "p_waiters p i = Some c \<Longrightarrow> \<exists>ph. p_phase p c = Some ph \<and> phase_ident ph = Some i"
    and "p_chan p c = Some m \<Longrightarrow>
        \<exists>ph. p_phase p c = Some ph \<and> (\<forall>i. phase_ident ph = Some i \<longrightarrow> m_ID m = i)"
    and "p_phase p c = Some ph \<Longrightarrow> phase_ok ph"
    and "p_closed p \<Longrightarrow> p_waiters p = Map.empty"
  using assms by (simp_all add: peer_inv_def)

lemma peer_inv_request_start:
  assumes inv: "peer_inv p" and fresh: "p_phase p c = None"
  shows "peer_inv (request_start c i p)"
proof -
  have "p_chan p c = None" using peer_invD(3) [OF inv, of c] fresh by fastforce
  moreover have "p_waiters p j \<noteq> Some c" for j using peer_invD(2) [OF inv, of j c] fresh by auto
  ultimately show ?thesis
    using peer_invD [OF inv] fresh
    by (intro peer_invI) (auto simp: request_start_def split: if_splits)
qed

lemma peer_inv_leave:
  assumes inv: "peer_inv p" and ph: "p_phase p c = Some (Waiting i)" and ok: "phase_ok (Leaving i r)"
  shows "peer_inv (leave c i r p)"
  using peer_invD [OF inv] ph ok
  by (intro peer_invI) (fastforce simp: leave_def split: if_splits)+

lemma peer_inv_reply:
  assumes inv: "peer_inv p" and ph: "p_phase p c = Some (Waiting i)" and m: "p_chan p c = Some m"
  shows "peer_inv (leave c i (reply_result m) (p\<lparr>p_chan := (p_chan p)(c := None)\<rparr>))"
proof (rule peer_inv_leave)
  show "peer_inv (p\<lparr>p_chan := (p_chan p)(c := None)\<rparr>)"
    using peer_invD [OF inv] by (intro peer_invI) (auto split: if_splits)
  show "p_phase (p\<lparr>p_chan := (p_chan p)(c := None)\<rparr>) c = Some (Waiting i)" using ph by simp
  show "phase_ok (Leaving i (reply_result m))"
    using peer_invD(3) [OF inv m] ph by (simp add: reply_result_def)
qed

lemma peer_inv_cleanup:
  assumes inv: "peer_inv p" and ph: "p_phase p c = Some (Leaving i r)"
  shows "peer_inv (request_cleanup c i r p)"
proof -
  have "j = i" if "p_waiters p j = Some c" for j
    using peer_invD(2) [OF inv that] ph by simp
  then show ?thesis
    using peer_invD [OF inv]
    by (intro peer_invI) (fastforce simp: request_cleanup_def split: if_splits)+
qed

lemma peer_inv_deliver:
  assumes inv: "peer_inv p"
  shows "peer_inv (deliver m p)"
proof (cases "p_waiters p (m_ID m)")
  case None
  then show ?thesis
    using peer_invD [OF inv]
    by (intro peer_invI) (auto simp: deliver_def split: if_splits)
next
  case (Some c)
  have own: "j = m_ID m" if "p_waiters p j = Some c" for j
    using peer_invD(2) [OF inv that] peer_invD(2) [OF inv Some] by auto
  have q: "deliver m p
      = p\<lparr>p_waiters := (p_waiters p)(m_ID m := None), p_chan := (p_chan p)(c \<mapsto> m)\<rparr>"
    using Some by (simp add: deliver_def)
  show ?thesis
  proof (rule peer_invI)
    fix i d assume "p_waiters (deliver m p) i = Some d"
    then have w: "p_waiters p i = Some d" "i \<noteq> m_ID m" by (auto simp: q split: if_splits)
    with own have "d \<noteq> c" by blast
    with w peer_invD(1,2) [OF inv w(1)]
    show "p_chan (deliver m p) d = None \<and>
      (\<exists>ph. p_phase (deliver m p) d = Some ph \<and> phase_ident ph = Some i)" by (simp add: q)
  next
    fix d n assume "p_chan (deliver m p) d = Some n"
    then have "d = c \<and> n = m \<or> p_chan p d = Some n" by (auto simp: q split: if_splits)
    then show "\<exists>ph. p_phase (deliver m p) d = Some ph \<and> (\<forall>i. phase_ident ph = Some i \<longrightarrow> m_ID n = i)"
      using peer_invD(2) [OF inv Some] peer_invD(3) [OF inv, of d n] by (auto simp: q)
  qed (use peer_invD(4,5) [OF inv] in \<open>auto simp: q\<close>)
qed

lemma peer_inv_shutdown: "peer_inv p \<Longrightarrow> peer_inv (shutdown p)"
  by (auto simp: shutdown_def peer_inv_def)

lemma peer_inv_step: "peer_step p q \<Longrightarrow> peer_inv p \<Longrightarrow> peer_inv q"
  by (induction rule: peer_step.induct)
     (simp_all add: peer_inv_request_start peer_inv_leave peer_inv_reply peer_inv_cleanup
        peer_inv_deliver peer_inv_shutdown)

lemma peer_inv_reachable: "peer_reachable p \<Longrightarrow> peer_inv p"
  unfolding peer_reachable_def
proof (induction rule: rtranclp_induct)
  case base
  then show ?case by (simp add: NewPeer_def peer_inv_def)
next
  case (step q r)
  then show ?case by (blast intro: peer_inv_step)
qed

section \<open>Properties\<close>

lemma peer_reachable_NewPeer: "peer_reachable NewPeer"
  by (simp add: peer_reachable_def)

lemma peer_reachable_step: "peer_reachable p \<Longrightarrow> peer_step p q \<Longrightarrow> peer_reachable q"
  unfolding peer_reachable_def by (rule rtranclp.rtrancl_into_rtrancl)

text \<open>A request, its reply, and the moment before the request returns.\<close>

definition peer1 :: Peer where "peer1 = request_start 1 ''a'' NewPeer"
definition peer2 :: Peer where "peer2 = deliver (OK ''a'') peer1"
definition peer3 :: Peer where
  "peer3 = leave 1 ''a'' (reply_result (OK ''a'')) (peer2\<lparr>p_chan := (p_chan peer2)(1 := None)\<rparr>)"

lemmas peer_example_defs = peer1_def peer2_def peer3_def request_start_def deliver_def leave_def
  reply_result_def NewPeer_def OK_def zeroMsg_def TypeOK_def TypeError_def

lemma peer_reachable_examples: "peer_reachable peer1" "peer_reachable peer2" "peer_reachable peer3"
proof -
  have "peer_step NewPeer peer1"
    unfolding peer1_def by (rule peer_step.start) (simp add: NewPeer_def)
  then show p1: "peer_reachable peer1" by (rule peer_reachable_step [OF peer_reachable_NewPeer])
  have "peer_step peer1 peer2"
    unfolding peer2_def
    by (rule peer_step.deliver_reply)
       (simp_all add: IsReply_def deliver_blocks_def peer_example_defs)
  then show p2: "peer_reachable peer2" by (rule peer_reachable_step [OF p1])
  have "peer_step peer2 peer3"
    unfolding peer3_def
    by (rule peer_step.reply [where m = "OK ''a''"]) (simp_all add: peer_example_defs)
  then show "peer_reachable peer3" by (rule peer_reachable_step [OF p2])
qed

text \<open>
  Further result. The read loop never blocks on a reply: in every reachable state of the
  multiplexer, whatever requests are in flight and however they interleave, the channel a reply
  would be sent on has room. A peer that answers twice, answers late or invents identifiers
  cannot stall the connection.
\<close>

theorem peer_deliver_never_blocks:
  assumes "peer_reachable p"
  shows "\<not> deliver_blocks m p"
  using peer_invD(1) [OF peer_inv_reachable [OF assms]]
  by (auto simp: deliver_blocks_def split: option.split)

theorem peer_deliver_never_blocks_witness:
  "p_waiters peer1 ''a'' = Some 1 \<and> \<not> deliver_blocks (OK ''a'') peer1"
  using peer_deliver_never_blocks [OF peer_reachable_examples(1), of "OK ''a''"]
  by (simp add: peer1_def request_start_def NewPeer_def)

text \<open>
  Further result. A request only ever returns a reply that carries its own identifier, in every
  interleaving.
\<close>

theorem peer_reply_has_own_id:
  assumes "peer_reachable p" and "p_phase p c = Some (Leaving i (Inr m))"
  shows "m_ID m = i"
  using peer_invD(4) [OF peer_inv_reachable [OF assms(1)] assms(2)] by simp

theorem peer_reply_has_own_id_witness:
  "p_phase peer3 1 = Some (Leaving ''a'' (Inr (OK ''a''))) \<and> m_ID (OK ''a'') = ''a''"
proof -
  have "p_phase peer3 1 = Some (Leaving ''a'' (Inr (OK ''a'')))" by (simp add: peer_example_defs)
  with peer_reply_has_own_id [OF peer_reachable_examples(3)] show ?thesis by blast
qed

text \<open>
  Further result. The deferred clean-up of a request deletes the waiter of its identifier even when
  that waiter meanwhile belongs to another request: there is an interleaving of two requests with
  the same identifier, the second started after the first was answered, after which the second
  still waits on an open connection without being registered, so that its reply is dropped.
\<close>

theorem peer_cleanup_drops_other_waiter:
  "\<exists>p. peer_reachable p \<and> p_phase p 2 = Some (Waiting ''a'') \<and> p_waiters p ''a'' = None \<and>
     p_chan p 2 = None \<and> \<not> p_closed p \<and> deliver (OK ''a'') p = p"
proof -
  let ?q = "request_start 2 ''a'' peer3"
  let ?r = "request_cleanup 1 ''a'' (Inr (OK ''a'')) ?q"
  have "peer_step peer3 ?q" by (rule peer_step.start) (simp add: peer_example_defs)
  then have q: "peer_reachable ?q" by (rule peer_reachable_step [OF peer_reachable_examples(3)])
  have "peer_step ?q ?r" by (rule peer_step.cleanup) (simp add: peer_example_defs)
  then have "peer_reachable ?r" by (rule peer_reachable_step [OF q])
  moreover have "p_phase ?r 2 = Some (Waiting ''a'') \<and> p_waiters ?r ''a'' = None \<and>
     p_chan ?r 2 = None \<and> \<not> p_closed ?r \<and> deliver (OK ''a'') ?r = ?r"
    by (simp add: peer_example_defs request_cleanup_def fun_eq_iff)
  ultimately show ?thesis by blast
qed

end
