(* ===== verification/Go_Asn1.thy ===== *)
theory Go_Asn1
  imports Go_Encoding
begin

text \<open>
  What the source uses of Go's \<open>encoding/asn1\<close>: the DER form of integers, octet strings and
  sequences, and explicitly tagged members. Marshalling follows the package's encoders, parsing its
  \<open>parseTagAndLength\<close> and \<open>parseField\<close> with their strictness (minimal lengths and integers) and
  their tolerance (bytes after the last known member of a sequence are ignored). A parse error of any
  kind is \<open>None\<close>. An offset into a slice is the list from that offset on.
\<close>

section \<open>Marshalling\<close>

text \<open>\<open>lengthLength\<close> and \<open>int64Encoder.Len\<close>, whose right shift rounds down.\<close>

function lengthLength :: "int \<Rightarrow> nat" where
  "lengthLength i = (if i > 255 then Suc (lengthLength (i div 256)) else 1)"
  by pat_completeness auto
termination
  by (relation "measure nat") auto

function intLength :: "int \<Rightarrow> nat" where
  "intLength i = (if i > 127 \<or> i < -128 then Suc (intLength (i div 256)) else 1)"
  by pat_completeness auto
termination
  by (relation "measure (\<lambda>i. nat \<bar>i\<bar>)") auto

declare lengthLength.simps [simp del] intLength.simps [simp del]

definition der_length :: "nat \<Rightarrow> bytes" where
  "der_length n =
     (if n \<ge> 128 then word_of_int (128 + int (lengthLength (int n))) # be_bytes (lengthLength (int n)) (int n)
      else [word_of_int (int n)])"

definition der_tlv :: "byte \<Rightarrow> bytes \<Rightarrow> bytes" where
  "der_tlv ident body = ident # der_length (length body) @ body"

definition der_int :: "int \<Rightarrow> bytes" where
  "der_int i = der_tlv 0x02 (be_bytes (intLength i) i)"

definition der_octets :: "bytes \<Rightarrow> bytes" where
  "der_octets b = der_tlv 0x04 b"

definition der_seq :: "bytes \<Rightarrow> bytes" where
  "der_seq b = der_tlv 0x30 b"

text \<open>An explicitly tagged member, class context-specific and constructed.\<close>

definition der_explicit :: "nat \<Rightarrow> bytes \<Rightarrow> bytes" where
  "der_explicit k b = der_tlv (word_of_int (0xA0 + int k)) b"

section \<open>Parsing\<close>

record tagAndLength =
  tl_class :: int
  tl_tag :: int
  tl_length :: int
  tl_compound :: bool

fun parseBase128 :: "nat \<Rightarrow> int \<Rightarrow> bytes \<Rightarrow> int parsed" where
  "parseBase128 shifted ret [] = None"
| "parseBase128 shifted ret (b # bs) =
     (if shifted = 5 then None
      else if shifted = 0 \<and> b = 0x80 then None
      else let ret = ret * 128 + uint b mod 128 in
        if uint b < 128 then (if ret > 2147483647 then None else Some (ret, bs))
        else parseBase128 (Suc shifted) ret bs)"

fun parseLengthBytes :: "nat \<Rightarrow> int \<Rightarrow> bytes \<Rightarrow> int parsed" where
  "parseLengthBytes 0 len bs = (if len < 128 then None else Some (len, bs))"
| "parseLengthBytes (Suc n) len [] = None"
| "parseLengthBytes (Suc n) len (b # bs) =
     (if len \<ge> 8388608 then None
      else let len = len * 256 + uint b in
        if len = 0 then None else parseLengthBytes n len bs)"

definition parseLength :: "bytes \<Rightarrow> int parsed" where
  "parseLength bs =
     (case bs of
        [] \<Rightarrow> None
      | b # bs \<Rightarrow>
          if uint b < 128 then Some (uint b, bs)
          else if uint b = 128 then None
          else parseLengthBytes (nat (uint b - 128)) 0 bs)"

definition parseTagAndLength :: "bytes \<Rightarrow> tagAndLength parsed" where
  "parseTagAndLength bs =
     (case bs of
        [] \<Rightarrow> None
      | b # bs \<Rightarrow>
          (case (if uint b mod 32 = 31
                 then (case parseBase128 0 0 bs of
                         None \<Rightarrow> None
                       | Some (t, bs) \<Rightarrow> if t < 31 then None else Some (t, bs))
                 else Some (uint b mod 32, bs)) of
             None \<Rightarrow> None
           | Some (t, bs) \<Rightarrow>
               map_option (\<lambda>(n, bs). (\<lparr>tl_class = uint b div 64, tl_tag = t, tl_length = n,
                 tl_compound = (uint b div 32 mod 2 = 1)\<rparr>, bs)) (parseLength bs)))"

text \<open>
  The contents of a value after its header, and a value of the universal type \<open>utag\<close>. An optional
  member that is missing has its zero value and leaves the parser where it was.
\<close>

definition parseContents :: "(bytes \<Rightarrow> 'a option) \<Rightarrow> int \<Rightarrow> bytes \<Rightarrow> 'a parsed" where
  "parseContents body n bs =
     (if n > int (length bs) then None
      else map_option (\<lambda>v. (v, drop (nat n) bs)) (body (take (nat n) bs)))"

definition universal :: "int \<Rightarrow> bool \<Rightarrow> tagAndLength \<Rightarrow> bool" where
  "universal utag compound t \<longleftrightarrow> tl_class t = 0 \<and> tl_tag t = utag \<and> tl_compound t = compound"

definition parsePlain :: "int \<Rightarrow> bool \<Rightarrow> (bytes \<Rightarrow> 'a option) \<Rightarrow> bytes \<Rightarrow> 'a parsed" where
  "parsePlain utag compound body bs =
     (case parseTagAndLength bs of
        None \<Rightarrow> None
      | Some (t, rest) \<Rightarrow>
          if universal utag compound t then parseContents body (tl_length t) rest else None)"

definition parseExplicit ::
  "bool \<Rightarrow> nat \<Rightarrow> int \<Rightarrow> bool \<Rightarrow> (bytes \<Rightarrow> 'a option) \<Rightarrow> 'a \<Rightarrow> bytes \<Rightarrow> 'a parsed" where
  "parseExplicit optional k utag compound body zero bs =
     (if bs = [] then (if optional then Some (zero, []) else None)
      else case parseTagAndLength bs of
        None \<Rightarrow> None
      | Some (t, rest) \<Rightarrow>
          if rest = [] then None
          else if tl_class t = 2 \<and> tl_tag t = int k \<and> (tl_length t = 0 \<or> tl_compound t) then
            (if tl_length t > 0 then
               (case parseTagAndLength rest of
                  None \<Rightarrow> None
                | Some (t, rest) \<Rightarrow>
                    if universal utag compound t then parseContents body (tl_length t) rest
                    else if optional then Some (zero, bs) else None)
             else None)
          else if optional then Some (zero, bs) else None)"

definition parseInt64 :: "bytes \<Rightarrow> int option" where
  "parseInt64 b =
     (if b = [] then None
      else if length b > 1 \<and> (b ! 0 = 0 \<and> uint (b ! 1) < 128 \<or> b ! 0 = 0xff \<and> uint (b ! 1) \<ge> 128) then None
      else if length b > 8 then None
      else Some (if uint (b ! 0) \<ge> 128 then be_val b - 256 ^ length b else be_val b))"

definition parseOctets :: "bytes \<Rightarrow> bytes option" where
  "parseOctets b = Some b"

text \<open>
  \<open>parseSequenceOf\<close> first checks every element's header and then parses every element; since any
  failure is the same failure, one pass gives the same result.
\<close>

function parseSequenceOf :: "(bytes \<Rightarrow> 'a parsed) \<Rightarrow> bytes \<Rightarrow> 'a list option" where
  "parseSequenceOf elem bs =
     (if bs = [] then Some []
      else case elem bs of
        None \<Rightarrow> None
      | Some (v, rest) \<Rightarrow>
          if length rest < length bs then map_option ((#) v) (parseSequenceOf elem rest) else None)"
  by pat_completeness auto
termination
  by (relation "measure (\<lambda>(_, bs). length bs)") auto

declare parseSequenceOf.simps [simp del]

section \<open>What is marshalled is parsed back\<close>

lemma uint_of_byte: "0 \<le> v \<Longrightarrow> v < 256 \<Longrightarrow> uint (word_of_int v :: byte) = v"
  by (simp add: uint_word_of_int)

lemma le_bytes_Suc: "le_bytes (Suc n) v = le_bytes n v @ [word_of_int (v div 256 ^ n)]"
proof (induction n arbitrary: v)
  case (Suc n)
  have "v div 256 div 256 ^ n = v div 256 ^ Suc n" by (simp add: zdiv_zmult2_eq)
  then show ?case using Suc [of "v div 256"] by simp
qed simp

lemma le_bytes_mod: "le_bytes n (v mod 256 ^ n) = le_bytes n v"
  using le_val_le_bytes_mod [of n v] le_bytes_le_val [of "le_bytes n v" n] by simp

lemma be_bytes_Suc: "be_bytes (Suc n) v = word_of_int (v div 256 ^ n) # be_bytes n (v mod 256 ^ n)"
  by (simp add: be_bytes_def le_bytes_Suc le_bytes_mod del: le_bytes.simps)

lemma div_256: "x \<le> i div 256 \<longleftrightarrow> 256 * x \<le> i" "i div 256 < x \<longleftrightarrow> i < 256 * x" for i x :: int
  by linarith+

lemma lengthLength_bounds:
  "0 < i \<Longrightarrow> 256 ^ (lengthLength i - 1) \<le> i \<and> i < 256 ^ lengthLength i \<and> 0 < lengthLength i"
proof (induction i rule: lengthLength.induct)
  case (1 i)
  show ?case
  proof (cases "i > 255")
    case True
    let ?n = "lengthLength (i div 256)"
    have ih: "256 ^ (?n - 1) \<le> i div 256" "i div 256 < 256 ^ ?n" "0 < ?n"
      using 1 True by auto
    moreover have "256 ^ ?n = (256 :: int) * 256 ^ (?n - 1)" using ih(3) by (cases ?n) auto
    ultimately have "256 ^ ?n \<le> i" "i < 256 * 256 ^ ?n"
      using div_256(1) [of "256 ^ (?n - 1)" i] div_256(2) [of i "256 ^ ?n"] by simp_all
    moreover have "lengthLength i = Suc ?n" using True by (simp add: lengthLength.simps [of i])
    ultimately show ?thesis by simp
  qed (use 1 in \<open>simp add: lengthLength.simps\<close>)
qed

lemma lengthLength_le:
  assumes "0 < n" "n < 2 ^ 31"
  shows "lengthLength (int n) \<le> 4"
proof -
  have "int n < 256 ^ 4" using assms by simp
  then have "256 ^ (lengthLength (int n) - 1) < (256 :: int) ^ 4"
    using lengthLength_bounds [of "int n"] assms(1) by linarith
  then have "lengthLength (int n) - 1 < 4" by (subst (asm) power_strict_increasing_iff) simp_all
  then show ?thesis by simp
qed

lemma parseLengthBytes_be:
  assumes "0 \<le> len" "0 \<le> v" "v < 256 ^ n" "n = 0 \<or> 0 < len \<or> 256 ^ (n - 1) \<le> v"
    and "128 \<le> len * 256 ^ n + v" "len * 256 ^ n + v < 2 ^ 31"
  shows "parseLengthBytes n len (be_bytes n v @ rest) = Some (len * 256 ^ n + v, rest)"
  using assms
proof (induction n arbitrary: len v)
  case 0
  then show ?case by (simp add: be_bytes_def)
next
  case (Suc n)
  define b w where "b = v div 256 ^ n" and "w = v mod 256 ^ n"
  have v: "v = b * 256 ^ n + w" unfolding b_def w_def by (rule div_mult_mod_eq [symmetric])
  have w: "0 \<le> w" "w < 256 ^ n" by (simp_all add: w_def)
  have "b * 256 ^ n < 256 * 256 ^ n" using v w(1) Suc.prems(3) unfolding power_Suc by linarith
  then have b: "0 \<le> b" "b < 256"
    using Suc.prems(2) by (simp_all add: b_def pos_imp_zdiv_nonneg_iff)
  have top: "0 < len * 256 + b"
  proof (cases "0 < len")
    case False
    then have "256 ^ n \<le> v" using Suc.prems by simp
    then have "0 < b" by (simp add: b_def pos_imp_zdiv_pos_iff)
    then show ?thesis using Suc.prems by simp
  qed (use b in simp)
  have total: "(len * 256 + b) * 256 ^ n + w = len * 256 ^ Suc n + v"
    by (simp add: v algebra_simps)
  have "len * 256 * 1 \<le> len * 256 * 256 ^ n"
    using Suc.prems(1) by (intro mult_left_mono) simp_all
  then have "len < 8388608" using Suc.prems by (simp add: mult.assoc)
  then show ?case
    using Suc.IH [of "len * 256 + b" w] top total w b Suc.prems
    by (simp add: be_bytes_Suc b_def [symmetric] w_def [symmetric] uint_of_byte)
qed

text \<open>The length of anything below 2 GiB is read back.\<close>

lemma parseLength_der:
  assumes "n < 2 ^ 31"
  shows "parseLength (der_length n @ rest) = Some (int n, rest)"
proof (cases "n \<ge> 128")
  case True
  let ?l = "lengthLength (int n)"
  have b: "256 ^ (?l - 1) \<le> int n" "int n < 256 ^ ?l" "0 < ?l"
    using lengthLength_bounds [of "int n"] True by auto
  have "uint (word_of_int (128 + int ?l) :: byte) = 128 + int ?l"
    using lengthLength_le [of n] True assms by (intro uint_of_byte) auto
  then show ?thesis
    using True b assms parseLengthBytes_be [of 0 "int n" ?l rest]
    by (simp add: der_length_def parseLength_def)
next
  case False
  then show ?thesis
    using uint_of_byte [of "int n"] by (simp add: der_length_def parseLength_def del: of_int_of_nat_eq)
qed

lemma der_tlv_nonempty [simp]: "der_tlv i b \<noteq> []"
  by (simp add: der_tlv_def)

lemma parseTag_tlv:
  assumes "length body < 2 ^ 31" "uint ident mod 32 \<noteq> 31"
  shows "parseTagAndLength (der_tlv ident body @ rest) =
    Some (\<lparr>tl_class = uint ident div 64, tl_tag = uint ident mod 32, tl_length = int (length body),
           tl_compound = (uint ident div 32 mod 2 = 1)\<rparr>, body @ rest)"
  using assms parseLength_der [of "length body" "body @ rest"]
  by (simp add: der_tlv_def parseTagAndLength_def)

lemma parseContents_append:
  "parseContents body (int (length b)) (b @ rest) = map_option (\<lambda>v. (v, rest)) (body b)"
  by (simp add: parseContents_def)

lemma parsePlain_tlv:
  assumes "length b < 2 ^ 31" "uint ident mod 32 \<noteq> 31" "uint ident < 64"
    "utag = uint ident mod 32" "compound \<longleftrightarrow> uint ident div 32 mod 2 = 1"
  shows "parsePlain utag compound body (der_tlv ident b @ rest) = map_option (\<lambda>v. (v, rest)) (body b)"
  using assms by (simp add: parsePlain_def parseTag_tlv universal_def parseContents_append)

lemma context_ident:
  assumes "k < 31"
  defines "i \<equiv> uint (word_of_int (160 + int k) :: byte)"
  shows "i div 64 = 2" "i mod 32 = int k" "i div 32 mod 2 = 1"
proof -
  have i: "i = 160 + int k" using assms(1) unfolding i_def by (intro uint_of_byte) auto
  show "i div 64 = 2" using assms(1) unfolding i by linarith
  have "(int k + 5 * 32) mod 32 = int k" "(int k + 5 * 32) div 32 = 5"
    using assms(1) by (simp_all only: mod_mult_self3 mod_mult_self1 div_mult_self1) simp_all
  then show "i mod 32 = int k" "i div 32 mod 2 = 1" by (simp_all add: i add.commute)
qed

text \<open>A member with its own tag is read; one with a later tag is taken for a missing member.\<close>

lemma parseExplicit_tlv:
  assumes "length b < 2 ^ 30" "uint ident mod 32 \<noteq> 31" "uint ident < 64" "k < 31"
    "utag = uint ident mod 32" "compound \<longleftrightarrow> uint ident div 32 mod 2 = 1"
  shows "parseExplicit optional k utag compound body zero (der_explicit k (der_tlv ident b) @ rest) =
    map_option (\<lambda>v. (v, rest)) (body b)"
proof -
  have l: "length (der_length (length b)) \<le> 5"
    using lengthLength_le [of "length b"] assms(1) by (cases b) (simp_all add: der_length_def)
  note kb = context_ident [OF assms(4)]
  have "length (der_tlv ident b) < 2 ^ 31" "0 < length (der_tlv ident b)"
    using assms(1) l by (simp_all add: der_tlv_def)
  then show ?thesis
    using assms kb
    by (simp add: parseExplicit_def der_explicit_def parseTag_tlv universal_def parseContents_append)
qed

lemma parseExplicit_missing:
  assumes "length b < 2 ^ 31" "j < 31" "j \<noteq> k" "0 < length b"
  shows "parseExplicit True k utag compound body zero (der_explicit j b @ rest) =
    Some (zero, der_explicit j b @ rest)"
  using assms context_ident [OF assms(2)]
  by (simp add: parseExplicit_def der_explicit_def parseTag_tlv)

lemma parseExplicit_empty [simp]: "parseExplicit True k utag compound body zero [] = Some (zero, [])"
  by (simp add: parseExplicit_def)

text \<open>A Go \<open>int\<close> survives: its shortest two's-complement form is minimal and has the right sign.\<close>

lemma intLength_bounds:
  "- (2 ^ (8 * intLength i - 1)) \<le> i \<and> i < 2 ^ (8 * intLength i - 1) \<and> 0 < intLength i \<and>
   (1 < intLength i \<longrightarrow> i < - (2 ^ (8 * intLength i - 9)) \<or> 2 ^ (8 * intLength i - 9) \<le> i)"
proof (induction i rule: intLength.induct)
  case (1 i)
  show ?case
  proof (cases "i > 127 \<or> i < -128")
    case True
    define n where "n = intLength (i div 256)"
    have ih: "- (2 ^ (8 * n - 1)) \<le> i div 256" "i div 256 < 2 ^ (8 * n - 1)" "0 < n"
      "1 < n \<longrightarrow> i div 256 < - (2 ^ (8 * n - 9)) \<or> 2 ^ (8 * n - 9) \<le> i div 256"
      using 1 True unfolding n_def by auto
    have p: "(2 :: int) ^ (8 * Suc n - 1) = 256 * 2 ^ (8 * n - 1)"
      using ih(3) by (cases n) (simp_all add: power_add)
    have q: "(2 :: int) ^ (8 * Suc n - 9) = 256 * 2 ^ (8 * n - 9)" if "1 < n"
    proof -
      have "8 * Suc n - 9 = (8 * n - 9) + 8" using that by simp
      then show ?thesis by (simp only: power_add) simp
    qed
    have "i < - (2 ^ (8 * Suc n - 9)) \<or> 2 ^ (8 * Suc n - 9) \<le> i"
    proof (cases "1 < n")
      case True
      with ih(4) show ?thesis unfolding q [OF True] by linarith
    next
      case False
      with ih(3) have "n = 1" by simp
      with \<open>i > 127 \<or> i < -128\<close> show ?thesis by auto
    qed
    moreover have "- (2 ^ (8 * Suc n - 1)) \<le> i" "i < 2 ^ (8 * Suc n - 1)"
      using ih(1,2) unfolding p by linarith+
    moreover have "intLength i = Suc n" using True by (simp add: intLength.simps [of i] n_def)
    ultimately show ?thesis by simp
  qed (simp add: intLength.simps)
qed

lemma le_div_iff: "0 < p \<Longrightarrow> x \<le> i div p \<longleftrightarrow> x * p \<le> i"
  and div_less_iff: "0 < p \<Longrightarrow> i div p < x \<longleftrightarrow> i < x * p" for i x p :: int
proof -
  assume p: "0 < p"
  have "i div p * p \<le> i" "i < (i div p + 1) * p"
    using div_mult_mod_eq [of i p] pos_mod_bound [OF p, of i] pos_mod_sign [OF p, of i]
    unfolding distrib_right by linarith+
  then show "x \<le> i div p \<longleftrightarrow> x * p \<le> i" "i div p < x \<longleftrightarrow> i < x * p"
    using mult_right_mono [of x "i div p" p] mult_right_mono [of "i div p + 1" x p] p
    by linarith+
qed

lemma signed_byte:
  assumes "-128 * p \<le> i" "i < 128 * p" "0 < (p :: int)"
  shows "uint (word_of_int (i div p) :: byte) = (if i < 0 then 256 + i div p else i div p)"
    "i div p < 128" "-128 \<le> i div p" "i div p < 0 \<longleftrightarrow> i < 0"
proof -
  show b: "i div p < 128" "-128 \<le> i div p" "i div p < 0 \<longleftrightarrow> i < 0"
    using assms by (simp_all add: le_div_iff div_less_iff)
  have "x mod 256 = 256 + x" if "- 256 \<le> x" "x < 0" for x :: int
    using that mod_add_self1 [of 256 x] mod_pos_pos_trivial [of "256 + x" 256] by simp
  with b show "uint (word_of_int (i div p) :: byte) = (if i < 0 then 256 + i div p else i div p)"
    by (auto simp: uint_word_of_int)
qed

lemma be_bytes_minimal:
  fixes i :: int and l :: nat
  defines "q \<equiv> 256 ^ l" and "b \<equiv> be_bytes (Suc (Suc l)) i"
  assumes i: "-128 * (256 * q) \<le> i" "i < 128 * (256 * q)" and far: "i < - (128 * q) \<or> 128 * q \<le> i"
  shows "\<not> (b ! 0 = 0 \<and> uint (b ! 1) < 128 \<or> b ! 0 = 0xff \<and> uint (b ! 1) \<ge> 128)"
proof -
  define p where "p = 256 * q"
  have pos: "0 < q" "0 < p" by (simp_all add: q_def p_def)
  have fst: "b ! 0 = word_of_int (i div p)" and snd: "b ! 1 = word_of_int (i mod p div q)"
    by (simp_all add: b_def be_bytes_Suc q_def p_def)
  note top = signed_byte [OF i pos(2) [unfolded p_def], folded p_def]
  have "0 \<le> i mod p" "i mod p < 256 * q" using pos(2) pos_mod_bound [of p i] by (simp_all add: p_def)
  then have second: "uint (b ! 1) = i mod p div q"
    unfolding snd using pos(1) by (intro uint_of_byte) (simp_all add: div_less_iff pos_imp_zdiv_nonneg_iff)
  show ?thesis
  proof (rule notI, elim disjE conjE)
    assume z: "b ! 0 = 0" "uint (b ! 1) < 128"
    then have "i div p = 0" "0 \<le> i" using top by (auto simp: fst split: if_splits)
    then have "i mod p = i" using div_mult_mod_eq [of i p] by simp
    then show False using z(2) [unfolded second] far pos(1) \<open>0 \<le> i\<close> by (simp add: div_less_iff)
  next
    assume z: "b ! 0 = 0xff" "128 \<le> uint (b ! 1)"
    then have "i div p = -1" "i < 0" using top by (auto simp: fst split: if_splits)
    then have "i mod p = i + p" using div_mult_mod_eq [of i p] by simp
    then show False using z(2) [unfolded second] far pos(1) \<open>i < 0\<close>
      by (simp only: le_div_iff p_def) linarith
  qed
qed

lemma parseInt64_be:
  assumes "- (2 ^ 63) \<le> i" "i < 2 ^ 63"
  shows "parseInt64 (be_bytes (intLength i) i) = Some i"
proof -
  define n where "n = intLength i"
  have n: "- (2 ^ (8 * n - 1)) \<le> i" "i < 2 ^ (8 * n - 1)" "0 < n"
      "1 < n \<Longrightarrow> i < - (2 ^ (8 * n - 9)) \<or> 2 ^ (8 * n - 9) \<le> i"
    using intLength_bounds [of i] by (simp_all add: n_def)
  have "n \<le> 8"
  proof (rule ccontr)
    assume "\<not> n \<le> 8"
    then have "63 \<le> 8 * n - 9" "1 < n" by simp_all
    then show False using n(4) assms power_increasing [of 63 "8 * n - 9" "2 :: int"] by linarith
  qed
  from n(3) obtain m where m: "n = Suc m" by (cases n) auto
  define p :: int where "p = 256 ^ m"
  have p: "0 < p" "256 * p = 256 ^ n" "2 ^ (8 * n - 1) = 128 * p"
    by (simp_all add: p_def m power_add power_mult)
  have bytes: "be_bytes n i = word_of_int (i div p) # be_bytes m (i mod p)"
    by (simp add: m p_def be_bytes_Suc)
  have i: "-128 * p \<le> i" "i < 128 * p" using n(1,2) unfolding p(3) by simp_all
  have "be_val (be_bytes n i) = i mod 256 ^ n"
    by (simp add: be_val_def be_bytes_def le_val_le_bytes_mod)
  also have "\<dots> = (if i < 0 then i + 256 ^ n else i)"
    using i p(1) mod_add_self1 [of "256 * p" i] mod_pos_pos_trivial [of "256 * p + i" "256 * p"]
    by (auto simp flip: p(2))
  finally have val: "be_val (be_bytes n i) = (if i < 0 then i + 256 ^ n else i)" .
  have minimal: "\<not> (be_bytes n i ! 0 = 0 \<and> uint (be_bytes n i ! 1) < 128 \<or>
    be_bytes n i ! 0 = 0xff \<and> uint (be_bytes n i ! 1) \<ge> 128)" if "1 < n"
  proof -
    from that m obtain l where l: "m = Suc l" by (cases m) auto
    have far: "(2 :: int) ^ (8 * n - 9) = 128 * 256 ^ l" by (simp add: l m power_add power_mult)
    show ?thesis
      using i n(4) [OF that] unfolding far unfolding m l
      by (intro be_bytes_minimal) (simp_all add: p_def l)
  qed
  have sign: "uint (be_bytes n i ! 0) \<ge> 128 \<longleftrightarrow> i < 0" and ne: "be_bytes n i \<noteq> []"
    using signed_byte [OF i p(1)] by (auto simp: bytes)
  have "parseInt64 (be_bytes n i) =
      Some (if uint (be_bytes n i ! 0) \<ge> 128 then be_val (be_bytes n i) - 256 ^ n else be_val (be_bytes n i))"
    unfolding parseInt64_def length_be_bytes using ne minimal \<open>n \<le> 8\<close> by (simp only: if_False) auto
  then show ?thesis
    unfolding sign val n_def [symmetric] by simp
qed

section \<open>Sizes\<close>

lemma length_der_length: "n < 2 ^ 31 \<Longrightarrow> length (der_length n) \<le> 5"
  using lengthLength_le [of n] by (cases n) (simp_all add: der_length_def)

lemma length_der_tlv: "length b < 2 ^ 31 \<Longrightarrow> length (der_tlv i b) \<le> 6 + length b"
  using length_der_length [of "length b"] by (simp add: der_tlv_def)

lemma length_der_tlv_gt: "length b < length (der_tlv i b)"
  by (simp add: der_tlv_def)

lemma length_der:
  assumes "length b < 2 ^ 31"
  shows "length (der_octets b) \<le> 6 + length b" "length (der_seq b) \<le> 6 + length b"
    "length (der_explicit k b) \<le> 6 + length b"
  using length_der_tlv [OF assms] by (simp_all add: der_octets_def der_seq_def der_explicit_def)

lemma length_der_int:
  assumes "- (2 ^ 63) \<le> i" "i < 2 ^ 63"
  shows "length (be_bytes (intLength i) i) \<le> 8"
  using parseInt64_be [OF assms] by (auto simp: parseInt64_def split: if_splits)

end
