(* ===== verification/Go_Crypto.thy ===== *)
theory Go_Crypto
  imports Go_Encoding
begin

unbundle bit_operations_syntax

text \<open>
  The primitives of Go's \<open>crypto\<close> packages that the program uses: SHA-256 and HMAC (session
  tokens), SHA-1 (the websocket accept key), MD5, HMAC-MD5 and RC4 (NTLM). They are written out
  on 32-bit words, as the standards define them, and evaluate. Nothing is proved or assumed
  about their strength; the lemmas are about lengths and about RC4 being its own inverse.
\<close>

section \<open>Words, blocks and padding\<close>

type_synonym word32 = "32 word"

definition rotl :: "nat \<Rightarrow> word32 \<Rightarrow> word32" where
  "rotl n w = (push_bit n w OR drop_bit (32 - n) w)"

definition rotr :: "nat \<Rightarrow> word32 \<Rightarrow> word32" where
  "rotr n w = rotl (32 - n) w"

fun chunks :: "nat \<Rightarrow> nat \<Rightarrow> 'a list \<Rightarrow> 'a list list" where
  "chunks 0 n xs = []"
| "chunks (Suc k) n xs = (if xs = [] then [] else take n xs # chunks k n (drop n xs))"

text \<open>Merkle-Damgard padding to 64-byte blocks; \<open>lenenc\<close> writes the bit length in 8 bytes.\<close>

definition md_pad :: "(nat \<Rightarrow> int \<Rightarrow> bytes) \<Rightarrow> bytes \<Rightarrow> bytes" where
  "md_pad lenenc m = m @ [0x80] @ replicate ((119 - length m mod 64) mod 64) 0 @ lenenc 8 (8 * int (length m))"

definition blocks :: "bytes \<Rightarrow> bytes list" where
  "blocks p = chunks (length p) 64 p"

definition be_word :: "bytes \<Rightarrow> word32" where
  "be_word b = word_of_int (be_val b)"

definition le_word :: "bytes \<Rightarrow> word32" where
  "le_word b = word_of_int (le_val b)"

definition be_of_word :: "word32 \<Rightarrow> bytes" where
  "be_of_word w = be_bytes 4 (uint w)"

definition le_of_word :: "word32 \<Rightarrow> bytes" where
  "le_of_word w = le_bytes 4 (uint w)"

section \<open>SHA-256\<close>

definition sha256_K :: "word32 list" where
  "sha256_K =
    [1116352408, 1899447441, 3049323471, 3921009573, 961987163, 1508970993,
     2453635748, 2870763221, 3624381080, 310598401, 607225278, 1426881987,
     1925078388, 2162078206, 2614888103, 3248222580, 3835390401, 4022224774,
     264347078, 604807628, 770255983, 1249150122, 1555081692, 1996064986,
     2554220882, 2821834349, 2952996808, 3210313671, 3336571891, 3584528711,
     113926993, 338241895, 666307205, 773529912, 1294757372, 1396182291,
     1695183700, 1986661051, 2177026350, 2456956037, 2730485921, 2820302411,
     3259730800, 3345764771, 3516065817, 3600352804, 4094571909, 275423344,
     430227734, 506948616, 659060556, 883997877, 958139571, 1322822218,
     1537002063, 1747873779, 1955562222, 2024104815, 2227730452, 2361852424,
     2428436474, 2756734187, 3204031479, 3329325298]"

definition sha256_init :: "word32 list" where
  "sha256_init =
    [0x6a09e667, 0xbb67ae85, 0x3c6ef372, 0xa54ff53a, 0x510e527f, 0x9b05688c,
     0x1f83d9ab, 0x5be0cd19]"

fun sha256_extend :: "nat \<Rightarrow> word32 list \<Rightarrow> word32 list" where
  "sha256_extend 0 w = w"
| "sha256_extend (Suc k) w =
     (let n = length w;
          a = w ! (n - 15);
          b = w ! (n - 2);
          s0 = rotr 7 a XOR rotr 18 a XOR drop_bit 3 a;
          s1 = rotr 17 b XOR rotr 19 b XOR drop_bit 10 b
      in sha256_extend k (w @ [w ! (n - 16) + s0 + w ! (n - 7) + s1]))"

fun sha256_round :: "word32 list \<Rightarrow> word32 \<times> word32 \<Rightarrow> word32 list" where
  "sha256_round [a, b, c, d, e, f, g, h] (k, w) =
     (let S1 = rotr 6 e XOR rotr 11 e XOR rotr 25 e;
          ch = (e AND f) XOR (NOT e AND g);
          t1 = h + S1 + ch + k + w;
          S0 = rotr 2 a XOR rotr 13 a XOR rotr 22 a;
          maj = (a AND b) XOR (a AND c) XOR (b AND c);
          t2 = S0 + maj
      in [t1 + t2, a, b, c, d + t1, e, f, g])"
| "sha256_round st _ = st"

definition sha256_block :: "word32 list \<Rightarrow> bytes \<Rightarrow> word32 list" where
  "sha256_block H blk =
     (let w = sha256_extend 48 (map be_word (chunks 16 4 blk))
      in map2 (+) H (foldl sha256_round H (zip sha256_K w)))"

definition sha256 :: "bytes \<Rightarrow> bytes" where
  "sha256 m = concat (map be_of_word (foldl sha256_block sha256_init (blocks (md_pad be_bytes m))))"

section \<open>SHA-1\<close>

fun sha1_extend :: "nat \<Rightarrow> word32 list \<Rightarrow> word32 list" where
  "sha1_extend 0 w = w"
| "sha1_extend (Suc k) w =
     (let n = length w
      in sha1_extend k (w @ [rotl 1 (w ! (n - 3) XOR w ! (n - 8) XOR w ! (n - 14) XOR w ! (n - 16))]))"

fun sha1_round :: "word32 list \<Rightarrow> nat \<times> word32 \<Rightarrow> word32 list" where
  "sha1_round [a, b, c, d, e] (t, w) =
     (let (f, k) =
            (if t < 20 then ((b AND c) OR (NOT b AND d), 0x5a827999)
             else if t < 40 then (b XOR c XOR d, 0x6ed9eba1)
             else if t < 60 then ((b AND c) OR (b AND d) OR (c AND d), 0x8f1bbcdc)
             else (b XOR c XOR d, 0xca62c1d6))
      in [rotl 5 a + f + e + k + w, a, rotl 30 b, c, d])"
| "sha1_round st _ = st"

definition sha1_block :: "word32 list \<Rightarrow> bytes \<Rightarrow> word32 list" where
  "sha1_block H blk =
     (let w = sha1_extend 64 (map be_word (chunks 16 4 blk))
      in map2 (+) H (foldl sha1_round H (zip [0..<80] w)))"

definition sha1 :: "bytes \<Rightarrow> bytes" where
  "sha1 m = concat (map be_of_word
     (foldl sha1_block [0x67452301, 0xefcdab89, 0x98badcfe, 0x10325476, 0xc3d2e1f0]
        (blocks (md_pad be_bytes m))))"

section \<open>MD5\<close>

definition md5_K :: "word32 list" where
  "md5_K =
    [0xd76aa478, 0xe8c7b756, 0x242070db, 0xc1bdceee, 0xf57c0faf, 0x4787c62a,
     0xa8304613, 0xfd469501, 0x698098d8, 0x8b44f7af, 0xffff5bb1, 0x895cd7be,
     0x6b901122, 0xfd987193, 0xa679438e, 0x49b40821, 0xf61e2562, 0xc040b340,
     0x265e5a51, 0xe9b6c7aa, 0xd62f105d, 0x2441453, 0xd8a1e681, 0xe7d3fbc8,
     0x21e1cde6, 0xc33707d6, 0xf4d50d87, 0x455a14ed, 0xa9e3e905, 0xfcefa3f8,
     0x676f02d9, 0x8d2a4c8a, 0xfffa3942, 0x8771f681, 0x6d9d6122, 0xfde5380c,
     0xa4beea44, 0x4bdecfa9, 0xf6bb4b60, 0xbebfbc70, 0x289b7ec6, 0xeaa127fa,
     0xd4ef3085, 0x4881d05, 0xd9d4d039, 0xe6db99e5, 0x1fa27cf8, 0xc4ac5665,
     0xf4292244, 0x432aff97, 0xab9423a7, 0xfc93a039, 0x655b59c3, 0x8f0ccc92,
     0xffeff47d, 0x85845dd1, 0x6fa87e4f, 0xfe2ce6e0, 0xa3014314, 0x4e0811a1,
     0xf7537e82, 0xbd3af235, 0x2ad7d2bb, 0xeb86d391]"

definition md5_shifts :: "nat list" where
  "md5_shifts = concat (map (\<lambda>s. concat (replicate 4 s))
     [[7, 12, 17, 22], [5, 9, 14, 20], [4, 11, 16, 23], [6, 10, 15, 21]])"

fun md5_round :: "word32 list \<Rightarrow> word32 list \<Rightarrow> nat \<Rightarrow> word32 list" where
  "md5_round w [a, b, c, d] t =
     (let (f, g) =
            (if t < 16 then ((b AND c) OR (NOT b AND d), t)
             else if t < 32 then ((d AND b) OR (NOT d AND c), (5 * t + 1) mod 16)
             else if t < 48 then (b XOR c XOR d, (3 * t + 5) mod 16)
             else (c XOR (b OR NOT d), (7 * t) mod 16))
      in [d, b + rotl (md5_shifts ! t) (a + f + md5_K ! t + w ! g), b, c])"
| "md5_round w st t = st"

definition md5_block :: "word32 list \<Rightarrow> bytes \<Rightarrow> word32 list" where
  "md5_block H blk = map2 (+) H (foldl (md5_round (map le_word (chunks 16 4 blk))) H [0..<64])"

definition md5 :: "bytes \<Rightarrow> bytes" where
  "md5 m = concat (map le_of_word
     (foldl md5_block [0x67452301, 0xefcdab89, 0x98badcfe, 0x10325476] (blocks (md_pad le_bytes m))))"

section \<open>HMAC\<close>

definition hmac :: "(bytes \<Rightarrow> bytes) \<Rightarrow> bytes \<Rightarrow> bytes \<Rightarrow> bytes" where
  "hmac hash key m =
     (let k = (if length key > 64 then hash key else key);
          k = k @ replicate (64 - length k) 0
      in hash (map ((XOR) 0x5c) k @ hash (map ((XOR) 0x36) k @ m)))"

section \<open>RC4\<close>

record rc4_state =
  rc4_s :: "byte list"
  rc4_i :: byte
  rc4_j :: byte

definition swap :: "'a list \<Rightarrow> nat \<Rightarrow> nat \<Rightarrow> 'a list" where
  "swap xs i j = xs[i := xs ! j, j := xs ! i]"

text \<open>\<open>rc4.NewCipher\<close>: the key must have 1 to 256 bytes.\<close>

definition rc4_ksa_step :: "bytes \<Rightarrow> byte list \<times> byte \<Rightarrow> nat \<Rightarrow> byte list \<times> byte" where
  "rc4_ksa_step key sj i =
     (let (s, j) = sj; j = j + s ! i + key ! (i mod length key) in (swap s i (unat j), j))"

definition rc4_new :: "bytes \<Rightarrow> rc4_state option" where
  "rc4_new key =
     (if key = [] \<or> length key > 256 then None
      else let (s, _) = foldl (rc4_ksa_step key) (map word_of_nat [0..<256], 0) [0..<256]
           in Some \<lparr>rc4_s = s, rc4_i = 0, rc4_j = 0\<rparr>)"

definition rc4_next :: "rc4_state \<Rightarrow> byte \<times> rc4_state" where
  "rc4_next st =
     (let i = rc4_i st + 1;
          s = rc4_s st;
          j = rc4_j st + s ! unat i;
          s = swap s (unat i) (unat j)
      in (s ! unat (s ! unat i + s ! unat j), \<lparr>rc4_s = s, rc4_i = i, rc4_j = j\<rparr>))"

text \<open>\<open>XORKeyStream\<close>.\<close>

fun rc4_xor :: "rc4_state \<Rightarrow> bytes \<Rightarrow> bytes \<times> rc4_state" where
  "rc4_xor st [] = ([], st)"
| "rc4_xor st (b # bs) =
     (let (k, st1) = rc4_next st; (out, st2) = rc4_xor st1 bs in ((b XOR k) # out, st2))"

section \<open>A stream cipher is its own inverse\<close>

text \<open>
  The contract of a stateful cipher: decrypting in step with the encryption gives the message
  back and leaves the two sides in the same state, so a whole conversation stays in step.
\<close>

locale stream_cipher =
  fixes crypt :: "'s \<Rightarrow> bytes \<Rightarrow> bytes \<times> 's"
  assumes crypt_inverse: "crypt st (fst (crypt st m)) = (m, snd (crypt st m))"
    and crypt_length: "length (fst (crypt st m)) = length m"
begin

fun crypt_all :: "'s \<Rightarrow> bytes list \<Rightarrow> bytes list \<times> 's" where
  "crypt_all st [] = ([], st)"
| "crypt_all st (m # ms) =
     (let (c, st1) = crypt st m; (cs, st2) = crypt_all st1 ms in (c # cs, st2))"

lemma crypt_all_inverse:
  "crypt_all st (fst (crypt_all st ms)) = (ms, snd (crypt_all st ms))"
proof (induction ms arbitrary: st)
  case (Cons m ms)
  obtain c st1 where c: "crypt st m = (c, st1)" by fastforce
  with crypt_inverse [of st m] have "crypt st c = (m, st1)" by simp
  with c Cons [of st1] show ?case by (auto split: prod.splits)
qed simp

end

lemma length_rc4_xor: "length (fst (rc4_xor st m)) = length m"
  by (induction m arbitrary: st) (auto split: prod.splits simp: Let_def, metis fst_conv)

lemma rc4_xor_inverse: "rc4_xor st (fst (rc4_xor st m)) = (m, snd (rc4_xor st m))"
proof (induction m arbitrary: st)
  case (Cons b m)
  obtain k st1 where k: "rc4_next st = (k, st1)" by fastforce
  have "(b XOR k) XOR k = b" by (simp add: xor.assoc)
  with k Cons [of st1] show ?case by (auto split: prod.splits)
qed simp

interpretation rc4: stream_cipher rc4_xor
  by unfold_locales (rule rc4_xor_inverse, rule length_rc4_xor)

lemma rc4_xor_append:
  "rc4_xor st (a @ b) = (let (x, s1) = rc4_xor st a; (y, s2) = rc4_xor s1 b in (x @ y, s2))"
  by (induction a arbitrary: st) (auto split: prod.splits simp: Let_def)

section \<open>Lengths\<close>

lemma length_concat_words:
  "length (concat (map be_of_word ws)) = 4 * length ws"
  "length (concat (map le_of_word ws)) = 4 * length ws"
  by (induction ws) (simp_all add: be_of_word_def le_of_word_def)

lemma length_foldl_inv:
  assumes "length H = n" and "\<And>H b. length H = n \<Longrightarrow> length (f H b) = n"
  shows "length (foldl f H bs) = n"
  using assms(1) by (induction bs arbitrary: H) (simp_all add: assms(2))

lemma length_sha256_round: "length (sha256_round H kw) = length H"
  by (induction H kw rule: sha256_round.induct) (simp_all add: Let_def)

lemma length_sha256 [simp]: "length (sha256 m) = 32"
proof -
  have "length (foldl sha256_block sha256_init bs) = 8" for bs
  proof (rule length_foldl_inv)
    show "length (sha256_block H b) = 8" if "length H = 8" for H b
      using that length_foldl_inv [of H 8 sha256_round] length_sha256_round
      by (simp add: sha256_block_def Let_def)
  qed (simp add: sha256_init_def)
  then show ?thesis by (simp add: sha256_def length_concat_words)
qed

lemma length_md5_round: "length (md5_round w H t) = length H"
  by (induction w H t rule: md5_round.induct) (simp_all add: Let_def split: prod.split)

lemma length_md5 [simp]: "length (md5 m) = 16"
proof -
  have "length (foldl md5_block [0x67452301, 0xefcdab89, 0x98badcfe, 0x10325476] bs) = 4" for bs
  proof (rule length_foldl_inv)
    show "length (md5_block H b) = 4" if "length H = 4" for H b
      using that length_foldl_inv [of H 4 "md5_round w" for w] length_md5_round
      by (simp add: md5_block_def)
  qed simp
  then show ?thesis by (simp add: md5_def length_concat_words)
qed

lemma length_hmac_md5 [simp]: "length (hmac md5 k m) = 16"
  by (simp add: hmac_def Let_def)

lemma length_hmac_sha256 [simp]: "length (hmac sha256 k m) = 32"
  by (simp add: hmac_def Let_def)

end
