(* ===== verification/Ntlm.thy ===== *)
theory Ntlm
  imports Go_Crypto Go_Unicode
begin

unbundle bit_operations_syntax

text \<open>
  The NTLM subset of remote-desktop network level authentication
  (\<open>backstage/dproxy/internal/ntlm/ntlm.go\<close>, kept identical in \<open>dpipe\<close>): AV pairs, the three
  messages, the NTLMv2 response and its verification, and the message protection context.
  MD4 comes from \<open>golang.org/x/crypto\<close> and is the argument \<open>md4\<close> of \<open>NTHash\<close>; a random
  source and the clock are values. A method that writes into its receiver returns the updated
  structure.
\<close>

section \<open>Reading and writing at offsets\<close>

definition read_at :: "bytes \<Rightarrow> nat \<Rightarrow> nat \<Rightarrow> bytes" where
  "read_at b off n = take n (drop off b)"

text \<open>\<open>copy(b[off:], v)\<close> for a value that fits.\<close>

definition splice :: "bytes \<Rightarrow> nat \<Rightarrow> bytes \<Rightarrow> bytes" where
  "splice b off v = take off b @ v @ drop (off + length v) b"

definition u16_at :: "bytes \<Rightarrow> nat \<Rightarrow> int" where
  "u16_at b off = le_val (read_at b off 2)"

definition u32_at :: "bytes \<Rightarrow> nat \<Rightarrow> int" where
  "u32_at b off = le_val (read_at b off 4)"

lemma length_splice [simp]: "off + length v \<le> length b \<Longrightarrow> length (splice b off v) = length b"
  by (simp add: splice_def)

lemma read_splice_same:
  "off + length v \<le> length b \<Longrightarrow> n = length v \<Longrightarrow> read_at (splice b off v) off n = v"
  by (simp add: splice_def read_at_def)

lemma read_splice_before:
  assumes "o' + n \<le> off" and "off + length v \<le> length b"
  shows "read_at (splice b off v) o' n = read_at b o' n"
  using assms by (simp add: splice_def read_at_def take_drop)

lemma read_splice_after:
  assumes "off + length v \<le> o'" and "off + length v \<le> length b"
  shows "read_at (splice b off v) o' n = read_at b o' n"
proof -
  have "drop o' (splice b off v) = drop o' b"
    using assms by (simp add: splice_def)
  then show ?thesis by (simp add: read_at_def)
qed

lemma read_append_left: "o' + n \<le> length b \<Longrightarrow> read_at (b @ c) o' n = read_at b o' n"
  by (simp add: read_at_def)

section \<open>Flags and AV pairs\<close>

definition FlagUnicode :: "32 word" where "FlagUnicode = 0x00000001"
definition FlagOEM :: "32 word" where "FlagOEM = 0x00000002"
definition FlagRequestTarget :: "32 word" where "FlagRequestTarget = 0x00000004"
definition FlagSign :: "32 word" where "FlagSign = 0x00000010"
definition FlagSeal :: "32 word" where "FlagSeal = 0x00000020"
definition FlagNTLM :: "32 word" where "FlagNTLM = 0x00000200"
definition FlagAlwaysSign :: "32 word" where "FlagAlwaysSign = 0x00008000"
definition FlagTargetTypeServer :: "32 word" where "FlagTargetTypeServer = 0x00020000"
definition FlagExtendedSessionSecurity :: "32 word" where "FlagExtendedSessionSecurity = 0x00080000"
definition FlagTargetInfo :: "32 word" where "FlagTargetInfo = 0x00800000"
definition FlagVersion :: "32 word" where "FlagVersion = 0x02000000"
definition Flag128 :: "32 word" where "Flag128 = 0x20000000"
definition FlagKeyExch :: "32 word" where "FlagKeyExch = 0x40000000"
definition Flag56 :: "32 word" where "Flag56 = 0x80000000"

lemmas flag_defs = FlagUnicode_def FlagOEM_def FlagRequestTarget_def FlagSign_def FlagSeal_def
  FlagNTLM_def FlagAlwaysSign_def FlagTargetTypeServer_def FlagExtendedSessionSecurity_def
  FlagTargetInfo_def FlagVersion_def Flag128_def FlagKeyExch_def Flag56_def

definition AvTimestamp :: int where "AvTimestamp = 7"
definition AvFlags :: int where "AvFlags = 6"
definition AvChannelBindings :: int where "AvChannelBindings = 10"
definition AvTargetName :: int where "AvTargetName = 9"
definition AvFlagMIC :: "32 word" where "AvFlagMIC = 2"

type_synonym AVPair = "int \<times> bytes"

text \<open>The byte form of one pair: id and length in 16 bits each, then the value.\<close>

definition avPairBytes :: "AVPair \<Rightarrow> bytes" where
  "avPairBytes p = le_bytes 2 (fst p) @ le_bytes 2 (int (length (snd p))) @ snd p"

function AVPairValue :: "bytes \<Rightarrow> int \<Rightarrow> bytes option" where
  "AVPairValue info i =
     (if length info < 4 then None
      else let got = u16_at info 0; n = nat (u16_at info 2) in
        if length info < 4 + n then None
        else if got = 0 then None
        else if got = i then Some (read_at info 4 n)
        else AVPairValue (drop (4 + n) info) i)"
  by pat_completeness auto
termination
  by (relation "measure (\<lambda>(info, _). length info)") auto

declare AVPairValue.simps [simp del]

function avEOLOffset :: "bytes \<Rightarrow> nat \<Rightarrow> nat option" where
  "avEOLOffset info off =
     (if off + 4 > length info then None
      else let i = u16_at info off; n = nat (u16_at info (off + 2)) in
        if i = 0 then Some off
        else if off + 4 + n > length info then None
        else avEOLOffset info (off + 4 + n))"
  by pat_completeness auto
termination
  by (relation "measure (\<lambda>(info, off). length info - off)") auto

declare avEOLOffset.simps [simp del]

definition AVPairsAppend :: "bytes \<Rightarrow> AVPair list \<Rightarrow> bytes" where
  "AVPairsAppend info pairs =
     (let body = (case avEOLOffset info 0 of Some i \<Rightarrow> take i info | None \<Rightarrow> info)
      in body @ concat (map avPairBytes pairs) @ [0, 0, 0, 0])"

definition LE32 :: "32 word \<Rightarrow> bytes" where
  "LE32 v = le_bytes 4 (uint v)"

section \<open>Strings and security buffers\<close>

datatype ntlm_error = ErrShort | NotNTLM | WrongType int | WrapTooShort | SignatureMismatch

definition UTF16LE :: "string \<Rightarrow> bytes" where
  "UTF16LE s = concat (map (le_bytes 2) (utf16_encode (runes s)))"

fun u16s :: "bytes \<Rightarrow> int list" where
  "u16s (a # b # rest) = le_val [a, b] # u16s rest"
| "u16s _ = []"

definition fromUTF16LE :: "bytes \<Rightarrow> string" where
  "fromUTF16LE b = (if length b mod 2 \<noteq> 0 then [] else of_runes (utf16_decode (u16s b)))"

definition field :: "bytes \<Rightarrow> nat \<Rightarrow> ntlm_error + bytes" where
  "field msg off =
     (if length msg < off + 8 then Inl ErrShort
      else let n = u16_at msg off; start = u32_at msg (off + 4) in
        if n = 0 then Inr []
        else if start < 0 \<or> start > int (length msg) \<or> start + n > int (length msg) then Inl ErrShort
        else Inr (read_at msg (nat start) (nat n)))"

definition putField :: "bytes \<Rightarrow> nat \<Rightarrow> nat \<Rightarrow> nat \<Rightarrow> bytes" where
  "putField hdr off payloadOff n =
     splice (splice (splice hdr off (le_bytes 2 (int n))) (off + 2) (le_bytes 2 (int n)))
       (off + 4) (le_bytes 4 (int payloadOff))"

definition signature :: bytes where
  "signature = to_bytes ''NTLMSSP'' @ [0]"

definition messageType :: "bytes \<Rightarrow> ntlm_error + int" where
  "messageType b =
     (if length b < 12 then Inl ErrShort
      else if take 8 b \<noteq> signature then Inl NotNTLM
      else Inr (u32_at b 8))"

section \<open>The three messages\<close>

record Negotiate =
  ng_Flags :: "32 word"
  ng_Raw :: bytes

definition ParseNegotiate :: "bytes \<Rightarrow> ntlm_error + Negotiate" where
  "ParseNegotiate b =
     rbind (messageType b) (\<lambda>t.
     if t \<noteq> 1 then Inl (WrongType t)
     else if length b < 16 then Inl ErrShort
     else Inr \<lparr>ng_Flags = word_of_int (u32_at b 12), ng_Raw = b\<rparr>)"

definition Negotiate_Marshal :: "Negotiate \<Rightarrow> bytes \<times> Negotiate" where
  "Negotiate_Marshal n =
     (let b = replicate 32 0;
          b = splice b 0 signature;
          b = splice b 8 (le_bytes 4 1);
          b = splice b 12 (le_bytes 4 (uint (ng_Flags n)));
          b = putField b 16 32 0;
          b = putField b 24 32 0
      in (b, n\<lparr>ng_Raw := b\<rparr>))"

record Challenge =
  ch_Flags :: "32 word"
  ch_ServerChallenge :: bytes
  ch_TargetName :: string
  ch_TargetInfo :: bytes
  ch_Raw :: bytes

definition ParseChallenge :: "bytes \<Rightarrow> ntlm_error + Challenge" where
  "ParseChallenge b =
     rbind (messageType b) (\<lambda>t.
     if t \<noteq> 2 then Inl (WrongType t)
     else if length b < 48 then Inl ErrShort
     else rbind (field b 12) (\<lambda>name.
          rbind (field b 40) (\<lambda>info.
          Inr \<lparr>ch_Flags = word_of_int (u32_at b 20), ch_ServerChallenge = read_at b 24 8,
               ch_TargetName = fromUTF16LE name, ch_TargetInfo = info, ch_Raw = b\<rparr>)))"

definition Challenge_Marshal :: "Challenge \<Rightarrow> bytes \<times> Challenge" where
  "Challenge_Marshal c =
     (let name = UTF16LE (ch_TargetName c);
          b = replicate 48 0;
          b = splice b 0 signature;
          b = splice b 8 (le_bytes 4 2);
          b = putField b 12 48 (length name);
          b = splice b 20 (le_bytes 4 (uint (ch_Flags c)));
          b = splice b 24 (ch_ServerChallenge c);
          b = putField b 40 (48 + length name) (length (ch_TargetInfo c));
          b = b @ name;
          b = b @ ch_TargetInfo c
      in (b, c\<lparr>ch_Raw := b\<rparr>))"

record Authenticate =
  a_Flags :: "32 word"
  a_Domain :: string
  a_User :: string
  a_Workstation :: string
  a_LMResponse :: bytes
  a_NTResponse :: bytes
  a_EncryptedRandomSessionKey :: bytes
  a_MIC :: bytes
  a_micOffset :: nat
  a_Raw :: bytes

definition payloadStart :: "bytes \<Rightarrow> int" where
  "payloadStart b =
     foldl (\<lambda>m off.
         if length b < off + 8 then m
         else if u16_at b off = 0 then m
         else if u32_at b (off + 4) < m then u32_at b (off + 4) else m)
       (int (length b)) [12, 20, 28, 36, 44, 52]"

definition ParseAuthenticate :: "bytes \<Rightarrow> ntlm_error + Authenticate" where
  "ParseAuthenticate b =
     rbind (messageType b) (\<lambda>t.
     if t \<noteq> 3 then Inl (WrongType t)
     else if length b < 64 then Inl ErrShort
     else rbind (field b 12) (\<lambda>lm.
          rbind (field b 20) (\<lambda>nt.
          rbind (field b 52) (\<lambda>key.
          rbind (field b 28) (\<lambda>domain.
          rbind (field b 36) (\<lambda>user.
          rbind (field b 44) (\<lambda>ws.
          let hasMIC = (payloadStart b \<ge> 88 \<and> length b \<ge> 88) in
          Inr \<lparr>a_Flags = word_of_int (u32_at b 60), a_Domain = fromUTF16LE domain,
               a_User = fromUTF16LE user, a_Workstation = fromUTF16LE ws, a_LMResponse = lm,
               a_NTResponse = nt, a_EncryptedRandomSessionKey = key,
               a_MIC = (if hasMIC then read_at b 72 16 else []),
               a_micOffset = (if hasMIC then 72 else 0), a_Raw = b\<rparr>)))))))"

text \<open>
  The fixed part of \<open>Marshal\<close>: 64 bytes, 8 of version and 16 for the integrity check, with
  the offset of the payload moving on field by field.
\<close>

definition authHeader :: "32 word \<Rightarrow> bytes \<Rightarrow> bytes \<Rightarrow> bytes \<Rightarrow> bytes \<Rightarrow> bytes \<Rightarrow> bytes \<Rightarrow> bytes" where
  "authHeader flags lm nt domain user ws key =
     (let b = replicate 88 0;
          b = splice b 0 signature;
          b = splice b 8 (le_bytes 4 3);
          off = 88;
          b = putField b 12 off (length lm); off = off + length lm;
          b = putField b 20 off (length nt); off = off + length nt;
          b = putField b 28 off (length domain); off = off + length domain;
          b = putField b 36 off (length user); off = off + length user;
          b = putField b 44 off (length ws); off = off + length ws;
          b = putField b 52 off (length key);
          b = splice b 60 (le_bytes 4 (uint (flags OR FlagVersion)))
      in splice b 64 [6, 1, 0xb1, 0x1d, 0, 0, 0, 15])"

definition Authenticate_Marshal :: "Authenticate \<Rightarrow> bytes \<times> Authenticate" where
  "Authenticate_Marshal a =
     (let domain = UTF16LE (a_Domain a);
          user = UTF16LE (a_User a);
          ws = UTF16LE (a_Workstation a);
          lm = a_LMResponse a;
          nt = a_NTResponse a;
          key = a_EncryptedRandomSessionKey a;
          b = authHeader (a_Flags a) lm nt domain user ws key @ lm @ nt @ domain @ user @ ws @ key
      in (b, a\<lparr>a_micOffset := 72, a_Raw := b\<rparr>))"

definition SetMIC :: "Authenticate \<Rightarrow> bytes \<Rightarrow> bytes \<Rightarrow> bytes \<Rightarrow> Authenticate" where
  "SetMIC a exported negotiate challenge =
     (if a_micOffset a = 0 \<or> length (a_Raw a) < a_micOffset a + 16 then a
      else let raw = splice (a_Raw a) (a_micOffset a) (replicate 16 0);
               mic = hmac md5 exported (negotiate @ challenge @ raw)
           in a\<lparr>a_Raw := splice raw (a_micOffset a) mic, a_MIC := mic\<rparr>)"

section \<open>The NTLMv2 response\<close>

definition NTHash :: "(bytes \<Rightarrow> bytes) \<Rightarrow> string \<Rightarrow> bytes" where
  "NTHash md4 password = md4 (UTF16LE password)"

definition ntowfv2 :: "bytes \<Rightarrow> string \<Rightarrow> string \<Rightarrow> bytes" where
  "ntowfv2 ntHash user domain = hmac md5 ntHash (UTF16LE (to_upper user @ domain))"

text \<open>\<open>windowsTime\<close>: Go's division truncates, and the sum wraps at 64 bits.\<close>

definition windowsTime :: "int \<Rightarrow> 64 word" where
  "windowsTime t =
     word_of_int (if t \<ge> 0 then t div 100 else - ((- t) div 100)) + 116444736000000000"

definition WindowsTimeBytes :: "int \<Rightarrow> bytes" where
  "WindowsTimeBytes t = le_bytes 8 (uint (windowsTime t))"

definition TargetInfo :: "string \<Rightarrow> string \<Rightarrow> int \<Rightarrow> bytes" where
  "TargetInfo computer domain ts =
     concat (map avPairBytes
       [(2, UTF16LE domain), (1, UTF16LE computer), (4, UTF16LE domain), (3, UTF16LE computer),
        (7, le_bytes 8 (uint (windowsTime ts))), (0, [])])"

definition NTLMv2Blob :: "bytes \<Rightarrow> bytes \<Rightarrow> bytes \<Rightarrow> bytes" where
  "NTLMv2Blob clientChallenge timestamp targetInfo =
     (let b = replicate 28 0;
          b = splice b 0 [1, 1];
          b = splice b 8 (take 8 timestamp);
          b = splice b 16 clientChallenge
      in b @ targetInfo @ [0, 0, 0, 0])"

definition ComputeNTLMv2 ::
  "bytes \<Rightarrow> string \<Rightarrow> string \<Rightarrow> bytes \<Rightarrow> bytes \<Rightarrow> bytes \<times> bytes" where
  "ComputeNTLMv2 ntHash user domain serverChallenge blob =
     (let key = ntowfv2 ntHash user domain;
          proof = hmac md5 key (serverChallenge @ blob)
      in (proof @ blob, hmac md5 key proof))"

definition VerifyNTLMv2 ::
  "bytes \<Rightarrow> string \<Rightarrow> string \<Rightarrow> bytes \<Rightarrow> bytes \<Rightarrow> bytes option" where
  "VerifyNTLMv2 ntHash user domain serverChallenge ntResponse =
     (if length ntResponse < 16 then None
      else let proof = take 16 ntResponse; blob = drop 16 ntResponse;
               key = ntowfv2 ntHash user domain
           in if proof \<noteq> hmac md5 key (serverChallenge @ blob) then None
              else Some (hmac md5 key proof))"

section \<open>Message protection\<close>

definition clientSignMagic :: bytes where
  "clientSignMagic = to_bytes ''session key to client-to-server signing key magic constant'' @ [0]"
definition serverSignMagic :: bytes where
  "serverSignMagic = to_bytes ''session key to server-to-client signing key magic constant'' @ [0]"
definition clientSealMagic :: bytes where
  "clientSealMagic = to_bytes ''session key to client-to-server sealing key magic constant'' @ [0]"
definition serverSealMagic :: bytes where
  "serverSealMagic = to_bytes ''session key to server-to-client sealing key magic constant'' @ [0]"

definition deriveKey :: "bytes \<Rightarrow> bytes \<Rightarrow> bytes" where
  "deriveKey exported magic = md5 (exported @ magic)"

record Security =
  sendSeal :: rc4_state
  recvSeal :: rc4_state
  sendSign :: bytes
  recvSign :: bytes
  sendSeq :: "32 word"
  recvSeq :: "32 word"

definition NewSecurity :: "bytes \<Rightarrow> bool \<Rightarrow> Security option" where
  "NewSecurity exported server =
     (let (sendSignMagic, recvSignMagic) =
            (if server then (serverSignMagic, clientSignMagic) else (clientSignMagic, serverSignMagic));
          (sendSealMagic, recvSealMagic) =
            (if server then (serverSealMagic, clientSealMagic) else (clientSealMagic, serverSealMagic))
      in case rc4_new (deriveKey exported sendSealMagic) of
           None \<Rightarrow> None
         | Some ss \<Rightarrow>
             (case rc4_new (deriveKey exported recvSealMagic) of
                None \<Rightarrow> None
              | Some rs \<Rightarrow>
                  Some \<lparr>sendSeal = ss, recvSeal = rs, sendSign = deriveKey exported sendSignMagic,
                        recvSign = deriveKey exported recvSignMagic, sendSeq = 0, recvSeq = 0\<rparr>))"

definition Wrap :: "Security \<Rightarrow> bytes \<Rightarrow> bytes \<times> Security" where
  "Wrap s msg =
     (let (sealed, c1) = rc4_xor (sendSeal s) msg;
          checksum = take 8 (hmac md5 (sendSign s) (le_bytes 4 (uint (sendSeq s)) @ msg));
          (checksum, c2) = rc4_xor c1 checksum;
          out = replicate 16 0;
          out = splice out 0 (le_bytes 4 1);
          out = splice out 4 checksum;
          out = splice out 12 (le_bytes 4 (uint (sendSeq s)))
      in (out @ sealed, s\<lparr>sendSeal := c2, sendSeq := sendSeq s + 1\<rparr>))"

text \<open>The cipher has moved on even when the signature does not match.\<close>

definition Unwrap :: "Security \<Rightarrow> bytes \<Rightarrow> (ntlm_error + bytes) \<times> Security" where
  "Unwrap s b =
     (if length b < 16 then (Inl WrapTooShort, s)
      else let sig = take 16 b; sealed = drop 16 b;
               (msg, c1) = rc4_xor (recvSeal s) sealed;
               want = take 8 (hmac md5 (recvSign s) (le_bytes 4 (u32_at sig 12) @ msg));
               (want, c2) = rc4_xor c1 want
           in if want \<noteq> read_at sig 4 8 then (Inl SignatureMismatch, s\<lparr>recvSeal := c2\<rparr>)
              else (Inr msg, s\<lparr>recvSeal := c2, recvSeq := recvSeq s + 1\<rparr>))"

section \<open>Strings round trip\<close>

lemma u16s_le_bytes:
  "\<forall>u\<in>set us. 0 \<le> u \<and> u < 65536 \<Longrightarrow> u16s (concat (map (le_bytes 2) us)) = us"
proof (induction us)
  case (Cons u us)
  have "le_val (le_bytes 2 u) = u" using Cons.prems by (intro le_val_le_bytes) auto
  moreover obtain a b where "le_bytes 2 u = [a, b]" by (simp add: numeral_2_eq_2)
  ultimately show ?case using Cons by simp
qed simp

lemma length_UTF16LE: "length (UTF16LE s) = 2 * length (utf16_encode (runes s))"
  unfolding UTF16LE_def by (induction "utf16_encode (runes s)" arbitrary: s)
    (simp_all add: length_concat comp_def sum_list_triv)

lemma fromUTF16LE_UTF16LE:
  assumes "valid_utf8 s"
  shows "fromUTF16LE (UTF16LE s) = s"
proof -
  have "u16s (UTF16LE s) = utf16_encode (runes s)"
    unfolding UTF16LE_def by (rule u16s_le_bytes) (auto dest: utf16_encode_range)
  with assms show ?thesis
    by (simp add: fromUTF16LE_def length_UTF16LE utf16_decode_encode valid_utf8_def)
qed

section \<open>AV pairs as an association list\<close>

definition avpair_ok :: "AVPair \<Rightarrow> bool" where
  "avpair_ok p \<longleftrightarrow> 0 < fst p \<and> fst p < 65536 \<and> int (length (snd p)) < 65536"

definition av_list :: "AVPair list \<Rightarrow> bytes" where
  "av_list ps = concat (map avPairBytes ps) @ [0, 0, 0, 0]"

lemma length_avPairBytes [simp]: "length (avPairBytes p) = 4 + length (snd p)"
  by (simp add: avPairBytes_def)

lemma avPairBytes_read:
  assumes "avpair_ok p"
  shows "u16_at (avPairBytes p @ rest) 0 = fst p"
    and "u16_at (avPairBytes p @ rest) 2 = int (length (snd p))"
    and "read_at (avPairBytes p @ rest) 4 (length (snd p)) = snd p"
    and "drop (4 + length (snd p)) (avPairBytes p @ rest) = rest"
  using assms by (simp_all add: avpair_ok_def avPairBytes_def u16_at_def read_at_def)

lemma u16_eol: "u16_at (0 # 0 # 0 # 0 # junk) 0 = 0" "u16_at (0 # 0 # 0 # 0 # junk) 2 = 0"
  by (simp_all add: u16_at_def read_at_def numeral_2_eq_2)

lemma AVPairValue_step:
  assumes "avpair_ok p" and "i \<noteq> 0"
  shows "AVPairValue (avPairBytes p @ rest) i = (if fst p = i then Some (snd p) else AVPairValue rest i)"
proof -
  have "fst p \<noteq> 0" using assms(1) by (simp add: avpair_ok_def)
  then show ?thesis
    by (subst AVPairValue.simps) (simp add: avPairBytes_read [OF assms(1)] del: drop_append)
qed

lemma AVPairValue_av_list:
  assumes "list_all avpair_ok ps" and "i \<noteq> 0"
  shows "AVPairValue (av_list ps @ junk) i = map_of ps i"
  using assms(1)
proof (induction ps)
  case Nil
  then show ?case by (subst AVPairValue.simps) (simp add: av_list_def u16_eol)
next
  case (Cons p ps)
  have "av_list (p # ps) @ junk = avPairBytes p @ (av_list ps @ junk)" by (simp add: av_list_def)
  with Cons assms(2) show ?case by (cases p) (simp add: AVPairValue_step)
qed

lemma u16_at_append: "u16_at (pre @ x) (length pre + k) = u16_at x k"
  by (simp add: u16_at_def read_at_def)

lemma avEOLOffset_av_list:
  assumes "list_all avpair_ok ps"
  shows "avEOLOffset (pre @ av_list ps @ junk) (length pre)
    = Some (length pre + length (concat (map avPairBytes ps)))"
  using assms
proof (induction ps arbitrary: pre)
  case Nil
  then show ?case
    using u16_at_append [of pre "0 # 0 # 0 # 0 # junk" 0]
    by (subst avEOLOffset.simps) (simp add: av_list_def u16_eol)
next
  case (Cons p ps)
  let ?rest = "av_list ps @ junk"
  have eq: "pre @ av_list (p # ps) @ junk = pre @ avPairBytes p @ ?rest" by (simp add: av_list_def)
  have p: "avpair_ok p" "fst p \<noteq> 0" using Cons.prems by (simp_all add: avpair_ok_def)
  have at: "u16_at (pre @ avPairBytes p @ ?rest) (length pre) = fst p"
    "u16_at (pre @ avPairBytes p @ ?rest) (length pre + 2) = int (length (snd p))"
    using u16_at_append [of pre "avPairBytes p @ ?rest"] avPairBytes_read [OF p(1), of ?rest]
    by (metis add.right_neutral, metis)
  have "avEOLOffset ((pre @ avPairBytes p) @ ?rest) (length (pre @ avPairBytes p))
      = Some (length (pre @ avPairBytes p) + length (concat (map avPairBytes ps)))"
    using Cons.prems by (intro Cons.IH) simp
  moreover have "avEOLOffset (pre @ avPairBytes p @ ?rest) (length pre)
      = avEOLOffset (pre @ avPairBytes p @ ?rest) (length pre + 4 + length (snd p))"
    using at p by (subst avEOLOffset.simps) simp
  ultimately show ?case
    unfolding eq by (simp add: add.assoc)
qed

lemma AVPairsAppend_av_list:
  assumes "list_all avpair_ok ps"
  shows "AVPairsAppend (av_list ps @ junk) qs = av_list (ps @ qs)"
  using avEOLOffset_av_list [OF assms, of "[]" junk]
  by (simp add: AVPairsAppend_def av_list_def)

section \<open>Reading back what was written at an offset\<close>

lemmas splice_simps = read_splice_same read_splice_before read_splice_after read_append_left

lemma length_putField [simp]: "off + 8 \<le> length b \<Longrightarrow> length (putField b off p n) = length b"
  by (simp add: putField_def)

lemma putField_same:
  assumes "off + 8 \<le> length b"
  shows "read_at (putField b off p n) off 2 = le_bytes 2 (int n)"
    "o' = off + 4 \<Longrightarrow> read_at (putField b off p n) o' 4 = le_bytes 4 (int p)"
  using assms by (simp_all add: putField_def splice_simps)

lemma putField_other:
  assumes "off + 8 \<le> length b" "o' + k \<le> off \<or> off + 8 \<le> o'"
  shows "read_at (putField b off p n) o' k = read_at b o' k"
  using assms by (auto simp: putField_def splice_simps)

text \<open>A security buffer that points at a part of the message reads that part.\<close>

lemma field_put:
  assumes "read_at msg off 2 = le_bytes 2 (int (length v))"
    and "read_at msg (off + 4) 4 = le_bytes 4 (int (length pre))"
    and "msg = pre @ v @ post" "off + 8 \<le> length msg" "length v < 65536" "length pre < 2 ^ 32"
  shows "field msg off = Inr v"
proof -
  have "u16_at msg off = int (length v)" "u32_at msg (off + 4) = int (length pre)"
    using assms by (simp_all add: u16_at_def u32_at_def)
  with assms(3-5) show ?thesis
    by (simp add: field_def Let_def read_at_def)
qed

section \<open>Message protection\<close>

definition paired :: "Security \<Rightarrow> Security \<Rightarrow> bool" where
  "paired s t \<longleftrightarrow> sendSeal s = recvSeal t \<and> sendSign s = recvSign t \<and>
     recvSeal s = sendSeal t \<and> recvSign s = sendSign t"

lemma paired_sym: "paired s t \<Longrightarrow> paired t s"
  by (simp add: paired_def)

lemma Unwrap_Wrap:
  assumes "paired s t" and w: "Wrap s m = (out, s')"
  shows "\<exists>t'. Unwrap t out = (Inr m, t') \<and> paired s' t'"
proof -
  obtain sealed c1 where e: "rc4_xor (sendSeal s) m = (sealed, c1)" by fastforce
  let ?sum = "take 8 (hmac md5 (sendSign s) (le_bytes 4 (uint (sendSeq s)) @ m))"
  obtain sum c2 where k: "rc4_xor c1 ?sum = (sum, c2)" by fastforce
  let ?hdr = "splice (splice (splice (replicate 16 0) 0 (le_bytes 4 1)) 4 sum) 12
    (le_bytes 4 (uint (sendSeq s)))"
  have len: "length sum = 8" using length_rc4_xor [of c1 ?sum] k by simp
  have out: "out = ?hdr @ sealed" "s' = s\<lparr>sendSeal := c2, sendSeq := sendSeq s + 1\<rparr>"
    using w e k by (simp_all add: Wrap_def)
  have hdr: "length ?hdr = 16" "read_at ?hdr 4 8 = sum" "u32_at ?hdr 12 = uint (sendSeq s)"
    using len unsigned_less [of "sendSeq s", where ?'a = int]
    by (simp_all add: splice_simps u32_at_def)
  have d: "rc4_xor (recvSeal t) sealed = (m, c1)"
    using rc4_xor_inverse [of "sendSeal s" m] e assms(1) by (simp add: paired_def)
  have "take 16 out = ?hdr" "drop 16 out = sealed" "16 \<le> length out"
    using hdr(1) by (simp_all add: out(1))
  then show ?thesis
    using d k hdr assms(1) by (simp add: Unwrap_def paired_def out(2))
qed

section \<open>The messages round trip\<close>

lemmas layout_simps = splice_simps putField_same putField_other

lemma take_read_at: "take n b = read_at b 0 n"
  by (simp add: read_at_def)

lemma length_signature [simp]: "length signature = 8"
  by (simp add: signature_def)

lemma uint32_bound: "uint (w :: 32 word) < 256 ^ 4"
  using unsigned_less [of w, where ?'a = int] by simp

lemma word32_roundtrip [simp]: "word_of_int (le_val (le_bytes 4 (uint (w :: 32 word)))) = w"
  using uint32_bound [of w] by simp

lemma messageType_read:
  assumes "read_at b 0 8 = signature" "read_at b 8 4 = le_bytes 4 t" "12 \<le> length b"
    "0 \<le> t" "t < 256"
  shows "messageType b = Inr t"
  using assms by (simp add: messageType_def take_read_at u32_at_def)

lemma Negotiate_roundtrip:
  "ParseNegotiate (fst (Negotiate_Marshal n)) = Inr (snd (Negotiate_Marshal n))"
proof -
  obtain b where b: "Negotiate_Marshal n = (b, n\<lparr>ng_Raw := b\<rparr>)"
    and r: "length b = 32" "read_at b 0 8 = signature" "read_at b 8 4 = le_bytes 4 1"
      "read_at b 12 4 = le_bytes 4 (uint (ng_Flags n))"
    by (simp add: Negotiate_Marshal_def Let_def layout_simps)
  then show ?thesis
    by (cases n) (simp add: ParseNegotiate_def messageType_read u32_at_def)
qed

definition challenge_ok :: "Challenge \<Rightarrow> bool" where
  "challenge_ok c \<longleftrightarrow> valid_utf8 (ch_TargetName c) \<and> length (ch_ServerChallenge c) = 8 \<and>
     int (length (UTF16LE (ch_TargetName c))) < 65536 \<and> int (length (ch_TargetInfo c)) < 65536"

lemma Challenge_roundtrip:
  assumes "challenge_ok c"
  shows "ParseChallenge (fst (Challenge_Marshal c)) = Inr (snd (Challenge_Marshal c))"
proof -
  let ?name = "UTF16LE (ch_TargetName c)"
  let ?info = "ch_TargetInfo c"
  have ok: "length (ch_ServerChallenge c) = 8" "length ?name < 65536" "length ?info < 65536"
    "fromUTF16LE ?name = ch_TargetName c"
    using assms by (simp_all add: challenge_ok_def fromUTF16LE_UTF16LE)
  obtain h b where b: "Challenge_Marshal c = (b, c\<lparr>ch_Raw := b\<rparr>)"
    and h: "b = h @ ?name @ ?info" "length h = 48"
    and r: "read_at h 0 8 = signature" "read_at h 8 4 = le_bytes 4 2"
      "read_at h 12 2 = le_bytes 2 (int (length ?name))" "read_at h 16 4 = le_bytes 4 48"
      "read_at h 20 4 = le_bytes 4 (uint (ch_Flags c))" "read_at h 24 8 = ch_ServerChallenge c"
      "read_at h 40 2 = le_bytes 2 (int (length ?info))"
      "read_at h 44 4 = le_bytes 4 (48 + int (length ?name))"
    using ok(1) by (simp add: Challenge_Marshal_def Let_def layout_simps)
  have "messageType b = Inr 2"
    using h r by (intro messageType_read) (simp_all add: splice_simps)
  moreover have "field b 12 = Inr ?name"
    using h r ok by (intro field_put [where pre = h and post = ?info]) (simp_all add: splice_simps)
  moreover have "field b 40 = Inr ?info"
    using h r ok
    by (intro field_put [where pre = "h @ ?name" and post = "[]"]) (simp_all add: splice_simps)
  ultimately show ?thesis
    using b h r ok by (cases c) (simp add: ParseChallenge_def u32_at_def splice_simps)
qed

definition authenticate_ok :: "Authenticate \<Rightarrow> bool" where
  "authenticate_ok a \<longleftrightarrow> list_all valid_utf8 [a_Domain a, a_User a, a_Workstation a] \<and>
     list_all (\<lambda>v. int (length v) < 65536)
       [a_LMResponse a, a_NTResponse a, UTF16LE (a_Domain a), UTF16LE (a_User a),
        UTF16LE (a_Workstation a), a_EncryptedRandomSessionKey a]"

lemma length_authHeader [simp]: "length (authHeader f lm nt d u ws k) = 88"
  by (simp add: authHeader_def Let_def)

lemma authHeader_reads:
  fixes lm nt d u ws k :: bytes and f :: "32 word"
  defines "h \<equiv> authHeader f lm nt d u ws k"
  shows "read_at h 0 8 = signature" "read_at h 8 4 = le_bytes 4 3"
    "read_at h 60 4 = le_bytes 4 (uint (f OR FlagVersion))"
    "read_at h 72 16 = replicate 16 0"
    "read_at h 12 2 = le_bytes 2 (int (length lm))" "read_at h 16 4 = le_bytes 4 88"
    "read_at h 20 2 = le_bytes 2 (int (length nt))"
    "read_at h 24 4 = le_bytes 4 (int (88 + length lm))"
    "read_at h 28 2 = le_bytes 2 (int (length d))"
    "read_at h 32 4 = le_bytes 4 (int (88 + length lm + length nt))"
    "read_at h 36 2 = le_bytes 2 (int (length u))"
    "read_at h 40 4 = le_bytes 4 (int (88 + length lm + length nt + length d))"
    "read_at h 44 2 = le_bytes 2 (int (length ws))"
    "read_at h 48 4 = le_bytes 4 (int (88 + length lm + length nt + length d + length u))"
    "read_at h 52 2 = le_bytes 2 (int (length k))"
    "read_at h 56 4 = le_bytes 4 (int (88 + length lm + length nt + length d + length u + length ws))"
  unfolding h_def authHeader_def Let_def by (simp_all add: layout_simps, simp add: read_at_def)

text \<open>Every security buffer of the written message points past the header.\<close>

lemma payloadStart_ge:
  assumes "\<forall>off\<in>set [12, 20, 28, 36, 44, 52]. n \<le> u32_at b (off + 4)" and "n \<le> int (length b)"
  shows "n \<le> payloadStart b"
proof -
  have "n \<le> foldl (\<lambda>m off.
         if length b < off + 8 then m
         else if u16_at b off = 0 then m
         else if u32_at b (off + 4) < m then u32_at b (off + 4) else m) m offs"
    if "\<forall>off\<in>set offs. n \<le> u32_at b (off + 4)" "n \<le> m" for offs m
    using that by (induction offs arbitrary: m) auto
  from this [OF assms] show ?thesis by (simp only: payloadStart_def)
qed

text \<open>The message \<open>ParseAuthenticate\<close> gives back: the version flag is set, the integrity check is
  the zero placeholder, and everything else is what was marshalled.\<close>

definition parsed_authenticate :: "Authenticate \<Rightarrow> Authenticate" where
  "parsed_authenticate a =
     (snd (Authenticate_Marshal a))\<lparr>a_Flags := a_Flags a OR FlagVersion, a_MIC := replicate 16 0\<rparr>"

lemma Authenticate_roundtrip_MIC:
  fixes a :: Authenticate and mic :: bytes
  defines "b \<equiv> splice (fst (Authenticate_Marshal a)) 72 mic"
  assumes "authenticate_ok a" and mic: "length mic = 16"
  shows "ParseAuthenticate b = Inr ((parsed_authenticate a)\<lparr>a_MIC := mic, a_Raw := b\<rparr>)"
proof -
  define d u ws lm nt k where defs: "d = UTF16LE (a_Domain a)" "u = UTF16LE (a_User a)"
    "ws = UTF16LE (a_Workstation a)" "lm = a_LMResponse a" "nt = a_NTResponse a"
    "k = a_EncryptedRandomSessionKey a"
  define g where "g = authHeader (a_Flags a) lm nt d u ws k"
  define h where "h = splice g 72 mic"
  note r = authHeader_reads [of "a_Flags a" lm nt d u ws k, folded g_def]
  have gl: "length g = 88" by (simp add: g_def)
  then have hl: "length h = 88" using mic by (simp add: h_def)
  have b: "b = h @ lm @ nt @ d @ u @ ws @ k"
    using gl mic by (simp add: b_def h_def Authenticate_Marshal_def g_def defs Let_def splice_def)
  have lens: "length lm < 65536" "length nt < 65536" "length d < 65536" "length u < 65536"
      "length ws < 65536" "length k < 65536"
    and names: "fromUTF16LE d = a_Domain a" "fromUTF16LE u = a_User a" "fromUTF16LE ws = a_Workstation a"
    using assms by (simp_all add: authenticate_ok_def defs fromUTF16LE_UTF16LE)
  have rb: "o' + n \<le> 72 \<Longrightarrow> read_at b o' n = read_at g o' n" and rm: "read_at b 72 16 = mic" for o' n
    using hl gl mic by (simp_all add: b h_def read_append_left splice_simps)
  have fields: "field b 12 = Inr lm" "field b 20 = Inr nt" "field b 28 = Inr d" "field b 36 = Inr u"
    "field b 44 = Inr ws" "field b 52 = Inr k"
    using lens hl
    by (intro field_put [where pre = h and post = "nt @ d @ u @ ws @ k"]
        field_put [where pre = "h @ lm" and post = "d @ u @ ws @ k"]
        field_put [where pre = "h @ lm @ nt" and post = "u @ ws @ k"]
        field_put [where pre = "h @ lm @ nt @ d" and post = "ws @ k"]
        field_put [where pre = "h @ lm @ nt @ d @ u" and post = k]
        field_put [where pre = "h @ lm @ nt @ d @ u @ ws" and post = "[]"];
        simp add: rb r add.assoc; simp add: b)+
  have "messageType b = Inr 3"
    using hl by (intro messageType_read) (simp_all add: rb r, simp add: b)
  moreover have "88 \<le> payloadStart b"
    using lens hl by (intro payloadStart_ge) (simp_all add: u32_at_def rb r, simp add: b)
  moreover have "88 \<le> length b" "u32_at b 60 = le_val (le_bytes 4 (uint (a_Flags a OR FlagVersion)))"
    using hl by (simp add: b) (simp add: u32_at_def rb r)
  ultimately show ?thesis
    using names by (simp add: ParseAuthenticate_def parsed_authenticate_def Authenticate_Marshal_def Let_def fields rm defs)
qed

lemma Authenticate_roundtrip:
  assumes "authenticate_ok a"
  shows "ParseAuthenticate (fst (Authenticate_Marshal a)) = Inr (parsed_authenticate a)"
proof -
  define h where "h = authHeader (a_Flags a) (a_LMResponse a) (a_NTResponse a) (UTF16LE (a_Domain a))
    (UTF16LE (a_User a)) (UTF16LE (a_Workstation a)) (a_EncryptedRandomSessionKey a)"
  have hl: "length h = 88" and zero: "take 16 (drop 72 h) = replicate 16 0"
    using authHeader_reads(4) unfolding h_def read_at_def by simp_all
  have "splice h 72 (replicate 16 0) = h"
    using hl append_take_drop_id [of 72 h] append_take_drop_id [of 16 "drop 72 h"]
    unfolding splice_def zero [symmetric] by simp
  then have "splice (fst (Authenticate_Marshal a)) 72 (replicate 16 0) = fst (Authenticate_Marshal a)"
    using hl by (simp add: Authenticate_Marshal_def Let_def splice_def flip: h_def)
  moreover have "snd (Authenticate_Marshal a) = a\<lparr>a_micOffset := 72, a_Raw := fst (Authenticate_Marshal a)\<rparr>"
    by (simp add: Authenticate_Marshal_def Let_def)
  ultimately show ?thesis
    using Authenticate_roundtrip_MIC [OF assms, of "replicate 16 0"] by (simp add: parsed_authenticate_def)
qed

section \<open>Two ends of one protected conversation\<close>

lemma rc4_new_deriveKey: "\<exists>st. rc4_new (deriveKey e m) = Some st"
proof -
  have "deriveKey e m \<noteq> []" "length (deriveKey e m) \<le> 256"
    using length_md5 [of "e @ m"] by (auto simp: deriveKey_def simp del: length_md5)
  then show ?thesis by (simp add: rc4_new_def split: prod.split)
qed

lemma NewSecurity_paired:
  "\<exists>c s. NewSecurity e False = Some c \<and> NewSecurity e True = Some s \<and> paired c s"
  using rc4_new_deriveKey [of e clientSealMagic] rc4_new_deriveKey [of e serverSealMagic]
  by (auto simp: NewSecurity_def paired_def)

text \<open>
  Messages sent in either direction, one after the other; the result holds what the receiving
  end unwraps each time, \<^term>\<open>None\<close> when it refuses one.
\<close>

fun converse :: "Security \<Rightarrow> Security \<Rightarrow> (bool \<times> bytes) list \<Rightarrow> bytes list option" where
  "converse c s [] = Some []"
| "converse c s ((toServer, m) # ms) =
     (if toServer then
        let (out, c') = Wrap c m; (r, s') = Unwrap s out
        in case r of Inl e \<Rightarrow> None | Inr x \<Rightarrow> map_option ((#) x) (converse c' s' ms)
      else
        let (out, s') = Wrap s m; (r, c') = Unwrap c out
        in case r of Inl e \<Rightarrow> None | Inr x \<Rightarrow> map_option ((#) x) (converse c' s' ms))"

lemma converse_paired: "paired c s \<Longrightarrow> converse c s ms = Some (map snd ms)"
proof (induction ms arbitrary: c s)
  case (Cons dm ms)
  obtain toServer m where dm: "dm = (toServer, m)" by fastforce
  show ?case
  proof (cases toServer)
    case True
    obtain out c' where w: "Wrap c m = (out, c')" by fastforce
    with Unwrap_Wrap [OF Cons.prems w] True dm Cons.IH show ?thesis by auto
  next
    case False
    obtain out s' where w: "Wrap s m = (out, s')" by fastforce
    with Unwrap_Wrap [OF paired_sym [OF Cons.prems] w] False dm Cons.IH paired_sym
    show ?thesis by fastforce
  qed
qed simp

lemma VerifyNTLMv2_Compute:
  "ComputeNTLMv2 h u d c blob = (response, key) \<Longrightarrow> VerifyNTLMv2 h u d c response = Some key"
  by (auto simp: ComputeNTLMv2_def VerifyNTLMv2_def Let_def)

lemma VerifyNTLMv2_SomeD:
  assumes "VerifyNTLMv2 ntHash user domain challenge response = Some key"
  shows "ComputeNTLMv2 ntHash user domain challenge (drop 16 response) = (response, key)"
proof -
  from assms have "response = take 16 response @ drop 16 response"
    "take 16 response = hmac md5 (ntowfv2 ntHash user domain) (challenge @ drop 16 response)"
    "key = hmac md5 (ntowfv2 ntHash user domain) (take 16 response)"
    by (auto simp: VerifyNTLMv2_def Let_def split: if_splits)
  then show ?thesis unfolding ComputeNTLMv2_def Let_def by (metis (no_types))
qed

section \<open>Properties\<close>

text \<open>
  Further result. \<open>VerifyNTLMv2\<close> accepts exactly the responses \<open>ComputeNTLMv2\<close> produces under
  the same NT hash, user, domain and server challenge, over whatever blob the response carries,
  and it then returns the same session base key the client derived: both ends agree on the key
  and nothing else is accepted, in particular nothing shorter than a proof.
\<close>

theorem VerifyNTLMv2_iff_Compute:
  "VerifyNTLMv2 ntHash user domain challenge response = Some key \<longleftrightarrow>
    (\<exists>blob. ComputeNTLMv2 ntHash user domain challenge blob = (response, key))"
proof
  assume "VerifyNTLMv2 ntHash user domain challenge response = Some key"
  then show "\<exists>blob. ComputeNTLMv2 ntHash user domain challenge blob = (response, key)"
    using VerifyNTLMv2_SomeD by blast
next
  assume "\<exists>blob. ComputeNTLMv2 ntHash user domain challenge blob = (response, key)"
  then show "VerifyNTLMv2 ntHash user domain challenge response = Some key"
    by (auto simp: ComputeNTLMv2_def VerifyNTLMv2_def Let_def)
qed

text \<open>
  Further result. The client and the server contexts derived from one exported session key always
  exist and stay in step: any sequence of messages in either direction, wrapped by one end, is
  unwrapped by the other to exactly the messages sent, in order.
\<close>

theorem Security_conversation:
  "\<exists>c s. NewSecurity exported False = Some c \<and> NewSecurity exported True = Some s \<and>
     converse c s ms = Some (map snd ms)"
  using NewSecurity_paired [of exported] converse_paired by blast

text \<open>
  Further result. An authenticate message whose fields fit their 16-bit lengths is read back as it
  was marshalled: user, domain, workstation, both responses and the encrypted key come out
  unchanged, the version flag is set and the integrity check field is found, zeroed, at offset 72
  for \<open>SetMIC\<close> to fill.
\<close>

theorem ParseAuthenticate_Marshal:
  assumes "authenticate_ok a"
  shows "ParseAuthenticate (fst (Authenticate_Marshal a)) = Inr (parsed_authenticate a) \<and>
    a_User (parsed_authenticate a) = a_User a \<and> a_NTResponse (parsed_authenticate a) = a_NTResponse a \<and>
    a_micOffset (parsed_authenticate a) = 72"
  using Authenticate_roundtrip [OF assms]
  by (simp add: parsed_authenticate_def Authenticate_Marshal_def Let_def)

definition example_authenticate :: Authenticate where
  "example_authenticate = \<lparr>a_Flags = 0x20000205, a_Domain = [], a_User = ''one'',
     a_Workstation = ''PC'', a_LMResponse = replicate 24 0, a_NTResponse = [1, 2, 3],
     a_EncryptedRandomSessionKey = replicate 16 7, a_MIC = [], a_micOffset = 0, a_Raw = []\<rparr>"

lemma example_authenticate_ok: "authenticate_ok example_authenticate"
  by code_simp

theorem ParseAuthenticate_Marshal_witness:
  "\<exists>a. ParseAuthenticate (fst (Authenticate_Marshal example_authenticate)) = Inr a \<and>
     a_User a = ''one'' \<and> a_NTResponse a = [1, 2, 3]"
  using ParseAuthenticate_Marshal [OF example_authenticate_ok]
  by (auto simp: example_authenticate_def)

text \<open>
  Further result. A challenge message whose fields fit their 16-bit lengths is read back unchanged,
  and so is every negotiate message.
\<close>

theorem ParseChallenge_Marshal:
  assumes "challenge_ok c"
  shows "ParseChallenge (fst (Challenge_Marshal c)) = Inr (c\<lparr>ch_Raw := fst (Challenge_Marshal c)\<rparr>) \<and>
    ParseNegotiate (fst (Negotiate_Marshal n)) = Inr (n\<lparr>ng_Raw := fst (Negotiate_Marshal n)\<rparr>)"
  using Challenge_roundtrip [OF assms] Negotiate_roundtrip [of n]
  by (simp add: Challenge_Marshal_def Negotiate_Marshal_def Let_def)

definition example_challenge :: Challenge where
  "example_challenge = \<lparr>ch_Flags = 0x20828205, ch_ServerChallenge = [1, 2, 3, 4, 5, 6, 7, 8],
     ch_TargetName = ''DPIPE'', ch_TargetInfo = TargetInfo ''DPIPE'' ''vm'' 0, ch_Raw = []\<rparr>"

lemma example_challenge_ok: "challenge_ok example_challenge"
  by code_simp

theorem ParseChallenge_Marshal_witness:
  "\<exists>c. ParseChallenge (fst (Challenge_Marshal example_challenge)) = Inr c \<and> ch_TargetName c = ''DPIPE''"
  using ParseChallenge_Marshal [OF example_challenge_ok]
  by (auto simp: example_challenge_def)

text \<open>
  Further result. The AV pair functions work on the byte form as on an association list: after
  appending pairs to a well-formed target info, whatever follows its terminator, a lookup gives
  the first pair with that id among the old ones and then the new ones, and nothing for an id
  that is in neither.
\<close>

theorem AVPairsAppend_lookup:
  assumes "list_all avpair_ok (ps @ qs)" and "i \<noteq> 0"
  shows "AVPairValue (AVPairsAppend (av_list ps @ junk) qs) i = map_of (ps @ qs) i"
  using assms AVPairValue_av_list [OF assms, of "[]"] AVPairsAppend_av_list [of ps junk qs]
  by simp

theorem AVPairsAppend_lookup_witness:
  "AVPairValue (AVPairsAppend (av_list [(2, [65, 0]), (7, [1])] @ [9]) [(6, LE32 2)]) 6 = Some [2, 0, 0, 0]"
proof -
  have "list_all avpair_ok ([(2, [65, 0]), (7, [1])] @ [(6, LE32 2)])" "LE32 2 = [2, 0, 0, 0]"
    by code_simp+
  with AVPairsAppend_lookup [of "[(2, [65, 0]), (7, [1])]" "[(6, LE32 2)]" 6 "[9]"]
  show ?thesis by simp
qed

text \<open>
  Further result. No security buffer reaches outside its message: whatever offset and length a
  hostile message states, \<open>field\<close> either reports an error or returns a contiguous part of that
  message, of the stated length.
\<close>

theorem field_in_bounds:
  assumes "field msg off = Inr v"
  shows "\<exists>pre post. msg = pre @ v @ post \<and> int (length v) = u16_at msg off \<and> length v < 65536"
proof (cases "u16_at msg off = 0")
  case True
  with assms have "v = []" by (auto simp: field_def split: if_splits)
  with True show ?thesis by (intro exI [of _ msg] exI [of _ "[]"]) simp
next
  case False
  let ?n = "nat (u16_at msg off)" and ?s = "nat (u32_at msg (off + 4))"
  have nn: "0 \<le> u16_at msg off" "0 \<le> u32_at msg (off + 4)" "u16_at msg off < 65536"
    using le_val_less [of "read_at msg off 2"]
      power_increasing [of "length (read_at msg off 2)" 2 "256 :: int"]
    by (simp_all add: u16_at_def u32_at_def read_at_def)
  from assms False have v: "v = read_at msg ?s ?n" "?s + ?n \<le> length msg"
    using nn by (auto simp: field_def Let_def split: if_splits)
  then have "msg = take ?s msg @ v @ drop (?s + ?n) msg"
    by (simp add: read_at_def) (metis append_take_drop_id drop_drop add.commute)
  moreover have "length v = ?n" using v by (simp add: read_at_def)
  ultimately show ?thesis
    using nn by (intro exI [of _ "take ?s msg"] exI [of _ "drop (?s + ?n) msg"]) simp
qed

theorem field_in_bounds_witness:
  "\<exists>pre post. [2, 0, 2, 0, 8, 0, 0, 0, 65, 66] = pre @ [65, 66 :: byte] @ post"
proof -
  have "field [2, 0, 2, 0, 8, 0, 0, 0, 65, 66] 0 = Inr [65, 66]" by code_simp
  from field_in_bounds [OF this] show ?thesis by blast
qed

end
