(* ===== verification/Credssp_Wire.thy ===== *)
theory Credssp_Wire
  imports Go_Asn1 Ntlm
begin

unbundle bit_operations_syntax

text \<open>
  The messages of CredSSP (\<open>backstage/dpipe/internal/credssp/tsrequest.go\<close> and \<open>wire.go\<close>): the
  \<open>TSRequest\<close> in DER, its reader on an unframed stream, the key a certificate is bound by and the two
  binding hashes. A slice that is nil or empty is the empty list; the fields the program marshals as
  optional are nil whenever they are empty.
\<close>

section \<open>Model\<close>

definition credsspVersion :: int where "credsspVersion = 6"
definition nonceVersion :: int where "nonceVersion = 5"
definition nonceLen :: nat where "nonceLen = 32"
definition MaxTSRequest :: int where "MaxTSRequest = 8192"
definition errLogonDenied :: int where "errLogonDenied = -2146893044"

datatype credssp_error =
    UnsupportedKey
  | TSTruncated
  | NotSequence byte
  | UnsupportedLength
  | TSTooLarge int
  | TSMalformed
  | NoNegoToken
  | NegoTokenTooLarge int
  | TSWriteFailed
  | NtlmFailed ntlm_error
  | NoRandom
  | NoUnicode
  | NoExtendedSecurity
  | BadSessionKey
  | NotAuthorized string
  | NoSessionKey
  | CipherFailed
  | NoDelegatedCredentials
  | BackendRefused int
  | NoConfirmation
  | BindingMismatch
  | AuthorizationUnavailable

record tsRequest =
  ts_Version :: int
  ts_NegoTokens :: "bytes list"
  ts_AuthInfo :: bytes
  ts_PubKeyAuth :: bytes
  ts_ErrorCode :: int
  ts_ClientNonce :: bytes

definition emptyTSRequest :: "int \<Rightarrow> tsRequest" where
  "emptyTSRequest version = \<lparr>ts_Version = version, ts_NegoTokens = [], ts_AuthInfo = [],
     ts_PubKeyAuth = [], ts_ErrorCode = 0, ts_ClientNonce = []\<rparr>"

definition MaxNTLMMessage :: nat where "MaxNTLMMessage = 2048"

definition token :: "tsRequest \<Rightarrow> credssp_error + bytes" where
  "token r =
     (case ts_NegoTokens r of
        [] \<Rightarrow> Inl NoNegoToken
      | t # _ \<Rightarrow> if length t > MaxNTLMMessage then Inl (NegoTokenTooLarge (int (length t))) else Inr t)"

definition requestWithToken :: "int \<Rightarrow> bytes \<Rightarrow> tsRequest" where
  "requestWithToken version t = (emptyTSRequest version)\<lparr>ts_NegoTokens := [t]\<rparr>"

text \<open>\<open>asn1.Marshal\<close> and \<open>asn1.Unmarshal\<close> at the struct tags of \<open>tsRequest\<close>.\<close>

definition negoToken_marshal :: "bytes \<Rightarrow> bytes" where
  "negoToken_marshal t = der_seq (der_explicit 0 (der_octets t))"

definition optionalMember :: "nat \<Rightarrow> bool \<Rightarrow> bytes \<Rightarrow> bytes" where
  "optionalMember k present b = (if present then der_explicit k b else [])"

definition tsRequest_marshal :: "tsRequest \<Rightarrow> bytes" where
  "tsRequest_marshal r =
     der_seq (der_explicit 0 (der_int (ts_Version r)) @
       optionalMember 1 (ts_NegoTokens r \<noteq> []) (der_seq (concat (map negoToken_marshal (ts_NegoTokens r)))) @
       optionalMember 2 (ts_AuthInfo r \<noteq> []) (der_octets (ts_AuthInfo r)) @
       optionalMember 3 (ts_PubKeyAuth r \<noteq> []) (der_octets (ts_PubKeyAuth r)) @
       optionalMember 4 (ts_ErrorCode r \<noteq> 0) (der_int (ts_ErrorCode r)) @
       optionalMember 5 (ts_ClientNonce r \<noteq> []) (der_octets (ts_ClientNonce r)))"

definition parseNegoToken :: "bytes \<Rightarrow> bytes parsed" where
  "parseNegoToken =
     parsePlain 16 True (\<lambda>b. map_option fst (parseExplicit False 0 4 False parseOctets [] b))"

definition parseTSBody :: "bytes \<Rightarrow> tsRequest option" where
  "parseTSBody b =
     Option.bind (parseExplicit False 0 2 False parseInt64 0 b) (\<lambda>(version, b).
     Option.bind (parseExplicit True 1 16 True (parseSequenceOf parseNegoToken) [] b) (\<lambda>(tokens, b).
     Option.bind (parseExplicit True 2 4 False parseOctets [] b) (\<lambda>(info, b).
     Option.bind (parseExplicit True 3 4 False parseOctets [] b) (\<lambda>(auth, b).
     Option.bind (parseExplicit True 4 2 False parseInt64 0 b) (\<lambda>(err, b).
     Option.bind (parseExplicit True 5 4 False parseOctets [] b) (\<lambda>(nonce, b).
     Some \<lparr>ts_Version = version, ts_NegoTokens = tokens, ts_AuthInfo = info, ts_PubKeyAuth = auth,
           ts_ErrorCode = err, ts_ClientNonce = nonce\<rparr>))))))"

definition tsRequest_unmarshal :: "bytes \<Rightarrow> tsRequest parsed" where
  "tsRequest_unmarshal = parsePlain 16 True parseTSBody"

text \<open>The length of the message is taken from its header before anything is parsed.\<close>

definition readHeader :: "bytes \<Rightarrow> credssp_error + (bytes \<times> int \<times> bytes)" where
  "readHeader r =
     (if length r < 2 then Inl TSTruncated
      else if r ! 0 \<noteq> 0x30 then Inl (NotSequence (r ! 0))
      else if uint (r ! 1) < 128 then Inr (take 2 r, uint (r ! 1), drop 2 r)
      else let n = nat (uint (r ! 1) mod 128); r' = drop 2 r in
        if n = 0 \<or> n > 4 then Inl UnsupportedLength
        else if length r' < n then Inl TSTruncated
        else Inr (take 2 r @ take n r', be_val (take n r'), drop n r'))"

definition readTSRequest :: "bytes \<Rightarrow> credssp_error + (tsRequest \<times> bytes)" where
  "readTSRequest r =
     rbind (readHeader r) (\<lambda>(hdr, bodyLen, r).
       if bodyLen < 0 \<or> int (length hdr) + bodyLen > MaxTSRequest then Inl (TSTooLarge bodyLen)
       else if length r < nat bodyLen then Inl TSTruncated
       else case tsRequest_unmarshal (hdr @ take (nat bodyLen) r) of
          None \<Rightarrow> Inl TSMalformed
        | Some (req, rest) \<Rightarrow> if rest \<noteq> [] then Inl TSMalformed else Inr (req, drop (nat bodyLen) r))"

definition marshalPasswordCreds :: "string \<Rightarrow> string \<Rightarrow> string \<Rightarrow> bytes" where
  "marshalPasswordCreds domain user password =
     (let inner = der_seq (der_explicit 0 (der_octets (UTF16LE domain)) @
            der_explicit 1 (der_octets (UTF16LE user)) @ der_explicit 2 (der_octets (UTF16LE password)))
      in der_seq (der_explicit 0 (der_int 1) @ der_explicit 1 (der_octets inner)))"

text \<open>
  The public key of a certificate: an RSA modulus and exponent in PKCS 1 form, or the uncompressed
  point of an elliptic curve of the given bit size.
\<close>

datatype certKey = RSAKey int int | ECDSAKey nat int int | OtherKey

definition PublicKey :: "certKey \<Rightarrow> credssp_error + bytes" where
  "PublicKey k =
     (case k of
        RSAKey n e \<Rightarrow> Inr (der_seq (der_int n @ der_int e))
      | ECDSAKey bits x y \<Rightarrow> let l = (bits + 7) div 8 in Inr (4 # be_bytes l x @ be_bytes l y)
      | OtherKey \<Rightarrow> Inl UnsupportedKey)"

definition clientBindingMagic :: bytes where
  "clientBindingMagic = to_bytes ''CredSSP Client-To-Server Binding Hash'' @ [0]"

definition serverBindingMagic :: bytes where
  "serverBindingMagic = to_bytes ''CredSSP Server-To-Client Binding Hash'' @ [0]"

definition bindingHash :: "bytes \<Rightarrow> bytes \<Rightarrow> bytes \<Rightarrow> bytes" where
  "bindingHash magic nonce pubKey = sha256 (magic @ nonce @ pubKey)"

definition clientBinding :: "int \<Rightarrow> bytes \<Rightarrow> bytes \<Rightarrow> bytes" where
  "clientBinding version nonce pubKey =
     (if version \<ge> nonceVersion \<and> length nonce > 0 then bindingHash clientBindingMagic nonce pubKey
      else pubKey)"

definition serverBinding :: "int \<Rightarrow> bytes \<Rightarrow> bytes \<Rightarrow> bytes" where
  "serverBinding version nonce pubKey =
     (if version \<ge> nonceVersion \<and> length nonce > 0 then bindingHash serverBindingMagic nonce pubKey
      else case pubKey of [] \<Rightarrow> [] | b # bs \<Rightarrow> (b + 1) # bs)"

section \<open>A request is read back as it was written\<close>

text \<open>What follows member \<open>k\<close>: nothing, or a member with a higher tag.\<close>

definition after :: "nat \<Rightarrow> bytes \<Rightarrow> bool" where
  "after k r \<longleftrightarrow> r = [] \<or>
     (\<exists>j b s. r = der_explicit j b @ s \<and> k < j \<and> j < 31 \<and> b \<noteq> [] \<and> length b < 2 ^ 30)"

lemma after_intros:
  "after k []"
  "k < j \<Longrightarrow> j < 31 \<Longrightarrow> b \<noteq> [] \<Longrightarrow> length b < 2 ^ 30 \<Longrightarrow> after k s \<Longrightarrow> after k (optionalMember j p b @ s)"
  by (auto simp: after_def optionalMember_def)

lemma parseExplicit_after:
  "after k r \<Longrightarrow> parseExplicit True k utag compound body zero r = Some (zero, r)"
  by (auto simp: after_def intro!: parseExplicit_missing)

lemma parse_optionalMember:
  assumes "after k r" "length b < 2 ^ 29" "k < 31"
    and "uint ident mod 32 \<noteq> 31" "uint ident < 64" "utag = uint ident mod 32"
    and "compound \<longleftrightarrow> uint ident div 32 mod 2 = 1" and "body b = Some v" "\<not> p \<Longrightarrow> v = zero"
  shows "parseExplicit True k utag compound body zero (optionalMember k p (der_tlv ident b) @ r) = Some (v, r)"
proof (cases p)
  case True
  then show ?thesis using assms by (simp add: optionalMember_def parseExplicit_tlv)
next
  case False
  then show ?thesis using assms parseExplicit_after [OF assms(1)] by (simp add: optionalMember_def)
qed

lemma parseNegoToken_marshal:
  assumes "length t < 2 ^ 29"
  shows "parseNegoToken (negoToken_marshal t @ rest) = Some (t, rest)"
proof -
  have "length (der_explicit 0 (der_octets t)) < 2 ^ 31"
    using assms length_der(1) [of t] length_der(3) [of "der_octets t" 0] by simp
  moreover have "parseExplicit False 0 4 False parseOctets [] (der_explicit 0 (der_octets t) @ []) = Some (t, [])"
    unfolding der_octets_def using assms by (subst parseExplicit_tlv) (simp_all add: parseOctets_def)
  ultimately show ?thesis
    unfolding parseNegoToken_def negoToken_marshal_def der_seq_def by (subst parsePlain_tlv) simp_all
qed

lemma parseSequenceOf_tokens:
  assumes "\<forall>t\<in>set ts. length t < 2 ^ 29"
  shows "parseSequenceOf parseNegoToken (concat (map negoToken_marshal ts)) = Some ts"
  using assms
proof (induction ts)
  case (Cons t ts)
  let ?rest = "concat (map negoToken_marshal ts)"
  have "parseNegoToken (negoToken_marshal t @ ?rest) = Some (t, ?rest)"
    using Cons.prems by (simp add: parseNegoToken_marshal)
  moreover have "negoToken_marshal t \<noteq> []" by (simp add: negoToken_marshal_def der_seq_def)
  ultimately show ?case
    using Cons by (simp add: parseSequenceOf.simps [of _ "negoToken_marshal t @ ?rest"])
qed (simp add: parseSequenceOf.simps)

text \<open>The requests that survive: a 64-bit version and error code, and a size the reader accepts.\<close>

definition int64_ok :: "int \<Rightarrow> bool" where
  "int64_ok i \<longleftrightarrow> - (2 ^ 63) \<le> i \<and> i < 2 ^ 63"

definition tsRequest_ok :: "tsRequest \<Rightarrow> bool" where
  "tsRequest_ok r \<longleftrightarrow> int64_ok (ts_Version r) \<and> int64_ok (ts_ErrorCode r) \<and>
     int (length (tsRequest_marshal r)) \<le> MaxTSRequest"

lemma length_tlv_less: "length b \<le> length (der_tlv i b)"
  by (simp add: der_tlv_def)

lemma optionalMember_length: "p \<Longrightarrow> length b < length (optionalMember k p b)"
  by (simp add: optionalMember_def der_explicit_def length_der_tlv_gt)

definition tsTail :: "tsRequest \<Rightarrow> nat \<Rightarrow> bytes" where
  "tsTail r k = concat (drop k
     [optionalMember 1 (ts_NegoTokens r \<noteq> []) (der_seq (concat (map negoToken_marshal (ts_NegoTokens r)))),
      optionalMember 2 (ts_AuthInfo r \<noteq> []) (der_octets (ts_AuthInfo r)),
      optionalMember 3 (ts_PubKeyAuth r \<noteq> []) (der_octets (ts_PubKeyAuth r)),
      optionalMember 4 (ts_ErrorCode r \<noteq> 0) (der_int (ts_ErrorCode r)),
      optionalMember 5 (ts_ClientNonce r \<noteq> []) (der_octets (ts_ClientNonce r))])"

definition tsBody :: "tsRequest \<Rightarrow> bytes" where
  "tsBody r = der_explicit 0 (der_int (ts_Version r)) @ tsTail r 0"

lemma tsRequest_marshal_body: "tsRequest_marshal r = der_tlv 0x30 (tsBody r)"
  by (simp add: tsRequest_marshal_def tsBody_def tsTail_def der_seq_def)

lemma tsTail_members:
  "tsTail r 0 = optionalMember 1 (ts_NegoTokens r \<noteq> []) (der_tlv 0x30 (concat (map negoToken_marshal (ts_NegoTokens r)))) @ tsTail r 1"
  "tsTail r 1 = optionalMember 2 (ts_AuthInfo r \<noteq> []) (der_tlv 4 (ts_AuthInfo r)) @ tsTail r 2"
  "tsTail r 2 = optionalMember 3 (ts_PubKeyAuth r \<noteq> []) (der_tlv 4 (ts_PubKeyAuth r)) @ tsTail r 3"
  "tsTail r 3 = optionalMember 4 (ts_ErrorCode r \<noteq> 0)
     (der_tlv 2 (be_bytes (intLength (ts_ErrorCode r)) (ts_ErrorCode r))) @ tsTail r 4"
  "tsTail r 4 = optionalMember 5 (ts_ClientNonce r \<noteq> []) (der_tlv 4 (ts_ClientNonce r)) @ tsTail r 5"
  "tsTail r 5 = []"
  by (simp_all add: tsTail_def der_seq_def der_octets_def der_int_def)

lemma member_bound:
  "length (optionalMember k (b \<noteq> []) (der_tlv i b) @ s) < n \<Longrightarrow> length b < n \<and> length s < n"
  using optionalMember_length [of True "der_tlv i b" k] length_tlv_less [of b i] by (cases b) auto

lemma token_bound: "t \<in> set ts \<Longrightarrow> length t \<le> length (concat (map negoToken_marshal ts))"
proof (induction ts)
  case (Cons u ts)
  have "length u < length (der_octets u)" "length (der_octets u) < length (der_explicit 0 (der_octets u))"
    "length (der_explicit 0 (der_octets u)) < length (negoToken_marshal u)"
    by (simp_all only: der_octets_def der_explicit_def negoToken_marshal_def der_seq_def length_der_tlv_gt)
  with Cons show ?case by auto
qed simp

lemma tsTail_bounds:
  assumes "length (tsTail r 0) < n"
  shows "length (concat (map negoToken_marshal (ts_NegoTokens r))) < n" "length (ts_AuthInfo r) < n"
    "length (ts_PubKeyAuth r) < n" "length (ts_ClientNonce r) < n"
    "\<forall>t\<in>set (ts_NegoTokens r). length t < n"
proof -
  let ?tokens = "concat (map negoToken_marshal (ts_NegoTokens r))"
  have "ts_NegoTokens r \<noteq> [] \<longleftrightarrow> ?tokens \<noteq> []"
    by (auto simp: negoToken_marshal_def der_seq_def)
  then have "length ?tokens < n \<and> length (tsTail r 1) < n"
    using assms member_bound [of 1 ?tokens "0x30" "tsTail r 1" n] by (simp only: tsTail_members(1) not_False_eq_True)
  moreover from this have "length (ts_AuthInfo r) < n \<and> length (tsTail r 2) < n"
    using member_bound [of 2 "ts_AuthInfo r" 4 "tsTail r 2" n] by (simp only: tsTail_members(2))
  moreover from this have "length (ts_PubKeyAuth r) < n \<and> length (tsTail r 3) < n"
    using member_bound [of 3 "ts_PubKeyAuth r" 4 "tsTail r 3" n] by (simp only: tsTail_members(3))
  moreover from this have "length (tsTail r 4) < n" by (simp add: tsTail_members(4))
  moreover from this have "length (ts_ClientNonce r) < n"
    using member_bound [of 5 "ts_ClientNonce r" 4 "tsTail r 5" n] by (simp only: tsTail_members(5))
  ultimately show "length ?tokens < n" "length (ts_AuthInfo r) < n"
    "length (ts_PubKeyAuth r) < n" "length (ts_ClientNonce r) < n" by simp_all
  then show "\<forall>t\<in>set (ts_NegoTokens r). length t < n"
    using token_bound by (meson le_less_trans)
qed

lemma parseTSBody_tsBody:
  assumes "int64_ok (ts_Version r)" "int64_ok (ts_ErrorCode r)" "length (tsTail r 0) < 2 ^ 28"
  shows "parseTSBody (tsBody r) = Some r"
proof -
  note b = tsTail_bounds [OF assms(3)]
  let ?tokens = "concat (map negoToken_marshal (ts_NegoTokens r))"
  let ?int = "\<lambda>i. be_bytes (intLength i) i"
  have ints: "length (?int i) \<le> 8" "parseInt64 (?int i) = Some i" if "int64_ok i" for i
    using that length_der_int [of i] parseInt64_be [of i] by (simp_all add: int64_ok_def)
  have tlv: "length (der_tlv i x) < 2 ^ 30" if "length x < 2 ^ 28" for i x
    using that length_der_tlv [of x i] by simp
  have err: "length (der_tlv 2 (?int (ts_ErrorCode r))) < 2 ^ 30"
    using ints(1) [OF assms(2)] by (intro tlv) simp
  have tails: "after 5 (tsTail r 5)" "after 4 (tsTail r 4)" "after 3 (tsTail r 3)" "after 2 (tsTail r 2)" "after 1 (tsTail r 1)"
    unfolding tsTail_members using b tlv err by (intro after_intros; simp)+
  have "parseExplicit False 0 2 False parseInt64 0 (tsBody r) = Some (ts_Version r, tsTail r 0)"
    unfolding tsBody_def der_int_def using ints [OF assms(1)] by (subst parseExplicit_tlv) simp_all
  moreover have "parseExplicit True 1 16 True (parseSequenceOf parseNegoToken) [] (tsTail r 0) =
      Some (ts_NegoTokens r, tsTail r 1)"
    unfolding tsTail_members(1)
  proof (rule parse_optionalMember [OF tails(5)])
    show "parseSequenceOf parseNegoToken ?tokens = Some (ts_NegoTokens r)"
      using b(5) by (intro parseSequenceOf_tokens) fastforce
  qed (use b in simp_all)
  moreover have "parseExplicit True 2 4 False parseOctets [] (tsTail r 1) = Some (ts_AuthInfo r, tsTail r 2)"
    unfolding tsTail_members(2)
    by (rule parse_optionalMember [OF tails(4)]) (use b in \<open>simp_all add: parseOctets_def\<close>)
  moreover have "parseExplicit True 3 4 False parseOctets [] (tsTail r 2) = Some (ts_PubKeyAuth r, tsTail r 3)"
    unfolding tsTail_members(3)
    by (rule parse_optionalMember [OF tails(3)]) (use b in \<open>simp_all add: parseOctets_def\<close>)
  moreover have "parseExplicit True 4 2 False parseInt64 0 (tsTail r 3) = Some (ts_ErrorCode r, tsTail r 4)"
    unfolding tsTail_members(4)
    by (rule parse_optionalMember [OF tails(2)]) (use ints [OF assms(2)] in simp_all)
  moreover have "parseExplicit True 5 4 False parseOctets [] (tsTail r 4) = Some (ts_ClientNonce r, tsTail r 5)"
    unfolding tsTail_members(5)
    by (rule parse_optionalMember [OF tails(1)]) (use b in \<open>simp_all add: parseOctets_def\<close>)
  ultimately show ?thesis by (simp add: parseTSBody_def)
qed

lemma readHeader_der:
  assumes "length b < 2 ^ 31"
  shows "readHeader (der_tlv 0x30 b @ rest) = Inr (0x30 # der_length (length b), int (length b), b @ rest)"
proof (cases "length b \<ge> 128")
  case True
  let ?l = "lengthLength (int (length b))"
  have l: "?l \<le> 4" "0 < ?l" "int (length b) < 256 ^ ?l"
    using lengthLength_le [of "length b"] lengthLength_bounds [of "int (length b)"] True assms
    by (cases b; simp)+
  have u: "uint (word_of_int (128 + int ?l) :: byte) = 128 + int ?l"
    using l(1) by (intro uint_of_byte) auto
  moreover have "(128 + int ?l) mod 128 = int ?l" using l(1) by simp
  ultimately show ?thesis
    using True l by (simp add: der_tlv_def der_length_def readHeader_def Let_def)
next
  case False
  then show ?thesis
    using uint_of_byte [of "int (length b)"]
    by (simp add: der_tlv_def der_length_def readHeader_def del: of_int_of_nat_eq)
qed

lemma readTSRequest_marshal:
  assumes "tsRequest_ok r"
  shows "readTSRequest (tsRequest_marshal r @ rest) = Inr (r, rest)"
proof -
  have len: "length (der_tlv 0x30 (tsBody r)) \<le> 8192"
    using assms by (simp add: tsRequest_ok_def tsRequest_marshal_body MaxTSRequest_def)
  then have body: "length (tsBody r) < 8192" using length_der_tlv_gt [of "tsBody r" "0x30"] by simp
  then have parse: "parseTSBody (tsBody r) = Some r"
    using assms by (intro parseTSBody_tsBody) (simp_all add: tsRequest_ok_def tsBody_def)
  have "tsRequest_unmarshal (der_tlv 0x30 (tsBody r) @ []) = Some (r, [])"
    unfolding tsRequest_unmarshal_def using body parse by (subst parsePlain_tlv) simp_all
  then show ?thesis
    using readHeader_der [of "tsBody r" rest] body len
    by (simp add: readTSRequest_def tsRequest_marshal_body MaxTSRequest_def der_tlv_def)
qed

interpretation ts_request: framing tsRequest_marshal
  "\<lambda>b. case readTSRequest b of Inl _ \<Rightarrow> None | Inr p \<Rightarrow> Some p" tsRequest_ok
  by unfold_locales (simp add: readTSRequest_marshal)

end
