(* ===== verification/Credssp.thy ===== *)
theory Credssp
  imports Credssp_Wire
begin

unbundle bit_operations_syntax

text \<open>
  The two halves of network level authentication (\<open>backstage/dpipe/internal/credssp/server.go\<close> and
  \<open>client.go\<close>), run over an established TLS connection. A connection is the bytes the peer will send,
  the messages written so far and how many writes still succeed. Random bytes and the clock are
  arguments; \<open>None\<close> is a random source that fails. MD4 is the argument of \<open>NTHash\<close>, and the
  authorizer a field of the server's configuration.
\<close>

section \<open>The connection\<close>

record nlaConn =
  nc_in :: bytes
  nc_out :: "bytes list"
  nc_writes :: nat

type_synonym 'a nla = "nlaConn \<Rightarrow> (credssp_error + 'a) \<times> nlaConn"

definition nreturn :: "'a \<Rightarrow> 'a nla" where
  "nreturn x s = (Inr x, s)"

definition nfail :: "credssp_error \<Rightarrow> 'a nla" where
  "nfail e s = (Inl e, s)"

definition nlift :: "credssp_error + 'a \<Rightarrow> 'a nla" where
  "nlift r s = (r, s)"

definition nbind :: "'a nla \<Rightarrow> ('a \<Rightarrow> 'b nla) \<Rightarrow> 'b nla" where
  "nbind m f s = (case m s of (Inl e, s') \<Rightarrow> (Inl e, s') | (Inr x, s') \<Rightarrow> f x s')"

fun ntlm_result :: "ntlm_error + 'a \<Rightarrow> credssp_error + 'a" where
  "ntlm_result (Inl e) = Inl (NtlmFailed e)"
| "ntlm_result (Inr x) = Inr x"

definition recvTS :: "tsRequest nla" where
  "recvTS s =
     (case readTSRequest (nc_in s) of
        Inl e \<Rightarrow> (Inl e, s)
      | Inr (r, rest) \<Rightarrow> (Inr r, s\<lparr>nc_in := rest\<rparr>))"

definition writeTSRequest :: "tsRequest \<Rightarrow> unit nla" where
  "writeTSRequest r s =
     (if nc_writes s = 0 then (Inl TSWriteFailed, s)
      else (Inr (), s\<lparr>nc_out := nc_out s @ [tsRequest_marshal r], nc_writes := nc_writes s - 1\<rparr>))"

text \<open>\<open>writeError\<close> and the return that follows it; whether the write succeeds does not matter.\<close>

definition writeError :: "int \<Rightarrow> int \<Rightarrow> nlaConn \<Rightarrow> nlaConn" where
  "writeError version errcode s = snd (writeTSRequest ((emptyTSRequest version)\<lparr>ts_ErrorCode := errcode\<rparr>) s)"

definition refuse :: "int \<Rightarrow> credssp_error \<Rightarrow> 'a nla" where
  "refuse version e s = (Inl e, writeError version errLogonDenied s)"

section \<open>The server half\<close>

record AuthRequest =
  aq_User :: string
  aq_Domain :: string
  aq_Workstation :: string
  aq_ServerChallenge :: bytes
  aq_NTResponse :: bytes
  aq_Flags :: "32 word"
  aq_HasMIC :: bool

record AuthResult =
  ar_SessionBaseKey :: bytes
  ar_Target :: string
  ar_RemoteUser :: string
  ar_RemotePassword :: string

record ServerConfig =
  sv_Certificate :: certKey
  sv_ComputerName :: string
  sv_DomainName :: string
  sv_Authorize :: "AuthRequest \<Rightarrow> credssp_error + AuthResult"

definition keepFlags :: "32 word \<Rightarrow> 32 word list \<Rightarrow> 32 word \<Rightarrow> 32 word" where
  "keepFlags offered fs flags = foldl (\<lambda>acc f. if offered AND f \<noteq> 0 then acc OR f else acc) flags fs"

definition challengeFlags :: "32 word" where
  "challengeFlags = FlagUnicode OR FlagRequestTarget OR FlagNTLM OR FlagAlwaysSign OR
     FlagExtendedSessionSecurity OR FlagTargetInfo OR FlagTargetTypeServer OR Flag128 OR Flag56"

definition buildChallenge ::
  "bytes option \<Rightarrow> int \<Rightarrow> 32 word \<Rightarrow> ServerConfig \<Rightarrow> credssp_error + Challenge" where
  "buildChallenge rand now clientFlags cfg =
     (case rand of
        None \<Rightarrow> Inl NoRandom
      | Some sc \<Rightarrow>
          let c = \<lparr>ch_Flags = keepFlags clientFlags [FlagSign, FlagSeal, FlagKeyExch] challengeFlags,
                   ch_ServerChallenge = sc, ch_TargetName = sv_ComputerName cfg,
                   ch_TargetInfo = TargetInfo (sv_ComputerName cfg) (sv_DomainName cfg) now, ch_Raw = []\<rparr>
          in if clientFlags AND FlagUnicode = 0 then Inl NoUnicode
             else if clientFlags AND FlagExtendedSessionSecurity = 0 then Inl NoExtendedSecurity
             else Inr c)"

definition exportedSessionKey :: "bytes \<Rightarrow> Authenticate \<Rightarrow> credssp_error + bytes" where
  "exportedSessionKey base auth =
     (if a_Flags auth AND FlagKeyExch = 0 \<or> a_EncryptedRandomSessionKey auth = [] then Inr base
      else if length (a_EncryptedRandomSessionKey auth) \<noteq> 16 then Inl BadSessionKey
      else case rc4_new base of
             None \<Rightarrow> Inl CipherFailed
           | Some c \<Rightarrow> Inr (fst (rc4_xor c (a_EncryptedRandomSessionKey auth))))"

definition hasMIC :: "bytes \<Rightarrow> bool" where
  "hasMIC mic = list_ex (\<lambda>b. b \<noteq> 0) mic"

definition authRequest :: "Challenge \<Rightarrow> Authenticate \<Rightarrow> AuthRequest" where
  "authRequest challenge auth = \<lparr>aq_User = a_User auth, aq_Domain = a_Domain auth,
     aq_Workstation = a_Workstation auth, aq_ServerChallenge = ch_ServerChallenge challenge,
     aq_NTResponse = a_NTResponse auth, aq_Flags = a_Flags auth, aq_HasMIC = hasMIC (a_MIC auth)\<rparr>"

text \<open>
  \<open>ServeNLA\<close> in four stages: the delegated credentials, which are read and dropped, the binding to
  the certificate, the client's response and the negotiation.
\<close>

definition serveDelegated :: "Security \<Rightarrow> AuthResult \<Rightarrow> AuthResult nla" where
  "serveDelegated sec res =
     nbind recvTS (\<lambda>third.
     if ts_AuthInfo third = [] then nfail NoDelegatedCredentials
     else case fst (Unwrap sec (ts_AuthInfo third)) of
            Inl e \<Rightarrow> nfail (NtlmFailed e)
          | Inr _ \<Rightarrow> nreturn res)"

definition serveBinding :: "bytes \<Rightarrow> int \<Rightarrow> tsRequest \<Rightarrow> Authenticate \<Rightarrow> AuthResult \<Rightarrow> AuthResult nla" where
  "serveBinding pubKey version second auth res =
     (if length (ar_SessionBaseKey res) \<noteq> 16 then refuse version NoSessionKey
      else nbind (nlift (exportedSessionKey (ar_SessionBaseKey res) auth)) (\<lambda>exported.
        case NewSecurity exported True of
          None \<Rightarrow> nfail CipherFailed
        | Some sec \<Rightarrow>
            (case Unwrap sec (ts_PubKeyAuth second) of
               (Inl e, sec) \<Rightarrow> refuse version (NotAuthorized ''public key binding'')
             | (Inr got, sec) \<Rightarrow>
                 if got \<noteq> clientBinding version (ts_ClientNonce second) pubKey
                 then refuse version (NotAuthorized ''public key binding mismatch'')
                 else let (reply, sec) = Wrap sec (serverBinding version (ts_ClientNonce second) pubKey) in
                   nbind (writeTSRequest ((emptyTSRequest version)\<lparr>ts_PubKeyAuth := reply\<rparr>)) (\<lambda>_.
                   serveDelegated sec res))))"

definition serveResponse :: "bytes \<Rightarrow> int \<Rightarrow> Challenge \<Rightarrow> ServerConfig \<Rightarrow> AuthResult nla" where
  "serveResponse pubKey version challenge cfg =
     nbind recvTS (\<lambda>second.
     nbind (nlift (token second)) (\<lambda>authRaw.
     nbind (nlift (ntlm_result (ParseAuthenticate authRaw))) (\<lambda>auth.
     if length (a_NTResponse auth) < 16 \<or> length (a_NTResponse auth) > MaxNTLMMessage
     then nfail (NotAuthorized ''unusable NT response'')
     else case sv_Authorize cfg (authRequest challenge auth) of
            Inl e \<Rightarrow> refuse version e
          | Inr res \<Rightarrow> serveBinding pubKey version second auth res)))"

definition ServeNLA :: "bytes option \<Rightarrow> int \<Rightarrow> ServerConfig \<Rightarrow> AuthResult nla" where
  "ServeNLA rand now cfg =
     nbind (nlift (PublicKey (sv_Certificate cfg))) (\<lambda>pubKey.
     nbind recvTS (\<lambda>first.
     let version = min (ts_Version first) credsspVersion in
     nbind (nlift (token first)) (\<lambda>negoRaw.
     nbind (nlift (ntlm_result (ParseNegotiate negoRaw))) (\<lambda>nego.
     nbind (nlift (buildChallenge rand now (ng_Flags nego) cfg)) (\<lambda>challenge.
     nbind (writeTSRequest (requestWithToken version (fst (Challenge_Marshal challenge)))) (\<lambda>_.
     serveResponse pubKey version challenge cfg))))))"

section \<open>The client half\<close>

record ClientConfig =
  cl_Certificate :: certKey
  cl_SPN :: string
  cl_Domain :: string
  cl_User :: string
  cl_Password :: string
  cl_Workstation :: string

definition negotiateFlags :: "32 word" where
  "negotiateFlags = FlagUnicode OR FlagRequestTarget OR FlagNTLM OR FlagAlwaysSign OR
     FlagExtendedSessionSecurity OR FlagSign OR FlagSeal OR FlagKeyExch OR Flag128 OR Flag56"

definition authenticateFlags :: "32 word \<Rightarrow> credssp_error + 32 word" where
  "authenticateFlags serverFlags =
     (if serverFlags AND FlagUnicode = 0 then Inl NoUnicode
      else if serverFlags AND FlagExtendedSessionSecurity = 0 then Inl NoExtendedSecurity
      else Inr (keepFlags serverFlags
        [FlagRequestTarget, FlagSign, FlagSeal, FlagAlwaysSign, FlagTargetInfo, FlagTargetTypeServer,
         FlagKeyExch, Flag128, Flag56]
        (FlagUnicode OR FlagNTLM OR FlagExtendedSessionSecurity)))"

definition clientDomain :: "ClientConfig \<Rightarrow> Challenge \<Rightarrow> string" where
  "clientDomain cfg challenge = (if cl_Domain cfg = [] then ch_TargetName challenge else cl_Domain cfg)"

text \<open>The timestamp, whether a message integrity check is sent, and the target information.\<close>

definition responseInfo :: "int \<Rightarrow> ClientConfig \<Rightarrow> Challenge \<Rightarrow> bytes \<times> bool \<times> bytes" where
  "responseInfo now cfg challenge =
     (case AVPairValue (ch_TargetInfo challenge) AvTimestamp of
        Some ts \<Rightarrow>
          if length ts = 8
          then (ts, True, AVPairsAppend (ch_TargetInfo challenge)
                 [(AvFlags, LE32 AvFlagMIC), (AvChannelBindings, replicate 16 0),
                  (AvTargetName, UTF16LE (cl_SPN cfg))])
          else (WindowsTimeBytes now, False, ch_TargetInfo challenge)
      | None \<Rightarrow> (WindowsTimeBytes now, False, ch_TargetInfo challenge))"

text \<open>
  The exported key and its encrypted form: the base key itself without key exchange, else
  a random key.
\<close>

definition clientKey :: "bytes option \<Rightarrow> 32 word \<Rightarrow> bytes \<Rightarrow> credssp_error + (bytes \<times> bytes)" where
  "clientKey rand flags baseKey =
     (if flags AND FlagKeyExch = 0 then Inr (baseKey, [])
      else case rand of
             None \<Rightarrow> Inl NoRandom
           | Some exported \<Rightarrow>
               (case rc4_new baseKey of
                  None \<Rightarrow> Inl CipherFailed
                | Some c \<Rightarrow> Inr (exported, fst (rc4_xor c exported))))"

record clientRandom =
  rn_challenge :: "bytes option"
  rn_key :: "bytes option"
  rn_nonce :: "bytes option"

text \<open>
  What the client computes from the challenge: the raw AUTHENTICATE message and the key both sides
  protect the rest of the exchange with.
\<close>

definition clientAuthenticate ::
  "(bytes \<Rightarrow> bytes) \<Rightarrow> clientRandom \<Rightarrow> int \<Rightarrow> ClientConfig \<Rightarrow> bytes \<Rightarrow> bytes \<Rightarrow> Challenge \<Rightarrow>
   credssp_error + (bytes \<times> bytes)" where
  "clientAuthenticate md4 rnd now cfg negoRaw challengeRaw challenge =
     rbind (authenticateFlags (ch_Flags challenge)) (\<lambda>flags.
     case rn_challenge rnd of
       None \<Rightarrow> Inl NoRandom
     | Some clientChallenge \<Rightarrow>
         let domain = clientDomain cfg challenge;
             (timestamp, useMIC, targetInfo) = responseInfo now cfg challenge;
             blob = NTLMv2Blob clientChallenge timestamp targetInfo;
             (ntResponse, baseKey) = ComputeNTLMv2 (NTHash md4 (cl_Password cfg)) (cl_User cfg) domain
               (ch_ServerChallenge challenge) blob
         in rbind (clientKey (rn_key rnd) flags baseKey) (\<lambda>(exported, encryptedKey).
            let auth = snd (Authenticate_Marshal \<lparr>a_Flags = flags, a_Domain = domain,
                  a_User = cl_User cfg, a_Workstation = cl_Workstation cfg,
                  a_LMResponse = replicate 24 0, a_NTResponse = ntResponse,
                  a_EncryptedRandomSessionKey = encryptedKey, a_MIC = [], a_micOffset = 0, a_Raw = []\<rparr>)
            in Inr (a_Raw (if useMIC then SetMIC auth exported negoRaw challengeRaw else auth), exported)))"

text \<open>
  \<open>DialNLA\<close> in three stages: the server's confirmation, after which the password is delegated, the
  response with its binding, and the negotiation.
\<close>

definition dialConfirm :: "bytes \<Rightarrow> int \<Rightarrow> bytes \<Rightarrow> ClientConfig \<Rightarrow> Security \<Rightarrow> unit nla" where
  "dialConfirm pubKey version nonce cfg sec =
     nbind recvTS (\<lambda>confirm.
     if ts_ErrorCode confirm \<noteq> 0 then nfail (NotAuthorized ''backend rejected credentials'')
     else if ts_PubKeyAuth confirm = [] then nfail NoConfirmation
     else case Unwrap sec (ts_PubKeyAuth confirm) of
            (Inl e, sec) \<Rightarrow> nfail (NtlmFailed e)
          | (Inr got, sec) \<Rightarrow>
              if got \<noteq> serverBinding version nonce pubKey then nfail BindingMismatch
              else writeTSRequest ((emptyTSRequest version)\<lparr>ts_AuthInfo := fst (Wrap sec
                (marshalPasswordCreds (cl_Domain cfg) (cl_User cfg) (cl_Password cfg)))\<rparr>))"

definition dialBinding ::
  "bytes \<Rightarrow> int \<Rightarrow> bytes option \<Rightarrow> ClientConfig \<Rightarrow> bytes \<Rightarrow> bytes \<Rightarrow> unit nla" where
  "dialBinding pubKey version rand cfg authRaw exported =
     (case NewSecurity exported False of
        None \<Rightarrow> nfail CipherFailed
      | Some sec \<Rightarrow>
          nbind (nlift (if version \<ge> nonceVersion
                        then (case rand of None \<Rightarrow> Inl NoRandom | Some n \<Rightarrow> Inr n) else Inr [])) (\<lambda>nonce.
          let (pubKeyAuth, sec) = Wrap sec (clientBinding version nonce pubKey) in
          nbind (writeTSRequest ((requestWithToken version authRaw)
            \<lparr>ts_PubKeyAuth := pubKeyAuth, ts_ClientNonce := nonce\<rparr>)) (\<lambda>_.
          dialConfirm pubKey version nonce cfg sec)))"

definition DialNLA :: "(bytes \<Rightarrow> bytes) \<Rightarrow> clientRandom \<Rightarrow> int \<Rightarrow> ClientConfig \<Rightarrow> unit nla" where
  "DialNLA md4 rnd now cfg =
     nbind (nlift (PublicKey (cl_Certificate cfg))) (\<lambda>pubKey.
     let negoRaw = fst (Negotiate_Marshal \<lparr>ng_Flags = negotiateFlags, ng_Raw = []\<rparr>) in
     nbind (writeTSRequest (requestWithToken credsspVersion negoRaw)) (\<lambda>_.
     nbind recvTS (\<lambda>resp.
     if ts_ErrorCode resp \<noteq> 0 then nfail (BackendRefused (ts_ErrorCode resp))
     else let version = min (ts_Version resp) credsspVersion in
     nbind (nlift (token resp)) (\<lambda>challengeRaw.
     nbind (nlift (ntlm_result (ParseChallenge challengeRaw))) (\<lambda>challenge.
     nbind (nlift (clientAuthenticate md4 rnd now cfg negoRaw challengeRaw challenge)) (\<lambda>(authRaw, exported).
     dialBinding pubKey version (rn_nonce rnd) cfg authRaw exported))))))"

section \<open>Runs that succeed\<close>

lemma nla_success:
  "nbind m f s = (Inr y, s') \<longleftrightarrow> (\<exists>x s1. m s = (Inr x, s1) \<and> f x s1 = (Inr y, s'))"
  "nlift r s = (Inr x, s') \<longleftrightarrow> r = Inr x \<and> s' = s"
  "nreturn x s = (Inr z, s') \<longleftrightarrow> z = x \<and> s' = s"
  "\<not> nfail e s = (Inr x, s')" "\<not> refuse v e s = (Inr x, s')"
  "recvTS s = (Inr q, s') \<longleftrightarrow> (\<exists>rest. readTSRequest (nc_in s) = Inr (q, rest) \<and> s' = s\<lparr>nc_in := rest\<rparr>)"
  "writeTSRequest w s = (Inr u, s') \<longleftrightarrow> nc_writes s \<noteq> 0 \<and>
     s' = s\<lparr>nc_out := nc_out s @ [tsRequest_marshal w], nc_writes := nc_writes s - 1\<rparr>"
  by (auto simp: nbind_def nlift_def nreturn_def nfail_def refuse_def recvTS_def writeTSRequest_def
      split: sum.splits prod.splits)

lemma ntlm_result_Inr [simp]: "ntlm_result r = Inr x \<longleftrightarrow> r = Inr x"
  by (cases r) simp_all

lemma serveDelegated_success:
  "serveDelegated sec res s = (Inr out, s') \<Longrightarrow>
   out = res \<and> nc_out s' = nc_out s \<and> (\<exists>third. readTSRequest (nc_in s) = Inr (third, nc_in s'))"
  by (auto simp: serveDelegated_def nla_success split: if_splits sum.splits)

lemma serveBinding_success:
  assumes "serveBinding pubKey version second auth res s = (Inr out, s')"
  shows "out = res \<and> length (ar_SessionBaseKey res) = 16 \<and>
    (\<exists>exported sec reply third. exportedSessionKey (ar_SessionBaseKey res) auth = Inr exported \<and>
      NewSecurity exported True = Some sec \<and>
      fst (Unwrap sec (ts_PubKeyAuth second)) = Inr (clientBinding version (ts_ClientNonce second) pubKey) \<and>
      readTSRequest (nc_in s) = Inr (third, nc_in s') \<and>
      nc_out s' = nc_out s @ [tsRequest_marshal ((emptyTSRequest version)\<lparr>ts_PubKeyAuth := reply\<rparr>)])"
proof -
  from assms obtain exported where len: "length (ar_SessionBaseKey res) = 16"
    and e: "exportedSessionKey (ar_SessionBaseKey res) auth = Inr exported"
    by (auto simp: serveBinding_def nla_success split: if_splits)
  with assms obtain sec where sec: "NewSecurity exported True = Some sec"
    by (auto simp: serveBinding_def nla_success split: option.splits)
  obtain got sec2 where u: "Unwrap sec (ts_PubKeyAuth second) = (got, sec2)" by fastforce
  obtain reply sec3 where
    w: "Wrap sec2 (serverBinding version (ts_ClientNonce second) pubKey) = (reply, sec3)" by fastforce
  from assms len e sec u w have got: "got = Inr (clientBinding version (ts_ClientNonce second) pubKey)"
    by (cases got) (auto simp: serveBinding_def nla_success Let_def split: if_splits)
  with assms len e sec u w have "serveDelegated sec3 res (s\<lparr>nc_out := nc_out s @
      [tsRequest_marshal ((emptyTSRequest version)\<lparr>ts_PubKeyAuth := reply\<rparr>)],
      nc_writes := nc_writes s - 1\<rparr>) = (Inr out, s')"
    by (simp add: serveBinding_def nla_success Let_def)
  from serveDelegated_success [OF this] len e sec u got show ?thesis by auto
qed

lemma serveResponse_success:
  assumes "serveResponse pubKey version challenge cfg s = (Inr out, s')"
  obtains second r2 authRaw auth where "readTSRequest (nc_in s) = Inr (second, r2)"
    "token second = Inr authRaw" "ParseAuthenticate authRaw = Inr auth"
    "sv_Authorize cfg (authRequest challenge auth) = Inr out"
    "serveBinding pubKey version second auth out (s\<lparr>nc_in := r2\<rparr>) = (Inr out, s')"
  using assms serveBinding_success
  by (fastforce simp: serveResponse_def nla_success split: if_splits sum.splits)

lemma buildChallenge_Inr:
  "buildChallenge rand now flags cfg = Inr c \<Longrightarrow> rand = Some (ch_ServerChallenge c)"
  by (auto simp: buildChallenge_def Let_def split: option.splits if_splits)

section \<open>The pieces of a handshake between the two halves\<close>

lemma length_Wrap: "length (fst (Wrap s m)) = 16 + length m"
proof -
  obtain sealed c1 where a: "rc4_xor (sendSeal s) m = (sealed, c1)" by fastforce
  obtain sum c2 where
    b: "rc4_xor c1 (take 8 (hmac md5 (sendSign s) (le_bytes 4 (uint (sendSeq s)) @ m))) = (sum, c2)"
    by fastforce
  have "length sealed = length m" "length sum = 8"
    using length_rc4_xor [of "sendSeal s" m] a
      length_rc4_xor [of c1 "take 8 (hmac md5 (sendSign s) (le_bytes 4 (uint (sendSeq s)) @ m))"] b
    by simp_all
  then show ?thesis using a b by (simp add: Wrap_def)
qed

lemma Wrap_nonempty: "Wrap s m = (out, s') \<Longrightarrow> out \<noteq> []"
  using length_Wrap [of s m] by auto

lemma tsRequest_okI:
  assumes "int64_ok (ts_Version r)" "int64_ok (ts_ErrorCode r)" "length (ts_NegoTokens r) \<le> 1"
    and "sum_list (map length (ts_NegoTokens r)) + length (ts_AuthInfo r) + length (ts_PubKeyAuth r) +
      length (ts_ClientNonce r) \<le> 8000"
  shows "tsRequest_ok r"
proof -
  have tok: "length (concat (map negoToken_marshal (ts_NegoTokens r))) \<le> 18 + sum_list (map length (ts_NegoTokens r))"
  proof (cases "ts_NegoTokens r")
    case (Cons t ts)
    then have "ts = []" "length t \<le> 8000" using assms(3,4) by simp_all
    then show ?thesis
      using Cons length_der(1) [of t] length_der(3) [of "der_octets t" 0]
        length_der(2) [of "der_explicit 0 (der_octets t)"]
      by (simp add: negoToken_marshal_def)
  qed simp
  have member: "length (optionalMember k p (der_tlv i b)) \<le> 12 + length b" if "length b \<le> 9000" for k p i b
    using that length_der_tlv [of b i] length_der(3) [of "der_tlv i b" k]
    by (simp add: optionalMember_def)
  have int: "length (be_bytes (intLength v) v) \<le> 8" if "int64_ok v" for v
    using that length_der_int [of v] by (simp add: int64_ok_def)
  have "length (tsTail r 0) \<le> (12 + (18 + sum_list (map length (ts_NegoTokens r)))) + ((12 + length (ts_AuthInfo r)) +
      ((12 + length (ts_PubKeyAuth r)) + ((12 + 8) + ((12 + length (ts_ClientNonce r)) + 0))))"
    unfolding tsTail_members length_append
    using assms(4) tok int [OF assms(2)]
    by (intro add_mono order_trans [OF member]) simp_all
  moreover have "length (der_explicit 0 (der_int (ts_Version r))) \<le> 20"
    using int [OF assms(1)] length_der_tlv [of "be_bytes (intLength (ts_Version r)) (ts_Version r)" 2]
      length_der(3) [of "der_int (ts_Version r)" 0] by (simp add: der_int_def)
  ultimately have "length (tsBody r) \<le> 8150" using assms(4) by (simp add: tsBody_def)
  then have "length (tsRequest_marshal r) \<le> 8192"
    using length_der_tlv [of "tsBody r" "0x30"] by (simp add: tsRequest_marshal_body)
  then show ?thesis using assms by (simp add: tsRequest_ok_def MaxTSRequest_def)
qed

lemma nbind_run:
  "nbind (nlift (Inr x)) f s = f x s"
  "tsRequest_ok q \<Longrightarrow> nc_in s = tsRequest_marshal q @ rest \<Longrightarrow> nbind recvTS g s = g q (s\<lparr>nc_in := rest\<rparr>)"
  "0 < nc_writes s \<Longrightarrow> nbind (writeTSRequest q) h s =
     h () (s\<lparr>nc_out := nc_out s @ [tsRequest_marshal q], nc_writes := nc_writes s - 1\<rparr>)"
  by (simp_all add: nbind_def nlift_def recvTS_def writeTSRequest_def readTSRequest_marshal)

text \<open>
  The configurations of the two ends, as far as sizes and encodings go: names are valid UTF-8 and of
  the lengths an operator would use, and the random source gives what it is asked for.
\<close>

definition names_ok :: "ServerConfig \<Rightarrow> ClientConfig \<Rightarrow> bool" where
  "names_ok scfg ccfg \<longleftrightarrow>
     list_all valid_utf8 [sv_ComputerName scfg, cl_Domain ccfg, cl_User ccfg, cl_Workstation ccfg] \<and>
     list_all (\<lambda>s. length (UTF16LE s) \<le> 128)
       [sv_ComputerName scfg, sv_DomainName scfg, cl_Domain ccfg, cl_Workstation ccfg] \<and>
     list_all (\<lambda>s. length (UTF16LE s) \<le> 256) [cl_User ccfg, cl_SPN ccfg] \<and>
     length (UTF16LE (cl_Password ccfg)) \<le> 1024"

definition random_ok :: "clientRandom \<Rightarrow> bytes \<Rightarrow> bytes \<Rightarrow> bytes \<Rightarrow> bool" where
  "random_ok rnd cc key nonce \<longleftrightarrow> rnd = \<lparr>rn_challenge = Some cc, rn_key = Some key, rn_nonce = Some nonce\<rparr> \<and>
     length cc = 8 \<and> length key = 16 \<and> length nonce = 32"

definition offeredFlags :: "32 word" where
  "offeredFlags = keepFlags negotiateFlags [FlagSign, FlagSeal, FlagKeyExch] challengeFlags"

definition sentChallenge :: "ServerConfig \<Rightarrow> bytes \<Rightarrow> int \<Rightarrow> Challenge" where
  "sentChallenge cfg sc now = \<lparr>ch_Flags = offeredFlags, ch_ServerChallenge = sc,
     ch_TargetName = sv_ComputerName cfg,
     ch_TargetInfo = TargetInfo (sv_ComputerName cfg) (sv_DomainName cfg) now, ch_Raw = []\<rparr>"

lemma flags_agreed:
  "authenticateFlags offeredFlags = Inr offeredFlags"
  "offeredFlags AND FlagKeyExch \<noteq> 0" "(offeredFlags OR FlagVersion) AND FlagKeyExch \<noteq> 0"
  "negotiateFlags AND FlagUnicode \<noteq> 0" "negotiateFlags AND FlagExtendedSessionSecurity \<noteq> 0"
  by code_simp+

lemma buildChallenge_sent:
  "buildChallenge (Some sc) now negotiateFlags cfg = Inr (sentChallenge cfg sc now)"
  using flags_agreed by (simp add: buildChallenge_def sentChallenge_def offeredFlags_def)

definition targetPairs :: "ServerConfig \<Rightarrow> int \<Rightarrow> AVPair list" where
  "targetPairs cfg now = [(2, UTF16LE (sv_DomainName cfg)), (1, UTF16LE (sv_ComputerName cfg)),
     (4, UTF16LE (sv_DomainName cfg)), (3, UTF16LE (sv_ComputerName cfg)), (7, WindowsTimeBytes now)]"

lemma TargetInfo_pairs:
  "TargetInfo (sv_ComputerName cfg) (sv_DomainName cfg) now = av_list (targetPairs cfg now)"
  by (simp add: TargetInfo_def targetPairs_def av_list_def WindowsTimeBytes_def avPairBytes_def numeral_2_eq_2)

lemma targetPairs_ok: "names_ok cfg ccfg \<Longrightarrow> list_all avpair_ok (targetPairs cfg now)"
  by (simp add: names_ok_def targetPairs_def avpair_ok_def WindowsTimeBytes_def)

lemma length_TargetInfo:
  "names_ok cfg ccfg \<Longrightarrow> length (TargetInfo (sv_ComputerName cfg) (sv_DomainName cfg) now) \<le> 544"
  by (simp add: TargetInfo_pairs av_list_def targetPairs_def names_ok_def WindowsTimeBytes_def)

text \<open>The answer to the challenge: it verifies, and the server recovers the session key from it.\<close>

lemma responseInfo_sent:
  assumes "names_ok scfg ccfg" "ch_TargetInfo ch = TargetInfo (sv_ComputerName scfg) (sv_DomainName scfg) now"
  obtains ts info where "responseInfo now' ccfg ch = (ts, True, info)" "length ts = 8" "length info \<le> 832"
proof -
  have ts: "AVPairValue (ch_TargetInfo ch) AvTimestamp = Some (WindowsTimeBytes now)"
    using AVPairValue_av_list [OF targetPairs_ok [OF assms(1)], of 7 now "[]"]
    by (simp add: assms(2) TargetInfo_pairs AvTimestamp_def targetPairs_def)
  have "AVPairsAppend (ch_TargetInfo ch) ps = av_list (targetPairs scfg now @ ps)" for ps
    using AVPairsAppend_av_list [OF targetPairs_ok [OF assms(1)], of now "[]" ps]
    by (simp add: assms(2) TargetInfo_pairs)
  with ts show thesis
    using assms(1) that by (simp add: responseInfo_def WindowsTimeBytes_def av_list_def targetPairs_def
        names_ok_def LE32_def)
qed

lemma length_ComputeNTLMv2:
  "ComputeNTLMv2 h u d c blob = (response, base) \<Longrightarrow> length response = 16 + length blob \<and> length base = 16"
  by (auto simp: ComputeNTLMv2_def Let_def)

lemma length_NTLMv2Blob:
  "length cc = 8 \<Longrightarrow> length ts = 8 \<Longrightarrow> length (NTLMv2Blob cc ts info) = 32 + length info"
  by (simp add: NTLMv2Blob_def Let_def)

lemma exportedSessionKey_exchange:
  assumes "length base = 16" "length key = 16" "rc4_new base = Some c"
    and "a_Flags auth AND FlagKeyExch \<noteq> 0" "a_EncryptedRandomSessionKey auth = fst (rc4_xor c key)"
  shows "exportedSessionKey base auth = Inr key"
proof -
  have "length (fst (rc4_xor c key)) = 16" using assms(2) by (simp add: length_rc4_xor)
  moreover from this have "fst (rc4_xor c key) \<noteq> []" by auto
  moreover have "fst (rc4_xor c (fst (rc4_xor c key))) = key" by (simp add: rc4_xor_inverse)
  ultimately show ?thesis using assms by (simp add: exportedSessionKey_def)
qed

lemma rc4_new_16:
  assumes "length base = 16"
  shows "\<exists>st. rc4_new base = Some st"
proof -
  have "base \<noteq> []" using assms by auto
  then show ?thesis using assms by (simp add: rc4_new_def split: prod.split)
qed

lemma SetMIC_splice:
  obtains mic where "length mic = 16"
    "a_Raw (SetMIC (snd (Authenticate_Marshal a)) e n c) = splice (fst (Authenticate_Marshal a)) 72 mic"
proof -
  have m: "snd (Authenticate_Marshal a) = a\<lparr>a_micOffset := 72, a_Raw := fst (Authenticate_Marshal a)\<rparr>"
    "88 \<le> length (fst (Authenticate_Marshal a))"
    by (simp_all add: Authenticate_Marshal_def Let_def)
  have "splice (splice b 72 (replicate 16 0)) 72 x = splice b 72 x" if "length x = 16" "88 \<le> length b" for b x :: bytes
    using that by (simp add: splice_def)
  with m show thesis
    by (intro that [of "hmac md5 e (n @ c @ splice (fst (Authenticate_Marshal a)) 72 (replicate 16 0))"])
      (simp_all add: SetMIC_def Let_def)
qed

definition sentDomain :: "ServerConfig \<Rightarrow> ClientConfig \<Rightarrow> string" where
  "sentDomain scfg ccfg = (if cl_Domain ccfg = [] then sv_ComputerName scfg else cl_Domain ccfg)"

lemma clientAuthenticate_sent:
  assumes names: "names_ok scfg ccfg" and rnd: "random_ok rnd cc key nonce" and sc: "length sc = 8"
    and ch: "ch = (sentChallenge scfg sc now)\<lparr>ch_Raw := raw\<rparr>"
  obtains authRaw auth base where
    "clientAuthenticate md4 rnd now' ccfg negoRaw challengeRaw ch = Inr (authRaw, key)"
    "ParseAuthenticate authRaw = Inr auth" "a_User auth = cl_User ccfg" "a_Domain auth = sentDomain scfg ccfg"
    "VerifyNTLMv2 (NTHash md4 (cl_Password ccfg)) (cl_User ccfg) (sentDomain scfg ccfg) sc (a_NTResponse auth) = Some base"
    "length base = 16" "16 \<le> length (a_NTResponse auth)" "length (a_NTResponse auth) \<le> 1024"
    "exportedSessionKey base auth = Inr key" "length authRaw \<le> 2048"
proof -
  have fields: "ch_Flags ch = offeredFlags" "ch_ServerChallenge ch = sc"
    "ch_TargetInfo ch = TargetInfo (sv_ComputerName scfg) (sv_DomainName scfg) now"
    "clientDomain ccfg ch = sentDomain scfg ccfg"
    by (simp_all add: ch sentChallenge_def clientDomain_def sentDomain_def)
  obtain ts info where info: "responseInfo now' ccfg ch = (ts, True, info)" "length ts = 8" "length info \<le> 832"
    using responseInfo_sent [OF names fields(3)] by blast
  obtain response base where c: "ComputeNTLMv2 (NTHash md4 (cl_Password ccfg)) (cl_User ccfg)
      (sentDomain scfg ccfg) sc (NTLMv2Blob cc ts info) = (response, base)" by fastforce
  have len: "length response \<le> 880" "16 \<le> length response" "length base = 16"
    using length_ComputeNTLMv2 [OF c] rnd info by (simp_all add: length_NTLMv2Blob random_ok_def)
  obtain c4 where c4: "rc4_new base = Some c4" using rc4_new_16 [OF len(3)] by blast
  define a where "a = \<lparr>a_Flags = offeredFlags, a_Domain = sentDomain scfg ccfg, a_User = cl_User ccfg,
    a_Workstation = cl_Workstation ccfg, a_LMResponse = replicate 24 0, a_NTResponse = response,
    a_EncryptedRandomSessionKey = fst (rc4_xor c4 key), a_MIC = [], a_micOffset = 0, a_Raw = []\<rparr>"
  have keylen: "length (fst (rc4_xor c4 key)) = 16" using rnd by (simp add: length_rc4_xor random_ok_def)
  have dom: "valid_utf8 (sentDomain scfg ccfg)" "length (UTF16LE (sentDomain scfg ccfg)) \<le> 128"
    using names by (simp_all add: sentDomain_def names_ok_def)
  have ok: "authenticate_ok a"
    using names dom len keylen by (simp add: authenticate_ok_def a_def names_ok_def)
  obtain mic where mic: "length mic = 16" "a_Raw (SetMIC (snd (Authenticate_Marshal a)) key negoRaw challengeRaw) =
      splice (fst (Authenticate_Marshal a)) 72 mic" by (rule SetMIC_splice)
  have auth: "ParseAuthenticate (splice (fst (Authenticate_Marshal a)) 72 mic) = Inr ((parsed_authenticate a)
      \<lparr>a_MIC := mic, a_Raw := splice (fst (Authenticate_Marshal a)) 72 mic\<rparr>)" (is "_ = Inr ?auth")
    by (rule Authenticate_roundtrip_MIC [OF ok mic(1)])
  have parsed: "a_User ?auth = cl_User ccfg" "a_Domain ?auth = sentDomain scfg ccfg" "a_NTResponse ?auth = response"
    "a_Flags ?auth = offeredFlags OR FlagVersion" "a_EncryptedRandomSessionKey ?auth = fst (rc4_xor c4 key)"
    by (simp_all add: parsed_authenticate_def Authenticate_Marshal_def Let_def a_def)
  have size: "length (fst (Authenticate_Marshal a)) \<le> 2048" "88 \<le> length (fst (Authenticate_Marshal a))"
    using names dom len keylen by (simp_all add: Authenticate_Marshal_def Let_def a_def names_ok_def)
  show thesis
  proof (rule that [OF _ auth])
    show "clientAuthenticate md4 rnd now' ccfg negoRaw challengeRaw ch =
        Inr (splice (fst (Authenticate_Marshal a)) 72 mic, key)"
      using rnd flags_agreed c c4 mic(2) info
      by (simp add: clientAuthenticate_def fields random_ok_def clientKey_def a_def)
    show "exportedSessionKey base ?auth = Inr key"
      using exportedSessionKey_exchange [OF len(3) _ c4, of key ?auth] rnd flags_agreed
      by (simp only: parsed) (simp add: random_ok_def)
  qed (use parsed len size mic(1) VerifyNTLMv2_Compute [OF c] in simp_all)
qed

text \<open>
  The authorizer knows this client: it approves every response that verifies with the hash of the
  client's password, and answers with the session key the verification gives.
\<close>

definition approves ::
  "(bytes \<Rightarrow> bytes) \<Rightarrow> ServerConfig \<Rightarrow> ClientConfig \<Rightarrow> bytes \<Rightarrow> (bytes \<Rightarrow> AuthResult) \<Rightarrow> bool" where
  "approves md4 scfg ccfg sc res \<longleftrightarrow>
     (\<forall>req base. aq_User req = cl_User ccfg \<and> aq_Domain req = sentDomain scfg ccfg \<and>
        aq_ServerChallenge req = sc \<and> length (aq_NTResponse req) \<le> 1024 \<and>
        VerifyNTLMv2 (NTHash md4 (cl_Password ccfg)) (cl_User ccfg) (sentDomain scfg ccfg) sc
          (aq_NTResponse req) = Some base \<longrightarrow>
        sv_Authorize scfg req = Inr (res base) \<and> ar_SessionBaseKey (res base) = base)"

definition nlaStart :: "bytes \<Rightarrow> nat \<Rightarrow> nlaConn" where
  "nlaStart input n = \<lparr>nc_in = input, nc_out = [], nc_writes = n\<rparr>"

lemma length_marshalPasswordCreds:
  assumes "names_ok scfg ccfg"
  shows "length (marshalPasswordCreds (cl_Domain ccfg) (cl_User ccfg) (cl_Password ccfg)) \<le> 1600"
proof -
  let ?d = "UTF16LE (cl_Domain ccfg)" and ?u = "UTF16LE (cl_User ccfg)" and ?p = "UTF16LE (cl_Password ccfg)"
  have n: "length ?d \<le> 128" "length ?u \<le> 256" "length ?p \<le> 1024" using assms by (simp_all add: names_ok_def)
  have member: "length (der_explicit k (der_octets b)) \<le> 12 + length b" if "length b \<le> 9000" for k b
    using that length_der(1) [of b] length_der(3) [of "der_octets b" k] by simp
  define inner where "inner = der_seq (der_explicit 0 (der_octets ?d) @ der_explicit 1 (der_octets ?u) @
    der_explicit 2 (der_octets ?p))"
  have inner: "length inner \<le> 1450"
    using n member [of ?d 0] member [of ?u 1] member [of ?p 2]
      length_der(2) [of "der_explicit 0 (der_octets ?d) @ der_explicit 1 (der_octets ?u) @ der_explicit 2 (der_octets ?p)"]
    by (simp add: inner_def)
  have "length (der_explicit 0 (der_int 1)) = 5" by code_simp
  then have "length (der_explicit 0 (der_int 1) @ der_explicit 1 (der_octets inner)) \<le> 1480"
    using inner member [of inner 1] by simp
  then show ?thesis
    using length_der(2) [of "der_explicit 0 (der_int 1) @ der_explicit 1 (der_octets inner)"]
    by (simp add: marshalPasswordCreds_def Let_def inner_def)
qed

definition responseMsg :: "bytes \<Rightarrow> bytes \<Rightarrow> bytes \<Rightarrow> tsRequest" where
  "responseMsg authRaw pka nonce = (requestWithToken credsspVersion authRaw)\<lparr>ts_PubKeyAuth := pka, ts_ClientNonce := nonce\<rparr>"

lemma int64_ok_const: "int64_ok credsspVersion" "int64_ok 0"
  by (simp_all add: int64_ok_def credsspVersion_def)

lemma version_nonce: "nonceVersion \<le> credsspVersion"
  by (simp add: nonceVersion_def credsspVersion_def)

lemma clientBinding_length: "length nonce = 32 \<Longrightarrow> length (clientBinding credsspVersion nonce pk) = 32"
  and serverBinding_length: "length nonce = 32 \<Longrightarrow> length (serverBinding credsspVersion nonce pk) = 32"
  by (auto simp: clientBinding_def serverBinding_def credsspVersion_def nonceVersion_def bindingHash_def)

text \<open>The two ends from the session key on: each unwraps what the other wrapped.\<close>

lemma binding_run:
  assumes names: "names_ok scfg ccfg" and n: "length nonce = 32" and "length authRaw \<le> 2048"
    and key: "exportedSessionKey base auth = Inr key" "ar_SessionBaseKey res = base" "length base = 16"
    and w: "2 \<le> nc_writes cs" "0 < nc_writes ss"
  obtains pka reply creds where
    "tsRequest_ok (responseMsg authRaw pka nonce)"
    "dialBinding pk credsspVersion (Some nonce) ccfg authRaw key
       (cs\<lparr>nc_in := tsRequest_marshal ((emptyTSRequest credsspVersion)\<lparr>ts_PubKeyAuth := reply\<rparr>) @ x\<rparr>) =
     (Inr (), cs\<lparr>nc_in := x, nc_out := nc_out cs @ [tsRequest_marshal (responseMsg authRaw pka nonce),
        tsRequest_marshal ((emptyTSRequest credsspVersion)\<lparr>ts_AuthInfo := creds\<rparr>)], nc_writes := nc_writes cs - 2\<rparr>)"
    "serveBinding pk credsspVersion (responseMsg authRaw pka nonce) auth res
       (ss\<lparr>nc_in := tsRequest_marshal ((emptyTSRequest credsspVersion)\<lparr>ts_AuthInfo := creds\<rparr>) @ y\<rparr>) =
     (Inr res, ss\<lparr>nc_in := y, nc_out := nc_out ss @
        [tsRequest_marshal ((emptyTSRequest credsspVersion)\<lparr>ts_PubKeyAuth := reply\<rparr>)], nc_writes := nc_writes ss - 1\<rparr>)"
proof -
  obtain c0 s0 where sec: "NewSecurity key False = Some c0" "NewSecurity key True = Some s0" "paired c0 s0"
    using NewSecurity_paired by blast
  let ?cb = "clientBinding credsspVersion nonce pk" and ?sb = "serverBinding credsspVersion nonce pk"
  let ?pw = "marshalPasswordCreds (cl_Domain ccfg) (cl_User ccfg) (cl_Password ccfg)"
  obtain pka c1 where w1: "Wrap c0 ?cb = (pka, c1)" by fastforce
  from Unwrap_Wrap [OF sec(3) w1] obtain s1 where u1: "Unwrap s0 pka = (Inr ?cb, s1)" "paired s1 c1"
    using paired_sym by blast
  obtain reply s2 where w2: "Wrap s1 ?sb = (reply, s2)" by fastforce
  from Unwrap_Wrap [OF u1(2) w2] obtain c2 where u2: "Unwrap c1 reply = (Inr ?sb, c2)" "paired c2 s2"
    using paired_sym by blast
  obtain creds c3 where w3: "Wrap c2 ?pw = (creds, c3)" by fastforce
  from Unwrap_Wrap [OF u2(2) w3] obtain s3 where u3: "Unwrap s2 creds = (Inr ?pw, s3)" by blast
  have len: "length pka = 48" "length reply = 48" "length creds \<le> 1616"
    using length_Wrap [of c0 ?cb] length_Wrap [of s1 ?sb] length_Wrap [of c2 ?pw] w1 w2 w3
      clientBinding_length [OF n] serverBinding_length [OF n] length_marshalPasswordCreds [OF names]
    by simp_all
  note ne = Wrap_nonempty [OF w1] Wrap_nonempty [OF w2] Wrap_nonempty [OF w3]
  have ok: "tsRequest_ok (responseMsg authRaw pka nonce)"
      "tsRequest_ok ((emptyTSRequest credsspVersion)\<lparr>ts_PubKeyAuth := reply\<rparr>)"
      "tsRequest_ok ((emptyTSRequest credsspVersion)\<lparr>ts_AuthInfo := creds\<rparr>)"
    using len n assms(3)
    by (auto intro!: tsRequest_okI simp: responseMsg_def requestWithToken_def emptyTSRequest_def int64_ok_const)
  show thesis
  proof (rule that [of pka reply creds])
    show "dialBinding pk credsspVersion (Some nonce) ccfg authRaw key
       (cs\<lparr>nc_in := tsRequest_marshal ((emptyTSRequest credsspVersion)\<lparr>ts_PubKeyAuth := reply\<rparr>) @ x\<rparr>) =
     (Inr (), cs\<lparr>nc_in := x, nc_out := nc_out cs @ [tsRequest_marshal (responseMsg authRaw pka nonce),
        tsRequest_marshal ((emptyTSRequest credsspVersion)\<lparr>ts_AuthInfo := creds\<rparr>)], nc_writes := nc_writes cs - 2\<rparr>)"
      using w sec w1 u2 w3 ok ne
      by (simp add: dialBinding_def dialConfirm_def nbind_run version_nonce responseMsg_def writeTSRequest_def emptyTSRequest_def)
    show "serveBinding pk credsspVersion (responseMsg authRaw pka nonce) auth res
       (ss\<lparr>nc_in := tsRequest_marshal ((emptyTSRequest credsspVersion)\<lparr>ts_AuthInfo := creds\<rparr>) @ y\<rparr>) =
     (Inr res, ss\<lparr>nc_in := y, nc_out := nc_out ss @
        [tsRequest_marshal ((emptyTSRequest credsspVersion)\<lparr>ts_PubKeyAuth := reply\<rparr>)], nc_writes := nc_writes ss - 1\<rparr>)"
      using w sec key u1 w2 u3 ok ne
      by (simp add: serveBinding_def nbind_run serveDelegated_def nreturn_def responseMsg_def)
  qed (rule ok(1))
qed

lemma nbind_recv:
  "tsRequest_ok q \<Longrightarrow> nbind recvTS g \<lparr>nc_in = tsRequest_marshal q @ r, nc_out = out, nc_writes = n\<rparr> =
     g q \<lparr>nc_in = r, nc_out = out, nc_writes = n\<rparr>"
  by (simp add: nbind_def recvTS_def readTSRequest_marshal)

lemma token_request: "length t \<le> 2048 \<Longrightarrow> token (requestWithToken v t) = Inr t"
    "length t \<le> 2048 \<Longrightarrow> token (responseMsg t p n) = Inr t"
  and request_fields: "ts_Version (requestWithToken v t) = v" "ts_ErrorCode (requestWithToken v t) = 0"
  by (simp_all add: token_def requestWithToken_def responseMsg_def emptyTSRequest_def MaxNTLMMessage_def)

lemma requestWithToken_ok: "length t \<le> 2048 \<Longrightarrow> tsRequest_ok (requestWithToken credsspVersion t)"
  by (intro tsRequest_okI) (simp_all add: requestWithToken_def emptyTSRequest_def int64_ok_const)

definition sentNego :: bytes where
  "sentNego = fst (Negotiate_Marshal \<lparr>ng_Flags = negotiateFlags, ng_Raw = []\<rparr>)"

definition sentChallengeRaw :: "ServerConfig \<Rightarrow> bytes \<Rightarrow> int \<Rightarrow> bytes" where
  "sentChallengeRaw cfg sc now = fst (Challenge_Marshal (sentChallenge cfg sc now))"

lemma sentNego_parsed:
  "length sentNego \<le> 2048" "\<exists>n. ParseNegotiate sentNego = Inr n \<and> ng_Flags n = negotiateFlags"
  using Negotiate_roundtrip [of "\<lparr>ng_Flags = negotiateFlags, ng_Raw = []\<rparr>"]
  unfolding sentNego_def Negotiate_Marshal_def Let_def by simp_all

lemma sentChallengeRaw_parsed:
  assumes "names_ok cfg ccfg" "length sc = 8"
  shows "length (sentChallengeRaw cfg sc now) \<le> 2048"
    "ParseChallenge (sentChallengeRaw cfg sc now) =
       Inr ((sentChallenge cfg sc now)\<lparr>ch_Raw := sentChallengeRaw cfg sc now\<rparr>)"
proof -
  let ?ch = "sentChallenge cfg sc now"
  have "challenge_ok ?ch"
    using assms length_TargetInfo [OF assms(1), of now] by (simp add: sentChallenge_def challenge_ok_def names_ok_def)
  from Challenge_roundtrip [OF this]
  show "ParseChallenge (sentChallengeRaw cfg sc now) = Inr (?ch\<lparr>ch_Raw := sentChallengeRaw cfg sc now\<rparr>)"
    by (simp add: sentChallengeRaw_def Challenge_Marshal_def Let_def)
  show "length (sentChallengeRaw cfg sc now) \<le> 2048"
    using assms length_TargetInfo [OF assms(1), of now]
    by (simp add: sentChallengeRaw_def Challenge_Marshal_def Let_def sentChallenge_def names_ok_def)
qed

lemma dial_prefix:
  assumes "names_ok scfg ccfg" "length sc = 8" "PublicKey (cl_Certificate ccfg) = Inr pk" "0 < n"
    and "clientAuthenticate md4 rnd now' ccfg sentNego (sentChallengeRaw scfg sc now)
      ((sentChallenge scfg sc now)\<lparr>ch_Raw := sentChallengeRaw scfg sc now\<rparr>) = Inr (authRaw, key)"
  shows "DialNLA md4 rnd now' ccfg
      (nlaStart (tsRequest_marshal (requestWithToken credsspVersion (sentChallengeRaw scfg sc now)) @ r) n) =
    dialBinding pk credsspVersion (rn_nonce rnd) ccfg authRaw key
      \<lparr>nc_in = r, nc_out = [tsRequest_marshal (requestWithToken credsspVersion sentNego)], nc_writes = n - 1\<rparr>"
  using assms sentChallengeRaw_parsed [OF assms(1,2), of now]
  by (simp add: DialNLA_def nlaStart_def nbind_run nbind_recv requestWithToken_ok token_request request_fields
      flip: sentNego_def)

lemma serve_prefix:
  assumes "names_ok scfg ccfg" "length sc = 8" "PublicKey (sv_Certificate scfg) = Inr pk" "0 < n"
    and "tsRequest_ok (responseMsg authRaw pka nonce)" "length authRaw \<le> 2048" "ParseAuthenticate authRaw = Inr a"
    and "16 \<le> length (a_NTResponse a)" "length (a_NTResponse a) \<le> 1024"
    and "sv_Authorize scfg (authRequest (sentChallenge scfg sc now) a) = Inr res"
  shows "ServeNLA (Some sc) now scfg (nlaStart (tsRequest_marshal (requestWithToken credsspVersion sentNego) @
      tsRequest_marshal (responseMsg authRaw pka nonce) @ r) n) =
    serveBinding pk credsspVersion (responseMsg authRaw pka nonce) a res
      \<lparr>nc_in = r, nc_out = [tsRequest_marshal (requestWithToken credsspVersion (sentChallengeRaw scfg sc now))],
       nc_writes = n - 1\<rparr>"
  using assms sentNego_parsed
  by (auto simp: ServeNLA_def serveResponse_def nlaStart_def nbind_run nbind_recv requestWithToken_ok token_request
      request_fields buildChallenge_sent MaxNTLMMessage_def sentChallengeRaw_def)

lemma nla_handshake_run:
  assumes names: "names_ok scfg ccfg" and rnd: "random_ok rnd cc key nonce" and sc: "length sc = 8"
    and cert: "sv_Certificate scfg = cl_Certificate ccfg" "PublicKey (cl_Certificate ccfg) = Inr pk"
    and approves: "approves md4 scfg ccfg sc res" and w: "3 \<le> cn" "2 \<le> sn"
  shows "\<exists>base c1 c2 c3 s1 s2.
    DialNLA md4 rnd now' ccfg (nlaStart (s1 @ s2 @ x) cn) =
      (Inr (), \<lparr>nc_in = x, nc_out = [c1, c2, c3], nc_writes = cn - 3\<rparr>) \<and>
    ServeNLA (Some sc) now scfg (nlaStart (c1 @ c2 @ c3 @ y) sn) =
      (Inr (res base), \<lparr>nc_in = y, nc_out = [s1, s2], nc_writes = sn - 2\<rparr>)"
proof -
  obtain authRaw a base where
    ca: "clientAuthenticate md4 rnd now' ccfg sentNego (sentChallengeRaw scfg sc now)
      ((sentChallenge scfg sc now)\<lparr>ch_Raw := sentChallengeRaw scfg sc now\<rparr>) = Inr (authRaw, key)"
    and pa: "ParseAuthenticate authRaw = Inr a" "a_User a = cl_User ccfg" "a_Domain a = sentDomain scfg ccfg"
      "VerifyNTLMv2 (NTHash md4 (cl_Password ccfg)) (cl_User ccfg) (sentDomain scfg ccfg) sc (a_NTResponse a) = Some base"
      "length base = 16" "16 \<le> length (a_NTResponse a)" "length (a_NTResponse a) \<le> 1024"
      "exportedSessionKey base a = Inr key" "length authRaw \<le> 2048"
    by (rule clientAuthenticate_sent [OF names rnd sc refl])
  have res: "sv_Authorize scfg (authRequest (sentChallenge scfg sc now) a) = Inr (res base)"
    "ar_SessionBaseKey (res base) = base"
    using approves [unfolded approves_def, rule_format, of "authRequest (sentChallenge scfg sc now) a" base] pa
    by (simp_all add: authRequest_def sentChallenge_def)
  let ?cs = "\<lparr>nc_in = [], nc_out = [tsRequest_marshal (requestWithToken credsspVersion sentNego)], nc_writes = cn - 1\<rparr>"
  let ?ss = "\<lparr>nc_in = [], nc_out = [tsRequest_marshal (requestWithToken credsspVersion (sentChallengeRaw scfg sc now))],
    nc_writes = sn - 1\<rparr>"
  have nonce: "length nonce = 32" "rn_nonce rnd = Some nonce" and writes: "2 \<le> nc_writes ?cs" "0 < nc_writes ?ss"
    using rnd w by (simp_all add: random_ok_def)
  obtain pka reply creds where b: "tsRequest_ok (responseMsg authRaw pka nonce)"
    "dialBinding pk credsspVersion (Some nonce) ccfg authRaw key
       (?cs\<lparr>nc_in := tsRequest_marshal ((emptyTSRequest credsspVersion)\<lparr>ts_PubKeyAuth := reply\<rparr>) @ x\<rparr>) =
     (Inr (), ?cs\<lparr>nc_in := x, nc_out := nc_out ?cs @ [tsRequest_marshal (responseMsg authRaw pka nonce),
        tsRequest_marshal ((emptyTSRequest credsspVersion)\<lparr>ts_AuthInfo := creds\<rparr>)], nc_writes := nc_writes ?cs - 2\<rparr>)"
    "serveBinding pk credsspVersion (responseMsg authRaw pka nonce) a (res base)
       (?ss\<lparr>nc_in := tsRequest_marshal ((emptyTSRequest credsspVersion)\<lparr>ts_AuthInfo := creds\<rparr>) @ y\<rparr>) =
     (Inr (res base), ?ss\<lparr>nc_in := y, nc_out := nc_out ?ss @
        [tsRequest_marshal ((emptyTSRequest credsspVersion)\<lparr>ts_PubKeyAuth := reply\<rparr>)], nc_writes := nc_writes ?ss - 1\<rparr>)"
    by (rule binding_run [OF names nonce(1) pa(9,8) res(2) pa(5) writes])
  let ?m1 = "tsRequest_marshal (requestWithToken credsspVersion sentNego)"
    and ?m2 = "tsRequest_marshal (requestWithToken credsspVersion (sentChallengeRaw scfg sc now))"
    and ?m3 = "tsRequest_marshal (responseMsg authRaw pka nonce)"
    and ?m4 = "tsRequest_marshal ((emptyTSRequest credsspVersion)\<lparr>ts_PubKeyAuth := reply\<rparr>)"
    and ?m5 = "tsRequest_marshal ((emptyTSRequest credsspVersion)\<lparr>ts_AuthInfo := creds\<rparr>)"
  have "0 < cn" "0 < sn" using w by simp_all
  note d = dial_prefix [OF names sc cert(2) \<open>0 < cn\<close> ca, of "?m4 @ x"]
    and s = serve_prefix [OF names sc cert(2) [folded cert(1)] \<open>0 < sn\<close> b(1) pa(9,1,6,7) res(1), of "?m5 @ y"]
  have "cn - 1 - 2 = cn - 3" "sn - 1 - 1 = sn - 2" by simp_all
  then have "DialNLA md4 rnd now' ccfg (nlaStart (?m2 @ ?m4 @ x) cn) =
      (Inr (), \<lparr>nc_in = x, nc_out = [?m1, ?m3, ?m5], nc_writes = cn - 3\<rparr>)"
    "ServeNLA (Some sc) now scfg (nlaStart (?m1 @ ?m3 @ ?m5 @ y) sn) =
      (Inr (res base), \<lparr>nc_in = y, nc_out = [?m2, ?m4], nc_writes = sn - 2\<rparr>)"
    using b(2,3) unfolding d s nonce(2) by simp_all
  then show ?thesis by blast
qed

lemma ServeNLA_success:
  assumes "ServeNLA rand now cfg s = (Inr res, s')"
  obtains pubKey first r1 challenge second r2 authRaw auth s1 where
    "PublicKey (sv_Certificate cfg) = Inr pubKey" "readTSRequest (nc_in s) = Inr (first, r1)"
    "rand = Some (ch_ServerChallenge challenge)" "readTSRequest r1 = Inr (second, r2)"
    "token second = Inr authRaw" "ParseAuthenticate authRaw = Inr auth"
    "sv_Authorize cfg (authRequest challenge auth) = Inr res" "nc_in s1 = r2"
    "nc_out s1 = nc_out s @ [tsRequest_marshal (requestWithToken (min (ts_Version first) credsspVersion)
       (fst (Challenge_Marshal challenge)))]"
    "serveBinding pubKey (min (ts_Version first) credsspVersion) second auth res s1 = (Inr res, s')"
proof -
  from assms obtain pubKey first r1 challenge and nego :: Negotiate where
    p: "PublicKey (sv_Certificate cfg) = Inr pubKey" "readTSRequest (nc_in s) = Inr (first, r1)"
      "buildChallenge rand now (ng_Flags nego) cfg = Inr challenge"
    and b: "serveResponse pubKey (min (ts_Version first) credsspVersion) challenge cfg
      (s\<lparr>nc_in := r1, nc_out := nc_out s @ [tsRequest_marshal
         (requestWithToken (min (ts_Version first) credsspVersion) (fst (Challenge_Marshal challenge)))],
         nc_writes := nc_writes s - 1\<rparr>) = (Inr res, s')"
    by (auto simp: ServeNLA_def nla_success Let_def)
  show thesis
    by (rule serveResponse_success [OF b]) (rule that [OF p(1,2) buildChallenge_Inr [OF p(3)]], simp_all)
qed

text \<open>
  Property C5. \<open>ServeNLA\<close> lets a client through only when two things hold. The authorizer approved
  the response the client gave to the challenge drawn for this very connection, and what the client
  sealed with the session key of that approval is the binding to the public key of the certificate
  this side presented, so the handshake was not relayed from another endpoint. The result is the
  authorizer's, and besides the challenge only the confirmation was written.
\<close>

theorem nla_server_sound:
  assumes "ServeNLA rand now cfg s = (Inr res, s')"
  shows "\<exists>pubKey first second third r1 r2 authRaw auth challenge exported sec m1 m2.
    PublicKey (sv_Certificate cfg) = Inr pubKey \<and>
    readTSRequest (nc_in s) = Inr (first, r1) \<and> readTSRequest r1 = Inr (second, r2) \<and>
    readTSRequest r2 = Inr (third, nc_in s') \<and>
    token second = Inr authRaw \<and> ParseAuthenticate authRaw = Inr auth \<and>
    rand = Some (ch_ServerChallenge challenge) \<and>
    sv_Authorize cfg (authRequest challenge auth) = Inr res \<and>
    exportedSessionKey (ar_SessionBaseKey res) auth = Inr exported \<and>
    NewSecurity exported True = Some sec \<and>
    fst (Unwrap sec (ts_PubKeyAuth second)) =
      Inr (clientBinding (min (ts_Version first) credsspVersion) (ts_ClientNonce second) pubKey) \<and>
    nc_out s' = nc_out s @ [m1, m2] \<and>
    m1 = tsRequest_marshal (requestWithToken (min (ts_Version first) credsspVersion) (fst (Challenge_Marshal challenge)))"
proof (rule ServeNLA_success [OF assms])
  fix pubKey first r1 challenge second r2 authRaw auth s1
  assume "PublicKey (sv_Certificate cfg) = Inr pubKey" "readTSRequest (nc_in s) = Inr (first, r1)"
    "rand = Some (ch_ServerChallenge challenge)" "readTSRequest r1 = Inr (second, r2)"
    "token second = Inr authRaw" "ParseAuthenticate authRaw = Inr auth"
    "sv_Authorize cfg (authRequest challenge auth) = Inr res" "nc_in s1 = r2"
    "nc_out s1 = nc_out s @ [tsRequest_marshal (requestWithToken (min (ts_Version first) credsspVersion)
       (fst (Challenge_Marshal challenge)))]"
    and b: "serveBinding pubKey (min (ts_Version first) credsspVersion) second auth res s1 = (Inr res, s')"
  with serveBinding_success [OF b] show ?thesis by auto
qed

text \<open>
  Property C33. The two halves fit together: a client that knows a password the authorizer accepts
  completes the handshake with the server whatever random bytes either draws. The messages the client
  writes are the ones the server reads, and the other way round; both ends return without error, the
  server with the authorizer's result, and whatever either peer sends afterwards is still unread.
\<close>

theorem nla_handshake_completes:
  assumes "names_ok scfg ccfg" "random_ok rnd cc key nonce" "length sc = 8"
    and "sv_Certificate scfg = cl_Certificate ccfg" "PublicKey (cl_Certificate ccfg) = Inr pk"
    and "approves md4 scfg ccfg sc res" "3 \<le> cn" "2 \<le> sn"
  shows "\<exists>base c1 c2 c3 s1 s2.
    DialNLA md4 rnd now' ccfg (nlaStart (s1 @ s2 @ x) cn) =
      (Inr (), \<lparr>nc_in = x, nc_out = [c1, c2, c3], nc_writes = cn - 3\<rparr>) \<and>
    ServeNLA (Some sc) now scfg (nlaStart (c1 @ c2 @ c3 @ y) sn) =
      (Inr (res base), \<lparr>nc_in = y, nc_out = [s1, s2], nc_writes = sn - 2\<rparr>)"
  using nla_handshake_run [OF assms] by blast

definition example_md4 :: "bytes \<Rightarrow> bytes" where
  "example_md4 b = md5 b"

definition example_res :: "bytes \<Rightarrow> AuthResult" where
  "example_res base = \<lparr>ar_SessionBaseKey = base, ar_Target = ''10.0.0.2:3389'', ar_RemoteUser = ''user'',
     ar_RemotePassword = ''secret''\<rparr>"

definition example_authorize :: "AuthRequest \<Rightarrow> credssp_error + AuthResult" where
  "example_authorize q =
     (case VerifyNTLMv2 (NTHash example_md4 ''pw'') (aq_User q) (aq_Domain q) (aq_ServerChallenge q) (aq_NTResponse q) of
        None \<Rightarrow> Inl (NotAuthorized [])
      | Some base \<Rightarrow> Inr (example_res base))"

definition example_server :: ServerConfig where
  "example_server = \<lparr>sv_Certificate = RSAKey 65 3, sv_ComputerName = ''dpipe'', sv_DomainName = ''DPIPE'',
     sv_Authorize = example_authorize\<rparr>"

definition example_client :: ClientConfig where
  "example_client = \<lparr>cl_Certificate = RSAKey 65 3, cl_SPN = ''TERMSRV/one'', cl_Domain = [], cl_User = ''one'',
     cl_Password = ''pw'', cl_Workstation = ''w''\<rparr>"

definition example_random :: clientRandom where
  "example_random = \<lparr>rn_challenge = Some (replicate 8 1), rn_key = Some (replicate 16 2),
     rn_nonce = Some (replicate 32 3)\<rparr>"

lemma example_nla:
  "names_ok example_server example_client" "random_ok example_random (replicate 8 1) (replicate 16 2) (replicate 32 3)"
  "approves example_md4 example_server example_client sc example_res"
  "PublicKey (cl_Certificate example_client) = Inr (der_seq (der_int 65 @ der_int 3))"
  "sv_Certificate example_server = cl_Certificate example_client"
proof -
  have v: "list_all valid_utf8 [''dpipe'', [], ''one'', ''w'']" by code_simp
  have l: "list_all (\<lambda>s. length (UTF16LE s) \<le> 128) [''dpipe'', ''DPIPE'', [], ''w'', ''one'', ''TERMSRV/one'', ''pw'']"
    by code_simp
  from v l show "names_ok example_server example_client"
    by (simp add: names_ok_def example_server_def example_client_def)
  show "approves example_md4 example_server example_client sc example_res"
    by (simp add: approves_def example_server_def example_client_def example_authorize_def example_res_def)
qed (simp_all add: random_ok_def example_random_def PublicKey_def example_client_def example_server_def)

theorem nla_handshake_completes_witness:
  "\<exists>base c1 c2 c3 s1 s2.
    DialNLA example_md4 example_random 0 example_client (nlaStart (s1 @ s2 @ []) 3) =
      (Inr (), \<lparr>nc_in = [], nc_out = [c1, c2, c3], nc_writes = 0\<rparr>) \<and>
    ServeNLA (Some (replicate 8 7)) 0 example_server (nlaStart (c1 @ c2 @ c3 @ []) 2) =
      (Inr (example_res base), \<lparr>nc_in = [], nc_out = [s1, s2], nc_writes = 0\<rparr>)"
  using nla_handshake_completes [OF example_nla(1,2) _ example_nla(5,4,3), of "replicate 8 7" 3 2 0 "[]" 0 "[]"]
  by simp

theorem nla_server_sound_witness:
  "\<exists>s s' base. ServeNLA (Some (replicate 8 7)) 0 example_server s = (Inr (example_res base), s') \<and>
     (\<exists>challenge auth. ch_ServerChallenge challenge = replicate 8 7 \<and>
        example_authorize (authRequest challenge auth) = Inr (example_res base))"
proof -
  obtain base s s' where run: "ServeNLA (Some (replicate 8 7)) 0 example_server s = (Inr (example_res base), s')"
    using nla_handshake_run [OF example_nla(1,2) _ example_nla(5,4,3), of "replicate 8 7" 3 2 0 "[]" 0 "[]"] by auto
  from nla_server_sound [OF run] obtain challenge auth where
    c: "Some (replicate 8 7) = Some (ch_ServerChallenge challenge)"
      "sv_Authorize example_server (authRequest challenge auth) = Inr (example_res base)" by blast
  have "ch_ServerChallenge challenge = replicate 8 7" using c(1) by simp
  moreover have "example_authorize (authRequest challenge auth) = Inr (example_res base)"
    using c(2) by (simp add: example_server_def)
  ultimately show ?thesis by (intro exI conjI) (rule run)
qed

section \<open>What the client gives away\<close>

text \<open>How many messages a computation writes when it succeeds and when it fails.\<close>

definition writes :: "nat \<Rightarrow> nat \<Rightarrow> 'a nla \<Rightarrow> bool" where
  "writes k l m \<longleftrightarrow> (\<forall>s r s'. m s = (r, s') \<longrightarrow>
     (\<exists>ms. nc_out s' = nc_out s @ ms \<and> length ms \<le> (case r of Inl _ \<Rightarrow> l | Inr _ \<Rightarrow> k)))"

lemma writes_intros:
  "writes 0 0 (nlift x)" "writes 0 0 (nfail e)" "writes 0 0 recvTS" "writes 1 0 (writeTSRequest q)"
  by (auto simp: writes_def nlift_def nfail_def recvTS_def writeTSRequest_def split: sum.splits)

lemma writes_nbind:
  assumes "writes k l m" "\<And>x. writes k' l' (f x)"
  shows "writes (k + k') (max l (k + l')) (nbind m f)"
  unfolding writes_def
proof (intro allI impI)
  fix s r s'
  assume run: "nbind m f s = (r, s')"
  obtain r1 s1 where m: "m s = (r1, s1)" by fastforce
  then obtain ms where ms: "nc_out s1 = nc_out s @ ms" "length ms \<le> (case r1 of Inl _ \<Rightarrow> l | Inr _ \<Rightarrow> k)"
    using assms(1) unfolding writes_def by blast
  show "\<exists>ms. nc_out s' = nc_out s @ ms \<and> length ms \<le> (case r of Inl _ \<Rightarrow> max l (k + l') | Inr _ \<Rightarrow> k + k')"
  proof (cases r1)
    case (Inl e)
    then show ?thesis using run m ms by (auto simp: nbind_def)
  next
    case (Inr x)
    then have "f x s1 = (r, s')" using run m by (simp add: nbind_def)
    then obtain ns where "nc_out s' = nc_out s1 @ ns" "length ns \<le> (case r of Inl _ \<Rightarrow> l' | Inr _ \<Rightarrow> k')"
      using assms(2) unfolding writes_def by blast
    with ms Inr show ?thesis by (cases r) auto
  qed
qed

lemma writes_mono:
  assumes "writes k l m" "k \<le> k'" "l \<le> l'"
  shows "writes k' l' m"
  unfolding writes_def
proof (intro allI impI)
  fix s r s'
  assume "m s = (r, s')"
  then obtain ms where "nc_out s' = nc_out s @ ms" "length ms \<le> (case r of Inl _ \<Rightarrow> l | Inr _ \<Rightarrow> k)"
    using assms(1) unfolding writes_def by blast
  then show "\<exists>ms. nc_out s' = nc_out s @ ms \<and> length ms \<le> (case r of Inl _ \<Rightarrow> l' | Inr _ \<Rightarrow> k')"
    using assms(2,3) by (intro exI [of _ ms]) (cases r; simp)
qed

lemma writes_dialConfirm: "writes 1 0 (dialConfirm pk v nonce cfg sec)"
proof -
  have "writes (0 + 1) (max 0 (0 + 0)) (dialConfirm pk v nonce cfg sec)"
    unfolding dialConfirm_def using writes_mono [OF writes_intros(2), of 1 0] writes_intros(4)
    by (intro writes_nbind writes_intros) (auto split: prod.split sum.split)
  then show ?thesis by simp
qed

lemma writes_dialBinding: "writes 2 1 (dialBinding pk v rand cfg authRaw key)"
proof (cases "NewSecurity key False")
  case None
  then show ?thesis using writes_intros(2) by (auto simp: dialBinding_def intro: writes_mono)
next
  case (Some sec)
  have "writes (1 + 1) (max 0 (1 + 0)) (case Wrap sec x of (p, sec) \<Rightarrow>
      nbind (writeTSRequest (q p)) (\<lambda>_. dialConfirm pk v nonce cfg sec))" for x q nonce
    by (cases "Wrap sec x") (simp only: prod.case, intro writes_nbind writes_intros writes_dialConfirm)
  then have "writes (0 + (1 + 1)) (max 0 (0 + max 0 (1 + 0))) (dialBinding pk v rand cfg authRaw key)"
    unfolding dialBinding_def Some option.case Let_def by (intro writes_nbind writes_intros)
  then show ?thesis by (simp add: numeral_2_eq_2)
qed

lemma writes_DialNLA: "writes 3 2 (DialNLA md4 rnd now cfg)"
proof -
  have lift: "writes 2 1 (nbind (nlift x) f)" if "\<And>y. writes 2 1 (f y)" for x and f :: "'b \<Rightarrow> unit nla"
    using writes_nbind [OF writes_intros(1) that] by (simp add: numeral_2_eq_2)
  have recv: "writes 2 1 (nbind recvTS f)" if "\<And>y. writes 2 1 (f y)" for f :: "tsRequest \<Rightarrow> unit nla"
    using writes_nbind [OF writes_intros(3) that] by (simp add: numeral_2_eq_2)
  have "writes (0 + (1 + 2)) (max 0 (0 + max 0 (1 + 1))) (DialNLA md4 rnd now cfg)"
    unfolding DialNLA_def Let_def
    by (intro writes_nbind writes_intros recv)
      (auto simp del: One_nat_def intro!: lift writes_dialBinding writes_mono [OF writes_intros(2), of 2 1] split: prod.split)
  then show ?thesis by (simp add: numeral_2_eq_2 numeral_3_eq_3)
qed

lemma dialConfirm_success:
  assumes "dialConfirm pk v nonce cfg sec s = (Inr u, s')"
  shows "\<exists>confirm sec' creds. readTSRequest (nc_in s) = Inr (confirm, nc_in s') \<and> ts_ErrorCode confirm = 0 \<and>
    Unwrap sec (ts_PubKeyAuth confirm) = (Inr (serverBinding v nonce pk), sec') \<and>
    creds = fst (Wrap sec' (marshalPasswordCreds (cl_Domain cfg) (cl_User cfg) (cl_Password cfg))) \<and>
    nc_out s' = nc_out s @ [tsRequest_marshal ((emptyTSRequest v)\<lparr>ts_AuthInfo := creds\<rparr>)]"
proof -
  from assms obtain confirm rest where c: "readTSRequest (nc_in s) = Inr (confirm, rest)"
    by (auto simp: dialConfirm_def nla_success)
  obtain got sec' where u: "Unwrap sec (ts_PubKeyAuth confirm) = (got, sec')" by fastforce
  from assms c u show ?thesis
    by (cases got) (auto simp: dialConfirm_def nla_success split: if_splits)
qed

text \<open>
  Further result. The client delegates the password only to a server that has proved the session key.
  When \<open>DialNLA\<close> succeeds, the confirmation it read carries no error and unwraps, under the key the two
  ends derived from the password, to the server's binding to the public key of the certificate the
  server presented; the messages written are the negotiation, the response and, third, the delegated
  credentials. When it fails it has written at most two messages, so never that third one.
\<close>

theorem nla_client_sound:
  assumes "DialNLA md4 rnd now cfg s = (r, s')"
  shows "case r of
      Inl e \<Rightarrow> \<exists>ms. nc_out s' = nc_out s @ ms \<and> length ms \<le> 2
    | Inr _ \<Rightarrow> \<exists>pubKey version nonce exported sec sec1 confirm rest sec2 pka authRaw.
        PublicKey (cl_Certificate cfg) = Inr pubKey \<and> NewSecurity exported False = Some sec \<and>
        Wrap sec (clientBinding version nonce pubKey) = (pka, sec1) \<and>
        readTSRequest rest = Inr (confirm, nc_in s') \<and> ts_ErrorCode confirm = 0 \<and>
        Unwrap sec1 (ts_PubKeyAuth confirm) = (Inr (serverBinding version nonce pubKey), sec2) \<and>
        nc_out s' = nc_out s @
          [tsRequest_marshal (requestWithToken credsspVersion sentNego),
           tsRequest_marshal ((requestWithToken version authRaw)\<lparr>ts_PubKeyAuth := pka, ts_ClientNonce := nonce\<rparr>),
           tsRequest_marshal ((emptyTSRequest version)\<lparr>ts_AuthInfo := fst (Wrap sec2
             (marshalPasswordCreds (cl_Domain cfg) (cl_User cfg) (cl_Password cfg)))\<rparr>)]"
proof (cases r)
  case (Inl e)
  then show ?thesis using writes_DialNLA [of md4 rnd now cfg] assms unfolding writes_def by fastforce
next
  case (Inr u)
  from assms Inr obtain pubKey version authRaw exported rest where
    p: "PublicKey (cl_Certificate cfg) = Inr pubKey"
    and b: "dialBinding pubKey version (rn_nonce rnd) cfg authRaw exported
      (s\<lparr>nc_out := nc_out s @ [tsRequest_marshal (requestWithToken credsspVersion sentNego)],
         nc_writes := nc_writes s - 1, nc_in := rest\<rparr>) = (Inr u, s')"
    by (auto simp: DialNLA_def nla_success Let_def split: if_splits prod.splits simp flip: sentNego_def)
  from b obtain sec where sec: "NewSecurity exported False = Some sec"
    by (auto simp: dialBinding_def nla_success split: option.splits)
  with b obtain nonce where n: "(let (pka, sec1) = Wrap sec (clientBinding version nonce pubKey) in
      nbind (writeTSRequest ((requestWithToken version authRaw)\<lparr>ts_PubKeyAuth := pka, ts_ClientNonce := nonce\<rparr>))
        (\<lambda>_. dialConfirm pubKey version nonce cfg sec1))
      (s\<lparr>nc_out := nc_out s @ [tsRequest_marshal (requestWithToken credsspVersion sentNego)],
         nc_writes := nc_writes s - 1, nc_in := rest\<rparr>) = (Inr u, s')"
    unfolding dialBinding_def sec option.case nla_success(1,2) by blast
  obtain pka sec1 where w: "Wrap sec (clientBinding version nonce pubKey) = (pka, sec1)" by fastforce
  with n have c: "dialConfirm pubKey version nonce cfg sec1
      (s\<lparr>nc_in := rest, nc_out := nc_out s @ [tsRequest_marshal (requestWithToken credsspVersion sentNego),
        tsRequest_marshal ((requestWithToken version authRaw)\<lparr>ts_PubKeyAuth := pka, ts_ClientNonce := nonce\<rparr>)],
        nc_writes := nc_writes s - 1 - 1\<rparr>) = (Inr u, s')"
    by (simp add: nla_success Let_def)
  obtain confirm sec2 where k: "readTSRequest rest = Inr (confirm, nc_in s')" "ts_ErrorCode confirm = 0"
    "Unwrap sec1 (ts_PubKeyAuth confirm) = (Inr (serverBinding version nonce pubKey), sec2)"
    "nc_out s' = nc_out s @ [tsRequest_marshal (requestWithToken credsspVersion sentNego),
       tsRequest_marshal ((requestWithToken version authRaw)\<lparr>ts_PubKeyAuth := pka, ts_ClientNonce := nonce\<rparr>),
       tsRequest_marshal ((emptyTSRequest version)\<lparr>ts_AuthInfo := fst (Wrap sec2
         (marshalPasswordCreds (cl_Domain cfg) (cl_User cfg) (cl_Password cfg)))\<rparr>)]"
    using dialConfirm_success [OF c] by auto
  from p sec w k show ?thesis unfolding Inr sum.case by (intro exI conjI)
qed

theorem nla_client_sound_witness:
  "\<exists>s s'. DialNLA example_md4 example_random 0 example_client s = (Inr (), s') \<and> length (nc_out s') = 3 + length (nc_out s)"
proof -
  obtain s s' where run: "DialNLA example_md4 example_random 0 example_client s = (Inr (), s')"
    using nla_handshake_run [OF example_nla(1,2) _ example_nla(5,4,3), of "replicate 8 7" 3 2 0 "[]" 0 "[]"] by auto
  from nla_client_sound [OF run] have "length (nc_out s') = 3 + length (nc_out s)" by auto
  with run show ?thesis by blast
qed

end
