(* ===== verification/Go_Net.thy ===== *)
theory Go_Net
  imports Go_Prelude
begin

text \<open>
  Host and port strings: \<open>net.SplitHostPort\<close> and \<open>net.JoinHostPort\<close> as Go defines
  them, and the round trip between the two.
\<close>

fun last_index :: "'a \<Rightarrow> 'a list \<Rightarrow> nat option" where
  "last_index c [] = None"
| "last_index c (x # xs) =
     (case last_index c xs of
        Some i \<Rightarrow> Some (Suc i)
      | None \<Rightarrow> if x = c then Some 0 else None)"

fun index_char :: "'a \<Rightarrow> 'a list \<Rightarrow> nat option" where
  "index_char c [] = None"
| "index_char c (x # xs) = (if x = c then Some 0 else map_option Suc (index_char c xs))"

lemma last_index_None [simp]: "last_index c s = None \<longleftrightarrow> c \<notin> set s"
  by (induction s) (auto split: option.split)

lemma index_char_None [simp]: "index_char c s = None \<longleftrightarrow> c \<notin> set s"
  by (induction s) auto

lemma index_char_append:
  "c \<notin> set a \<Longrightarrow> index_char c (a @ c # b) = Some (length a)"
  by (induction a) auto

lemma last_index_append:
  "c \<notin> set b \<Longrightarrow> last_index c (a @ c # b) = Some (length a)"
  by (induction a) (simp_all add: last_index_None [THEN iffD2])

lemma last_index_SomeD:
  "last_index c s = Some i \<Longrightarrow> s = take i s @ c # drop (Suc i) s \<and> c \<notin> set (drop (Suc i) s)"
  by (induction s arbitrary: i) (auto split: option.splits if_splits)

text \<open>
  \<open>SplitHostPort\<close>: the port starts after the last colon; a leading bracket must close
  right before that colon, and no other bracket may occur.
\<close>

definition split_host_port :: "string \<Rightarrow> (string \<times> string) option" where
  "split_host_port hp =
     (case last_index (CHR '':'') hp of
        None \<Rightarrow> None
      | Some i \<Rightarrow>
          if hp \<noteq> [] \<and> hd hp = CHR ''['' then
            (case index_char (CHR '']'') hp of
               None \<Rightarrow> None
             | Some e \<Rightarrow>
                 if e + 1 = length hp \<or> e + 1 \<noteq> i then None
                 else if CHR ''['' \<in> set (drop 1 hp) \<or> CHR '']'' \<in> set (drop (e + 1) hp) then None
                 else Some (drop 1 (take e hp), drop (i + 1) hp))
          else if CHR '':'' \<in> set (take i hp) then None
          else if CHR ''['' \<in> set hp \<or> CHR '']'' \<in> set hp then None
          else Some (take i hp, drop (i + 1) hp))"

definition join_host_port :: "string \<Rightarrow> string \<Rightarrow> string" where
  "join_host_port host port =
     (if CHR '':'' \<in> set host then ''['' @ host @ '']:'' @ port else host @ '':'' @ port)"

lemma split_join_host_port:
  assumes "CHR '':'' \<notin> set port" and "set port \<inter> {CHR ''['', CHR '']''} = {}"
    and "set host \<inter> {CHR ''['', CHR '']''} = {}"
  shows "split_host_port (join_host_port host port) = Some (host, port)"
proof (cases "CHR '':'' \<in> set host")
  case True
  have li: "last_index (CHR '':'') (CHR ''['' # host @ CHR '']'' # CHR '':'' # port)
      = Some (length host + 2)"
    using last_index_append [OF assms(1), of "CHR ''['' # host @ [CHR '']'']"] by simp
  have ic: "index_char (CHR '']'') (CHR ''['' # host @ CHR '']'' # CHR '':'' # port)
      = Some (length host + 1)"
    using index_char_append [of "CHR '']''" "CHR ''['' # host" "CHR '':'' # port"] assms(3) by auto
  have hp: "join_host_port host port = CHR ''['' # host @ CHR '']'' # CHR '':'' # port"
    using True by (simp add: join_host_port_def)
  from assms show ?thesis
    unfolding hp split_host_port_def li ic by auto
next
  case False
  have "last_index (CHR '':'') (host @ CHR '':'' # port) = Some (length host)"
    by (rule last_index_append [OF assms(1)])
  moreover have "host @ CHR '':'' # port = [] \<or> hd (host @ CHR '':'' # port) \<noteq> CHR ''[''"
    using assms(3) by (cases host) auto
  ultimately show ?thesis
    using False assms by (auto simp: split_host_port_def join_host_port_def)
qed

lemma is_digit_not_host_delim:
  "is_digit c \<Longrightarrow> c \<noteq> CHR '':'' \<and> c \<noteq> CHR ''['' \<and> c \<noteq> CHR '']'' \<and> c \<noteq> CHR ''.'' \<and> c \<noteq> CHR ''-''"
  by (auto simp: is_digit_def)

lemma split_join_port_number:
  assumes "0 \<le> p" and "set host \<inter> {CHR ''['', CHR '']''} = {}"
  shows "split_host_port (join_host_port host (itoa p)) = Some (host, itoa p)"
proof (rule split_join_host_port)
  have digits: "is_digit c" if "c \<in> set (itoa p)" for c
    using itoa_digits [OF assms(1) that] .
  show "CHR '':'' \<notin> set (itoa p)"
    using digits is_digit_not_host_delim by blast
  show "set (itoa p) \<inter> {CHR ''['', CHR '']''} = {}"
    using digits is_digit_not_host_delim by blast
  show "set host \<inter> {CHR ''['', CHR '']''} = {}" by (rule assms(2))
qed

end
