(* ===== verification/Httpsniff.thy ===== *)
theory Httpsniff
  imports Go_Net
begin

text \<open>
  The HTTP header sniffer (\<open>backstage/dproxy/internal/httpsniff/httpsniff.go\<close>, the same
  file as in \<open>dpipe\<close>): it reads a connection until the blank line that ends the header
  block and extracts the host the request names.

  A connection is the sequence of results its \<open>Read\<close> calls will give, each some bytes and
  an optional error. \<^term>\<open>None\<close> as the result of the read loop means that the loop is
  still waiting for the next read when the sequence ends.
\<close>

section \<open>Model\<close>

datatype read_error = EOF | ReadFailed string

datatype sniff_error = ErrTooLarge | ErrMalformed | ErrNoHost | ErrRead read_error

type_synonym reads = "(bytes \<times> read_error option) list"

definition terminator :: bytes where
  "terminator = [13, 10, 13, 10]"

definition DefaultMaxBytes :: int where
  "DefaultMaxBytes = 65536"

definition authorityFromTarget :: "string \<Rightarrow> string" where
  "authorityFromTarget target =
     (case index_of target ''://'' of
        None \<Rightarrow> []
      | Some i \<Rightarrow>
          let rest = takeWhile (\<lambda>c. c \<notin> set ''/?#'') (drop (i + 3) target)
          in case last_index (CHR ''@'') rest of
               None \<Rightarrow> rest
             | Some at \<Rightarrow> drop (at + 1) rest)"

definition normalizeHost :: "string \<Rightarrow> string" where
  "normalizeHost h0 =
     (let h = trim_space h0 in
      if h = [] then []
      else let h = (case split_host_port h of Some (host, _) \<Rightarrow> host | None \<Rightarrow> h);
               h = trim_suffix h ''.'';
               h = trim h ''[]''
           in to_lower h)"

text \<open>The loop over the header lines after the request line.\<close>

fun hostFromLines :: "string list \<Rightarrow> string option" where
  "hostFromLines [] = None"
| "hostFromLines (line # ls) =
     (case cut line '':'' of
        None \<Rightarrow> hostFromLines ls
      | Some (name, value) \<Rightarrow>
          if \<not> equal_fold (trim_space name) ''host'' then hostFromLines ls
          else let h = normalizeHost (trim_space value)
               in if h \<noteq> [] then Some h else hostFromLines ls)"

definition crlf :: string where
  "crlf = [CHR 0x0D, CHR 0x0A]"

definition ParseHost :: "bytes \<Rightarrow> sniff_error + string" where
  "ParseHost header =
     (let lines = split_str (trim_right (of_bytes header) crlf) crlf in
      if lines = [] \<or> hd lines = [] then Inl ErrMalformed
      else let parts = fields (hd lines) in
        if length parts < 3 \<or> \<not> has_prefix (parts ! 2) ''HTTP/1.'' then Inl ErrMalformed
        else let h = authorityFromTarget (parts ! 1) in
          if h \<noteq> [] then Inr (normalizeHost h)
          else case hostFromLines (tl lines) of
                 Some h \<Rightarrow> Inr h
               | None \<Rightarrow> Inl ErrNoHost)"

text \<open>
  One round of the loop appends what was read and searches for the terminator from three
  bytes before the place the previous search reached.
\<close>

fun readHeaderLoop ::
  "reads \<Rightarrow> bytes \<Rightarrow> nat \<Rightarrow> int \<Rightarrow> (bytes \<times> (sniff_error + string)) option" where
  "readHeaderLoop [] buf searched limit = None"
| "readHeaderLoop ((chunk, err) # reads) buf searched limit =
     (let buf' = buf @ chunk;
          from = searched - (length terminator - 1);
          end = (if chunk \<noteq> []
                 then map_option (\<lambda>i. from + i + length terminator)
                        (index_of (drop from buf') terminator)
                 else None);
          searched' = (if chunk \<noteq> [] then length buf' else searched)
      in case end of
           Some e \<Rightarrow>
             if int e > limit then Some (buf', Inl ErrTooLarge)
             else Some (buf', ParseHost (take e buf'))
         | None \<Rightarrow>
             if int (length buf') > limit then Some (buf', Inl ErrTooLarge)
             else case err of
                    Some EOF \<Rightarrow> Some (buf', Inl ErrMalformed)
                  | Some e \<Rightarrow> Some (buf', Inl (ErrRead e))
                  | None \<Rightarrow> readHeaderLoop reads buf' searched' limit)"

definition ReadHeaderBlock ::
  "reads \<Rightarrow> int \<Rightarrow> (bytes \<times> (sniff_error + string)) option" where
  "ReadHeaderBlock reads limit =
     readHeaderLoop reads [] 0 (if limit \<le> 0 then DefaultMaxBytes else limit)"

section \<open>The incremental search finds the first terminator\<close>

definition stream :: "reads \<Rightarrow> bytes" where
  "stream reads = concat (map fst reads)"

lemma stream_simps [simp]: "stream [] = []" "stream ((c, e) # rs) = c @ stream rs"
  by (simp_all add: stream_def)

text \<open>
  What the loop keeps between rounds: the terminator does not occur in the bytes read so far,
  and everything read has been searched.
\<close>

definition searched_inv :: "bytes \<Rightarrow> nat \<Rightarrow> bool" where
  "searched_inv buf searched \<longleftrightarrow> index_of buf terminator = None \<and> searched = length buf"

lemma has_prefix_drop_append:
  assumes "has_prefix (drop j (s @ t)) p" and "j + length p \<le> length s"
  shows "has_prefix (drop j s) p"
  using assms by (simp add: has_prefix_def)

text \<open>Searching again from three bytes before the end of a terminator-free buffer is enough.\<close>

lemma index_of_resume:
  assumes none: "index_of buf sep = None" and "sep \<noteq> []"
  shows "index_of (buf @ chunk) sep
    = map_option ((+) (length buf - (length sep - 1)))
        (index_of (drop (length buf - (length sep - 1)) (buf @ chunk)) sep)"
proof -
  define start where "start = length buf - (length sep - 1)"
  have early: "\<not> has_prefix (drop j (buf @ chunk)) sep" if "j < start" for j
  proof
    assume "has_prefix (drop j (buf @ chunk)) sep"
    moreover have "j + length sep \<le> length buf"
      using that \<open>sep \<noteq> []\<close> by (cases sep) (auto simp: start_def)
    ultimately show False
      using has_prefix_drop_append index_of_None [OF none] by blast
  qed
  show ?thesis
  proof (cases "index_of (drop start (buf @ chunk)) sep")
    case None
    have "\<not> has_prefix (drop j (buf @ chunk)) sep" for j
    proof (cases "j < start")
      case True
      with early show ?thesis by blast
    next
      case False
      with index_of_None [OF None, of "j - start"] show ?thesis by (simp del: drop_append)
    qed
    then have "index_of (buf @ chunk) sep = None"
      using index_of_prefix by (metis not_Some_eq)
    with None show ?thesis by (simp add: start_def)
  next
    case (Some i)
    have hit: "has_prefix (drop (start + i) (buf @ chunk)) sep"
      using index_of_prefix [OF Some] by (simp add: add.commute del: drop_append)
    have le: "start + i \<le> length (buf @ chunk)"
      using index_of_length [OF Some] by (auto simp: start_def)
    have "\<not> has_prefix (drop j (buf @ chunk)) sep" if "j < start + i" for j
    proof (cases "j < start")
      case True
      with early show ?thesis by blast
    next
      case False
      with that index_of_least [OF Some, of "j - start"] show ?thesis
        by (simp del: drop_append)
    qed
    with hit le have "index_of (buf @ chunk) sep = Some (start + i)"
      by (intro index_of_eq_SomeI)
    with Some show ?thesis by (simp add: start_def)
  qed
qed

lemma index_of_append_right:
  assumes "index_of s sep = Some i"
  shows "index_of (s @ t) sep = Some i"
proof (rule index_of_eq_SomeI)
  have le: "i + length sep \<le> length s" by (rule index_of_length [OF assms])
  have "has_prefix (drop i s) sep" by (rule index_of_prefix [OF assms])
  then show "has_prefix (drop i (s @ t)) sep"
    using le by (simp add: has_prefix_def)
  show "i \<le> length (s @ t)" using le by simp
  show "\<not> has_prefix (drop j (s @ t)) sep" if "j < i" for j
    using that le index_of_least [OF assms that] has_prefix_drop_append
    by (metis add_le_cancel_right less_imp_le order_trans)
qed

text \<open>The bodies of the two outcomes of a round, once the search is the search of the whole buffer.\<close>

lemma length_terminator [simp]: "length terminator = 4"
  by (simp add: terminator_def)

lemma terminator_nonempty [simp]: "terminator \<noteq> []"
  by (simp add: terminator_def)

lemma readHeaderLoop_Cons:
  assumes "searched_inv buf searched"
  shows "readHeaderLoop ((chunk, err) # reads) buf searched limit =
    (case index_of (buf @ chunk) terminator of
       Some i \<Rightarrow>
         if int (i + 4) > limit then Some (buf @ chunk, Inl ErrTooLarge)
         else Some (buf @ chunk, ParseHost (take (i + 4) (buf @ chunk)))
     | None \<Rightarrow>
         if int (length (buf @ chunk)) > limit then Some (buf @ chunk, Inl ErrTooLarge)
         else case err of
                Some EOF \<Rightarrow> Some (buf @ chunk, Inl ErrMalformed)
              | Some e \<Rightarrow> Some (buf @ chunk, Inl (ErrRead e))
              | None \<Rightarrow> readHeaderLoop reads (buf @ chunk) (length (buf @ chunk)) limit)"
proof (cases "chunk = []")
  case True
  with assms show ?thesis
    by (cases err) (simp_all add: searched_inv_def split: read_error.split)
next
  case False
  have "index_of (buf @ chunk) terminator
    = map_option ((+) (length buf - 3))
        (index_of (drop (length buf - 3) (buf @ chunk)) terminator)"
    using assms index_of_resume [of buf terminator chunk] by (simp add: searched_inv_def)
  with assms False show ?thesis
    by (simp add: searched_inv_def Let_def add.assoc split: option.splits)
qed

declare readHeaderLoop.simps(2) [simp del]

lemma searched_inv_step: "index_of buf terminator = None \<Longrightarrow> searched_inv buf (length buf)"
  by (simp add: searched_inv_def)

lemma readHeaderLoop_host:
  assumes "searched_inv buf searched"
    and "readHeaderLoop reads buf searched limit = Some (out, Inr host)"
  shows "\<exists>i. index_of (buf @ stream reads) terminator = Some i \<and> int (i + 4) \<le> limit \<and>
    ParseHost (take (i + 4) (buf @ stream reads)) = Inr host \<and>
    i + 4 \<le> length out \<and> has_prefix (buf @ stream reads) out"
  using assms
proof (induction reads arbitrary: buf searched)
  case (Cons r reads)
  obtain chunk err where r: "r = (chunk, err)" by (cases r)
  show ?case
  proof (cases "index_of (buf @ chunk) terminator")
    case None
    with Cons.prems have "readHeaderLoop reads (buf @ chunk) (length (buf @ chunk)) limit
        = Some (out, Inr host)"
      unfolding r readHeaderLoop_Cons [OF Cons.prems(1)]
      by (auto split: if_splits option.splits read_error.splits)
    from Cons.IH [OF searched_inv_step [OF None] this] show ?thesis by (simp add: r)
  next
    case (Some i)
    with Cons.prems have "int (i + 4) \<le> limit" "out = buf @ chunk"
      and host: "ParseHost (take (i + 4) (buf @ chunk)) = Inr host"
      unfolding r readHeaderLoop_Cons [OF Cons.prems(1)] by (auto split: if_splits)
    moreover have "i + 4 \<le> length (buf @ chunk)"
      using index_of_length [OF Some] by simp
    moreover from this have "take (i + 4) (buf @ chunk) = take (i + 4) ((buf @ chunk) @ stream reads)"
      by simp
    moreover have "index_of ((buf @ chunk) @ stream reads) terminator = Some i"
      by (rule index_of_append_right [OF Some])
    moreover have "has_prefix ((buf @ chunk) @ stream reads) (buf @ chunk)"
      by (rule has_prefix_append)
    ultimately show ?thesis
      by (intro exI [of _ i]) (simp add: r)
  qed
qed simp

text \<open>The outcome on reads that report no error, as a function of the bytes alone.\<close>

definition sniff_spec :: "bytes \<Rightarrow> int \<Rightarrow> (sniff_error + string) option" where
  "sniff_spec s limit =
     (case index_of s terminator of
        Some i \<Rightarrow> if int (i + 4) \<le> limit then Some (ParseHost (take (i + 4) s))
                  else Some (Inl ErrTooLarge)
      | None \<Rightarrow> if int (length s) \<le> limit then None else Some (Inl ErrTooLarge))"

lemma sniff_spec_append:
  assumes "index_of s terminator = None" and "int (length s) > limit"
  shows "sniff_spec (s @ t) limit = Some (Inl ErrTooLarge)"
proof (cases "index_of (s @ t) terminator")
  case None
  with assms show ?thesis by (simp add: sniff_spec_def)
next
  case (Some i)
  have "length s < i + 4"
  proof (rule ccontr)
    assume "\<not> length s < i + 4"
    moreover have "has_prefix (drop i (s @ t)) terminator"
      by (rule index_of_prefix [OF Some])
    ultimately have "has_prefix (drop i s) terminator"
      using has_prefix_drop_append [of i s t terminator] by simp
    with index_of_None [OF assms(1)] show False by blast
  qed
  with Some assms show ?thesis by (simp add: sniff_spec_def)
qed

lemma readHeaderLoop_spec:
  assumes "searched_inv buf searched" and "int (length buf) \<le> limit"
    and "list_all (\<lambda>r. snd r = None) reads"
  shows "map_option snd (readHeaderLoop reads buf searched limit)
    = sniff_spec (buf @ stream reads) limit"
  using assms
proof (induction reads arbitrary: buf searched)
  case Nil
  then show ?case by (simp add: sniff_spec_def searched_inv_def)
next
  case (Cons r reads)
  obtain chunk where r: "r = (chunk, None)" using Cons.prems(3) by (cases r) auto
  note step = readHeaderLoop_Cons [OF Cons.prems(1)]
  show ?case
  proof (cases "index_of (buf @ chunk) terminator")
    case None
    show ?thesis
    proof (cases "int (length (buf @ chunk)) > limit")
      case True
      with None sniff_spec_append [OF None True, of "stream reads"] show ?thesis
        unfolding r step by simp
    next
      case False
      with Cons.IH [OF searched_inv_step [OF None]] Cons.prems(3) None show ?thesis
        unfolding r step by simp
    qed
  next
    case (Some i)
    have "i + 4 \<le> length (buf @ chunk)" using index_of_length [OF Some] by simp
    then have "take (i + 4) ((buf @ chunk) @ stream reads) = take (i + 4) (buf @ chunk)" by simp
    with Some index_of_append_right [OF Some, of "stream reads"] show ?thesis
      unfolding r step sniff_spec_def by (simp del: take_append)
  qed
qed

lemma readHeaderLoop_returns:
  assumes "list_ex (\<lambda>r. snd r \<noteq> None) reads"
  shows "\<exists>out. readHeaderLoop reads buf searched limit = Some out"
  using assms
proof (induction reads arbitrary: buf searched)
  case (Cons r reads)
  then show ?case
    by (cases r) (auto simp: readHeaderLoop.simps(2) Let_def
        split: option.splits read_error.splits if_splits)
qed simp

lemma ReadHeaderBlock_spec_aux:
  assumes "list_all (\<lambda>r. snd r = None) reads"
  shows "map_option snd (ReadHeaderBlock reads limit)
    = sniff_spec (stream reads) (if limit \<le> 0 then DefaultMaxBytes else limit)"
  using readHeaderLoop_spec [of "[]" 0 _ reads] assms
  by (simp add: ReadHeaderBlock_def searched_inv_def terminator_def DefaultMaxBytes_def)

section \<open>Properties\<close>

definition example_reads :: reads where
  "example_reads =
     [(to_bytes (''GET / HTTP/1.1'' @ crlf @ ''Host: One.VM.Local:8080'' @ [CHR 0x0D]), None),
      ([10, 13], None),
      ([10, 71, 69, 84], None)]"

text \<open>
  Further result. The host the sniffer reports is read from the bytes of the connection alone,
  however they are split over reads: there is a first blank line in the stream, the header
  block up to it is within the limit, and the host is what \<open>ParseHost\<close> finds in exactly that
  block; the buffer returned, which is replayed to the backend, is a prefix of the stream that
  holds the whole block.
\<close>

theorem ReadHeaderBlock_host_of_stream:
  assumes "ReadHeaderBlock reads limit = Some (out, Inr host)"
  shows "\<exists>i. index_of (stream reads) terminator = Some i \<and>
    int (i + 4) \<le> (if limit \<le> 0 then DefaultMaxBytes else limit) \<and>
    ParseHost (take (i + 4) (stream reads)) = Inr host \<and>
    i + 4 \<le> length out \<and> has_prefix (stream reads) out"
  using readHeaderLoop_host [of "[]" 0 reads _ out host] assms
  by (simp add: ReadHeaderBlock_def searched_inv_def terminator_def)

lemma example_reads_host:
  "ReadHeaderBlock example_reads 0 = Some (stream example_reads, Inr ''one.vm.local'')"
  by code_simp

theorem ReadHeaderBlock_host_of_stream_witness:
  "\<exists>i. index_of (stream example_reads) terminator = Some i \<and> int (i + 4) \<le> DefaultMaxBytes \<and>
    ParseHost (take (i + 4) (stream example_reads)) = Inr ''one.vm.local''"
  using ReadHeaderBlock_host_of_stream [OF example_reads_host] by auto

text \<open>
  Property C36. On a connection that reports no read error the outcome is the one of a search of
  the whole stream: the parsed host when a first blank line ends within the limit, an error as
  soon as more than the limit has been read, and otherwise the sniffer waits for more bytes.
\<close>

theorem ReadHeaderBlock_refines_spec:
  assumes "list_all (\<lambda>r. snd r = None) reads"
  shows "map_option snd (ReadHeaderBlock reads limit)
    = sniff_spec (stream reads) (if limit \<le> 0 then DefaultMaxBytes else limit)"
  by (rule ReadHeaderBlock_spec_aux [OF assms])

theorem ReadHeaderBlock_refines_spec_witness:
  "list_all (\<lambda>r. snd r = None) example_reads \<and>
   sniff_spec (stream example_reads) DefaultMaxBytes = Some (Inr ''one.vm.local'')"
  using ReadHeaderBlock_refines_spec [of example_reads 0] example_reads_host
  by (simp add: example_reads_def)

text \<open>
  Property C37. The sniffer always returns on a connection that ends or fails, and on one that
  sends more than the limit: an oversized or truncated header cannot hold it forever.
\<close>

theorem ReadHeaderBlock_returns:
  assumes "list_ex (\<lambda>r. snd r \<noteq> None) reads
    \<or> int (length (stream reads)) > (if limit \<le> 0 then DefaultMaxBytes else limit)"
  shows "\<exists>out res. ReadHeaderBlock reads limit = Some (out, res)"
proof (cases "list_ex (\<lambda>r. snd r \<noteq> None) reads")
  case True
  then show ?thesis
    using readHeaderLoop_returns unfolding ReadHeaderBlock_def by fastforce
next
  case False
  then have "list_all (\<lambda>r. snd r = None) reads" by (auto simp: list_all_iff list_ex_iff)
  from ReadHeaderBlock_spec_aux [OF this, of limit] False assms show ?thesis
    by (cases "ReadHeaderBlock reads limit")
       (auto simp: sniff_spec_def split: option.splits if_splits)
qed

theorem ReadHeaderBlock_returns_witness:
  "\<exists>out res. ReadHeaderBlock [([71, 69, 84], None), ([], Some EOF)] 2 = Some (out, res)"
  using ReadHeaderBlock_returns [of "[([71, 69, 84], None), ([], Some EOF)]" 2] by simp

end
