(* ===== verification/Proxy_Config.thy ===== *)
theory Proxy_Config
  imports Httpsniff Go_Encoding
begin

text \<open>
  The configuration of \<open>dproxy\<close> (\<open>backstage/dproxy/internal/proxy/config.go\<close>): the
  structures read from YAML, their small accessors, and \<open>Validate\<close>, the check every
  configuration passes before the proxy starts. The YAML decoder itself is not modelled; a
  \<open>map\<close> of the source is the association list of its entries in the order one iteration
  visits them. A pointer that may be nil is an \<open>option\<close>. The error texts are one constructor
  each of \<open>config_error\<close>, with the field names they carry. \<open>url.Parse\<close>, which only
  decides whether \<open>auth.control_url\<close> is well formed, is the argument \<open>urlParses\<close>.
\<close>

section \<open>Model\<close>

type_synonym Duration = int

definition Duration_Or :: "Duration \<Rightarrow> Duration \<Rightarrow> Duration" where
  "Duration_Or d def = (if d = 0 then def else d)"

record HTTPHost =
  hh_Host :: string
  hh_UnauthenticatedPorts :: "int list"
  hh_DefaultPort :: int
  hh_RemoteUser :: string
  hh_PortHosts :: bool

record HTTPConfig =
  http_Listen :: string
  http_Reuseport :: bool
  http_Hosts :: "(string \<times> HTTPHost) list"
  http_Default :: string

record AuthConfig =
  au_ControlURL :: string
  au_CookieName :: string
  au_CookieSecretFile :: string
  au_CookieTTL :: Duration
  au_CookieSecure :: bool
  au_CookieSameSite :: string

record ConsoleConfig =
  con_Label :: string
  con_RemoteUser :: string

record DesktopConfig =
  desk_Label :: string
  desk_RemoteUser :: string
  desk_RemotePassword :: string

record SiteConfig =
  site_Listen :: string
  site_Hosts :: "string list"
  site_HTMLFile :: string

record ACMEConfig =
  acme_ChallengeTarget :: string

record HTTPSConfig =
  https_Listen :: string
  https_Reuseport :: bool

record TCPRoute =
  tcp_Listen :: string
  tcp_Target :: string
  tcp_Protocol :: string
  tcp_Reuseport :: bool

record SSHUser =
  su_PubKey :: string
  su_PubKeyFile :: string
  su_VMName :: string
  su_Target :: string
  su_RemoteUser :: string

record SSHConfig =
  ssh_Listen :: string
  ssh_Reuseport :: bool
  ssh_Users :: "SSHUser list"

record RDPUser =
  ru_VMName :: string
  ru_NTHash :: string
  ru_Target :: string
  ru_RemoteUser :: string
  ru_RemotePassword :: string

record RDPConfig =
  rdp_Listen :: string
  rdp_Reuseport :: bool
  rdp_Users :: "RDPUser list"

record ForwardConfig =
  fw_Listen :: string
  fw_Target :: string

record Config =
  ControlSocket :: string
  HTTP :: "HTTPConfig option"
  HTTPS :: "HTTPSConfig option"
  TCP :: "TCPRoute list"
  SSH :: "SSHConfig option"
  RDP :: "RDPConfig option"
  Auth :: "AuthConfig option"
  Console :: "ConsoleConfig option"
  Desktop :: "DesktopConfig option"
  Site :: "SiteConfig option"
  ACME :: "ACMEConfig option"
  ListenForwards :: "ForwardConfig list"
  DialTimeout :: Duration
  HTTPSniffTimeout :: Duration
  HTTPSniffMaxBytes :: int
  LogLevel :: string

definition portSeparator :: string where
  "portSeparator = ''--''"

definition Target :: "HTTPHost \<Rightarrow> string" where
  "Target h = join_host_port (hh_Host h) (itoa (hh_DefaultPort h))"

definition NeedsAuth :: "HTTPHost \<Rightarrow> int \<Rightarrow> bool" where
  "NeedsAuth h port \<longleftrightarrow> port \<notin> set (hh_UnauthenticatedPorts h)"

definition defaultDesktopLabel :: string where
  "defaultDesktopLabel = ''desk''"

definition defaultConsoleLabel :: string where
  "defaultConsoleLabel = ''shell''"

definition defaultConsoleRemoteUser :: string where
  "defaultConsoleRemoteUser = ''root''"

definition Desktop_label :: "DesktopConfig \<Rightarrow> string" where
  "Desktop_label c = (if desk_Label c \<noteq> [] then desk_Label c else defaultDesktopLabel)"

definition Desktop_remoteUser :: "DesktopConfig \<Rightarrow> string" where
  "Desktop_remoteUser c =
     (if desk_RemoteUser c \<noteq> [] then desk_RemoteUser c else defaultConsoleRemoteUser)"

definition Console_label :: "ConsoleConfig \<Rightarrow> string" where
  "Console_label c = (if con_Label c \<noteq> [] then con_Label c else defaultConsoleLabel)"

definition Console_remoteUser :: "ConsoleConfig \<Rightarrow> string" where
  "Console_remoteUser c =
     (if con_RemoteUser c \<noteq> [] then con_RemoteUser c else defaultConsoleRemoteUser)"

definition defaultSiteListen :: string where
  "defaultSiteListen = ''127.0.0.1:8079''"

definition Site_listen :: "SiteConfig \<Rightarrow> string" where
  "Site_listen s = (if site_Listen s \<noteq> [] then site_Listen s else defaultSiteListen)"

definition Site_entry :: "SiteConfig \<Rightarrow> HTTPHost option" where
  "Site_entry s =
     (case split_host_port (Site_listen s) of
        None \<Rightarrow> None
      | Some (host, port) \<Rightarrow>
          (case atoi port of
             None \<Rightarrow> None
           | Some p \<Rightarrow> Some \<lparr>hh_Host = host, hh_UnauthenticatedPorts = [p], hh_DefaultPort = p,
                             hh_RemoteUser = [], hh_PortHosts = False\<rparr>))"

text \<open>The regular expressions \<open>hostLabelPattern\<close> and \<open>hostnamePattern\<close>.\<close>

definition is_label_end :: "char \<Rightarrow> bool" where
  "is_label_end c \<longleftrightarrow> is_digit c \<or> (97 \<le> (of_char c :: int) \<and> (of_char c :: int) \<le> 122)"

definition hostLabelPattern :: "string \<Rightarrow> bool" where
  "hostLabelPattern s \<longleftrightarrow> s \<noteq> [] \<and> is_label_end (hd s) \<and> is_label_end (last s) \<and>
     list_all (\<lambda>c. is_label_end c \<or> c = CHR ''-'') s"

definition hostnamePattern :: "string \<Rightarrow> bool" where
  "hostnamePattern s \<longleftrightarrow> list_all hostLabelPattern (split_str s ''.'')"

datatype config_error =
    ControlSocketRequired
  | ListenRequired string
  | ListenNotHostPort string string
  | ListenerUsedTwice string string string
  | HostKeyInvalid string
  | HostKeyReserved string
  | NeedsConcreteHost string string
  | InvalidPort string int
  | RequiresAuth string int
  | FieldRequired string
  | FieldNotHostPort string string
  | FieldInvalidPort string string
  | HTTPSRequiresHosts
  | ProtocolMustBeTCP nat
  | SSHRequiresUser
  | ExactlyOnePubkey nat
  | UserRemoteUserRequired string nat
  | UnusableLoginName string nat string
  | RDPRequiresUser
  | LoginListedTwice nat string
  | BadNTHash nat
  | NoIngress
  | ControlURLInvalid string
  | SameSiteNoneNeedsSecure
  | SameSiteInvalid string
  | SectionRequiresAuth string
  | SectionRequiresHTTP string
  | LabelInvalid string string
  | LabelsEqual string
  | DesktopPasswordRequired
  | SiteRequiresHost
  | SiteHostInvalid nat string

text \<open>The state \<open>Validate\<close> threads: the listeners claimed so far and the number of ingresses.\<close>

record vstate =
  seen :: "(string \<times> string) list"
  ingress :: nat

definition claim :: "string \<Rightarrow> string \<Rightarrow> vstate \<Rightarrow> config_error + vstate" where
  "claim kind addr st =
     (if addr = [] then Inl (ListenRequired kind)
      else if split_host_port addr = None then Inl (ListenNotHostPort kind addr)
      else case map_of (seen st) addr of
             Some prev \<Rightarrow> Inl (ListenerUsedTwice addr prev kind)
           | None \<Rightarrow> Inr (st\<lparr>seen := (addr, kind) # seen st\<rparr>))"

definition count_ingress :: "vstate \<Rightarrow> config_error + vstate" where
  "count_ingress st = Inr (st\<lparr>ingress := Suc (ingress st)\<rparr>)"

definition validHostPort :: "string \<Rightarrow> string \<Rightarrow> config_error + unit" where
  "validHostPort field addr =
     (if addr = [] then Inl (FieldRequired field)
      else case split_host_port addr of
             None \<Rightarrow> Inl (FieldNotHostPort field addr)
           | Some (host, port) \<Rightarrow>
               if host = [] \<or> contains host ''*'' then Inl (NeedsConcreteHost field addr)
               else case atoi port of
                      None \<Rightarrow> Inl (FieldInvalidPort field addr)
                    | Some p \<Rightarrow> if p \<le> 0 \<or> p > 65535 then Inl (FieldInvalidPort field addr)
                                else Inr ())"

definition validPort :: "string \<Rightarrow> int \<Rightarrow> config_error + unit" where
  "validPort field port =
     (if port \<le> 0 \<or> port > 65535 then Inl (InvalidPort field port) else Inr ())"

definition indexed :: "string \<Rightarrow> nat \<Rightarrow> string \<Rightarrow> string" where
  "indexed name i suffix = name @ ''['' @ nat_str i @ '']'' @ suffix"

text \<open>The body of the loop over \<open>http.hosts\<close>.\<close>

definition validateHost ::
  "Config \<Rightarrow> nat \<Rightarrow> string \<times> HTTPHost \<Rightarrow> unit \<Rightarrow> config_error + unit" where
  "validateHost c _ kv _ =
     (let (host, h) = kv; field = ''http.hosts['' @ host @ '']'' in
      if host = [] \<or> contains host ''*'' then Inl (HostKeyInvalid host)
      else if contains host portSeparator then Inl (HostKeyReserved host)
      else if hh_Host h = [] \<or> contains (hh_Host h) ''*''
        then Inl (NeedsConcreteHost (field @ ''.host'') (hh_Host h))
      else rbind (validPort (field @ ''.default_port'') (hh_DefaultPort h)) (\<lambda>_.
           rbind (for_each 0 (\<lambda>i p _. validPort (field @ indexed ''.unauthenticated_ports'' i []) p)
                    (hh_UnauthenticatedPorts h) ()) (\<lambda>_.
           if NeedsAuth h (hh_DefaultPort h) \<and> Auth c = None
           then Inl (RequiresAuth host (hh_DefaultPort h)) else Inr ())))"

definition validateHTTP :: "Config \<Rightarrow> vstate \<Rightarrow> config_error + vstate" where
  "validateHTTP c st =
     (case HTTP c of
        None \<Rightarrow> Inr st
      | Some h \<Rightarrow>
          rbind (claim ''http'' (http_Listen h) st) (\<lambda>st.
          rbind (count_ingress st) (\<lambda>st.
          rbind (for_each 0 (validateHost c) (http_Hosts h) ()) (\<lambda>_.
          rbind (if http_Default h \<noteq> [] then validHostPort ''http.default'' (http_Default h)
                 else Inr ()) (\<lambda>_.
          Inr st)))))"

definition validateHTTPS :: "Config \<Rightarrow> vstate \<Rightarrow> config_error + vstate" where
  "validateHTTPS c st =
     (case HTTPS c of
        None \<Rightarrow> Inr st
      | Some h \<Rightarrow>
          rbind (claim ''https'' (https_Listen h) st) (\<lambda>st.
          rbind (count_ingress st) (\<lambda>st.
          if (case HTTP c of None \<Rightarrow> True | Some hc \<Rightarrow> http_Hosts hc = [] \<and> Site c = None)
          then Inl HTTPSRequiresHosts else Inr st)))"

definition validateTCP :: "nat \<Rightarrow> TCPRoute \<Rightarrow> vstate \<Rightarrow> config_error + vstate" where
  "validateTCP i r st =
     rbind (claim (indexed ''tcp'' i []) (tcp_Listen r) st) (\<lambda>st.
     rbind (count_ingress st) (\<lambda>st.
     rbind (validHostPort (indexed ''tcp'' i ''.target'') (tcp_Target r)) (\<lambda>_.
     if tcp_Protocol r \<noteq> [] \<and> tcp_Protocol r \<noteq> ''tcp'' then Inl (ProtocolMustBeTCP i)
     else Inr st)))"

definition validateSSHUser :: "nat \<Rightarrow> SSHUser \<Rightarrow> unit \<Rightarrow> config_error + unit" where
  "validateSSHUser i u _ =
     (if (su_PubKey u = []) = (su_PubKeyFile u = []) then Inl (ExactlyOnePubkey i)
      else if su_RemoteUser u = [] then Inl (UserRemoteUserRequired ''ssh'' i)
      else if su_VMName u = [] \<or> contains_any (su_VMName u) [CHR '' '', CHR 0x09, CHR ''@'', CHR '':'']
        then Inl (UnusableLoginName ''ssh'' i (su_VMName u))
      else validHostPort (indexed ''ssh.users'' i ''.target'') (su_Target u))"

definition validateSSH :: "Config \<Rightarrow> vstate \<Rightarrow> config_error + vstate" where
  "validateSSH c st =
     (case SSH c of
        None \<Rightarrow> Inr st
      | Some s \<Rightarrow>
          rbind (claim ''ssh'' (ssh_Listen s) st) (\<lambda>st.
          rbind (count_ingress st) (\<lambda>st.
          if ssh_Users s = [] then Inl SSHRequiresUser
          else rbind (for_each 0 validateSSHUser (ssh_Users s) ()) (\<lambda>_. Inr st))))"

text \<open>The loop over \<open>rdp.users\<close> threads the lower-cased names met so far.\<close>

definition validateRDPUser :: "nat \<Rightarrow> RDPUser \<Rightarrow> string list \<Rightarrow> config_error + string list" where
  "validateRDPUser i u names =
     (if ru_VMName u = [] \<or>
         contains_any (ru_VMName u) [CHR '' '', CHR 0x09, CHR ''@'', CHR '':'', CHR 0x5C]
        then Inl (UnusableLoginName ''rdp'' i (ru_VMName u))
      else let lower = to_lower (ru_VMName u) in
        if lower \<in> set names then Inl (LoginListedTwice i (ru_VMName u))
        else if hex_decode (ru_NTHash u) = None \<or> length (ru_NTHash u) \<noteq> 32 then Inl (BadNTHash i)
        else if ru_RemoteUser u = [] then Inl (UserRemoteUserRequired ''rdp'' i)
        else rbind (validHostPort (indexed ''rdp.users'' i ''.target'') (ru_Target u)) (\<lambda>_.
             Inr (lower # names)))"

definition validateRDP :: "Config \<Rightarrow> vstate \<Rightarrow> config_error + vstate" where
  "validateRDP c st =
     (case RDP c of
        None \<Rightarrow> Inr st
      | Some r \<Rightarrow>
          rbind (claim ''rdp'' (rdp_Listen r) st) (\<lambda>st.
          rbind (count_ingress st) (\<lambda>st.
          if rdp_Users r = [] then Inl RDPRequiresUser
          else rbind (for_each 0 validateRDPUser (rdp_Users r) []) (\<lambda>_. Inr st))))"

definition validateAuth :: "(string \<Rightarrow> bool) \<Rightarrow> Config \<Rightarrow> config_error + unit" where
  "validateAuth urlParses c =
     (case Auth c of
        None \<Rightarrow> Inr ()
      | Some a \<Rightarrow>
          if au_ControlURL a = [] then Inl (FieldRequired ''auth.control_url'')
          else if \<not> urlParses (au_ControlURL a) then Inl (ControlURLInvalid (au_ControlURL a))
          else if au_CookieSecretFile a = [] then Inl (FieldRequired ''auth.cookie_secret_file'')
          else let s = to_lower (trim_space (au_CookieSameSite a)) in
            if s = [] \<or> s = ''lax'' then Inr ()
            else if s = ''none'' then
              (if \<not> au_CookieSecure a then Inl SameSiteNoneNeedsSecure else Inr ())
            else Inl (SameSiteInvalid (au_CookieSameSite a)))"

definition validateConsole :: "Config \<Rightarrow> config_error + unit" where
  "validateConsole c =
     (case Console c of
        None \<Rightarrow> Inr ()
      | Some k \<Rightarrow>
          if Auth c = None then Inl (SectionRequiresAuth ''console'')
          else if HTTP c = None then Inl (SectionRequiresHTTP ''console'')
          else if \<not> hostLabelPattern (Console_label k)
            then Inl (LabelInvalid ''console'' (Console_label k))
          else Inr ())"

definition validateDesktop :: "Config \<Rightarrow> config_error + unit" where
  "validateDesktop c =
     (case Desktop c of
        None \<Rightarrow> Inr ()
      | Some d \<Rightarrow>
          if Auth c = None then Inl (SectionRequiresAuth ''desktop'')
          else if HTTP c = None then Inl (SectionRequiresHTTP ''desktop'')
          else if \<not> hostLabelPattern (Desktop_label d)
            then Inl (LabelInvalid ''desktop'' (Desktop_label d))
          else if (case Console c of None \<Rightarrow> False | Some k \<Rightarrow> Desktop_label d = Console_label k)
            then Inl (LabelsEqual (Desktop_label d))
          else if desk_RemotePassword d = [] then Inl DesktopPasswordRequired
          else Inr ())"

definition validateSite :: "Config \<Rightarrow> vstate \<Rightarrow> config_error + vstate" where
  "validateSite c st =
     (case Site c of
        None \<Rightarrow> Inr st
      | Some s \<Rightarrow>
          rbind (claim ''site'' (Site_listen s) st) (\<lambda>st.
          rbind (validHostPort ''site.listen'' (Site_listen s)) (\<lambda>_.
          if HTTP c = None then Inl (SectionRequiresHTTP ''site'')
          else if site_HTMLFile s = [] then Inl (FieldRequired ''site.html_file'')
          else if site_Hosts s = [] then Inl SiteRequiresHost
          else rbind (for_each 0 (\<lambda>i h _. if \<not> hostnamePattern (normalizeHost h)
                                   then Inl (SiteHostInvalid i h) else Inr ())
                        (site_Hosts s) ()) (\<lambda>_. Inr st))))"

definition validateACME :: "Config \<Rightarrow> config_error + unit" where
  "validateACME c =
     (case ACME c of
        None \<Rightarrow> Inr ()
      | Some a \<Rightarrow>
          if HTTP c = None then Inl (SectionRequiresHTTP ''acme'')
          else validHostPort ''acme.challenge_target'' (acme_ChallengeTarget a))"

definition validateForward :: "nat \<Rightarrow> ForwardConfig \<Rightarrow> unit \<Rightarrow> config_error + unit" where
  "validateForward i f _ =
     rbind (validHostPort (indexed ''listen_forwards'' i ''.listen'') (fw_Listen f)) (\<lambda>_.
     validHostPort (indexed ''listen_forwards'' i ''.target'') (fw_Target f))"

definition Validate :: "(string \<Rightarrow> bool) \<Rightarrow> Config \<Rightarrow> config_error + unit" where
  "Validate urlParses c =
     (if ControlSocket c = [] then Inl ControlSocketRequired
      else rbind (validateHTTP c \<lparr>seen = [], ingress = 0\<rparr>) (\<lambda>st.
           rbind (validateHTTPS c st) (\<lambda>st.
           rbind (for_each 0 validateTCP (TCP c) st) (\<lambda>st.
           rbind (validateSSH c st) (\<lambda>st.
           rbind (validateRDP c st) (\<lambda>st.
           if ingress st = 0 then Inl NoIngress
           else rbind (validateAuth urlParses c) (\<lambda>_.
                rbind (validateConsole c) (\<lambda>_.
                rbind (validateDesktop c) (\<lambda>_.
                rbind (validateSite c st) (\<lambda>_.
                rbind (validateACME c) (\<lambda>_.
                for_each 0 validateForward (ListenForwards c) ())))))))))))"

section \<open>What a validated configuration guarantees\<close>

text \<open>Every address the proxy will listen on, in the order \<open>Validate\<close> claims them.\<close>

definition listeners :: "Config \<Rightarrow> string list" where
  "listeners c =
     (case HTTP c of None \<Rightarrow> [] | Some h \<Rightarrow> [http_Listen h]) @
     (case HTTPS c of None \<Rightarrow> [] | Some h \<Rightarrow> [https_Listen h]) @
     map tcp_Listen (TCP c) @
     (case SSH c of None \<Rightarrow> [] | Some s \<Rightarrow> [ssh_Listen s]) @
     (case RDP c of None \<Rightarrow> [] | Some r \<Rightarrow> [rdp_Listen r]) @
     (case Site c of None \<Rightarrow> [] | Some s \<Rightarrow> [Site_listen s])"

text \<open>The claimed addresses are exactly \<open>ls\<close>, without repetition and each a \<open>host:port\<close>.\<close>

definition claimed :: "string list \<Rightarrow> vstate \<Rightarrow> bool" where
  "claimed ls st \<longleftrightarrow> map fst (seen st) = rev ls \<and> distinct ls \<and>
     list_all (\<lambda>a. split_host_port a \<noteq> None) ls"

lemma claim_claimed:
  assumes "claim kind addr st = Inr st'" and "claimed ls st"
  shows "claimed (ls @ [addr]) st'"
proof -
  have "map_of (seen st) addr = None" "split_host_port addr \<noteq> None"
    "st' = st\<lparr>seen := (addr, kind) # seen st\<rparr>"
    using assms(1) by (auto simp: claim_def split: if_splits option.splits)
  moreover from this assms(2) have "addr \<notin> set ls"
    by (metis claimed_def image_set map_of_eq_None_iff set_rev)
  ultimately show ?thesis
    using assms(2) by (simp add: claimed_def)
qed

lemma claimed_ingress [simp]: "claimed ls (st\<lparr>ingress := n\<rparr>) = claimed ls st"
  by (simp add: claimed_def)

lemma count_ingress_Inr [simp]:
  "count_ingress st = Inr st' \<longleftrightarrow> st' = st\<lparr>ingress := Suc (ingress st)\<rparr>"
  by (auto simp: count_ingress_def)

lemma validateHTTP_claimed:
  "validateHTTP c st = Inr st' \<Longrightarrow> claimed ls st \<Longrightarrow>
   claimed (ls @ (case HTTP c of None \<Rightarrow> [] | Some h \<Rightarrow> [http_Listen h])) st'"
  by (auto simp: validateHTTP_def dest: claim_claimed split: option.splits)

lemma validateHTTPS_claimed:
  "validateHTTPS c st = Inr st' \<Longrightarrow> claimed ls st \<Longrightarrow>
   claimed (ls @ (case HTTPS c of None \<Rightarrow> [] | Some h \<Rightarrow> [https_Listen h])) st'"
  by (auto simp: validateHTTPS_def dest: claim_claimed split: option.splits if_splits)

lemma validateTCP_claimed:
  assumes "for_each 0 validateTCP rs st = Inr st'" and "claimed ls st"
  shows "claimed (ls @ map tcp_Listen rs) st'"
  using assms(1)
proof (rule for_each_invariant)
  show "claimed (ls @ map tcp_Listen []) st" using assms(2) by simp
next
  fix j r and acc :: "TCPRoute list" and s s'
  assume "validateTCP j r s = Inr s'" and inv: "claimed (ls @ map tcp_Listen acc) s"
  then obtain s0 where "claim (indexed ''tcp'' j []) (tcp_Listen r) s = Inr s0"
    and "s' = s0\<lparr>ingress := Suc (ingress s0)\<rparr>"
    by (auto simp: validateTCP_def)
  with claim_claimed [OF _ inv] show "claimed (ls @ map tcp_Listen (acc @ [r])) s'" by simp
qed

lemma validateSSH_claimed:
  "validateSSH c st = Inr st' \<Longrightarrow> claimed ls st \<Longrightarrow>
   claimed (ls @ (case SSH c of None \<Rightarrow> [] | Some h \<Rightarrow> [ssh_Listen h])) st'"
  by (auto simp: validateSSH_def dest: claim_claimed split: option.splits if_splits)

lemma validateRDP_claimed:
  "validateRDP c st = Inr st' \<Longrightarrow> claimed ls st \<Longrightarrow>
   claimed (ls @ (case RDP c of None \<Rightarrow> [] | Some h \<Rightarrow> [rdp_Listen h])) st'"
  by (auto simp: validateRDP_def dest: claim_claimed split: option.splits if_splits)

lemma validateSite_claimed:
  "validateSite c st = Inr st' \<Longrightarrow> claimed ls st \<Longrightarrow>
   claimed (ls @ (case Site c of None \<Rightarrow> [] | Some h \<Rightarrow> [Site_listen h])) st'"
  by (auto simp: validateSite_def dest: claim_claimed split: option.splits if_splits)

text \<open>The stages a successful validation went through.\<close>

lemma ValidateE:
  assumes "Validate urlParses c = Inr ()"
  obtains s1 s2 s3 s4 s5 s6 where
    "validateHTTP c \<lparr>seen = [], ingress = 0\<rparr> = Inr s1" "validateHTTPS c s1 = Inr s2"
    "for_each 0 validateTCP (TCP c) s2 = Inr s3" "validateSSH c s3 = Inr s4"
    "validateRDP c s4 = Inr s5" "ingress s5 \<noteq> 0" "validateAuth urlParses c = Inr ()"
    "validateConsole c = Inr ()" "validateDesktop c = Inr ()" "validateSite c s5 = Inr s6"
    "validateACME c = Inr ()" "for_each 0 validateForward (ListenForwards c) () = Inr ()"
  using assms unfolding Validate_def by auto

lemma validHostPort_Inr:
  "validHostPort field addr = Inr () \<longleftrightarrow>
     (\<exists>host port p. split_host_port addr = Some (host, port) \<and> host \<noteq> [] \<and>
        \<not> contains host ''*'' \<and> atoi port = Some p \<and> 0 < p \<and> p \<le> 65535)"
  by (auto simp: validHostPort_def split_host_port_def split: option.splits prod.splits if_splits)

lemma Validate_claimed:
  assumes "Validate urlParses c = Inr ()"
  shows "\<exists>st. claimed (listeners c) st"
proof -
  have "claimed [] \<lparr>seen = [], ingress = 0\<rparr>" by (simp add: claimed_def)
  moreover from assms obtain s1 s2 s3 s4 s5 s6 where
    "validateHTTP c \<lparr>seen = [], ingress = 0\<rparr> = Inr s1" "validateHTTPS c s1 = Inr s2"
    "for_each 0 validateTCP (TCP c) s2 = Inr s3" "validateSSH c s3 = Inr s4"
    "validateRDP c s4 = Inr s5" "validateSite c s5 = Inr s6"
    by (elim ValidateE)
  ultimately have "claimed (listeners c) s6"
    using validateHTTP_claimed validateHTTPS_claimed validateTCP_claimed
      validateSSH_claimed validateRDP_claimed validateSite_claimed
    unfolding listeners_def by (metis append_Nil append_assoc)
  then show ?thesis by blast
qed

lemma validateHost_Inr:
  assumes "validateHost c i (host, h) () = Inr ()"
  shows "host \<noteq> [] \<and> \<not> contains host portSeparator \<and> hh_Host h \<noteq> [] \<and>
    0 < hh_DefaultPort h \<and> hh_DefaultPort h \<le> 65535 \<and>
    (NeedsAuth h (hh_DefaultPort h) \<longrightarrow> Auth c \<noteq> None)"
  using assms by (auto simp: validateHost_def validPort_def Let_def)

lemma Validate_host:
  assumes "Validate urlParses c = Inr ()" and "HTTP c = Some hc" and "(host, h) \<in> set (http_Hosts hc)"
  shows "\<exists>i. validateHost c i (host, h) () = Inr ()"
proof -
  from assms(1) obtain s1 where "validateHTTP c \<lparr>seen = [], ingress = 0\<rparr> = Inr s1"
    by (elim ValidateE)
  with assms(2) have "for_each 0 (validateHost c) (http_Hosts hc) () = Inr ()"
    by (auto simp: validateHTTP_def)
  from for_each_unit [OF this assms(3)] show ?thesis .
qed

text \<open>What the loop over the RDP users establishes.\<close>

definition rdp_user_ok :: "RDPUser \<Rightarrow> bool" where
  "rdp_user_ok u \<longleftrightarrow> ru_VMName u \<noteq> [] \<and> ru_RemoteUser u \<noteq> [] \<and>
     (case hex_decode (ru_NTHash u) of None \<Rightarrow> False | Some h \<Rightarrow> length h = 16) \<and>
     validHostPort [] (ru_Target u) = Inr ()"

lemma validateRDPUser_ok:
  assumes "validateRDPUser i u names = Inr names'"
  shows "rdp_user_ok u \<and> to_lower (ru_VMName u) \<notin> set names \<and> names' = to_lower (ru_VMName u) # names"
  using assms length_hex_decode [of "ru_NTHash u"]
  by (auto simp: validateRDPUser_def rdp_user_ok_def Let_def validHostPort_Inr split: option.splits)

lemma validateRDP_users:
  assumes "for_each 0 validateRDPUser us [] = Inr names"
  shows "distinct (map (\<lambda>u. to_lower (ru_VMName u)) us) \<and> list_all rdp_user_ok us"
proof -
  have "set names = set (map (\<lambda>u. to_lower (ru_VMName u)) us) \<and>
    distinct (map (\<lambda>u. to_lower (ru_VMName u)) us) \<and> list_all rdp_user_ok us"
    using assms by (rule for_each_invariant) (auto dest!: validateRDPUser_ok)
  then show ?thesis by simp
qed

section \<open>An example configuration\<close>

text \<open>One of everything; the witnesses below and in the later theories use it.\<close>

definition example_host :: HTTPHost where
  "example_host = \<lparr>hh_Host = ''10.0.0.5'', hh_UnauthenticatedPorts = [3000], hh_DefaultPort = 8080,
     hh_RemoteUser = ''app'', hh_PortHosts = True\<rparr>"

definition example_rdp_user :: RDPUser where
  "example_rdp_user = \<lparr>ru_VMName = ''One'', ru_NTHash = ''8846f7eaee8fb117ad06bdd830b7586c'',
     ru_Target = ''10.0.0.5:3389'', ru_RemoteUser = ''desktop'', ru_RemotePassword = ''pw''\<rparr>"

definition example_config :: Config where
  "example_config = \<lparr>ControlSocket = ''/run/dpipe.sock'',
     HTTP = Some \<lparr>http_Listen = '':80'', http_Reuseport = True,
                   http_Hosts = [(''one.vm.local'', example_host)], http_Default = []\<rparr>,
     HTTPS = Some \<lparr>https_Listen = '':443'', https_Reuseport = True\<rparr>,
     TCP = [\<lparr>tcp_Listen = '':5432'', tcp_Target = ''10.0.0.5:5432'', tcp_Protocol = ''tcp'',
             tcp_Reuseport = False\<rparr>],
     SSH = Some \<lparr>ssh_Listen = '':22'', ssh_Reuseport = False,
                 ssh_Users = [\<lparr>su_PubKey = ''ssh-ed25519 AAAA'', su_PubKeyFile = [], su_VMName = ''one'',
                               su_Target = ''10.0.0.5:22'', su_RemoteUser = ''app''\<rparr>]\<rparr>,
     RDP = Some \<lparr>rdp_Listen = '':3389'', rdp_Reuseport = False, rdp_Users = [example_rdp_user]\<rparr>,
     Auth = Some \<lparr>au_ControlURL = ''https://control.local/login'', au_CookieName = [],
                  au_CookieSecretFile = ''/etc/secret'', au_CookieTTL = 0, au_CookieSecure = True,
                  au_CookieSameSite = ''Lax''\<rparr>,
     Console = Some \<lparr>con_Label = [], con_RemoteUser = []\<rparr>,
     Desktop = Some \<lparr>desk_Label = [], desk_RemoteUser = [], desk_RemotePassword = ''pw''\<rparr>,
     Site = Some \<lparr>site_Listen = [], site_Hosts = [''vm.local''], site_HTMLFile = ''/srv/index.html''\<rparr>,
     ACME = None, ListenForwards = [], DialTimeout = 0, HTTPSniffTimeout = 0,
     HTTPSniffMaxBytes = 0, LogLevel = []\<rparr>"

lemma example_config_valid: "Validate (\<lambda>s. s \<noteq> []) example_config = Inr ()"
  by code_simp

section \<open>Properties\<close>

text \<open>
  Further result. A configuration that passes \<open>Validate\<close> has at least one ingress, and its
  listeners (http, https, every tcp route, ssh, rdp and the site) are pairwise different and
  are all of the form \<open>host:port\<close>: no two of them can claim one address.
\<close>

theorem Validate_listeners:
  assumes "Validate urlParses c = Inr ()"
  shows "distinct (listeners c) \<and> listeners c \<noteq> [] \<and>
    list_all (\<lambda>a. split_host_port a \<noteq> None) (listeners c)"
proof -
  obtain st where "claimed (listeners c) st"
    using Validate_claimed [OF assms] by blast
  moreover have "listeners c \<noteq> []"
  proof
    assume "listeners c = []"
    then have "HTTP c = None" "HTTPS c = None" "TCP c = []" "SSH c = None" "RDP c = None"
      by (auto simp: listeners_def split: option.splits)
    with assms show False
      by (elim ValidateE)
         (auto simp: validateHTTP_def validateHTTPS_def validateSSH_def validateRDP_def)
  qed
  ultimately show ?thesis by (auto simp: claimed_def)
qed

theorem Validate_listeners_witness:
  "distinct (listeners example_config) \<and> length (listeners example_config) = 6"
  using Validate_listeners [OF example_config_valid]
  by (simp add: example_config_def listeners_def)

text \<open>
  Further result. A configuration that passes \<open>Validate\<close> is closed under authentication: a host
  whose default port is not exempt, a console and a desktop are only accepted together with an
  \<open>auth\<close> section, and the console and desktop labels are different single labels, so that no
  host name can mean both.
\<close>

theorem Validate_auth_present:
  assumes "Validate urlParses c = Inr ()"
  shows "(\<forall>hc host h. HTTP c = Some hc \<and> (host, h) \<in> set (http_Hosts hc) \<and>
      NeedsAuth h (hh_DefaultPort h) \<longrightarrow> Auth c \<noteq> None) \<and>
    (Console c \<noteq> None \<or> Desktop c \<noteq> None \<longrightarrow> Auth c \<noteq> None \<and> HTTP c \<noteq> None) \<and>
    (\<forall>k d. Console c = Some k \<and> Desktop c = Some d \<longrightarrow>
      Console_label k \<noteq> Desktop_label d \<and> hostLabelPattern (Console_label k) \<and>
      hostLabelPattern (Desktop_label d))"
proof (intro conjI allI impI)
  show "Auth c \<noteq> None"
    if "HTTP c = Some hc \<and> (host, h) \<in> set (http_Hosts hc) \<and> NeedsAuth h (hh_DefaultPort h)"
    for hc host h
    using that Validate_host [OF assms, of hc host h] validateHost_Inr by blast
qed (use assms in \<open>elim ValidateE; auto simp: validateConsole_def validateDesktop_def\<close>)+

theorem Validate_auth_present_witness:
  "Auth example_config \<noteq> None \<and> NeedsAuth example_host (hh_DefaultPort example_host)"
proof -
  have "HTTP example_config \<noteq> None" by (simp add: example_config_def)
  then obtain hc where hc: "HTTP example_config = Some hc" by blast
  then have "(''one.vm.local'', example_host) \<in> set (http_Hosts hc)"
    by (auto simp: example_config_def)
  moreover have "NeedsAuth example_host (hh_DefaultPort example_host)"
    by (simp add: example_host_def NeedsAuth_def)
  ultimately show ?thesis
    using Validate_auth_present [OF example_config_valid] hc by blast
qed

text \<open>
  Further result. The remote-desktop users of a configuration that passes \<open>Validate\<close> can be told
  apart by their lower-cased login name, which is the routing key, and each carries a 16-byte
  NT hash and a target with a concrete host and a port from 1 to 65535.
\<close>

theorem Validate_rdp_users:
  assumes "Validate urlParses c = Inr ()" and "RDP c = Some r"
  shows "distinct (map (\<lambda>u. to_lower (ru_VMName u)) (rdp_Users r)) \<and> list_all rdp_user_ok (rdp_Users r)"
proof -
  from assms(1) obtain s4 s5 where "validateRDP c s4 = Inr s5" by (elim ValidateE)
  with assms(2) obtain names where "for_each 0 validateRDPUser (rdp_Users r) [] = Inr names"
    by (auto simp: validateRDP_def)
  then show ?thesis by (rule validateRDP_users)
qed

theorem Validate_rdp_users_witness: "rdp_user_ok example_rdp_user"
  using Validate_rdp_users [OF example_config_valid]
  by (simp add: example_config_def)

end
