(* ===== verification/Proxy_Router.thy ===== *)
theory Proxy_Router
  imports Proxy_Config
begin

text \<open>
  The host map of \<open>dproxy\<close> (\<open>backstage/dproxy/internal/proxy/router.go\<close>): which backend a
  host name reaches, and which configuration entry decides whether it needs a login. The two
  are kept in two maps and answered by two functions; the main lemmas show that they agree, and
  that a name of the form \<open>name--port.rest\<close> is answered as the published \<open>name.rest\<close> with that
  port.
\<close>

section \<open>Model\<close>

record Router =
  r_hosts :: "string \<rightharpoonup> string"
  r_entries :: "string \<rightharpoonup> HTTPHost"
  r_def :: string
  r_tcp :: "string \<rightharpoonup> TCPRoute"
  r_tcpList :: "TCPRoute list"

definition emptyRouter :: Router where
  "emptyRouter = \<lparr>r_hosts = Map.empty, r_entries = Map.empty, r_def = [], r_tcp = Map.empty,
     r_tcpList = []\<rparr>"

definition addHost :: "string \<times> HTTPHost \<Rightarrow> Router \<Rightarrow> Router" where
  "addHost kv r =
     (let (host, h) = kv in
      r\<lparr>r_hosts := (r_hosts r)(normalizeHost host \<mapsto> Target h),
        r_entries := (r_entries r)(normalizeHost host \<mapsto> h)\<rparr>)"

definition addSiteHost :: "HTTPHost \<Rightarrow> string \<Rightarrow> Router \<Rightarrow> Router" where
  "addSiteHost entry host r =
     (let h = normalizeHost host in
      if r_entries r h \<noteq> None \<or> h = [] then r
      else r\<lparr>r_hosts := (r_hosts r)(h \<mapsto> Target entry), r_entries := (r_entries r)(h \<mapsto> entry)\<rparr>)"

definition addTCP :: "TCPRoute \<Rightarrow> Router \<Rightarrow> Router" where
  "addTCP route r =
     r\<lparr>r_tcp := (r_tcp r)(tcp_Listen route \<mapsto> route), r_tcpList := r_tcpList r @ [route]\<rparr>"

definition NewRouter :: "Config \<Rightarrow> Router" where
  "NewRouter cfg =
     (let r = emptyRouter;
          r = (case HTTP cfg of
                 None \<Rightarrow> r
               | Some hc \<Rightarrow> (fold addHost (http_Hosts hc) r)\<lparr>r_def := http_Default hc\<rparr>);
          r = (case Site cfg of
                 None \<Rightarrow> r
               | Some s \<Rightarrow> (case Site_entry s of
                              None \<Rightarrow> r
                            | Some entry \<Rightarrow> fold (addSiteHost entry) (site_Hosts s) r))
      in fold addTCP (TCP cfg) r)"

definition splitPortHost :: "string \<Rightarrow> (string \<times> int) option" where
  "splitPortHost host =
     (case cut host ''.'' of
        None \<Rightarrow> None
      | Some (label, rest) \<Rightarrow>
          if rest = [] then None
          else case cut label portSeparator of
                 None \<Rightarrow> None
               | Some (name, digits) \<Rightarrow>
                   if name = [] then None
                   else case atoi digits of
                          None \<Rightarrow> None
                        | Some port \<Rightarrow>
                            if port < 1 \<or> port > 65535 \<or> itoa port \<noteq> digits then None
                            else Some (name @ ''.'' @ rest, port))"

definition portEntry :: "Router \<Rightarrow> string \<Rightarrow> HTTPHost option" where
  "portEntry r host =
     (case splitPortHost host of
        None \<Rightarrow> None
      | Some (base, port) \<Rightarrow>
          (case r_entries r base of
             None \<Rightarrow> None
           | Some e \<Rightarrow> if \<not> hh_PortHosts e then None else Some (e\<lparr>hh_DefaultPort := port\<rparr>)))"

definition HostBackend :: "Router \<Rightarrow> string \<Rightarrow> string option" where
  "HostBackend r host =
     (let h = normalizeHost host in
      if h = [] then None
      else case r_hosts r h of
             Some t \<Rightarrow> Some t
           | None \<Rightarrow>
               (case portEntry r h of
                  Some e \<Rightarrow> Some (Target e)
                | None \<Rightarrow> if r_def r \<noteq> [] then Some (r_def r) else None))"

definition HostEntry :: "Router \<Rightarrow> string \<Rightarrow> HTTPHost option" where
  "HostEntry r host =
     (let h = normalizeHost host in
      case r_entries r h of
        Some e \<Rightarrow> Some e
      | None \<Rightarrow> portEntry r h)"

definition PublishedEntry :: "Router \<Rightarrow> string \<Rightarrow> HTTPHost option" where
  "PublishedEntry r host = r_entries r (normalizeHost host)"

definition TCPRoutes :: "Router \<Rightarrow> TCPRoute list" where
  "TCPRoutes r = r_tcpList r"

section \<open>The two maps agree\<close>

definition router_inv :: "Router \<Rightarrow> bool" where
  "router_inv r \<longleftrightarrow> r_hosts r = map_option Target \<circ> r_entries r"

lemma router_inv_addHost: "router_inv r \<Longrightarrow> router_inv (addHost kv r)"
  by (cases kv) (auto simp: router_inv_def addHost_def)

lemma router_inv_addSiteHost: "router_inv r \<Longrightarrow> router_inv (addSiteHost e host r)"
  by (auto simp: router_inv_def addSiteHost_def Let_def)

lemma router_inv_addTCP: "router_inv r \<Longrightarrow> router_inv (addTCP route r)"
  by (simp add: router_inv_def addTCP_def)

lemma fold_invariant:
  assumes "P r" and "\<And>x r. x \<in> set xs \<Longrightarrow> P r \<Longrightarrow> P (f x r)"
  shows "P (fold f xs r)"
  using assms by (induction xs arbitrary: r) auto

lemma router_inv_NewRouter: "router_inv (NewRouter cfg)"
proof -
  have "router_inv emptyRouter"
    by (simp add: router_inv_def emptyRouter_def fun_eq_iff)
  moreover have "router_inv (r\<lparr>r_def := d\<rparr>) = router_inv r" for r d
    by (simp add: router_inv_def)
  ultimately show ?thesis
    unfolding NewRouter_def
    by (auto simp: Let_def split: option.split
        intro!: fold_invariant [where P = router_inv]
          router_inv_addHost router_inv_addSiteHost router_inv_addTCP)
qed

text \<open>Every entry comes from \<open>http.hosts\<close>, or is the site, whose only port is exempt.\<close>

definition entry_source :: "Config \<Rightarrow> HTTPHost \<Rightarrow> bool" where
  "entry_source cfg e \<longleftrightarrow>
     (\<exists>hc host. HTTP cfg = Some hc \<and> (host, e) \<in> set (http_Hosts hc)) \<or>
     (\<exists>s. Site cfg = Some s \<and> Site_entry s = Some e)"

definition entries_from :: "Config \<Rightarrow> Router \<Rightarrow> bool" where
  "entries_from cfg r \<longleftrightarrow> (\<forall>h e. r_entries r h = Some e \<longrightarrow> entry_source cfg e)"

lemma entries_from_addHost:
  assumes "HTTP cfg = Some hc" and "kv \<in> set (http_Hosts hc)" and "entries_from cfg r"
  shows "entries_from cfg (addHost kv r)"
proof -
  obtain k e where e: "kv = (k, e)" by fastforce
  with assms have "entry_source cfg e" unfolding entry_source_def by blast
  with e assms(3) show ?thesis by (simp add: addHost_def entries_from_def)
qed

lemma entries_from_addSiteHost:
  assumes "Site cfg = Some s" and "Site_entry s = Some en" and "entries_from cfg r"
  shows "entries_from cfg (addSiteHost en host r)"
  using assms by (auto simp: addSiteHost_def Let_def entry_source_def entries_from_def)

lemma entries_from_simps [simp]:
  "entries_from cfg emptyRouter" "entries_from cfg (r\<lparr>r_def := d\<rparr>) = entries_from cfg r"
  "entries_from cfg (addTCP route r) = entries_from cfg r"
  by (simp_all add: entries_from_def emptyRouter_def addTCP_def)

lemma entries_from_NewRouter: "entries_from cfg (NewRouter cfg)"
  unfolding NewRouter_def
  by (auto simp: Let_def split: option.split intro!: fold_invariant [where P = "entries_from cfg"]
      intro: entries_from_addHost entries_from_addSiteHost)

section \<open>The form \<open>name--port.rest\<close>\<close>

lemma index_of_dashes:
  assumes "a \<noteq> []"
  shows "index_of (a @ ''--'' @ b) ''--'' = Some (length a) \<longleftrightarrow>
    \<not> contains a ''--'' \<and> last a \<noteq> CHR ''-''"
    (is "?first \<longleftrightarrow> ?clean")
proof
  assume first: ?first
  have "\<not> contains a ''--''"
  proof
    assume "contains a ''--''"
    then obtain i where i: "index_of a ''--'' = Some i" by (auto simp: contains_def)
    have "i < length a" using index_of_length [OF i] by simp
    with index_of_append_right [OF i, of "''--'' @ b"] first show False by simp
  qed
  moreover have "last a \<noteq> CHR ''-''"
  proof
    assume "last a = CHR ''-''"
    then have a: "a = butlast a @ ''-''" using assms by (metis append_butlast_last_id)
    have "has_prefix (drop (length (butlast a)) (a @ ''--'' @ b)) ''--''"
      by (subst (2) a) (simp add: has_prefix_def)
    moreover have "length (butlast a) < length a" using assms by (cases a) auto
    ultimately show False using index_of_least [OF first] by blast
  qed
  ultimately show ?clean ..
next
  assume clean: ?clean
  show ?first
  proof (rule index_of_eq_SomeI)
    fix j assume j: "j < length a"
    show "\<not> has_prefix (drop j (a @ ''--'' @ b)) ''--''"
    proof
      assume hit: "has_prefix (drop j (a @ ''--'' @ b)) ''--''"
      show False
      proof (cases "j + 2 \<le> length a")
        case True
        with hit have "has_prefix (drop j a) ''--''"
          using has_prefix_drop_append [of j a "''--'' @ b" "''--''"] by simp
        with clean show False
          using index_of_None [of a "''--''" j] by (auto simp: contains_def)
      next
        case False
        with j have "j = length a - 1" by simp
        with assms have "drop j a = [last a]" by (metis append_butlast_last_id
            append_eq_conv_conj length_butlast)
        with hit j clean show False by (simp add: has_prefix_def)
      qed
    qed
  qed (simp_all add: has_prefix_def)
qed

lemma cut_portSeparator:
  assumes "a \<noteq> []"
  shows "cut l portSeparator = Some (a, b) \<longleftrightarrow>
    l = a @ ''--'' @ b \<and> \<not> contains a ''--'' \<and> last a \<noteq> CHR ''-''"
proof
  assume cut: "cut l portSeparator = Some (a, b)"
  then have l: "l = a @ ''--'' @ b"
    using cut_SomeD [OF cut] by (simp add: portSeparator_def)
  moreover obtain i where i: "index_of l ''--'' = Some i" "a = take i l"
    using cut by (auto simp: cut_def portSeparator_def)
  moreover have "length a = i" using i(2) index_of_length [OF i(1)] by simp
  ultimately show "l = a @ ''--'' @ b \<and> \<not> contains a ''--'' \<and> last a \<noteq> CHR ''-''"
    using index_of_dashes [OF assms] by blast
next
  assume "l = a @ ''--'' @ b \<and> \<not> contains a ''--'' \<and> last a \<noteq> CHR ''-''"
  then have "index_of l ''--'' = Some (length a)" and l: "l = a @ ''--'' @ b"
    using index_of_dashes [OF assms] by blast+
  then show "cut l portSeparator = Some (a, b)"
    by (simp add: cut_def portSeparator_def)
qed

lemma cut_dot_iff: "cut h ''.'' = Some (a, b) \<longleftrightarrow> h = a @ ''.'' @ b \<and> CHR ''.'' \<notin> set a"
  using cut_SomeD [of h "''.''" a b] cut_single_notin [of h "CHR ''.''" a b]
    cut_single [of "CHR ''.''" a b] by auto

lemma itoa_port_no_dot: "0 \<le> p \<Longrightarrow> CHR ''.'' \<notin> set (itoa p)"
  using itoa_digits [of p "CHR ''.''"] by (auto simp: is_digit_def)

definition port_host :: "string \<Rightarrow> int \<Rightarrow> string \<Rightarrow> string" where
  "port_host name p rest = name @ ''--'' @ itoa p @ ''.'' @ rest"

definition port_host_ok :: "string \<Rightarrow> int \<Rightarrow> string \<Rightarrow> bool" where
  "port_host_ok name p rest \<longleftrightarrow> name \<noteq> [] \<and> rest \<noteq> [] \<and> CHR ''.'' \<notin> set name \<and>
     \<not> contains name ''--'' \<and> last name \<noteq> CHR ''-'' \<and> 1 \<le> p \<and> p \<le> 65535"

lemma splitPortHost_SomeD:
  assumes "splitPortHost h = Some (base, p)"
  shows "\<exists>name rest. h = port_host name p rest \<and> base = name @ ''.'' @ rest \<and> port_host_ok name p rest"
proof -
  from assms obtain label rest name digits where
    c: "cut h ''.'' = Some (label, rest)" "cut label portSeparator = Some (name, digits)"
    "rest \<noteq> []" "name \<noteq> []" "1 \<le> p" "p \<le> 65535" "itoa p = digits" "base = name @ ''.'' @ rest"
    by (auto simp: splitPortHost_def split: option.splits if_splits)
  moreover have "h = label @ ''.'' @ rest" "CHR ''.'' \<notin> set label"
    using c(1) by (simp_all add: cut_dot_iff)
  moreover have "label = name @ ''--'' @ digits" "\<not> contains name ''--''" "last name \<noteq> CHR ''-''"
    using c(2) cut_portSeparator [OF c(4)] by blast+
  ultimately show ?thesis
    by (intro exI [of _ name] exI [of _ rest]) (simp add: port_host_def port_host_ok_def)
qed

lemma splitPortHost_port_host:
  assumes "port_host_ok name p rest"
  shows "splitPortHost (port_host name p rest) = Some (name @ ''.'' @ rest, p)"
proof -
  have "cut (port_host name p rest) ''.'' = Some (name @ ''--'' @ itoa p, rest)"
    using assms itoa_port_no_dot [of p]
    by (subst cut_dot_iff) (simp add: port_host_def port_host_ok_def)
  moreover have "cut (name @ ''--'' @ itoa p) portSeparator = Some (name, itoa p)"
    using assms by (subst cut_portSeparator) (simp_all add: port_host_ok_def)
  moreover have "atoi (itoa p) = Some p"
    using assms by (intro atoi_itoa) (simp_all add: port_host_ok_def)
  ultimately show ?thesis
    using assms by (simp add: splitPortHost_def port_host_ok_def)
qed

section \<open>Properties\<close>

text \<open>
  Further result. Routing and authentication see the same entry: for a router built from any
  configuration, the backend a host name is sent to is the target of exactly the entry
  \<open>HostEntry\<close> returns for that name, and without an entry it is the configured default or
  nothing.
\<close>

theorem HostBackend_agrees_HostEntry:
  "HostBackend (NewRouter cfg) host =
    (if normalizeHost host = [] then None
     else case HostEntry (NewRouter cfg) host of
            Some e \<Rightarrow> Some (Target e)
          | None \<Rightarrow> if r_def (NewRouter cfg) \<noteq> [] then Some (r_def (NewRouter cfg)) else None)"
  using router_inv_NewRouter [of cfg]
  by (auto simp: HostBackend_def HostEntry_def router_inv_def Let_def split: option.splits)

text \<open>
  Further result. \<open>splitPortHost\<close> recognises exactly the names \<open>name--port.rest\<close>: it inverts
  their construction, and whatever it accepts is such a name, with a non-empty name of one label
  that neither holds the separator nor ends in a dash, a port from 1 to 65535 written without
  leading zeros, and a non-empty rest. In particular every name has at most one reading.
\<close>

theorem splitPortHost_iff:
  "splitPortHost h = Some (base, p) \<longleftrightarrow>
    (\<exists>name rest. h = port_host name p rest \<and> base = name @ ''.'' @ rest \<and> port_host_ok name p rest)"
  using splitPortHost_SomeD splitPortHost_port_host by blast

text \<open>
  Further result. When \<open>name.rest\<close> is published with \<open>port_hosts\<close> and the router holds no entry
  of its own for \<open>name--port.rest\<close>, that name is routed to the requested port of the same
  machine, and it is exempt from login exactly when that port, not the published default port,
  is listed in \<open>unauthenticated_ports\<close>. Without \<open>port_hosts\<close> it has no entry.
\<close>

theorem port_host_routed:
  assumes "port_host_ok name p rest"
    and "normalizeHost host = port_host name p rest"
    and "r_entries r (port_host name p rest) = None"
    and "r_entries r (name @ ''.'' @ rest) = Some e"
  shows "if hh_PortHosts e
    then \<exists>e'. HostEntry r host = Some e' \<and> hh_Host e' = hh_Host e \<and> hh_DefaultPort e' = p \<and>
           Target e' = join_host_port (hh_Host e) (itoa p) \<and>
           NeedsAuth e' (hh_DefaultPort e') = (p \<notin> set (hh_UnauthenticatedPorts e))
    else HostEntry r host = None"
  using assms splitPortHost_port_host [OF assms(1)]
  by (simp add: HostEntry_def portEntry_def Target_def NeedsAuth_def)

lemma example_port_host:
  "r_entries (NewRouter example_config) ''one--3000.vm.local'' = None"
  "r_entries (NewRouter example_config) ''one.vm.local'' = Some example_host"
  "normalizeHost ''One--3000.vm.local:80'' = port_host ''one'' 3000 ''vm.local''"
  "port_host_ok ''one'' 3000 ''vm.local''"
  "port_host ''one'' 3000 ''vm.local'' = ''one--3000.vm.local''"
  by code_simp+

theorem port_host_routed_witness:
  "\<exists>e'. HostEntry (NewRouter example_config) ''One--3000.vm.local:80'' = Some e' \<and>
     Target e' = ''10.0.0.5:3000'' \<and> \<not> NeedsAuth e' (hh_DefaultPort e')"
proof -
  have "join_host_port (hh_Host example_host) (itoa 3000) = ''10.0.0.5:3000''" by code_simp
  moreover have "hh_PortHosts example_host" "hh_UnauthenticatedPorts example_host = [3000]"
    by (simp_all add: example_host_def)
  ultimately show ?thesis
    using port_host_routed [of "''one''" 3000 "''vm.local''" "''One--3000.vm.local:80''"
        "NewRouter example_config" example_host]
    by (auto simp: example_port_host)
qed

end
