(* ===== verification/Go_Http.thy ===== *)
theory Go_Http
  imports Go_Prelude Go_Encoding
begin

text \<open>
  The parts of \<open>net/http\<close> and \<open>net/url\<close> that the decisions of the proxies rest on: a parsed
  request with its header, the cookies of a request, the text of a \<open>Set-Cookie\<close> header and the
  encoding of query parameters. Parsing a request from bytes (\<open>http.ReadRequest\<close>) and a URL
  (\<open>url.ParseRequestURI\<close>) stay arguments of the definitions that use them; they give a value of
  \<open>request\<close> or \<open>parsed_url\<close>.
\<close>

section \<open>Requests\<close>

text \<open>A header maps a canonical name to its values; \<open>Get\<close> is the first, or empty.\<close>

type_synonym header = "string \<Rightarrow> string list"

definition header_get :: "header \<Rightarrow> string \<Rightarrow> string" where
  "header_get h k = (case h k of [] \<Rightarrow> [] | v # _ \<Rightarrow> v)"

record parsed_url =
  u_Path :: string
  u_RequestURI :: string
  u_Query :: "string \<Rightarrow> string"

record request =
  rq_URL :: parsed_url
  rq_Header :: header

section \<open>Cookies\<close>

definition token_char :: "char \<Rightarrow> bool" where
  "token_char c \<longleftrightarrow> is_digit c \<or> (65 \<le> (of_char c :: int) \<and> (of_char c :: int) \<le> 90) \<or>
     (97 \<le> (of_char c :: int) \<and> (of_char c :: int) \<le> 122) \<or>
     c \<in> {CHR ''!'', CHR ''#'', CHR ''$'', CHR ''%'', CHR ''&'', CHR 0x27, CHR ''*'', CHR ''+'',
          CHR ''-'', CHR ''.'', CHR ''^'', CHR ''_'', CHR 0x60, CHR ''|'', CHR ''~''}"

definition is_token :: "string \<Rightarrow> bool" where
  "is_token s \<longleftrightarrow> s \<noteq> [] \<and> list_all token_char s"

definition cookie_byte :: "char \<Rightarrow> bool" where
  "cookie_byte c \<longleftrightarrow> 0x20 \<le> (of_char c :: int) \<and> (of_char c :: int) < 0x7f \<and>
     c \<noteq> CHR 0x22 \<and> c \<noteq> CHR '';'' \<and> c \<noteq> CHR 0x5C"

text \<open>\<open>parseCookieValue\<close>: surrounding double quotes are stripped.\<close>

definition unquote_cookie :: "string \<Rightarrow> string" where
  "unquote_cookie s =
     (if length s > 1 \<and> hd s = CHR 0x22 \<and> last s = CHR 0x22 then butlast (tl s) else s)"

definition cookie_trim :: "string \<Rightarrow> string" where
  "cookie_trim s =
     drop_while_end (\<lambda>c. c = CHR '' '' \<or> c = CHR 0x09)
       (dropWhile (\<lambda>c. c = CHR '' '' \<or> c = CHR 0x09) s)"

definition cookie_pair :: "string \<Rightarrow> (string \<times> string) option" where
  "cookie_pair part0 =
     (let part = cookie_trim part0;
          (name, val) = (case cut part ''='' of Some (n, v) \<Rightarrow> (n, v) | None \<Rightarrow> (part, []));
          name = cookie_trim name;
          val = unquote_cookie val
      in if part = [] \<or> \<not> is_token name \<or> \<not> list_all cookie_byte val then None
         else Some (name, val))"

text \<open>\<open>Request.Cookie(name)\<close>: the first cookie of that name over all \<open>Cookie\<close> lines.\<close>

definition request_cookie :: "request \<Rightarrow> string \<Rightarrow> string option" where
  "request_cookie r name =
     (if name = [] then None
      else map_of (List.map_filter cookie_pair
             (concat (map (\<lambda>line. split_str line '';'') (rq_Header r ''Cookie'')))) name)"

section \<open>\<open>Set-Cookie\<close> and query strings\<close>

record cookie =
  ck_Name :: string
  ck_Value :: string
  ck_Path :: string
  ck_MaxAge :: int
  ck_HttpOnly :: bool
  ck_Secure :: bool
  ck_SameSite :: string
  ck_Partitioned :: bool

definition sanitize_cookie_value :: "string \<Rightarrow> string" where
  "sanitize_cookie_value v0 =
     (let v = filter cookie_byte v0
      in if CHR '' '' \<in> set v \<or> CHR '','' \<in> set v then [CHR 0x22] @ v @ [CHR 0x22] else v)"

definition cookie_string :: "cookie \<Rightarrow> string" where
  "cookie_string c =
     (if \<not> is_token (ck_Name c) then []
      else ck_Name c @ ''='' @ sanitize_cookie_value (ck_Value c) @
        (if ck_Path c \<noteq> [] then ''; Path='' @ ck_Path c else []) @
        (if ck_MaxAge c > 0 then ''; Max-Age='' @ itoa (ck_MaxAge c)
         else if ck_MaxAge c < 0 then ''; Max-Age=0'' else []) @
        (if ck_HttpOnly c then ''; HttpOnly'' else []) @
        (if ck_Secure c then ''; Secure'' else []) @
        ''; SameSite='' @ ck_SameSite c @
        (if ck_Partitioned c then ''; Partitioned'' else []))"

definition unreserved :: "char \<Rightarrow> bool" where
  "unreserved c \<longleftrightarrow> is_digit c \<or> (65 \<le> (of_char c :: int) \<and> (of_char c :: int) \<le> 90) \<or>
     (97 \<le> (of_char c :: int) \<and> (of_char c :: int) \<le> 122) \<or>
     c \<in> {CHR ''-'', CHR ''_'', CHR ''.'', CHR ''~''}"

definition upper_hex :: string where
  "upper_hex = ''0123456789ABCDEF''"

text \<open>\<open>url.QueryEscape\<close>.\<close>

definition query_escape :: "string \<Rightarrow> string" where
  "query_escape s = concat (map (\<lambda>c.
     if unreserved c then [c]
     else if c = CHR '' '' then ''+''
     else [CHR ''%'', upper_hex ! nat (of_char c div 16), upper_hex ! nat (of_char c mod 16)]) s)"

text \<open>\<open>url.Values.Encode\<close> of single-valued parameters given in key order.\<close>

definition values_encode :: "(string \<times> string) list \<Rightarrow> string" where
  "values_encode kvs = join (map (\<lambda>kv. query_escape (fst kv) @ ''='' @ query_escape (snd kv)) kvs) ''&''"

text \<open>Percent-encoded text holds only unreserved characters, \<open>%\<close> and \<open>+\<close>: no line break gets through.\<close>

lemma upper_hex_unreserved: "i < 16 \<Longrightarrow> unreserved (upper_hex ! i)"
proof -
  assume "i < 16"
  then have "upper_hex ! i \<in> set upper_hex" by (intro nth_mem) (simp add: upper_hex_def)
  then show ?thesis by (auto simp: upper_hex_def unreserved_def is_digit_def)
qed

lemma query_escape_chars:
  assumes "c \<in> set (query_escape s)"
  shows "unreserved c \<or> c = CHR ''%'' \<or> c = CHR ''+''"
proof -
  have "(0 :: int) \<le> of_char d" "of_char d < (256 :: int)" for d
    by (cases d; auto simp: horner_sum_simps)+
  moreover have "nat (x div 16) < 16" if "0 \<le> x" "x < 256" for x :: int
    using that by linarith
  ultimately have "nat (of_char d div 16) < 16" "nat (of_char d mod 16) < 16" for d
    by simp_all
  with assms upper_hex_unreserved show ?thesis
    by (auto simp: query_escape_def split: if_splits)
qed

section \<open>A cookie that was set is found again\<close>

lemma split_str_single: "c \<notin> set s \<Longrightarrow> split_str s [c] = [s]"
proof -
  assume "c \<notin> set s"
  then have "index_of s [c] = None" by (induction s) (auto simp: has_prefix_def)
  then show ?thesis by (subst split_str.simps) simp
qed

lemma drop_while_end_id: "s = [] \<or> \<not> P (last s) \<Longrightarrow> drop_while_end P s = s"
  by (cases s rule: rev_cases) (auto simp: drop_while_end_def)

definition blank :: "char \<Rightarrow> bool" where
  "blank c \<longleftrightarrow> c = CHR '' '' \<or> c = CHR 0x09"

lemma cookie_trim_id: "\<forall>c\<in>set s. \<not> blank c \<Longrightarrow> cookie_trim s = s"
proof -
  assume s: "\<forall>c\<in>set s. \<not> blank c"
  then have "dropWhile (\<lambda>c. c = CHR '' '' \<or> c = CHR 0x09) s = s"
    by (cases s) (auto simp: blank_def)
  moreover have "s = [] \<or> \<not> (last s = CHR '' '' \<or> last s = CHR 0x09)"
    using s last_in_set [of s] unfolding blank_def by blast
  ultimately show ?thesis by (simp add: cookie_trim_def drop_while_end_id)
qed

text \<open>A value that needs no quoting in a cookie.\<close>

definition plain_cookie_value :: "string \<Rightarrow> bool" where
  "plain_cookie_value v \<longleftrightarrow> list_all (\<lambda>c. cookie_byte c \<and> \<not> blank c) v"

lemma token_char_other:
  "token_char c \<Longrightarrow> c \<noteq> CHR ''='' \<and> c \<noteq> CHR '';'' \<and> \<not> blank c"
  by (auto simp: token_char_def blank_def is_digit_def)

lemma request_cookie_found:
  assumes "is_token name" and "plain_cookie_value v" and "rq_Header r ''Cookie'' = [name @ ''='' @ v]"
  shows "request_cookie r name = Some v"
proof -
  let ?line = "name @ CHR ''='' # v"
  have n: "name \<noteq> []" "\<forall>c\<in>set name. c \<noteq> CHR ''='' \<and> c \<noteq> CHR '';'' \<and> \<not> blank c"
    using assms(1) token_char_other by (auto simp: is_token_def list_all_iff)
  have v: "\<forall>c\<in>set v. cookie_byte c \<and> c \<noteq> CHR '';'' \<and> \<not> blank c"
    using assms(2) by (auto simp: plain_cookie_value_def list_all_iff cookie_byte_def)
  have semi: "CHR '';'' \<notin> set name" "CHR '';'' \<notin> set v" "CHR ''='' \<notin> set name"
    using n v by blast+
  then have "split_str ?line '';'' = [?line]"
    by (intro split_str_single) simp
  moreover have "\<not> blank (CHR ''='')" by (simp add: blank_def)
  with n v have "cookie_trim ?line = ?line" "cookie_trim name = name"
    by (intro cookie_trim_id ballI; fastforce)+
  moreover have "cut ?line ''='' = Some (name, v)"
    by (rule cut_single [OF semi(3)])
  moreover have "unquote_cookie v = v"
    using v by (cases v) (auto simp: unquote_cookie_def cookie_byte_def)
  moreover have "list_all cookie_byte v" using v by (simp add: list_all_iff)
  ultimately have "cookie_pair ?line = Some (name, v)"
    using assms(1) n by (simp add: cookie_pair_def)
  with \<open>split_str ?line '';'' = [?line]\<close> n assms(3) show ?thesis
    by (simp add: request_cookie_def List.map_filter_simps)
qed

end
