(* ===== verification/Proxy_Auth.thy ===== *)
theory Proxy_Auth
  imports Proxy_Router Go_Crypto Go_Json Go_Http
begin

text \<open>
  Session tokens and the login flow of \<open>dproxy\<close>
  (\<open>backstage/dproxy/internal/proxy/auth.go\<close>). A token is the base64 of a JSON object of
  claims, a dot, and the base64 of its HMAC-SHA-256. The clock is an argument \<open>now\<close> in
  nanoseconds; the contents of the secret file are given.
\<close>

section \<open>Model\<close>

definition CallbackPath :: string where
  "CallbackPath = ''/__auth/callback''"

definition defaultCookieName :: string where
  "defaultCookieName = ''dpipe_session''"

definition second :: int where
  "second = 1000000000"

definition defaultCookieTTL :: Duration where
  "defaultCookieTTL = 12 * 3600 * second"

definition consoleAudPrefix :: string where
  "consoleAudPrefix = ''console:''"

definition desktopAudPrefix :: string where
  "desktopAudPrefix = ''desktop:''"

definition agentAudPrefix :: string where
  "agentAudPrefix = ''agent:''"

record Authenticator =
  at_cfg :: AuthConfig
  at_secret :: bytes

record claims =
  cl_Sub :: string
  cl_Aud :: string
  cl_Exp :: int

datatype auth_error = SecretFileUnreadable | SecretTooShort

text \<open>\<open>NewAuthenticator\<close>; \<open>file\<close> is the result of reading the secret file.\<close>

definition NewAuthenticator ::
  "string option \<Rightarrow> AuthConfig option \<Rightarrow> auth_error + Authenticator option" where
  "NewAuthenticator file cfg =
     (case cfg of
        None \<Rightarrow> Inr None
      | Some c \<Rightarrow>
          (case file of
             None \<Rightarrow> Inl SecretFileUnreadable
           | Some raw \<Rightarrow>
               let secret = trim_space raw in
               if length secret < 32 then Inl SecretTooShort
               else Inr (Some \<lparr>at_cfg = c, at_secret = to_bytes secret\<rparr>)))"

definition CookieName :: "Authenticator \<Rightarrow> string" where
  "CookieName a =
     (if au_CookieName (at_cfg a) \<noteq> [] then au_CookieName (at_cfg a) else defaultCookieName)"

definition ttl :: "Authenticator \<Rightarrow> Duration" where
  "ttl a = Duration_Or (au_CookieTTL (at_cfg a)) defaultCookieTTL"

text \<open>The JSON form of the claims, and \<open>json.Unmarshal\<close> into them.\<close>

definition claims_json :: "claims \<Rightarrow> json" where
  "claims_json c =
     JObj [(''sub'', JStr (cl_Sub c)), (''aud'', JStr (cl_Aud c)), (''exp'', JNum (itoa (cl_Exp c)))]"

fun claims_members :: "(string \<times> json) list \<Rightarrow> claims \<Rightarrow> claims option" where
  "claims_members [] c = Some c"
| "claims_members ((k, v) # ms) c =
     (if equal_fold k ''sub'' then
        (case v of JStr s \<Rightarrow> claims_members ms (c\<lparr>cl_Sub := s\<rparr>)
                 | JNull \<Rightarrow> claims_members ms c | _ \<Rightarrow> None)
      else if equal_fold k ''aud'' then
        (case v of JStr s \<Rightarrow> claims_members ms (c\<lparr>cl_Aud := s\<rparr>)
                 | JNull \<Rightarrow> claims_members ms c | _ \<Rightarrow> None)
      else if equal_fold k ''exp'' then
        (case v of JNum s \<Rightarrow>
                     (case atoi s of Some i \<Rightarrow> claims_members ms (c\<lparr>cl_Exp := i\<rparr>) | None \<Rightarrow> None)
                 | JNull \<Rightarrow> claims_members ms c | _ \<Rightarrow> None)
      else claims_members ms c)"

definition claims_unmarshal :: "bytes \<Rightarrow> claims option" where
  "claims_unmarshal raw =
     (let zero = \<lparr>cl_Sub = [], cl_Aud = [], cl_Exp = 0\<rparr> in
      case unmarshal_value (of_bytes raw) of
        Some (JObj ms) \<Rightarrow> claims_members ms zero
      | Some JNull \<Rightarrow> Some zero
      | _ \<Rightarrow> None)"

definition sign :: "Authenticator \<Rightarrow> bytes \<Rightarrow> bytes" where
  "sign a b = hmac sha256 (at_secret a) b"

definition Mint :: "int \<Rightarrow> Authenticator \<Rightarrow> string \<Rightarrow> string \<Rightarrow> string" where
  "Mint now a sub host =
     (let payload = print_json (claims_json
            \<lparr>cl_Sub = sub, cl_Aud = host, cl_Exp = (now + ttl a) div second\<rparr>);
          b = rawurl_encode (to_bytes payload)
      in b @ ''.'' @ rawurl_encode (sign a (to_bytes b)))"

definition verify :: "int \<Rightarrow> Authenticator \<Rightarrow> string \<Rightarrow> string \<Rightarrow> string option" where
  "verify now a value aud =
     (case cut value ''.'' of
        None \<Rightarrow> None
      | Some (b, sig) \<Rightarrow>
          (case rawurl_decode sig of
             None \<Rightarrow> None
           | Some want \<Rightarrow>
               if want \<noteq> sign a (to_bytes b) then None
               else case rawurl_decode b of
                      None \<Rightarrow> None
                    | Some raw \<Rightarrow>
                        (case claims_unmarshal raw of
                           None \<Rightarrow> None
                         | Some c \<Rightarrow>
                             if cl_Aud c = [] \<or> cl_Aud c \<noteq> aud \<or> now div second \<ge> cl_Exp c
                             then None else Some (cl_Sub c))))"

definition Verify :: "int \<Rightarrow> Authenticator \<Rightarrow> string \<Rightarrow> string \<Rightarrow> string option" where
  "Verify now a value host =
     (if list_ex (has_prefix host) [consoleAudPrefix, desktopAudPrefix, agentAudPrefix] then None
      else verify now a value host)"

definition verifyLabelled ::
  "int \<Rightarrow> Authenticator \<Rightarrow> string \<Rightarrow> string \<Rightarrow> string \<Rightarrow> string option" where
  "verifyLabelled now a value prefix host =
     (if host = [] then None else verify now a value (prefix @ host))"

definition VerifyConsole :: "int \<Rightarrow> Authenticator \<Rightarrow> string \<Rightarrow> string \<Rightarrow> string option" where
  "VerifyConsole now a value host = verifyLabelled now a value consoleAudPrefix host"

definition VerifyDesktop :: "int \<Rightarrow> Authenticator \<Rightarrow> string \<Rightarrow> string \<Rightarrow> string option" where
  "VerifyDesktop now a value host = verifyLabelled now a value desktopAudPrefix host"

definition LoginURL :: "Authenticator \<Rightarrow> string \<Rightarrow> string \<Rightarrow> string" where
  "LoginURL a host path =
     (let rd = (if au_CookieSecure (at_cfg a) then ''https://'' else ''http://'') @ host @ CallbackPath;
          sep = (if contains (au_ControlURL (at_cfg a)) ''?'' then ''&'' else ''?'')
      in au_ControlURL (at_cfg a) @ sep @
         values_encode [(''host'', host), (''next'', path), (''rd'', rd)])"

definition embeddable :: "Authenticator \<Rightarrow> bool" where
  "embeddable a \<longleftrightarrow> equal_fold (trim_space (au_CookieSameSite (at_cfg a))) ''none''"

definition SetCookie :: "Authenticator \<Rightarrow> string \<Rightarrow> string" where
  "SetCookie a value =
     (let c = \<lparr>ck_Name = CookieName a, ck_Value = value, ck_Path = ''/'',
               ck_MaxAge = (if ttl a \<ge> 0 then ttl a div second else - ((- ttl a) div second)),
               ck_HttpOnly = True, ck_Secure = au_CookieSecure (at_cfg a), ck_SameSite = ''Lax'',
               ck_Partitioned = False\<rparr>
      in cookie_string
           (if embeddable a
            then c\<lparr>ck_SameSite := ''None'', ck_Secure := True, ck_Partitioned := True\<rparr> else c))"

record authVerdict =
  av_ok :: bool
  av_status :: int
  av_location :: string
  av_setCookie :: string

definition verdictOK :: authVerdict where
  "verdictOK = \<lparr>av_ok = True, av_status = 0, av_location = [], av_setCookie = []\<rparr>"

definition verdictStatus :: "int \<Rightarrow> authVerdict" where
  "verdictStatus s = \<lparr>av_ok = False, av_status = s, av_location = [], av_setCookie = []\<rparr>"

definition completeLogin :: "int \<Rightarrow> Authenticator \<Rightarrow> string \<Rightarrow> request \<Rightarrow> authVerdict" where
  "completeLogin now a host req =
     (case Verify now a (u_Query (rq_URL req) ''token'') host of
        None \<Rightarrow> verdictStatus 401
      | Some sub \<Rightarrow>
          let nxt = u_Query (rq_URL req) ''next'';
              nxt = (if \<not> has_prefix nxt ''/'' \<or> has_prefix nxt ''//'' \<or>
                         contains_any nxt [CHR 0x0D, CHR 0x0A] then ''/'' else nxt)
          in \<lparr>av_ok = False, av_status = 302, av_location = nxt,
              av_setCookie = SetCookie a (Mint now a sub host)\<rparr>)"

definition wantsHTML :: "request \<Rightarrow> bool" where
  "wantsHTML r =
     (if header_get (rq_Header r) ''Upgrade'' \<noteq> [] then False
      else contains (header_get (rq_Header r) ''Accept'') ''text/html'')"

definition authorizeRequest ::
  "int \<Rightarrow> Router \<Rightarrow> Authenticator option \<Rightarrow> string \<Rightarrow> request \<Rightarrow> authVerdict" where
  "authorizeRequest now router auth host0 req =
     (case HostEntry router host0 of
        None \<Rightarrow> verdictOK
      | Some entry \<Rightarrow>
          if \<not> NeedsAuth entry (hh_DefaultPort entry) then verdictOK
          else case auth of
                 None \<Rightarrow> verdictStatus 401
               | Some a \<Rightarrow>
                   let host = normalizeHost host0 in
                   if u_Path (rq_URL req) = CallbackPath then completeLogin now a host req
                   else if (case request_cookie req (CookieName a) of
                              Some v \<Rightarrow> Verify now a v host \<noteq> None
                            | None \<Rightarrow> False)
                     then verdictOK
                   else if \<not> wantsHTML req then verdictStatus 401
                   else \<lparr>av_ok = False, av_status = 302,
                         av_location = LoginURL a host (u_RequestURI (rq_URL req)),
                         av_setCookie = []\<rparr>)"

definition writeRedirect :: "string \<Rightarrow> string \<Rightarrow> string" where
  "writeRedirect location setCookie =
     ''HTTP/1.1 302 Found'' @ crlf @ ''Location: '' @ location @ crlf @
     (if setCookie \<noteq> [] then ''Set-Cookie: '' @ setCookie @ crlf else []) @
     ''Content-Length: 0'' @ crlf @ ''Connection: close'' @ crlf @ crlf"

definition writeUnauthorized :: string where
  "writeUnauthorized =
     (let body = ''401 Unauthorized'' @ [CHR 0x0A] in
      ''HTTP/1.1 401 Unauthorized'' @ crlf @ ''Content-Type: text/plain; charset=utf-8'' @ crlf @
      ''Content-Length: '' @ nat_str (length body) @ crlf @ ''Connection: close'' @ crlf @ crlf @ body)"

section \<open>Tokens\<close>

lemma equal_fold_simps:
  "equal_fold ''aud'' ''sub'' = False" "equal_fold ''exp'' ''sub'' = False"
  "equal_fold ''exp'' ''aud'' = False" "equal_fold s s"
  by (simp_all add: equal_fold_def to_lower_def lower_char_def)

definition claims_ok :: "claims \<Rightarrow> bool" where
  "claims_ok c \<longleftrightarrow> valid_utf8 (cl_Sub c) \<and> valid_utf8 (cl_Aud c) \<and>
     - (2 ^ 63) \<le> cl_Exp c \<and> cl_Exp c < 2 ^ 63"

lemma claims_unmarshal_print:
  assumes "claims_ok c"
  shows "claims_unmarshal (to_bytes (print_json (claims_json c))) = Some c"
proof -
  have "json_ok (claims_json c)"
    using assms by (auto simp: claims_json_def claims_ok_def valid_utf8_ascii is_ascii_def)
  then have "unmarshal_value (print_json (claims_json c)) = Some (claims_json c)"
    by (rule unmarshal_print)
  moreover have "atoi (itoa (cl_Exp c)) = Some (cl_Exp c)"
    using assms by (intro atoi_itoa) (simp_all add: claims_ok_def)
  ultimately show ?thesis
    by (cases c) (simp add: claims_unmarshal_def claims_json_def equal_fold_simps
        del: print_json.simps)
qed

text \<open>What verification establishes: an authentic payload whose claims match.\<close>

lemma verify_SomeD:
  assumes "verify now a value aud = Some sub"
  shows "\<exists>b sig raw c. value = b @ ''.'' @ sig \<and> rawurl_decode sig = Some (sign a (to_bytes b)) \<and>
    rawurl_decode b = Some raw \<and> claims_unmarshal raw = Some c \<and>
    cl_Aud c = aud \<and> aud \<noteq> [] \<and> now div second < cl_Exp c \<and> cl_Sub c = sub"
proof -
  from assms obtain b sig raw c where "cut value ''.'' = Some (b, sig)"
    "rawurl_decode sig = Some (sign a (to_bytes b))" "rawurl_decode b = Some raw"
    "claims_unmarshal raw = Some c" "cl_Aud c = aud" "aud \<noteq> []" "now div second < cl_Exp c"
    "cl_Sub c = sub"
    by (auto simp: verify_def split: option.splits if_splits)
  moreover from this(1) have "value = b @ ''.'' @ sig" by (rule cut_SomeD)
  ultimately show ?thesis by blast
qed

text \<open>A token has one audience.\<close>

lemma verify_one_audience:
  "verify now a value aud = Some sub \<Longrightarrow> verify now' a' value aud' = Some sub' \<Longrightarrow> aud = aud'"
  by (auto simp: verify_def split: option.splits if_splits prod.splits)

lemma verify_Mint:
  assumes "valid_utf8 sub" "valid_utf8 host" "host \<noteq> []"
    and "- (2 ^ 63) \<le> (now + ttl a) div second" "(now + ttl a) div second < 2 ^ 63"
    and "now' div second < (now + ttl a) div second"
  shows "verify now' a (Mint now a sub host) host = Some sub"
proof -
  define c where "c = \<lparr>cl_Sub = sub, cl_Aud = host, cl_Exp = (now + ttl a) div second\<rparr>"
  define b where "b = rawurl_encode (to_bytes (print_json (claims_json c)))"
  have tok: "Mint now a sub host = b @ CHR ''.'' # rawurl_encode (sign a (to_bytes b))"
    by (simp add: Mint_def b_def c_def Let_def)
  have "claims_ok c" using assms by (simp add: claims_ok_def c_def)
  then have "claims_unmarshal (to_bytes (print_json (claims_json c))) = Some c"
    by (rule claims_unmarshal_print)
  moreover have "cut (b @ CHR ''.'' # s) ''.'' = Some (b, s)" for s
    unfolding b_def by (rule rawurl_base64.cut_pair)
  moreover have "rawurl_decode b = Some (to_bytes (print_json (claims_json c)))"
    unfolding b_def by (rule rawurl_base64.dec_enc)
  ultimately show ?thesis
    using assms by (simp add: verify_def tok rawurl_base64.dec_enc c_def)
qed

lemma Verify_verify: "Verify now a v h = Some s \<Longrightarrow> verify now a v h = Some s \<and>
    \<not> list_ex (has_prefix h) [consoleAudPrefix, desktopAudPrefix, agentAudPrefix]"
  by (simp add: Verify_def split: if_splits)

lemma verifyLabelled_verify:
  "verifyLabelled now a v p h = Some s \<Longrightarrow> verify now a v (p @ h) = Some s"
  by (simp add: verifyLabelled_def split: if_splits)

text \<open>The audience prefixes are pairwise incompatible.\<close>

lemma aud_prefixes_disjoint:
  assumes "p \<in> {consoleAudPrefix, desktopAudPrefix, agentAudPrefix}"
    and "q \<in> {consoleAudPrefix, desktopAudPrefix, agentAudPrefix}" and "p \<noteq> q"
  shows "p @ x \<noteq> q @ y"
  using assms by (auto simp: consoleAudPrefix_def desktopAudPrefix_def agentAudPrefix_def)

lemma Mint_plain: "plain_cookie_value (Mint now a sub host)"
proof -
  have "list_all (\<lambda>c. cookie_byte c \<and> \<not> blank c) (b64_url @ ''.'')" by code_simp
  then have plain: "cookie_byte c \<and> \<not> blank c" if "c \<in> insert (CHR ''.'') (set b64_url)" for c
    using that by (auto simp: list_all_iff)
  have "set (rawurl_encode x) \<subseteq> set b64_url" for x
    using set_b64_encode [OF b64_alphabet_url, of False x] by simp
  then have "set (Mint now a sub host) \<subseteq> insert (CHR ''.'') (set b64_url)"
    unfolding Mint_def Let_def by auto
  with plain show ?thesis by (auto simp: plain_cookie_value_def list_all_iff)
qed

text \<open>When a token minted at \<open>now\<close> for \<open>host\<close> is accepted at \<open>now'\<close>.\<close>

definition mint_live :: "int \<Rightarrow> int \<Rightarrow> Authenticator \<Rightarrow> string \<Rightarrow> string \<Rightarrow> bool" where
  "mint_live now now' a sub host \<longleftrightarrow> valid_utf8 sub \<and> valid_utf8 host \<and> host \<noteq> [] \<and>
     \<not> list_ex (has_prefix host) [consoleAudPrefix, desktopAudPrefix, agentAudPrefix] \<and>
     - (2 ^ 63) \<le> (now + ttl a) div second \<and> (now + ttl a) div second < 2 ^ 63 \<and>
     now' div second < (now + ttl a) div second"

lemma mint_live_Verify: "mint_live now now' a sub host \<Longrightarrow> Verify now' a (Mint now a sub host) host = Some sub"
  by (simp add: mint_live_def Verify_def verify_Mint)

lemma session_cookie_ok:
  assumes "mint_live now now' a sub (normalizeHost host)" and "is_token (CookieName a)"
    and "rq_Header req ''Cookie'' = [CookieName a @ ''='' @ Mint now a sub (normalizeHost host)]"
    and "u_Path (rq_URL req) \<noteq> CallbackPath"
  shows "authorizeRequest now' router (Some a) host req = verdictOK"
  using mint_live_Verify [OF assms(1)] request_cookie_found [OF assms(2) Mint_plain assms(3)] assms(4)
  by (simp add: authorizeRequest_def Let_def split: option.split)

lemma authorizeRequest_okD:
  assumes "HostEntry router host = Some entry" and "NeedsAuth entry (hh_DefaultPort entry)"
    and "av_ok (authorizeRequest now router auth host req)"
  shows "\<exists>a v sub b sig c raw. auth = Some a \<and> request_cookie req (CookieName a) = Some v \<and>
    Verify now a v (normalizeHost host) = Some sub \<and>
    v = b @ ''.'' @ sig \<and> rawurl_decode sig = Some (sign a (to_bytes b)) \<and>
    rawurl_decode b = Some raw \<and> claims_unmarshal raw = Some c \<and>
    cl_Aud c = normalizeHost host \<and> now div second < cl_Exp c"
proof -
  have "\<not> av_ok (completeLogin now a h req)" for a h
    by (simp add: completeLogin_def verdictStatus_def Let_def split: option.split)
  with assms obtain a v where a: "auth = Some a" "request_cookie req (CookieName a) = Some v"
    "Verify now a v (normalizeHost host) \<noteq> None"
    by (auto simp: authorizeRequest_def verdictStatus_def Let_def split: option.splits if_splits)
  then obtain sub where sub: "Verify now a v (normalizeHost host) = Some sub" by auto
  then have "verify now a v (normalizeHost host) = Some sub" using Verify_verify by blast
  from verify_SomeD [OF this] a sub show ?thesis by blast
qed

section \<open>Properties\<close>

text \<open>
  Further result. A session token minted for a host is accepted for that host, and gives back its
  subject, at every moment before it expires.
\<close>

theorem Verify_Mint:
  assumes "mint_live now now' a sub host"
  shows "Verify now' a (Mint now a sub host) host = Some sub"
  by (rule mint_live_Verify [OF assms])

definition example_auth :: Authenticator where
  "example_auth = \<lparr>at_cfg = the (Auth example_config), at_secret = replicate 32 7\<rparr>"

lemma ttl_example: "ttl example_auth = 43200 * second"
  by code_simp

abbreviation example_now :: int where
  "example_now \<equiv> 1700000000 * second"

lemma example_mint_live: "mint_live example_now example_now example_auth ''user-1'' ''one.vm.local''"
proof -
  have "valid_utf8 ''user-1''" "valid_utf8 ''one.vm.local''" by code_simp+
  then show ?thesis
    by (simp add: mint_live_def ttl_example second_def has_prefix_def consoleAudPrefix_def
        desktopAudPrefix_def agentAudPrefix_def)
qed

theorem Verify_Mint_witness:
  "Verify example_now example_auth (Mint example_now example_auth ''user-1'' ''one.vm.local'')
     ''one.vm.local'' = Some ''user-1''"
  by (rule Verify_Mint [OF example_mint_live])

text \<open>The four places where a token is checked, by the prefix of the audience they ask for.\<close>

datatype entry_point = HttpEntry | ConsoleEntry | DesktopEntry | AgentEntry

fun accept_token :: "entry_point \<Rightarrow> int \<Rightarrow> Authenticator \<Rightarrow> string \<Rightarrow> string \<Rightarrow> string option" where
  "accept_token HttpEntry now a v host = Verify now a v host"
| "accept_token ConsoleEntry now a v host = VerifyConsole now a v host"
| "accept_token DesktopEntry now a v host = VerifyDesktop now a v host"
| "accept_token AgentEntry now a v host = verifyLabelled now a v agentAudPrefix host"

fun entry_prefix :: "entry_point \<Rightarrow> string" where
  "entry_prefix HttpEntry = []"
| "entry_prefix ConsoleEntry = consoleAudPrefix"
| "entry_prefix DesktopEntry = desktopAudPrefix"
| "entry_prefix AgentEntry = agentAudPrefix"

lemma accept_token_aud:
  "accept_token k now a v host = Some s \<Longrightarrow>
   verify now a v (entry_prefix k @ host) = Some s \<and>
   (k = HttpEntry \<longrightarrow> \<not> list_ex (has_prefix host) [consoleAudPrefix, desktopAudPrefix, agentAudPrefix])"
  by (cases k) (auto simp: VerifyConsole_def VerifyDesktop_def
      dest: Verify_verify verifyLabelled_verify)

text \<open>
  Further result. Tokens do not cross entry points: a value accepted at one of the four entry
  points (http session, console, desktop, agent), for any host, at any time and under any
  secret, is not accepted at another. A guest that holds a session cookie cannot turn it into a
  shell, nor a console link into a desktop.
\<close>

theorem token_audience_separation:
  assumes "accept_token k now a v host = Some s" and "accept_token k' now' a' v host' = Some s'"
  shows "k = k'"
proof -
  note t = accept_token_aud [OF assms(1)] accept_token_aud [OF assms(2)]
  have eq: "entry_prefix k @ host = entry_prefix k' @ host'"
    using t verify_one_audience by blast
  show ?thesis
  proof (cases "k = HttpEntry \<or> k' = HttpEntry")
    case True
    have "\<not> has_prefix host (entry_prefix k')" if "k = HttpEntry" "k' \<noteq> HttpEntry"
      using that t by (cases k') auto
    moreover have "\<not> has_prefix host' (entry_prefix k)" if "k' = HttpEntry" "k \<noteq> HttpEntry"
      using that t by (cases k) auto
    ultimately show ?thesis
      using True eq by (cases "k = HttpEntry"; cases "k' = HttpEntry") auto
  next
    case False
    then have "entry_prefix k \<in> {consoleAudPrefix, desktopAudPrefix, agentAudPrefix}"
      "entry_prefix k' \<in> {consoleAudPrefix, desktopAudPrefix, agentAudPrefix}"
      by (metis entry_point.exhaust entry_prefix.simps insert_iff)+
    with eq have "entry_prefix k = entry_prefix k'" using aud_prefixes_disjoint by blast
    with False show ?thesis
      by (cases k; cases k')
         (simp_all add: consoleAudPrefix_def desktopAudPrefix_def agentAudPrefix_def)
  qed
qed

lemma example_token:
  "accept_token HttpEntry example_now example_auth
     (Mint example_now example_auth ''user-1'' ''one.vm.local'') ''one.vm.local'' = Some ''user-1''"
  using mint_live_Verify [OF example_mint_live] by simp

theorem token_audience_separation_witness:
  "VerifyConsole (1700000000 * second) example_auth
     (Mint (1700000000 * second) example_auth ''user-1'' ''one.vm.local'') ''one.shell.vm.local'' = None"
  using token_audience_separation [OF example_token, of ConsoleEntry] by (metis accept_token.simps(2)
      entry_point.distinct(1) not_Some_eq)

text \<open>
  Property C7. A request to a protected host is let through only with a session cookie that
  verifies for exactly that normalised host: the signature is the HMAC under the proxy's secret,
  the audience is the host and the token has not expired. Without a configured authenticator a
  protected host is always refused.
\<close>

theorem authorizeRequest_sound:
  assumes "HostEntry router host = Some entry" and "NeedsAuth entry (hh_DefaultPort entry)"
    and "av_ok (authorizeRequest now router auth host req)"
  shows "\<exists>a v sub b sig c raw. auth = Some a \<and> request_cookie req (CookieName a) = Some v \<and>
    Verify now a v (normalizeHost host) = Some sub \<and>
    v = b @ ''.'' @ sig \<and> rawurl_decode sig = Some (sign a (to_bytes b)) \<and>
    rawurl_decode b = Some raw \<and> claims_unmarshal raw = Some c \<and>
    cl_Aud c = normalizeHost host \<and> now div second < cl_Exp c"
  by (rule authorizeRequest_okD [OF assms])

definition example_request :: request where
  "example_request =
     \<lparr>rq_URL = \<lparr>u_Path = ''/'', u_RequestURI = ''/'',
        u_Query = (\<lambda>k. if k = ''token'' then Mint example_now example_auth ''user-1'' ''one.vm.local''
                     else if k = ''next'' then ''/app'' else [])\<rparr>,
      rq_Header = (\<lambda>k. if k = ''Cookie''
        then [''dpipe_session='' @ Mint example_now example_auth ''user-1'' ''one.vm.local''] else [])\<rparr>"

lemma example_facts:
  "normalizeHost ''One.vm.local:80'' = ''one.vm.local''" "CookieName example_auth = ''dpipe_session''"
  "is_token ''dpipe_session''" "CallbackPath \<noteq> ''/''"
  "HostEntry (NewRouter example_config) ''One.vm.local:80'' = Some example_host"
  "NeedsAuth example_host (hh_DefaultPort example_host)"
  by code_simp+

lemma example_request_ok:
  "authorizeRequest example_now router (Some example_auth) ''One.vm.local:80'' example_request = verdictOK"
  using example_mint_live example_facts
  by (intro session_cookie_ok [where sub = "''user-1''" and now = example_now])
     (simp_all add: example_request_def)

theorem authorizeRequest_sound_witness:
  "\<exists>v sub. request_cookie example_request (CookieName example_auth) = Some v \<and>
     Verify example_now example_auth v ''one.vm.local'' = Some sub"
proof -
  have "av_ok (authorizeRequest example_now (NewRouter example_config) (Some example_auth)
      ''One.vm.local:80'' example_request)"
    by (simp add: example_request_ok verdictOK_def)
  from authorizeRequest_sound [OF example_facts(5,6) this] show ?thesis
    by (auto simp: example_facts(1))
qed

text \<open>
  Further result. The login callback never sends the browser off the host and never lets a line
  break into the response header: when it redirects, the target starts with one slash that is not
  followed by another, and holds no carriage return or line feed.
\<close>

theorem completeLogin_redirect_local:
  assumes "av_status (completeLogin now a host req) = 302"
  shows "\<exists>rest. av_location (completeLogin now a host req) = ''/'' @ rest \<and>
    \<not> has_prefix rest ''/'' \<and>
    CHR 0x0D \<notin> set (av_location (completeLogin now a host req)) \<and>
    CHR 0x0A \<notin> set (av_location (completeLogin now a host req))"
proof -
  let ?n = "u_Query (rq_URL req) ''next''"
  from assms obtain sub where s: "Verify now a (u_Query (rq_URL req) ''token'') host = Some sub"
    by (auto simp: completeLogin_def verdictStatus_def split: option.splits)
  show ?thesis
  proof (cases "\<not> has_prefix ?n ''/'' \<or> has_prefix ?n ''//'' \<or> contains_any ?n [CHR 0x0D, CHR 0x0A]")
    case True
    with s show ?thesis by (intro exI [of _ "[]"]) (auto simp: completeLogin_def has_prefix_def)
  next
    case False
    then obtain rest where r: "?n = ''/'' @ rest" by (auto simp: has_prefix_iff)
    with False have "\<not> has_prefix rest ''/''" by (auto simp: has_prefix_iff)
    with r False s show ?thesis
      by (intro exI [of _ rest]) (auto simp: completeLogin_def contains_any_def list_ex_iff)
  qed
qed

theorem completeLogin_redirect_local_witness:
  "\<exists>rest. av_location (completeLogin example_now example_auth ''one.vm.local'' example_request) = ''/'' @ rest"
proof -
  have "av_status (completeLogin example_now example_auth ''one.vm.local'' example_request) = 302"
    using mint_live_Verify [OF example_mint_live] by (simp add: completeLogin_def example_request_def Let_def)
  from completeLogin_redirect_local [OF this] show ?thesis by blast
qed

text \<open>
  Further result. A session that was established is honoured: a later request to the same host that
  carries the minted value in the session cookie is let through, at every moment before the token
  expires, for every router.
\<close>

theorem session_cookie_authorizes:
  assumes "mint_live now now' a sub (normalizeHost host)" and "is_token (CookieName a)"
    and "rq_Header req ''Cookie'' = [CookieName a @ ''='' @ Mint now a sub (normalizeHost host)]"
    and "u_Path (rq_URL req) \<noteq> CallbackPath"
  shows "authorizeRequest now' router (Some a) host req = verdictOK"
  by (rule session_cookie_ok [OF assms])

theorem session_cookie_authorizes_witness:
  "authorizeRequest example_now (NewRouter example_config) (Some example_auth) ''One.vm.local:80''
     example_request = verdictOK"
  using example_mint_live example_facts
  by (intro session_cookie_authorizes [where sub = "''user-1''" and now = example_now])
     (simp_all add: example_request_def)

end
