(* ===== verification/Proxy_Session.thy ===== *)
theory Proxy_Session
  imports Proxy_Auth Control_Message
begin

text \<open>
  Browser sessions onto a machine (\<open>backstage/dproxy/internal/proxy/console.go\<close>): the console,
  the coding agent and the desktop answer on a labelled host name such as
  \<open>one.shell.vm.local\<close>, are authorised by a token for that name, and land on a port of the
  published machine \<open>one.vm.local\<close>.
\<close>

section \<open>Model\<close>

definition consoleSSHPort :: int where "consoleSSHPort = 22"
definition desktopRDPPort :: int where "desktopRDPPort = 3389"

record sessionKind =
  sk_name :: string
  sk_label :: string
  sk_audPrefix :: string
  sk_port :: int
  sk_remoteUser :: string
  sk_remotePassword :: string
  sk_protocol :: string
  sk_acceptType :: string
  sk_perVMRemoteUser :: bool

definition desktopKind :: "DesktopConfig option \<Rightarrow> sessionKind option" where
  "desktopKind d =
     map_option (\<lambda>d. \<lparr>sk_name = ''desktop'', sk_label = Desktop_label d,
       sk_audPrefix = desktopAudPrefix, sk_port = desktopRDPPort,
       sk_remoteUser = Desktop_remoteUser d, sk_remotePassword = desk_RemotePassword d,
       sk_protocol = ProtoDesktop, sk_acceptType = TypeDesktopAccept, sk_perVMRemoteUser = False\<rparr>) d"

definition consoleKind :: "ConsoleConfig option \<Rightarrow> sessionKind option" where
  "consoleKind c =
     map_option (\<lambda>c. \<lparr>sk_name = ''console'', sk_label = Console_label c,
       sk_audPrefix = consoleAudPrefix, sk_port = consoleSSHPort,
       sk_remoteUser = Console_remoteUser c, sk_remotePassword = [],
       sk_protocol = ProtoConsole, sk_acceptType = TypeConsoleAccept, sk_perVMRemoteUser = True\<rparr>) c"

definition agentPath :: string where
  "agentPath = ''/agent''"

definition agentKind :: "sessionKind \<Rightarrow> sessionKind" where
  "agentKind k = k\<lparr>sk_name := ''agent'', sk_audPrefix := agentAudPrefix, sk_protocol := ProtoAgent,
     sk_acceptType := TypeAgentAccept\<rparr>"

definition consoleHostKind :: "ConsoleConfig option \<Rightarrow> request option \<Rightarrow> sessionKind option" where
  "consoleHostKind cc req =
     (case (consoleKind cc, req) of
        (Some k, Some r) \<Rightarrow> if u_Path (rq_URL r) = agentPath then Some (agentKind k) else Some k
      | (k, _) \<Rightarrow> k)"

definition labelledVMHost :: "Router \<Rightarrow> string \<Rightarrow> string \<Rightarrow> string option" where
  "labelledVMHost router label host0 =
     (let host = normalizeHost host0;
          labels = split_str host ''.''
      in if length labels < 3 \<or> labels ! 1 \<noteq> label then None
         else let vmHost = join (labels ! 0 # drop 2 labels) ''.''
              in if PublishedEntry router vmHost = None then None else Some vmHost)"

definition consoleVMHost :: "Router \<Rightarrow> ConsoleConfig option \<Rightarrow> string \<Rightarrow> string option" where
  "consoleVMHost router cc host =
     (case consoleKind cc of None \<Rightarrow> None | Some k \<Rightarrow> labelledVMHost router (sk_label k) host)"

definition desktopVMHost :: "Router \<Rightarrow> DesktopConfig option \<Rightarrow> string \<Rightarrow> string option" where
  "desktopVMHost router d host =
     (case desktopKind d of None \<Rightarrow> None | Some k \<Rightarrow> labelledVMHost router (sk_label k) host)"

record sessionAuth =
  sa_status :: int
  sa_target :: string
  sa_remoteUser :: string
  sa_remotePassword :: string
  sa_sub :: string
  sa_wsKey :: string

definition sessionDenied :: "int \<Rightarrow> sessionAuth" where
  "sessionDenied s = \<lparr>sa_status = s, sa_target = [], sa_remoteUser = [], sa_remotePassword = [],
     sa_sub = [], sa_wsKey = []\<rparr>"

definition sessionRemoteUser :: "sessionKind \<Rightarrow> HTTPHost \<Rightarrow> string" where
  "sessionRemoteUser k entry =
     (if sk_perVMRemoteUser k \<and> hh_RemoteUser entry \<noteq> [] then hh_RemoteUser entry
      else sk_remoteUser k)"

definition headerHasToken :: "string list \<Rightarrow> string \<Rightarrow> bool" where
  "headerHasToken values want \<longleftrightarrow>
     list_ex (\<lambda>v. list_ex (\<lambda>tok. equal_fold (trim_space tok) want) (split_str v '','')) values"

definition websocketKey :: "request \<Rightarrow> string option" where
  "websocketKey r =
     (let h = rq_Header r; key = header_get h ''Sec-Websocket-Key'' in
      if \<not> equal_fold (header_get h ''Upgrade'') ''websocket'' then None
      else if \<not> headerHasToken (h ''Connection'') ''upgrade'' then None
      else if header_get h ''Sec-Websocket-Version'' \<noteq> ''13'' then None
      else if key = [] then None
      else case std_decode key of
             None \<Rightarrow> None
           | Some raw \<Rightarrow> if length raw \<noteq> 16 then None else Some key)"

definition authorizeSession ::
  "int \<Rightarrow> Router \<Rightarrow> Authenticator option \<Rightarrow> sessionKind \<Rightarrow> string \<Rightarrow> string \<Rightarrow> request \<Rightarrow> sessionAuth" where
  "authorizeSession now router auth k host vmHost req =
     (case auth of
        None \<Rightarrow> sessionDenied 404
      | Some a \<Rightarrow>
          (case websocketKey req of
             None \<Rightarrow> sessionDenied 404
           | Some wsKey \<Rightarrow>
               (case verifyLabelled now a (u_Query (rq_URL req) ''token'') (sk_audPrefix k) host of
                  None \<Rightarrow> sessionDenied 401
                | Some sub \<Rightarrow>
                    (case HostEntry router vmHost of
                       None \<Rightarrow> sessionDenied 502
                     | Some entry \<Rightarrow>
                         \<lparr>sa_status = 0, sa_target = join_host_port (hh_Host entry) (itoa (sk_port k)),
                          sa_remoteUser = sessionRemoteUser k entry,
                          sa_remotePassword = sk_remotePassword k, sa_sub = sub, sa_wsKey = wsKey\<rparr>))))"

definition authorizeConsole ::
  "int \<Rightarrow> Router \<Rightarrow> ConsoleConfig option \<Rightarrow> Authenticator option \<Rightarrow> string \<Rightarrow> string \<Rightarrow> request
    \<Rightarrow> sessionAuth" where
  "authorizeConsole now router cc auth host vmHost req =
     (case consoleKind cc of
        None \<Rightarrow> sessionDenied 404
      | Some k \<Rightarrow> authorizeSession now router auth k host vmHost req)"

definition pipelinedBytes :: "bytes \<Rightarrow> bytes" where
  "pipelinedBytes prefix =
     (case index_of prefix terminator of Some i \<Rightarrow> drop (i + 4) prefix | None \<Rightarrow> [])"

definition hostOnly :: "string option \<Rightarrow> string" where
  "hostOnly addr =
     (case addr of
        None \<Rightarrow> []
      | Some a \<Rightarrow> (case split_host_port a of None \<Rightarrow> a | Some (h, _) \<Rightarrow> h))"

section \<open>The labelled host\<close>

lemma split_str_dot_notin:
  "l \<in> set (split_str s [c]) \<Longrightarrow> c \<notin> set l"
proof (induction s "[c]" rule: split_str.induct)
  case (1 s)
  show ?case
  proof (cases "index_of s [c]")
    case None
    then have "c \<notin> set s"
    proof (rule contrapos_pn)
      assume "c \<in> set s"
      then obtain a b where "s = a @ c # b" by (meson split_list)
      then have "has_prefix (drop (length a) s) [c]" by (simp add: has_prefix_def)
      then show "index_of s [c] \<noteq> None" using index_of_None by blast
    qed
    with None 1 show ?thesis by (subst (asm) (2) split_str.simps) simp
  next
    case (Some i)
    have "cut s [c] = Some (take i s, drop (i + 1) s)" using Some by (simp add: cut_def)
    then have "c \<notin> set (take i s)" by (rule cut_single_notin)
    with Some 1 show ?thesis by (subst (asm) (2) split_str.simps) auto
  qed
qed

lemma labelledVMHost_shape:
  assumes "labelledVMHost router label host = Some vmHost"
  shows "\<exists>name rest. normalizeHost host = name @ ''.'' @ label @ ''.'' @ rest \<and>
    vmHost = name @ ''.'' @ rest \<and> CHR ''.'' \<notin> set name \<and> CHR ''.'' \<notin> set label \<and>
    PublishedEntry router vmHost \<noteq> None"
proof -
  let ?ls = "split_str (normalizeHost host) ''.''"
  from assms have l: "3 \<le> length ?ls" "?ls ! 1 = label"
    and v: "vmHost = join (?ls ! 0 # drop 2 ?ls) ''.''" "PublishedEntry router vmHost \<noteq> None"
    by (auto simp: labelledVMHost_def Let_def split: if_splits)
  then obtain name x more where ls: "?ls = name # label # x # more"
    by (cases ?ls; cases "tl ?ls"; cases "tl (tl ?ls)") auto
  have dots: "CHR ''.'' \<notin> set name" "CHR ''.'' \<notin> set label"
    using split_str_dot_notin [of _ "normalizeHost host" "CHR ''.''"] ls by auto
  have "normalizeHost host = join ?ls ''.''" by simp
  then have "normalizeHost host = name @ ''.'' @ label @ ''.'' @ join (x # more) ''.''"
    unfolding ls by simp
  moreover have "vmHost = name @ ''.'' @ join (x # more) ''.''"
    using v(1) unfolding ls by (simp add: numeral_2_eq_2)
  ultimately show ?thesis using dots v(2) by blast
qed

lemma authorizeSession_cases:
  "(let v = authorizeSession now router auth k host vmHost req in
    if sa_status v = 0
    then \<exists>a entry. auth = Some a \<and> HostEntry router vmHost = Some entry \<and> host \<noteq> [] \<and>
           verify now a (u_Query (rq_URL req) ''token'') (sk_audPrefix k @ host) = Some (sa_sub v) \<and>
           websocketKey req = Some (sa_wsKey v) \<and>
           sa_target v = join_host_port (hh_Host entry) (itoa (sk_port k))
    else v = sessionDenied (sa_status v) \<and> sa_status v \<in> {404, 401, 502})"
  by (auto simp: authorizeSession_def sessionDenied_def verifyLabelled_def Let_def
      split: option.splits if_splits)

section \<open>Properties\<close>

text \<open>
  Further result. A labelled session name reaches only the machine it names: when
  \<open>labelledVMHost\<close> answers, the normalised name is \<open>name.label.rest\<close> with the configured label
  in second position and \<open>name.rest\<close>, which is what it returns, is a published host.
\<close>

theorem labelledVMHost_names_published:
  assumes "labelledVMHost router label host = Some vmHost"
  shows "\<exists>name rest. normalizeHost host = name @ ''.'' @ label @ ''.'' @ rest \<and>
    vmHost = name @ ''.'' @ rest \<and> CHR ''.'' \<notin> set name \<and> CHR ''.'' \<notin> set label \<and>
    PublishedEntry router vmHost \<noteq> None"
  by (rule labelledVMHost_shape [OF assms])

theorem labelledVMHost_names_published_witness:
  "\<exists>name rest. normalizeHost ''One.Shell.vm.local:443'' = name @ ''.'' @ ''shell'' @ ''.'' @ rest \<and>
     ''one.vm.local'' = name @ ''.'' @ rest"
proof -
  have "labelledVMHost (NewRouter example_config) ''shell'' ''One.Shell.vm.local:443'' = Some ''one.vm.local''"
    by code_simp
  from labelledVMHost_names_published [OF this] show ?thesis by blast
qed

text \<open>
  Further result. A session is opened only for a websocket upgrade that carries a token of its own
  kind for the labelled host: when \<open>authorizeSession\<close> reports no status, an authenticator is
  configured, the token in the query verifies with the audience prefix of the session kind for
  that host, the request is a version 13 websocket upgrade with a 16-byte key, and the target is
  the session's port on the machine of the published entry. Otherwise the status is 404, 401 or
  502 and no target, password or subject leaves the proxy.
\<close>

theorem authorizeSession_sound:
  "(let v = authorizeSession now router auth k host vmHost req in
    if sa_status v = 0
    then \<exists>a entry. auth = Some a \<and> HostEntry router vmHost = Some entry \<and> host \<noteq> [] \<and>
           verify now a (u_Query (rq_URL req) ''token'') (sk_audPrefix k @ host) = Some (sa_sub v) \<and>
           websocketKey req = Some (sa_wsKey v) \<and>
           sa_target v = join_host_port (hh_Host entry) (itoa (sk_port k))
    else v = sessionDenied (sa_status v) \<and> sa_status v \<in> {404, 401, 502})"
  by (rule authorizeSession_cases)

end
