(* ===== verification/Proxy_Resolver.thy ===== *)
theory Proxy_Resolver
  imports Proxy_Session Ntlm
begin

text \<open>
  The authorisation decisions \<open>dproxy\<close> takes for \<open>dpipe\<close>
  (\<open>backstage/dproxy/internal/proxy/resolver.go\<close>): which machine a public key and login name, a
  host name or a remote-desktop response reach.

  The SSH key library (\<open>golang.org/x/crypto/ssh\<close>) is the argument \<open>parseKey\<close>, which gives the
  type and wire form of an authorised-keys line or fails, and \<open>fingerprint\<close>; reading a file is
  \<open>readFile\<close> and \<open>url.ParseRequestURI\<close> is \<open>parseURI\<close>.
\<close>

section \<open>Model\<close>

type_synonym ssh_key = "string \<times> bytes"

record sshPolicy =
  sp_target :: string
  sp_remoteUser :: string
  sp_fingerprint :: string

type_synonym sshUserKey = "string \<times> string"

record rdpPolicy =
  rp_vmName :: string
  rp_ntHash :: bytes
  rp_target :: string
  rp_remoteUser :: string
  rp_remotePassword :: string

record Resolver =
  rs_router :: Router
  rs_auth :: "Authenticator option"
  rs_console :: "ConsoleConfig option"
  rs_desktop :: "DesktopConfig option"
  rs_users :: "sshUserKey \<rightharpoonup> sshPolicy"
  rs_owned :: "string \<Rightarrow> string list"
  rs_rdp :: "string \<rightharpoonup> rdpPolicy"

datatype resolver_error = BadRDPHash nat | PubKeyFile nat | BadPubKey nat | DuplicateKey nat

definition NormalizeKey :: "ssh_key \<Rightarrow> string" where
  "NormalizeKey key = fst key @ '' '' @ std_encode (snd key)"

definition addRDPUser :: "nat \<Rightarrow> RDPUser \<Rightarrow> Resolver \<Rightarrow> resolver_error + Resolver" where
  "addRDPUser i u r =
     (case hex_decode (ru_NTHash u) of
        None \<Rightarrow> Inl (BadRDPHash i)
      | Some h \<Rightarrow>
          Inr (r\<lparr>rs_rdp := (rs_rdp r)(to_lower (ru_VMName u) \<mapsto>
            \<lparr>rp_vmName = ru_VMName u, rp_ntHash = h, rp_target = ru_Target u,
             rp_remoteUser = ru_RemoteUser u, rp_remotePassword = ru_RemotePassword u\<rparr>)\<rparr>))"

definition userKeyText :: "(string \<Rightarrow> string option) \<Rightarrow> SSHUser \<Rightarrow> string option" where
  "userKeyText readFile u =
     (if su_PubKeyFile u \<noteq> [] then readFile (su_PubKeyFile u) else Some (su_PubKey u))"

definition addSSHUser ::
  "(string \<Rightarrow> string option) \<Rightarrow> (string \<Rightarrow> ssh_key option) \<Rightarrow> (ssh_key \<Rightarrow> string) \<Rightarrow>
   nat \<Rightarrow> SSHUser \<Rightarrow> Resolver \<Rightarrow> resolver_error + Resolver" where
  "addSSHUser readFile parseKey fingerprint i u r =
     (case userKeyText readFile u of
        None \<Rightarrow> Inl (PubKeyFile i)
      | Some raw \<Rightarrow>
          (case parseKey raw of
             None \<Rightarrow> Inl (BadPubKey i)
           | Some key \<Rightarrow>
               let k = (NormalizeKey key, su_VMName u) in
               if rs_users r k \<noteq> None then Inl (DuplicateKey i)
               else Inr (r\<lparr>rs_users := (rs_users r)(k \<mapsto>
                             \<lparr>sp_target = su_Target u, sp_remoteUser = su_RemoteUser u,
                              sp_fingerprint = fingerprint key\<rparr>),
                           rs_owned := (rs_owned r)(fst k := rs_owned r (fst k) @ [su_VMName u])\<rparr>)))"

definition NewResolver ::
  "(string \<Rightarrow> string option) \<Rightarrow> (string \<Rightarrow> ssh_key option) \<Rightarrow> (ssh_key \<Rightarrow> string) \<Rightarrow>
   Router \<Rightarrow> Authenticator option \<Rightarrow> Config \<Rightarrow> resolver_error + Resolver" where
  "NewResolver readFile parseKey fingerprint router auth cfg =
     (let r = \<lparr>rs_router = router, rs_auth = auth, rs_console = Console cfg, rs_desktop = Desktop cfg,
               rs_users = Map.empty, rs_owned = (\<lambda>_. []), rs_rdp = Map.empty\<rparr> in
      rbind (case RDP cfg of None \<Rightarrow> Inr r | Some rc \<Rightarrow> for_each 0 addRDPUser (rdp_Users rc) r) (\<lambda>r.
      case SSH cfg of
        None \<Rightarrow> Inr r
      | Some sc \<Rightarrow> for_each 0 (addSSHUser readFile parseKey fingerprint) (ssh_Users sc) r))"

text \<open>\<open>isPrintableName\<close>, and \<open>%q\<close> of such a name.\<close>

definition isPrintableName :: "string \<Rightarrow> bool" where
  "isPrintableName s \<longleftrightarrow> s \<noteq> [] \<and> length s \<le> 64 \<and> list_all (\<lambda>c. 0x20 \<le> c \<and> c \<le> 0x7e) (runes s)"

definition quoteName :: "string \<Rightarrow> string" where
  "quoteName s = [dquote] @ concat (map (\<lambda>c. if c = dquote \<or> c = bsl then [bsl, c] else [c]) s) @ [dquote]"

definition newline :: string where
  "newline = [CHR 0x0A]"

definition sshNoticeFooter :: string where
  "sshNoticeFooter = newline @ ''Name the one you want as the login:'' @ newline @
     ''  ssh <vm-name>@<this-host>'' @ newline"

fun noticeLines :: "string \<Rightarrow> string list \<Rightarrow> string" where
  "noticeLines b [] = b"
| "noticeLines b (name # rest) =
     (if length b + length name + length sshNoticeFooter + 32 > MaxNotice
      then b @ ''  ... and '' @ nat_str (length (name # rest)) @ '' more'' @ newline
      else noticeLines (b @ ''  '' @ name @ newline) rest)"

definition noticeHead :: "string \<Rightarrow> string" where
  "noticeHead requested =
     (if isPrintableName requested
      then ''No VM named '' @ quoteName requested @ '' for this key.'' @ newline @ newline
      else ''No VM selected.'' @ newline @ newline) @
     ''This key can reach:'' @ newline"

definition sshVMNotice :: "string \<Rightarrow> string list \<Rightarrow> string" where
  "sshVMNotice requested owned = noticeLines (noticeHead requested) owned @ sshNoticeFooter"

definition resolvedMsg :: "string \<Rightarrow> Msg" where
  "resolvedMsg ident = zeroMsg\<lparr>m_V := Version, m_Type := TypeResolved, m_ID := ident\<rparr>"

definition resolveSSH :: "(string \<Rightarrow> ssh_key option) \<Rightarrow> Resolver \<Rightarrow> Msg \<Rightarrow> Msg" where
  "resolveSSH parseKey r m =
     (case parseKey (m_SSHPubKey m) of
        None \<Rightarrow> resolvedMsg (m_ID m)
      | Some key \<Rightarrow>
          let norm = NormalizeKey key in
          (case rs_users r (norm, m_SSHUser m) of
             Some u \<Rightarrow> (resolvedMsg (m_ID m))\<lparr>m_Authorized := True, m_Target := sp_target u,
                         m_RemoteUser := sp_remoteUser u\<rparr>
           | None \<Rightarrow>
               if rs_owned r norm \<noteq> []
               then (resolvedMsg (m_ID m))\<lparr>m_Notice := sshVMNotice (m_SSHUser m) (rs_owned r norm)\<rparr>
               else resolvedMsg (m_ID m)))"

definition resolveRDP :: "Resolver \<Rightarrow> Msg \<Rightarrow> Msg" where
  "resolveRDP r m =
     (let deny = resolvedMsg (m_ID m) in
      case std_decode (m_RDPChallenge m) of
        None \<Rightarrow> deny
      | Some challenge \<Rightarrow>
          if length challenge \<noteq> 8 then deny
          else case std_decode (m_RDPNTResponse m) of
                 None \<Rightarrow> deny
               | Some response \<Rightarrow>
                   if length response > MaxNTLMBlob then deny
                   else case rs_rdp r (to_lower (m_RDPUser m)) of
                          None \<Rightarrow> deny
                        | Some u \<Rightarrow>
                            (case VerifyNTLMv2 (rp_ntHash u) (m_RDPUser m) (m_RDPDomain m) challenge response of
                               None \<Rightarrow> deny
                             | Some key \<Rightarrow>
                                 deny\<lparr>m_Authorized := True, m_Target := rp_target u,
                                      m_RemoteUser := rp_remoteUser u,
                                      m_RemotePassword := rp_remotePassword u,
                                      m_RDPSessionKey := std_encode key\<rparr>))"

definition resolveRequest :: "(string \<Rightarrow> parsed_url option) \<Rightarrow> Msg \<Rightarrow> request option" where
  "resolveRequest parseURI m =
     (let target = (if m_Path m = [] then ''/'' else m_Path m) in
      map_option (\<lambda>u. \<lparr>rq_URL = u,
        rq_Header = (\<lambda>_. [])(''Cookie'' := [m_Cookie m], ''Accept'' := [m_Accept m],
          ''Upgrade'' := [m_Upgrade m], ''Connection'' := [m_Connection m],
          ''Sec-Websocket-Version'' := [m_WSVersion m], ''Sec-Websocket-Key'' := [m_WSKey m])\<rparr>)
        (parseURI target))"

definition resolveSession :: "int \<Rightarrow> Resolver \<Rightarrow> sessionKind \<Rightarrow> Msg \<Rightarrow> string \<Rightarrow> request \<Rightarrow> Msg" where
  "resolveSession now r k m vmHost req =
     (let host = normalizeHost (m_Host m);
          v = authorizeSession now (rs_router r) (rs_auth r) k host vmHost req
      in if sa_status v \<noteq> 0 then (resolvedMsg (m_ID m))\<lparr>m_Status := sa_status v\<rparr>
         else (resolvedMsg (m_ID m))\<lparr>m_Authorized := True, m_Protocol := sk_protocol k,
                m_Target := sa_target v, m_RemoteUser := sa_remoteUser v,
                m_RemotePassword := sa_remotePassword v, m_Sub := sa_sub v, m_WSKey := sa_wsKey v\<rparr>)"

text \<open>The session a host that is not published stands for: a desktop first, then a console.\<close>

definition sessionFor ::
  "Resolver \<Rightarrow> Msg \<Rightarrow> request \<Rightarrow> (sessionKind \<times> string) option" where
  "sessionFor r m req =
     (if HostEntry (rs_router r) (m_Host m) \<noteq> None then None
      else let via = (\<lambda>k. Option.bind k (\<lambda>k.
                 map_option (Pair k) (labelledVMHost (rs_router r) (sk_label k) (m_Host m))))
           in case via (desktopKind (rs_desktop r)) of
                Some x \<Rightarrow> Some x
              | None \<Rightarrow> via (consoleHostKind (rs_console r) (Some req)))"

definition resolveHTTP :: "(string \<Rightarrow> parsed_url option) \<Rightarrow> int \<Rightarrow> Resolver \<Rightarrow> Msg \<Rightarrow> Msg" where
  "resolveHTTP parseURI now r m =
     (case resolveRequest parseURI m of
        None \<Rightarrow> (resolvedMsg (m_ID m))\<lparr>m_Status := 400\<rparr>
      | Some req \<Rightarrow>
          (case sessionFor r m req of
             Some (k, vmHost) \<Rightarrow> resolveSession now r k m vmHost req
           | None \<Rightarrow>
               (case HostBackend (rs_router r) (m_Host m) of
                  None \<Rightarrow> resolvedMsg (m_ID m)
                | Some t \<Rightarrow>
                    let v = authorizeRequest now (rs_router r) (rs_auth r) (m_Host m) req in
                    if \<not> av_ok v
                    then (resolvedMsg (m_ID m))\<lparr>m_Status := av_status v, m_Location := av_location v,
                           m_SetCookie := av_setCookie v\<rparr>
                    else (resolvedMsg (m_ID m))\<lparr>m_Authorized := True, m_Target := t\<rparr>)))"

definition Handle ::
  "(string \<Rightarrow> ssh_key option) \<Rightarrow> (string \<Rightarrow> parsed_url option) \<Rightarrow> int \<Rightarrow> Resolver \<Rightarrow> Msg \<Rightarrow> Msg" where
  "Handle parseKey parseURI now r m =
     (if m_Kind m = KindSSH then resolveSSH parseKey r m
      else if m_Kind m = KindRDP then resolveRDP r m
      else if m_Kind m = KindHTTP then resolveHTTP parseURI now r m
      else Err (m_ID m) (''unknown resolve kind '' @ m_Kind m))"

section \<open>What the tables hold\<close>

definition userKey ::
  "(string \<Rightarrow> string option) \<Rightarrow> (string \<Rightarrow> ssh_key option) \<Rightarrow> SSHUser \<Rightarrow> string option" where
  "userKey readFile parseKey u =
     map_option NormalizeKey (Option.bind (userKeyText readFile u) parseKey)"

definition sshUsers :: "Config \<Rightarrow> SSHUser list" where
  "sshUsers cfg = (case SSH cfg of None \<Rightarrow> [] | Some sc \<Rightarrow> ssh_Users sc)"

definition rdpUsers :: "Config \<Rightarrow> RDPUser list" where
  "rdpUsers cfg = (case RDP cfg of None \<Rightarrow> [] | Some rc \<Rightarrow> rdp_Users rc)"

text \<open>The SSH tables after the users \<open>us\<close> were added.\<close>

definition ssh_tables ::
  "(SSHUser \<Rightarrow> string option) \<Rightarrow> SSHUser list \<Rightarrow> Resolver \<Rightarrow> bool" where
  "ssh_tables keyOf us r \<longleftrightarrow>
     (\<forall>n vm t ru. (\<exists>fp. rs_users r (n, vm) = Some \<lparr>sp_target = t, sp_remoteUser = ru, sp_fingerprint = fp\<rparr>) \<longleftrightarrow>
        (\<exists>u\<in>set us. keyOf u = Some n \<and> su_VMName u = vm \<and> su_Target u = t \<and> su_RemoteUser u = ru)) \<and>
     (\<forall>n. rs_owned r n = map su_VMName (filter (\<lambda>u. keyOf u = Some n) us))"

definition rdp_table :: "RDPUser list \<Rightarrow> Resolver \<Rightarrow> bool" where
  "rdp_table us r \<longleftrightarrow>
     (\<forall>n p. rs_rdp r n = Some p \<longrightarrow>
        (\<exists>u\<in>set us. to_lower (ru_VMName u) = n \<and> hex_decode (ru_NTHash u) = Some (rp_ntHash p) \<and>
           rp_target p = ru_Target u \<and> rp_remoteUser p = ru_RemoteUser u \<and>
           rp_remotePassword p = ru_RemotePassword u))"

lemma ssh_tables_None:
  assumes "ssh_tables keyOf us r" and "rs_users r (n, vm) = None" and "u \<in> set us" and "keyOf u = Some n"
  shows "su_VMName u \<noteq> vm"
proof
  assume "su_VMName u = vm"
  with assms(1,3,4) have "\<exists>fp. rs_users r (n, vm) =
      Some \<lparr>sp_target = su_Target u, sp_remoteUser = su_RemoteUser u, sp_fingerprint = fp\<rparr>"
    unfolding ssh_tables_def by blast
  with assms(2) show False by simp
qed

lemma addSSHUser_tables:
  assumes "addSSHUser readFile parseKey fingerprint i u r = Inr r'"
    and "ssh_tables (userKey readFile parseKey) us r"
  shows "ssh_tables (userKey readFile parseKey) (us @ [u]) r'"
proof -
  obtain raw key where k: "userKeyText readFile u = Some raw" "parseKey raw = Some key"
    and new: "rs_users r (NormalizeKey key, su_VMName u) = None"
    and r': "r' = r\<lparr>rs_users := (rs_users r)((NormalizeKey key, su_VMName u) \<mapsto>
        \<lparr>sp_target = su_Target u, sp_remoteUser = su_RemoteUser u, sp_fingerprint = fingerprint key\<rparr>),
      rs_owned := (rs_owned r)(NormalizeKey key := rs_owned r (NormalizeKey key) @ [su_VMName u])\<rparr>"
    using assms(1) by (auto simp: addSSHUser_def Let_def split: option.splits)
  from k have key: "userKey readFile parseKey u = Some (NormalizeKey key)" by (simp add: userKey_def)
  from assms(2) new have "\<not> (\<exists>v\<in>set us. userKey readFile parseKey v = Some (NormalizeKey key) \<and>
      su_VMName v = su_VMName u)"
    using ssh_tables_None by blast
  with assms(2) key show ?thesis
    unfolding r' ssh_tables_def by (auto simp: fun_upd_def)
qed

lemma addRDPUser_table:
  "addRDPUser i u r = Inr r' \<Longrightarrow> rdp_table us r \<Longrightarrow> rdp_table (us @ [u]) r'"
  by (fastforce simp: addRDPUser_def rdp_table_def split: option.splits if_splits)

lemma NewResolver_tables:
  assumes "NewResolver readFile parseKey fingerprint router auth cfg = Inr r"
  shows "ssh_tables (userKey readFile parseKey) (sshUsers cfg) r \<and> rdp_table (rdpUsers cfg) r \<and>
    rs_router r = router \<and> rs_auth r = auth \<and> rs_console r = Console cfg \<and> rs_desktop r = Desktop cfg"
proof -
  let ?P = "\<lambda>(r :: Resolver). rs_router r = router \<and> rs_auth r = auth \<and>
     rs_console r = Console cfg \<and> rs_desktop r = Desktop cfg"
  let ?r0 = "\<lparr>rs_router = router, rs_auth = auth, rs_console = Console cfg, rs_desktop = Desktop cfg,
     rs_users = Map.empty, rs_owned = (\<lambda>_. []), rs_rdp = Map.empty\<rparr>"
  from assms obtain r1 where r1: "for_each 0 addRDPUser (rdpUsers cfg) ?r0 = Inr r1"
    and r: "for_each 0 (addSSHUser readFile parseKey fingerprint) (sshUsers cfg) r1 = Inr r"
    by (cases "RDP cfg"; cases "SSH cfg") (auto simp: NewResolver_def rdpUsers_def sshUsers_def Let_def)
  have one: "rdp_table (rdpUsers cfg) r1 \<and> ssh_tables (userKey readFile parseKey) [] r1 \<and> ?P r1"
  proof (rule for_each_invariant [OF r1, where P = "\<lambda>us r. rdp_table us r \<and>
      ssh_tables (userKey readFile parseKey) [] r \<and> ?P r"])
    fix j u us s and s' :: Resolver
    assume add: "addRDPUser j u s = Inr s'"
      and inv: "rdp_table us s \<and> ssh_tables (userKey readFile parseKey) [] s \<and> ?P s"
    then have "rs_users s' = rs_users s \<and> rs_owned s' = rs_owned s \<and> rs_router s' = rs_router s \<and>
        rs_auth s' = rs_auth s \<and> rs_console s' = rs_console s \<and> rs_desktop s' = rs_desktop s"
      by (auto simp: addRDPUser_def split: option.splits)
    with addRDPUser_table [OF add] inv
    show "rdp_table (us @ [u]) s' \<and> ssh_tables (userKey readFile parseKey) [] s' \<and> ?P s'"
      by (auto simp: ssh_tables_def)
  qed (simp add: rdp_table_def ssh_tables_def)
  have "ssh_tables (userKey readFile parseKey) (sshUsers cfg) r \<and> rdp_table (rdpUsers cfg) r \<and> ?P r"
  proof (rule for_each_invariant [OF r, where P = "\<lambda>us r. ssh_tables (userKey readFile parseKey) us r \<and>
      rdp_table (rdpUsers cfg) r \<and> ?P r"], use one in simp)
    fix j u us s and s' :: Resolver
    assume add: "addSSHUser readFile parseKey fingerprint j u s = Inr s'"
      and inv: "ssh_tables (userKey readFile parseKey) us s \<and> rdp_table (rdpUsers cfg) s \<and> ?P s"
    then have "rs_rdp s' = rs_rdp s \<and> rs_router s' = rs_router s \<and> rs_auth s' = rs_auth s \<and>
        rs_console s' = rs_console s \<and> rs_desktop s' = rs_desktop s"
      by (auto simp: addSSHUser_def Let_def split: option.splits)
    with addSSHUser_tables [OF add] inv
    show "ssh_tables (userKey readFile parseKey) (us @ [u]) s' \<and> rdp_table (rdpUsers cfg) s' \<and> ?P s'"
      by (auto simp: rdp_table_def)
  qed
  then show ?thesis by blast
qed

lemma noticeLines_bound:
  assumes "length b + length sshNoticeFooter + 29 \<le> MaxNotice" and "length ns < 10 ^ 13"
  shows "length (noticeLines b ns @ sshNoticeFooter) \<le> MaxNotice"
  using assms
proof (induction b ns rule: noticeLines.induct)
  case (2 b name rest)
  have d: "length (nat_str (length (name # rest))) \<le> 13"
    using 2(3) by (intro length_nat_str) simp_all
  show ?case
  proof (cases "length b + length name + length sshNoticeFooter + 32 > MaxNotice")
    case True
    with d 2(2) show ?thesis by (simp add: newline_def)
  next
    case False
    with 2(1) 2(3) show ?thesis by (simp add: newline_def)
  qed
qed simp

lemma length_quoteName: "length (quoteName s) \<le> 2 * length s + 2"
  by (induction s) (auto simp: quoteName_def)

lemma length_noticeHead: "length (noticeHead s) \<le> 200"
  using length_quoteName [of s] by (auto simp: noticeHead_def isPrintableName_def newline_def)

section \<open>Properties\<close>

text \<open>
  Property C1. SSH tenants are isolated by key and name together: a resolver built from a
  configuration authorises an SSH request exactly when some configured user has the presented key
  and the requested machine name, and the target and remote account it answers are that user's.
  When the key is known under other names only, the notice lists exactly the machines configured
  for that very key, and nothing is authorised; an unknown key learns nothing.
\<close>

theorem ssh_resolution:
  assumes "NewResolver readFile parseKey fingerprint router auth cfg = Inr r" and "m_Kind m = KindSSH"
    and "parseKey (m_SSHPubKey m) = Some key"
  shows "let rep = Handle parseKey parseURI now r m;
             mine = filter (\<lambda>u. userKey readFile parseKey u = Some (NormalizeKey key)) (sshUsers cfg)
    in (m_Authorized rep \<longleftrightarrow> (\<exists>u\<in>set mine. su_VMName u = m_SSHUser m)) \<and>
       (if m_Authorized rep
        then \<exists>u\<in>set mine. su_VMName u = m_SSHUser m \<and> m_Target rep = su_Target u \<and>
               m_RemoteUser rep = su_RemoteUser u
        else m_Target rep = [] \<and> m_RemoteUser rep = [] \<and>
          m_Notice rep = (if mine = [] then [] else sshVMNotice (m_SSHUser m) (map su_VMName mine)))"
proof -
  have tab: "ssh_tables (userKey readFile parseKey) (sshUsers cfg) r"
    using NewResolver_tables [OF assms(1)] by blast
  then have own: "rs_owned r (NormalizeKey key) =
      map su_VMName (filter (\<lambda>u. userKey readFile parseKey u = Some (NormalizeKey key)) (sshUsers cfg))"
    by (simp add: ssh_tables_def)
  show ?thesis
  proof (cases "rs_users r (NormalizeKey key, m_SSHUser m)")
    case None
    with tab have "\<forall>u\<in>set (sshUsers cfg). userKey readFile parseKey u = Some (NormalizeKey key) \<longrightarrow>
        su_VMName u \<noteq> m_SSHUser m"
      using ssh_tables_None by blast
    with None own assms(2,3) show ?thesis
      by (auto simp: Handle_def resolveSSH_def resolvedMsg_def zeroMsg_def Let_def)
  next
    case (Some p)
    then obtain t ru fp where "p = \<lparr>sp_target = t, sp_remoteUser = ru, sp_fingerprint = fp\<rparr>"
      by (cases p)
    with tab Some obtain u where "u \<in> set (sshUsers cfg)" "userKey readFile parseKey u = Some (NormalizeKey key)"
      "su_VMName u = m_SSHUser m" "su_Target u = sp_target p" "su_RemoteUser u = sp_remoteUser p"
      by (fastforce simp: ssh_tables_def)
    with Some assms(2,3) show ?thesis
      by (auto simp: Handle_def resolveSSH_def resolvedMsg_def zeroMsg_def Let_def)
  qed
qed

definition example_parseKey :: "string \<Rightarrow> ssh_key option" where
  "example_parseKey s = (if s = [] then None else Some (''ssh-ed25519'', to_bytes s))"

definition example_resolver :: Resolver where
  "example_resolver =
     (case NewResolver (\<lambda>_. None) example_parseKey (\<lambda>_. ''SHA256:x'') (NewRouter example_config)
        (Some example_auth) example_config of Inr r \<Rightarrow> r)"

lemma example_resolver_new:
  "NewResolver (\<lambda>_. None) example_parseKey (\<lambda>_. ''SHA256:x'') (NewRouter example_config)
     (Some example_auth) example_config = Inr example_resolver"
proof -
  have "case NewResolver (\<lambda>_. None) example_parseKey (\<lambda>_. ''SHA256:x'') (NewRouter example_config)
     (Some example_auth) example_config of Inl _ \<Rightarrow> False | Inr _ \<Rightarrow> True"
    by code_simp
  then show ?thesis by (auto simp: example_resolver_def split: sum.splits)
qed

definition example_ssh_msg :: Msg where
  "example_ssh_msg = zeroMsg\<lparr>m_Kind := KindSSH, m_SSHPubKey := ''ssh-ed25519 AAAA'', m_SSHUser := ''one''\<rparr>"

theorem ssh_resolution_witness:
  "m_Authorized (Handle example_parseKey (\<lambda>_. None) 0 example_resolver example_ssh_msg)"
proof -
  let ?key = "(''ssh-ed25519'', to_bytes ''ssh-ed25519 AAAA'')"
  have "m_Kind example_ssh_msg = KindSSH" "example_parseKey (m_SSHPubKey example_ssh_msg) = Some ?key"
    "m_SSHUser example_ssh_msg = ''one''"
    by (simp_all add: example_ssh_msg_def example_parseKey_def)
  moreover have "list_ex (\<lambda>u. su_VMName u = ''one'')
      (filter (\<lambda>u. userKey (\<lambda>_. None) example_parseKey u = Some (NormalizeKey ?key)) (sshUsers example_config))"
    by code_simp
  ultimately show ?thesis
    using ssh_resolution [OF example_resolver_new, of example_ssh_msg ?key] by (simp add: Let_def list_ex_iff)
qed

text \<open>
  Further result. The notice that lists a caller's machines always fits the \<open>MaxNotice\<close> bytes the
  control protocol carries, whatever login name was asked for and however many and long the names
  are: the loop stops in time to add the count of the names it left out and the footer.
\<close>

theorem sshVMNotice_bound:
  assumes "length owned < 10 ^ 13"
  shows "length (sshVMNotice requested owned) \<le> MaxNotice"
proof -
  have "length (noticeHead requested) + length sshNoticeFooter + 29 \<le> MaxNotice"
    using length_noticeHead [of requested] by (simp add: sshNoticeFooter_def newline_def MaxNotice_def)
  from noticeLines_bound [OF this assms] show ?thesis by (simp add: sshVMNotice_def)
qed

theorem sshVMNotice_bound_witness: "length (sshVMNotice ''vm'' [''one'', ''two'']) \<le> MaxNotice"
  using sshVMNotice_bound [of "[''one'', ''two'']" "''vm''"] by simp

lemma resolveRDP_authorizedD:
  assumes "NewResolver readFile parseKey fingerprint router auth cfg = Inr r" and "m_Authorized (resolveRDP r m)"
  obtains u h challenge blob response key where
    "u \<in> set (rdpUsers cfg)" "to_lower (ru_VMName u) = to_lower (m_RDPUser m)" "hex_decode (ru_NTHash u) = Some h"
    "std_decode (m_RDPChallenge m) = Some challenge" "length challenge = 8"
    "std_decode (m_RDPNTResponse m) = Some response"
    "ComputeNTLMv2 h (m_RDPUser m) (m_RDPDomain m) challenge blob = (response, key)"
    "resolveRDP r m = (resolvedMsg (m_ID m))\<lparr>m_Authorized := True, m_Target := ru_Target u,
        m_RemoteUser := ru_RemoteUser u, m_RemotePassword := ru_RemotePassword u,
        m_RDPSessionKey := std_encode key\<rparr>"
proof -
  from assms(2) obtain challenge response p key where
    d: "std_decode (m_RDPChallenge m) = Some challenge" "length challenge = 8"
      "std_decode (m_RDPNTResponse m) = Some response"
    and p: "rs_rdp r (to_lower (m_RDPUser m)) = Some p"
    and v: "VerifyNTLMv2 (rp_ntHash p) (m_RDPUser m) (m_RDPDomain m) challenge response = Some key"
    and rep: "resolveRDP r m = (resolvedMsg (m_ID m))\<lparr>m_Authorized := True, m_Target := rp_target p,
        m_RemoteUser := rp_remoteUser p, m_RemotePassword := rp_remotePassword p,
        m_RDPSessionKey := std_encode key\<rparr>"
    by (auto simp: resolveRDP_def resolvedMsg_def zeroMsg_def Let_def split: option.splits if_splits)
  from v obtain blob where
    c: "ComputeNTLMv2 (rp_ntHash p) (m_RDPUser m) (m_RDPDomain m) challenge blob = (response, key)"
    using VerifyNTLMv2_SomeD by blast
  from NewResolver_tables [OF assms(1)] p obtain u where u: "u \<in> set (rdpUsers cfg)"
    "to_lower (ru_VMName u) = to_lower (m_RDPUser m)" "hex_decode (ru_NTHash u) = Some (rp_ntHash p)"
    "rp_target p = ru_Target u" "rp_remoteUser p = ru_RemoteUser u" "rp_remotePassword p = ru_RemotePassword u"
    by (auto simp: rdp_table_def)
  show thesis using that [OF u(1-3) d c] rep unfolding u(4-6) by simp
qed

text \<open>
  Property C2. A remote desktop is reached only with its own password: when a resolver built from
  a configuration authorises an RDP request, a configured user whose lower-cased name is the
  lower-cased login has an NT hash under which the response in the request is what
  \<open>ComputeNTLMv2\<close> gives for the login, domain and 8-byte challenge of the request; the target and
  guest credentials answered are that user's, and the session key is the one the client derived.
  Every other reply carries no target, credential or key.
\<close>

theorem rdp_resolution:
  assumes "NewResolver readFile parseKey fingerprint router auth cfg = Inr r" and "m_Kind m = KindRDP"
  shows "let rep = Handle parseKey parseURI now r m in
    if m_Authorized rep
    then \<exists>u\<in>set (rdpUsers cfg). \<exists>h challenge blob response key.
      to_lower (ru_VMName u) = to_lower (m_RDPUser m) \<and> hex_decode (ru_NTHash u) = Some h \<and>
      std_decode (m_RDPChallenge m) = Some challenge \<and> length challenge = 8 \<and>
      std_decode (m_RDPNTResponse m) = Some response \<and>
      ComputeNTLMv2 h (m_RDPUser m) (m_RDPDomain m) challenge blob = (response, key) \<and>
      m_Target rep = ru_Target u \<and> m_RemoteUser rep = ru_RemoteUser u \<and>
      m_RemotePassword rep = ru_RemotePassword u \<and> m_RDPSessionKey rep = std_encode key
    else rep = resolvedMsg (m_ID m)"
proof (cases "m_Authorized (resolveRDP r m)")
  case False
  then show ?thesis using assms(2)
    by (auto simp: Handle_def resolveRDP_def KindRDP_def KindSSH_def Let_def split: option.splits if_splits)
next
  case True
  have h: "Handle parseKey parseURI now r m = resolveRDP r m"
    using assms(2) by (simp add: Handle_def KindRDP_def KindSSH_def)
  from assms(1) True show ?thesis
    by (rule resolveRDP_authorizedD) (use True in \<open>unfold Let_def h, auto\<close>)
qed

definition example_blob :: bytes where
  "example_blob = NTLMv2Blob [1,2,3,4,5,6,7,8] (WindowsTimeBytes 0) [0, 0, 0, 0]"

definition example_hash :: bytes where
  "example_hash = the (hex_decode ''8846f7eaee8fb117ad06bdd830b7586c'')"

definition example_rdp_msg :: Msg where
  "example_rdp_msg = zeroMsg\<lparr>m_Kind := KindRDP, m_RDPUser := ''ONE'', m_RDPChallenge := std_encode [1,2,3,4,5,6,7,8],
     m_RDPNTResponse := std_encode (fst (ComputeNTLMv2 example_hash
       ''ONE'' [] [1,2,3,4,5,6,7,8] example_blob))\<rparr>"

lemma resolveRDP_authorizedI:
  assumes "m_RDPChallenge m = std_encode challenge" "length challenge = 8"
    and "m_RDPNTResponse m = std_encode response" "length response \<le> MaxNTLMBlob"
    and "rs_rdp r (to_lower (m_RDPUser m)) = Some p"
    and "VerifyNTLMv2 (rp_ntHash p) (m_RDPUser m) (m_RDPDomain m) challenge response = Some key"
  shows "m_Authorized (resolveRDP r m)"
  using assms by (simp add: resolveRDP_def std_base64.dec_enc Let_def)

lemma example_rdp_authorized:
  "m_Authorized (Handle example_parseKey (\<lambda>_. None) 0 example_resolver example_rdp_msg)"
proof -
  have "case rs_rdp example_resolver (to_lower ''ONE'') of None \<Rightarrow> False | Some p \<Rightarrow> rp_ntHash p = example_hash"
    by code_simp
  then obtain p where p: "rs_rdp example_resolver (to_lower ''ONE'') = Some p" "rp_ntHash p = example_hash"
    by (auto split: option.splits)
  obtain response key where c: "ComputeNTLMv2 example_hash ''ONE'' [] [1,2,3,4,5,6,7,8] example_blob = (response, key)"
    by fastforce
  then have "VerifyNTLMv2 example_hash ''ONE'' [] [1,2,3,4,5,6,7,8] response = Some key" "length response \<le> MaxNTLMBlob"
    by (auto simp: ComputeNTLMv2_def VerifyNTLMv2_def Let_def MaxNTLMBlob_def example_blob_def NTLMv2Blob_def
        splice_def WindowsTimeBytes_def)
  moreover have "m_RDPNTResponse example_rdp_msg = std_encode response" using c by (simp only: example_rdp_msg_def) simp
  ultimately have "m_Authorized (resolveRDP example_resolver example_rdp_msg)"
    using p by (intro resolveRDP_authorizedI [where p = p and key = key and response = response and challenge = "[1,2,3,4,5,6,7,8]"])
      (simp_all only: example_rdp_msg_def, simp_all add: zeroMsg_def)
  then show ?thesis by (simp add: Handle_def KindRDP_def KindSSH_def example_rdp_msg_def)
qed

theorem rdp_resolution_witness:
  "\<exists>u\<in>set (rdpUsers example_config). to_lower (ru_VMName u) = ''one'' \<and>
     m_Target (Handle example_parseKey (\<lambda>_. None) 0 example_resolver example_rdp_msg) = ru_Target u"
proof -
  have "m_Kind example_rdp_msg = KindRDP" "m_RDPUser example_rdp_msg = ''ONE''"
    by (simp_all add: example_rdp_msg_def)
  moreover have "to_lower ''ONE'' = ''one''" by code_simp
  moreover note rdp_resolution [OF example_resolver_new, of example_rdp_msg "\<lambda>_. None" 0]
    example_rdp_authorized
  ultimately show ?thesis by (auto simp: Let_def)
qed

text \<open>An authorised reply over https, whatever it authorises.\<close>

lemma resolveHTTP_authorizedD:
  assumes "m_Authorized (resolveHTTP parseURI now r m)"
  shows "\<exists>req. resolveRequest parseURI m = Some req \<and>
      (case sessionFor r m req of
         Some (k, vmHost) \<Rightarrow> \<exists>a entry. rs_auth r = Some a \<and> HostEntry (rs_router r) vmHost = Some entry \<and>
           verify now a (u_Query (rq_URL req) ''token'') (sk_audPrefix k @ normalizeHost (m_Host m)) =
             Some (m_Sub (resolveHTTP parseURI now r m)) \<and>
           m_Target (resolveHTTP parseURI now r m) = join_host_port (hh_Host entry) (itoa (sk_port k)) \<and>
           m_Protocol (resolveHTTP parseURI now r m) = sk_protocol k
       | None \<Rightarrow> HostBackend (rs_router r) (m_Host m) = Some (m_Target (resolveHTTP parseURI now r m)) \<and>
           (\<forall>entry. HostEntry (rs_router r) (m_Host m) = Some entry \<and> NeedsAuth entry (hh_DefaultPort entry) \<longrightarrow>
             (\<exists>a v sub. rs_auth r = Some a \<and> request_cookie req (CookieName a) = Some v \<and>
                Verify now a v (normalizeHost (m_Host m)) = Some sub)))"
proof (cases "resolveRequest parseURI m")
  case None
  with assms show ?thesis by (simp add: resolveHTTP_def resolvedMsg_def zeroMsg_def)
next
  case (Some req)
  show ?thesis
  proof (cases "sessionFor r m req")
    case None
    with assms Some authorizeRequest_okD show ?thesis
      by (fastforce simp: resolveHTTP_def resolvedMsg_def zeroMsg_def Let_def split: option.splits if_splits)
  next
    case s: (Some kv)
    obtain k vmHost where kv: "kv = (k, vmHost)" by (cases kv)
    from assms show ?thesis
      using Some s kv authorizeSession_cases [of now "rs_router r" "rs_auth r" k "normalizeHost (m_Host m)" vmHost req]
      by (auto simp: resolveHTTP_def resolveSession_def resolvedMsg_def zeroMsg_def Let_def split: if_splits)
  qed
qed

lemma resolveHTTP_denied:
  assumes "\<not> m_Authorized (resolveHTTP parseURI now r m)"
  shows "m_Target (resolveHTTP parseURI now r m) = [] \<and> m_RemoteUser (resolveHTTP parseURI now r m) = [] \<and>
    m_RemotePassword (resolveHTTP parseURI now r m) = []"
  using assms
  by (auto simp: resolveHTTP_def resolveSession_def resolvedMsg_def zeroMsg_def Let_def split: option.splits prod.splits if_splits)

lemma Handle_HTTP: "m_Kind m = KindHTTP \<Longrightarrow> Handle parseKey parseURI now r m = resolveHTTP parseURI now r m"
  by (simp add: Handle_def KindHTTP_def KindRDP_def KindSSH_def)

text \<open>
  Property C3. Over https the reply depends on the host alone for where it goes and on a verified
  credential for whether it goes there. An authorised reply either routes to the backend of the
  host, and then the entry that names the backend is exempt from login or the session cookie of
  the request verifies for exactly that host; or it opens a console or desktop session, and then a
  token of that session kind verifies for the labelled host and the target is the session port of
  a published machine. A reply that is not authorised names no target, account or password.
\<close>

theorem http_resolution:
  assumes "m_Kind m = KindHTTP"
  shows "let rep = Handle parseKey parseURI now r m in
    if m_Authorized rep
    then \<exists>req. resolveRequest parseURI m = Some req \<and>
      (case sessionFor r m req of
         Some (k, vmHost) \<Rightarrow> \<exists>a entry. rs_auth r = Some a \<and> HostEntry (rs_router r) vmHost = Some entry \<and>
           verify now a (u_Query (rq_URL req) ''token'') (sk_audPrefix k @ normalizeHost (m_Host m)) =
             Some (m_Sub rep) \<and>
           m_Target rep = join_host_port (hh_Host entry) (itoa (sk_port k)) \<and> m_Protocol rep = sk_protocol k
       | None \<Rightarrow> HostBackend (rs_router r) (m_Host m) = Some (m_Target rep) \<and>
           (\<forall>entry. HostEntry (rs_router r) (m_Host m) = Some entry \<and> NeedsAuth entry (hh_DefaultPort entry) \<longrightarrow>
             (\<exists>a v sub. rs_auth r = Some a \<and> request_cookie req (CookieName a) = Some v \<and>
                Verify now a v (normalizeHost (m_Host m)) = Some sub)))
    else m_Target rep = [] \<and> m_RemoteUser rep = [] \<and> m_RemotePassword rep = []"
proof (cases "m_Authorized (resolveHTTP parseURI now r m)")
  case True
  with resolveHTTP_authorizedD [OF this] show ?thesis by (simp add: Handle_HTTP [OF assms] Let_def)
next
  case False
  with resolveHTTP_denied [OF this] show ?thesis by (simp add: Handle_HTTP [OF assms] Let_def)
qed

definition example_http_msg :: Msg where
  "example_http_msg = zeroMsg\<lparr>m_Kind := KindHTTP, m_Host := ''One.vm.local:80'',
     m_Cookie := ''dpipe_session='' @ Mint example_now example_auth ''user-1'' ''one.vm.local''\<rparr>"

lemma example_http_authorized:
  "Handle example_parseKey (\<lambda>_. Some (rq_URL example_request)) example_now example_resolver example_http_msg =
     (resolvedMsg [])\<lparr>m_Authorized := True, m_Target := ''10.0.0.5:8080''\<rparr>"
proof -
  have r: "rs_router example_resolver = NewRouter example_config" "rs_auth example_resolver = Some example_auth"
    using NewResolver_tables [OF example_resolver_new] by blast+
  have b: "HostBackend (NewRouter example_config) ''One.vm.local:80'' = Some ''10.0.0.5:8080''" by code_simp
  define req where "req = \<lparr>rq_URL = rq_URL example_request, rq_Header = (\<lambda>_. [])
      (''Cookie'' := [m_Cookie example_http_msg], ''Accept'' := [[]], ''Upgrade'' := [[]],
       ''Connection'' := [[]], ''Sec-Websocket-Version'' := [[]], ''Sec-Websocket-Key'' := [[]])\<rparr>"
  have "authorizeRequest example_now (NewRouter example_config) (Some example_auth) ''One.vm.local:80'' req = verdictOK"
    using example_mint_live example_facts
    by (intro session_cookie_ok [where sub = "''user-1''" and now = example_now])
       (simp_all add: req_def example_http_msg_def example_request_def)
  moreover have "resolveRequest (\<lambda>_. Some (rq_URL example_request)) example_http_msg = Some req"
    by (simp add: resolveRequest_def example_http_msg_def req_def zeroMsg_def)
  moreover have "m_Kind example_http_msg = KindHTTP" "m_Host example_http_msg = ''One.vm.local:80''" "m_ID example_http_msg = []"
    by (simp_all add: example_http_msg_def zeroMsg_def)
  ultimately show ?thesis using b r example_facts(5)
    by (simp add: Handle_def resolveHTTP_def KindRDP_def KindSSH_def KindHTTP_def sessionFor_def verdictOK_def)
qed

theorem http_resolution_witness:
  "HostBackend (NewRouter example_config) ''One.vm.local:80'' = Some ''10.0.0.5:8080''"
proof -
  have r: "rs_router example_resolver = NewRouter example_config"
    using NewResolver_tables [OF example_resolver_new] by blast
  have m: "m_Kind example_http_msg = KindHTTP" "m_Host example_http_msg = ''One.vm.local:80''"
    by (simp_all add: example_http_msg_def)
  have s: "sessionFor example_resolver example_http_msg req = None" for req
    using example_facts(5) by (simp add: sessionFor_def r m)
  from http_resolution [OF m(1), of example_parseKey "\<lambda>_. Some (rq_URL example_request)" example_now example_resolver]
  show ?thesis by (auto simp: example_http_authorized s m r resolvedMsg_def)
qed

end
