(* ===== verification/Rdp_Wire.thy ===== *)
theory Rdp_Wire
  imports Ntlm
begin

unbundle bit_operations_syntax

text \<open>
  The two exchanges around TLS on a remote-desktop connection: the X.224 connection request and
  confirm (\<open>backstage/dpipe/internal/rdp/x224.go\<close>) and the RDSTLS messages of a client that
  reconnects after a redirection (\<open>rdstls.go\<close>).

  A reader is the bytes still to come on the connection; \<open>readFull\<close> is \<open>io.ReadFull\<close>, which
  fails when the connection ends first. A reading function gives an error, or its value with the
  bytes it left unread. A writing function is the bytes it writes in its one \<open>Write\<close> call.
\<close>

section \<open>Model\<close>

datatype rdp_error =
    Truncated
  | BadTPKTVersion int
  | BadTPKTLength int
  | PDUTooShort
  | UnexpectedCode int
  | NegotiationRefused "32 word"
  | UnexpectedNegotiation int
  | RDSTLSVersion int
  | RDSTLSType int
  | RDSTLSDataType int
  | RDSTLSUnsupported
  | RDSTLSFieldTooLong int

type_synonym 'a reading = "rdp_error + ('a \<times> bytes)"

definition readFull :: "nat \<Rightarrow> bytes \<Rightarrow> bytes reading" where
  "readFull n s = (if length s < n then Inl Truncated else Inr (take n s, drop n s))"

definition ProtocolRDP :: "32 word" where "ProtocolRDP = 0"
definition ProtocolSSL :: "32 word" where "ProtocolSSL = 1"
definition ProtocolHybrid :: "32 word" where "ProtocolHybrid = 2"
definition ProtocolRDSTLS :: "32 word" where "ProtocolRDSTLS = 4"
definition ProtocolHybridEx :: "32 word" where "ProtocolHybridEx = 8"

definition tpktVersion :: byte where "tpktVersion = 3"
definition crCDT :: byte where "crCDT = 0xE0"
definition ccCDT :: byte where "ccCDT = 0xD0"
definition negReqType :: byte where "negReqType = 1"
definition negRspType :: byte where "negRspType = 2"
definition negFailureType :: byte where "negFailureType = 3"
definition MaxPDU :: int where "MaxPDU = 4096"

record ConnectionRequest =
  cr_Cookie :: string
  cr_RequestedProtocols :: "32 word"
  cr_HasNegotiation :: bool
  cr_SrcRef :: int
  cr_Raw :: bytes

definition readTPKT :: "bytes \<Rightarrow> bytes reading" where
  "readTPKT r =
     rbind (readFull 4 r) (\<lambda>(h, r).
       if h ! 0 \<noteq> tpktVersion then Inl (BadTPKTVersion (uint (h ! 0)))
       else let n = be_val (drop 2 h) in
         if n < 4 \<or> n > MaxPDU then Inl (BadTPKTLength n)
         else readFull (nat n - 4) r)"

text \<open>The header's length field is 16 bits wide, so it wraps for a longer body.\<close>

definition writeTPKT :: "bytes \<Rightarrow> bytes" where
  "writeTPKT body = [tpktVersion, 0] @ be_bytes 2 (int (4 + length body)) @ body"

definition indexCRLF :: "bytes \<Rightarrow> nat option" where
  "indexCRLF b = index_of b [13, 10]"

definition le32_word :: "bytes \<Rightarrow> 32 word" where
  "le32_word b = word_of_int (le_val (take 4 b))"

text \<open>A cookie or routing token, when present, runs to the first line break.\<close>

definition takeCookie :: "bytes \<Rightarrow> string \<times> bytes" where
  "takeCookie rest =
     (case indexCRLF rest of
        None \<Rightarrow> ([], rest)
      | Some i \<Rightarrow> (of_bytes (take i rest), drop (i + 2) rest))"

definition ReadConnectionRequest :: "bytes \<Rightarrow> ConnectionRequest reading" where
  "ReadConnectionRequest r =
     rbind (readTPKT r) (\<lambda>(body, r).
       if length body < 7 then Inl PDUTooShort
       else if body ! 1 \<noteq> crCDT then Inl (UnexpectedCode (uint (body ! 1)))
       else let (cookie, rest) = takeCookie (drop 7 body);
                neg = (8 \<le> length rest \<and> rest ! 0 = negReqType)
            in Inr (\<lparr>cr_Cookie = cookie,
                     cr_RequestedProtocols = (if neg then le32_word (drop 4 rest) else 0),
                     cr_HasNegotiation = neg, cr_SrcRef = be_val (take 2 (drop 4 body)),
                     cr_Raw = writeTPKT body\<rparr>, r))"

definition negBody :: "byte \<Rightarrow> byte \<Rightarrow> 32 word \<Rightarrow> bytes" where
  "negBody typ flags v = [typ, flags] @ le_bytes 2 8 @ le_bytes 4 (uint v)"

definition WriteConnectionConfirm :: "int \<Rightarrow> byte \<Rightarrow> 32 word \<Rightarrow> bytes" where
  "WriteConnectionConfirm srcRef flags protocol =
     writeTPKT ([14, ccCDT] @ be_bytes 2 srcRef @ [0, 0, 0] @ negBody negRspType flags protocol)"

definition WriteConnectionFailure :: "int \<Rightarrow> 32 word \<Rightarrow> bytes" where
  "WriteConnectionFailure srcRef reason =
     writeTPKT ([14, ccCDT] @ be_bytes 2 srcRef @ [0, 0, 0] @ negBody negFailureType 0 reason)"

definition WriteConnectionRequest :: "string \<Rightarrow> 32 word \<Rightarrow> bytes" where
  "WriteConnectionRequest cookie protocols =
     (let body = [crCDT, 0, 0, 0, 0, 0] @ (if cookie \<noteq> [] then to_bytes cookie @ [13, 10] else []) @
                 negBody negReqType 0 protocols
      in writeTPKT (word_of_nat (length body) # body))"

definition ReadConnectionConfirm :: "bytes \<Rightarrow> 32 word reading" where
  "ReadConnectionConfirm r =
     rbind (readTPKT r) (\<lambda>(body, r).
       if length body < 7 then Inl PDUTooShort
       else if body ! 1 \<noteq> ccCDT then Inl (UnexpectedCode (uint (body ! 1)))
       else let rest = drop 7 body in
         if length rest < 8 then Inr (ProtocolRDP, r)
         else if rest ! 0 = negRspType then Inr (le32_word (drop 4 rest), r)
         else if rest ! 0 = negFailureType then Inl (NegotiationRefused (le32_word (drop 4 rest)))
         else Inl (UnexpectedNegotiation (uint (rest ! 0))))"

subsection \<open>RDSTLS\<close>

definition rdstlsVersion1 :: int where "rdstlsVersion1 = 1"
definition rdstlsTypeCapabilities :: int where "rdstlsTypeCapabilities = 1"
definition rdstlsTypeAuthReq :: int where "rdstlsTypeAuthReq = 2"
definition rdstlsTypeAuthRsp :: int where "rdstlsTypeAuthRsp = 4"
definition rdstlsDataCapabilities :: int where "rdstlsDataCapabilities = 1"
definition rdstlsDataResultCode :: int where "rdstlsDataResultCode = 1"
definition RDSTLSDataPasswordCreds :: int where "RDSTLSDataPasswordCreds = 1"
definition RDSTLSDataAutoReconnectCookie :: int where "RDSTLSDataAutoReconnectCookie = 2"
definition MaxRDSTLSBlob :: int where "MaxRDSTLSBlob = 8192"

definition WriteRDSTLSCapabilities :: bytes where
  "WriteRDSTLSCapabilities =
     le_bytes 2 rdstlsVersion1 @ le_bytes 2 rdstlsTypeCapabilities @
     le_bytes 2 rdstlsDataCapabilities @ le_bytes 2 rdstlsVersion1"

definition ReadRDSTLSCapabilities :: "bytes \<Rightarrow> unit reading" where
  "ReadRDSTLSCapabilities r =
     rbind (readFull 8 r) (\<lambda>(b, r).
       if u16_at b 0 \<noteq> rdstlsVersion1 then Inl (RDSTLSVersion (u16_at b 0))
       else if u16_at b 2 \<noteq> rdstlsTypeCapabilities then Inl (RDSTLSType (u16_at b 2))
       else if u16_at b 4 \<noteq> rdstlsDataCapabilities then Inl (RDSTLSDataType (u16_at b 4))
       else if u16_at b 6 AND rdstlsVersion1 = 0 then Inl RDSTLSUnsupported
       else Inr ((), r))"

record RDSTLSAuthRequest =
  ra_DataType :: int
  ra_RedirectionGUID :: bytes
  ra_UserName :: bytes
  ra_Domain :: bytes
  ra_Password :: bytes
  ra_SessionID :: int
  ra_AutoReconnectCookie :: bytes
  ra_Raw :: bytes

text \<open>\<open>readRDSTLSBlob\<close> also appends what it read to the raw message.\<close>

definition readRDSTLSBlob :: "bytes \<Rightarrow> bytes \<Rightarrow> (bytes \<times> bytes) reading" where
  "readRDSTLSBlob r raw =
     rbind (readFull 2 r) (\<lambda>(n, r).
       if le_val n > MaxRDSTLSBlob then Inl (RDSTLSFieldTooLong (le_val n))
       else rbind (readFull (nat (le_val n)) r) (\<lambda>(b, r). Inr ((b, raw @ n @ b), r)))"

definition ReadRDSTLSAuthRequest :: "bytes \<Rightarrow> RDSTLSAuthRequest reading" where
  "ReadRDSTLSAuthRequest r =
     rbind (readFull 6 r) (\<lambda>(h, r).
       if u16_at h 0 \<noteq> rdstlsVersion1 then Inl (RDSTLSVersion (u16_at h 0))
       else if u16_at h 2 \<noteq> rdstlsTypeAuthReq then Inl (RDSTLSType (u16_at h 2))
       else let d = u16_at h 4;
                req = \<lparr>ra_DataType = d, ra_RedirectionGUID = [], ra_UserName = [], ra_Domain = [],
                       ra_Password = [], ra_SessionID = 0, ra_AutoReconnectCookie = [], ra_Raw = h\<rparr>
         in if d = RDSTLSDataPasswordCreds then
              rbind (readRDSTLSBlob r h) (\<lambda>((guid, raw), r).
              rbind (readRDSTLSBlob r raw) (\<lambda>((user, raw), r).
              rbind (readRDSTLSBlob r raw) (\<lambda>((domain, raw), r).
              rbind (readRDSTLSBlob r raw) (\<lambda>((password, raw), r).
                Inr (req\<lparr>ra_RedirectionGUID := guid, ra_UserName := user, ra_Domain := domain,
                         ra_Password := password, ra_Raw := raw\<rparr>, r)))))
            else if d = RDSTLSDataAutoReconnectCookie then
              rbind (readFull 4 r) (\<lambda>(sid, r).
              rbind (readRDSTLSBlob r (h @ sid)) (\<lambda>((b, raw), r).
                Inr (req\<lparr>ra_SessionID := le_val sid, ra_AutoReconnectCookie := b, ra_Raw := raw\<rparr>, r)))
            else Inl (RDSTLSDataType d))"

definition WriteRDSTLSAuthResponse :: "32 word \<Rightarrow> bytes" where
  "WriteRDSTLSAuthResponse result =
     le_bytes 2 rdstlsVersion1 @ le_bytes 2 rdstlsTypeAuthRsp @ le_bytes 2 rdstlsDataResultCode @
     le_bytes 4 (uint result)"

definition ReadRDSTLSAuthResponse :: "bytes \<Rightarrow> 32 word reading" where
  "ReadRDSTLSAuthResponse r =
     rbind (readFull 10 r) (\<lambda>(b, r).
       if u16_at b 0 \<noteq> rdstlsVersion1 then Inl (RDSTLSVersion (u16_at b 0))
       else if u16_at b 2 \<noteq> rdstlsTypeAuthRsp then Inl (RDSTLSType (u16_at b 2))
       else if u16_at b 4 \<noteq> rdstlsDataResultCode then Inl (RDSTLSDataType (u16_at b 4))
       else Inr (le32_word (drop 6 b), r))"

definition RDSTLSString :: "bytes \<Rightarrow> string" where
  "RDSTLSString b = of_runes (utf16_decode (takeWhile (\<lambda>v. v \<noteq> 0) (u16s b)))"

section \<open>Readers\<close>

lemma readFull_Inr_iff [simp]: "readFull n s = Inr (b, r) \<longleftrightarrow> s = b @ r \<and> length b = n"
  by (auto simp: readFull_def)

lemma readFull_append [simp]: "length b = n \<Longrightarrow> readFull n (b @ r) = Inr (b, r)"
  by (auto simp: readFull_def)

lemma readTPKT_write:
  assumes "int (length body) \<le> MaxPDU - 4"
  shows "readTPKT (writeTPKT body @ r) = Inr (body, r)"
proof -
  have f: "readFull 4 (writeTPKT body @ r) =
      Inr ([tpktVersion, 0] @ be_bytes 2 (int (4 + length body)), body @ r)"
    using readFull_append [of "[tpktVersion, 0] @ be_bytes 2 (int (4 + length body))" 4 "body @ r"]
    by (simp add: writeTPKT_def)
  have "be_val (be_bytes 2 (int (4 + length body))) = int (4 + length body)"
    using assms by (intro be_val_be_bytes) (simp_all add: MaxPDU_def)
  then show ?thesis
    unfolding readTPKT_def f using assms by (simp add: Let_def)
qed

lemma readTPKT_InrD:
  assumes "readTPKT s = Inr (body, r)"
  shows "\<exists>x. s = [tpktVersion, x] @ be_bytes 2 (int (4 + length body)) @ body @ r \<and>
    int (length body) \<le> MaxPDU - 4"
proof -
  from assms obtain h t where h: "s = h @ t" "length h = 4" "h ! 0 = tpktVersion"
    and n: "4 \<le> be_val (drop 2 h)" "be_val (drop 2 h) \<le> MaxPDU"
    and b: "t = body @ r" "length body = nat (be_val (drop 2 h)) - 4"
    by (auto simp: readTPKT_def Let_def split: if_splits)
  from h(2) obtain a x y z where hh: "h = [a, x, y, z]"
    by (auto simp: numeral_eq_Suc length_Suc_conv)
  have "int (4 + length body) = be_val (drop 2 h)" using b(2) n by simp
  then have "be_bytes 2 (int (4 + length body)) = drop 2 h"
    using h(2) by simp
  with h hh b n show ?thesis by auto
qed

lemma le32_word_le_bytes [simp]:
  "le32_word (le_bytes 4 (uint w) @ r) = w" "le32_word (le_bytes 4 (uint w)) = w"
  by (simp_all add: le32_word_def)

lemma length_negBody [simp]: "length (negBody t f v) = 8"
  by (simp add: negBody_def)

lemma negBody_fields: "negBody t f v ! 0 = t" "drop 4 (negBody t f v) = le_bytes 4 (uint v)"
  by (simp_all add: negBody_def numeral_eq_Suc)

lemma index_of_crlf_after:
  assumes "index_of c [13, 10] = None"
  shows "index_of (c @ [13, 10] @ r) [13, 10 :: byte] = Some (length c)"
proof (rule index_of_eq_SomeI)
  show "has_prefix (drop (length c) (c @ [13, 10] @ r)) [13, 10]" by (simp add: has_prefix_def)
  show "length c \<le> length (c @ [13, 10] @ r)" by simp
next
  fix j assume j: "j < length c"
  show "\<not> has_prefix (drop j (c @ [13, 10] @ r)) [13, 10]"
  proof (cases "j + 2 \<le> length c")
    case True
    with assms index_of_None [of c "[13, 10]"] show ?thesis
      by (auto simp: has_prefix_def)
  next
    case False
    with j obtain x where "drop j c = [x]"
      by (metis Cons_nth_drop_Suc Suc_eq_plus1 add_2_eq_Suc' drop_all linorder_not_le nat_less_le not_less_eq_eq)
    with j show ?thesis by (auto simp: has_prefix_def)
  qed
qed

lemma takeCookie_cookie:
  "index_of (to_bytes cookie) [13, 10] = None \<Longrightarrow> takeCookie (to_bytes cookie @ [13, 10] @ r) = (cookie, r)"
  using index_of_crlf_after [of "to_bytes cookie" r] by (simp add: takeCookie_def indexCRLF_def)

lemma takeCookie_none:
  assumes "uint protocols < 16"
  shows "takeCookie (negBody negReqType 0 protocols) = ([], negBody negReqType 0 protocols)"
proof -
  have four: "(4 :: nat) = Suc (Suc (Suc (Suc 0)))" by simp
  have "uint protocols div 256 = 0" using assms by simp
  then have "le_bytes 4 (uint protocols) = [word_of_int (uint protocols), 0, 0, 0]"
    unfolding four by simp
  moreover have "le_bytes 2 8 = [8, 0]" by code_simp
  ultimately show ?thesis
    by (simp add: takeCookie_def indexCRLF_def negBody_def negReqType_def has_prefix_def)
qed

lemma readRDSTLSBlob_InrD:
  assumes "readRDSTLSBlob s raw = Inr ((b, raw'), r)"
  shows "\<exists>x. raw' = raw @ x \<and> s = x @ r \<and> int (length b) \<le> MaxRDSTLSBlob"
proof -
  from assms obtain n t where "s = n @ t" "t = b @ r" "length b = nat (le_val n)" "raw' = raw @ n @ b"
    "le_val n \<le> MaxRDSTLSBlob"
    by (auto simp: readRDSTLSBlob_def split: if_splits)
  then show ?thesis by (intro exI [of _ "n @ b"]) (simp add: MaxRDSTLSBlob_def)
qed

lemma RDSTLS_responses:
  "ReadRDSTLSCapabilities (WriteRDSTLSCapabilities @ r) = Inr ((), r)"
  "ReadRDSTLSAuthResponse (WriteRDSTLSAuthResponse result @ r) = Inr (result, r)"
proof -
  have c: "WriteRDSTLSCapabilities = [1, 0, 1, 0, 1, 0, 1, 0]" by code_simp
  have "u16_at [1, 0, 1, 0, 1, 0, 1, 0] 0 = 1" "u16_at [1, 0, 1, 0, 1, 0, 1, 0] 2 = 1"
    "u16_at [1, 0, 1, 0, 1, 0, 1, 0] 4 = 1" "u16_at [1, 0, 1, 0, 1, 0, 1, 0] 6 = 1" by code_simp+
  moreover have "readFull 8 (WriteRDSTLSCapabilities @ r) = Inr ([1, 0, 1, 0, 1, 0, 1, 0], r)"
    unfolding c by (rule readFull_append) simp
  ultimately show "ReadRDSTLSCapabilities (WriteRDSTLSCapabilities @ r) = Inr ((), r)"
    unfolding ReadRDSTLSCapabilities_def
    by (simp add: c rdstlsVersion1_def rdstlsTypeCapabilities_def rdstlsDataCapabilities_def)
next
  let ?b = "[1, 0, 4, 0, 1, 0] @ le_bytes 4 (uint result)"
  have "WriteRDSTLSAuthResponse result = ?b"
  proof -
    have "le_bytes 2 rdstlsVersion1 @ le_bytes 2 rdstlsTypeAuthRsp @ le_bytes 2 rdstlsDataResultCode = [1, 0, 4, 0, 1, 0]"
      by code_simp
    then show ?thesis by (simp add: WriteRDSTLSAuthResponse_def append_assoc [symmetric] del: append_assoc)
  qed
  then have "readFull 10 (WriteRDSTLSAuthResponse result @ r) = Inr (?b, r)" by simp
  moreover have "u16_at ?b 0 = 1" "u16_at ?b 2 = 4" "u16_at ?b 4 = 1"
    by (simp_all add: u16_at_def read_at_def)
  ultimately show "ReadRDSTLSAuthResponse (WriteRDSTLSAuthResponse result @ r) = Inr (result, r)"
    by (simp add: ReadRDSTLSAuthResponse_def rdstlsVersion1_def rdstlsTypeAuthRsp_def rdstlsDataResultCode_def)
qed

text \<open>TPKT frames as a framing: a sequence of bodies is read back in order.\<close>

definition tpkt_take :: "bytes \<Rightarrow> bytes parsed" where
  "tpkt_take s = (case readTPKT s of Inr x \<Rightarrow> Some x | Inl _ \<Rightarrow> None)"

interpretation tpkt: framing writeTPKT tpkt_take "\<lambda>b. int (length b) \<le> MaxPDU - 4"
  by unfold_locales (simp add: tpkt_take_def readTPKT_write)

lemma ReadConnectionRequest_raw:
  assumes "ReadConnectionRequest s = Inr (req, r)"
  shows "\<exists>h. s = h @ r \<and> 2 \<le> length h \<and> cr_Raw req = h[1 := 0]"
proof -
  from assms obtain body where b: "readTPKT s = Inr (body, r)" "cr_Raw req = writeTPKT body"
    unfolding ReadConnectionRequest_def Let_def case_prod_beta by auto
  from readTPKT_InrD [OF b(1)] obtain x where
    "s = ([tpktVersion, x] @ be_bytes 2 (int (4 + length body)) @ body) @ r" by auto
  with b(2) show ?thesis
    by (intro exI [of _ "[tpktVersion, x] @ be_bytes 2 (int (4 + length body)) @ body"]) (simp add: writeTPKT_def)
qed

section \<open>Properties\<close>

definition request_of :: "string \<Rightarrow> 32 word \<Rightarrow> ConnectionRequest" where
  "request_of cookie protocols =
     \<lparr>cr_Cookie = cookie, cr_RequestedProtocols = protocols, cr_HasNegotiation = True, cr_SrcRef = 0,
      cr_Raw = WriteConnectionRequest cookie protocols\<rparr>"

text \<open>
  Further result. The connection exchange reads back what it writes: a request comes out with the
  cookie and the requested protocols it was written with, when the cookie fits and holds no line
  break and, without a cookie, the protocols are among the defined ones; a confirm comes out as
  the selected protocol and a failure as a refusal with its code.
\<close>

theorem connection_roundtrip:
  assumes "index_of (to_bytes cookie) [13, 10] = None" and "int (length cookie) \<le> MaxPDU - 21"
    and "cookie = [] \<longrightarrow> uint protocols < 16"
  shows "ReadConnectionRequest (WriteConnectionRequest cookie protocols @ r) = Inr (request_of cookie protocols, r) \<and>
    ReadConnectionConfirm (WriteConnectionConfirm srcRef flags protocols @ r) = Inr (protocols, r) \<and>
    ReadConnectionConfirm (WriteConnectionFailure srcRef protocols @ r) = Inl (NegotiationRefused protocols)"
proof (intro conjI)
  let ?mid = "if cookie \<noteq> [] then to_bytes cookie @ [13, 10] else []"
  let ?tail = "[crCDT, 0, 0, 0, 0, 0] @ ?mid @ negBody negReqType 0 protocols"
  let ?body = "word_of_nat (length ?tail) # ?tail"
  have w: "WriteConnectionRequest cookie protocols = writeTPKT ?body"
    by (simp only: WriteConnectionRequest_def Let_def)
  have "readTPKT (WriteConnectionRequest cookie protocols @ r) = Inr (?body, r)"
    unfolding w using assms(2) by (intro readTPKT_write) (simp add: MaxPDU_def)
  moreover have "drop 7 ?body = ?mid @ negBody negReqType 0 protocols" "?body ! 1 = crCDT"
    "take 2 (drop 4 ?body) = [0, 0]" "7 \<le> length ?body"
    by (simp_all add: numeral_eq_Suc)
  moreover have "takeCookie (?mid @ negBody negReqType 0 protocols) = (cookie, negBody negReqType 0 protocols)"
    using takeCookie_cookie [OF assms(1)] takeCookie_none assms(3) by simp
  ultimately show "ReadConnectionRequest (WriteConnectionRequest cookie protocols @ r) = Inr (request_of cookie protocols, r)"
    by (simp add: ReadConnectionRequest_def request_of_def negBody_fields w be_val_def)
next
  show "ReadConnectionConfirm (WriteConnectionConfirm srcRef flags protocols @ r) = Inr (protocols, r)"
    by (simp add: WriteConnectionConfirm_def ReadConnectionConfirm_def readTPKT_write MaxPDU_def negBody_fields)
  show "ReadConnectionConfirm (WriteConnectionFailure srcRef protocols @ r) = Inl (NegotiationRefused protocols)"
    by (simp add: WriteConnectionFailure_def ReadConnectionConfirm_def readTPKT_write MaxPDU_def negBody_fields
        negFailureType_def negRspType_def Let_def)
qed

theorem connection_roundtrip_witness:
  "ReadConnectionRequest (WriteConnectionRequest ''Cookie: mstshash=one'' ProtocolHybrid @ [7]) =
     Inr (request_of ''Cookie: mstshash=one'' ProtocolHybrid, [7])"
proof -
  have "index_of (to_bytes ''Cookie: mstshash=one'') [13, 10] = None"
    "int (length ''Cookie: mstshash=one'') \<le> MaxPDU - 21" by code_simp+
  then show ?thesis
    using connection_roundtrip [of "''Cookie: mstshash=one''" ProtocolHybrid "[7]"] by simp
qed

text \<open>
  Further result. An RDSTLS authentication request is replayed as it arrived: what \<open>Raw\<close> holds is
  exactly the bytes the reader consumed, no more and no less, and no field is longer than
  \<open>MaxRDSTLSBlob\<close>.
\<close>

theorem rdstls_raw_exact:
  assumes "ReadRDSTLSAuthRequest s = Inr (req, r)"
  shows "s = ra_Raw req @ r \<and>
    list_all (\<lambda>f. int (length f) \<le> MaxRDSTLSBlob)
      [ra_RedirectionGUID req, ra_UserName req, ra_Domain req, ra_Password req, ra_AutoReconnectCookie req]"
proof -
  have z: "0 \<le> MaxRDSTLSBlob" by (simp add: MaxRDSTLSBlob_def)
  show ?thesis using assms z
    by (auto simp: ReadRDSTLSAuthRequest_def Let_def split: if_splits dest!: readRDSTLSBlob_InrD)
qed

theorem rdstls_raw_exact_witness:
  "\<exists>req. ReadRDSTLSAuthRequest [1, 0, 2, 0, 2, 0, 9, 0, 0, 0, 1, 0, 5, 77] = Inr (req, [77]) \<and>
     ra_Raw req = [1, 0, 2, 0, 2, 0, 9, 0, 0, 0, 1, 0, 5]"
proof -
  have "case ReadRDSTLSAuthRequest [1, 0, 2, 0, 2, 0, 9, 0, 0, 0, 1, 0, 5, 77] of
      Inl _ \<Rightarrow> False | Inr (_, r) \<Rightarrow> r = [77]" by code_simp
  then obtain req where "ReadRDSTLSAuthRequest [1, 0, 2, 0, 2, 0, 9, 0, 0, 0, 1, 0, 5, 77] = Inr (req, [77])"
    by (auto split: sum.splits)
  with rdstls_raw_exact [OF this] show ?thesis by auto
qed

text \<open>
  Further result. The connection request kept for a replay is the frame that arrived with its
  reserved byte cleared: everything else is as it was, and the reader consumed exactly that frame.
\<close>

theorem connection_request_raw:
  assumes "ReadConnectionRequest s = Inr (req, r)"
  shows "\<exists>h. s = h @ r \<and> 2 \<le> length h \<and> cr_Raw req = h[1 := 0]"
  by (rule ReadConnectionRequest_raw [OF assms])

theorem connection_request_raw_witness:
  "\<exists>req. ReadConnectionRequest [3, 9, 0, 11, 6, 0xE0, 0, 0, 0, 0, 0] = Inr (req, []) \<and>
     cr_Raw req = [3, 0, 0, 11, 6, 0xE0, 0, 0, 0, 0, 0]"
proof -
  have "case ReadConnectionRequest [3, 9, 0, 11, 6, 0xE0, 0, 0, 0, 0, 0] of
      Inl _ \<Rightarrow> False | Inr (_, r) \<Rightarrow> r = []" by code_simp
  then obtain req where "ReadConnectionRequest [3, 9, 0, 11, 6, 0xE0, 0, 0, 0, 0, 0] = Inr (req, [])"
    by (auto split: sum.splits)
  with connection_request_raw [OF this] show ?thesis by auto
qed

end
