(* ===== verification/Rdp_Redirect.thy ===== *)
theory Rdp_Redirect
  imports Rdp_Wire
begin

unbundle bit_operations_syntax

text \<open>
  The scanner that watches the server-to-client stream of a remote desktop for a redirection
  (\<open>backstage/dpipe/internal/rdp/redirect.go\<close>). A slice expression out of range panics in Go, so
  the scanner's loop has the outcome \<open>Panicked\<close>.
\<close>

section \<open>Model\<close>

definition secRedirectionPkt :: int where "secRedirectionPkt = 0x0400"
definition pduTypeServerRedirection :: int where "pduTypeServerRedirection = 0x0A"
definition lbTargetNetAddress :: int where "lbTargetNetAddress = 1"
definition lbLoadBalanceInfo :: int where "lbLoadBalanceInfo = 2"
definition mcsSendDataIndication :: int where "mcsSendDataIndication = 26"
definition MaxRedirectPDU :: int where "MaxRedirectPDU = 16384"

record RedirectScanner =
  sc_buf :: bytes
  sc_done :: bool

datatype 'a outcome = Panicked | Returns 'a

definition inert :: RedirectScanner where
  "inert = \<lparr>sc_buf = [], sc_done = True\<rparr>"

definition frameLen :: "bytes \<Rightarrow> int option" where
  "frameLen b =
     (if length b < 2 then None
      else if b ! 0 = tpktVersion then
        (if length b < 4 then None else Some (be_val (take 2 (drop 2 b))))
      else if b ! 1 AND 0x80 \<noteq> 0 then
        (if length b < 3 then None
         else Some (push_bit 8 (uint (b ! 1 AND 0x7f)) OR uint (b ! 2)))
      else Some (uint (b ! 1)))"

text \<open>The cursor: the bytes and a position, which \<open>skip\<close> may move past the end.\<close>

type_synonym cursor = "bytes \<times> nat"

definition cur_byteAt :: "cursor \<Rightarrow> nat \<Rightarrow> byte" where
  "cur_byteAt c i = (if snd c + i \<ge> length (fst c) then 0 else fst c ! (snd c + i))"

definition cur_skip :: "nat \<Rightarrow> cursor \<Rightarrow> cursor" where
  "cur_skip n c = (fst c, snd c + n)"

definition cur_next :: "cursor \<Rightarrow> (byte \<times> cursor) option" where
  "cur_next c = (if snd c \<ge> length (fst c) then None else Some (fst c ! snd c, cur_skip 1 c))"

definition cur_uint16 :: "cursor \<Rightarrow> (int \<times> cursor) option" where
  "cur_uint16 c = (if snd c + 2 > length (fst c) then None else Some (u16_at (fst c) (snd c), cur_skip 2 c))"

definition cur_uint32 :: "cursor \<Rightarrow> (int \<times> cursor) option" where
  "cur_uint32 c = (if snd c + 4 > length (fst c) then None else Some (u32_at (fst c) (snd c), cur_skip 4 c))"

definition cur_field :: "cursor \<Rightarrow> (bytes \<times> cursor) option" where
  "cur_field c =
     Option.bind (cur_uint32 c) (\<lambda>(n, c).
       if n > int (length (fst c)) - int (snd c) then None
       else Some (read_at (fst c) (snd c) (nat n), cur_skip (nat n) c))"

definition redirectLoadBalanceInfo :: "bytes \<Rightarrow> bytes option" where
  "redirectLoadBalanceInfo body =
     (let c = (body, 0) in
      if cur_byteAt c 0 \<noteq> 2 \<or> cur_byteAt c 1 \<noteq> 0xF0 then None
      else Option.bind (cur_next (cur_skip 3 c)) (\<lambda>(choice, c).
        if uint (drop_bit 2 choice) \<noteq> mcsSendDataIndication then None
        else Option.bind (cur_next (cur_skip 5 c)) (\<lambda>(l, c).
          let c = (if l AND 0x80 \<noteq> 0 then cur_skip 1 c else c) in
          Option.bind (cur_uint16 (cur_skip 2 c)) (\<lambda>(pduType, c).
            if pduType AND 0x0F \<noteq> pduTypeServerRedirection then None
            else Option.bind (cur_uint16 (cur_skip 2 (cur_skip 2 c))) (\<lambda>(flags, c).
              if flags \<noteq> secRedirectionPkt then None
              else Option.bind (cur_uint32 (cur_skip 4 (cur_skip 2 c))) (\<lambda>(redirFlags, c).
                if redirFlags AND lbLoadBalanceInfo = 0 then None
                else Option.bind (if redirFlags AND lbTargetNetAddress \<noteq> 0
                                  then map_option snd (cur_field c) else Some c) (\<lambda>c.
                  map_option fst (cur_field c))))))))"

text \<open>The loop of \<open>Scan\<close>: every complete frame is at least two bytes long and is consumed.\<close>

function scanLoop :: "bytes \<Rightarrow> (bytes option \<times> RedirectScanner) outcome" where
  "scanLoop buf =
     (case frameLen buf of
        None \<Rightarrow>
          Returns (None, if int (length buf) > MaxRedirectPDU then inert
                         else \<lparr>sc_buf = buf, sc_done = False\<rparr>)
      | Some n \<Rightarrow>
          if n < 2 \<or> n > MaxRedirectPDU then Returns (None, inert)
          else if int (length buf) < n then Returns (None, \<lparr>sc_buf = buf, sc_done = False\<rparr>)
          else if buf ! 0 = tpktVersion then
            (if n < 4 then Panicked
             else case redirectLoadBalanceInfo (drop 4 (take (nat n) buf)) of
                    Some info \<Rightarrow> Returns (Some info, inert)
                  | None \<Rightarrow> scanLoop (drop (nat n) buf))
          else scanLoop (drop (nat n) buf))"
  by pat_completeness auto
termination
  by (relation "measure length") auto

declare scanLoop.simps [simp del]

definition Scan :: "RedirectScanner \<Rightarrow> bytes \<Rightarrow> (bytes option \<times> RedirectScanner) outcome" where
  "Scan s p = (if sc_done s then Returns (None, s) else scanLoop (sc_buf s @ p))"

text \<open>The scanner over a stream that arrives in pieces: the first information it reports.\<close>

fun scanAll :: "RedirectScanner \<Rightarrow> bytes list \<Rightarrow> (bytes option \<times> RedirectScanner) outcome" where
  "scanAll s [] = Returns (None, s)"
| "scanAll s (p # ps) =
     (case Scan s p of
        Panicked \<Rightarrow> Panicked
      | Returns (Some info, s') \<Rightarrow> Returns (Some info, s')
      | Returns (None, s') \<Rightarrow> scanAll s' ps)"

section \<open>The scanner does not depend on how the stream is cut\<close>

lemma frameLen_None: "frameLen b = None \<Longrightarrow> length b < 4"
  by (auto simp: frameLen_def split: if_splits)

lemma frameLen_append: "frameLen b = Some n \<Longrightarrow> frameLen (b @ c) = Some n"
  by (auto simp: frameLen_def nth_append split: if_splits)

definition resume :: "(bytes option \<times> RedirectScanner) outcome \<Rightarrow> bytes \<Rightarrow> (bytes option \<times> RedirectScanner) outcome" where
  "resume out c =
     (case out of
        Panicked \<Rightarrow> Panicked
      | Returns (Some info, s) \<Rightarrow> Returns (Some info, s)
      | Returns (None, s) \<Rightarrow> Scan s c)"

lemma scanLoop_resume: "scanLoop (b @ c) = resume (scanLoop b) c"
proof (induction b rule: scanLoop.induct)
  case (1 b)
  show ?case
  proof (cases "frameLen b")
    case None
    have "int (length b) \<le> MaxRedirectPDU"
      using frameLen_None [OF None] by (simp add: MaxRedirectPDU_def)
    with None show ?thesis
      by (subst (2) scanLoop.simps) (simp add: resume_def Scan_def)
  next
    case (Some n)
    note fa = frameLen_append [OF Some, of c]
    have "b \<noteq> []" using Some by (auto simp: frameLen_def)
    then have hd: "(b @ c) ! 0 = b ! 0" by (simp add: nth_append)
    consider (bad) "n < 2 \<or> n > MaxRedirectPDU" | (short) "\<not> (n < 2 \<or> n > MaxRedirectPDU)" "int (length b) < n"
      | (full) "\<not> (n < 2 \<or> n > MaxRedirectPDU)" "\<not> int (length b) < n" by blast
    then show ?thesis
    proof cases
      case bad
      then show ?thesis
        by (subst (1 2) scanLoop.simps) (simp add: Some fa resume_def Scan_def inert_def)
    next
      case short
      then have "scanLoop b = Returns (None, \<lparr>sc_buf = b, sc_done = False\<rparr>)"
        by (subst scanLoop.simps) (simp add: Some)
      then show ?thesis by (simp add: resume_def Scan_def)
    next
      case full
      then have d: "take (nat n) (b @ c) = take (nat n) b" "drop (nat n) (b @ c) = drop (nat n) b @ c"
        "\<not> int (length (b @ c)) < n" by simp_all
      note IH = 1 [OF Some full]
      show ?thesis
      proof (cases "b ! 0 = tpktVersion \<and> n < 4")
        case True
        with full d show ?thesis
          by (subst (1 2) scanLoop.simps) (simp add: Some fa hd resume_def)
      next
        case False
        with full d IH show ?thesis
          by (subst (1 2) scanLoop.simps)
             (auto simp: Some fa hd resume_def split: option.split)
      qed
    qed
  qed
qed

text \<open>What the loop leaves: an inert scanner, or the unread start of an incomplete frame.\<close>

definition scanner_ok :: "RedirectScanner \<Rightarrow> bool" where
  "scanner_ok s \<longleftrightarrow> s = inert \<or>
     (\<not> sc_done s \<and> int (length (sc_buf s)) < MaxRedirectPDU \<and> scanLoop (sc_buf s) = Returns (None, s))"

lemma scanLoop_ok: "scanLoop b = Returns (r, s) \<Longrightarrow> scanner_ok s \<and> (r \<noteq> None \<longrightarrow> s = inert)"
proof (induction b rule: scanLoop.induct)
  case (1 b)
  show ?case
  proof (cases "frameLen b")
    case None
    then have l: "\<not> int (length b) > MaxRedirectPDU" "int (length b) < MaxRedirectPDU"
      using frameLen_None [OF None] by (simp_all add: MaxRedirectPDU_def)
    then have "scanLoop b = Returns (None, \<lparr>sc_buf = b, sc_done = False\<rparr>)"
      by (subst scanLoop.simps) (simp add: None)
    with 1(3) l show ?thesis by (auto simp: scanner_ok_def)
  next
    case (Some n)
    consider (bad) "n < 2 \<or> n > MaxRedirectPDU" | (short) "\<not> (n < 2 \<or> n > MaxRedirectPDU)" "int (length b) < n"
      | (full) "\<not> (n < 2 \<or> n > MaxRedirectPDU)" "\<not> int (length b) < n" by blast
    then show ?thesis
    proof cases
      case bad
      then have "scanLoop b = Returns (None, inert)" by (subst scanLoop.simps) (simp add: Some)
      with 1(3) show ?thesis by (auto simp: scanner_ok_def)
    next
      case short
      then have "scanLoop b = Returns (None, \<lparr>sc_buf = b, sc_done = False\<rparr>)"
        by (subst scanLoop.simps) (simp add: Some)
      with 1(3) short show ?thesis by (auto simp: scanner_ok_def)
    next
      case full
      note IH = 1(1,2) [OF Some full]
      from 1(3) full IH show ?thesis
        by (subst (asm) scanLoop.simps)
           (auto simp: Some scanner_ok_def split: if_splits option.splits)
    qed
  qed
qed

lemma scanAll_Scan: "scanner_ok s \<Longrightarrow> scanAll s ps = Scan s (concat ps)"
proof (induction ps arbitrary: s)
  case Nil
  then show ?case by (auto simp: scanner_ok_def Scan_def inert_def)
next
  case (Cons p ps)
  show ?case
  proof (cases "sc_done s")
    case True
    then have "scanAll s ps = Returns (None, s)" using Cons by (simp add: Scan_def)
    with True show ?thesis by (simp add: Scan_def)
  next
    case False
    then have split: "Scan s (concat (p # ps)) = resume (Scan s p) (concat ps)"
      using scanLoop_resume [of "sc_buf s @ p" "concat ps"] by (simp add: Scan_def)
    show ?thesis
    proof (cases "Scan s p")
      case Panicked
      then show ?thesis unfolding split by (simp add: resume_def)
    next
      case (Returns x)
      obtain r s' where x: "x = (r, s')" by (cases x)
      from Returns x False have "scanner_ok s'" using scanLoop_ok by (auto simp: Scan_def)
      with Returns x Cons.IH show ?thesis
        unfolding split by (cases r) (simp_all add: resume_def)
    qed
  qed
qed

lemma be_val_2: "length h = 2 \<Longrightarrow> be_val h < 4 \<Longrightarrow> 2 \<le> be_val h \<Longrightarrow> h = [0, 2] \<or> h = [0, 3]"
proof -
  assume l: "length h = 2" and "be_val h < 4" "2 \<le> be_val h"
  then have "be_val h = 2 \<or> be_val h = 3" by arith
  with l have "h = be_bytes 2 2 \<or> h = be_bytes 2 3" by (metis be_bytes_be_val)
  moreover have "be_bytes 2 2 = [0, 2]" "be_bytes 2 3 = [0, 3]" by code_simp+
  ultimately show ?thesis by simp
qed

lemma scanLoop_panic:
  "scanLoop b = Panicked \<Longrightarrow>
   \<exists>pre x y post. b = pre @ [tpktVersion, x, 0, y] @ post \<and> y \<in> {2, 3}"
proof (induction b rule: scanLoop.induct)
  case (1 b)
  from 1(3) obtain n where n: "frameLen b = Some n" "\<not> (n < 2 \<or> n > MaxRedirectPDU)" "\<not> int (length b) < n"
    by (subst (asm) scanLoop.simps) (auto split: option.splits if_splits)
  note IH = 1(1,2) [OF n]
  show ?case
  proof (cases "b ! 0 = tpktVersion \<and> n < 4")
    case True
    with n have l: "4 \<le> length b" and be: "be_val (take 2 (drop 2 b)) = n"
      by (auto simp: frameLen_def split: if_splits)
    then obtain a x h1 h2 post where b: "b = a # x # h1 # h2 # post"
      by (metis (no_types, lifting) Suc_le_length_iff numeral_eq_Suc pred_numeral_simps(2)
          pred_numeral_simps(3) semiring_norm(26,27,28) numeral_1_eq_Suc_0 One_nat_def)
    have "[h1, h2] = [0, 2] \<or> [h1, h2] = [0, 3]"
      using be_val_2 [of "[h1, h2]"] be True n b by simp
    with b True show ?thesis by (intro exI [of _ "[]"]) auto
  next
    case False
    with 1(3) n have "scanLoop (drop (nat n) b) = Panicked"
      by (subst (asm) scanLoop.simps) (auto split: option.splits if_splits)
    moreover have "\<exists>pre x y post. drop (nat n) b = pre @ [tpktVersion, x, 0, y] @ post \<and> y \<in> {2, 3}"
      using IH False 1(3) n calculation
      by (subst (asm) (3) scanLoop.simps) (auto split: option.splits if_splits)
    ultimately show ?thesis
      by (metis append_assoc append_take_drop_id)
  qed
qed

definition example_redirect :: bytes where
  "example_redirect =
     [3, 0, 0, 42, 2, 0xF0, 0x80, 104, 0, 0, 0, 0, 0x70, 29, 29, 0, 0x0A, 0, 0, 0, 0, 0, 0x00, 0x04,
      25, 0, 0, 0, 0, 0, 2, 0, 0, 0, 4, 0, 0, 0, 65, 66, 67, 68]"

section \<open>Properties\<close>

text \<open>
  Property C34. The scanner does not depend on how the stream is cut into reads: feeding the pieces
  one after the other reports the same information, stops at the same place and keeps the same
  state as feeding them at once, for a new scanner and for every state a scanner can be in.
\<close>

theorem scan_chunking:
  assumes "s = \<lparr>sc_buf = [], sc_done = False\<rparr> \<or> Scan s0 p = Returns (r, s) \<and> scanner_ok s0"
  shows "scanAll s ps = Scan s (concat ps)"
proof (rule scanAll_Scan)
  have "scanLoop [] = Returns (None, \<lparr>sc_buf = [], sc_done = False\<rparr>)" by code_simp
  then show "scanner_ok s"
    using assms scanLoop_ok by (auto simp: scanner_ok_def MaxRedirectPDU_def Scan_def split: if_splits)
qed

theorem scan_chunking_witness:
  "scanAll \<lparr>sc_buf = [], sc_done = False\<rparr> [take 3 example_redirect, take 20 (drop 3 example_redirect),
     drop 23 example_redirect] = Returns (Some [65, 66, 67, 68], inert)"
proof -
  have "Scan \<lparr>sc_buf = [], sc_done = False\<rparr> (concat [take 3 example_redirect, take 20 (drop 3 example_redirect),
     drop 23 example_redirect]) = Returns (Some [65, 66, 67, 68], inert)"
    by code_simp
  then show ?thesis
    using scan_chunking [of "\<lparr>sc_buf = [], sc_done = False\<rparr>"] by (simp del: scanAll.simps concat.simps)
qed

text \<open>
  Further result. The scanner holds less than one redirection PDU: after any piece of the stream the
  bytes it keeps are fewer than \<open>MaxRedirectPDU\<close>, and once it has reported it keeps nothing and
  reports nothing more.
\<close>

theorem scan_bounded:
  assumes "Scan s p = Returns (r, s')" and "scanner_ok s"
  shows "int (length (sc_buf s')) < MaxRedirectPDU \<and>
    (r \<noteq> None \<longrightarrow> s' = inert \<and> (\<forall>q. Scan s' q = Returns (None, s')))"
proof -
  have "scanner_ok s'" "r \<noteq> None \<longrightarrow> s' = inert"
    using assms scanLoop_ok by (auto simp: Scan_def split: if_splits)
  then show ?thesis by (auto simp: scanner_ok_def inert_def MaxRedirectPDU_def Scan_def)
qed

theorem scan_bounded_witness: "\<forall>q. Scan inert q = Returns (None, inert)"
proof -
  let ?s = "\<lparr>sc_buf = [], sc_done = False\<rparr>"
  have "Scan ?s example_redirect = Returns (Some [65, 66, 67, 68], inert)"
    "scanLoop [] = Returns (None, ?s)" by code_simp+
  then show ?thesis
    using scan_bounded [of ?s example_redirect "Some [65, 66, 67, 68]" inert]
    by (simp add: scanner_ok_def MaxRedirectPDU_def)
qed

text \<open>
  Further result. The scanner panics on the four bytes of a TPKT header that announces a frame of two
  or three bytes, and for no other reason: the frame passes the length check and is then sliced
  after its four-byte header.
\<close>

theorem scan_panic:
  "Scan \<lparr>sc_buf = [], sc_done = False\<rparr> [3, 0, 0, 2] = Panicked \<and>
   (Scan s p = Panicked \<longrightarrow>
     (\<exists>pre x y post. sc_buf s @ p = pre @ [tpktVersion, x, 0, y] @ post \<and> y \<in> {2, 3}))"
proof
  show "Scan \<lparr>sc_buf = [], sc_done = False\<rparr> [3, 0, 0, 2] = Panicked" by code_simp
  show "Scan s p = Panicked \<longrightarrow>
     (\<exists>pre x y post. sc_buf s @ p = pre @ [tpktVersion, x, 0, y] @ post \<and> y \<in> {2, 3})"
    using scanLoop_panic by (auto simp: Scan_def split: if_splits)
qed

theorem scan_panic_witness:
  "\<exists>pre x y post. [3, 7, 0, 3] = pre @ [tpktVersion, x, 0, y] @ post \<and> y \<in> {2, 3}"
proof -
  have "Scan \<lparr>sc_buf = [], sc_done = False\<rparr> [3, 7, 0, 3] = Panicked" by code_simp
  then show ?thesis
    using scan_panic [of "\<lparr>sc_buf = [], sc_done = False\<rparr>" "[3, 7, 0, 3]"] by simp
qed

end
