(* ===== verification/Dpipe_Handover.thy ===== *)
theory Dpipe_Handover
  imports Go_Prelude
begin

text \<open>
  The handover registry of \<open>dpipe\<close> (\<open>backstage/dpipe/internal/dpipe/handover.go\<close>): the routing
  tokens a guest offered in a redirection, each good for one reconnect within its lifetime.

  The clock is an argument of every operation, in nanoseconds; the lock makes an operation one
  step. Ranging over the map while deleting from it is a restriction of the map.
\<close>

section \<open>Model\<close>

definition defaultHandoverTTL :: int where
  "defaultHandoverTTL = 30 * 1000000000"

record handoverEntry =
  he_target :: string
  he_expires :: int

record handoverRegistry =
  hr_m :: "string \<rightharpoonup> handoverEntry"
  hr_ttl :: int

definition newHandoverRegistry :: "int \<Rightarrow> handoverRegistry" where
  "newHandoverRegistry ttl =
     \<lparr>hr_m = Map.empty, hr_ttl = (if ttl \<le> 0 then defaultHandoverTTL else ttl)\<rparr>"

definition cookiePrefix :: string where
  "cookiePrefix = ''Cookie: msts=''"

definition normalizeRoutingToken :: "string \<Rightarrow> string" where
  "normalizeRoutingToken s =
     (let s = trim_suffix s [CHR 0x0D, CHR 0x0A];
          s = trim_prefix s cookiePrefix
      in trim_space s)"

definition pruneLocked :: "int \<Rightarrow> handoverRegistry \<Rightarrow> handoverRegistry" where
  "pruneLocked now r =
     r\<lparr>hr_m := (\<lambda>k. case hr_m r k of
         Some e \<Rightarrow> if now > he_expires e then None else Some e
       | None \<Rightarrow> None)\<rparr>"

definition put :: "int \<Rightarrow> string \<Rightarrow> string \<Rightarrow> handoverRegistry \<Rightarrow> handoverRegistry" where
  "put now token target r =
     (let key = normalizeRoutingToken token in
      if key = [] \<or> target = [] then r
      else let r = pruneLocked now r in
        r\<lparr>hr_m := (hr_m r)(key \<mapsto> \<lparr>he_target = target, he_expires = now + hr_ttl r\<rparr>)\<rparr>)"

definition take_token :: "int \<Rightarrow> string \<Rightarrow> handoverRegistry \<Rightarrow> string option \<times> handoverRegistry" where
  "take_token now cookie r =
     (let key = normalizeRoutingToken cookie in
      if key = [] then (None, r)
      else case hr_m r key of
             None \<Rightarrow> (None, r)
           | Some e \<Rightarrow>
               let r = r\<lparr>hr_m := (hr_m r)(key := None)\<rparr> in
               if now > he_expires e then (None, r) else (Some (he_target e), r))"

section \<open>Histories\<close>

text \<open>A history of the registry, oldest first, each operation with the time it ran.\<close>

datatype handover_op = Put int string string | Take int string

fun op_time :: "handover_op \<Rightarrow> int" where
  "op_time (Put t _ _) = t"
| "op_time (Take t _) = t"

fun run_op :: "handover_op \<Rightarrow> handoverRegistry \<Rightarrow> handoverRegistry" where
  "run_op (Put t token target) r = put t token target r"
| "run_op (Take t cookie) r = snd (take_token t cookie r)"

definition run_ops :: "handover_op list \<Rightarrow> handoverRegistry \<Rightarrow> handoverRegistry" where
  "run_ops ops r = fold run_op ops r"

text \<open>
  The specification: the outstanding offer for a key is the last effective \<open>put\<close> of that key with
  no \<open>take\<close> of it since, whatever was put or taken under other keys.
\<close>

fun offer :: "string \<Rightarrow> handover_op \<Rightarrow> (string \<times> int) option \<Rightarrow> (string \<times> int) option" where
  "offer key (Put t token target) prev =
     (if normalizeRoutingToken token = key \<and> key \<noteq> [] \<and> target \<noteq> [] then Some (target, t) else prev)"
| "offer key (Take t cookie) prev = (if normalizeRoutingToken cookie = key then None else prev)"

definition outstanding :: "handover_op list \<Rightarrow> string \<Rightarrow> (string \<times> int) option" where
  "outstanding ops key = fold (offer key) ops None"

text \<open>
  The registry holds an outstanding offer until it expires at the latest, and nothing else: an
  entry is the outstanding offer of its key, and a missing offer has expired.
\<close>

definition handover_inv :: "int \<Rightarrow> (string \<Rightarrow> (string \<times> int) option) \<Rightarrow> int \<Rightarrow> handoverRegistry \<Rightarrow> bool" where
  "handover_inv ttl out now r \<longleftrightarrow> hr_ttl r = ttl \<and> out [] = None \<and>
     (\<forall>key e. hr_m r key = Some e \<longrightarrow>
        key \<noteq> [] \<and> (\<exists>t. out key = Some (he_target e, t) \<and> he_expires e = t + ttl)) \<and>
     (\<forall>key target t. hr_m r key = None \<longrightarrow> out key = Some (target, t) \<longrightarrow> t + ttl < now)"

lemma handover_invI:
  assumes "hr_ttl r = ttl" "out [] = None"
    and "\<And>key e. hr_m r key = Some e \<Longrightarrow>
      key \<noteq> [] \<and> (\<exists>t. out key = Some (he_target e, t) \<and> he_expires e = t + ttl)"
    and "\<And>key target t. hr_m r key = None \<Longrightarrow> out key = Some (target, t) \<Longrightarrow> t + ttl < now"
  shows "handover_inv ttl out now r"
  using assms unfolding handover_inv_def by blast

lemma handover_invD:
  assumes "handover_inv ttl out now r"
  shows "hr_m r key = Some e \<Longrightarrow> key \<noteq> [] \<and> (\<exists>t. out key = Some (he_target e, t) \<and> he_expires e = t + ttl)"
    and "hr_m r key = None \<Longrightarrow> out key = Some (target, t) \<Longrightarrow> t + ttl < now"
    and "hr_ttl r = ttl" and "out [] = None"
  using assms unfolding handover_inv_def by blast+

lemma handover_inv_later: "handover_inv ttl out now r \<Longrightarrow> now \<le> now' \<Longrightarrow> handover_inv ttl out now' r"
  unfolding handover_inv_def by (meson order_less_le_trans)

lemma handover_inv_put:
  assumes "handover_inv ttl out now r"
  shows "handover_inv ttl (\<lambda>k. offer k (Put now token target) (out k)) now (put now token target r)"
proof (rule handover_invI)
  note inv = handover_invD [OF assms]
  show "hr_ttl (put now token target r) = ttl"
    using inv(3) by (simp add: put_def pruneLocked_def Let_def)
  show "offer [] (Put now token target) (out []) = None" using inv(4) by simp
  show "key \<noteq> [] \<and> (\<exists>t. offer key (Put now token target) (out key) = Some (he_target e, t) \<and> he_expires e = t + ttl)"
    if "hr_m (put now token target r) key = Some e" for key e
    using that inv(1,3)
    by (auto simp: put_def pruneLocked_def Let_def split: if_splits option.splits)
  show "t + ttl < now"
    if "hr_m (put now token target r) key = None" "offer key (Put now token target) (out key) = Some (tgt, t)"
    for key tgt t
    using that inv(1) [of key] inv(2,3)
    by (auto simp: put_def pruneLocked_def Let_def split: if_splits option.splits)
qed

lemma handover_inv_take:
  assumes "handover_inv ttl out now r"
  shows "handover_inv ttl (\<lambda>k. offer k (Take now cookie) (out k)) now (snd (take_token now cookie r))"
proof (rule handover_invI)
  note inv = handover_invD [OF assms]
  show "hr_ttl (snd (take_token now cookie r)) = ttl" "offer [] (Take now cookie) (out []) = None"
    using inv(3,4) by (simp_all add: take_token_def Let_def split: option.split)
  show "key \<noteq> [] \<and> (\<exists>t. offer key (Take now cookie) (out key) = Some (he_target e, t) \<and> he_expires e = t + ttl)"
    if "hr_m (snd (take_token now cookie r)) key = Some e" for key e
    using that inv(1)
    by (auto simp: take_token_def Let_def split: if_splits option.splits)
  show "t + ttl < now"
    if "hr_m (snd (take_token now cookie r)) key = None" "offer key (Take now cookie) (out key) = Some (tgt, t)"
    for key tgt t
    using that inv(2)
    by (auto simp: take_token_def Let_def split: if_splits option.splits)
qed

lemma take_result:
  assumes "handover_inv ttl out now r"
  shows "fst (take_token now cookie r) = Some target \<longleftrightarrow>
    (\<exists>t. out (normalizeRoutingToken cookie) = Some (target, t) \<and> now \<le> t + ttl)"
proof (cases "hr_m r (normalizeRoutingToken cookie)")
  case None
  then show ?thesis
    using handover_invD(2) [OF assms None, of target] by (auto simp: take_token_def Let_def not_le)
next
  case (Some e)
  then show ?thesis
    using handover_invD(1) [OF assms Some] by (auto simp: take_token_def Let_def)
qed

lemma run_ops_inv:
  assumes "sorted (map op_time ops)" and "\<forall>op\<in>set ops. op_time op \<le> now"
  shows "handover_inv (hr_ttl (newHandoverRegistry ttl)) (outstanding ops) now
    (run_ops ops (newHandoverRegistry ttl))"
  using assms
proof (induction ops arbitrary: now rule: rev_induct)
  case Nil
  show ?case by (simp add: handover_inv_def outstanding_def run_ops_def newHandoverRegistry_def)
next
  case (snoc op ops)
  let ?t = "op_time op" and ?r = "run_ops ops (newHandoverRegistry ttl)"
  have out: "outstanding (ops @ [op]) = (\<lambda>k. offer k op (outstanding ops k))"
    by (simp add: outstanding_def fun_eq_iff)
  have "handover_inv (hr_ttl (newHandoverRegistry ttl)) (outstanding ops) ?t ?r"
    using snoc.prems by (intro snoc.IH) (auto simp: sorted_append)
  then have "handover_inv (hr_ttl (newHandoverRegistry ttl)) (outstanding (ops @ [op])) ?t (run_op op ?r)"
    unfolding out using handover_inv_put handover_inv_take by (cases op) simp_all
  then show ?case using snoc.prems by (auto simp: run_ops_def intro: handover_inv_later)
qed

section \<open>Properties\<close>

text \<open>
  Property C35. The registry refines the history of offers: after any sequence of puts and takes in
  the order of the clock, a take reaches a machine exactly when that machine is the last one put
  under the token's normalised key, no take has used the key since, and the lifetime has not
  passed. A token is therefore good once, for one machine, for at most its lifetime.
\<close>

theorem handover_refines_history:
  assumes "sorted (map op_time ops)" and "\<forall>op\<in>set ops. op_time op \<le> now"
  shows "fst (take_token now cookie (run_ops ops (newHandoverRegistry ttl))) = Some target \<longleftrightarrow>
    (\<exists>t. outstanding ops (normalizeRoutingToken cookie) = Some (target, t) \<and>
       now \<le> t + (if ttl \<le> 0 then defaultHandoverTTL else ttl))"
  using take_result [OF run_ops_inv [OF assms]] by (simp add: newHandoverRegistry_def)

theorem handover_refines_history_witness:
  "fst (take_token 5 ''Cookie: msts=abc'' (run_ops [Put 1 ''Cookie: msts=abc'' ''10.0.0.5:3389''] (newHandoverRegistry 10)))
     = Some ''10.0.0.5:3389'' \<and>
   fst (take_token 6 ''Cookie: msts=abc'' (run_ops [Put 1 ''Cookie: msts=abc'' ''10.0.0.5:3389'', Take 5 ''Cookie: msts=abc'']
     (newHandoverRegistry 10))) = None"
proof -
  have n: "normalizeRoutingToken ''Cookie: msts=abc'' = ''abc''" by code_simp
  have "outstanding [Put 1 ''Cookie: msts=abc'' ''10.0.0.5:3389''] ''abc'' = Some (''10.0.0.5:3389'', 1)"
    "outstanding [Put 1 ''Cookie: msts=abc'' ''10.0.0.5:3389'', Take 5 ''Cookie: msts=abc''] ''abc'' = None"
    by (simp_all add: outstanding_def n)
  then show ?thesis
    using handover_refines_history [of "[Put 1 ''Cookie: msts=abc'' ''10.0.0.5:3389'']" 5 "''Cookie: msts=abc''" 10 "''10.0.0.5:3389''"]
      handover_refines_history [of "[Put 1 ''Cookie: msts=abc'' ''10.0.0.5:3389'', Take 5 ''Cookie: msts=abc'']" 6 "''Cookie: msts=abc''" 10]
    by (simp add: n) (metis not_None_eq)
qed

end
