(* ===== verification/Dpipe_Rdp.thy ===== *)
theory Dpipe_Rdp
  imports Credssp Proxy_Resolver Rdp_Redirect Dpipe_Handover
begin

unbundle bit_operations_syntax

text \<open>
  The remote-desktop terminator of \<open>dpipe\<close> (\<open>backstage/dpipe/internal/dpipe/rdpterm.go\<close>): the client
  leg with its network level authentication, the backend leg to the guest, and the reconnect of a
  handover.

  A handler is the list of its effects in order. What the two legs send and whether a write, a TLS
  handshake or a dial succeeds is the record \<open>rdpWorld\<close>; TLS itself is not modelled, so what travels
  inside it is a connection of its own. Timeouts, deadlines and logging are left out.
\<close>

section \<open>Model\<close>

definition ExtendedClientDataSupported :: byte where "ExtendedClientDataSupported = 1"
definition DynVCGFXProtocolSupported :: byte where "DynVCGFXProtocolSupported = 2"
definition FailHybridRequiredByServer :: "32 word" where "FailHybridRequiredByServer = 5"
definition RDSTLSSuccess :: "32 word" where "RDSTLSSuccess = 0"
definition RDSTLSAccessDenied :: "32 word" where "RDSTLSAccessDenied = 5"

definition confirmFlags :: byte where
  "confirmFlags = ExtendedClientDataSupported OR DynVCGFXProtocolSupported"

text \<open>
  \<open>rw_request\<close> is a request to \<open>dproxy\<close> over the control connection; \<open>None\<close> when it fails or
  times out. A loaded certificate is the key of its leaf, \<open>None\<close> inside \<open>rc_crt\<close> when that
  cannot be parsed.
\<close>

record rdpWorld =
  rw_now :: int
  rw_newID :: string
  rw_clientIP :: string
  rw_request :: "Msg \<Rightarrow> Msg option"
  rw_client :: bytes
  rw_clientWrites :: nat
  rw_clientTLS :: bool
  rw_clientNLA :: nlaConn
  rw_rand :: "bytes option"
  rw_clientRDSTLS :: bytes
  rw_clientRDSTLSWrites :: nat
  rw_dial :: "string \<Rightarrow> bool"
  rw_guest :: bytes
  rw_guestWrites :: nat
  rw_guestTLS :: bool
  rw_guestChain :: "certKey list"
  rw_guestNLA :: nlaConn
  rw_guestRDSTLS :: bytes
  rw_guestRDSTLSWrites :: nat
  rw_clientRandom :: clientRandom
  rw_md4 :: "bytes \<Rightarrow> bytes"

record rdpConfig =
  rc_crt :: "certKey option option"
  rc_ComputerName :: string
  rc_DomainName :: string

datatype rdp_effect =
    ToClient bytes
  | ToClientTLS bytes
  | DialGuest string
  | ToGuest bytes
  | ToGuestTLS bytes
  | Track string
  | Untrack string
  | Splice string bool
  | CloseClient
  | CloseGuest

definition resolveRDPMsg :: "string \<Rightarrow> string \<Rightarrow> AuthRequest \<Rightarrow> Msg" where
  "resolveRDPMsg ident clientIP q =
     zeroMsg\<lparr>m_V := Control_Message.Version, m_Type := TypeResolve, m_ID := ident, m_Kind := KindRDP,
       m_RDPUser := aq_User q, m_RDPDomain := aq_Domain q, m_RDPWorkstation := aq_Workstation q,
       m_RDPChallenge := std_encode (aq_ServerChallenge q),
       m_RDPNTResponse := std_encode (aq_NTResponse q), m_ClientIP := clientIP\<rparr>"

definition rdpAuthorizer :: "(Msg \<Rightarrow> Msg option) \<Rightarrow> string \<Rightarrow> string \<Rightarrow> AuthRequest \<Rightarrow> credssp_error + AuthResult" where
  "rdpAuthorizer request ident clientIP q =
     (if length (aq_NTResponse q) > MaxNTLMBlob then Inl (NotAuthorized ''nt response too large'')
      else case request (resolveRDPMsg ident clientIP q) of
        None \<Rightarrow> Inl AuthorizationUnavailable
      | Some rep \<Rightarrow>
          if \<not> m_Authorized rep \<or> m_Target rep = [] then Inl (NotAuthorized [])
          else case std_decode (m_RDPSessionKey rep) of
                 None \<Rightarrow> Inl AuthorizationUnavailable
               | Some key \<Rightarrow>
                   if length key \<noteq> 16 then Inl AuthorizationUnavailable
                   else Inr \<lparr>ar_SessionBaseKey = key, ar_Target = m_Target rep,
                             ar_RemoteUser = m_RemoteUser rep, ar_RemotePassword = m_RemotePassword rep\<rparr>)"

definition targetHost :: "string \<Rightarrow> string" where
  "targetHost target = (case split_host_port target of None \<Rightarrow> target | Some (h, _) \<Rightarrow> h)"

text \<open>
  \<open>dialGuestRDP\<close>: whether the leg is up, and what was done. The deferred close of the
  TCP connection runs unless the leg is up.
\<close>

definition guestConfig :: "rdpConfig \<Rightarrow> certKey \<Rightarrow> string \<Rightarrow> string \<Rightarrow> string \<Rightarrow> ClientConfig" where
  "guestConfig cfg cert target user password =
     \<lparr>cl_Certificate = cert, cl_SPN = ''TERMSRV/'' @ targetHost target, cl_Domain = [], cl_User = user,
      cl_Password = password, cl_Workstation = rc_ComputerName cfg\<rparr>"

definition guestRequest :: bytes where
  "guestRequest = WriteConnectionRequest [] (ProtocolHybrid OR ProtocolSSL)"

definition dialGuestRDP ::
  "rdpWorld \<Rightarrow> rdpConfig \<Rightarrow> string \<Rightarrow> string \<Rightarrow> string \<Rightarrow> bool \<times> rdp_effect list" where
  "dialGuestRDP w cfg target user password =
     (if \<not> rw_dial w target then (False, [DialGuest target])
      else if rw_guestWrites w = 0 then (False, [DialGuest target, CloseGuest])
      else case ReadConnectionConfirm (rw_guest w) of
        Inl e \<Rightarrow> (False, [DialGuest target, ToGuest guestRequest, CloseGuest])
      | Inr (selected, _) \<Rightarrow>
          if selected \<noteq> ProtocolHybrid \<or> \<not> rw_guestTLS w \<or> rw_guestChain w = []
          then (False, [DialGuest target, ToGuest guestRequest, CloseGuest])
          else case DialNLA (rw_md4 w) (rw_clientRandom w) (rw_now w)
                      (guestConfig cfg (hd (rw_guestChain w)) target user password) (rw_guestNLA w) of
            (Inl e, s) \<Rightarrow>
              (False, [DialGuest target, ToGuest guestRequest] @ map ToGuestTLS (nc_out s) @ [CloseGuest])
          | (Inr _, s) \<Rightarrow>
              (True, [DialGuest target, ToGuest guestRequest] @ map ToGuestTLS (nc_out s)))"

text \<open>\<open>dialGuestRDSTLS\<close>, which also gives the guest's result code, zero when it produced none.\<close>

definition handoverRequest :: "string \<Rightarrow> bytes" where
  "handoverRequest cookie = WriteConnectionRequest cookie ProtocolRDSTLS"

definition dialGuestRDSTLS ::
  "rdpWorld \<Rightarrow> string \<Rightarrow> string \<Rightarrow> RDSTLSAuthRequest \<Rightarrow> bool \<times> 32 word \<times> rdp_effect list" where
  "dialGuestRDSTLS w target cookie auth =
     (let sent = [DialGuest target, ToGuest (handoverRequest cookie)] in
      if \<not> rw_dial w target then (False, 0, [DialGuest target])
      else if rw_guestWrites w = 0 then (False, 0, [DialGuest target, CloseGuest])
      else case ReadConnectionConfirm (rw_guest w) of
        Inl e \<Rightarrow> (False, 0, sent @ [CloseGuest])
      | Inr (selected, _) \<Rightarrow>
          if selected \<noteq> ProtocolRDSTLS \<or> \<not> rw_guestTLS w then (False, 0, sent @ [CloseGuest])
          else case ReadRDSTLSCapabilities (rw_guestRDSTLS w) of
            Inl e \<Rightarrow> (False, 0, sent @ [CloseGuest])
          | Inr (_, r) \<Rightarrow>
              if rw_guestRDSTLSWrites w = 0 then (False, 0, sent @ [CloseGuest])
              else let sent = sent @ [ToGuestTLS (ra_Raw auth)] in
                case ReadRDSTLSAuthResponse r of
                  Inl e \<Rightarrow> (False, 0, sent @ [CloseGuest])
                | Inr (result, _) \<Rightarrow>
                    if result \<noteq> RDSTLSSuccess then (False, result, sent @ [CloseGuest])
                    else (True, RDSTLSSuccess, sent))"

text \<open>The splice closes both ends, and so do the deferred calls after it, in reverse order.\<close>

definition spliceLegs :: "string \<Rightarrow> string \<Rightarrow> bool \<Rightarrow> rdp_effect list" where
  "spliceLegs ident target watched =
     [Track ident, Splice target watched, CloseClient, CloseGuest, Untrack ident, CloseGuest, CloseClient]"

definition spliceRDPHandover :: "rdpWorld \<Rightarrow> string \<Rightarrow> string \<Rightarrow> bytes \<Rightarrow> rdp_effect list" where
  "spliceRDPHandover w ident target request =
     (if \<not> rw_dial w target then [DialGuest target, CloseClient]
      else if rw_guestWrites w = 0 then [DialGuest target, CloseGuest, CloseClient]
      else [DialGuest target, ToGuest request] @ spliceLegs ident target False)"

definition serveRDPHandover ::
  "rdpWorld \<Rightarrow> rdpConfig \<Rightarrow> string \<Rightarrow> string \<Rightarrow> ConnectionRequest \<Rightarrow> rdp_effect list" where
  "serveRDPHandover w cfg ident target req =
     (if cr_RequestedProtocols req AND ProtocolRDSTLS = 0
      then spliceRDPHandover w ident target (cr_Raw req)
      else if rc_crt cfg = None \<or> rw_clientWrites w = 0 then [CloseClient]
      else ToClient (WriteConnectionConfirm (cr_SrcRef req) confirmFlags ProtocolRDSTLS) #
        (if \<not> rw_clientTLS w \<or> rw_clientRDSTLSWrites w = 0 then [CloseClient]
         else ToClientTLS WriteRDSTLSCapabilities #
           (case ReadRDSTLSAuthRequest (rw_clientRDSTLS w) of
              Inl e \<Rightarrow> [CloseClient]
            | Inr (auth, _) \<Rightarrow>
                (case dialGuestRDSTLS w target (cr_Cookie req) auth of
                   (False, result, effs) \<Rightarrow>
                     let result = (if result = RDSTLSSuccess then RDSTLSAccessDenied else result) in
                     effs @ (if rw_clientRDSTLSWrites w < 2 then []
                             else [ToClientTLS (WriteRDSTLSAuthResponse result)]) @ [CloseClient]
                 | (True, _, effs) \<Rightarrow>
                     if rw_clientRDSTLSWrites w < 2 then effs @ [CloseGuest, CloseClient]
                     else effs @ [ToClientTLS (WriteRDSTLSAuthResponse RDSTLSSuccess)] @
                       spliceLegs ident target True))))"

definition rdpServerConfig :: "rdpWorld \<Rightarrow> rdpConfig \<Rightarrow> certKey \<Rightarrow> ServerConfig" where
  "rdpServerConfig w cfg leaf = \<lparr>sv_Certificate = leaf, sv_ComputerName = rc_ComputerName cfg,
     sv_DomainName = rc_DomainName cfg, sv_Authorize = rdpAuthorizer (rw_request w) (rw_newID w) (rw_clientIP w)\<rparr>"

text \<open>\<open>serveRDP\<close> once the client asked for network level authentication.\<close>

definition serveRDPNLA :: "rdpWorld \<Rightarrow> rdpConfig \<Rightarrow> string \<Rightarrow> int \<Rightarrow> rdp_effect list" where
  "serveRDPNLA w cfg ident srcRef =
     (if rw_clientWrites w = 0 then [CloseClient]
      else ToClient (WriteConnectionConfirm srcRef confirmFlags ProtocolHybrid) #
        (case rc_crt cfg of
           None \<Rightarrow> [CloseClient]
         | Some crt \<Rightarrow>
             if \<not> rw_clientTLS w then [CloseClient]
             else (case crt of
               None \<Rightarrow> [CloseClient]
             | Some leaf \<Rightarrow>
                 (case ServeNLA (rw_rand w) (rw_now w) (rdpServerConfig w cfg leaf) (rw_clientNLA w) of
                    (Inl e, s) \<Rightarrow> map ToClientTLS (nc_out s) @ [CloseClient]
                  | (Inr res, s) \<Rightarrow>
                      map ToClientTLS (nc_out s) @
                      (case dialGuestRDP w cfg (ar_Target res) (ar_RemoteUser res) (ar_RemotePassword res) of
                         (False, effs) \<Rightarrow> effs @ [CloseClient]
                       | (True, effs) \<Rightarrow> effs @ spliceLegs ident (ar_Target res) True)))))"

definition serveRDP ::
  "rdpWorld \<Rightarrow> rdpConfig \<Rightarrow> string \<Rightarrow> handoverRegistry \<Rightarrow> rdp_effect list \<times> handoverRegistry" where
  "serveRDP w cfg ident reg =
     (case ReadConnectionRequest (rw_client w) of
        Inl e \<Rightarrow> ([CloseClient], reg)
      | Inr (req, _) \<Rightarrow>
          let (found, reg) = take_token (rw_now w) (cr_Cookie req) reg in
          case found of
            Some target \<Rightarrow> (serveRDPHandover w cfg ident target req, reg)
          | None \<Rightarrow>
              if cr_RequestedProtocols req AND ProtocolHybrid = 0
              then ((if rw_clientWrites w = 0 then []
                     else [ToClient (WriteConnectionFailure (cr_SrcRef req) FailHybridRequiredByServer)]) @
                    [CloseClient], reg)
              else (serveRDPNLA w cfg ident (cr_SrcRef req), reg))"

text \<open>
  \<open>spliceWatchingRedirects\<close> on the chunks the guest sends: a routing token is offered for this guest
  when the scanner reports one. A panic of the scanner ends the process.
\<close>

fun watchRedirects ::
  "string \<Rightarrow> (int \<times> bytes) list \<Rightarrow> RedirectScanner \<Rightarrow> handoverRegistry \<Rightarrow> handoverRegistry option" where
  "watchRedirects target [] watch reg = Some reg"
| "watchRedirects target ((now, b) # bs) watch reg =
     (case Scan watch b of
        Panicked \<Rightarrow> None
      | Returns (tok, watch) \<Rightarrow>
          watchRedirects target bs watch
            (case tok of None \<Rightarrow> reg | Some t \<Rightarrow> put now (of_bytes t) target reg))"

section \<open>What the legs go through\<close>

text \<open>
  The effects drive a small machine: the client connection, the guest connection and what is tracked
  in the registry. A step that has no place to go is \<open>None\<close>: writing to a connection that is not open,
  dialling while the guest is open, splicing untracked, untracking what is not tracked.
\<close>

record legs =
  lg_client :: bool
  lg_guest :: bool
  lg_tracked :: "string option"

fun leg_step :: "(string \<Rightarrow> bool) \<Rightarrow> rdp_effect \<Rightarrow> legs \<Rightarrow> legs option" where
  "leg_step dial (ToClient b) s = (if lg_client s then Some s else None)"
| "leg_step dial (ToClientTLS b) s = (if lg_client s then Some s else None)"
| "leg_step dial (DialGuest t) s = (if lg_guest s then None else Some (s\<lparr>lg_guest := dial t\<rparr>))"
| "leg_step dial (ToGuest b) s = (if lg_guest s then Some s else None)"
| "leg_step dial (ToGuestTLS b) s = (if lg_guest s then Some s else None)"
| "leg_step dial (Track i) s = (if lg_tracked s = None then Some (s\<lparr>lg_tracked := Some i\<rparr>) else None)"
| "leg_step dial (Untrack i) s = (if lg_tracked s = Some i then Some (s\<lparr>lg_tracked := None\<rparr>) else None)"
| "leg_step dial (Splice t watched) s =
     (if lg_client s \<and> lg_guest s \<and> lg_tracked s \<noteq> None then Some s else None)"
| "leg_step dial CloseClient s = Some (s\<lparr>lg_client := False\<rparr>)"
| "leg_step dial CloseGuest s = Some (s\<lparr>lg_guest := False\<rparr>)"

fun leg_run :: "(string \<Rightarrow> bool) \<Rightarrow> rdp_effect list \<Rightarrow> legs \<Rightarrow> legs option" where
  "leg_run dial [] s = Some s"
| "leg_run dial (e # es) s = Option.bind (leg_step dial e s) (leg_run dial es)"

lemma leg_run_append: "leg_run dial (es @ fs) s = Option.bind (leg_run dial es s) (leg_run dial fs)"
proof (induction es arbitrary: s)
  case (Cons e es)
  then show ?case by (cases "leg_step dial e s") simp_all
qed simp

lemma leg_run_tls:
  "lg_client s \<Longrightarrow> leg_run dial (map ToClientTLS ms) s = Some s"
  "lg_guest s \<Longrightarrow> leg_run dial (map ToGuestTLS ms) s = Some s"
  by (induction ms) simp_all

lemmas legs_simps = leg_run_append leg_run_tls spliceLegs_def

lemma dialGuestRDP_legs:
  assumes "dialGuestRDP w cfg target user password = (ok, effs)" "\<not> lg_guest s"
  shows "leg_run (rw_dial w) effs s = Some (s\<lparr>lg_guest := ok\<rparr>)"
  using assms
  by (cases s) (auto simp: dialGuestRDP_def legs_simps split: if_splits sum.splits prod.splits)

lemma dialGuestRDSTLS_legs:
  assumes "dialGuestRDSTLS w target cookie auth = (ok, result, effs)" "\<not> lg_guest s"
  shows "leg_run (rw_dial w) effs s = Some (s\<lparr>lg_guest := ok\<rparr>)"
  using assms
  by (cases s) (auto simp: dialGuestRDSTLS_def Let_def split: if_splits sum.splits prod.splits)

definition legs_start :: legs where
  "legs_start = \<lparr>lg_client = True, lg_guest = False, lg_tracked = None\<rparr>"

definition legs_end :: legs where
  "legs_end = \<lparr>lg_client = False, lg_guest = False, lg_tracked = None\<rparr>"

lemma serveRDPHandover_legs: "leg_run (rw_dial w) (serveRDPHandover w cfg ident target req) legs_start = Some legs_end"
proof -
  have "leg_run (rw_dial w) effs legs_start = Some (legs_start\<lparr>lg_guest := ok\<rparr>)"
    if "dialGuestRDSTLS w target cookie auth = (ok, result, effs)" for cookie auth ok result effs
    using dialGuestRDSTLS_legs [OF that] by (simp add: legs_start_def)
  then show ?thesis
    by (auto simp: serveRDPHandover_def spliceRDPHandover_def Let_def legs_simps legs_start_def legs_end_def
        split: sum.split prod.split bool.split)
qed

lemma serveRDPNLA_legs: "leg_run (rw_dial w) (serveRDPNLA w cfg ident srcRef) legs_start = Some legs_end"
proof -
  have "leg_run (rw_dial w) effs legs_start = Some (legs_start\<lparr>lg_guest := ok\<rparr>)"
    if "dialGuestRDP w cfg target user password = (ok, effs)" for target user password ok effs
    using dialGuestRDP_legs [OF that] by (simp add: legs_start_def)
  then show ?thesis
    by (auto simp: serveRDPNLA_def legs_simps legs_start_def legs_end_def
        split: sum.split prod.split bool.split option.split)
qed

section \<open>Who may reach a guest\<close>

lemma dialGuestRDP_target: "DialGuest t \<in> set (snd (dialGuestRDP w cfg target user password)) \<Longrightarrow> t = target"
  by (auto simp: dialGuestRDP_def split: if_splits sum.splits prod.splits)

lemma dialGuestRDSTLS_target: "DialGuest t \<in> set (snd (snd (dialGuestRDSTLS w target cookie auth))) \<Longrightarrow> t = target"
  by (auto simp: dialGuestRDSTLS_def Let_def split: if_splits sum.splits prod.splits)

lemma serveRDPHandover_target: "DialGuest t \<in> set (serveRDPHandover w cfg ident target req) \<Longrightarrow> t = target"
proof -
  assume d: "DialGuest t \<in> set (serveRDPHandover w cfg ident target req)"
  have "t = target" if "DialGuest t \<in> set effs" "(ok, result, effs) = dialGuestRDSTLS w target c a" for c a ok result effs
    using dialGuestRDSTLS_target [of t w target c a] that by (metis snd_conv)
  with d show ?thesis
    by (auto simp: serveRDPHandover_def spliceRDPHandover_def spliceLegs_def Let_def
        split: if_splits sum.splits prod.split_asm bool.splits)
qed

lemma serveRDPNLA_target:
  assumes "DialGuest t \<in> set (serveRDPNLA w cfg ident srcRef)"
  obtains leaf res s where
    "ServeNLA (rw_rand w) (rw_now w) (rdpServerConfig w cfg leaf) (rw_clientNLA w) = (Inr res, s)" "t = ar_Target res"
proof -
  from assms obtain leaf where leaf: "rc_crt cfg = Some (Some leaf)"
    by (auto simp: serveRDPNLA_def split: if_splits option.splits)
  obtain r s where run: "ServeNLA (rw_rand w) (rw_now w) (rdpServerConfig w cfg leaf) (rw_clientNLA w) = (r, s)"
    by fastforce
  with assms leaf obtain res where res: "r = Inr res"
    by (cases r) (auto simp: serveRDPNLA_def split: if_splits)
  obtain ok effs where d: "dialGuestRDP w cfg (ar_Target res) (ar_RemoteUser res) (ar_RemotePassword res) = (ok, effs)"
    by fastforce
  from assms leaf run res d have "DialGuest t \<in> set effs"
    by (cases ok) (auto simp: serveRDPNLA_def spliceLegs_def split: if_splits)
  with dialGuestRDP_target [of t w cfg "ar_Target res" "ar_RemoteUser res" "ar_RemotePassword res"] d
  have "t = ar_Target res" by simp
  with run res that show thesis by blast
qed

lemma rdpAuthorizer_Inr:
  "rdpAuthorizer request ident ip q = Inr res \<Longrightarrow>
   \<exists>rep. request (resolveRDPMsg ident ip q) = Some rep \<and> m_Authorized rep \<and> m_Target rep = ar_Target res"
  by (auto simp: rdpAuthorizer_def split: if_splits option.splits)

lemma resolveRDPMsg_fields [simp]:
  "m_Kind (resolveRDPMsg ident ip q) = KindRDP" "m_RDPUser (resolveRDPMsg ident ip q) = aq_User q"
  "m_RDPDomain (resolveRDPMsg ident ip q) = aq_Domain q"
  "m_RDPChallenge (resolveRDPMsg ident ip q) = std_encode (aq_ServerChallenge q)"
  "m_RDPNTResponse (resolveRDPMsg ident ip q) = std_encode (aq_NTResponse q)"
  by (simp_all add: resolveRDPMsg_def)

text \<open>The AUTHENTICATE message a client sends: the token of its second request.\<close>

definition clientAnswer :: "bytes \<Rightarrow> Authenticate option" where
  "clientAnswer b =
     (case readTSRequest b of
        Inl _ \<Rightarrow> None
      | Inr (_, r) \<Rightarrow>
          (case readTSRequest r of
             Inl _ \<Rightarrow> None
           | Inr (answer, _) \<Rightarrow>
               (case token answer of
                  Inl _ \<Rightarrow> None
                | Inr raw \<Rightarrow> (case ParseAuthenticate raw of Inl _ \<Rightarrow> None | Inr a \<Rightarrow> Some a))))"

text \<open>The two processes together: \<open>dproxy\<close> answers the terminator's requests.\<close>

definition answered_by :: "rdpWorld \<Rightarrow> (Msg \<Rightarrow> Msg) \<Rightarrow> bool" where
  "answered_by w h \<longleftrightarrow> rw_request w = (\<lambda>m. Some (h m))"

lemma Handle_resolveRDPMsg:
  "Handle parseKey parseURI now r (resolveRDPMsg ident ip q) = resolveRDP r (resolveRDPMsg ident ip q)"
  by (simp add: Handle_def KindRDP_def KindSSH_def)


definition example_nlaConn :: nlaConn where
  "example_nlaConn = nlaStart [] 0"

text \<open>A world in which \<open>dproxy\<close> is the example resolver and every guest can be dialled.\<close>

definition example_rdpWorld :: "bytes \<Rightarrow> rdpWorld" where
  "example_rdpWorld client = \<lparr>rw_now = 0, rw_newID = ''id'', rw_clientIP = [],
     rw_request = (\<lambda>m. Some (Handle example_parseKey (\<lambda>_. None) 0 example_resolver m)),
     rw_client = client, rw_clientWrites = 1, rw_clientTLS = True, rw_clientNLA = example_nlaConn,
     rw_rand = Some (replicate 8 7), rw_clientRDSTLS = [], rw_clientRDSTLSWrites = 0,
     rw_dial = (\<lambda>_. True), rw_guest = [], rw_guestWrites = 1, rw_guestTLS = True, rw_guestChain = [],
     rw_guestNLA = example_nlaConn, rw_guestRDSTLS = [], rw_guestRDSTLSWrites = 0,
     rw_clientRandom = \<lparr>rn_challenge = None, rn_key = None, rn_nonce = None\<rparr>, rw_md4 = (\<lambda>_. example_hash)\<rparr>"

definition example_rdpConfig :: rdpConfig where
  "example_rdpConfig = \<lparr>rc_crt = Some (Some (RSAKey 65 3)), rc_ComputerName = ''dpipe'', rc_DomainName = ''DPIPE''\<rparr>"

lemma example_answered: "answered_by (example_rdpWorld client) (Handle example_parseKey (\<lambda>_. None) 0 example_resolver)"
  by (simp add: answered_by_def example_rdpWorld_def)

definition example_handover :: handoverRegistry where
  "example_handover = put 0 ''Cookie: msts=tok'' ''10.0.0.9:3389'' (newHandoverRegistry 5)"

definition example_reconnect :: bytes where
  "example_reconnect = WriteConnectionRequest ''Cookie: msts=tok'' ProtocolHybrid"

lemma example_handover_dial:
  "DialGuest ''10.0.0.9:3389'' \<in>
     set (fst (serveRDP (example_rdpWorld example_reconnect) example_rdpConfig ''id'' example_handover))"
proof -
  have r: "case ReadConnectionRequest example_reconnect of Inl _ \<Rightarrow> False
      | Inr (req, _) \<Rightarrow> cr_RequestedProtocols req = ProtocolHybrid \<and> cr_Cookie req = ''Cookie: msts=tok''"
    by code_simp
  have f: "fst (take_token 0 ''Cookie: msts=tok'' example_handover) = Some ''10.0.0.9:3389''"
    by code_simp
  have "ProtocolHybrid AND ProtocolRDSTLS = 0" by code_simp
  with r f show ?thesis
    by (auto simp: serveRDP_def serveRDPHandover_def spliceRDPHandover_def example_rdpWorld_def
        split: sum.splits prod.splits)
qed



definition rdpResult :: "rdpPolicy \<Rightarrow> bytes \<Rightarrow> AuthResult" where
  "rdpResult p base = \<lparr>ar_SessionBaseKey = base, ar_Target = rp_target p, ar_RemoteUser = rp_remoteUser p,
     ar_RemotePassword = rp_remotePassword p\<rparr>"

lemma length_VerifyNTLMv2: "VerifyNTLMv2 h u d c r = Some base \<Longrightarrow> length base = 16"
  by (auto simp: VerifyNTLMv2_def Let_def split: if_splits)

lemma rdpAuthorizer_approves:
  assumes "answered_by w (Handle parseKey parseURI pnow r)" "length sc = 8"
    and "rs_rdp r (to_lower (cl_User ccfg)) = Some p" "rp_ntHash p = NTHash md4 (cl_Password ccfg)" "rp_target p \<noteq> []"
  shows "approves md4 (rdpServerConfig w cfg leaf) ccfg sc (rdpResult p)"
  unfolding approves_def
proof (intro allI impI)
  fix q base
  let ?scfg = "rdpServerConfig w cfg leaf"
  let ?m = "resolveRDPMsg (rw_newID w) (rw_clientIP w) q"
  assume q: "aq_User q = cl_User ccfg \<and> aq_Domain q = sentDomain ?scfg ccfg \<and> aq_ServerChallenge q = sc \<and>
    length (aq_NTResponse q) \<le> 1024 \<and> VerifyNTLMv2 (NTHash md4 (cl_Password ccfg)) (cl_User ccfg)
      (sentDomain ?scfg ccfg) sc (aq_NTResponse q) = Some base"
  then have "resolveRDP r ?m = (resolvedMsg (m_ID ?m))\<lparr>m_Authorized := True, m_Target := rp_target p,
      m_RemoteUser := rp_remoteUser p, m_RemotePassword := rp_remotePassword p, m_RDPSessionKey := std_encode base\<rparr>"
    using assms by (simp add: resolveRDP_def Let_def std_base64.dec_enc MaxNTLMBlob_def)
  moreover have "length base = 16" using q length_VerifyNTLMv2 by blast
  ultimately show "sv_Authorize ?scfg q = Inr (rdpResult p base) \<and> ar_SessionBaseKey (rdpResult p base) = base"
    using q assms(1,5)
    by (simp add: rdpServerConfig_def rdpAuthorizer_def rdpResult_def answered_by_def Handle_resolveRDPMsg
        MaxNTLMBlob_def std_base64.dec_enc)
qed

text \<open>
  Further result. The right password opens the session: when the resolver of \<open>dproxy\<close> holds an entry for
  the user whose NT hash is the hash of the client's password, a client that runs the client half of
  network level authentication with that password completes it against the terminator, and the result is
  the entry's target, account and guest password.
\<close>

theorem rdp_login_completes:
  assumes "answered_by w (Handle parseKey parseURI pnow r)" "rw_rand w = Some sc" "length sc = 8"
    and "rs_rdp r (to_lower (cl_User ccfg)) = Some p" "rp_ntHash p = NTHash md4 (cl_Password ccfg)" "rp_target p \<noteq> []"
    and "names_ok (rdpServerConfig w cfg (cl_Certificate ccfg)) ccfg" "random_ok rnd cc key nonce"
    and "PublicKey (cl_Certificate ccfg) = Inr pk" "3 \<le> cn" "2 \<le> sn"
  shows "\<exists>base c1 c2 c3 s1 s2.
    DialNLA md4 rnd now' ccfg (nlaStart (s1 @ s2 @ x) cn) =
      (Inr (), \<lparr>nc_in = x, nc_out = [c1, c2, c3], nc_writes = cn - 3\<rparr>) \<and>
    ServeNLA (rw_rand w) (rw_now w) (rdpServerConfig w cfg (cl_Certificate ccfg)) (nlaStart (c1 @ c2 @ c3 @ y) sn) =
      (Inr (rdpResult p base), \<lparr>nc_in = y, nc_out = [s1, s2], nc_writes = sn - 2\<rparr>)"
proof -
  have "sv_Certificate (rdpServerConfig w cfg (cl_Certificate ccfg)) = cl_Certificate ccfg"
    by (simp add: rdpServerConfig_def)
  from nla_handshake_run [OF assms(7,8,3) this assms(9) rdpAuthorizer_approves [OF assms(1,3-6)] assms(10,11)]
  show ?thesis unfolding assms(2) .
qed

definition example_rdpClient :: ClientConfig where
  "example_rdpClient = \<lparr>cl_Certificate = RSAKey 65 3, cl_SPN = ''TERMSRV/one'', cl_Domain = [], cl_User = ''ONE'',
     cl_Password = ''password'', cl_Workstation = ''w''\<rparr>"

theorem rdp_login_completes_witness:
  "\<exists>p base c1 c2 c3 s1 s2. rs_rdp example_resolver ''one'' = Some p \<and>
    DialNLA (\<lambda>_. example_hash) example_random 0 example_rdpClient (nlaStart (s1 @ s2 @ []) 3) =
      (Inr (), \<lparr>nc_in = [], nc_out = [c1, c2, c3], nc_writes = 0\<rparr>) \<and>
    ServeNLA (Some (replicate 8 7)) 0 (rdpServerConfig (example_rdpWorld []) example_rdpConfig (RSAKey 65 3))
      (nlaStart (c1 @ c2 @ c3 @ []) 2) =
      (Inr (rdpResult p base), \<lparr>nc_in = [], nc_out = [s1, s2], nc_writes = 0\<rparr>)"
proof -
  have "case rs_rdp example_resolver (to_lower ''ONE'') of None \<Rightarrow> False
      | Some p \<Rightarrow> rp_ntHash p = example_hash \<and> rp_target p \<noteq> []"
    by code_simp
  then obtain p where p: "rs_rdp example_resolver (to_lower ''ONE'') = Some p" "rp_ntHash p = example_hash" "rp_target p \<noteq> []"
    by (auto split: option.splits)
  have v: "list_all valid_utf8 [''dpipe'', [], ''ONE'', ''w'']" by code_simp
  have l: "list_all (\<lambda>s. length (UTF16LE s) \<le> 128) [''dpipe'', ''DPIPE'', [], ''w'', ''ONE'', ''TERMSRV/one'', ''password'']"
    by code_simp
  from v l have "names_ok (rdpServerConfig (example_rdpWorld []) example_rdpConfig (cl_Certificate example_rdpClient)) example_rdpClient"
    by (simp add: names_ok_def rdpServerConfig_def example_rdpConfig_def example_rdpClient_def)
  moreover have "to_lower ''ONE'' = ''one''" by code_simp
  ultimately show ?thesis
    using p rdp_login_completes [OF example_answered, of "[]" "replicate 8 7" example_rdpClient p "\<lambda>_. example_hash" example_rdpConfig
        example_random "replicate 8 1" "replicate 16 2" "replicate 32 3" _ 3 2 0 "[]" "[]"] example_nla(2)
    by (auto simp: example_rdpWorld_def example_rdpClient_def NTHash_def PublicKey_def)
qed

end
