(* ===== verification/Dpipe_Ws.thy ===== *)
theory Dpipe_Ws
  imports Go_Crypto Httpsniff
begin

unbundle bit_operations_syntax

text \<open>
  The websocket server end of \<open>dpipe\<close> (\<open>backstage/dpipe/internal/dpipe/ws.go\<close>): the handshake
  answer, the frame and message readers and the frame writer.

  A connection is the bytes still to arrive from the client (the bytes pipelined behind the
  upgrade come first), the writes made so far, the number of further writes the network will
  take, and whether the connection was closed. Reading past the end of the input is an error.
\<close>

section \<open>Model\<close>

definition opContinuation :: byte where "opContinuation = 0"
definition opText :: byte where "opText = 1"
definition opBinary :: byte where "opBinary = 2"
definition opClose :: byte where "opClose = 8"
definition opPing :: byte where "opPing = 9"
definition opPong :: byte where "opPong = 0xA"

definition wsCloseNormal :: int where "wsCloseNormal = 1000"
definition wsCloseProtocolError :: int where "wsCloseProtocolError = 1002"
definition wsCloseTooLarge :: int where "wsCloseTooLarge = 1009"
definition wsCloseInternalError :: int where "wsCloseInternalError = 1011"

definition wsGUID :: string where
  "wsGUID = ''258EAFA5-E914-47DA-95CA-C5AB0DC85B11''"

definition maxWSMessage :: int where
  "maxWSMessage = 1048576"

datatype ws_error =
    WsTruncated
  | WsReservedBits
  | WsBadControl
  | WsUnmasked
  | WsFrameTooLarge
  | WsMessageTooLarge
  | WsInterleaved
  | WsUnexpectedContinuation
  | WsUnknownOpcode byte
  | WsPeerClosed
  | WsWriteFailed

record wsConn =
  ws_in :: bytes
  ws_out :: "bytes list"
  ws_writes :: nat
  ws_closed :: bool

definition wsAcceptKey :: "string \<Rightarrow> string" where
  "wsAcceptKey key = std_encode (sha1 (to_bytes (key @ wsGUID)))"

definition wsHandshake :: "string \<Rightarrow> string" where
  "wsHandshake key =
     ''HTTP/1.1 101 Switching Protocols'' @ crlf @ ''Upgrade: websocket'' @ crlf @
     ''Connection: Upgrade'' @ crlf @ ''Sec-WebSocket-Accept: '' @ wsAcceptKey key @ crlf @ crlf"

definition wsWrite :: "bytes \<Rightarrow> wsConn \<Rightarrow> bool \<times> wsConn" where
  "wsWrite b w =
     (if ws_closed w \<or> ws_writes w = 0 then (False, w)
      else (True, w\<lparr>ws_out := ws_out w @ [b], ws_writes := ws_writes w - 1\<rparr>))"

text \<open>\<open>wsUpgrade\<close> on a connection from which \<open>input\<close> will arrive.\<close>

definition wsUpgrade :: "string \<Rightarrow> bytes \<Rightarrow> wsConn \<Rightarrow> ws_error + wsConn" where
  "wsUpgrade key pipelined w =
     (let (ok, w) = wsWrite (to_bytes (wsHandshake key)) w in
      if \<not> ok then Inl WsWriteFailed else Inr (w\<lparr>ws_in := pipelined @ ws_in w\<rparr>))"

definition frameHead :: "byte \<Rightarrow> int \<Rightarrow> bytes" where
  "frameHead opcode n =
     (0x80 OR opcode) #
     (if n \<le> 125 then [word_of_int n]
      else if n \<le> 0xFFFF then 126 # be_bytes 2 n
      else 127 # be_bytes 8 n)"

definition WriteMessage :: "byte \<Rightarrow> bytes \<Rightarrow> wsConn \<Rightarrow> bool \<times> wsConn" where
  "WriteMessage opcode payload w = wsWrite (frameHead opcode (int (length payload)) @ payload) w"

definition WriteClose :: "int \<Rightarrow> string \<Rightarrow> wsConn \<Rightarrow> bool \<times> wsConn" where
  "WriteClose status reason w = WriteMessage opClose (be_bytes 2 status @ to_bytes (take 123 reason)) w"

text \<open>\<open>Close\<close> runs once; the result of the close frame is ignored.\<close>

definition wsClose :: "int \<Rightarrow> string \<Rightarrow> wsConn \<Rightarrow> wsConn" where
  "wsClose status reason w =
     (if ws_closed w then w else (snd (WriteClose status reason w))\<lparr>ws_closed := True\<rparr>)"

fun applyMask :: "bytes \<Rightarrow> nat \<Rightarrow> bytes \<Rightarrow> bytes" where
  "applyMask key i [] = []"
| "applyMask key i (b # bs) = (b XOR key ! (i mod 4)) # applyMask key (Suc i) bs"

definition wsTake :: "nat \<Rightarrow> wsConn \<Rightarrow> (bytes \<times> wsConn) option" where
  "wsTake n w =
     (if length (ws_in w) < n then None
      else Some (take n (ws_in w), w\<lparr>ws_in := drop n (ws_in w)\<rparr>))"

definition wsEOF :: "wsConn \<Rightarrow> wsConn" where
  "wsEOF w = w\<lparr>ws_in := []\<rparr>"

text \<open>The extended length, by the seven-bit length of the second byte.\<close>

definition readLength :: "int \<Rightarrow> wsConn \<Rightarrow> (int \<times> wsConn) option" where
  "readLength len7 w =
     (if len7 = 126 then map_option (\<lambda>(e, w). (be_val e, w)) (wsTake 2 w)
      else if len7 = 127 then map_option (\<lambda>(e, w). (be_val e, w)) (wsTake 8 w)
      else Some (len7, w))"

definition readFrame :: "wsConn \<Rightarrow> (ws_error + (bool \<times> byte \<times> bytes)) \<times> wsConn" where
  "readFrame w =
     (case wsTake 2 w of
        None \<Rightarrow> (Inl WsTruncated, wsEOF w)
      | Some (head, w) \<Rightarrow>
          let fin = (head ! 0 AND 0x80 \<noteq> 0);
              opcode = head ! 0 AND 0x0F;
              masked = (head ! 1 AND 0x80 \<noteq> 0);
              len7 = uint (head ! 1 AND 0x7F)
          in if head ! 0 AND 0x70 \<noteq> 0
             then (Inl WsReservedBits, wsClose wsCloseProtocolError ''reserved bits set'' w)
             else if opcode AND 8 \<noteq> 0 \<and> (len7 > 125 \<or> \<not> fin)
             then (Inl WsBadControl, wsClose wsCloseProtocolError ''bad control frame'' w)
             else case readLength len7 w of
               None \<Rightarrow> (Inl WsTruncated, wsEOF w)
             | Some (len, w) \<Rightarrow>
                 if \<not> masked
                 then (Inl WsUnmasked, wsClose wsCloseProtocolError ''unmasked client frame'' w)
                 else if len > maxWSMessage
                 then (Inl WsFrameTooLarge, wsClose wsCloseTooLarge ''frame too large'' w)
                 else case wsTake 4 w of
                   None \<Rightarrow> (Inl WsTruncated, wsEOF w)
                 | Some (key, w) \<Rightarrow>
                     (case wsTake (nat len) w of
                        None \<Rightarrow> (Inl WsTruncated, wsEOF w)
                      | Some (payload, w) \<Rightarrow> (Inr (fin, opcode, applyMask key 0 payload), w)))"

lemma wsTake_SomeD: "wsTake n w = Some (b, w') \<Longrightarrow> w' = w\<lparr>ws_in := drop n (ws_in w)\<rparr> \<and> n \<le> length (ws_in w)"
  by (auto simp: wsTake_def split: if_splits)

lemma readLength_SomeD: "readLength n w = Some (v, w') \<Longrightarrow> \<exists>k. w' = w\<lparr>ws_in := drop k (ws_in w)\<rparr>"
  by (auto simp: readLength_def dest!: wsTake_SomeD split: if_splits intro: exI [of _ 0])

lemma readFrame_progress:
  assumes "readFrame w = (Inr x, w')"
  shows "\<exists>k>0. w' = w\<lparr>ws_in := drop k (ws_in w)\<rparr> \<and> length (ws_in w') < length (ws_in w)"
proof -
  from assms obtain h w1 v w2 m w3 n p where t: "wsTake 2 w = Some (h, w1)" "readLength v w1 = Some (n, w2)"
    "wsTake 4 w2 = Some (m, w3)" "wsTake (nat n) w3 = Some (p, w')"
    by (auto simp: readFrame_def Let_def split: option.splits if_splits)
  from readLength_SomeD [OF t(2)] obtain k where "w2 = w1\<lparr>ws_in := drop k (ws_in w1)\<rparr>" ..
  with wsTake_SomeD [OF t(1)] wsTake_SomeD [OF t(3)] wsTake_SomeD [OF t(4)] show ?thesis
    by (intro exI [of _ "nat n + (4 + (k + 2))"]) auto
qed

lemma wsWrite_in [simp]: "ws_in (snd (wsWrite b w)) = ws_in w"
  by (simp add: wsWrite_def)

text \<open>
  The loop of \<open>ReadMessage\<close>; \<open>msgOp\<close> is 0 until a message has started. Every round consumes input.
\<close>

function readMessageLoop :: "wsConn \<Rightarrow> byte \<Rightarrow> bytes \<Rightarrow> (ws_error + (byte \<times> bytes)) \<times> wsConn" where
  "readMessageLoop w msgOp buf =
     (case readFrame w of
        (Inl e, w) \<Rightarrow> (Inl e, w)
      | (Inr (fin, opcode, payload), w) \<Rightarrow>
          if opcode = opPing then
            (if fst (WriteMessage opPong payload w) then readMessageLoop (snd (WriteMessage opPong payload w)) msgOp buf
             else (Inl WsWriteFailed, snd (WriteMessage opPong payload w)))
          else if opcode = opPong then readMessageLoop w msgOp buf
          else if opcode = opClose then (Inl WsPeerClosed, w)
          else if (opcode = opText \<or> opcode = opBinary) \<and> msgOp \<noteq> 0 then
            (Inl WsInterleaved, wsClose wsCloseProtocolError ''interleaved message'' w)
          else if opcode = opContinuation \<and> msgOp = 0 then
            (Inl WsUnexpectedContinuation, wsClose wsCloseProtocolError ''unexpected continuation'' w)
          else if opcode \<noteq> opText \<and> opcode \<noteq> opBinary \<and> opcode \<noteq> opContinuation then
            (Inl (WsUnknownOpcode opcode), wsClose wsCloseProtocolError ''unknown opcode'' w)
          else
            let msgOp = (if opcode = opContinuation then msgOp else opcode);
                buf = (if opcode = opContinuation then buf @ payload else payload)
            in if int (length buf) > maxWSMessage then
                 (Inl WsMessageTooLarge, wsClose wsCloseTooLarge ''message too large'' w)
               else if fin then (Inr (msgOp, buf), w)
               else readMessageLoop w msgOp buf)"
  by pat_completeness auto
termination
  by (relation "measure (\<lambda>(w, _, _). length (ws_in w))")
     (auto simp: WriteMessage_def dest!: readFrame_progress [OF sym] readFrame_progress)

definition ReadMessage :: "wsConn \<Rightarrow> (ws_error + (byte \<times> bytes)) \<times> wsConn" where
  "ReadMessage w = readMessageLoop w 0 []"

declare readMessageLoop.simps [simp del]

section \<open>The client's side of the wire\<close>

text \<open>
  What a client sends (RFC 6455): a masked frame, and a message cut into fragments with control
  frames between them. The last fragment carries the final bit.
\<close>

definition clientFrame :: "bool \<Rightarrow> byte \<Rightarrow> bytes \<Rightarrow> bytes \<Rightarrow> bytes" where
  "clientFrame fin opcode key payload =
     (let n = int (length payload) in
      (if fin then 0x80 OR opcode else opcode) #
      (if n \<le> 125 then [word_of_int (128 + n)]
       else if n \<le> 0xFFFF then 254 # be_bytes 2 n
       else 255 # be_bytes 8 n) @ key @ applyMask key 0 payload)"

definition opcodes :: "byte list" where
  "opcodes = [opContinuation, opText, opBinary, opPing, opPong]"

definition frame_ok :: "bool \<Rightarrow> byte \<Rightarrow> bytes \<Rightarrow> bytes \<Rightarrow> bool" where
  "frame_ok fin opcode key payload \<longleftrightarrow> opcode \<in> set opcodes \<and> length key = 4 \<and>
     int (length payload) \<le> maxWSMessage \<and>
     (opcode \<in> {opPing, opPong} \<longrightarrow> fin \<and> length payload \<le> 125)"

lemma applyMask_invol [simp]: "applyMask key i (applyMask key i p) = p"
  by (induction p arbitrary: i) (simp_all add: xor.assoc)

lemma length_applyMask [simp]: "length (applyMask key i p) = length p"
  by (induction p arbitrary: i) simp_all

lemma opcode_bits:
  assumes "opcode \<in> set opcodes"
  shows "opcode AND 0x80 = 0" "(0x80 OR opcode) AND 0x80 \<noteq> 0"
    "opcode AND 0x70 = 0" "(0x80 OR opcode) AND 0x70 = 0"
    "opcode AND 0x0F = opcode" "(0x80 OR opcode) AND 0x0F = opcode"
    "opcode AND 8 \<noteq> 0 \<longleftrightarrow> opcode \<in> {opPing, opPong}"
proof -
  have "list_all (\<lambda>c. c AND 0x80 = 0 \<and> (0x80 OR c) AND 0x80 \<noteq> 0 \<and> c AND 0x70 = 0 \<and> (0x80 OR c) AND 0x70 = 0 \<and>
     c AND 0x0F = c \<and> (0x80 OR c) AND 0x0F = c \<and> (c AND 8 \<noteq> 0 \<longleftrightarrow> c = opPing \<or> c = opPong)) opcodes"
    by code_simp
  with assms show "opcode AND 0x80 = 0" "(0x80 OR opcode) AND 0x80 \<noteq> 0"
    "opcode AND 0x70 = 0" "(0x80 OR opcode) AND 0x70 = 0"
    "opcode AND 0x0F = opcode" "(0x80 OR opcode) AND 0x0F = opcode"
    "opcode AND 8 \<noteq> 0 \<longleftrightarrow> opcode \<in> {opPing, opPong}"
    by (auto simp: list_all_iff)
qed

lemma len7_bits:
  assumes "0 \<le> n" "n \<le> 125"
  shows "uint ((word_of_int (128 + n) :: byte) AND 0x7F) = n" "(word_of_int (128 + n) :: byte) AND 0x80 \<noteq> 0"
proof -
  have "list_all (\<lambda>n. uint ((word_of_int (128 + n) :: byte) AND 0x7F) = n \<and> (word_of_int (128 + n) :: byte) AND 0x80 \<noteq> 0) [0..125]"
    by code_simp
  with assms show "uint ((word_of_int (128 + n) :: byte) AND 0x7F) = n" "(word_of_int (128 + n) :: byte) AND 0x80 \<noteq> 0"
    by (auto simp: list_all_iff)
qed

lemma len_escape_bits:
  "uint ((254 :: byte) AND 0x7F) = 126" "(254 :: byte) AND 0x80 \<noteq> 0"
  "uint ((255 :: byte) AND 0x7F) = 127" "(255 :: byte) AND 0x80 \<noteq> 0"
  by code_simp+

lemma wsTake_append [simp]:
  "length b = n \<Longrightarrow> wsTake n (w\<lparr>ws_in := b @ r\<rparr>) = Some (b, w\<lparr>ws_in := r\<rparr>)"
  by (auto simp: wsTake_def)

text \<open>The two length bytes and their extension, whatever the size.\<close>

lemma length_bytes:
  assumes "0 \<le> n" "n \<le> maxWSMessage"
  shows "\<exists>b ext. (if n \<le> 125 then [word_of_int (128 + n)]
       else if n \<le> 0xFFFF then 254 # be_bytes 2 n else 255 # be_bytes 8 n) = b # ext \<and>
     b AND 0x80 \<noteq> 0 \<and> (n \<le> 125 \<longrightarrow> uint (b AND 0x7F) = n) \<and>
     (\<forall>w r. readLength (uint (b AND 0x7F)) (w\<lparr>ws_in := ext @ r\<rparr>) = Some (n, w\<lparr>ws_in := r\<rparr>))"
proof -
  consider (small) "n \<le> 125" | (medium) "125 < n" "n \<le> 0xFFFF" | (large) "0xFFFF < n" by linarith
  then show ?thesis
  proof cases
    case small
    then show ?thesis using assms len7_bits [of n] by (auto simp: readLength_def)
  next
    case medium
    then show ?thesis using assms len_escape_bits by (auto simp: readLength_def)
  next
    case large
    then have "be_val (be_bytes 8 n) = n"
      using assms by (intro be_val_be_bytes) (simp_all add: maxWSMessage_def)
    then show ?thesis using large assms len_escape_bits by (auto simp: readLength_def)
  qed
qed

lemma readFrame_clientFrame:
  assumes "frame_ok fin opcode key payload"
  shows "readFrame (w\<lparr>ws_in := clientFrame fin opcode key payload @ r\<rparr>) =
    (Inr (fin, opcode, payload), w\<lparr>ws_in := r\<rparr>)"
proof -
  let ?n = "int (length payload)"
  have oc: "opcode \<in> set opcodes" and n: "0 \<le> ?n" "?n \<le> maxWSMessage" and k: "length key = 4"
    and ctl: "opcode \<in> {opPing, opPong} \<longrightarrow> fin \<and> ?n \<le> 125"
    using assms by (auto simp: frame_ok_def)
  obtain b ext where be: "(if ?n \<le> 125 then [word_of_int (128 + ?n)]
       else if ?n \<le> 0xFFFF then 254 # be_bytes 2 ?n else 255 # be_bytes 8 ?n) = b # ext"
    and b: "b AND 0x80 \<noteq> 0" "?n \<le> 125 \<longrightarrow> uint (b AND 0x7F) = ?n"
    and rl: "\<And>w r. readLength (uint (b AND 0x7F)) (w\<lparr>ws_in := ext @ r\<rparr>) = Some (?n, w\<lparr>ws_in := r\<rparr>)"
    using length_bytes [OF n] by blast
  define h where "h = (if fin then 0x80 OR opcode else opcode)"
  have h: "h AND 0x80 \<noteq> 0 \<longleftrightarrow> fin" "h AND 0x70 = 0" "h AND 0x0F = opcode"
    using opcode_bits [OF oc] by (simp_all add: h_def)
  have f: "clientFrame fin opcode key payload @ r = [h, b] @ ext @ key @ applyMask key 0 payload @ r"
    unfolding clientFrame_def Let_def be h_def by simp
  have nc: "\<not> (opcode AND 8 \<noteq> 0 \<and> (uint (b AND 0x7F) > 125 \<or> \<not> fin))"
    using opcode_bits(7) [OF oc] ctl b(2) by auto
  have "wsTake 2 (w\<lparr>ws_in := [h, b] @ ext @ key @ applyMask key 0 payload @ r\<rparr>) =
      Some ([h, b], w\<lparr>ws_in := ext @ key @ applyMask key 0 payload @ r\<rparr>)"
    by (rule wsTake_append) simp
  moreover have "wsTake 4 (w\<lparr>ws_in := key @ applyMask key 0 payload @ r\<rparr>) =
      Some (key, w\<lparr>ws_in := applyMask key 0 payload @ r\<rparr>)"
    using k by simp
  moreover have "wsTake (nat ?n) (w\<lparr>ws_in := applyMask key 0 payload @ r\<rparr>) =
      Some (applyMask key 0 payload, w\<lparr>ws_in := r\<rparr>)"
    by simp
  ultimately show ?thesis
    unfolding f readFrame_def using h nc n(2) b(1) rl by (simp add: Let_def)
qed

datatype client_event = Fragment bytes bytes | Control bool bytes bytes

fun is_fragment :: "client_event \<Rightarrow> bool" where
  "is_fragment (Fragment _ _) = True"
| "is_fragment (Control _ _ _) = False"

fun event_ok :: "client_event \<Rightarrow> bool" where
  "event_ok (Fragment key d) = (length key = 4)"
| "event_ok (Control ping key d) = (length key = 4 \<and> length d \<le> 125)"

fun wire :: "byte \<Rightarrow> client_event list \<Rightarrow> bytes" where
  "wire opcode [] = []"
| "wire opcode (Fragment key d # es) = clientFrame (\<not> list_ex is_fragment es) opcode key d @ wire opContinuation es"
| "wire opcode (Control ping key d # es) =
     clientFrame True (if ping then opPing else opPong) key d @ wire opcode es"

fun message_of :: "client_event list \<Rightarrow> bytes" where
  "message_of [] = []"
| "message_of (Fragment key d # es) = d @ message_of es"
| "message_of (Control ping key d # es) = message_of es"

fun pongs_of :: "client_event list \<Rightarrow> bytes list" where
  "pongs_of [] = []"
| "pongs_of (Fragment key d # es) = pongs_of es"
| "pongs_of (Control ping key d # es) =
     (if ping then [frameHead opPong (int (length d)) @ d] else []) @ pongs_of es"

definition message_ok :: "client_event list \<Rightarrow> bool" where
  "message_ok es \<longleftrightarrow> list_all event_ok es \<and> es \<noteq> [] \<and> is_fragment (last es)"

lemmas opcode_defs = opContinuation_def opText_def opBinary_def opClose_def opPing_def opPong_def

lemma readMessageLoop_wire:
  assumes "message_ok es" "opcode \<in> {opText, opBinary}"
    and "\<not> ws_closed w" "length (pongs_of es) \<le> ws_writes w"
    and "int (length buf + length (message_of es)) \<le> maxWSMessage" "\<not> started \<Longrightarrow> buf = []"
  shows "readMessageLoop (w\<lparr>ws_in := wire (if started then opContinuation else opcode) es @ r\<rparr>)
      (if started then opcode else 0) buf =
    (Inr (opcode, buf @ message_of es),
     w\<lparr>ws_in := r, ws_out := ws_out w @ pongs_of es, ws_writes := ws_writes w - length (pongs_of es)\<rparr>)"
  using assms
proof (induction es arbitrary: w buf started)
  case (Cons e es)
  show ?case
  proof (cases e)
    case (Control ping key d)
    have es: "message_ok es" using Cons.prems(1) Control by (auto simp: message_ok_def split: if_splits)
    let ?w = "w\<lparr>ws_in := wire (if started then opContinuation else opcode) es @ r\<rparr>"
    have fo: "frame_ok True (if ping then opPing else opPong) key d"
      using Cons.prems(1) Control by (auto simp: frame_ok_def opcodes_def message_ok_def maxWSMessage_def)
    have f: "readFrame (w\<lparr>ws_in := wire (if started then opContinuation else opcode) (e # es) @ r\<rparr>) =
        (Inr (True, if ping then opPing else opPong, d), ?w)"
      using readFrame_clientFrame [OF fo, where w = w and r = "wire (if started then opContinuation else opcode) es @ r"] Control
      by simp
    show ?thesis
    proof (cases ping)
      case True
      let ?v = "w\<lparr>ws_out := ws_out w @ [frameHead opPong (int (length d)) @ d], ws_writes := ws_writes w - 1\<rparr>"
      have "WriteMessage opPong d ?w = (True, ?v\<lparr>ws_in := wire (if started then opContinuation else opcode) es @ r\<rparr>)"
        using Cons.prems(3,4) Control True by (simp add: WriteMessage_def wsWrite_def)
      then show ?thesis
        using Cons.IH [of ?v buf started] es Cons.prems Control True f
        by (subst readMessageLoop.simps) simp
    next
      case False
      then show ?thesis
        using Cons.IH [of w buf started] es Cons.prems Control f
        by (subst readMessageLoop.simps) (simp add: opcode_defs)
    qed
  next
    case (Fragment key d)
    let ?fin = "\<not> list_ex is_fragment es"
    have fo: "frame_ok ?fin (if started then opContinuation else opcode) key d"
      using Cons.prems(1,2,5) Fragment by (auto simp: frame_ok_def opcodes_def message_ok_def opcode_defs)
    have f: "readFrame (w\<lparr>ws_in := wire (if started then opContinuation else opcode) (e # es) @ r\<rparr>) =
        (Inr (?fin, if started then opContinuation else opcode, d), w\<lparr>ws_in := wire opContinuation es @ r\<rparr>)"
      using readFrame_clientFrame [OF fo, where w = w and r = "wire opContinuation es @ r"] Fragment by simp
    show ?thesis
    proof (cases "es = []")
      case True
      then show ?thesis using Cons.prems Fragment f
        by (subst readMessageLoop.simps) (auto simp: opcode_defs)
    next
      case False
      then have es: "message_ok es" and "list_ex is_fragment es"
        using Cons.prems(1) Fragment by (auto simp: message_ok_def list_ex_iff)
      then show ?thesis
        using Cons.IH [of w "buf @ d" True] Cons.prems Fragment f
        by (subst readMessageLoop.simps) (auto simp: opcode_defs)
    qed
  qed
qed (simp add: message_ok_def)

lemma readMessageLoop_bounds:
  "readMessageLoop w msgOp buf = (Inr (opcode, p), w') \<Longrightarrow> msgOp \<in> {0, opText, opBinary} \<Longrightarrow>
   int (length p) \<le> maxWSMessage \<and> opcode \<in> {opText, opBinary}"
proof (induction w msgOp buf rule: readMessageLoop.induct)
  case (1 w msgOp buf)
  show ?case
    using "1.prems" "1.IH"
    by (subst (asm) readMessageLoop.simps)
       (auto simp: Let_def split: sum.splits prod.splits if_splits)
qed

section \<open>The server's side of the wire\<close>

text \<open>A reference reader for the unmasked frames a server sends, always with the final bit.\<close>

definition serverFrame :: "bytes \<Rightarrow> (byte \<times> bytes) parsed" where
  "serverFrame s =
     (case s of
        h # l # rest \<Rightarrow>
          let k = (if l = 126 then 2 else if l = 127 then 8 else 0);
              n = (if k = 0 then uint l else be_val (take k rest))
          in if h AND 0xF0 \<noteq> 0x80 \<or> l AND 0x80 \<noteq> 0 \<or> int (length rest) < int k + n then None
             else Some ((h AND 0x0F, take (nat n) (drop k rest)), drop (nat n) (drop k rest))
      | _ \<Rightarrow> None)"

definition server_ok :: "byte \<times> bytes \<Rightarrow> bool" where
  "server_ok f \<longleftrightarrow> fst f \<in> set (opClose # opcodes) \<and> int (length (snd f)) < 2 ^ 63"

lemma server_head_bits:
  assumes "opcode \<in> set (opClose # opcodes)"
  shows "(0x80 OR opcode) AND 0xF0 = 0x80" "(0x80 OR opcode) AND 0x0F = opcode"
proof -
  have "list_all (\<lambda>c. (0x80 OR c) AND 0xF0 = 0x80 \<and> (0x80 OR c) AND 0x0F = c) (opClose # opcodes)"
    by code_simp
  with assms show "(0x80 OR opcode) AND 0xF0 = 0x80" "(0x80 OR opcode) AND 0x0F = opcode"
    by (auto simp: list_all_iff)
qed

lemma server_len_bits:
  assumes "0 \<le> n" "n \<le> 125"
  shows "uint (word_of_int n :: byte) = n" "(word_of_int n :: byte) AND 0x80 = 0"
    "(word_of_int n :: byte) \<noteq> 126" "(word_of_int n :: byte) \<noteq> 127"
proof -
  have "list_all (\<lambda>n. uint (word_of_int n :: byte) = n \<and> (word_of_int n :: byte) AND 0x80 = 0 \<and>
      (word_of_int n :: byte) \<noteq> 126 \<and> (word_of_int n :: byte) \<noteq> 127) [0..125]" by code_simp
  with assms show "uint (word_of_int n :: byte) = n" "(word_of_int n :: byte) AND 0x80 = 0"
    "(word_of_int n :: byte) \<noteq> 126" "(word_of_int n :: byte) \<noteq> 127"
    by (auto simp: list_all_iff)
qed

lemma serverFrame_frameHead:
  assumes "server_ok (opcode, payload)"
  shows "serverFrame ((frameHead opcode (int (length payload)) @ payload) @ r) = Some ((opcode, payload), r)"
proof -
  let ?n = "int (length payload)"
  have oc: "opcode \<in> set (opClose # opcodes)" and n: "?n < 2 ^ 63" using assms by (auto simp: server_ok_def)
  note hb = server_head_bits [OF oc]
  have esc: "(126 :: byte) AND 0x80 = 0" "(127 :: byte) AND 0x80 = 0" by code_simp+
  consider (small) "?n \<le> 125" | (medium) "125 < ?n" "?n \<le> 0xFFFF" | (large) "0xFFFF < ?n" by linarith
  then show ?thesis
  proof cases
    case small
    then show ?thesis using server_len_bits [of ?n] hb by (simp add: serverFrame_def frameHead_def Let_def)
  next
    case medium
    then have "be_val (be_bytes 2 ?n) = ?n" by (intro be_val_be_bytes) simp_all
    then show ?thesis using medium hb esc by (simp add: serverFrame_def frameHead_def Let_def)
  next
    case large
    then have "be_val (be_bytes 8 ?n) = ?n" using n by (intro be_val_be_bytes) simp_all
    then show ?thesis using large hb esc by (simp add: serverFrame_def frameHead_def Let_def)
  qed
qed

interpretation ws_frame: framing "\<lambda>f. frameHead (fst f) (int (length (snd f))) @ snd f" serverFrame server_ok
  using serverFrame_frameHead by unfold_locales auto

lemma Close_out:
  assumes "\<not> ws_closed w" "0 < ws_writes w"
  shows "ws_out (wsClose status reason w) =
    ws_out w @ [frameHead opClose (int (2 + min 123 (length reason))) @ be_bytes 2 status @ to_bytes (take 123 reason)]"
  using assms by (simp add: wsClose_def WriteClose_def WriteMessage_def wsWrite_def min.commute)

section \<open>Properties\<close>

text \<open>
  Further result. A message arrives whole: whatever way a client cuts a text or binary message of at
  most \<open>maxWSMessage\<close> bytes into masked fragments, with pings and pongs between them, and whatever
  follows on the connection, the reader returns the message with its opcode, leaves what follows
  unread, and has answered every ping, in order, with a pong that carries its payload.
\<close>

theorem ws_message_roundtrip:
  assumes "message_ok es" and "opcode \<in> {opText, opBinary}" and "int (length (message_of es)) \<le> maxWSMessage"
    and "\<not> ws_closed w" and "length (pongs_of es) \<le> ws_writes w" and "ws_in w = wire opcode es @ r"
  shows "ReadMessage w = (Inr (opcode, message_of es),
     w\<lparr>ws_in := r, ws_out := ws_out w @ pongs_of es, ws_writes := ws_writes w - length (pongs_of es)\<rparr>)"
proof -
  have "w\<lparr>ws_in := wire opcode es @ r\<rparr> = w" using assms(6) by simp
  with readMessageLoop_wire [OF assms(1,2,4,5), of "[]" False r] assms(3) show ?thesis
    by (simp add: ReadMessage_def)
qed

definition example_events :: "client_event list" where
  "example_events = [Fragment [1, 2, 3, 4] [72, 101], Control True [9, 9, 9, 9] [7], Fragment [5, 6, 7, 8] [108]]"

theorem ws_message_roundtrip_witness:
  "ReadMessage \<lparr>ws_in = wire opText example_events @ [99], ws_out = [], ws_writes = 5, ws_closed = False\<rparr> =
     (Inr (opText, [72, 101, 108]),
      \<lparr>ws_in = [99], ws_out = [[0x8A, 1, 7]], ws_writes = 4, ws_closed = False\<rparr>)"
proof -
  have "message_of example_events = [72, 101, 108]" "pongs_of example_events = [[0x8A, 1, 7]]"
    "message_ok example_events" by code_simp+
  then show ?thesis
    using ws_message_roundtrip [of example_events opText
      "\<lparr>ws_in = wire opText example_events @ [99], ws_out = [], ws_writes = 5, ws_closed = False\<rparr>" "[99]"]
    by (simp add: maxWSMessage_def)
qed

text \<open>
  Further result. Whatever a client sends, a message that is returned is text or binary and at most
  \<open>maxWSMessage\<close> bytes long, so a client cannot make the reader hold more.
\<close>

theorem ws_message_bounded:
  assumes "ReadMessage w = (Inr (opcode, payload), w')"
  shows "int (length payload) \<le> maxWSMessage \<and> opcode \<in> {opText, opBinary}"
  using readMessageLoop_bounds [of w 0 "[]"] assms by (simp add: ReadMessage_def)

theorem ws_message_bounded_witness:
  "int (length [72, 101, 108 :: byte]) \<le> maxWSMessage \<and> opText \<in> {opText, opBinary}"
proof (rule ws_message_bounded)
  have "message_of example_events = [72, 101, 108]" "pongs_of example_events = [[0x8A, 1, 7]]"
    "message_ok example_events" by code_simp+
  then show "ReadMessage \<lparr>ws_in = wire opText example_events @ [99], ws_out = [], ws_writes = 5, ws_closed = False\<rparr> =
     (Inr (opText, [72, 101, 108]),
      \<lparr>ws_in = [99], ws_out = [[0x8A, 1, 7]], ws_writes = 4, ws_closed = False\<rparr>)"
    using readMessageLoop_wire [of example_events opText
      "\<lparr>ws_in = [], ws_out = [], ws_writes = 5, ws_closed = False\<rparr>" "[]" False "[99]"]
    by (simp add: maxWSMessage_def ReadMessage_def)
qed

text \<open>
  Further result. Everything the server writes can be read: a sequence of messages written with any
  opcode the program uses comes out of a reference reader as the same sequence of opcodes and
  payloads, whatever their sizes, with what follows left over.
\<close>

theorem ws_server_frames:
  assumes "list_all server_ok fs"
  shows "ws_frame.dec_n (length fs)
    (concat (map (\<lambda>f. frameHead (fst f) (int (length (snd f))) @ snd f) fs) @ r) = Some (fs, r)"
proof -
  have "concat (map (\<lambda>f. frameHead (fst f) (int (length (snd f))) @ snd f) fs) = ws_frame.enc_all fs"
    by (induction fs) simp_all
  then show ?thesis using ws_frame.dec_n_enc_all [OF assms] by simp
qed

theorem ws_server_frames_witness:
  "ws_frame.dec_n 1 (concat (map (\<lambda>f. frameHead (fst f) (int (length (snd f))) @ snd f) [(opBinary, [1, 2, 3])]) @ [4]) =
     Some ([(opBinary, [1, 2, 3])], [4])"
  using ws_server_frames [of "[(opBinary, [1, 2, 3])]" "[4]"] by (simp add: server_ok_def opcodes_def)

end
