(* ===== verification/Proxy_Ingress.thy ===== *)
theory Proxy_Ingress
  imports Proxy_Resolver
begin

text \<open>
  The ingress of \<open>dproxy\<close> (\<open>proxy.go\<close>, \<open>handoff.go\<close>, \<open>client.go\<close> and the handlers of
  \<open>console.go\<close> under \<open>backstage/dproxy/internal/proxy\<close>): what happens to an accepted connection.

  A handler is a function to the list of its effects in order: what it writes to the client, the
  backend it dials, what it replays to it, the control message that passes the descriptors to
  \<open>dpipe\<close> and the closing of its own two ends. What the outside answers (the clock, fresh
  identifiers, the request parser \<open>http.ReadRequest\<close>, whether a dial, a replay or a handoff
  succeeds) is the record \<open>world\<close>.
\<close>

section \<open>Model\<close>

record Proxy =
  px_cfg :: Config
  px_router :: Router
  px_resolver :: Resolver
  px_auth :: "Authenticator option"

datatype new_error = NewAuthErr auth_error | NewResolverErr resolver_error

definition New ::
  "(string \<Rightarrow> string option) \<Rightarrow> (string \<Rightarrow> ssh_key option) \<Rightarrow> (ssh_key \<Rightarrow> string) \<Rightarrow>
   Config \<Rightarrow> new_error + Proxy" where
  "New readFile parseKey fingerprint cfg =
     (let router = NewRouter cfg in
      case NewAuthenticator (Option.bind (Auth cfg) (\<lambda>a. readFile (au_CookieSecretFile a))) (Auth cfg) of
        Inl e \<Rightarrow> Inl (NewAuthErr e)
      | Inr auth \<Rightarrow>
          (case NewResolver readFile parseKey fingerprint router auth cfg of
             Inl e \<Rightarrow> Inl (NewResolverErr e)
           | Inr resolver \<Rightarrow>
               Inr \<lparr>px_cfg = cfg, px_router = router, px_resolver = resolver, px_auth = auth\<rparr>))"

record world =
  w_now :: int
  w_id :: string
  w_sessionID :: string
  w_clientAddr :: "string option"
  w_parseRequest :: "bytes \<Rightarrow> request option"
  w_dial :: "string \<Rightarrow> bool"
  w_replay :: bool
  w_handoff :: "Msg \<Rightarrow> bool"

datatype conn_end = ClientEnd | BackendEnd

datatype effect =
    Reply string
  | DialBackend string
  | WriteBackend bytes
  | Handoff Msg "conn_end list"
  | CloseEnd conn_end

definition quickReason :: "int \<Rightarrow> string" where
  "quickReason status =
     (if status = 400 then ''Bad Request'' else if status = 404 then ''Not Found''
      else if status = 502 then ''Bad Gateway'' else if status = 503 then ''Service Unavailable''
      else ''Bad Request'')"

definition writeQuick :: "int \<Rightarrow> string" where
  "writeQuick status =
     (let reason = quickReason status; body = itoa status @ '' '' @ reason @ newline in
      ''HTTP/1.1 '' @ itoa status @ '' '' @ reason @ crlf @
      ''Content-Type: text/plain; charset=utf-8'' @ crlf @
      ''Content-Length: '' @ nat_str (length body) @ crlf @ ''Connection: close'' @ crlf @ crlf @ body)"

definition copyMsg :: "string \<Rightarrow> string \<Rightarrow> Msg" where
  "copyMsg ident protocol =
     zeroMsg\<lparr>m_V := Version, m_Type := TypeCopy, m_ID := ident, m_Protocol := protocol\<rparr>"

definition acceptMsg :: "string \<Rightarrow> string \<Rightarrow> string \<Rightarrow> Msg" where
  "acceptMsg typ ident protocol =
     zeroMsg\<lparr>m_V := Version, m_Type := typ, m_ID := ident, m_Protocol := protocol\<rparr>"

definition handoffCopy :: "string \<Rightarrow> string \<Rightarrow> effect list" where
  "handoffCopy ident protocol =
     [Handoff (copyMsg ident protocol) [ClientEnd, BackendEnd], CloseEnd ClientEnd, CloseEnd BackendEnd]"

definition pipeTo :: "world \<Rightarrow> string \<Rightarrow> bytes \<Rightarrow> effect list" where
  "pipeTo w target prefix =
     DialBackend target #
     (if \<not> w_dial w target then [Reply (writeQuick 502), CloseEnd ClientEnd]
      else WriteBackend prefix #
        (if \<not> w_replay w then [CloseEnd ClientEnd, CloseEnd BackendEnd]
         else handoffCopy (w_id w) ProtoHTTP))"

definition handleTCP :: "world \<Rightarrow> TCPRoute \<Rightarrow> effect list" where
  "handleTCP w route =
     DialBackend (tcp_Target route) #
     (if \<not> w_dial w (tcp_Target route) then [CloseEnd ClientEnd]
      else handoffCopy (w_id w) ProtoTCP)"

definition ACMEChallengePrefix :: string where
  "ACMEChallengePrefix = ''/.well-known/acme-challenge/''"

definition requestPath :: "bytes \<Rightarrow> string" where
  "requestPath prefix =
     (case cut prefix [13, 10] of
        None \<Rightarrow> []
      | Some (line, _) \<Rightarrow>
          let fs = Go_Prelude.fields (of_bytes line) in if length fs < 2 then [] else fs ! 1)"

definition acmeTarget :: "Config \<Rightarrow> bytes \<Rightarrow> string option" where
  "acmeTarget cfg prefix =
     (case ACME cfg of
        None \<Rightarrow> None
      | Some a \<Rightarrow>
          if acme_ChallengeTarget a = [] then None
          else if \<not> has_prefix (requestPath prefix) ACMEChallengePrefix then None
          else Some (acme_ChallengeTarget a))"

text \<open>\<open>authorizeHTTP\<close>: whether the request may go on, and what was written when it may not.\<close>

definition authorizeHTTP :: "world \<Rightarrow> Proxy \<Rightarrow> string \<Rightarrow> bytes \<Rightarrow> string option" where
  "authorizeHTTP w p host prefix =
     (case HostEntry (px_router p) host of
        None \<Rightarrow> None
      | Some entry \<Rightarrow>
          if \<not> NeedsAuth entry (hh_DefaultPort entry) then None
          else case w_parseRequest w prefix of
                 None \<Rightarrow> Some (writeQuick 400)
               | Some req \<Rightarrow>
                   let v = authorizeRequest (w_now w) (px_router p) (px_auth p) host req in
                   if av_ok v then None
                   else if av_status v = 302 then Some (writeRedirect (av_location v) (av_setCookie v))
                   else Some writeUnauthorized)"

definition sessionMsg :: "world \<Rightarrow> sessionKind \<Rightarrow> string \<Rightarrow> sessionAuth \<Rightarrow> bytes \<Rightarrow> Msg" where
  "sessionMsg w k host v pipelined =
     zeroMsg\<lparr>m_V := Version, m_Type := sk_acceptType k, m_ID := w_sessionID w, m_Protocol := sk_protocol k,
       m_Host := host, m_Target := sa_target v, m_RemoteUser := sa_remoteUser v,
       m_RemotePassword := sa_remotePassword v, m_Sub := sa_sub v, m_WSKey := sa_wsKey v,
       m_Prefix := std_encode pipelined, m_ClientIP := hostOnly (w_clientAddr w)\<rparr>"

definition handleSession :: "world \<Rightarrow> Proxy \<Rightarrow> sessionKind \<Rightarrow> string \<Rightarrow> string \<Rightarrow> bytes \<Rightarrow> effect list" where
  "handleSession w p k host0 vmHost prefix =
     (let host = normalizeHost host0 in
      case w_parseRequest w prefix of
        None \<Rightarrow> [Reply (writeQuick 400)]
      | Some req \<Rightarrow>
          let v = authorizeSession (w_now w) (px_router p) (px_auth p) k host vmHost req in
          if sa_status v \<noteq> 0
          then [Reply (if sa_status v = 401 then writeUnauthorized else writeQuick (sa_status v))]
          else let pipelined = pipelinedBytes prefix in
            if length pipelined > MaxConsolePrefix then [Reply (writeQuick 400)]
            else let msg = sessionMsg w k host v pipelined in
              Handoff msg [ClientEnd] # (if w_handoff w msg then [] else [Reply (writeQuick 503)])) @
     [CloseEnd ClientEnd]"

definition handleConsole :: "world \<Rightarrow> Proxy \<Rightarrow> string \<Rightarrow> string \<Rightarrow> bytes \<Rightarrow> effect list" where
  "handleConsole w p host vmHost prefix =
     (case consoleHostKind (Console (px_cfg p)) (w_parseRequest w prefix) of
        None \<Rightarrow> [CloseEnd ClientEnd]
      | Some k \<Rightarrow> handleSession w p k host vmHost prefix)"

definition handleDesktop :: "world \<Rightarrow> Proxy \<Rightarrow> string \<Rightarrow> string \<Rightarrow> bytes \<Rightarrow> effect list" where
  "handleDesktop w p host vmHost prefix =
     (case desktopKind (Desktop (px_cfg p)) of
        None \<Rightarrow> [CloseEnd ClientEnd]
      | Some k \<Rightarrow> handleSession w p k host vmHost prefix)"

text \<open>\<open>handleHTTP\<close> after the sniffer returned, and the handler itself.\<close>

definition routeHTTP :: "world \<Rightarrow> Proxy \<Rightarrow> string \<Rightarrow> bytes \<Rightarrow> effect list" where
  "routeHTTP w p host prefix =
     (case acmeTarget (px_cfg p) prefix of
        Some target \<Rightarrow> pipeTo w target prefix
      | None \<Rightarrow>
          (let published = HostEntry (px_router p) host \<noteq> None;
               desktop = (if published then None else desktopVMHost (px_router p) (Desktop (px_cfg p)) host);
               console = (if published then None else consoleVMHost (px_router p) (Console (px_cfg p)) host)
           in case desktop of
                Some vmHost \<Rightarrow> handleDesktop w p host vmHost prefix
              | None \<Rightarrow>
                  (case console of
                     Some vmHost \<Rightarrow> handleConsole w p host vmHost prefix
                   | None \<Rightarrow>
                       (case HostBackend (px_router p) host of
                          None \<Rightarrow> [Reply (writeQuick 502), CloseEnd ClientEnd]
                        | Some target \<Rightarrow>
                            (case authorizeHTTP w p host prefix of
                               Some refusal \<Rightarrow> [Reply refusal, CloseEnd ClientEnd]
                             | None \<Rightarrow> pipeTo w target prefix)))))"

definition handleHTTP :: "world \<Rightarrow> Proxy \<Rightarrow> reads \<Rightarrow> effect list option" where
  "handleHTTP w p reads =
     map_option (\<lambda>(prefix, r). case r of
         Inl e \<Rightarrow> [Reply (writeQuick 400), CloseEnd ClientEnd]
       | Inr host \<Rightarrow> routeHTTP w p host prefix)
       (ReadHeaderBlock reads (HTTPSniffMaxBytes (px_cfg p)))"

text \<open>The handlers that read nothing: the raw socket goes to \<open>dpipe\<close>.\<close>

definition handoffAccept :: "string \<Rightarrow> string \<Rightarrow> world \<Rightarrow> effect list" where
  "handoffAccept typ protocol w = [Handoff (acceptMsg typ (w_id w) protocol) [ClientEnd], CloseEnd ClientEnd]"

definition handleHTTPS :: "world \<Rightarrow> effect list" where
  "handleHTTPS w = handoffAccept TypeTLSAccept ProtoTLS w"

definition handleSSH :: "world \<Rightarrow> effect list" where
  "handleSSH w = handoffAccept TypeSSHAccept ProtoSSH w"

definition handleRDP :: "world \<Rightarrow> effect list" where
  "handleRDP w = handoffAccept TypeRDPAccept ProtoRDP w"

text \<open>
  \<open>bind\<close>: the listeners in order; \<open>opened\<close> is \<open>p.listeners\<close>, which \<open>stop\<close> closes. The page of the
  site is read before its listener is opened.
\<close>

datatype bind_error = ListenFailed string string | SiteUnreadable string

fun listenEach :: "(string \<Rightarrow> bool) \<Rightarrow> (string \<times> string) list \<Rightarrow> string list \<Rightarrow> bind_error option \<times> string list" where
  "listenEach listenOk [] opened = (None, opened)"
| "listenEach listenOk ((kind, addr) # rest) opened =
     (if listenOk addr then listenEach listenOk rest (opened @ [addr])
      else (Some (ListenFailed kind addr), opened))"

definition bindSite ::
  "(string \<Rightarrow> bool) \<Rightarrow> (string \<Rightarrow> string option) \<Rightarrow> SiteConfig option \<Rightarrow> string list \<Rightarrow> bind_error option \<times> string list" where
  "bindSite listenOk readFile site opened =
     (case site of
        None \<Rightarrow> (None, opened)
      | Some c \<Rightarrow>
          if readFile (site_HTMLFile c) = None then (Some (SiteUnreadable (site_HTMLFile c)), opened)
          else listenEach listenOk [(''site'', Site_listen c)] opened)"

definition bindPlan :: "Config \<Rightarrow> TCPRoute list \<Rightarrow> (string \<times> string) list" where
  "bindPlan c routes =
     (case HTTP c of None \<Rightarrow> [] | Some h \<Rightarrow> [(''http'', http_Listen h)]) @
     (case HTTPS c of None \<Rightarrow> [] | Some h \<Rightarrow> [(''https'', https_Listen h)]) @
     map (\<lambda>r. (''tcp'', tcp_Listen r)) routes @
     (case SSH c of None \<Rightarrow> [] | Some s \<Rightarrow> [(''ssh'', ssh_Listen s)]) @
     (case RDP c of None \<Rightarrow> [] | Some r \<Rightarrow> [(''rdp'', rdp_Listen r)])"

definition bind ::
  "(string \<Rightarrow> bool) \<Rightarrow> (string \<Rightarrow> string option) \<Rightarrow> Proxy \<Rightarrow> bind_error option \<times> string list" where
  "bind listenOk readFile p =
     (case listenEach listenOk (bindPlan (px_cfg p) (TCPRoutes (px_router p))) [] of
        (Some e, opened) \<Rightarrow> (Some e, opened)
      | (None, opened) \<Rightarrow> bindSite listenOk readFile (Site (px_cfg p)) opened)"

text \<open>The control client: what an inbound request is answered with, and the reconnect delay.\<close>

definition handleInbound ::
  "(string \<Rightarrow> ssh_key option) \<Rightarrow> (string \<Rightarrow> parsed_url option) \<Rightarrow> int \<Rightarrow> Resolver \<Rightarrow> Msg \<Rightarrow> int list \<Rightarrow> int list \<times> Msg" where
  "handleInbound parseKey parseURI now r m fds =
     (fds, if m_Type m \<noteq> TypeResolve then Err (m_ID m) (''unsupported request '' @ m_Type m)
           else Handle parseKey parseURI now r m)"

definition reconnectMin :: int where "reconnectMin = 100 * 1000000"
definition reconnectMax :: int where "reconnectMax = 5 * second"

definition nextBackoff :: "int \<Rightarrow> int" where
  "nextBackoff d = (let d = d * 2 in if d > reconnectMax then reconnectMax else d)"

section \<open>The discipline of a handler\<close>

text \<open>
  \<open>tidy\<close>: the client is closed exactly once, after every other use of it, and the backend exactly
  once when its dial succeeded and never otherwise.
\<close>

definition tidy :: "world \<Rightarrow> effect list \<Rightarrow> bool" where
  "tidy w es \<longleftrightarrow>
     (\<exists>used. es = used @ CloseEnd ClientEnd #
        (if \<exists>t. DialBackend t \<in> set used \<and> w_dial w t then [CloseEnd BackendEnd] else []) \<and>
        CloseEnd ClientEnd \<notin> set used \<and> CloseEnd BackendEnd \<notin> set used)"

lemma tidyI:
  assumes "es = used @ CloseEnd ClientEnd # rest" and "CloseEnd ClientEnd \<notin> set used"
    "CloseEnd BackendEnd \<notin> set used"
    "rest = (if \<exists>t. DialBackend t \<in> set used \<and> w_dial w t then [CloseEnd BackendEnd] else [])"
  shows "tidy w es"
  using assms unfolding tidy_def by blast

lemma tidy_pipeTo: "tidy w (pipeTo w target prefix)"
proof (cases "w_dial w target")
  case True
  show ?thesis
  proof (cases "w_replay w")
    case True
    with \<open>w_dial w target\<close> show ?thesis
      by (intro tidyI [of _ "[DialBackend target, WriteBackend prefix,
            Handoff (copyMsg (w_id w) ProtoHTTP) [ClientEnd, BackendEnd]]" "[CloseEnd BackendEnd]"])
         (auto simp: pipeTo_def handoffCopy_def)
  next
    case False
    with \<open>w_dial w target\<close> show ?thesis
      by (intro tidyI [of _ "[DialBackend target, WriteBackend prefix]" "[CloseEnd BackendEnd]"])
         (auto simp: pipeTo_def)
  qed
next
  case False
  then show ?thesis
    by (intro tidyI [of _ "[DialBackend target, Reply (writeQuick 502)]" "[]"]) (auto simp: pipeTo_def)
qed

lemma tidy_no_dial:
  assumes "\<And>t. DialBackend t \<notin> set used" "CloseEnd ClientEnd \<notin> set used" "CloseEnd BackendEnd \<notin> set used"
  shows "tidy w (used @ [CloseEnd ClientEnd])"
  by (rule tidyI [of _ used "[]"]) (use assms in auto)

lemma tidy_reply: "tidy w [Reply s, CloseEnd ClientEnd]"
  using tidy_no_dial [of "[Reply s]" w] by simp

lemma tidy_close: "tidy w [CloseEnd ClientEnd]"
  using tidy_no_dial [of "[]" w] by simp

lemma tidy_handoffAccept: "tidy w (handoffAccept typ protocol w)"
  using tidy_no_dial [of "[Handoff (acceptMsg typ (w_id w) protocol) [ClientEnd]]" w]
  by (simp add: handoffAccept_def)

lemma tidy_handleTCP: "tidy w (handleTCP w route)"
proof (cases "w_dial w (tcp_Target route)")
  case True
  then show ?thesis
    by (intro tidyI [of _ "[DialBackend (tcp_Target route),
          Handoff (copyMsg (w_id w) ProtoTCP) [ClientEnd, BackendEnd]]" "[CloseEnd BackendEnd]"])
       (auto simp: handleTCP_def handoffCopy_def)
next
  case False
  then show ?thesis
    by (intro tidyI [of _ "[DialBackend (tcp_Target route)]" "[]"]) (auto simp: handleTCP_def)
qed

lemma tidy_handleSession: "tidy w (handleSession w p k host vmHost prefix)"
  unfolding handleSession_def
  by (rule tidy_no_dial) (auto simp: Let_def split: option.splits if_splits)

lemma tidy_routeHTTP: "tidy w (routeHTTP w p host prefix)"
  by (auto simp: routeHTTP_def handleDesktop_def handleConsole_def Let_def tidy_pipeTo tidy_reply tidy_close
      tidy_handleSession split: option.split)

lemma session_effects:
  "DialBackend t \<notin> set (handleSession w p k host vmHost prefix)"
  "Handoff m [ClientEnd, BackendEnd] \<notin> set (handleSession w p k host vmHost prefix)"
  by (auto simp: handleSession_def Let_def split: option.splits if_splits)

lemma routeHTTP_dial:
  assumes "DialBackend t \<in> set (routeHTTP w p host prefix)"
  shows "routeHTTP w p host prefix = pipeTo w t prefix \<and>
    (acmeTarget (px_cfg p) prefix = Some t \<or>
     HostBackend (px_router p) host = Some t \<and> authorizeHTTP w p host prefix = None)"
  using assms
  by (auto simp: routeHTTP_def handleDesktop_def handleConsole_def Let_def pipeTo_def handoffCopy_def
      session_effects split: option.splits if_splits)

lemma authorizeHTTP_None:
  assumes "authorizeHTTP w p host prefix = None" and "HostEntry (px_router p) host = Some entry"
    and "NeedsAuth entry (hh_DefaultPort entry)"
  shows "\<exists>req a v sub. w_parseRequest w prefix = Some req \<and> px_auth p = Some a \<and>
    request_cookie req (CookieName a) = Some v \<and> Verify (w_now w) a v (normalizeHost host) = Some sub"
proof -
  from assms obtain req where req: "w_parseRequest w prefix = Some req"
    and ok: "av_ok (authorizeRequest (w_now w) (px_router p) (px_auth p) host req)"
    by (auto simp: authorizeHTTP_def Let_def split: option.splits if_splits)
  from authorizeRequest_okD [OF assms(2,3) ok] req show ?thesis by blast
qed

lemma handleHTTP_SomeE:
  assumes "handleHTTP w p reads = Some es"
  obtains (refused) "es = [Reply (writeQuick 400), CloseEnd ClientEnd]"
    | (routed) prefix host where "ReadHeaderBlock reads (HTTPSniffMaxBytes (px_cfg p)) = Some (prefix, Inr host)"
        "es = routeHTTP w p host prefix"
proof -
  from assms obtain prefix r where "ReadHeaderBlock reads (HTTPSniffMaxBytes (px_cfg p)) = Some (prefix, r)"
    "es = (case r of Inl e \<Rightarrow> [Reply (writeQuick 400), CloseEnd ClientEnd] | Inr host \<Rightarrow> routeHTTP w p host prefix)"
    by (auto simp: handleHTTP_def)
  with that show ?thesis by (cases r) auto
qed

lemma fold_addTCP: "r_tcpList (fold addTCP rs r) = r_tcpList r @ rs"
  by (induction rs arbitrary: r) (simp_all add: addTCP_def)

lemma fold_keeps_tcpList:
  "r_tcpList (fold addHost hs r) = r_tcpList r" "r_tcpList (fold (addSiteHost e) ss r) = r_tcpList r"
  by (induction hs arbitrary: r; simp add: addHost_def split: prod.split)
     (induction ss arbitrary: r; simp add: addSiteHost_def Let_def)

lemma TCPRoutes_NewRouter: "TCPRoutes (NewRouter cfg) = TCP cfg"
  by (auto simp: NewRouter_def TCPRoutes_def fold_addTCP fold_keeps_tcpList emptyRouter_def Let_def
      split: option.split)

lemma listenEach_None:
  "listenEach ok plan opened = (None, out) \<Longrightarrow> out = opened @ map snd plan \<and> list_all ok (map snd plan)"
  by (induction ok plan opened rule: listenEach.induct) (auto split: if_splits)

lemma listenEach_prefix:
  "listenEach ok plan opened = (e, out) \<Longrightarrow> \<exists>n. out = opened @ take n (map snd plan)"
proof (induction ok plan opened rule: listenEach.induct)
  case (2 ok kind addr rest opened)
  show ?case
  proof (cases "ok addr")
    case True
    with 2 obtain n where "out = (opened @ [addr]) @ take n (map snd rest)" by auto
    then show ?thesis by (intro exI [of _ "Suc n"]) simp
  qed (use 2 in \<open>auto intro: exI [of _ 0]\<close>)
qed simp

lemma consoleHostKind_label:
  "map_option sk_label (consoleHostKind cc req) = map_option sk_label (consoleKind cc)"
  by (cases "consoleKind cc"; cases req) (simp_all add: consoleHostKind_def agentKind_def)

lemma kind_protocols:
  "desktopKind d = Some k \<Longrightarrow> sk_protocol k \<noteq> []" "consoleHostKind cc req = Some k \<Longrightarrow> sk_protocol k \<noteq> []"
  by (auto simp: desktopKind_def consoleHostKind_def consoleKind_def agentKind_def ProtoDesktop_def
      ProtoConsole_def ProtoAgent_def split: option.splits if_splits)

text \<open>The ingress, for a request that is no ACME challenge, over the resolver's choice of session.\<close>

lemma routeHTTP_sessionFor:
  assumes "acmeTarget (px_cfg p) prefix = None" and "w_parseRequest w prefix = Some req"
    and "rs_router r = px_router p" "rs_console r = Console (px_cfg p)" "rs_desktop r = Desktop (px_cfg p)"
  shows "routeHTTP w p (m_Host m) prefix =
    (case sessionFor r m req of
       Some (k, vmHost) \<Rightarrow> handleSession w p k (m_Host m) vmHost prefix
     | None \<Rightarrow>
         (case HostBackend (px_router p) (m_Host m) of
            None \<Rightarrow> [Reply (writeQuick 502), CloseEnd ClientEnd]
          | Some target \<Rightarrow>
              (case authorizeHTTP w p (m_Host m) prefix of
                 Some refusal \<Rightarrow> [Reply refusal, CloseEnd ClientEnd]
               | None \<Rightarrow> pipeTo w target prefix)))"
proof -
  let ?c = "Console (px_cfg p)" and ?d = "Desktop (px_cfg p)" and ?lv = "labelledVMHost (px_router p)"
  have console: "consoleVMHost (px_router p) ?c (m_Host m) =
      Option.bind (consoleHostKind ?c (Some req)) (\<lambda>k. ?lv (sk_label k) (m_Host m))"
    using consoleHostKind_label [of ?c "Some req"]
    by (cases "consoleKind ?c"; cases "consoleHostKind ?c (Some req)") (simp_all add: consoleVMHost_def)
  have desktop: "desktopVMHost (px_router p) ?d (m_Host m) =
      Option.bind (desktopKind ?d) (\<lambda>k. ?lv (sk_label k) (m_Host m))"
    by (cases "desktopKind ?d") (simp_all add: desktopVMHost_def)
  show ?thesis
  proof (cases "HostEntry (px_router p) (m_Host m)")
    case (Some e)
    then show ?thesis using assms by (simp add: routeHTTP_def sessionFor_def)
  next
    case None
    show ?thesis
      using assms None desktop console
      by (cases "Option.bind (desktopKind ?d) (\<lambda>k. ?lv (sk_label k) (m_Host m))";
          cases "Option.bind (consoleHostKind ?c (Some req)) (\<lambda>k. ?lv (sk_label k) (m_Host m))";
          cases "desktopKind ?d"; cases "consoleHostKind ?c (Some req)")
         (simp_all add: routeHTTP_def sessionFor_def handleDesktop_def handleConsole_def Let_def)
  qed
qed

lemma sessionFor_protocol: "sessionFor r m req = Some (k, vmHost) \<Longrightarrow> sk_protocol k \<noteq> []"
  using kind_protocols by (auto simp: sessionFor_def Let_def bind_eq_Some_conv split: if_splits option.splits)

lemma authorizeHTTP_iff:
  assumes "w_parseRequest w prefix = Some req"
  shows "authorizeHTTP w p host prefix = None \<longleftrightarrow>
    av_ok (authorizeRequest (w_now w) (px_router p) (px_auth p) host req)"
  using assms by (auto simp: authorizeHTTP_def authorizeRequest_def verdictOK_def Let_def split: option.split)

lemma New_parts:
  assumes "New readFile parseKey fingerprint cfg = Inr p"
  shows "px_cfg p = cfg" "px_router p = NewRouter cfg"
    "NewResolver readFile parseKey fingerprint (NewRouter cfg) (px_auth p) cfg = Inr (px_resolver p)"
  using assms by (auto simp: New_def Let_def split: sum.splits)

section \<open>An example proxy\<close>

definition example_files :: "string \<Rightarrow> string option" where
  "example_files name = (if name = ''/etc/secret'' then Some (replicate 32 (CHR 0x07)) else Some ''<html>'')"

definition example_proxy :: Proxy where
  "example_proxy = (case New example_files example_parseKey (\<lambda>_. ''SHA256:x'') example_config of Inr p \<Rightarrow> p)"

lemma example_proxy_new:
  "New example_files example_parseKey (\<lambda>_. ''SHA256:x'') example_config = Inr example_proxy"
  "px_cfg example_proxy = example_config" "px_router example_proxy = NewRouter example_config"
  "px_auth example_proxy = Some example_auth"
proof -
  have "case New example_files example_parseKey (\<lambda>_. ''SHA256:x'') example_config of Inl _ \<Rightarrow> False
      | Inr p \<Rightarrow> px_auth p = Some example_auth"
    by code_simp
  then show "New example_files example_parseKey (\<lambda>_. ''SHA256:x'') example_config = Inr example_proxy"
    and "px_auth example_proxy = Some example_auth"
    by (auto simp: example_proxy_def split: sum.splits)
  then show "px_cfg example_proxy = example_config" "px_router example_proxy = NewRouter example_config"
    by (auto dest: New_parts)
qed

definition example_token :: string where
  "example_token = Mint example_now example_auth ''user-1'' (consoleAudPrefix @ ''one.shell.vm.local'')"

definition example_upgrade :: request where
  "example_upgrade =
     \<lparr>rq_URL = \<lparr>u_Path = ''/'', u_RequestURI = ''/'', u_Query = (\<lambda>k. if k = ''token'' then example_token else [])\<rparr>,
      rq_Header = (\<lambda>_. [])(''Upgrade'' := [''websocket''], ''Connection'' := [''keep-alive, Upgrade''],
        ''Sec-Websocket-Version'' := [''13''], ''Sec-Websocket-Key'' := [''dGhlIHNhbXBsZSBub25jZQ==''])\<rparr>"

definition example_world :: "request \<Rightarrow> world" where
  "example_world req = \<lparr>w_now = example_now, w_id = ''1'', w_sessionID = ''2'', w_clientAddr = Some ''192.0.2.1:5000'',
     w_parseRequest = (\<lambda>_. Some req), w_dial = (\<lambda>_. True), w_replay = True, w_handoff = (\<lambda>_. True)\<rparr>"

lemma example_route:
  "handleHTTP (example_world example_request) example_proxy example_reads =
     Some (pipeTo (example_world example_request) ''10.0.0.5:8080'' (stream example_reads))"
proof -
  have "HostBackend (NewRouter example_config) ''one.vm.local'' = Some ''10.0.0.5:8080''"
    "HostEntry (NewRouter example_config) ''one.vm.local'' = Some example_host"
    "normalizeHost ''one.vm.local'' = ''one.vm.local''" by code_simp+
  moreover have "authorizeRequest example_now router (Some example_auth) ''one.vm.local'' example_request = verdictOK" for router
    using example_mint_live example_facts calculation(3)
    by (intro session_cookie_ok [where sub = "''user-1''" and now = example_now])
       (simp_all add: example_request_def)
  moreover have "HTTPSniffMaxBytes example_config = 0" "ACME example_config = None"
    by (simp_all add: example_config_def)
  ultimately show ?thesis
    by (simp add: handleHTTP_def routeHTTP_def example_proxy_new example_reads_host acmeTarget_def
        authorizeHTTP_def example_world_def verdictOK_def)
qed

lemma example_session:
  "sa_status (authorizeSession example_now (NewRouter example_config) (Some example_auth)
     (the (consoleKind (Console example_config))) ''one.shell.vm.local'' ''one.vm.local'' example_upgrade) = 0"
proof -
  have "valid_utf8 ''user-1''" "valid_utf8 (consoleAudPrefix @ ''one.shell.vm.local'')" by code_simp+
  then have "verify example_now example_auth example_token (consoleAudPrefix @ ''one.shell.vm.local'') = Some ''user-1''"
    unfolding example_token_def by (intro verify_Mint) (simp_all add: ttl_example second_def)
  moreover have "websocketKey example_upgrade = Some ''dGhlIHNhbXBsZSBub25jZQ==''" by code_simp
  moreover have "sk_audPrefix (the (consoleKind (Console example_config))) = consoleAudPrefix" by code_simp
  moreover have "HostEntry (NewRouter example_config) ''one.vm.local'' = Some example_host" by code_simp
  ultimately show ?thesis
    by (simp add: authorizeSession_def verifyLabelled_def example_upgrade_def)
qed

section \<open>Properties\<close>

text \<open>
  Property C21. Every ingress handler leaves its connections in order on every branch: the client
  connection is closed exactly once and after every other use of it, and the backend connection is
  closed exactly once when the dial succeeded, so no handler leaks or double-closes a socket. The
  plain-http handler returns whenever the sniffer does.
\<close>

theorem handlers_tidy:
  "(case handleHTTP w p reads of None \<Rightarrow> ReadHeaderBlock reads (HTTPSniffMaxBytes (px_cfg p)) = None
     | Some es \<Rightarrow> tidy w es) \<and>
   tidy w (handleTCP w route) \<and> tidy w (handleHTTPS w) \<and> tidy w (handleSSH w) \<and> tidy w (handleRDP w)"
proof -
  have "tidy w es" if "handleHTTP w p reads = Some es" for es
    using that by (cases rule: handleHTTP_SomeE) (auto simp: tidy_reply tidy_routeHTTP)
  moreover have "ReadHeaderBlock reads (HTTPSniffMaxBytes (px_cfg p)) = None" if "handleHTTP w p reads = None"
    using that by (simp add: handleHTTP_def)
  ultimately show ?thesis
    by (auto simp: tidy_handleTCP tidy_handoffAccept handleHTTPS_def handleSSH_def handleRDP_def
        split: option.split)
qed

text \<open>
  Property C8. The plain-http ingress reaches a backend only where it may: when it dials, a header
  block was sniffed from the connection, and either its path is an ACME challenge and the target is
  the configured one, or the target is the backend of the sniffed host and, when the host's entry
  needs a login, the session cookie of that very request verifies for that host. What it then
  replays to the backend is exactly what it had read from the client, and the connection is handed
  over only after that replay.
\<close>

theorem handleHTTP_sound:
  assumes "handleHTTP w p reads = Some es" and "DialBackend t \<in> set es"
  shows "\<exists>prefix host. ReadHeaderBlock reads (HTTPSniffMaxBytes (px_cfg p)) = Some (prefix, Inr host) \<and>
    has_prefix (stream reads) prefix \<and>
    (acmeTarget (px_cfg p) prefix = Some t \<or>
     HostBackend (px_router p) host = Some t \<and>
     (\<forall>entry. HostEntry (px_router p) host = Some entry \<and> NeedsAuth entry (hh_DefaultPort entry) \<longrightarrow>
        (\<exists>req a v sub. w_parseRequest w prefix = Some req \<and> px_auth p = Some a \<and>
           request_cookie req (CookieName a) = Some v \<and>
           Verify (w_now w) a v (normalizeHost host) = Some sub))) \<and>
    (\<forall>m ends. Handoff m ends \<in> set es \<longrightarrow> m = copyMsg (w_id w) ProtoHTTP \<and> ends = [ClientEnd, BackendEnd] \<and>
       (\<exists>post. es = DialBackend t # WriteBackend prefix # Handoff m ends # post))"
  using assms(1)
proof (cases rule: handleHTTP_SomeE)
  case refused
  with assms(2) show ?thesis by simp
next
  case (routed prefix host)
  have "has_prefix (stream reads) prefix"
    using readHeaderLoop_host [of "[]" 0 reads _ prefix host] routed(1)
    by (auto simp: ReadHeaderBlock_def searched_inv_def terminator_def)
  moreover note routeHTTP_dial [OF assms(2) [unfolded routed(2)]] authorizeHTTP_None routed
  ultimately show ?thesis
    by (intro exI [of _ prefix] exI [of _ host])
       (auto simp: pipeTo_def handoffCopy_def split: if_splits)
qed

theorem handleHTTP_sound_witness:
  "\<exists>prefix host. ReadHeaderBlock example_reads 0 = Some (prefix, Inr host) \<and>
     has_prefix (stream example_reads) prefix \<and>
     HostBackend (NewRouter example_config) host = Some ''10.0.0.5:8080''"
proof -
  have "DialBackend ''10.0.0.5:8080'' \<in>
      set (pipeTo (example_world example_request) ''10.0.0.5:8080'' (stream example_reads))"
    by (simp add: pipeTo_def)
  moreover have "HTTPSniffMaxBytes example_config = 0" "ACME example_config = None"
    by (simp_all add: example_config_def)
  ultimately show ?thesis
    using handleHTTP_sound [OF example_route, of "''10.0.0.5:8080''"] example_proxy_new
    by (auto simp: acmeTarget_def)
qed

text \<open>
  Further result. A console, desktop or agent session leaves the plain-http ingress only authorised:
  when the handler hands the client over alone, the token of the sniffed request verifies for the
  labelled host under the audience prefix of the session kind, the message names that machine, the
  subject and the websocket key, and the bytes the client pipelined behind its header block travel
  in the message unchanged, at most \<open>MaxConsolePrefix\<close> of them.
\<close>

theorem handleSession_sound:
  assumes "Handoff m ends \<in> set (handleSession w p k host vmHost prefix)"
  shows "ends = [ClientEnd] \<and> m_Type m = sk_acceptType k \<and> m_Protocol m = sk_protocol k \<and>
    m_Host m = normalizeHost host \<and>
    std_decode (m_Prefix m) = Some (pipelinedBytes prefix) \<and> length (pipelinedBytes prefix) \<le> MaxConsolePrefix \<and>
    (\<exists>req a entry. w_parseRequest w prefix = Some req \<and> px_auth p = Some a \<and>
       HostEntry (px_router p) vmHost = Some entry \<and> websocketKey req = Some (m_WSKey m) \<and>
       verify (w_now w) a (u_Query (rq_URL req) ''token'') (sk_audPrefix k @ normalizeHost host) = Some (m_Sub m) \<and>
       m_Target m = join_host_port (hh_Host entry) (itoa (sk_port k)))"
proof -
  from assms obtain req where req: "w_parseRequest w prefix = Some req"
    and s: "sa_status (authorizeSession (w_now w) (px_router p) (px_auth p) k (normalizeHost host) vmHost req) = 0"
    and m: "m = sessionMsg w k (normalizeHost host)
      (authorizeSession (w_now w) (px_router p) (px_auth p) k (normalizeHost host) vmHost req) (pipelinedBytes prefix)"
    and e: "ends = [ClientEnd]" "length (pipelinedBytes prefix) \<le> MaxConsolePrefix"
    by (auto simp: handleSession_def Let_def split: option.splits if_splits)
  from authorizeSession_cases [of "w_now w" "px_router p" "px_auth p" k "normalizeHost host" vmHost req] s req m e
  show ?thesis by (auto simp: sessionMsg_def std_base64.dec_enc Let_def)
qed

theorem handleSession_sound_witness:
  "\<exists>m :: Msg. m_Type m = TypeConsoleAccept \<and> m_Host m = ''one.shell.vm.local'' \<and> std_decode (m_Prefix m) = Some [1, 2]"
proof -
  let ?k = "the (consoleKind (Console example_config))"
  let ?prefix = "terminator @ [1, 2]"
  have n: "normalizeHost ''one.shell.vm.local'' = ''one.shell.vm.local''" "pipelinedBytes ?prefix = [1, 2]"
    "sk_acceptType ?k = TypeConsoleAccept" by code_simp+
  have "\<exists>m. Handoff m [ClientEnd] \<in>
      set (handleSession (example_world example_upgrade) example_proxy ?k ''one.shell.vm.local'' ''one.vm.local'' ?prefix)"
    using example_session
    by (auto simp: handleSession_def n example_proxy_new example_world_def MaxConsolePrefix_def Let_def)
  then obtain m where "Handoff m [ClientEnd] \<in>
      set (handleSession (example_world example_upgrade) example_proxy ?k ''one.shell.vm.local'' ''one.vm.local'' ?prefix)" ..
  from handleSession_sound [OF this] n show ?thesis by auto
qed

text \<open>
  Further result. \<open>bind\<close> opens the configured listeners and nothing else, in the order the
  configuration claims them: when it succeeds the open listeners are all of \<open>listeners\<close>, which
  \<open>Validate\<close> made distinct; when it fails they are a prefix of them, all recorded for \<open>stop\<close>.
\<close>

theorem bind_opens:
  assumes "New readFile parseKey fingerprint cfg = Inr p"
  shows "case bind listenOk readFile p of
      (None, opened) \<Rightarrow> opened = listeners cfg \<and> list_all listenOk opened
    | (Some e, opened) \<Rightarrow> has_prefix (listeners cfg) opened"
proof -
  let ?plan = "bindPlan cfg (TCP cfg)"
  note p = New_parts(1,2) [OF assms]
  have ls: "listeners cfg = map snd ?plan @ (case Site cfg of None \<Rightarrow> [] | Some s \<Rightarrow> [Site_listen s])"
    by (simp add: listeners_def bindPlan_def comp_def split: option.split)
  obtain e opened where r: "listenEach listenOk ?plan [] = (e, opened)" by fastforce
  show ?thesis
  proof (cases e)
    case None
    with listenEach_None r have "opened = map snd ?plan" "list_all listenOk opened" by fastforce+
    with None r ls show ?thesis
      by (simp add: bind_def bindSite_def p TCPRoutes_NewRouter has_prefix_def split: option.split)
  next
    case (Some x)
    from listenEach_prefix [OF r] have "has_prefix (map snd ?plan) opened"
      by (metis append.left_neutral append_take_drop_id has_prefix_iff)
    then have "has_prefix (listeners cfg) opened" unfolding ls has_prefix_iff by auto
    with Some r show ?thesis by (simp add: bind_def p TCPRoutes_NewRouter)
  qed
qed

theorem bind_opens_witness:
  "case bind (\<lambda>_. True) example_files example_proxy of
      (None, opened) \<Rightarrow> opened = listeners example_config \<and> list_all (\<lambda>_. True) opened
    | (Some e, opened) \<Rightarrow> has_prefix (listeners example_config) opened"
  by (rule bind_opens [OF example_proxy_new(1)])



end
