(* ===== verification/Dpipe_Config.thy ===== *)
theory Dpipe_Config
  imports Go_Prelude "HOL-Library.AList"
begin

text \<open>
  The configuration of \<open>dpipe\<close> (\<open>backstage/dpipe/internal/dpipe/config.go\<close>), the keys and
  certificates loaded from it, the certificate of the remote-desktop leg (\<open>rdpcert.go\<close>) and the choice
  of a certificate by server name (\<open>tlsterm.go\<close>).

  A duration is a number of nanoseconds. What the files hold is the record \<open>files\<close>: the parsed SSH key
  at a path, the callback \<open>knownhosts.New\<close> makes, the key pair \<open>tls.LoadX509KeyPair\<close> reads, the
  self-signed certificate that is generated for a name and whether it can be written.
\<close>

section \<open>Model\<close>

definition DurationOr :: "int \<Rightarrow> int \<Rightarrow> int" where
  "DurationOr d def = (if d = 0 then def else d)"

record PipeSSHConfig =
  ps_Enabled :: bool
  ps_HostKey :: string
  ps_ClientKey :: string
  ps_BackendKnownHosts :: string
  ps_DialTimeout :: int
  ps_ResolveTimeout :: int

record CertConfig =
  ce_SNI :: string
  ce_Cert :: string
  ce_Key :: string

record PipeTLSConfig =
  pt_Enabled :: bool
  pt_Certs :: "CertConfig list"
  pt_DefaultCert :: string
  pt_DefaultKey :: string
  pt_MinVersion :: string
  pt_DialTimeout :: int
  pt_ResolveTimeout :: int
  pt_SniffTimeout :: int
  pt_SniffMaxBytes :: int

record PipeConsoleConfig =
  pc_Enabled :: bool
  pc_IdleTimeout :: int
  pc_MaxSessionsPerHost :: int

record PipeRDPConfig =
  pr_Enabled :: bool
  pr_ComputerName :: string
  pr_DomainName :: string
  pr_SelfSignedCert :: string
  pr_SelfSignedKey :: string
  pr_DialTimeout :: int
  pr_ResolveTimeout :: int
  pr_HandshakeTimeout :: int
  pr_HandoverTTL :: int

record PipeConfig =
  pg_ControlSocket :: string
  pg_UpgradeSocket :: string
  pg_DrainTimeout :: int
  pg_LogLevel :: string
  pg_SSH :: PipeSSHConfig
  pg_TLS :: PipeTLSConfig
  pg_Console :: PipeConsoleConfig
  pg_RDP :: PipeRDPConfig

definition computerName :: "PipeRDPConfig \<Rightarrow> string" where
  "computerName c = (if pr_ComputerName c = [] then ''dpipe'' else pr_ComputerName c)"

definition domainName :: "PipeRDPConfig \<Rightarrow> string" where
  "domainName c = (if pr_DomainName c = [] then ''DPIPE'' else pr_DomainName c)"

definition defaultConsoleMaxPerHost :: int where "defaultConsoleMaxPerHost = 3"
definition defaultConsoleIdleTimeout :: int where "defaultConsoleIdleTimeout = 30 * 60 * 1000000000"

definition idleTimeout :: "PipeConsoleConfig \<Rightarrow> int" where
  "idleTimeout c = DurationOr (pc_IdleTimeout c) defaultConsoleIdleTimeout"

definition maxPerHost :: "PipeConsoleConfig \<Rightarrow> int" where
  "maxPerHost c = (if pc_MaxSessionsPerHost c \<le> 0 then defaultConsoleMaxPerHost else pc_MaxSessionsPerHost c)"

definition rdpSelfSignedCert :: string where "rdpSelfSignedCert = ''/etc/dpipe/certs/rdp-self-signed.pem''"
definition rdpSelfSignedKey :: string where "rdpSelfSignedKey = ''/etc/dpipe/certs/rdp-self-signed.key''"

definition selfSignedPaths :: "PipeRDPConfig \<Rightarrow> string \<times> string" where
  "selfSignedPaths c =
     (if pr_SelfSignedCert c = [] then rdpSelfSignedCert else pr_SelfSignedCert c,
      if pr_SelfSignedKey c = [] then rdpSelfSignedKey else pr_SelfSignedKey c)"

datatype pipe_error =
    ControlSocketRequired
  | UpgradeSocketRequired
  | SocketsMustDiffer
  | SSHKeysRequired
  | ConsoleRequiresSSH
  | CertificatesRequired
  | CertIncomplete nat
  | BadMinVersion string
  | HostKeyUnreadable
  | ClientKeyUnreadable
  | KnownHostsUnreadable
  | CertUnreadable string
  | DefaultCertUnreadable
  | NoUsableCertificate
  | RDPCertificate

definition VersionTLS12 :: int where "VersionTLS12 = 0x0303"
definition VersionTLS13 :: int where "VersionTLS13 = 0x0304"

definition tlsMinVersion :: "string \<Rightarrow> pipe_error + int" where
  "tlsMinVersion s =
     (if s = [] \<or> s = ''1.2'' then Inr VersionTLS12
      else if s = ''1.3'' then Inr VersionTLS13
      else Inl (BadMinVersion s))"

definition validateTLS :: "PipeTLSConfig \<Rightarrow> pipe_error + unit" where
  "validateTLS t =
     (if pt_Certs t = [] \<and> (pt_DefaultCert t = [] \<or> pt_DefaultKey t = []) then Inl CertificatesRequired
      else rbind (for_each 0 (\<lambda>i c _. if ce_SNI c = [] \<or> ce_Cert c = [] \<or> ce_Key c = []
                                       then Inl (CertIncomplete i) else Inr ()) (pt_Certs t) ()) (\<lambda>_.
           rbind (tlsMinVersion (pt_MinVersion t)) (\<lambda>_. Inr ())))"

definition validate :: "PipeConfig \<Rightarrow> pipe_error + unit" where
  "validate c =
     (if pg_ControlSocket c = [] then Inl ControlSocketRequired
      else if pg_UpgradeSocket c = [] then Inl UpgradeSocketRequired
      else if pg_ControlSocket c = pg_UpgradeSocket c then Inl SocketsMustDiffer
      else if ps_Enabled (pg_SSH c) \<and> (ps_HostKey (pg_SSH c) = [] \<or> ps_ClientKey (pg_SSH c) = [])
      then Inl SSHKeysRequired
      else if pc_Enabled (pg_Console c) \<and> \<not> ps_Enabled (pg_SSH c) then Inl ConsoleRequiresSSH
      else if pt_Enabled (pg_TLS c) then validateTLS (pg_TLS c)
      else Inr ())"

datatype 'h hostKeyCallback = InsecureIgnoreHostKey | KnownHosts 'h

record ('k, 'h, 'c) files =
  fl_signer :: "string \<Rightarrow> 'k option"
  fl_knownHosts :: "string \<Rightarrow> 'h option"
  fl_keyPair :: "string \<Rightarrow> string \<Rightarrow> 'c option"
  fl_generate :: "string \<Rightarrow> 'c option"
  fl_write :: "string \<Rightarrow> string \<Rightarrow> 'c \<Rightarrow> bool"

text \<open>A nil pointer or interface of the source is \<open>None\<close>.\<close>

record ('k, 'h, 'c) material =
  mt_hostSigner :: "'k option"
  mt_clientSigner :: "'k option"
  mt_hostKeyCB :: "'h hostKeyCallback option"
  mt_certs :: "(string \<times> 'c) list"
  mt_defaultCrt :: "'c option"
  mt_rdpCrt :: "'c option"
  mt_tlsMin :: int

definition normalizeSNI :: "string \<Rightarrow> string" where
  "normalizeSNI s = to_lower (trim_suffix (trim_space s) ''.'')"

definition certForSNI :: "('k, 'h, 'c) material \<Rightarrow> string \<Rightarrow> 'c option" where
  "certForSNI m serverName =
     (case map_of (mt_certs m) (normalizeSNI serverName) of Some c \<Rightarrow> Some c | None \<Rightarrow> mt_defaultCrt m)"

text \<open>
  \<open>loadRDPCert\<close> gives a certificate and whether there was an error as well; a certificate that could
  not be kept on disk is still used.
\<close>

definition loadRDPCert ::
  "('k, 'h, 'c) files \<Rightarrow> PipeConfig \<Rightarrow> 'c option \<Rightarrow> string \<Rightarrow> 'c option \<times> bool" where
  "loadRDPCert fl c def name =
     (case def of
        Some crt \<Rightarrow> (Some crt, False)
      | None \<Rightarrow>
          let (certPath, keyPath) = selfSignedPaths (pg_RDP c) in
          (case fl_keyPair fl certPath keyPath of
             Some crt \<Rightarrow> (Some crt, False)
           | None \<Rightarrow>
               (case fl_generate fl name of
                  None \<Rightarrow> (None, True)
                | Some crt \<Rightarrow> (Some crt, \<not> fl_write fl certPath keyPath crt))))"

definition loadSSH ::
  "('k, 'h, 'c) files \<Rightarrow> PipeSSHConfig \<Rightarrow> ('k, 'h, 'c) material \<Rightarrow> pipe_error + ('k, 'h, 'c) material" where
  "loadSSH fl s m =
     (if \<not> ps_Enabled s then Inr m
      else case fl_signer fl (ps_HostKey s) of
        None \<Rightarrow> Inl HostKeyUnreadable
      | Some hs \<Rightarrow>
          (case fl_signer fl (ps_ClientKey s) of
             None \<Rightarrow> Inl ClientKeyUnreadable
           | Some cs \<Rightarrow>
               let m = m\<lparr>mt_hostSigner := Some hs, mt_clientSigner := Some cs\<rparr> in
               if ps_BackendKnownHosts s = [] then Inr (m\<lparr>mt_hostKeyCB := Some InsecureIgnoreHostKey\<rparr>)
               else (case fl_knownHosts fl (ps_BackendKnownHosts s) of
                       None \<Rightarrow> Inl KnownHostsUnreadable
                     | Some cb \<Rightarrow> Inr (m\<lparr>mt_hostKeyCB := Some (KnownHosts cb)\<rparr>))))"

definition addCert ::
  "('k, 'h, 'c) files \<Rightarrow> nat \<Rightarrow> CertConfig \<Rightarrow> ('k, 'h, 'c) material \<Rightarrow> pipe_error + ('k, 'h, 'c) material" where
  "addCert fl i cc m =
     (case fl_keyPair fl (ce_Cert cc) (ce_Key cc) of
        None \<Rightarrow> Inl (CertUnreadable (ce_SNI cc))
      | Some crt \<Rightarrow> Inr (m\<lparr>mt_certs := AList.update (normalizeSNI (ce_SNI cc)) crt (mt_certs m)\<rparr>))"

definition loadDefaultCert ::
  "('k, 'h, 'c) files \<Rightarrow> PipeTLSConfig \<Rightarrow> ('k, 'h, 'c) material \<Rightarrow> pipe_error + ('k, 'h, 'c) material" where
  "loadDefaultCert fl t m =
     (if pt_DefaultCert t \<noteq> [] \<and> pt_DefaultKey t \<noteq> []
      then case fl_keyPair fl (pt_DefaultCert t) (pt_DefaultKey t) of
             None \<Rightarrow> Inl DefaultCertUnreadable
           | Some crt \<Rightarrow> Inr (m\<lparr>mt_defaultCrt := Some crt\<rparr>)
      else Inr m)"

definition loadTLS ::
  "('k, 'h, 'c) files \<Rightarrow> PipeTLSConfig \<Rightarrow> ('k, 'h, 'c) material \<Rightarrow> pipe_error + ('k, 'h, 'c) material" where
  "loadTLS fl t m =
     (if \<not> pt_Enabled t then Inr m
      else rbind (tlsMinVersion (pt_MinVersion t)) (\<lambda>v.
           rbind (for_each 0 (addCert fl) (pt_Certs t) (m\<lparr>mt_tlsMin := v\<rparr>)) (\<lambda>m.
           rbind (loadDefaultCert fl t m) (\<lambda>m.
             if mt_certs m = [] \<and> mt_defaultCrt m = None then Inl NoUsableCertificate else Inr m))))"

definition loadRDP ::
  "('k, 'h, 'c) files \<Rightarrow> PipeConfig \<Rightarrow> ('k, 'h, 'c) material \<Rightarrow> pipe_error + ('k, 'h, 'c) material" where
  "loadRDP fl c m =
     (if \<not> pr_Enabled (pg_RDP c) then Inr m
      else case loadRDPCert fl c (mt_defaultCrt m) (computerName (pg_RDP c)) of
        (crt, failed) \<Rightarrow>
          if failed \<and> crt = None then Inl RDPCertificate
          else Inr (m\<lparr>mt_rdpCrt := crt,
                 mt_tlsMin := (if mt_tlsMin m = 0 then VersionTLS12 else mt_tlsMin m)\<rparr>))"

definition newMaterial :: "('k, 'h, 'c) material" where
  "newMaterial = \<lparr>mt_hostSigner = None, mt_clientSigner = None, mt_hostKeyCB = None, mt_certs = [],
     mt_defaultCrt = None, mt_rdpCrt = None, mt_tlsMin = 0\<rparr>"

definition loadMaterial :: "('k, 'h, 'c) files \<Rightarrow> PipeConfig \<Rightarrow> pipe_error + ('k, 'h, 'c) material" where
  "loadMaterial fl c =
     rbind (loadSSH fl (pg_SSH c) newMaterial) (\<lambda>m.
     rbind (loadTLS fl (pg_TLS c) m) (\<lambda>m.
     loadRDP fl c m))"

section \<open>What the loaded material guarantees\<close>

definition sufficient :: "PipeConfig \<Rightarrow> ('k, 'h, 'c) material \<Rightarrow> bool" where
  "sufficient c m \<longleftrightarrow>
     (ps_Enabled (pg_SSH c) \<or> pc_Enabled (pg_Console c) \<longrightarrow>
        mt_hostSigner m \<noteq> None \<and> mt_clientSigner m \<noteq> None \<and> mt_hostKeyCB m \<noteq> None) \<and>
     (pt_Enabled (pg_TLS c) \<longrightarrow> (\<exists>name. certForSNI m name \<noteq> None)) \<and>
     (pr_Enabled (pg_RDP c) \<longrightarrow> mt_rdpCrt m \<noteq> None) \<and>
     (pt_Enabled (pg_TLS c) \<or> pr_Enabled (pg_RDP c) \<longrightarrow> mt_tlsMin m \<in> {VersionTLS12, VersionTLS13})"

text \<open>The certificate of a server name: the last entry configured for it, or else the default.\<close>

definition configuredCert :: "('k, 'h, 'c) files \<Rightarrow> CertConfig list \<Rightarrow> string \<Rightarrow> 'c option" where
  "configuredCert fl cs n =
     (case find (\<lambda>cc. normalizeSNI (ce_SNI cc) = n) (rev cs) of
        Some cc \<Rightarrow> fl_keyPair fl (ce_Cert cc) (ce_Key cc) | None \<Rightarrow> None)"

definition wantedCert :: "('k, 'h, 'c) files \<Rightarrow> PipeTLSConfig \<Rightarrow> string \<Rightarrow> 'c option" where
  "wantedCert fl t name =
     (case configuredCert fl (pt_Certs t) (normalizeSNI name) of
        Some crt \<Rightarrow> Some crt
      | None \<Rightarrow> if pt_DefaultCert t \<noteq> [] \<and> pt_DefaultKey t \<noteq> []
                then fl_keyPair fl (pt_DefaultCert t) (pt_DefaultKey t) else None)"

lemma configuredCert_simps [simp]:
  "configuredCert fl [] n = None"
  "configuredCert fl (cs @ [cc]) n =
     (if normalizeSNI (ce_SNI cc) = n then fl_keyPair fl (ce_Cert cc) (ce_Key cc) else configuredCert fl cs n)"
  by (simp_all add: configuredCert_def)

lemma tlsMinVersion_values: "tlsMinVersion s = Inr v \<Longrightarrow> v \<in> {VersionTLS12, VersionTLS13}"
  by (auto simp: tlsMinVersion_def split: if_splits)

lemma tls_versions_nonzero: "VersionTLS12 \<noteq> 0" "VersionTLS13 \<noteq> 0"
  by (simp_all add: VersionTLS12_def VersionTLS13_def)

lemma loadSSH_frame:
  "loadSSH fl s newMaterial = Inr m \<Longrightarrow> mt_certs m = [] \<and> mt_defaultCrt m = None \<and> mt_rdpCrt m = None \<and> mt_tlsMin m = 0"
  by (auto simp: loadSSH_def newMaterial_def Let_def split: option.splits if_splits)

lemma loadSSH_sufficient:
  "loadSSH fl s m = Inr m' \<Longrightarrow> ps_Enabled s \<Longrightarrow>
     mt_hostSigner m' \<noteq> None \<and> mt_clientSigner m' \<noteq> None \<and> mt_hostKeyCB m' \<noteq> None"
  by (auto simp: loadSSH_def Let_def split: option.splits if_splits)

definition same_ssh :: "('k, 'h, 'c) material \<Rightarrow> ('k, 'h, 'c) material \<Rightarrow> bool" where
  "same_ssh m m' \<longleftrightarrow> mt_hostSigner m' = mt_hostSigner m \<and> mt_clientSigner m' = mt_clientSigner m \<and>
     mt_hostKeyCB m' = mt_hostKeyCB m"

text \<open>The certificate loop, against the last configured entry.\<close>

definition certs_ok :: "('k, 'h, 'c) files \<Rightarrow> ('k, 'h, 'c) material \<Rightarrow> CertConfig list \<Rightarrow> ('k, 'h, 'c) material \<Rightarrow> bool" where
  "certs_ok fl m cs m' \<longleftrightarrow> same_ssh m m' \<and> mt_defaultCrt m' = mt_defaultCrt m \<and> mt_rdpCrt m' = mt_rdpCrt m \<and>
     mt_tlsMin m' = mt_tlsMin m \<and> map_of (mt_certs m') = configuredCert fl cs \<and>
     (\<forall>cc\<in>set cs. fl_keyPair fl (ce_Cert cc) (ce_Key cc) \<noteq> None)"

lemma certs_loaded:
  assumes "for_each 0 (addCert fl) cs m = Inr m'" "mt_certs m = []"
  shows "certs_ok fl m cs m'"
proof (rule for_each_invariant [OF assms(1), where P = "certs_ok fl m"])
  show "certs_ok fl m [] m"
    using assms(2) by (simp add: certs_ok_def same_ssh_def fun_eq_iff)
  show "certs_ok fl m (acc @ [cc]) s'" if "addCert fl i cc s = Inr s'" "certs_ok fl m acc s" for i cc acc s s'
    using that by (auto simp: addCert_def certs_ok_def same_ssh_def update_conv fun_eq_iff split: option.splits)
qed

lemma loadTLS_result:
  assumes "loadTLS fl t m = Inr m'" "mt_certs m = []" "mt_defaultCrt m = None" "pt_Enabled t"
  shows "same_ssh m m'" "mt_rdpCrt m' = mt_rdpCrt m" "mt_tlsMin m' \<in> {VersionTLS12, VersionTLS13}"
    and "certForSNI m' name = wantedCert fl t name" "\<exists>name. certForSNI m' name \<noteq> None"
proof -
  from assms(1,4) obtain v m1 where v: "tlsMinVersion (pt_MinVersion t) = Inr v"
    and m1: "for_each 0 (addCert fl) (pt_Certs t) (m\<lparr>mt_tlsMin := v\<rparr>) = Inr m1"
    and m2: "loadDefaultCert fl t m1 = Inr m'" "mt_certs m' \<noteq> [] \<or> mt_defaultCrt m' \<noteq> None"
    by (auto simp: loadTLS_def)
  have c: "certs_ok fl (m\<lparr>mt_tlsMin := v\<rparr>) (pt_Certs t) m1" using m1 assms(2) by (simp add: certs_loaded)
  from m2(1) have d: "mt_certs m' = mt_certs m1" "mt_tlsMin m' = mt_tlsMin m1" "mt_rdpCrt m' = mt_rdpCrt m1"
    "same_ssh m1 m'" "mt_defaultCrt m' = (if pt_DefaultCert t \<noteq> [] \<and> pt_DefaultKey t \<noteq> []
       then fl_keyPair fl (pt_DefaultCert t) (pt_DefaultKey t) else mt_defaultCrt m1)"
    by (auto simp: loadDefaultCert_def same_ssh_def split: if_splits option.splits)
  from c d show "same_ssh m m'" "mt_rdpCrt m' = mt_rdpCrt m" by (simp_all add: certs_ok_def same_ssh_def)
  from c d tlsMinVersion_values [OF v] show "mt_tlsMin m' \<in> {VersionTLS12, VersionTLS13}" by (simp add: certs_ok_def)
  have w: "certForSNI m' n = wantedCert fl t n" for n
    using c d assms(3) by (simp add: certs_ok_def certForSNI_def wantedCert_def split: option.split)
  then show "certForSNI m' name = wantedCert fl t name" .
  show "\<exists>name. certForSNI m' name \<noteq> None"
  proof (cases "mt_defaultCrt m'")
    case (Some crt)
    then show ?thesis by (auto simp: certForSNI_def split: option.split)
  next
    case None
    with m2(2) d(1) obtain k crt where "(k, crt) \<in> set (mt_certs m1)" by (metis list.set_intros(1) neq_Nil_conv surj_pair)
    moreover have "pt_Certs t \<noteq> []"
      using calculation m1 assms(2) by auto
    ultimately obtain cs cc where cs: "pt_Certs t = cs @ [cc]" by (metis rev_exhaust)
    with c obtain x where "fl_keyPair fl (ce_Cert cc) (ce_Key cc) = Some x" by (auto simp: certs_ok_def)
    with cs have "wantedCert fl t (ce_SNI cc) \<noteq> None" by (simp add: wantedCert_def)
    with w show ?thesis by metis
  qed
qed

lemma loadRDP_result:
  assumes "loadRDP fl c m = Inr m'"
  shows "same_ssh m m'" "mt_certs m' = mt_certs m" "mt_defaultCrt m' = mt_defaultCrt m"
    and "pr_Enabled (pg_RDP c) \<Longrightarrow> mt_rdpCrt m' \<noteq> None"
    and "mt_tlsMin m' = (if pr_Enabled (pg_RDP c) \<and> mt_tlsMin m = 0 then VersionTLS12 else mt_tlsMin m)"
  using assms by (auto simp: loadRDP_def loadRDPCert_def same_ssh_def split: if_splits option.splits prod.splits)

lemma certForSNI_cong:
  "mt_certs m' = mt_certs m \<Longrightarrow> mt_defaultCrt m' = mt_defaultCrt m \<Longrightarrow> certForSNI m' = certForSNI m"
  by (auto simp: certForSNI_def fun_eq_iff split: option.split)

section \<open>Properties\<close>

text \<open>
  Further result. A configuration that is accepted and whose files load leaves every terminator that is
  enabled with what it dereferences: SSH and the console have the two keys and the host-key callback
  (the console only because the configuration forces SSH on), TLS has a certificate for some name,
  remote desktop has its certificate, and the lowest TLS version is 1.2 or 1.3, never the zero value that
  would leave the choice to the library.
\<close>

theorem material_sufficient:
  assumes "validate c = Inr ()" "loadMaterial fl c = Inr m"
  shows "sufficient c m"
proof -
  from assms(2) obtain m1 m2 where m: "loadSSH fl (pg_SSH c) newMaterial = Inr m1" "loadTLS fl (pg_TLS c) m1 = Inr m2"
    "loadRDP fl c m2 = Inr m" by (auto simp: loadMaterial_def)
  from loadSSH_frame [OF m(1)] have f: "mt_certs m1 = []" "mt_defaultCrt m1 = None" "mt_tlsMin m1 = 0" by auto
  have off: "m2 = m1" if "\<not> pt_Enabled (pg_TLS c)" using m(2) that by (simp add: loadTLS_def)
  have ssh: "same_ssh m1 m"
    using off loadTLS_result(1) [OF m(2) f(1,2)] loadRDP_result(1) [OF m(3)] by (auto simp: same_ssh_def)
  have "ps_Enabled (pg_SSH c)" if "pc_Enabled (pg_Console c)"
    using assms(1) that by (auto simp: validate_def split: if_splits)
  with ssh loadSSH_sufficient [OF m(1)] have "ps_Enabled (pg_SSH c) \<or> pc_Enabled (pg_Console c) \<Longrightarrow>
      mt_hostSigner m \<noteq> None \<and> mt_clientSigner m \<noteq> None \<and> mt_hostKeyCB m \<noteq> None"
    by (auto simp: same_ssh_def)
  moreover have "\<exists>name. certForSNI m name \<noteq> None" if "pt_Enabled (pg_TLS c)"
    using loadTLS_result(5) [OF m(2) f(1,2) that] certForSNI_cong [OF loadRDP_result(2,3) [OF m(3)]] by metis
  moreover have "mt_tlsMin m \<in> {VersionTLS12, VersionTLS13}" if "pt_Enabled (pg_TLS c) \<or> pr_Enabled (pg_RDP c)"
  proof (cases "pt_Enabled (pg_TLS c)")
    case True
    from loadTLS_result(3) [OF m(2) f(1,2) this] loadRDP_result(5) [OF m(3)] tls_versions_nonzero show ?thesis by auto
  next
    case False
    with off f(3) that loadRDP_result(5) [OF m(3)] show ?thesis by simp
  qed
  ultimately show ?thesis using loadRDP_result(4) [OF m(3)] by (auto simp: sufficient_def)
qed

text \<open>
  Further result. The certificate presented for a server name is the one of the last entry of the
  configuration whose name is the same up to letter case, blanks around it and a trailing dot; for any
  other name it is the default certificate, and with no default the handshake is refused.
\<close>

theorem certForSNI_wanted:
  assumes "loadMaterial fl c = Inr m" "pt_Enabled (pg_TLS c)"
  shows "certForSNI m name = wantedCert fl (pg_TLS c) name"
proof -
  from assms(1) obtain m1 m2 where m: "loadSSH fl (pg_SSH c) newMaterial = Inr m1" "loadTLS fl (pg_TLS c) m1 = Inr m2"
    "loadRDP fl c m2 = Inr m" by (auto simp: loadMaterial_def)
  from loadSSH_frame [OF m(1)] have "mt_certs m1 = []" "mt_defaultCrt m1 = None" by auto
  from loadTLS_result(4) [OF m(2) this assms(2)] certForSNI_cong [OF loadRDP_result(2,3) [OF m(3)]] show ?thesis by simp
qed

text \<open>A configuration with every terminator, and files in which each path holds itself.\<close>

definition example_pipe :: PipeConfig where
  "example_pipe = \<lparr>pg_ControlSocket = ''/run/c'', pg_UpgradeSocket = ''/run/u'', pg_DrainTimeout = 0, pg_LogLevel = [],
     pg_SSH = \<lparr>ps_Enabled = True, ps_HostKey = ''h'', ps_ClientKey = ''k'', ps_BackendKnownHosts = ''kh'',
        ps_DialTimeout = 0, ps_ResolveTimeout = 0\<rparr>,
     pg_TLS = \<lparr>pt_Enabled = True, pt_Certs = [\<lparr>ce_SNI = ''a.example.'', ce_Cert = ''a'', ce_Key = ''k''\<rparr>,
          \<lparr>ce_SNI = ''A.example'', ce_Cert = ''b'', ce_Key = ''k''\<rparr>],
        pt_DefaultCert = [], pt_DefaultKey = [], pt_MinVersion = ''1.3'', pt_DialTimeout = 0, pt_ResolveTimeout = 0,
        pt_SniffTimeout = 0, pt_SniffMaxBytes = 0\<rparr>,
     pg_Console = \<lparr>pc_Enabled = True, pc_IdleTimeout = 0, pc_MaxSessionsPerHost = 2\<rparr>,
     pg_RDP = \<lparr>pr_Enabled = True, pr_ComputerName = [], pr_DomainName = [], pr_SelfSignedCert = [], pr_SelfSignedKey = [],
        pr_DialTimeout = 0, pr_ResolveTimeout = 0, pr_HandshakeTimeout = 0, pr_HandoverTTL = 5\<rparr>\<rparr>"

definition example_pipe_files :: "(string, string, string) files" where
  "example_pipe_files = \<lparr>fl_signer = Some, fl_knownHosts = Some, fl_keyPair = (\<lambda>c k. if c = ''a'' \<or> c = ''b'' then Some c else None),
     fl_generate = Some, fl_write = (\<lambda>_ _ _. False)\<rparr>"

lemma example_pipe_loads:
  "validate example_pipe = Inr ()"
  "\<exists>m. loadMaterial example_pipe_files example_pipe = Inr m \<and> certForSNI m ''a.EXAMPLE'' = Some ''b'' \<and>
     certForSNI m ''other'' = None \<and> mt_rdpCrt m = Some ''dpipe''"
proof -
  show "validate example_pipe = Inr ()" by code_simp
  have "case loadMaterial example_pipe_files example_pipe of Inl _ \<Rightarrow> False
    | Inr m \<Rightarrow> certForSNI m ''a.EXAMPLE'' = Some ''b'' \<and> certForSNI m ''other'' = None \<and> mt_rdpCrt m = Some ''dpipe''"
    by code_simp
  then show "\<exists>m. loadMaterial example_pipe_files example_pipe = Inr m \<and> certForSNI m ''a.EXAMPLE'' = Some ''b'' \<and>
     certForSNI m ''other'' = None \<and> mt_rdpCrt m = Some ''dpipe''"
    by (auto split: sum.splits)
qed

theorem material_sufficient_witness:
  "\<exists>m. loadMaterial example_pipe_files example_pipe = Inr m \<and> sufficient example_pipe m"
  using example_pipe_loads(2) material_sufficient [OF example_pipe_loads(1)] by blast

theorem certForSNI_wanted_witness:
  "\<exists>m. loadMaterial example_pipe_files example_pipe = Inr m \<and>
     certForSNI m ''a.EXAMPLE'' = wantedCert example_pipe_files (pg_TLS example_pipe) ''a.EXAMPLE''"
proof -
  have "pt_Enabled (pg_TLS example_pipe)" by (simp add: example_pipe_def)
  with example_pipe_loads(2) certForSNI_wanted show ?thesis by blast
qed

end
