(* ===== verification/Dpipe_Registry.thy ===== *)
theory Dpipe_Registry
  imports Go_Prelude
begin

text \<open>
  The registry of active connections of \<open>dpipe\<close> (\<open>backstage/dpipe/internal/dpipe/registry.go\<close>),
  which a draining process waits on. A critical section is one step. The channels \<open>WaitZero\<close> makes
  are numbered; \<open>rg_closed\<close> is the set of those that were closed, which releases their waiters, and
  closing a closed channel would panic.
\<close>

section \<open>Model\<close>

record Registry =
  rg_active :: "string set"
  rg_draining :: bool
  rg_waiters :: "nat list"
  rg_closed :: "nat set"
  rg_next :: nat
  rg_panicked :: bool

definition NewRegistry :: Registry where
  "NewRegistry = \<lparr>rg_active = {}, rg_draining = False, rg_waiters = [], rg_closed = {}, rg_next = 0,
     rg_panicked = False\<rparr>"

definition Add :: "string \<Rightarrow> Registry \<Rightarrow> Registry" where
  "Add ident r = r\<lparr>rg_active := insert ident (rg_active r)\<rparr>"

definition closeChan :: "nat \<Rightarrow> Registry \<Rightarrow> Registry" where
  "closeChan c r =
     (if c \<in> rg_closed r then r\<lparr>rg_panicked := True\<rparr> else r\<lparr>rg_closed := insert c (rg_closed r)\<rparr>)"

definition Done :: "string \<Rightarrow> Registry \<Rightarrow> Registry" where
  "Done ident r =
     (let r = r\<lparr>rg_active := rg_active r - {ident}\<rparr> in
      if rg_active r = {} then (fold closeChan (rg_waiters r) r)\<lparr>rg_waiters := []\<rparr> else r)"

definition Active :: "Registry \<Rightarrow> nat" where
  "Active r = card (rg_active r)"

definition SetDraining :: "Registry \<Rightarrow> Registry" where
  "SetDraining r = r\<lparr>rg_draining := True\<rparr>"

definition Snapshot :: "(unit \<Rightarrow> nat) option \<Rightarrow> Registry \<Rightarrow> nat \<times> nat \<times> bool" where
  "Snapshot forwardCount r =
     (card (rg_active r), (case forwardCount of None \<Rightarrow> 0 | Some f \<Rightarrow> f ()), rg_draining r)"

text \<open>The critical section of \<open>WaitZero\<close>: return at once, or wait on a new channel.\<close>

definition WaitZero :: "Registry \<Rightarrow> nat option \<times> Registry" where
  "WaitZero r =
     (if rg_active r = {} then (None, r)
      else (Some (rg_next r), r\<lparr>rg_waiters := rg_waiters r @ [rg_next r], rg_next := Suc (rg_next r)\<rparr>))"

inductive registry_step :: "Registry \<Rightarrow> Registry \<Rightarrow> bool" where
  add: "registry_step r (Add ident r)"
| finish: "registry_step r (Done ident r)"
| drain: "registry_step r (SetDraining r)"
| wait: "registry_step r (snd (WaitZero r))"

inductive_cases registry_stepE: "registry_step r r'"

definition registry_reachable :: "Registry \<Rightarrow> bool" where
  "registry_reachable r \<longleftrightarrow> registry_step\<^sup>*\<^sup>* NewRegistry r"

section \<open>Invariant\<close>

text \<open>Every channel made is waiting or closed, never both; waiting ones only while work is active.\<close>

definition registry_inv :: "Registry \<Rightarrow> bool" where
  "registry_inv r \<longleftrightarrow> distinct (rg_waiters r) \<and> set (rg_waiters r) \<inter> rg_closed r = {} \<and>
     set (rg_waiters r) \<union> rg_closed r = {..<rg_next r} \<and>
     (rg_active r = {} \<longrightarrow> rg_waiters r = []) \<and> finite (rg_active r) \<and> \<not> rg_panicked r"

lemma fold_closeChan:
  assumes "distinct cs" "set cs \<inter> rg_closed r = {}"
  shows "fold closeChan cs r = r\<lparr>rg_closed := set cs \<union> rg_closed r\<rparr>"
  using assms
proof (induction cs arbitrary: r)
  case (Cons c cs)
  have step: "closeChan c r = r\<lparr>rg_closed := insert c (rg_closed r)\<rparr>"
    using Cons.prems by (simp add: closeChan_def)
  have "fold closeChan cs (closeChan c r) = r\<lparr>rg_closed := set cs \<union> insert c (rg_closed r)\<rparr>"
    unfolding step by (subst Cons.IH) (use Cons.prems in auto)
  then show ?case by simp
qed simp

lemma Done_last:
  assumes "registry_inv r" and "rg_active r - {ident} = {}"
  shows "Done ident r = r\<lparr>rg_active := {}, rg_closed := set (rg_waiters r) \<union> rg_closed r, rg_waiters := []\<rparr>"
proof -
  have "fold closeChan (rg_waiters r) (r\<lparr>rg_active := {}\<rparr>) =
      r\<lparr>rg_active := {}, rg_closed := set (rg_waiters r) \<union> rg_closed r\<rparr>"
    using assms by (subst fold_closeChan) (simp_all add: registry_inv_def)
  then show ?thesis unfolding Done_def Let_def assms(2) by simp
qed

lemma Done_more:
  "rg_active r - {ident} \<noteq> {} \<Longrightarrow> Done ident r = r\<lparr>rg_active := rg_active r - {ident}\<rparr>"
  unfolding Done_def Let_def by simp

lemma registry_inv_Done:
  assumes "registry_inv r"
  shows "registry_inv (Done ident r)"
proof (cases "rg_active r - {ident} = {}")
  case True
  show ?thesis unfolding Done_last [OF assms True] using assms by (auto simp: registry_inv_def)
next
  case False
  show ?thesis unfolding Done_more [OF False] using assms False by (auto simp: registry_inv_def)
qed

lemma registry_inv_step: "registry_step r r' \<Longrightarrow> registry_inv r \<Longrightarrow> registry_inv r'"
  by (erule registry_stepE)
     (auto simp: registry_inv_Done, auto simp: registry_inv_def Add_def SetDraining_def WaitZero_def lessThan_Suc)

lemma registry_reachable_inv: "registry_reachable r \<Longrightarrow> registry_inv r"
  unfolding registry_reachable_def
proof (induction rule: rtranclp_induct)
  case base
  show ?case by (simp add: registry_inv_def NewRegistry_def)
qed (rule registry_inv_step)

section \<open>Properties\<close>

text \<open>
  Further result. No drain waits for ever and none returns early: in every reachable state no channel
  was closed twice, a registered waiter is released exactly when the set of active connections has
  become empty after it registered, and when nothing is active every waiter there ever was has
  been released.
\<close>

theorem registry_releases_waiters:
  assumes "registry_reachable r"
  shows "\<not> rg_panicked r \<and>
    (rg_active r = {} \<longrightarrow> {..<rg_next r} = rg_closed r) \<and>
    (\<forall>c r'. WaitZero r = (Some c, r') \<longrightarrow> c \<notin> rg_closed r' \<and>
       (\<forall>ident. c \<in> rg_closed (Done ident r') \<longleftrightarrow> rg_active r' - {ident} = {}))"
proof (intro conjI impI allI)
  note inv = registry_reachable_inv [OF assms]
  show "\<not> rg_panicked r" using inv by (simp add: registry_inv_def)
  show "{..<rg_next r} = rg_closed r" if "rg_active r = {}"
    using that inv by (auto simp: registry_inv_def)
  fix c r' assume w: "WaitZero r = (Some c, r')"
  have "registry_step r r'" using wait [of r] w by simp
  then have inv': "registry_inv r'" using inv registry_inv_step by blast
  have c: "c \<in> set (rg_waiters r')" using w by (auto simp: WaitZero_def split: if_splits)
  with inv' show "c \<notin> rg_closed r'" by (auto simp: registry_inv_def)
  show "c \<in> rg_closed (Done ident r') \<longleftrightarrow> rg_active r' - {ident} = {}" for ident
  proof (cases "rg_active r' - {ident} = {}")
    case True
    then show ?thesis unfolding Done_last [OF inv' True] using c by simp
  next
    case False
    then show ?thesis unfolding Done_more [OF False] using c inv' by (auto simp: registry_inv_def)
  qed
qed

theorem registry_releases_waiters_witness:
  "0 \<notin> rg_closed (snd (WaitZero (Add ''a'' NewRegistry))) \<and>
   0 \<in> rg_closed (Done ''a'' (snd (WaitZero (Add ''a'' NewRegistry))))"
proof -
  have "registry_reachable (Add ''a'' NewRegistry)"
    using registry_step.add [of NewRegistry "''a''"] by (auto simp: registry_reachable_def)
  from registry_releases_waiters [OF this] show ?thesis
    by (simp add: WaitZero_def Add_def NewRegistry_def)
qed

end
