(* ===== verification/Dpipe_Server.thy ===== *)
theory Dpipe_Server
  imports Dpipe_Config Dpipe_Registry Control_Message "HOL-Library.Multiset"
begin

text \<open>
  The control side of \<open>dpipe\<close>: the listen forwards (\<open>backstage/dpipe/internal/dpipe/listenforward.go\<close>),
  the dispatch of the requests \<open>dproxy\<close> sends with their descriptors (\<open>server.go\<close>), the console, agent
  and desktop requests and the limit on sessions per machine (\<open>console.go\<close>, \<open>agent.go\<close>, \<open>desktop.go\<close>).

  A handler is a function of the server's state; what it does to the outside is the list of its effects,
  in order. Handing a descriptor to \<open>xnet.FileConn\<close> uses it up, whether a connection comes out or not. A
  handler is one step here; its check of the drain flag and what follows are two critical sections of the
  code. Logging, addresses and deadlines are left out.
\<close>

section \<open>Listen forwards\<close>

record Forward =
  fw_ID :: string
  fw_Listen :: string
  fw_Target :: string
  fw_ln :: nat

text \<open>
  A listener is a number. \<open>fm_serving\<close> lists the forwards whose accept loop was started, newest first, and
  \<open>fm_closed\<close> the listeners that were closed.
\<close>

record ForwardManager =
  fm_m :: "(string \<times> Forward) list"
  fm_serving :: "Forward list"
  fm_closed :: "nat list"

definition NewForwardManager :: ForwardManager where
  "NewForwardManager = \<lparr>fm_m = [], fm_serving = [], fm_closed = []\<rparr>"

definition Count :: "ForwardManager \<Rightarrow> nat" where
  "Count fm = length (fm_m fm)"

definition adopt :: "string \<Rightarrow> string \<Rightarrow> string \<Rightarrow> nat \<Rightarrow> ForwardManager \<Rightarrow> ForwardManager" where
  "adopt ident listen target ln fm =
     (let f = \<lparr>fw_ID = ident, fw_Listen = listen, fw_Target = target, fw_ln = ln\<rparr> in
      fm\<lparr>fm_m := AList.update ident f (fm_m fm), fm_serving := f # fm_serving fm\<rparr>)"

definition Start :: "(string \<Rightarrow> string + nat) \<Rightarrow> string \<Rightarrow> string \<Rightarrow> string \<Rightarrow> ForwardManager \<Rightarrow> string + ForwardManager" where
  "Start listenTCP ident listen target fm =
     (if listen = [] \<or> target = [] then Inl ''listen_forward requires listen and target''
      else rbind (listenTCP listen) (\<lambda>ln. Inr (adopt ident listen target ln fm)))"

definition closeListener :: "nat \<Rightarrow> ForwardManager \<Rightarrow> string option \<times> ForwardManager" where
  "closeListener ln fm =
     (if ln \<in> set (fm_closed fm) then (Some ''use of closed network connection'', fm)
      else (None, fm\<lparr>fm_closed := ln # fm_closed fm\<rparr>))"

definition Stop :: "string \<Rightarrow> ForwardManager \<Rightarrow> string option \<times> ForwardManager" where
  "Stop ident fm =
     (let f = map_of (fm_m fm) ident;
          fm = fm\<lparr>fm_m := AList.delete ident (fm_m fm)\<rparr>
      in case f of None \<Rightarrow> (Some ''unknown listen_forward id'', fm)
                 | Some f \<Rightarrow> closeListener (fw_ln f) fm)"

definition CloseListeners :: "ForwardManager \<Rightarrow> ForwardManager" where
  "CloseListeners fm = fold (\<lambda>(_, f) fm. snd (closeListener (fw_ln f) fm)) (fm_m fm) fm"

text \<open>The descriptors of the forwards in the order the map is walked in.\<close>

fun Descriptors :: "(nat \<Rightarrow> int option) \<Rightarrow> (string \<times> Forward) list \<Rightarrow> (SockDesc list \<times> int list) option" where
  "Descriptors listenerFD [] = Some ([], [])"
| "Descriptors listenerFD ((ident, f) # fs) =
     (case listenerFD (fw_ln f) of
        None \<Rightarrow> None
      | Some fd \<Rightarrow>
          map_option (\<lambda>(ds, fds). (\<lparr>sd_Kind = SockListenForward, sd_ID = ident, sd_Listen = fw_Listen f,
            sd_Target = fw_Target f\<rparr> # ds, fd # fds)) (Descriptors listenerFD fs))"

section \<open>The server\<close>

text \<open>
  A session is a goroutine serving a connection; the descriptor it came from names the connection.
  \<open>srv_consoles\<close> has no entry for a machine without sessions.
\<close>

datatype session =
    CopySession string int int
  | SSHSession string int
  | TLSSession string int
  | RDPSession string int
  | ConsoleSession string Msg int bytes
  | AgentSession string Msg int bytes
  | DesktopSession string Msg int bytes

datatype srv_effect =
    CloseFD int
  | Adopt int bool
  | CloseConn int
  | Refuse int int
  | Reply Msg
  | Spawn session

record Server =
  srv_cfg :: PipeConfig
  srv_reg :: Registry
  srv_fwd :: ForwardManager
  srv_consoles :: "string \<Rightarrow> int option"

text \<open>
  The results of the calls a handler makes: \<open>hw_fileConn\<close> is the error of adopting a descriptor, if any,
  \<open>hw_newID\<close> a fresh identifier.
\<close>

record handlerWorld =
  hw_fileConn :: "int \<Rightarrow> string option"
  hw_newID :: string
  hw_listen :: "string \<Rightarrow> string + nat"

definition NewServer :: "PipeConfig \<Rightarrow> Server" where
  "NewServer cfg = \<lparr>srv_cfg = cfg, srv_reg = NewRegistry, srv_fwd = NewForwardManager, srv_consoles = (\<lambda>_. None)\<rparr>"

definition CloseFDs :: "int list \<Rightarrow> srv_effect list" where
  "CloseFDs fds = map CloseFD fds"

definition msgID :: "handlerWorld \<Rightarrow> Msg \<Rightarrow> string" where
  "msgID w m = (if m_ID m \<noteq> [] then m_ID m else hw_newID w)"

definition consoleCount :: "string \<Rightarrow> Server \<Rightarrow> int" where
  "consoleCount host s = (case srv_consoles s host of None \<Rightarrow> 0 | Some n \<Rightarrow> n)"

definition acquireConsole :: "string \<Rightarrow> Server \<Rightarrow> bool \<times> Server" where
  "acquireConsole host s =
     (if consoleCount host s \<ge> maxPerHost (pg_Console (srv_cfg s)) then (False, s)
      else (True, s\<lparr>srv_consoles := (srv_consoles s)(host \<mapsto> consoleCount host s + 1)\<rparr>))"

definition releaseConsole :: "string \<Rightarrow> Server \<Rightarrow> Server" where
  "releaseConsole host s =
     (let n = consoleCount host s - 1 in
      if n > 0 then s\<lparr>srv_consoles := (srv_consoles s)(host \<mapsto> n)\<rparr>
      else s\<lparr>srv_consoles := (srv_consoles s)(host := None)\<rparr>)"

definition agentHostKey :: "string \<Rightarrow> string" where
  "agentHostKey host = ''agent:'' @ host"

definition handleCopy :: "handlerWorld \<Rightarrow> Server \<Rightarrow> Msg \<Rightarrow> int list \<Rightarrow> srv_effect list \<times> Server" where
  "handleCopy w s m fds =
     (case fds of
        [cfd, bfd] \<Rightarrow>
          if rg_draining (srv_reg s) then (CloseFDs fds @ [Reply (Err (m_ID m) ''draining'')], s)
          else (case hw_fileConn w cfd of
            Some e \<Rightarrow> ([Adopt cfd False] @ CloseFDs [bfd] @ [Reply (Err (m_ID m) e)], s)
          | None \<Rightarrow>
              (case hw_fileConn w bfd of
                 Some e \<Rightarrow> ([Adopt cfd True, Adopt bfd False, CloseConn cfd, Reply (Err (m_ID m) e)], s)
               | None \<Rightarrow>
                   let ident = msgID w m in
                   ([Adopt cfd True, Adopt bfd True, Reply (OK (m_ID m)), Spawn (CopySession ident cfd bfd)],
                    s\<lparr>srv_reg := Add ident (srv_reg s)\<rparr>)))
      | _ \<Rightarrow> (CloseFDs fds @ [Reply (Err (m_ID m) ''copy requires exactly 2 file descriptors'')], s))"

definition handleListenForward :: "handlerWorld \<Rightarrow> Server \<Rightarrow> Msg \<Rightarrow> srv_effect list \<times> Server" where
  "handleListenForward w s m =
     (let ident = msgID w m in
      case Start (hw_listen w) ident (m_Listen m) (m_Target m) (srv_fwd s) of
        Inl e \<Rightarrow> ([Reply (Err (m_ID m) e)], s)
      | Inr fm \<Rightarrow> ([Reply (OK ident)], s\<lparr>srv_fwd := fm\<rparr>))"

text \<open>
  The three requests that hand over one connection to a terminator are the same code but for the name,
  the switch of the configuration and the terminator.
\<close>

definition acceptOne ::
  "string \<Rightarrow> bool \<Rightarrow> string \<Rightarrow> (string \<Rightarrow> int \<Rightarrow> session) \<Rightarrow>
   handlerWorld \<Rightarrow> Server \<Rightarrow> Msg \<Rightarrow> int list \<Rightarrow> srv_effect list \<times> Server" where
  "acceptOne name enabled disabled session w s m fds =
     (case fds of
        [fd] \<Rightarrow>
          if \<not> enabled then (CloseFDs fds @ [Reply (Err (m_ID m) disabled)], s)
          else if rg_draining (srv_reg s) then (CloseFDs fds @ [Reply (Err (m_ID m) ''draining'')], s)
          else (case hw_fileConn w fd of
            Some e \<Rightarrow> ([Adopt fd False, Reply (Err (m_ID m) e)], s)
          | None \<Rightarrow> ([Adopt fd True, Reply (OK (m_ID m)), Spawn (session (msgID w m) fd)], s))
      | _ \<Rightarrow> (CloseFDs fds @ [Reply (Err (m_ID m) (name @ '' requires exactly 1 file descriptor''))], s))"

definition handleSSHAccept :: "handlerWorld \<Rightarrow> Server \<Rightarrow> Msg \<Rightarrow> int list \<Rightarrow> srv_effect list \<times> Server" where
  "handleSSHAccept w s =
     acceptOne ''ssh_accept'' (ps_Enabled (pg_SSH (srv_cfg s))) ''ssh not enabled'' SSHSession w s"

definition handleTLSAccept :: "handlerWorld \<Rightarrow> Server \<Rightarrow> Msg \<Rightarrow> int list \<Rightarrow> srv_effect list \<times> Server" where
  "handleTLSAccept w s =
     acceptOne ''tls_accept'' (pt_Enabled (pg_TLS (srv_cfg s))) ''tls not enabled'' TLSSession w s"

definition handleRDPAccept :: "handlerWorld \<Rightarrow> Server \<Rightarrow> Msg \<Rightarrow> int list \<Rightarrow> srv_effect list \<times> Server" where
  "handleRDPAccept w s =
     acceptOne ''rdp_accept'' (pr_Enabled (pg_RDP (srv_cfg s))) ''rdp not enabled'' RDPSession w s"

definition acceptSession ::
  "string \<Rightarrow> bool \<Rightarrow> string \<Rightarrow> (string \<Rightarrow> string) \<Rightarrow> string \<Rightarrow> (string \<Rightarrow> Msg \<Rightarrow> int \<Rightarrow> bytes \<Rightarrow> session) \<Rightarrow>
   handlerWorld \<Rightarrow> Server \<Rightarrow> Msg \<Rightarrow> int list \<Rightarrow> srv_effect list \<times> Server" where
  "acceptSession name enabled disabled key tooMany session w s m fds =
     (case fds of
        [fd] \<Rightarrow>
          if \<not> enabled then (CloseFDs fds @ [Reply (Err (m_ID m) disabled)], s)
          else if rg_draining (srv_reg s) then (CloseFDs fds @ [Reply (Err (m_ID m) ''draining'')], s)
          else (case std_decode (m_Prefix m) of
            None \<Rightarrow> (CloseFDs fds @ [Reply (Err (m_ID m) (name @ '': unusable prefix''))], s)
          | Some pipelined \<Rightarrow>
              if length pipelined > MaxConsolePrefix
              then (CloseFDs fds @ [Reply (Err (m_ID m) (name @ '': unusable prefix''))], s)
              else (case hw_fileConn w fd of
                Some e \<Rightarrow> ([Adopt fd False, Reply (Err (m_ID m) e)], s)
              | None \<Rightarrow>
                  (case acquireConsole (key (m_Host m)) s of
                     (False, s) \<Rightarrow>
                       ([Adopt fd True, Refuse fd 503, CloseConn fd, Reply (Err (m_ID m) tooMany)], s)
                   | (True, s) \<Rightarrow>
                       ([Adopt fd True, Reply (OK (m_ID m)), Spawn (session (msgID w m) m fd pipelined)], s))))
      | _ \<Rightarrow> (CloseFDs fds @ [Reply (Err (m_ID m) (name @ '' requires exactly 1 file descriptor''))], s))"

definition handleConsoleAccept :: "handlerWorld \<Rightarrow> Server \<Rightarrow> Msg \<Rightarrow> int list \<Rightarrow> srv_effect list \<times> Server" where
  "handleConsoleAccept w s =
     acceptSession ''console_accept'' (pc_Enabled (pg_Console (srv_cfg s))) ''console not enabled'' (\<lambda>h. h)
       ''too many console sessions for this host'' ConsoleSession w s"

definition handleAgentAccept :: "handlerWorld \<Rightarrow> Server \<Rightarrow> Msg \<Rightarrow> int list \<Rightarrow> srv_effect list \<times> Server" where
  "handleAgentAccept w s =
     acceptSession ''agent_accept'' (pc_Enabled (pg_Console (srv_cfg s))) ''console not enabled'' agentHostKey
       ''too many agent sessions for this host'' AgentSession w s"

definition handleDesktopAccept :: "handlerWorld \<Rightarrow> Server \<Rightarrow> Msg \<Rightarrow> int list \<Rightarrow> srv_effect list \<times> Server" where
  "handleDesktopAccept w s =
     acceptSession ''desktop_accept'' (pr_Enabled (pg_RDP (srv_cfg s))) ''rdp not enabled'' (\<lambda>h. h)
       ''too many desktop sessions for this host'' DesktopSession w s"

definition statusMsg :: "Server \<Rightarrow> Msg \<Rightarrow> Msg" where
  "statusMsg s m =
     (let (active, forwards, draining) = Snapshot (Some (\<lambda>_. Count (srv_fwd s))) (srv_reg s) in
      zeroMsg\<lparr>m_V := Version, m_Type := TypeOK, m_ID := m_ID m, m_ActiveConns := int active,
        m_ListenForwards := int forwards, m_Draining := draining\<rparr>)"

definition handle :: "handlerWorld \<Rightarrow> Server \<Rightarrow> Msg \<Rightarrow> int list \<Rightarrow> srv_effect list \<times> Server" where
  "handle w s m fds =
     (if m_Type m = TypeCopy then handleCopy w s m fds
      else if m_Type m = TypeSSHAccept then handleSSHAccept w s m fds
      else if m_Type m = TypeTLSAccept then handleTLSAccept w s m fds
      else if m_Type m = TypeConsoleAccept then handleConsoleAccept w s m fds
      else if m_Type m = TypeAgentAccept then handleAgentAccept w s m fds
      else if m_Type m = TypeRDPAccept then handleRDPAccept w s m fds
      else if m_Type m = TypeDesktopAccept then handleDesktopAccept w s m fds
      else if m_Type m = TypeListenForward then
        let (effs, s) = handleListenForward w s m in (CloseFDs fds @ effs, s)
      else if m_Type m = TypeStop then
        (case Stop (m_ID m) (srv_fwd s) of
           (Some e, fm) \<Rightarrow> (CloseFDs fds @ [Reply (Err (m_ID m) e)], s\<lparr>srv_fwd := fm\<rparr>)
         | (None, fm) \<Rightarrow> (CloseFDs fds @ [Reply (OK (m_ID m))], s\<lparr>srv_fwd := fm\<rparr>))
      else if m_Type m = TypeStatus then (CloseFDs fds @ [Reply (statusMsg s m)], s)
      else (CloseFDs fds @ [Reply (Err (m_ID m) (''unknown request type '' @ m_Type m))], s))"

text \<open>
  A connection over TLS that turns out to be for the console or the agent is admitted in the same way
  (\<open>serveTLSConsole\<close>, \<open>serveTLSAgent\<close>).
\<close>

definition admitTLS :: "bool \<Rightarrow> string \<Rightarrow> Server \<Rightarrow> (int + unit) \<times> Server" where
  "admitTLS agent host s =
     (if \<not> pc_Enabled (pg_Console (srv_cfg s)) then (Inl 404, s)
      else case acquireConsole (if agent then agentHostKey host else host) s of
             (False, s) \<Rightarrow> (Inl 503, s)
           | (True, s) \<Rightarrow> (Inr (), s))"

section \<open>The running server\<close>

text \<open>
  The goroutines of the server, each with whether it has entered the registry. A terminator enters it
  when its relay starts; a console, agent or desktop session as soon as it runs, and it gives back its
  slot when it ends; a copy is entered by its handler.
\<close>

record running =
  rn_srv :: Server
  rn_sessions :: "(session \<times> bool) list"

fun session_id :: "session \<Rightarrow> string" where
  "session_id (CopySession i _ _) = i"
| "session_id (SSHSession i _) = i"
| "session_id (TLSSession i _) = i"
| "session_id (RDPSession i _) = i"
| "session_id (ConsoleSession i _ _ _) = i"
| "session_id (AgentSession i _ _ _) = i"
| "session_id (DesktopSession i _ _ _) = i"

fun slot :: "session \<Rightarrow> string option" where
  "slot (ConsoleSession _ m _ _) = Some (m_Host m)"
| "slot (AgentSession _ m _ _) = Some (agentHostKey (m_Host m))"
| "slot (DesktopSession _ m _ _) = Some (m_Host m)"
| "slot _ = None"

fun starts_entered :: "session \<Rightarrow> bool" where
  "starts_entered (CopySession _ _ _) = True"
| "starts_entered _ = False"

definition spawned :: "srv_effect list \<Rightarrow> session list" where
  "spawned effs = concat (map (\<lambda>e. case e of Spawn x \<Rightarrow> [x] | _ \<Rightarrow> []) effs)"

definition leaveServer :: "session \<Rightarrow> bool \<Rightarrow> Server \<Rightarrow> Server" where
  "leaveServer x entered s =
     (let s = (if entered then s\<lparr>srv_reg := Done (session_id x) (srv_reg s)\<rparr> else s) in
      case slot x of None \<Rightarrow> s | Some h \<Rightarrow> releaseConsole h s)"

inductive srv_step :: "running \<Rightarrow> running \<Rightarrow> bool" where
  request: "handle w (rn_srv r) m fds = (effs, s) \<Longrightarrow>
     \<forall>x\<in>set (spawned effs). session_id x \<notin> session_id ` fst ` set (rn_sessions r) \<Longrightarrow>
     srv_step r \<lparr>rn_srv = s, rn_sessions = map (\<lambda>x. (x, starts_entered x)) (spawned effs) @ rn_sessions r\<rparr>"
| enter: "rn_sessions r = xs @ (x, False) # ys \<Longrightarrow>
     srv_step r \<lparr>rn_srv = (rn_srv r)\<lparr>srv_reg := Add (session_id x) (srv_reg (rn_srv r))\<rparr>,
                 rn_sessions = xs @ (x, True) # ys\<rparr>"
| admit: "rn_sessions r = xs @ (TLSSession ident fd, False) # ys \<Longrightarrow>
     admitTLS agent (m_Host m) (rn_srv r) = (Inr (), s) \<Longrightarrow>
     srv_step r \<lparr>rn_srv = s,
                 rn_sessions = xs @ ((if agent then AgentSession else ConsoleSession) ident m fd pipelined, False) # ys\<rparr>"
| finish: "rn_sessions r = xs @ (x, entered) # ys \<Longrightarrow>
     srv_step r \<lparr>rn_srv = leaveServer x entered (rn_srv r), rn_sessions = xs @ ys\<rparr>"
| drain: "srv_step r (r\<lparr>rn_srv := (rn_srv r)\<lparr>srv_reg := SetDraining (srv_reg (rn_srv r))\<rparr>\<rparr>)"

inductive_cases srv_stepE: "srv_step r r'"

definition srv_reachable :: "PipeConfig \<Rightarrow> running \<Rightarrow> bool" where
  "srv_reachable cfg r \<longleftrightarrow> srv_step\<^sup>*\<^sup>* \<lparr>rn_srv = NewServer cfg, rn_sessions = []\<rparr> r"

section \<open>Descriptors and replies\<close>

text \<open>
  The descriptors an effect uses up, the connections it opens, and those it gives to a session or closes.
\<close>

fun consumed :: "srv_effect \<Rightarrow> int list" where
  "consumed (CloseFD fd) = [fd]"
| "consumed (Adopt fd _) = [fd]"
| "consumed _ = []"

fun opened :: "srv_effect \<Rightarrow> int list" where
  "opened (Adopt fd True) = [fd]"
| "opened _ = []"

fun session_conns :: "session \<Rightarrow> int list" where
  "session_conns (CopySession _ c b) = [c, b]"
| "session_conns (SSHSession _ fd) = [fd]"
| "session_conns (TLSSession _ fd) = [fd]"
| "session_conns (RDPSession _ fd) = [fd]"
| "session_conns (ConsoleSession _ _ fd _) = [fd]"
| "session_conns (AgentSession _ _ fd _) = [fd]"
| "session_conns (DesktopSession _ _ fd _) = [fd]"

fun settled :: "srv_effect \<Rightarrow> int list" where
  "settled (CloseConn fd) = [fd]"
| "settled (Spawn x) = session_conns x"
| "settled _ = []"

fun replies :: "srv_effect \<Rightarrow> Msg list" where
  "replies (Reply m) = [m]"
| "replies _ = []"

definition accounted :: "int list \<Rightarrow> srv_effect list \<Rightarrow> bool" where
  "accounted fds effs \<longleftrightarrow> concat (map consumed effs) = fds \<and>
     concat (map opened effs) = concat (map settled effs) \<and> length (concat (map replies effs)) = 1"

lemma concat_CloseFDs [simp]:
  "concat (map consumed (CloseFDs fds)) = fds" "concat (map opened (CloseFDs fds)) = []"
  "concat (map settled (CloseFDs fds)) = []" "concat (map replies (CloseFDs fds)) = []"
  "spawned (CloseFDs fds) = []"
  by (induction fds) (simp_all add: CloseFDs_def spawned_def)

lemma accounted_refusal: "accounted fds (CloseFDs fds @ [Reply m])"
  by (simp add: accounted_def)

lemma accounted_handleCopy: "accounted fds (fst (handleCopy w s m fds))"
  by (auto simp: handleCopy_def accounted_refusal Let_def split: list.split option.split)
     (auto simp: accounted_def)

lemma accounted_acceptOne:
  assumes "\<And>i fd. session_conns (session i fd) = [fd]"
  shows "accounted fds (fst (acceptOne name enabled disabled session w s m fds))"
  by (auto simp: acceptOne_def accounted_refusal split: list.split option.split)
     (auto simp: accounted_def assms)

lemma accounted_acceptSession:
  assumes "\<And>i m fd p. session_conns (session i m fd p) = [fd]"
  shows "accounted fds (fst (acceptSession name enabled disabled key tooMany session w s m fds))"
  by (auto simp: acceptSession_def accounted_refusal split: list.split option.split prod.split bool.split)
     (auto simp: accounted_def assms)

lemma accounted_listen: "handleListenForward w s m = (effs, s') \<Longrightarrow> accounted fds (CloseFDs fds @ effs)"
  by (auto simp: handleListenForward_def accounted_def Let_def split: sum.splits)

lemmas accept_handlers = handleSSHAccept_def handleTLSAccept_def handleRDPAccept_def handleConsoleAccept_def
  handleAgentAccept_def handleDesktopAccept_def

text \<open>
  Property C19. Whatever \<open>dproxy\<close> asks for and whatever fails, the descriptors that came with the
  request are used up, each exactly once and in order (closed, or handed to \<open>FileConn\<close>); every connection
  that comes out is given to exactly one session or closed exactly once; and exactly one reply is sent.
\<close>

theorem handle_accounted: "accounted fds (fst (handle w s m fds))"
  by (auto simp: handle_def accept_handlers accounted_handleCopy accounted_acceptOne accounted_acceptSession
      accounted_refusal intro: accounted_listen split: prod.split option.split)

section \<open>The limit on sessions and the drain\<close>

text \<open>A request adds at most one session, never while draining, and the session's slot was counted.\<close>

definition holders :: "string \<Rightarrow> session list \<Rightarrow> nat" where
  "holders h xs = length (filter (\<lambda>x. slot x = Some h) xs)"

definition slotCount :: "nat \<Rightarrow> int option" where
  "slotCount n = (if n = 0 then None else Some (int n))"

lemma slotCount_simps [simp]: "slotCount 0 = None" "slotCount (Suc n) = Some (int n + 1)"
  by (simp_all add: slotCount_def)

definition slots_ok :: "Server \<Rightarrow> session list \<Rightarrow> bool" where
  "slots_ok s xs \<longleftrightarrow> (\<forall>h. srv_consoles s h = slotCount (holders h xs) \<and>
     int (holders h xs) \<le> maxPerHost (pg_Console (srv_cfg s)))"

lemma maxPerHost_pos: "maxPerHost c > 0"
  by (simp add: maxPerHost_def defaultConsoleMaxPerHost_def)

lemma holders_simps [simp]:
  "holders h [] = 0" "holders h (x # xs) = (if slot x = Some h then 1 else 0) + holders h xs"
  by (simp_all add: holders_def)

lemma slots_count: "slots_ok s xs \<Longrightarrow> consoleCount h s = int (holders h xs)"
  by (simp add: slots_ok_def consoleCount_def slotCount_def)

lemma acquireConsole_ok:
  assumes "slots_ok s xs" "acquireConsole h s = (True, s')" "slot x = Some h"
  shows "slots_ok s' (x # xs)" "srv_cfg s' = srv_cfg s" "srv_reg s' = srv_reg s" "srv_fwd s' = srv_fwd s"
  using assms slots_count [OF assms(1), of h]
  by (auto simp: acquireConsole_def slots_ok_def split: if_splits)

lemma acquireConsole_refused: "acquireConsole h s = (False, s') \<Longrightarrow> s' = s"
  by (auto simp: acquireConsole_def split: if_splits)

lemma releaseConsole_ok:
  assumes "slots_ok s (x # xs)" "slot x = Some h"
  shows "slots_ok (releaseConsole h s) xs"
proof -
  have b: "int (holders k (x # xs)) \<le> maxPerHost (pg_Console (srv_cfg s))"
    "srv_consoles s k = slotCount (holders k (x # xs))" for k
    using assms(1) by (simp_all add: slots_ok_def)
  have "int (holders k xs) \<le> maxPerHost (pg_Console (srv_cfg s))" for k
    using b(1) [of k] by (simp split: if_splits)
  moreover have "srv_consoles s k = slotCount (holders k xs)" if "k \<noteq> h" for k
    using b(2) [of k] assms(2) that by simp
  ultimately show ?thesis
    using assms slots_count [OF assms(1), of h] by (auto simp: releaseConsole_def Let_def slots_ok_def slotCount_def)
qed

lemma slots_ok_perm: "mset xs = mset ys \<Longrightarrow> slots_ok s xs = slots_ok s ys"
proof -
  assume "mset xs = mset ys"
  then have "mset (filter P xs) = mset (filter P ys)" for P by simp
  then have "holders h xs = holders h ys" for h unfolding holders_def by (metis size_mset)
  then show ?thesis by (simp add: slots_ok_def)
qed

lemma slots_ok_free: "slot x = None \<Longrightarrow> slots_ok s (x # xs) = slots_ok s xs"
  by (simp add: slots_ok_def)

lemma slots_ok_state:
  "slots_ok s xs \<Longrightarrow> srv_consoles s' = srv_consoles s \<Longrightarrow> srv_cfg s' = srv_cfg s \<Longrightarrow> slots_ok s' xs"
  by (simp add: slots_ok_def)

lemma slots_ok_reg [simp]: "slots_ok (s\<lparr>srv_reg := g\<rparr>) xs = slots_ok s xs"
  by (simp add: slots_ok_def)

definition admitted :: "Server \<Rightarrow> srv_effect list \<Rightarrow> Server \<Rightarrow> bool" where
  "admitted s effs s' \<longleftrightarrow> srv_cfg s' = srv_cfg s \<and>
     (spawned effs = [] \<and> srv_consoles s' = srv_consoles s \<and> srv_reg s' = srv_reg s \<or>
      (\<exists>x. spawned effs = [x] \<and> \<not> rg_draining (srv_reg s) \<and>
         srv_reg s' = (if starts_entered x then Add (session_id x) (srv_reg s) else srv_reg s) \<and>
         (case slot x of None \<Rightarrow> srv_consoles s' = srv_consoles s | Some h \<Rightarrow> acquireConsole h s = (True, s'))))"

lemma spawned_simps [simp]:
  "spawned [] = []" "spawned (Spawn x # es) = x # spawned es" "spawned (xs @ ys) = spawned xs @ spawned ys"
  "spawned (CloseFD fd # es) = spawned es" "spawned (Adopt fd b # es) = spawned es"
  "spawned (CloseConn fd # es) = spawned es" "spawned (Refuse fd c # es) = spawned es"
  "spawned (Reply m # es) = spawned es"
  by (simp_all add: spawned_def)

lemma admitted_same: "spawned effs = [] \<Longrightarrow> admitted s effs s"
  by (simp add: admitted_def)

lemma admitted_handleCopy: "handleCopy w s m fds = (effs, s') \<Longrightarrow> admitted s effs s'"
  by (auto simp: handleCopy_def admitted_def Let_def split: list.splits option.splits if_splits)

lemma admitted_acceptOne:
  assumes "acceptOne name enabled disabled session w s m fds = (effs, s')"
    and "\<And>i fd. slot (session i fd) = None \<and> \<not> starts_entered (session i fd)"
  shows "admitted s effs s'"
  using assms(1) by (auto simp: acceptOne_def admitted_def assms(2) split: list.splits option.splits if_splits)

lemma acquireConsole_cfg: "acquireConsole h s = (b, s') \<Longrightarrow> srv_cfg s' = srv_cfg s \<and> srv_reg s' = srv_reg s"
  by (auto simp: acquireConsole_def split: if_splits)

lemma admitted_acceptSession:
  assumes "acceptSession name enabled disabled key tooMany session w s m fds = (effs, s')"
    and "\<And>i m fd p. slot (session i m fd p) = Some (key (m_Host m)) \<and> \<not> starts_entered (session i m fd p)"
  shows "admitted s effs s'"
  using assms(1)
  by (auto simp: acceptSession_def assms(2) intro!: admitted_same dest: acquireConsole_refused
      split: list.splits option.splits if_splits prod.splits bool.splits)
     (auto simp: admitted_def assms(2) dest: acquireConsole_cfg)

lemma admitted_listen: "handleListenForward w s m = (effs, s') \<Longrightarrow> admitted s (CloseFDs fds @ effs) s'"
  by (auto simp: handleListenForward_def admitted_def Let_def split: sum.splits)

lemma admitted_forwards: "spawned effs = [] \<Longrightarrow> admitted s effs (s\<lparr>srv_fwd := fm\<rparr>)"
  by (simp add: admitted_def)

lemma admitted_handle:
  assumes "handle w s m fds = (effs, s')"
  shows "admitted s effs s'"
proof -
  have stop: "(case Stop (m_ID m) (srv_fwd s) of
           (Some e, fm) \<Rightarrow> (CloseFDs fds @ [Reply (Err (m_ID m) e)], s\<lparr>srv_fwd := fm\<rparr>)
         | (None, fm) \<Rightarrow> (CloseFDs fds @ [Reply (OK (m_ID m))], s\<lparr>srv_fwd := fm\<rparr>)) = (effs, s') \<Longrightarrow> ?thesis"
    by (auto intro!: admitted_forwards split: prod.splits option.splits)
  have one: "acceptOne n e d session w s m fds = (effs, s') \<Longrightarrow>
      session \<in> {SSHSession, TLSSession, RDPSession} \<Longrightarrow> ?thesis" for n e d session
    by (erule admitted_acceptOne) auto
  show ?thesis
    using assms stop
    by (auto simp: handle_def accept_handlers intro: admitted_handleCopy one admitted_acceptSession admitted_listen
        admitted_same split: if_splits prod.splits)
qed

definition entered_ids :: "(session \<times> bool) list \<Rightarrow> string set" where
  "entered_ids xs = session_id ` fst ` {p \<in> set xs. snd p}"

definition running_inv :: "PipeConfig \<Rightarrow> running \<Rightarrow> bool" where
  "running_inv cfg r \<longleftrightarrow> srv_cfg (rn_srv r) = cfg \<and> slots_ok (rn_srv r) (map fst (rn_sessions r)) \<and>
     distinct (map (session_id \<circ> fst) (rn_sessions r)) \<and>
     rg_active (srv_reg (rn_srv r)) = entered_ids (rn_sessions r)"

lemma entered_ids_simps [simp]:
  "entered_ids [] = {}"
  "entered_ids ((x, b) # xs) = (if b then {session_id x} else {}) \<union> entered_ids xs"
  "entered_ids (xs @ ys) = entered_ids xs \<union> entered_ids ys"
  by (force simp: entered_ids_def)+

lemma entered_ids_subset: "entered_ids xs \<subseteq> set (map (session_id \<circ> fst) xs)"
  by (auto simp: entered_ids_def)

lemma Add_active [simp]: "rg_active (Add i g) = insert i (rg_active g)" "rg_draining (Add i g) = rg_draining g"
  by (simp_all add: Add_def)

lemma closeChans_active [simp]:
  "rg_active (fold closeChan cs g) = rg_active g" "rg_draining (fold closeChan cs g) = rg_draining g"
  by (induction cs arbitrary: g) (simp_all add: closeChan_def)

lemma Done_active [simp]: "rg_active (Done i g) = rg_active g - {i}" "rg_draining (Done i g) = rg_draining g"
  by (simp_all add: Done_def Let_def)

lemma SetDraining_active [simp]: "rg_active (SetDraining g) = rg_active g" "rg_draining (SetDraining g)"
  by (simp_all add: SetDraining_def)

lemma releaseConsole_frame [simp]:
  "srv_cfg (releaseConsole h s) = srv_cfg s" "srv_reg (releaseConsole h s) = srv_reg s"
  by (simp_all add: releaseConsole_def Let_def)

lemma leaveServer_frame [simp]:
  "srv_cfg (leaveServer x b s) = srv_cfg s"
  "srv_reg (leaveServer x b s) = (if b then Done (session_id x) (srv_reg s) else srv_reg s)"
  by (simp_all add: leaveServer_def Let_def split: option.split)

lemma slots_ok_leave: "slots_ok s (x # xs) \<Longrightarrow> slots_ok (leaveServer x b s) xs"
  by (cases "slot x") (auto simp: leaveServer_def Let_def slots_ok_free intro: releaseConsole_ok)

lemma running_inv_request:
  assumes "running_inv cfg r" "handle w (rn_srv r) m fds = (effs, s)"
    and "\<forall>x\<in>set (spawned effs). session_id x \<notin> session_id ` fst ` set (rn_sessions r)"
  shows "running_inv cfg \<lparr>rn_srv = s, rn_sessions = map (\<lambda>x. (x, starts_entered x)) (spawned effs) @ rn_sessions r\<rparr>"
proof -
  note a = admitted_handle [OF assms(2)]
  show ?thesis
  proof (cases "spawned effs")
    case Nil
    with a have "srv_consoles s = srv_consoles (rn_srv r)" "srv_cfg s = srv_cfg (rn_srv r)" "srv_reg s = srv_reg (rn_srv r)"
      by (auto simp: admitted_def)
    with Nil assms(1) show ?thesis by (auto simp: running_inv_def intro: slots_ok_state)
  next
    case (Cons x ys)
    with a have x: "spawned effs = [x]" "srv_cfg s = srv_cfg (rn_srv r)"
      "srv_reg s = (if starts_entered x then Add (session_id x) (srv_reg (rn_srv r)) else srv_reg (rn_srv r))"
      "case slot x of None \<Rightarrow> srv_consoles s = srv_consoles (rn_srv r) | Some h \<Rightarrow> acquireConsole h (rn_srv r) = (True, s)"
      by (auto simp: admitted_def)
    from assms(1) have before: "slots_ok (rn_srv r) (map fst (rn_sessions r))" by (simp add: running_inv_def)
    have "slots_ok s (x # map fst (rn_sessions r))"
    proof (cases "slot x")
      case None
      with x(2,4) slots_ok_state [OF before] show ?thesis by (simp add: slots_ok_free)
    next
      case (Some h)
      with x(4) acquireConsole_ok(1) [OF before _ Some] show ?thesis by simp
    qed
    with x assms show ?thesis by (auto simp: running_inv_def image_image)
  qed
qed

lemma running_inv_admit:
  assumes "running_inv cfg r" "rn_sessions r = xs @ (TLSSession ident fd, False) # ys"
    and "admitTLS agent (m_Host m) (rn_srv r) = (Inr (), s)"
  shows "running_inv cfg \<lparr>rn_srv = s,
    rn_sessions = xs @ ((if agent then AgentSession else ConsoleSession) ident m fd pipelined, False) # ys\<rparr>"
proof -
  let ?x = "(if agent then AgentSession else ConsoleSession) ident m fd pipelined"
  let ?rest = "map fst xs @ map fst ys"
  have "slots_ok (rn_srv r) (TLSSession ident fd # ?rest)"
    using assms(1,2) by (subst slots_ok_perm [of _ "map fst (rn_sessions r)"]) (simp_all add: running_inv_def)
  then have "slots_ok (rn_srv r) ?rest" by (simp add: slots_ok_free)
  moreover have a: "acquireConsole (if agent then agentHostKey (m_Host m) else m_Host m) (rn_srv r) = (True, s)"
    using assms(3) by (auto simp: admitTLS_def split: if_splits prod.splits bool.splits)
  ultimately have "slots_ok s (?x # ?rest)" by (rule acquireConsole_ok) simp
  then have "slots_ok s (map fst (xs @ (?x, False) # ys))" by (subst slots_ok_perm [of _ "?x # ?rest"]) simp_all
  with assms(1,2) acquireConsole_cfg [OF a] show ?thesis by (auto simp: running_inv_def image_iff)
qed

lemma running_inv_finish:
  assumes "running_inv cfg r" "rn_sessions r = xs @ (x, entered) # ys"
  shows "running_inv cfg \<lparr>rn_srv = leaveServer x entered (rn_srv r), rn_sessions = xs @ ys\<rparr>"
proof -
  have "slots_ok (rn_srv r) (x # map fst xs @ map fst ys)"
    using assms by (subst slots_ok_perm [of _ "map fst (rn_sessions r)"]) (simp_all add: running_inv_def)
  from slots_ok_leave [OF this] have "slots_ok (leaveServer x entered (rn_srv r)) (map fst (xs @ ys))" by simp
  moreover have "session_id x \<notin> entered_ids (xs @ ys)"
    using assms entered_ids_subset [of "xs @ ys"] by (auto simp: running_inv_def)
  ultimately show ?thesis using assms by (auto simp: running_inv_def)
qed

lemma running_inv_enter:
  assumes "running_inv cfg r" "rn_sessions r = xs @ (x, False) # ys"
  shows "running_inv cfg \<lparr>rn_srv = (rn_srv r)\<lparr>srv_reg := Add (session_id x) (srv_reg (rn_srv r))\<rparr>,
    rn_sessions = xs @ (x, True) # ys\<rparr>"
  using assms by (auto simp: running_inv_def)

lemma running_inv_drain:
  "running_inv cfg r \<Longrightarrow> running_inv cfg (r\<lparr>rn_srv := (rn_srv r)\<lparr>srv_reg := SetDraining (srv_reg (rn_srv r))\<rparr>\<rparr>)"
  by (simp add: running_inv_def)

lemma running_inv_step: "srv_step r r' \<Longrightarrow> running_inv cfg r \<Longrightarrow> running_inv cfg r'"
  by (erule srv_stepE)
     (blast intro: running_inv_request running_inv_enter running_inv_admit running_inv_finish running_inv_drain)+

lemma running_inv_init: "running_inv cfg \<lparr>rn_srv = NewServer cfg, rn_sessions = []\<rparr>"
  using maxPerHost_pos [of "pg_Console cfg"]
  by (simp add: running_inv_def NewServer_def slots_ok_def NewRegistry_def)

lemma running_inv_reachable: "srv_reachable cfg r \<Longrightarrow> running_inv cfg r"
  unfolding srv_reachable_def
  by (induction rule: rtranclp_induct) (auto intro: running_inv_init running_inv_step)

text \<open>
  Further result. In every reachable state a machine has at most \<open>maxPerHost\<close> live sessions of one kind
  of slot (console and desktop sessions share one, agent sessions have their own), the counter of a slot
  is the number of sessions that hold it, and a machine without sessions has no counter, so that no slot
  is ever lost.
\<close>

theorem console_slots:
  assumes "srv_reachable cfg r"
  shows "int (holders h (map fst (rn_sessions r))) \<le> maxPerHost (pg_Console cfg) \<and>
    srv_consoles (rn_srv r) h = slotCount (holders h (map fst (rn_sessions r)))"
  using running_inv_reachable [OF assms] by (auto simp: running_inv_def slots_ok_def)

lemma spawned_draining:
  "handle w s m fds = (effs, s') \<Longrightarrow> rg_draining (srv_reg s) \<Longrightarrow> spawned effs = []"
  by (drule admitted_handle) (auto simp: admitted_def)

lemma srv_step_draining:
  assumes "srv_step r r'" "rg_draining (srv_reg (rn_srv r))"
  shows "length (rn_sessions r') \<le> length (rn_sessions r)" "rg_draining (srv_reg (rn_srv r'))"
    "session_id ` fst ` set (rn_sessions r') \<subseteq> session_id ` fst ` set (rn_sessions r)"
proof -
  have "length (rn_sessions r') \<le> length (rn_sessions r) \<and> rg_draining (srv_reg (rn_srv r')) \<and>
      session_id ` fst ` set (rn_sessions r') \<subseteq> session_id ` fst ` set (rn_sessions r)"
    using assms(1)
  proof (cases rule: srv_step.cases)
    case (request w m fds effs s)
    with spawned_draining [OF request(2) assms(2)] admitted_handle [OF request(2)] assms(2) show ?thesis
      by (auto simp: admitted_def)
  next
    case (admit xs ident fd ys agent m s pipelined)
    then obtain h where "acquireConsole h (rn_srv r) = (True, s)"
      by (auto simp: admitTLS_def split: if_splits prod.splits bool.splits)
    from acquireConsole_cfg [OF this] admit assms(2) show ?thesis by auto
  qed (use assms(2) in auto)
  then show "length (rn_sessions r') \<le> length (rn_sessions r)" "rg_draining (srv_reg (rn_srv r'))"
    "session_id ` fst ` set (rn_sessions r') \<subseteq> session_id ` fst ` set (rn_sessions r)" by auto
qed

lemma waits_for_entered:
  assumes "running_inv cfg r"
  shows "fst (WaitZero (srv_reg (rn_srv r))) = None \<longleftrightarrow> (\<forall>p\<in>set (rn_sessions r). \<not> snd p)"
proof -
  have "entered_ids xs = {} \<longleftrightarrow> (\<forall>p\<in>set xs. \<not> snd p)" for xs
    unfolding entered_ids_def image_is_empty by blast
  with assms show ?thesis by (simp add: WaitZero_def running_inv_def)
qed

text \<open>
  Further result. Once the server drains it starts no session any more, whatever requests still arrive: the
  sessions that run later are among those that ran when the drain began, and the drain is over at once
  exactly when no session is in the registry.
\<close>

theorem drain_admits_nothing:
  assumes "srv_reachable cfg r" "rg_draining (srv_reg (rn_srv r))" "srv_step\<^sup>*\<^sup>* r r'"
  shows "session_id ` fst ` set (rn_sessions r') \<subseteq> session_id ` fst ` set (rn_sessions r) \<and>
    (fst (WaitZero (srv_reg (rn_srv r'))) = None \<longleftrightarrow> (\<forall>p\<in>set (rn_sessions r'). \<not> snd p))"
proof -
  from assms(3,2) have "rg_draining (srv_reg (rn_srv r')) \<and>
      session_id ` fst ` set (rn_sessions r') \<subseteq> session_id ` fst ` set (rn_sessions r)"
  proof (induction rule: rtranclp_induct)
    case (step a b)
    then show ?case using srv_step_draining [of a b] by (meson order_trans)
  qed simp
  moreover from assms(1,3) have "srv_reachable cfg r'" by (simp add: srv_reachable_def)
  ultimately show ?thesis using waits_for_entered running_inv_reachable by blast
qed

text \<open>A console session of the example configuration, and the server draining around it.\<close>

definition example_handlerWorld :: handlerWorld where
  "example_handlerWorld = \<lparr>hw_fileConn = (\<lambda>_. None), hw_newID = ''fresh'', hw_listen = (\<lambda>_. Inr 3)\<rparr>"

definition example_consoleMsg :: Msg where
  "example_consoleMsg = zeroMsg\<lparr>m_V := 1, m_Type := TypeConsoleAccept, m_ID := ''c1'', m_Host := ''vm''\<rparr>"

definition example_server :: running where
  "example_server =
     (let (effs, s) = handle example_handlerWorld (NewServer example_pipe) example_consoleMsg [7] in
      \<lparr>rn_srv = s, rn_sessions = map (\<lambda>x. (x, starts_entered x)) (spawned effs) @ []\<rparr>)"

lemma example_server_reachable: "srv_reachable example_pipe example_server"
proof -
  obtain effs s where h: "handle example_handlerWorld (NewServer example_pipe) example_consoleMsg [7] = (effs, s)"
    by (metis surj_pair)
  have "srv_step \<lparr>rn_srv = NewServer example_pipe, rn_sessions = []\<rparr> example_server"
    unfolding example_server_def h Let_def prod.case
    using srv_step.request [of example_handlerWorld "\<lparr>rn_srv = NewServer example_pipe, rn_sessions = []\<rparr>"] h by simp
  then show ?thesis unfolding srv_reachable_def by (rule r_into_rtranclp)
qed

lemma example_server_sessions:
  "map fst (rn_sessions example_server) = [ConsoleSession ''c1'' example_consoleMsg 7 []]"
  by code_simp

theorem console_slots_witness:
  "int (holders ''vm'' [ConsoleSession ''c1'' example_consoleMsg 7 []]) \<le> maxPerHost (pg_Console example_pipe) \<and>
   srv_consoles (rn_srv example_server) ''vm'' = slotCount (Suc 0)"
  using console_slots [OF example_server_reachable, of "''vm''"]
  by (simp add: example_server_sessions example_consoleMsg_def)

definition example_draining :: running where
  "example_draining = example_server\<lparr>rn_srv := (rn_srv example_server)\<lparr>srv_reg :=
     SetDraining (srv_reg (rn_srv example_server))\<rparr>\<rparr>"

theorem drain_admits_nothing_witness:
  "session_id ` fst ` set (rn_sessions example_draining) \<subseteq> {''c1''} \<and>
   (fst (WaitZero (srv_reg (rn_srv example_draining))) = None \<longleftrightarrow> (\<forall>p\<in>set (rn_sessions example_draining). \<not> snd p))"
proof -
  have "srv_step example_server example_draining" unfolding example_draining_def by (rule srv_step.drain)
  with example_server_reachable have "srv_reachable example_pipe example_draining"
    by (simp add: srv_reachable_def)
  from drain_admits_nothing [OF this, of example_draining]
  have "session_id ` fst ` set (rn_sessions example_draining) \<subseteq> session_id ` set (map fst (rn_sessions example_server)) \<and>
   (fst (WaitZero (srv_reg (rn_srv example_draining))) = None \<longleftrightarrow> (\<forall>p\<in>set (rn_sessions example_draining). \<not> snd p))"
    by (simp add: example_draining_def)
  then show ?thesis unfolding example_server_sessions by simp
qed

end
