(* ===== verification/Dataplane.thy ===== *)
theory Dataplane
  imports Proxy_Ingress Dpipe_Server
begin

text \<open>
  The two processes of the data plane together: what \<open>dproxy\<close> hands over
  (\<open>backstage/dproxy/internal/proxy/proxy.go\<close>, \<open>handoff.go\<close>, \<open>client.go\<close>) is what \<open>dpipe\<close> serves
  (\<open>backstage/dpipe/internal/dpipe/server.go\<close>).
\<close>

section \<open>What the ingress hands over\<close>

definition ingress :: "world \<Rightarrow> Proxy \<Rightarrow> reads \<Rightarrow> TCPRoute \<Rightarrow> Proxy_Ingress.effect list \<Rightarrow> bool" where
  "ingress w p reads route es \<longleftrightarrow> handleHTTP w p reads = Some es \<or>
     es \<in> {handleTCP w route, handleHTTPS w, handleSSH w, handleRDP w}"

definition sessionTypes :: "string set" where
  "sessionTypes = {TypeConsoleAccept, TypeAgentAccept, TypeDesktopAccept}"

text \<open>
  A handoff is a copy with both connections, a raw connection for a terminator, or an authorized upgrade
  with the bytes the client sent after its header block.
\<close>

definition handoff_form :: "world \<Rightarrow> Proxy \<Rightarrow> reads \<Rightarrow> Msg \<Rightarrow> conn_end list \<Rightarrow> bool" where
  "handoff_form w p reads m ends \<longleftrightarrow>
     m_ID m = w_id w \<and> m_Type m = TypeCopy \<and> ends = [ClientEnd, BackendEnd] \<or>
     m_ID m = w_id w \<and> m_Type m \<in> {TypeTLSAccept, TypeSSHAccept, TypeRDPAccept} \<and> ends = [ClientEnd] \<or>
     m_ID m = w_sessionID w \<and> m_Type m \<in> sessionTypes \<and> ends = [ClientEnd] \<and>
     (\<exists>prefix host. ReadHeaderBlock reads (HTTPSniffMaxBytes (px_cfg p)) = Some (prefix, Inr host) \<and>
        m_Prefix m = std_encode (pipelinedBytes prefix) \<and> length (pipelinedBytes prefix) \<le> MaxConsolePrefix)"

lemma session_handoff:
  assumes "Handoff m ends \<in> set (handleSession w p k host vmHost prefix)"
  shows "ends = [ClientEnd] \<and> m_ID m = w_sessionID w \<and> m_Type m = sk_acceptType k \<and>
    m_Prefix m = std_encode (pipelinedBytes prefix) \<and> length (pipelinedBytes prefix) \<le> MaxConsolePrefix"
  using assms by (auto simp: handleSession_def sessionMsg_def Let_def split: option.splits if_splits)

lemma kind_types:
  "desktopKind d = Some k \<Longrightarrow> sk_acceptType k \<in> sessionTypes"
  "consoleHostKind cc req = Some k \<Longrightarrow> sk_acceptType k \<in> sessionTypes"
  by (auto simp: desktopKind_def consoleHostKind_def consoleKind_def agentKind_def sessionTypes_def
      split: option.splits if_splits)

lemma route_handoff:
  assumes "Handoff m ends \<in> set (routeHTTP w p host prefix)"
  shows "m = copyMsg (w_id w) ProtoHTTP \<and> ends = [ClientEnd, BackendEnd] \<or>
    (\<exists>k vmHost. sk_acceptType k \<in> sessionTypes \<and> Handoff m ends \<in> set (handleSession w p k host vmHost prefix))"
  using assms kind_types
  by (auto simp: routeHTTP_def handleDesktop_def handleConsole_def Let_def pipeTo_def handoffCopy_def
      split: option.splits if_splits)

lemma ingress_handoff:
  assumes "ingress w p reads route es" "Handoff m ends \<in> set es"
  shows "handoff_form w p reads m ends"
proof (cases "handleHTTP w p reads = Some es")
  case True
  then show ?thesis
  proof (cases rule: handleHTTP_SomeE)
    case refused
    with assms(2) show ?thesis by simp
  next
    case (routed prefix host)
    with route_handoff [of m ends w p host prefix] assms(2) session_handoff routed(1) show ?thesis
      by (fastforce simp: handoff_form_def copyMsg_def)
  qed
next
  case False
  with assms show ?thesis
    by (auto simp: ingress_def handoff_form_def handleTCP_def handoffCopy_def copyMsg_def handleHTTPS_def
        handleSSH_def handleRDP_def handoffAccept_def acceptMsg_def split: if_splits)
qed

section \<open>What is served\<close>

definition enabled :: "PipeConfig \<Rightarrow> string \<Rightarrow> bool" where
  "enabled cfg typ \<longleftrightarrow>
     (if typ = TypeSSHAccept then ps_Enabled (pg_SSH cfg)
      else if typ = TypeTLSAccept then pt_Enabled (pg_TLS cfg)
      else if typ \<in> {TypeRDPAccept, TypeDesktopAccept} then pr_Enabled (pg_RDP cfg)
      else if typ \<in> {TypeConsoleAccept, TypeAgentAccept} then pc_Enabled (pg_Console cfg)
      else True)"

fun session_type :: "session \<Rightarrow> string" where
  "session_type (CopySession _ _ _) = TypeCopy"
| "session_type (SSHSession _ _) = TypeSSHAccept"
| "session_type (TLSSession _ _) = TypeTLSAccept"
| "session_type (RDPSession _ _) = TypeRDPAccept"
| "session_type (ConsoleSession _ _ _ _) = TypeConsoleAccept"
| "session_type (AgentSession _ _ _ _) = TypeAgentAccept"
| "session_type (DesktopSession _ _ _ _) = TypeDesktopAccept"

fun session_msg :: "session \<Rightarrow> (Msg \<times> bytes) option" where
  "session_msg (ConsoleSession _ m _ p) = Some (m, p)"
| "session_msg (AgentSession _ m _ p) = Some (m, p)"
| "session_msg (DesktopSession _ m _ p) = Some (m, p)"
| "session_msg _ = None"

definition ready :: "handlerWorld \<Rightarrow> Server \<Rightarrow> int list \<Rightarrow> bool" where
  "ready hw s fds \<longleftrightarrow> \<not> rg_draining (srv_reg s) \<and> (\<forall>fd\<in>set fds. hw_fileConn hw fd = None) \<and>
     (\<forall>h. consoleCount h s < maxPerHost (pg_Console (srv_cfg s)))"

lemmas type_defs = TypeCopy_def TypeSSHAccept_def TypeTLSAccept_def TypeConsoleAccept_def TypeAgentAccept_def
  TypeRDPAccept_def TypeDesktopAccept_def

lemma handle_dispatch:
  "m_Type m = TypeCopy \<Longrightarrow> handle w s m fds = handleCopy w s m fds"
  "m_Type m = TypeSSHAccept \<Longrightarrow> handle w s m fds = handleSSHAccept w s m fds"
  "m_Type m = TypeTLSAccept \<Longrightarrow> handle w s m fds = handleTLSAccept w s m fds"
  "m_Type m = TypeConsoleAccept \<Longrightarrow> handle w s m fds = handleConsoleAccept w s m fds"
  "m_Type m = TypeAgentAccept \<Longrightarrow> handle w s m fds = handleAgentAccept w s m fds"
  "m_Type m = TypeRDPAccept \<Longrightarrow> handle w s m fds = handleRDPAccept w s m fds"
  "m_Type m = TypeDesktopAccept \<Longrightarrow> handle w s m fds = handleDesktopAccept w s m fds"
  by (simp_all add: handle_def type_defs)

lemma enabled_types:
  "enabled cfg TypeSSHAccept = ps_Enabled (pg_SSH cfg)" "enabled cfg TypeTLSAccept = pt_Enabled (pg_TLS cfg)"
  "enabled cfg TypeRDPAccept = pr_Enabled (pg_RDP cfg)" "enabled cfg TypeDesktopAccept = pr_Enabled (pg_RDP cfg)"
  "enabled cfg TypeConsoleAccept = pc_Enabled (pg_Console cfg)" "enabled cfg TypeAgentAccept = pc_Enabled (pg_Console cfg)"
  by (simp_all add: enabled_def type_defs)

lemma serve_copy:
  "ready hw s [a, b] \<Longrightarrow> m_Type m = TypeCopy \<Longrightarrow> m_ID m \<noteq> [] \<Longrightarrow>
     spawned (fst (handle hw s m [a, b])) = [CopySession (m_ID m) a b]"
  by (simp add: handle_dispatch handleCopy_def ready_def msgID_def Let_def)

lemma serve_one:
  assumes "ready hw s [fd]" "m_ID m \<noteq> []"
  shows "spawned (fst (acceptOne name True disabled session hw s m [fd])) = [session (m_ID m) fd]"
  using assms by (simp add: acceptOne_def ready_def msgID_def)

lemma serve_terminator:
  assumes "ready hw s [fd]" "m_Type m \<in> {TypeTLSAccept, TypeSSHAccept, TypeRDPAccept}" "m_ID m \<noteq> []"
    and "enabled (srv_cfg s) (m_Type m)"
  shows "\<exists>session. session \<in> {TLSSession, SSHSession, RDPSession} \<and> session_type (session (m_ID m) fd) = m_Type m \<and>
    spawned (fst (handle hw s m [fd])) = [session (m_ID m) fd]"
  using assms(2,4) serve_one [OF assms(1,3)]
  by (auto simp: handle_dispatch handleTLSAccept_def handleSSHAccept_def handleRDPAccept_def enabled_types)

lemma serve_upgrade:
  assumes "ready hw s [fd]" "m_ID m \<noteq> []" "m_Prefix m = std_encode pipelined" "length pipelined \<le> MaxConsolePrefix"
  shows "spawned (fst (acceptSession name True disabled key tooMany session hw s m [fd])) =
    [session (m_ID m) m fd pipelined]"
proof -
  obtain s' where a: "acquireConsole (key (m_Host m)) s = (True, s')"
    using assms(1) by (auto simp: acquireConsole_def ready_def not_le)
  show ?thesis
    using assms by (simp add: acceptSession_def ready_def msgID_def std_base64.dec_enc a)
qed

lemma serve_session:
  assumes "ready hw s [fd]" "m_Type m \<in> sessionTypes" "m_ID m \<noteq> []" "enabled (srv_cfg s) (m_Type m)"
    and "m_Prefix m = std_encode pipelined" "length pipelined \<le> MaxConsolePrefix"
  shows "\<exists>session. session \<in> {ConsoleSession, AgentSession, DesktopSession} \<and>
    session_type (session (m_ID m) m fd pipelined) = m_Type m \<and>
    spawned (fst (handle hw s m [fd])) = [session (m_ID m) m fd pipelined]"
  using assms(2,4) serve_upgrade [OF assms(1,3,5,6)]
  by (auto simp: sessionTypes_def handle_dispatch handleConsoleAccept_def handleAgentAccept_def handleDesktopAccept_def
      enabled_types)

text \<open>
  Property C16. What \<open>dproxy\<close> hands over, \<open>dpipe\<close> serves: whatever connection an ingress handler hands
  over, a \<open>dpipe\<close> that is not draining, has the terminator enabled and a free slot starts exactly one
  session, of the kind asked for, under the identifier of the message and on exactly the connections
  handed over; for a console, an agent or a desktop the session gets the message itself and the very
  bytes the client had sent after its header block.
\<close>

theorem handoff_served:
  assumes "ingress w p reads route es" "Handoff m ends \<in> set es" "length fds = length ends"
    and "ready hw s fds" "enabled (srv_cfg s) (m_Type m)" "w_id w \<noteq> []" "w_sessionID w \<noteq> []"
  shows "\<exists>x. spawned (fst (handle hw s m fds)) = [x] \<and> session_type x = m_Type m \<and> session_id x = m_ID m \<and>
    session_conns x = fds \<and>
    (\<forall>m' pipelined. session_msg x = Some (m', pipelined) \<longrightarrow> m' = m \<and>
       (\<exists>prefix host. ReadHeaderBlock reads (HTTPSniffMaxBytes (px_cfg p)) = Some (prefix, Inr host) \<and>
          pipelined = pipelinedBytes prefix))"
proof -
  from ingress_handoff [OF assms(1,2)] consider
    (copy) "m_ID m = w_id w" "m_Type m = TypeCopy" "ends = [ClientEnd, BackendEnd]"
  | (raw) "m_ID m = w_id w" "m_Type m \<in> {TypeTLSAccept, TypeSSHAccept, TypeRDPAccept}" "ends = [ClientEnd]"
  | (session) prefix host where "m_ID m = w_sessionID w" "m_Type m \<in> sessionTypes" "ends = [ClientEnd]"
      "ReadHeaderBlock reads (HTTPSniffMaxBytes (px_cfg p)) = Some (prefix, Inr host)"
      "m_Prefix m = std_encode (pipelinedBytes prefix)" "length (pipelinedBytes prefix) \<le> MaxConsolePrefix"
    by (auto simp: handoff_form_def)
  then show ?thesis
  proof cases
    case copy
    with assms(3) obtain a b where fds: "fds = [a, b]" by (auto simp: length_Suc_conv)
    with serve_copy [of hw s a b m] copy assms(4,6) show ?thesis by simp
  next
    case raw
    with assms(3) obtain fd where fds: "fds = [fd]" by (auto simp: length_Suc_conv)
    with serve_terminator [of hw s fd m] raw assms(4-6) show ?thesis by auto
  next
    case session
    with assms(3) obtain fd where fds: "fds = [fd]" by (auto simp: length_Suc_conv)
    with serve_session [of hw s fd m "pipelinedBytes prefix"] session assms(4,5,7) show ?thesis by auto
  qed
qed

lemma example_ready: "ready example_handlerWorld (NewServer example_pipe) fds"
  using maxPerHost_pos
  by (simp add: ready_def example_handlerWorld_def NewServer_def NewRegistry_def consoleCount_def)

theorem handoff_served_witness:
  "\<exists>x. spawned (fst (handle example_handlerWorld (NewServer example_pipe) (copyMsg ''1'' ProtoHTTP) [5, 6])) = [x] \<and>
     session_type x = TypeCopy \<and> session_id x = ''1'' \<and> session_conns x = [5, 6]"
proof -
  let ?w = "example_world example_request"
  have es: "ingress ?w example_proxy example_reads r (pipeTo ?w ''10.0.0.5:8080'' (stream example_reads))" for r
    by (simp add: ingress_def example_route)
  have h: "Handoff (copyMsg ''1'' ProtoHTTP) [ClientEnd, BackendEnd] \<in>
      set (pipeTo ?w ''10.0.0.5:8080'' (stream example_reads))"
    by (simp add: pipeTo_def handoffCopy_def example_world_def)
  have "enabled (srv_cfg (NewServer example_pipe)) (m_Type (copyMsg ''1'' ProtoHTTP))"
    by (simp add: enabled_def copyMsg_def type_defs)
  with handoff_served [OF es h, of "[5, 6]" example_handlerWorld "NewServer example_pipe"] show ?thesis
    by (auto simp: example_ready example_world_def copyMsg_def)
qed

end
