(* ===== verification/Dpipe_Tls.thy ===== *)
theory Dpipe_Tls
  imports Dataplane Control_Conn
begin

text \<open>
  The TLS terminator of \<open>dpipe\<close> (\<open>backstage/dpipe/internal/dpipe/tlsterm.go\<close>), and the first step of the
  console and agent sessions it opens (\<open>serveTLSConsole\<close> there, \<open>serveTLSAgent\<close> in \<open>agent.go\<close>).

  The terminator is the list of its effects, in order, with the server's state for the limit on sessions.
  TLS, the dial and the parser of a request are arguments; deadlines and logging are left out.
\<close>

section \<open>Model\<close>

text \<open>
  \<open>takeDetail\<close> is the closure \<open>take\<close> of \<open>fillAuthDetails\<close>: a value over its own limit or over what is
  left of the budget is dropped as a whole.
\<close>

definition takeDetail :: "string \<Rightarrow> nat \<Rightarrow> nat \<Rightarrow> string \<times> nat" where
  "takeDetail v limit budget =
     (if length v > limit \<or> length v > budget then ([], budget) else (v, budget - length v))"

definition fillAuthDetails :: "Msg \<Rightarrow> request \<Rightarrow> Msg" where
  "fillAuthDetails m req =
     (let h = rq_Header req;
          b0 = MaxResolveDetails;
          (upgrade, b1) = takeDetail (header_get h ''Upgrade'') MaxResolveHeader b0;
          (connection, b2) = takeDetail (header_get h ''Connection'') MaxResolveHeader b1;
          (version, b3) = takeDetail (header_get h ''Sec-Websocket-Version'') MaxResolveHeader b2;
          (key, b4) = takeDetail (header_get h ''Sec-Websocket-Key'') MaxResolveHeader b3;
          (accept, b5) = takeDetail (header_get h ''Accept'') MaxResolveHeader b4;
          (path, b6) = takeDetail (u_RequestURI (rq_URL req)) MaxResolvePath b5;
          (cookies, b7) = takeDetail (join (h ''Cookie'') ''; '') b6 b6
      in m\<lparr>m_Upgrade := upgrade, m_Connection := connection, m_WSVersion := version, m_WSKey := key,
           m_Accept := accept, m_Path := path, m_Cookie := cookies\<rparr>)"

definition quickReasonTLS :: "int \<Rightarrow> string" where
  "quickReasonTLS status =
     (if status = 400 then ''Bad Request'' else if status = 401 then ''Unauthorized''
      else if status = 404 then ''Not Found'' else if status = 502 then ''Bad Gateway''
      else if status = 503 then ''Service Unavailable'' else ''Bad Request'')"

definition quickResponse :: "int \<Rightarrow> string" where
  "quickResponse status =
     (let reason = quickReasonTLS status; body = itoa status @ '' '' @ reason @ newline in
      ''HTTP/1.1 '' @ itoa status @ '' '' @ reason @ crlf @
      ''Content-Type: text/plain; charset=utf-8'' @ crlf @
      ''Content-Length: '' @ nat_str (length body) @ crlf @ ''Connection: close'' @ crlf @ crlf @ body)"

definition writeAuthTLS :: "int \<Rightarrow> string \<Rightarrow> string \<Rightarrow> string" where
  "writeAuthTLS status location setCookie =
     (if location = [] then quickResponse (if status = 0 then 502 else status)
      else ''HTTP/1.1 302 Found'' @ crlf @ ''Location: '' @ location @ crlf @
           (if setCookie \<noteq> [] then ''Set-Cookie: '' @ setCookie @ crlf else []) @
           ''Content-Length: 0'' @ crlf @ ''Connection: close'' @ crlf @ crlf)"

record tlsWorld =
  tw_newID :: string
  tw_clientIP :: string
  tw_handshake :: "string option"
  tw_reads :: reads
  tw_parse :: "bytes \<Rightarrow> request option"
  tw_request :: "Msg \<Rightarrow> Msg option"
  tw_dial :: "string \<Rightarrow> bool"
  tw_replay :: bool

datatype tls_effect =
    TLSReply string
  | TLSDial string
  | TLSReplay bytes
  | TLSTrack string
  | TLSPipe
  | TLSUntrack string
  | StartConsole Msg bytes
  | StartAgent Msg bytes
  | CloseTLS
  | CloseBackend

definition resolveHTTPMsg :: "tlsWorld \<Rightarrow> string \<Rightarrow> string \<Rightarrow> bytes \<Rightarrow> Msg" where
  "resolveHTTPMsg w routeHost sni prefix =
     (let m = zeroMsg\<lparr>m_V := Version, m_Type := TypeResolve, m_ID := tw_newID w, m_Kind := KindHTTP,
                m_Host := routeHost, m_SNI := sni, m_ClientIP := tw_clientIP w\<rparr>
      in case tw_parse w prefix of None \<Rightarrow> m | Some req \<Rightarrow> fillAuthDetails m req)"

definition sessionOf :: "tlsWorld \<Rightarrow> Msg \<Rightarrow> string \<Rightarrow> Msg" where
  "sessionOf w rep host =
     zeroMsg\<lparr>m_Target := m_Target rep, m_Host := host, m_Sub := m_Sub rep, m_WSKey := m_WSKey rep,
       m_ClientIP := tw_clientIP w, m_RemoteUser := m_RemoteUser rep\<rparr>"

text \<open>The console and the agent over TLS: the session takes the connection over when it is admitted.\<close>

definition serveTLSSession ::
  "bool \<Rightarrow> tlsWorld \<Rightarrow> Msg \<Rightarrow> string \<Rightarrow> bytes \<Rightarrow> Server \<Rightarrow> tls_effect list \<times> Server" where
  "serveTLSSession agent w rep host prefix s =
     (case admitTLS agent host s of
        (Inl status, s) \<Rightarrow> ([TLSReply (quickResponse status), CloseTLS], s)
      | (Inr _, s) \<Rightarrow>
          ([(if agent then StartAgent else StartConsole) (sessionOf w rep host) (pipelinedBytes prefix)], s))"

definition pipeTLS :: "tlsWorld \<Rightarrow> string \<Rightarrow> string \<Rightarrow> bytes \<Rightarrow> tls_effect list" where
  "pipeTLS w ident target prefix =
     TLSDial target #
     (if \<not> tw_dial w target then [TLSReply (quickResponse 502), CloseTLS]
      else TLSReplay prefix #
        (if \<not> tw_replay w then [CloseTLS, CloseBackend]
         else [TLSTrack ident, TLSPipe, CloseTLS, CloseBackend, TLSUntrack ident]))"

text \<open>What is done with the reply of \<open>dproxy\<close>, and the terminator.\<close>

definition routeTLS ::
  "tlsWorld \<Rightarrow> string \<Rightarrow> Msg option \<Rightarrow> string \<Rightarrow> bytes \<Rightarrow> Server \<Rightarrow> tls_effect list \<times> Server" where
  "routeTLS w ident reply routeHost prefix s =
     (case reply of
        None \<Rightarrow> ([TLSReply (quickResponse 502), CloseTLS], s)
      | Some rep \<Rightarrow>
          if m_Location rep \<noteq> [] \<or> m_Status rep \<noteq> 0
          then ([TLSReply (writeAuthTLS (m_Status rep) (m_Location rep) (m_SetCookie rep)), CloseTLS], s)
          else if \<not> m_Authorized rep \<or> m_Target rep = [] then ([TLSReply (quickResponse 502), CloseTLS], s)
          else if m_Protocol rep = ProtoConsole then serveTLSSession False w rep routeHost prefix s
          else if m_Protocol rep = ProtoAgent then serveTLSSession True w rep routeHost prefix s
          else (pipeTLS w ident (m_Target rep) prefix, s))"

definition serveTLS :: "tlsWorld \<Rightarrow> string \<Rightarrow> Server \<Rightarrow> (tls_effect list \<times> Server) option" where
  "serveTLS w ident s =
     (case tw_handshake w of
        None \<Rightarrow> Some ([CloseTLS], s)
      | Some sni \<Rightarrow>
          map_option (\<lambda>(prefix, r).
            let host = (case r of Inl _ \<Rightarrow> [] | Inr h \<Rightarrow> h);
                routeHost = (if host = [] then normalizeHost sni else host)
            in if (case r of Inl _ \<Rightarrow> True | Inr _ \<Rightarrow> False) \<or> routeHost = []
               then ([TLSReply (quickResponse 400), CloseTLS], s)
               else routeTLS w ident (tw_request w (resolveHTTPMsg w routeHost sni prefix)) routeHost prefix s)
            (ReadHeaderBlock (tw_reads w) (pt_SniffMaxBytes (pg_TLS (srv_cfg s)))))"

section \<open>The cookies of a request survive the resolve message\<close>

lemma index_of_single:
  "x \<notin> set a \<Longrightarrow> index_of (a @ x # b) [x] = Some (length a)" "x \<notin> set a \<Longrightarrow> index_of a [x] = None"
  by (induction a) (auto simp: has_prefix_def)

lemma split_single_none: "x \<notin> set a \<Longrightarrow> split_str a [x] = [a]"
  by (subst split_str.simps) (simp add: index_of_single)

lemma split_single_hit: "x \<notin> set a \<Longrightarrow> split_str (a @ x # b) [x] = a # split_str b [x]"
  by (subst split_str.simps) (simp add: index_of_single)

lemma split_single_append: "split_str (s @ x # t) [x] = split_str s [x] @ split_str t [x]"
proof (induction "length s" arbitrary: s rule: less_induct)
  case less
  show ?case
  proof (cases "x \<in> set s")
    case False
    then show ?thesis by (simp add: split_single_hit split_single_none)
  next
    case True
    then obtain a b where s: "s = a @ x # b" "x \<notin> set a" by (meson split_list_first)
    with less [of b] show ?thesis by (simp add: split_single_hit)
  qed
qed

lemma split_single_Cons:
  assumes "c \<noteq> x"
  shows "split_str (c # s) [x] = (c # hd (split_str s [x])) # tl (split_str s [x])"
proof (cases "x \<in> set s")
  case True
  then obtain a b where s: "s = a @ x # b" "x \<notin> set a" by (meson split_list_first)
  with assms split_single_hit [of x "c # a" b] show ?thesis by (simp add: split_single_hit)
next
  case False
  with assms show ?thesis by (simp add: split_single_none)
qed

lemma cookie_pair_blank: "cookie_pair (CHR '' '' # p) = cookie_pair p"
  by (simp add: cookie_pair_def cookie_trim_def)

lemma cookie_pair_empty: "cookie_pair [] = None"
  by (simp add: cookie_pair_def cookie_trim_def drop_while_end_def)

definition line_cookies :: "string \<Rightarrow> (string \<times> string) list" where
  "line_cookies l = List.map_filter cookie_pair (split_str l '';'')"

lemma map_filter_append: "List.map_filter f (xs @ ys) = List.map_filter f xs @ List.map_filter f ys"
  by (induction xs) (simp_all add: map_filter_simps split: option.split)

lemma line_cookies_blank: "line_cookies (CHR '' '' # l) = line_cookies l"
proof -
  obtain p ps where s: "split_str l '';'' = p # ps" by (meson split_str_nonempty list.exhaust)
  then show ?thesis by (simp add: line_cookies_def split_single_Cons map_filter_simps cookie_pair_blank)
qed

lemma line_cookies_join: "line_cookies (join lines ''; '') = concat (map line_cookies lines)"
proof (induction lines "''; ''" rule: join.induct)
  case 1
  show ?case by (simp add: line_cookies_def split_single_none map_filter_simps cookie_pair_empty)
next
  case (3 x y xs)
  have "line_cookies (x @ CHR '';'' # l) = line_cookies x @ line_cookies l" for l
    by (simp add: line_cookies_def split_single_append map_filter_append)
  with 3 show ?case by (simp add: line_cookies_blank)
qed simp

lemma request_cookie_lines:
  "request_cookie r name = (if name = [] then None else map_of (concat (map line_cookies (rq_Header r ''Cookie''))) name)"
proof -
  have "List.map_filter cookie_pair (concat (map (\<lambda>line. split_str line '';'') ls)) = concat (map line_cookies ls)" for ls
    by (induction ls) (simp_all add: map_filter_simps map_filter_append line_cookies_def)
  then show ?thesis by (simp add: request_cookie_def)
qed

section \<open>The details\<close>

definition kept :: "string \<Rightarrow> string \<Rightarrow> bool" where
  "kept f v \<longleftrightarrow> f = v \<or> f = []"

lemma takeDetail_spec:
  "takeDetail v limit budget = (f, b) \<Longrightarrow> kept f v \<and> length f + b = budget \<and> length f \<le> limit"
  by (auto simp: takeDetail_def kept_def split: if_splits)

lemma fillAuthDetails_spec:
  fixes m :: Msg and req :: request
  defines "m' \<equiv> fillAuthDetails m req"
  shows "kept (m_Upgrade m') (header_get (rq_Header req) ''Upgrade'')"
    and "kept (m_Connection m') (header_get (rq_Header req) ''Connection'')"
    and "kept (m_WSVersion m') (header_get (rq_Header req) ''Sec-Websocket-Version'')"
    and "kept (m_WSKey m') (header_get (rq_Header req) ''Sec-Websocket-Key'')"
    and "kept (m_Accept m') (header_get (rq_Header req) ''Accept'')"
    and "kept (m_Path m') (u_RequestURI (rq_URL req))"
    and "kept (m_Cookie m') (join (rq_Header req ''Cookie'') ''; '')"
    and "length (m_Upgrade m') + length (m_Connection m') + length (m_WSVersion m') + length (m_WSKey m') +
      length (m_Accept m') + length (m_Path m') + length (m_Cookie m') \<le> MaxResolveDetails"
    and "length (m_Path m') \<le> MaxResolvePath"
    and "m_Kind m' = m_Kind m" "m_Host m' = m_Host m" "m_ID m' = m_ID m"
proof -
  let ?h = "rq_Header req"
  obtain f1 b1 where 1: "takeDetail (header_get ?h ''Upgrade'') MaxResolveHeader MaxResolveDetails = (f1, b1)" by fastforce
  obtain f2 b2 where 2: "takeDetail (header_get ?h ''Connection'') MaxResolveHeader b1 = (f2, b2)" by fastforce
  obtain f3 b3 where 3: "takeDetail (header_get ?h ''Sec-Websocket-Version'') MaxResolveHeader b2 = (f3, b3)" by fastforce
  obtain f4 b4 where 4: "takeDetail (header_get ?h ''Sec-Websocket-Key'') MaxResolveHeader b3 = (f4, b4)" by fastforce
  obtain f5 b5 where 5: "takeDetail (header_get ?h ''Accept'') MaxResolveHeader b4 = (f5, b5)" by fastforce
  obtain f6 b6 where 6: "takeDetail (u_RequestURI (rq_URL req)) MaxResolvePath b5 = (f6, b6)" by fastforce
  obtain f7 b7 where 7: "takeDetail (join (?h ''Cookie'') ''; '') b6 b6 = (f7, b7)" by fastforce
  have m': "m' = m\<lparr>m_Upgrade := f1, m_Connection := f2, m_WSVersion := f3, m_WSKey := f4,
           m_Accept := f5, m_Path := f6, m_Cookie := f7\<rparr>"
    by (simp add: m'_def fillAuthDetails_def Let_def 1 2 3 4 5 6 7)
  note s = takeDetail_spec [OF 1] takeDetail_spec [OF 2] takeDetail_spec [OF 3] takeDetail_spec [OF 4]
    takeDetail_spec [OF 5] takeDetail_spec [OF 6] takeDetail_spec [OF 7]
  from s show "kept (m_Upgrade m') (header_get (rq_Header req) ''Upgrade'')"
    "kept (m_Connection m') (header_get (rq_Header req) ''Connection'')"
    "kept (m_WSVersion m') (header_get (rq_Header req) ''Sec-Websocket-Version'')"
    "kept (m_WSKey m') (header_get (rq_Header req) ''Sec-Websocket-Key'')"
    "kept (m_Accept m') (header_get (rq_Header req) ''Accept'')"
    "kept (m_Path m') (u_RequestURI (rq_URL req))"
    "kept (m_Cookie m') (join (rq_Header req ''Cookie'') ''; '')"
    "length (m_Upgrade m') + length (m_Connection m') + length (m_WSVersion m') + length (m_WSKey m') +
      length (m_Accept m') + length (m_Path m') + length (m_Cookie m') \<le> MaxResolveDetails"
    "length (m_Path m') \<le> MaxResolvePath"
    by (simp_all add: m')
  show "m_Kind m' = m_Kind m" "m_Host m' = m_Host m" "m_ID m' = m_ID m" by (simp_all add: m')
qed

lemma resolveRequest_cookie:
  assumes "resolveRequest parseURI m = Some req"
  shows "request_cookie req name = (if name = [] then None else map_of (line_cookies (m_Cookie m)) name)"
  using assms by (auto simp: resolveRequest_def request_cookie_lines)

lemma resolved_cookie:
  assumes "resolveRequest parseURI (resolveHTTPMsg w host sni prefix) = Some req" "request_cookie req name = Some v"
  shows "\<exists>hreq. tw_parse w prefix = Some hreq \<and> request_cookie hreq name = Some v"
proof -
  have none: "line_cookies [] = []"
    using line_cookies_join [of "[]"] by simp
  from assms have c: "name \<noteq> []" "map_of (line_cookies (m_Cookie (resolveHTTPMsg w host sni prefix))) name = Some v"
    by (auto simp: resolveRequest_cookie split: if_splits)
  show ?thesis
  proof (cases "tw_parse w prefix")
    case None
    with c none show ?thesis by (simp add: resolveHTTPMsg_def zeroMsg_def Let_def)
  next
    case (Some hreq)
    let ?m = "zeroMsg\<lparr>m_V := Version, m_Type := TypeResolve, m_ID := tw_newID w, m_Kind := KindHTTP,
                m_Host := host, m_SNI := sni, m_ClientIP := tw_clientIP w\<rparr>"
    from c Some have "map_of (line_cookies (m_Cookie (fillAuthDetails ?m hreq))) name = Some v"
      by (simp add: resolveHTTPMsg_def Let_def)
    with fillAuthDetails_spec(7) [of ?m hreq] none
    have "map_of (line_cookies (join (rq_Header hreq ''Cookie'') ''; '')) name = Some v"
      by (auto simp: kept_def)
    with c(1) Some show ?thesis by (simp add: request_cookie_lines line_cookies_join)
  qed
qed

lemma resolveHTTPMsg_fields [simp]:
  "m_Kind (resolveHTTPMsg w host sni prefix) = KindHTTP" "m_Host (resolveHTTPMsg w host sni prefix) = host"
  by (simp_all add: resolveHTTPMsg_def Let_def fillAuthDetails_spec(10,11) split: option.split)

section \<open>What the terminator does\<close>

lemma routeTLS_dial:
  assumes "TLSDial t \<in> set (fst (routeTLS w ident reply host prefix s))"
  obtains rep where "reply = Some rep" "m_Authorized rep" "m_Target rep = t" "m_Protocol rep \<notin> {ProtoConsole, ProtoAgent}"
    "routeTLS w ident reply host prefix s = (pipeTLS w ident t prefix, s)"
  using assms that
  by (auto simp: routeTLS_def serveTLSSession_def pipeTLS_def split: option.splits if_splits prod.splits sum.splits)

lemma serveTLS_cases:
  assumes "serveTLS w ident s = Some (effs, s')"
  obtains (failed) "tw_handshake w = None" "effs = [CloseTLS]" "s' = s"
    | (refused) "effs = [TLSReply (quickResponse 400), CloseTLS]" "s' = s"
    | (routed) sni prefix h host where "tw_handshake w = Some sni"
        "ReadHeaderBlock (tw_reads w) (pt_SniffMaxBytes (pg_TLS (srv_cfg s))) = Some (prefix, Inr h)"
        "host = (if h = [] then normalizeHost sni else h)"
        "(effs, s') = routeTLS w ident (tw_request w (resolveHTTPMsg w host sni prefix)) host prefix s"
proof (cases "tw_handshake w")
  case None
  with assms failed show thesis by (simp add: serveTLS_def)
next
  case (Some sni)
  with assms obtain prefix r where r: "ReadHeaderBlock (tw_reads w) (pt_SniffMaxBytes (pg_TLS (srv_cfg s))) = Some (prefix, r)"
    by (auto simp: serveTLS_def)
  show thesis
  proof (cases r)
    case (Inl e)
    with assms Some r refused show thesis by (simp add: serveTLS_def Let_def)
  next
    case (Inr h)
    define host where "host = (if h = [] then normalizeHost sni else h)"
    from assms Some r Inr have e: "(effs, s') = (if host = [] then ([TLSReply (quickResponse 400), CloseTLS], s)
        else routeTLS w ident (tw_request w (resolveHTTPMsg w host sni prefix)) host prefix s)"
      by (simp add: serveTLS_def Let_def host_def cong: if_cong split del: if_split)
    show thesis
    proof (cases "host = []")
      case True
      with e refused show thesis by simp
    next
      case False
      with e routed [OF Some r [unfolded Inr] host_def] show thesis by simp
    qed
  qed
qed

lemma sessionFor_kinds:
  "sessionFor r m req = Some (k, vmHost) \<Longrightarrow> sk_protocol k \<in> {ProtoDesktop, ProtoConsole, ProtoAgent} \<and>
     (sk_protocol k = ProtoDesktop \<longrightarrow> sk_port k = desktopRDPPort)"
  by (auto simp: sessionFor_def Let_def bind_eq_Some_conv desktopKind_def consoleHostKind_def consoleKind_def
      agentKind_def ProtoDesktop_def ProtoConsole_def ProtoAgent_def split: if_splits option.splits)

definition tls_answered :: "tlsWorld \<Rightarrow> (Msg \<Rightarrow> Msg) \<Rightarrow> bool" where
  "tls_answered w h \<longleftrightarrow> tw_request w = (\<lambda>m. Some (h m))"


definition example_tlsReads :: reads where
  "example_tlsReads = [(to_bytes (''GET / HTTP/1.1'' @ crlf @ ''Host: vm.local'' @ crlf @ crlf), None)]"

definition example_tlsWorld :: tlsWorld where
  "example_tlsWorld = \<lparr>tw_newID = ''id'', tw_clientIP = ''192.0.2.1'', tw_handshake = Some ''vm.local'',
     tw_reads = example_tlsReads, tw_parse = (\<lambda>_. None),
     tw_request = (\<lambda>m. Some (Handle example_parseKey (\<lambda>_. Some (rq_URL example_request)) example_now example_resolver m)),
     tw_dial = (\<lambda>_. True), tw_replay = True\<rparr>"

lemma example_tls_answered:
  "tls_answered example_tlsWorld (Handle example_parseKey (\<lambda>_. Some (rq_URL example_request)) example_now example_resolver)"
  by (simp add: tls_answered_def example_tlsWorld_def)

lemma example_tls_block:
  "ReadHeaderBlock example_tlsReads 0 = Some (stream example_tlsReads, Inr ''vm.local'')"
  by code_simp

lemma example_tls_facts:
  "HostBackend (NewRouter example_config) ''vm.local'' = Some ''127.0.0.1:8079''"
  "HostEntry (NewRouter example_config) ''vm.local'' \<noteq> None"
  "av_ok (authorizeRequest example_now (NewRouter example_config) (Some example_auth) ''vm.local'' req)"
  by code_simp+

lemma example_tls_reply:
  "\<exists>rep. tw_request example_tlsWorld (resolveHTTPMsg example_tlsWorld ''vm.local'' sni prefix) = Some rep \<and>
     m_Authorized rep \<and> m_Target rep = ''127.0.0.1:8079'' \<and> m_Protocol rep = [] \<and> m_Location rep = [] \<and> m_Status rep = 0"
proof -
  let ?m = "resolveHTTPMsg example_tlsWorld ''vm.local'' sni prefix"
  have r: "rs_router example_resolver = NewRouter example_config" "rs_auth example_resolver = Some example_auth"
    using NewResolver_tables [OF example_resolver_new] by blast+
  obtain req where "resolveRequest (\<lambda>_. Some (rq_URL example_request)) ?m = Some req"
    by (simp add: resolveRequest_def)
  moreover from this have "sessionFor example_resolver ?m req = None"
    using example_tls_facts(2) by (simp add: sessionFor_def r)
  ultimately show ?thesis
    using example_tls_facts
    by (simp add: example_tlsWorld_def Handle_HTTP resolveHTTP_def r resolvedMsg_def zeroMsg_def)
qed

lemma example_serveTLS:
  "serveTLS example_tlsWorld ''id'' (NewServer example_pipe) =
     Some (pipeTLS example_tlsWorld ''id'' ''127.0.0.1:8079'' (stream example_tlsReads), NewServer example_pipe)"
proof -
  have w: "tw_handshake example_tlsWorld = Some ''vm.local''" "tw_reads example_tlsWorld = example_tlsReads"
    "pt_SniffMaxBytes (pg_TLS (srv_cfg (NewServer example_pipe))) = 0"
    by (simp_all add: example_tlsWorld_def NewServer_def example_pipe_def)
  obtain rep where "tw_request example_tlsWorld (resolveHTTPMsg example_tlsWorld ''vm.local'' ''vm.local'' (stream example_tlsReads)) = Some rep"
    "m_Authorized rep" "m_Target rep = ''127.0.0.1:8079''" "m_Protocol rep = []" "m_Location rep = []" "m_Status rep = 0"
    using example_tls_reply by blast
  then show ?thesis
    by (simp add: serveTLS_def w example_tls_block routeTLS_def ProtoConsole_def ProtoAgent_def)
qed


definition started :: "tls_effect list \<Rightarrow> nat" where
  "started effs = length (filter (\<lambda>e. case e of StartConsole _ _ \<Rightarrow> True | StartAgent _ _ \<Rightarrow> True | _ \<Rightarrow> False) effs)"

definition tls_closed :: "tlsWorld \<Rightarrow> string \<Rightarrow> tls_effect list \<Rightarrow> bool" where
  "tls_closed w ident effs \<longleftrightarrow>
     count_list effs CloseTLS + started effs = 1 \<and>
     count_list effs CloseBackend = (if \<exists>t. TLSDial t \<in> set effs \<and> tw_dial w t then 1 else 0) \<and>
     (if TLSPipe \<in> set effs
      then \<exists>before. effs = before @ [TLSTrack ident, TLSPipe, CloseTLS, CloseBackend, TLSUntrack ident] \<and>
             (\<forall>e\<in>set before. e \<noteq> TLSTrack ident)
      else TLSTrack ident \<notin> set effs)"

lemma tls_closed_reply: "tls_closed w ident [TLSReply s, CloseTLS]" "tls_closed w ident [CloseTLS]"
  by (simp_all add: tls_closed_def started_def)

lemma tls_closed_pipe: "tls_closed w ident (pipeTLS w ident target prefix)"
proof (cases "tw_dial w target \<and> tw_replay w")
  case True
  then have "pipeTLS w ident target prefix = [TLSDial target, TLSReplay prefix] @
      [TLSTrack ident, TLSPipe, CloseTLS, CloseBackend, TLSUntrack ident]"
    by (simp add: pipeTLS_def)
  with True show ?thesis unfolding tls_closed_def by (auto simp: started_def)
qed (auto simp: pipeTLS_def tls_closed_def started_def)

lemma tls_closed_session:
  assumes "serveTLSSession agent w rep host prefix s = (effs, s')"
  shows "tls_closed w ident effs \<and>
    (if started effs = 0 then s' = s else \<exists>key. acquireConsole key s = (True, s'))"
  using assms tls_closed_reply
  by (auto simp: serveTLSSession_def admitTLS_def tls_closed_def started_def dest: acquireConsole_refused
      split: if_splits prod.splits bool.splits)

text \<open>
  Further result. The terminator leaves its connections in order on every branch: the TLS connection is
  closed exactly once, unless it is given to exactly one console or agent session, for which a slot was
  taken; the backend is closed exactly once when its dial succeeded and never otherwise; and the
  connection is in the registry exactly while it is piped.
\<close>

theorem tls_conns_closed:
  assumes "serveTLS w ident s = Some (effs, s')"
  shows "tls_closed w ident effs \<and>
    (if started effs = 0 then s' = s else \<exists>key. acquireConsole key s = (True, s'))"
  using assms
proof (cases rule: serveTLS_cases)
  case (routed sni prefix h host)
  have none: "started (pipeTLS w ident t prefix) = 0" "started [TLSReply x, CloseTLS] = 0" for t x
    by (auto simp: pipeTLS_def started_def)
  from routed(4) [symmetric] show ?thesis
    by (auto simp: routeTLS_def tls_closed_reply tls_closed_pipe none dest: tls_closed_session
        split: option.splits if_splits)
qed (auto simp: tls_closed_reply started_def)

theorem tls_conns_closed_witness:
  "tls_closed example_tlsWorld ''id'' (pipeTLS example_tlsWorld ''id'' ''127.0.0.1:8079'' (stream example_tlsReads))"
  using tls_conns_closed [OF example_serveTLS] by blast

section \<open>Two ways it fails\<close>

text \<open>
  Further result. A desktop cannot be opened through TLS: where \<open>dproxy\<close> authorizes a desktop upgrade
  that arrives over https, the terminator, which knows only the console and the agent, dials the
  remote-desktop port of the machine as if it were a web backend and replays the HTTP upgrade into it.
\<close>

theorem tls_desktop_piped:
  assumes "m_Kind m = KindHTTP" "resolveRequest parseURI m = Some req" "sessionFor r m req = Some (k, vmHost)"
    and "sk_protocol k = ProtoDesktop" "rep = Handle parseKey parseURI now r m" "m_Authorized rep"
  shows "\<exists>machine entry. HostEntry (rs_router r) machine = Some entry \<and>
    routeTLS w ident (Some rep) host prefix s =
      (pipeTLS w ident (join_host_port (hh_Host entry) (itoa desktopRDPPort)) prefix, s)"
proof -
  have rep: "rep = resolveSession now r k m vmHost req"
    using assms by (simp add: Handle_HTTP resolveHTTP_def)
  from sessionFor_kinds [OF assms(3)] assms(4) have p: "sk_port k = desktopRDPPort" by simp
  from assms(6) rep authorizeSession_cases [of now "rs_router r" "rs_auth r" k "normalizeHost (m_Host m)" vmHost req]
  obtain entry where "HostEntry (rs_router r) vmHost = Some entry"
    "m_Target rep = join_host_port (hh_Host entry) (itoa (sk_port k))" "m_Protocol rep = ProtoDesktop"
    "m_Location rep = []" "m_Status rep = 0"
    by (auto simp: resolveSession_def Let_def resolvedMsg_def zeroMsg_def assms(4) split: if_splits)
  moreover have "join_host_port a b \<noteq> []" for a b by (simp add: join_host_port_def)
  ultimately show ?thesis
    using assms(6) p by (auto simp: routeTLS_def ProtoDesktop_def ProtoConsole_def ProtoAgent_def)
qed

definition example_desktopToken :: string where
  "example_desktopToken = Mint example_now example_auth ''user-1'' (desktopAudPrefix @ ''one.desk.vm.local'')"

definition example_desktopURL :: parsed_url where
  "example_desktopURL = \<lparr>u_Path = ''/'', u_RequestURI = ''/'', u_Query = (\<lambda>k. if k = ''token'' then example_desktopToken else [])\<rparr>"

definition example_desktopMsg :: Msg where
  "example_desktopMsg = zeroMsg\<lparr>m_Kind := KindHTTP, m_Host := ''one.desk.vm.local'', m_Upgrade := ''websocket'',
     m_Connection := ''Upgrade'', m_WSVersion := ''13'', m_WSKey := ''dGhlIHNhbXBsZSBub25jZQ==''\<rparr>"

lemma example_desktop_authorized:
  "\<exists>req k. resolveRequest (\<lambda>_. Some example_desktopURL) example_desktopMsg = Some req \<and>
     sessionFor example_resolver example_desktopMsg req = Some (k, ''one.vm.local'') \<and> sk_protocol k = ProtoDesktop \<and>
     m_Authorized (Handle example_parseKey (\<lambda>_. Some example_desktopURL) example_now example_resolver example_desktopMsg)"
proof -
  have r: "rs_router example_resolver = NewRouter example_config" "rs_auth example_resolver = Some example_auth"
    "rs_desktop example_resolver = Desktop example_config"
    using NewResolver_tables [OF example_resolver_new] by blast+
  obtain req where req: "resolveRequest (\<lambda>_. Some example_desktopURL) example_desktopMsg = Some req"
    by (simp add: resolveRequest_def)
  define k where "k = the (desktopKind (Desktop example_config))"
  have k: "desktopKind (Desktop example_config) = Some k" "sk_protocol k = ProtoDesktop" "sk_audPrefix k = desktopAudPrefix"
    by (simp_all add: k_def desktopKind_def example_config_def)
  have "HostEntry (NewRouter example_config) ''one.desk.vm.local'' = None"
    "labelledVMHost (NewRouter example_config) (sk_label (the (desktopKind (Desktop example_config)))) ''one.desk.vm.local'' =
      Some ''one.vm.local''"
    "normalizeHost ''one.desk.vm.local'' = ''one.desk.vm.local''"
    "HostEntry (NewRouter example_config) ''one.vm.local'' = Some example_host"
    by code_simp+
  moreover have h: "m_Host example_desktopMsg = ''one.desk.vm.local''" "m_Kind example_desktopMsg = KindHTTP"
    by (simp_all add: example_desktopMsg_def)
  moreover have q: "u_Query (rq_URL req) ''token'' = example_desktopToken" "rq_URL req = example_desktopURL"
    using req by (auto simp: resolveRequest_def example_desktopURL_def)
  moreover have "valid_utf8 ''user-1''" "valid_utf8 (desktopAudPrefix @ ''one.desk.vm.local'')" by code_simp+
  then have "verify example_now example_auth example_desktopToken (desktopAudPrefix @ ''one.desk.vm.local'') = Some ''user-1''"
    unfolding example_desktopToken_def by (intro verify_Mint) (simp_all add: ttl_example second_def)
  moreover have "case resolveRequest (\<lambda>_. Some example_desktopURL) example_desktopMsg of None \<Rightarrow> False
      | Some req \<Rightarrow> websocketKey req = Some ''dGhlIHNhbXBsZSBub25jZQ==''"
    by code_simp
  with req have "websocketKey req = Some ''dGhlIHNhbXBsZSBub25jZQ==''" by simp
  ultimately have s: "sessionFor example_resolver example_desktopMsg req = Some (k, ''one.vm.local'')"
    and a: "sa_status (authorizeSession example_now (NewRouter example_config) (Some example_auth) k
      ''one.desk.vm.local'' ''one.vm.local'' req) = 0"
    using k by (simp_all add: sessionFor_def r authorizeSession_def verifyLabelled_def k_def [symmetric])
  moreover have "normalizeHost ''one.desk.vm.local'' = ''one.desk.vm.local''" by code_simp
  ultimately show ?thesis
    using req k(2) h by (simp add: Handle_HTTP resolveHTTP_def resolveSession_def r resolvedMsg_def Let_def)
qed

theorem tls_desktop_piped_witness:
  "\<forall>prefix s. \<exists>rep machine entry. HostEntry (rs_router example_resolver) machine = Some entry \<and>
     routeTLS example_tlsWorld ''id'' (Some rep) ''one.desk.vm.local'' prefix s =
       (pipeTLS example_tlsWorld ''id'' (join_host_port (hh_Host entry) (itoa desktopRDPPort)) prefix, s)"
proof -
  have "m_Kind example_desktopMsg = KindHTTP" by (simp add: example_desktopMsg_def)
  with example_desktop_authorized show ?thesis using tls_desktop_piped by blast
qed

section \<open>The size of the resolve message\<close>

lemma length_join_member: "x \<in> set xs \<Longrightarrow> length x \<le> length (join xs sep)"
  by (induction xs sep rule: join.induct) auto

lemma length_print_member: "(k, v) \<in> set ms \<Longrightarrow> length (print_json v) \<le> length (print_json (JObj ms))"
proof -
  assume "(k, v) \<in> set ms"
  then have "json_quote k @ '':'' @ print_json v \<in> set (map (\<lambda>kv. json_quote (fst kv) @ '':'' @ print_json (snd kv)) ms)"
    by force
  from length_join_member [OF this, of "'',''"] show ?thesis by simp
qed

lemma quote_ascii: "is_ascii c \<Longrightarrow> json_quote_body (c # s) = json_escape c @ json_quote_body s"
  by (subst json_quote_body.simps) (simp add: Let_def split: prod.split)

lemma quote_ampersands: "length (json_quote_body (replicate n (CHR ''&''))) \<ge> 6 * n"
proof (induction n)
  case (Suc n)
  have "is_ascii (CHR ''&'')" "length (json_escape (CHR ''&'')) = 6" by code_simp+
  with Suc show ?case by (simp add: quote_ascii)
qed simp

lemma marshal_too_large:
  fixes m :: Msg
  assumes "m_Path m = ''/?'' @ replicate n (CHR ''&'')" "700 \<le> n"
  shows "marshal m = Inl ErrMsgTooLarge"
proof -
  have "is_ascii (CHR ''/'')" "is_ascii (CHR ''?'')" by code_simp+
  with quote_ampersands [of n] have long: "6 * n \<le> length (print_json (JStr (m_Path m)))"
    by (simp add: assms(1) json_quote_def quote_ascii)
  have "(''path'', JStr (m_Path m')) \<in> set (str_field ''path'' (m_Path m'))" if "m_Path m' = m_Path m" for m' :: Msg
    using assms that by (simp add: str_field_def)
  then have big: "6 * n \<le> length (print_json (msg_json m'))" if "m_Path m' = m_Path m" for m' :: Msg
    using that long unfolding msg_json_def
    by (intro order_trans [OF _ length_print_member [of "''path''" "JStr (m_Path m')"]]) auto
  from big [of m] big [of "m\<lparr>m_V := Version\<rparr>"] assms(2) show ?thesis
    by (auto simp: marshal_def Let_def MaxMsgSize_def)
qed

text \<open>
  Further result. The details that travel with a resolve request stay within their budget of 3072 bytes,
  the path within 1024; each of them is either the whole value of the request, with the cookie lines
  joined to one, or empty, and never cut short.
\<close>

theorem details_within_budget:
  fixes m :: Msg and req :: request
  shows "let m' = fillAuthDetails m req in
    length (m_Upgrade m') + length (m_Connection m') + length (m_WSVersion m') + length (m_WSKey m') +
      length (m_Accept m') + length (m_Path m') + length (m_Cookie m') \<le> MaxResolveDetails \<and>
    length (m_Path m') \<le> MaxResolvePath \<and>
    kept (m_Path m') (u_RequestURI (rq_URL req)) \<and> kept (m_Cookie m') (join (rq_Header req ''Cookie'') ''; '') \<and>
    kept (m_Upgrade m') (header_get (rq_Header req) ''Upgrade'') \<and>
    kept (m_Connection m') (header_get (rq_Header req) ''Connection'') \<and>
    kept (m_WSVersion m') (header_get (rq_Header req) ''Sec-Websocket-Version'') \<and>
    kept (m_WSKey m') (header_get (rq_Header req) ''Sec-Websocket-Key'') \<and>
    kept (m_Accept m') (header_get (rq_Header req) ''Accept'')"
  using fillAuthDetails_spec [of m req] by (simp add: Let_def)

text \<open>
  Further result. The budget counts the bytes of the request, the limit of a control message those of
  its JSON, in which \<open>&\<close> takes six: a request whose query has between 700 and 1000 ampersands is within
  every limit of the details, yet its resolve message is too large to send and the client gets a 502,
  whatever the host. \<open>Peer.Request\<close> fails when \<open>SendMsg\<close> refuses the message.
\<close>

theorem tls_ampersands_refused:
  assumes "tw_handshake w = Some sni" "host \<noteq> []" "tw_parse w prefix = Some req"
    and "ReadHeaderBlock (tw_reads w) (pt_SniffMaxBytes (pg_TLS (srv_cfg s))) = Some (prefix, Inr host)"
    and "u_RequestURI (rq_URL req) = ''/?'' @ replicate n (CHR ''&'')" "700 \<le> n" "n \<le> 1000" "rq_Header req = (\<lambda>_. [])"
    and "\<And>m e. marshal m = Inl e \<Longrightarrow> tw_request w m = None"
  shows "serveTLS w ident s = Some ([TLSReply (quickResponse 502), CloseTLS], s)"
proof -
  have "m_Path (resolveHTTPMsg w host sni prefix) = ''/?'' @ replicate n (CHR ''&'')"
    using assms(3,5,7,8)
    by (simp add: resolveHTTPMsg_def fillAuthDetails_def takeDetail_def header_get_def MaxResolveDetails_def
        MaxResolvePath_def Let_def)
  then have "tw_request w (resolveHTTPMsg w host sni prefix) = None"
    using marshal_too_large assms(6,9) by blast
  with assms(1,2,4) show ?thesis by (simp add: serveTLS_def routeTLS_def)
qed

definition example_longWorld :: tlsWorld where
  "example_longWorld = example_tlsWorld\<lparr>
     tw_parse := (\<lambda>_. Some \<lparr>rq_URL = \<lparr>u_Path = ''/'', u_RequestURI = ''/?'' @ replicate 700 (CHR ''&''), u_Query = (\<lambda>_. [])\<rparr>,
       rq_Header = (\<lambda>_. [])\<rparr>),
     tw_request := (\<lambda>m. case marshal m of Inl _ \<Rightarrow> None | Inr _ \<Rightarrow> tw_request example_tlsWorld m)\<rparr>"

theorem tls_ampersands_refused_witness:
  "serveTLS example_longWorld ''id'' (NewServer example_pipe) =
     Some ([TLSReply (quickResponse 502), CloseTLS], NewServer example_pipe)"
proof (rule tls_ampersands_refused [where n = 700 and host = "''vm.local''" and prefix = "stream example_tlsReads"])
  show "ReadHeaderBlock (tw_reads example_longWorld) (pt_SniffMaxBytes (pg_TLS (srv_cfg (NewServer example_pipe)))) =
    Some (stream example_tlsReads, Inr ''vm.local'')"
    using example_tls_block by (simp add: example_longWorld_def example_tlsWorld_def NewServer_def example_pipe_def)
qed (auto simp: example_longWorld_def example_tlsWorld_def)

end
