(* ===== verification/Go_Time.thy ===== *)
theory Go_Time
  imports Go_Prelude
begin

text \<open>
  Instants and durations of Go's package \<open>time\<close>. An instant is the number of nanoseconds since the zero
  time, midnight UTC on the first of January of year 1, so that \<open>IsZero\<close> is equality with 0; a duration
  is a signed number of nanoseconds that saturates at 64 bits. \<open>parse_rfc3339\<close> is the strict reader
  behind \<open>Time.UnmarshalJSON\<close>.
\<close>

type_synonym instant = int
type_synonym duration = int

definition second_ns :: int where
  "second_ns = 1000000000"

definition minute_ns :: int where
  "minute_ns = 60 * second_ns"

text \<open>\<open>Time.Sub\<close> saturates; \<open>Since\<close> and \<open>Until\<close> are differences with the clock.\<close>

definition Time_Sub :: "instant \<Rightarrow> instant \<Rightarrow> duration" where
  "Time_Sub t u = max (- (2 ^ 63)) (min (2 ^ 63 - 1) (t - u))"

lemma Time_Sub_le_iff: "- (2 ^ 63) \<le> d \<Longrightarrow> d < 2 ^ 63 - 1 \<Longrightarrow> Time_Sub t u \<le> d \<longleftrightarrow> t - u \<le> d"
  by (auto simp: Time_Sub_def)

lemma Time_Sub_less_iff: "- (2 ^ 63) < d \<Longrightarrow> d \<le> 2 ^ 63 - 1 \<Longrightarrow> Time_Sub t u < d \<longleftrightarrow> t - u < d"
  by (auto simp: Time_Sub_def)

section \<open>Dates\<close>

definition leap_year :: "int \<Rightarrow> bool" where
  "leap_year y \<longleftrightarrow> y mod 4 = 0 \<and> (y mod 100 \<noteq> 0 \<or> y mod 400 = 0)"

definition days_in :: "int \<Rightarrow> int \<Rightarrow> int" where
  "days_in m y = (if m = 2 \<and> leap_year y then 29
     else [31, 28, 31, 30, 31, 30, 31, 31, 30, 31, 30, 31] ! nat (m - 1))"

definition days_before :: "int \<Rightarrow> int \<Rightarrow> int" where
  "days_before m y = sum_list (map (\<lambda>k. days_in k y) [1..m - 1])"

definition days_since_year1 :: "int \<Rightarrow> int" where
  "days_since_year1 y = (y - 1) * 365 + (y - 1) div 4 - (y - 1) div 100 + (y - 1) div 400"

definition Date_UTC :: "int \<Rightarrow> int \<Rightarrow> int \<Rightarrow> int \<Rightarrow> int \<Rightarrow> int \<Rightarrow> int \<Rightarrow> instant" where
  "Date_UTC y m d h mi s ns =
     ((((days_since_year1 y + days_before m y + d - 1) * 24 + h) * 60 + mi) * 60 + s) * second_ns + ns"

section \<open>Reading RFC 3339\<close>

definition parse_uint :: "string \<Rightarrow> int \<Rightarrow> int \<Rightarrow> int option" where
  "parse_uint s lo hi =
     (if list_all is_digit s \<and> lo \<le> digits_val s \<and> digits_val s \<le> hi then Some (digits_val s) else None)"

text \<open>A fraction: a dot and at least one digit, of which nine count.\<close>

definition parse_fraction :: "string \<Rightarrow> int \<times> string" where
  "parse_fraction s =
     (case s of
        c # d # _ \<Rightarrow>
          (if c = CHR ''.'' \<and> is_digit d
           then (let ds = takeWhile is_digit (tl s); nine = take 9 ds in
                 (digits_val nine * 10 ^ (9 - length nine), drop (length ds) (tl s)))
           else (0, s))
      | _ \<Rightarrow> (0, s))"

definition parse_zone :: "string \<Rightarrow> int option" where
  "parse_zone s =
     (if s = ''Z'' then Some 0
      else if length s \<noteq> 6 \<or> hd s \<notin> set ''+-'' \<or> s ! 3 \<noteq> CHR '':'' then None
      else case (parse_uint (take 2 (drop 1 s)) 0 23, parse_uint (drop 4 s) 0 59) of
        (Some h, Some m) \<Rightarrow> Some ((if hd s = CHR ''-'' then - 1 else 1) * (h * 60 + m) * 60)
      | _ \<Rightarrow> None)"

definition parse_rfc3339 :: "string \<Rightarrow> instant option" where
  "parse_rfc3339 s =
     (if length s < 19 \<or> s ! 4 \<noteq> CHR ''-'' \<or> s ! 7 \<noteq> CHR ''-'' \<or> s ! 10 \<noteq> CHR ''T'' \<or> s ! 13 \<noteq> CHR '':''
         \<or> s ! 16 \<noteq> CHR '':'' then None
      else Option.bind (parse_uint (take 4 s) 0 9999) (\<lambda>y.
           Option.bind (parse_uint (take 2 (drop 5 s)) 1 12) (\<lambda>m.
           Option.bind (parse_uint (take 2 (drop 8 s)) 1 (days_in m y)) (\<lambda>d.
           Option.bind (parse_uint (take 2 (drop 11 s)) 0 23) (\<lambda>h.
           Option.bind (parse_uint (take 2 (drop 14 s)) 0 59) (\<lambda>mi.
           Option.bind (parse_uint (take 2 (drop 17 s)) 0 59) (\<lambda>sec.
             let (ns, rest) = parse_fraction (drop 19 s) in
             map_option (\<lambda>off. Date_UTC y m d h mi sec ns - off * second_ns) (parse_zone rest))))))))"

lemma parse_rfc3339_zero: "parse_rfc3339 ''0001-01-01T00:00:00Z'' = Some 0"
  by code_simp

lemma parse_rfc3339_epoch: "parse_rfc3339 ''1970-01-01T01:00:00.5+01:00'' = Some (62135596800500000000)"
  by code_simp

end
