(* ===== verification/Int_Credential.thy ===== *)
theory Int_Credential
  imports Control_Message Go_Time "HOL-Library.AList"
begin

text \<open>
  Credentials of the integration proxy (\<open>credential/credential.go\<close>, \<open>static.go\<close>, \<open>broker.go\<close>): what
  a request asks a token for, the tokens an operator configured, and the client of the control server's
  broker. The environment, the file system and the broker's answers are parameters.
\<close>

section \<open>Scopes, tokens and refusals\<close>

record Scope =
  sc_Integration :: string
  sc_ClientIP :: string
  sc_Credential :: string
  sc_Resource :: string
  sc_Write :: bool

record Token =
  tk_Value :: string
  tk_ExpiresAt :: instant
  tk_Upstream :: string
  tk_Meter :: string
  tk_Account :: string

definition zeroToken :: Token where
  "zeroToken = \<lparr>tk_Value = [], tk_ExpiresAt = 0, tk_Upstream = [], tk_Meter = [], tk_Account = []\<rparr>"

definition stale :: "Token \<Rightarrow> duration \<Rightarrow> instant \<Rightarrow> bool" where
  "stale t skew now \<longleftrightarrow> tk_ExpiresAt t \<noteq> 0 \<and> Time_Sub (tk_ExpiresAt t) now \<le> skew"

text \<open>A refusal with its status, or an error of another kind such as a cancelled context.\<close>

datatype token_error = Denial int string | OtherError string

definition StatusForbidden :: int where "StatusForbidden = 403"
definition StatusConflict :: int where "StatusConflict = 409"
definition StatusTooManyRequests :: int where "StatusTooManyRequests = 429"
definition StatusBadGateway :: int where "StatusBadGateway = 502"
definition StatusServiceUnavailable :: int where "StatusServiceUnavailable = 503"

section \<open>Tokens the operator configured\<close>

record TokenRef =
  tr_File :: string
  tr_Env :: string

definition TokenRef_empty :: "TokenRef \<Rightarrow> bool" where
  "TokenRef_empty r \<longleftrightarrow> r = \<lparr>tr_File = [], tr_Env = []\<rparr>"

text \<open>The credentials are in the order the loop over the map visits them.\<close>

record StaticConfig =
  st_Kind :: string
  st_Credentials :: "(string \<times> TokenRef) list"
  st_Default :: string
  st_Ref :: TokenRef

definition StaticConfig_Empty :: "StaticConfig \<Rightarrow> bool" where
  "StaticConfig_Empty c \<longleftrightarrow> st_Credentials c = [] \<and> TokenRef_empty (st_Ref c)"

definition singleName :: string where
  "singleName = ''default''"

text \<open>The environment variables, the permission bits of a file and its content, where they can be read.\<close>

record os =
  os_Getenv :: "string \<Rightarrow> string"
  os_Stat :: "string \<Rightarrow> 32 word option"
  os_ReadFile :: "string \<Rightarrow> string option"

datatype static_error =
    BothSources string
  | EnvEmpty string string
  | StatFailed string string
  | FileReadable string string "32 word"
  | ReadFailed string string
  | FileEmpty string string
  | NoSource string
  | UnknownKind string
  | SingleAndMap
  | NoCredentials
  | UnknownDefault string

unbundle bit_operations_syntax

definition TokenRef_load :: "os \<Rightarrow> TokenRef \<Rightarrow> string \<Rightarrow> static_error + string" where
  "TokenRef_load env r name =
     (if tr_File r \<noteq> [] \<and> tr_Env r \<noteq> [] then Inl (BothSources name)
      else if tr_Env r \<noteq> [] then
        (let v = trim_space (os_Getenv env (tr_Env r)) in
         if v = [] then Inl (EnvEmpty name (tr_Env r)) else Inr v)
      else if tr_File r \<noteq> [] then
        (case os_Stat env (tr_File r) of
           None \<Rightarrow> Inl (StatFailed name (tr_File r))
         | Some perm \<Rightarrow>
             if perm AND 0x3F \<noteq> 0 then Inl (FileReadable name (tr_File r) perm)
             else (case os_ReadFile env (tr_File r) of
                 None \<Rightarrow> Inl (ReadFailed name (tr_File r))
               | Some b \<Rightarrow> let v = trim_space b in
                   if v = [] then Inl (FileEmpty name (tr_File r)) else Inr v))
      else Inl (NoSource name))"

record Static =
  ss_tokens :: "(string \<times> string) list"
  ss_def :: string

definition load_credential :: "os \<Rightarrow> nat \<Rightarrow> string \<times> TokenRef \<Rightarrow> Static \<Rightarrow> static_error + Static" where
  "load_credential env i = (\<lambda>(name, ref) s.
     rbind (TokenRef_load env ref name) (\<lambda>v. Inr (s\<lparr>ss_tokens := AList.update name v (ss_tokens s)\<rparr>)))"

definition add_single :: "os \<Rightarrow> StaticConfig \<Rightarrow> Static \<Rightarrow> static_error + Static" where
  "add_single env cfg s =
     (if TokenRef_empty (st_Ref cfg) then Inr s
      else if st_Credentials cfg \<noteq> [] then Inl SingleAndMap
      else rbind (TokenRef_load env (st_Ref cfg) singleName) (\<lambda>v.
        Inr (s\<lparr>ss_tokens := AList.update singleName v (ss_tokens s), ss_def := singleName\<rparr>)))"

definition pick_default :: "Static \<Rightarrow> static_error + Static" where
  "pick_default s =
     (if ss_tokens s = [] then Inl NoCredentials
      else let s' = (if ss_def s = [] \<and> length (ss_tokens s) = 1
                     then s\<lparr>ss_def := fst (hd (ss_tokens s))\<rparr> else s) in
        if ss_def s' \<noteq> [] \<and> map_of (ss_tokens s') (ss_def s') = None
        then Inl (UnknownDefault (ss_def s')) else Inr s')"

definition NewStatic :: "os \<Rightarrow> StaticConfig \<Rightarrow> static_error + Static" where
  "NewStatic env cfg =
     (if st_Kind cfg \<notin> {[], ''token''} then Inl (UnknownKind (st_Kind cfg))
      else rbind (for_each 0 (load_credential env) (st_Credentials cfg)
                    \<lparr>ss_tokens = [], ss_def = st_Default cfg\<rparr>) (\<lambda>s.
           rbind (add_single env cfg s) pick_default))"

text \<open>
  \<open>strconv.Quote\<close>, the \<open>%q\<close> of the messages: control characters are escaped, and bytes beyond ASCII are
  kept, as they are for printable letters.
\<close>

definition quote_char :: "char \<Rightarrow> string" where
  "quote_char c = (let n = of_char c :: nat in
     if c = dquote \<or> c = bsl then [bsl, c]
     else if n = 7 then [bsl, CHR ''a''] else if n = 8 then [bsl, CHR ''b''] else if n = 12 then [bsl, CHR ''f'']
     else if n = 10 then [bsl, CHR ''n''] else if n = 13 then [bsl, CHR ''r''] else if n = 9 then [bsl, CHR ''t'']
     else if n = 11 then [bsl, CHR ''v'']
     else if n < 32 \<or> n = 127 then [bsl, CHR ''x''] @ hex_encode [byte_of c]
     else [c])"

definition quote :: "string \<Rightarrow> string" where
  "quote s = dquote # concat (map quote_char s) @ [dquote]"

text \<open>The default is used where the client selects nothing.\<close>

definition Static_Token :: "Static \<Rightarrow> Scope \<Rightarrow> token_error + Token" where
  "Static_Token s sc =
     (let name = (if sc_Credential sc = [] then ss_def s else sc_Credential sc) in
      if name = [] then Inl (Denial StatusForbidden
        ''intproxy: this client selects no credential and there is no default'')
      else case map_of (ss_tokens s) name of
        None \<Rightarrow> Inl (Denial StatusForbidden (''intproxy: credential '' @ quote name @ '' is not configured''))
      | Some v \<Rightarrow> Inr (zeroToken\<lparr>tk_Value := v\<rparr>))"

section \<open>The broker\<close>

text \<open>
  The HTTP client behind the broker's socket: for a path, a body and a timeout, \<^term>\<open>None\<close> where no
  answer came, and otherwise the status, the body and whether reading it ended without an error.
\<close>

type_synonym http_client = "string \<Rightarrow> string \<Rightarrow> duration \<Rightarrow> (int \<times> string \<times> bool) option"

record Broker =
  br_timeout :: duration
  br_docs :: string

definition NewBroker :: "duration \<Rightarrow> string \<Rightarrow> Broker" where
  "NewBroker timeout docsURL =
     \<lparr>br_timeout = (if timeout \<le> 0 then 5 * second_ns else timeout), br_docs = docsURL\<rparr>"

definition brokerRequest :: "Scope \<Rightarrow> json" where
  "brokerRequest s = JObj (
     [(''vm_ip'', JStr (sc_ClientIP s)), (''integration'', JStr (sc_Integration s))] @
     str_field ''repo'' (sc_Resource s) @
     str_field ''resource'' (sc_Resource s) @
     [(''write'', JBool (sc_Write s))])"

definition time_set :: "((instant \<Rightarrow> instant) \<Rightarrow> 'r \<Rightarrow> 'r) \<Rightarrow> json \<Rightarrow> 'r \<Rightarrow> 'r option" where
  "time_set upd v m =
     (case v of JStr s \<Rightarrow> map_option (\<lambda>i. upd (\<lambda>_. i) m) (parse_rfc3339 s) | JNull \<Rightarrow> Some m | _ \<Rightarrow> None)"

definition brokerResponse :: "json \<Rightarrow> Token option" where
  "brokerResponse v =
     (case v of
        JObj ms \<Rightarrow> decode_members (find_setter
          [(''token'', str_set tk_Value_update), (''expires_at'', time_set tk_ExpiresAt_update),
           (''account'', str_set tk_Account_update), (''upstream'', str_set tk_Upstream_update),
           (''meter'', str_set tk_Meter_update)]) ms zeroToken
      | JNull \<Rightarrow> Some zeroToken
      | _ \<Rightarrow> None)"

text \<open>
  The message of an error body, whatever else it holds: the decoder goes on after a member of the wrong type,
  and its error is dropped.
\<close>

definition brokerError :: "string \<Rightarrow> string" where
  "brokerError raw =
     (case unmarshal_value raw of
        Some (JObj ms) \<Rightarrow>
          fold (\<lambda>(k, v) m. if equal_fold ''message'' k then (case v of JStr s \<Rightarrow> s | _ \<Rightarrow> m) else m) ms []
      | _ \<Rightarrow> [])"

definition em_dash :: string where
  "em_dash = [CHR 0xE2, CHR 0x80, CHR 0x94]"

definition withDocs :: "Broker \<Rightarrow> string \<Rightarrow> string" where
  "withDocs b msg =
     (if br_docs b = [] then ''intproxy: '' @ msg
      else ''intproxy: '' @ msg @ '' '' @ em_dash @ '' manage integrations at '' @ br_docs b)"

definition denialFor :: "Broker \<Rightarrow> int \<Rightarrow> string \<Rightarrow> token_error" where
  "denialFor b status raw =
     (let msg = trim_space (brokerError raw) in
      if status \<in> {StatusForbidden, StatusConflict} then
        Denial StatusForbidden (withDocs b
          (if msg = [] then ''this vm is not attached to an integration that allows this repository'' else msg))
      else if status = StatusTooManyRequests then
        Denial StatusServiceUnavailable
          ''intproxy: the upstream is rate limiting this integration, so this request can be retried shortly''
      else
        Denial StatusBadGateway ''intproxy: the control server could not issue a credential for this request'')"

definition tokenLimit :: nat where "tokenLimit = 64 * 1024"

definition Broker_Token :: "http_client \<Rightarrow> Broker \<Rightarrow> Scope \<Rightarrow> token_error + Token" where
  "Broker_Token hc b s =
     (case hc ''/v1/token'' (print_json (brokerRequest s)) (br_timeout b) of
        None \<Rightarrow> Inl (Denial StatusBadGateway
          ''intproxy: could not reach the control server, so this request can be retried'')
      | Some (status, body, _) \<Rightarrow>
          let raw = take tokenLimit body in
          if status \<noteq> 200 then Inl (denialFor b status raw)
          else case Option.bind (unmarshal_value raw) brokerResponse of
            None \<Rightarrow> Inl (Denial StatusBadGateway ''intproxy: the control server returned an unusable token'')
          | Some t \<Rightarrow>
              if tk_Value t = []
              then Inl (Denial StatusBadGateway ''intproxy: the control server returned an unusable token'')
              else Inr t)"

text \<open>\<^term>\<open>None\<close>: the broker could not be reached or its answer not be read.\<close>

definition relayLimit :: nat where "relayLimit = 4 * 1024 * 1024"

definition Broker_Relay :: "http_client \<Rightarrow> string \<Rightarrow> string \<Rightarrow> (int \<times> string) option" where
  "Broker_Relay hc path clientIP =
     (case hc path (print_json (JObj [(''vm_ip'', JStr clientIP)])) (30 * second_ns) of
        Some (status, body, True) \<Rightarrow> Some (status, take relayLimit body)
      | _ \<Rightarrow> None)"

section \<open>What the broker is asked and what it can answer\<close>

lemma Broker_Token_refusal:
  assumes "Broker_Token hc b s = Inl e"
  shows "\<exists>status msg. e = Denial status msg \<and>
    status \<in> {StatusForbidden, StatusBadGateway, StatusServiceUnavailable}"
  using assms by (auto simp: Broker_Token_def denialFor_def Let_def split: option.splits if_splits)

lemma Broker_Token_granted:
  assumes "Broker_Token hc b s = Inr t"
  shows "tk_Value t \<noteq> [] \<and> (\<exists>body clean v.
    hc ''/v1/token'' (print_json (brokerRequest s)) (br_timeout b) = Some (200, body, clean) \<and>
    unmarshal_value (take tokenLimit body) = Some v \<and> brokerResponse v = Some t)"
  using assms
  by (auto simp: Broker_Token_def Let_def bind_eq_Some_conv split: option.splits if_splits prod.splits)

lemma str_field_inject [simp]: "str_field k s @ xs = str_field k s' @ xs \<longleftrightarrow> s = s'"
  by (auto simp: str_field_def)

lemma brokerRequest_inject:
  "brokerRequest s = brokerRequest s' \<longleftrightarrow> sc_ClientIP s = sc_ClientIP s' \<and>
     sc_Integration s = sc_Integration s' \<and> sc_Resource s = sc_Resource s' \<and> sc_Write s = sc_Write s'"
  by (auto simp: brokerRequest_def str_field_def)

text \<open>The text of the request determines all that the broker decides on.\<close>

lemma brokerRequest_text_inject:
  assumes "valid_utf8 (sc_ClientIP s)" "valid_utf8 (sc_Integration s)" "valid_utf8 (sc_Resource s)"
    and "valid_utf8 (sc_ClientIP s')" "valid_utf8 (sc_Integration s')" "valid_utf8 (sc_Resource s')"
    and "print_json (brokerRequest s) = print_json (brokerRequest s')"
  shows "sc_ClientIP s = sc_ClientIP s' \<and> sc_Integration s = sc_Integration s' \<and>
     sc_Resource s = sc_Resource s' \<and> sc_Write s = sc_Write s'"
proof -
  have "valid_utf8 ''vm_ip''" "valid_utf8 ''integration''" "valid_utf8 ''repo''"
    "valid_utf8 ''resource''" "valid_utf8 ''write''"
    by code_simp+
  with assms have "json_ok (brokerRequest s)" "json_ok (brokerRequest s')"
    by (simp_all add: brokerRequest_def str_field_def)
  with assms(7) show ?thesis
    by (metis unmarshal_print option.inject brokerRequest_inject)
qed

section \<open>What a configured token is\<close>

lemma TokenRef_load_Inr:
  assumes "TokenRef_load env r name = Inr v"
  shows "v \<noteq> []" and "tr_File r = [] \<longleftrightarrow> tr_Env r \<noteq> []"
    and "tr_File r \<noteq> [] \<Longrightarrow> \<exists>perm. os_Stat env (tr_File r) = Some perm \<and> perm AND 0x3F = 0"
  using assms by (auto simp: TokenRef_load_def Let_def split: if_splits option.splits)

definition configured :: "os \<Rightarrow> StaticConfig \<Rightarrow> string \<Rightarrow> string \<Rightarrow> bool" where
  "configured env cfg name v \<longleftrightarrow>
     (\<exists>ref. ((name, ref) \<in> set (st_Credentials cfg) \<or> name = singleName \<and> ref = st_Ref cfg) \<and>
            TokenRef_load env ref name = Inr v)"

lemma load_credentials_configured:
  assumes "for_each 0 (load_credential env) cs s = Inr s'"
    and "\<And>name v. map_of (ss_tokens s) name = Some v \<Longrightarrow> P name v"
    and "\<And>name ref v. (name, ref) \<in> set cs \<Longrightarrow> TokenRef_load env ref name = Inr v \<Longrightarrow> P name v"
  shows "map_of (ss_tokens s') name = Some v \<Longrightarrow> P name v"
proof -
  have "\<forall>name v. map_of (ss_tokens s') name = Some v \<longrightarrow> P name v"
    by (rule for_each_invariant [OF assms(1), of "\<lambda>_ s. \<forall>name v. map_of (ss_tokens s) name = Some v \<longrightarrow> P name v"])
      (use assms(2,3) in \<open>auto simp: load_credential_def update_conv split: if_splits prod.splits\<close>)
  then show "map_of (ss_tokens s') name = Some v \<Longrightarrow> P name v" by blast
qed

lemma NewStatic_configured:
  assumes "NewStatic env cfg = Inr s" and "map_of (ss_tokens s) name = Some v"
  shows "configured env cfg name v"
proof -
  from assms(1) obtain s1 s2 where s1: "for_each 0 (load_credential env) (st_Credentials cfg)
      \<lparr>ss_tokens = [], ss_def = st_Default cfg\<rparr> = Inr s1"
    and s2: "add_single env cfg s1 = Inr s2" and s: "pick_default s2 = Inr s"
    by (auto simp: NewStatic_def)
  have 1: "configured env cfg name v" if "map_of (ss_tokens s1) name = Some v" for name v
    using load_credentials_configured [OF s1, of "configured env cfg"] that by (auto simp: configured_def)
  have 2: "configured env cfg name v" if "map_of (ss_tokens s2) name = Some v" for name v
    using s2 that 1 by (auto simp: add_single_def configured_def update_conv split: if_splits)
  from s have "ss_tokens s = ss_tokens s2"
    by (auto simp: pick_default_def Let_def split: if_splits)
  with 2 assms(2) show ?thesis by simp
qed

lemma NewStatic_default:
  assumes "NewStatic env cfg = Inr s"
  shows "ss_tokens s \<noteq> []" and "ss_def s \<noteq> [] \<Longrightarrow> map_of (ss_tokens s) (ss_def s) \<noteq> None"
  using assms by (auto simp: NewStatic_def pick_default_def Let_def split: if_splits)

text \<open>
  Further result. A token the proxy hands out from its own configuration is one the operator put there, under
  the credential the client selected or else the default: the configured source was read at the start, gave
  a non-empty value and, for a file, was not readable by group or other. The token never expires.
\<close>

theorem static_token_configured:
  assumes "NewStatic env cfg = Inr s" and "Static_Token s sc = Inr t"
  shows "\<exists>name ref. ((name, ref) \<in> set (st_Credentials cfg) \<or> name = singleName \<and> ref = st_Ref cfg) \<and>
           name = (if sc_Credential sc = [] then ss_def s else sc_Credential sc) \<and>
           TokenRef_load env ref name = Inr (tk_Value t) \<and> tk_Value t \<noteq> [] \<and>
           (tr_File ref \<noteq> [] \<longrightarrow> (\<exists>perm. os_Stat env (tr_File ref) = Some perm \<and> perm AND 0x3F = 0)) \<and>
           \<not> stale t skew now"
proof -
  define name where "name = (if sc_Credential sc = [] then ss_def s else sc_Credential sc)"
  from assms(2) have v: "map_of (ss_tokens s) name = Some (tk_Value t)" "tk_ExpiresAt t = 0"
    by (auto simp: Static_Token_def Let_def name_def zeroToken_def split: if_splits option.splits)
  from NewStatic_configured [OF assms(1) v(1)] obtain ref where
    "(name, ref) \<in> set (st_Credentials cfg) \<or> name = singleName \<and> ref = st_Ref cfg"
    "TokenRef_load env ref name = Inr (tk_Value t)"
    by (auto simp: configured_def)
  with TokenRef_load_Inr [of env ref name "tk_Value t"] v(2) show ?thesis
    by (auto simp: name_def stale_def)
qed

definition example_os :: os where
  "example_os = \<lparr>os_Getenv = (\<lambda>_. []), os_Stat = (\<lambda>_. Some 0x180), os_ReadFile = (\<lambda>_. Some ''ghp_x '')\<rparr>"

definition example_static :: StaticConfig where
  "example_static = \<lparr>st_Kind = ''token'', st_Credentials = [(''bot'', \<lparr>tr_File = ''/etc/bot'', tr_Env = []\<rparr>)],
     st_Default = [], st_Ref = \<lparr>tr_File = [], tr_Env = []\<rparr>\<rparr>"

definition example_scope :: Scope where
  "example_scope = \<lparr>sc_Integration = ''github'', sc_ClientIP = ''10.0.0.1'', sc_Credential = [],
     sc_Resource = ''acme/app'', sc_Write = False\<rparr>"

lemma example_static_new:
  "NewStatic example_os example_static = Inr \<lparr>ss_tokens = [(''bot'', ''ghp_x'')], ss_def = ''bot''\<rparr>"
  "Static_Token \<lparr>ss_tokens = [(''bot'', ''ghp_x'')], ss_def = ''bot''\<rparr> example_scope
     = Inr (zeroToken\<lparr>tk_Value := ''ghp_x''\<rparr>)"
  by code_simp+

theorem static_token_configured_witness:
  "\<exists>ref. TokenRef_load example_os ref ''bot'' = Inr ''ghp_x'' \<and>
     \<not> stale (zeroToken\<lparr>tk_Value := ''ghp_x''\<rparr>) 60 0"
  using static_token_configured [OF example_static_new, of 60 0]
  by (auto simp: example_scope_def)

end
