(* ===== verification/Go_Netip.thy ===== *)
theory Go_Netip
  imports Go_Net Go_Encoding
begin

unbundle bit_operations_syntax

text \<open>
  IP addresses as \<open>net/netip\<close> has them: parsing, printing, prefixes and membership, and glob patterns as
  \<open>path.Match\<close> documents them. An IPv4 address inside IPv6 stays an IPv6 address until it is unmapped.
\<close>

section \<open>Addresses\<close>

datatype ip_addr = V4 "32 word" | V6 "128 word" string

definition octets_val :: "int list \<Rightarrow> int" where
  "octets_val bs = fold (\<lambda>b v. v * 256 + b) bs 0"

text \<open>A field of a dotted address: one to three digits without a leading zero, at most 255.\<close>

definition parse_octet :: "string \<Rightarrow> int option" where
  "parse_octet s =
     (if s = [] \<or> \<not> list_all is_digit s \<or> (length s > 1 \<and> hd s = CHR ''0'') \<or> digits_val s > 255 then None
      else Some (digits_val s))"

definition parse_v4_fields :: "string \<Rightarrow> int list option" where
  "parse_v4_fields s =
     (let parts = split_str s ''.'' in
      if length parts \<noteq> 4 then None else those (map parse_octet parts))"

definition hex_value :: "char \<Rightarrow> int option" where
  "hex_value c =
     (if is_digit c then Some (digit_val c)
      else let n = (of_char c :: int) in
        if 97 \<le> n \<and> n \<le> 102 then Some (n - 87)
        else if 65 \<le> n \<and> n \<le> 70 then Some (n - 55)
        else None)"

definition hex_group :: "string \<Rightarrow> string \<times> string" where
  "hex_group s = (takeWhile (\<lambda>c. hex_value c \<noteq> None) s, dropWhile (\<lambda>c. hex_value c \<noteq> None) s)"

definition hex_group_val :: "string \<Rightarrow> int" where
  "hex_group_val g = fold (\<lambda>c v. v * 16 + the (hex_value c)) g 0"

text \<open>
  The loop over the groups of an IPv6 address: \<open>ip\<close> holds the bytes so far and \<open>ell\<close> where the double
  colon was. There are at most eight rounds.
\<close>

fun v6_loop :: "nat \<Rightarrow> string \<Rightarrow> int list \<Rightarrow> nat option \<Rightarrow> (string \<times> int list \<times> nat option) option" where
  "v6_loop 0 s ip ell = Some (s, ip, ell)"
| "v6_loop (Suc n) s ip ell =
     (let (g, rest) = hex_group s in
      if length g > 4 \<or> g = [] then None
      else if rest \<noteq> [] \<and> hd rest = CHR ''.''
      then (if (ell = None \<and> length ip \<noteq> 12) \<or> length ip + 4 > 16 then None
            else map_option (\<lambda>bs. ([], ip @ bs, ell)) (parse_v4_fields s))
      else let ip = ip @ [hex_group_val g div 256, hex_group_val g mod 256] in
        if rest = [] then Some ([], ip, ell)
        else if hd rest \<noteq> CHR '':'' \<or> tl rest = [] then None
        else let s = tl rest in
          if hd s = CHR '':''
          then (if ell \<noteq> None then None
                else if tl s = [] then Some ([], ip, Some (length ip))
                else v6_loop n (tl s) ip (Some (length ip)))
          else v6_loop n s ip ell)"

definition parse_v6 :: "string \<Rightarrow> ip_addr option" where
  "parse_v6 input =
     (let (s, zone, bad) = (case index_char (CHR ''%'') input of
            None \<Rightarrow> (input, [], False)
          | Some i \<Rightarrow> (take i input, drop (i + 1) input, drop (i + 1) input = []));
          lead = has_prefix s ''::'';
          body = (if lead then drop 2 s else s)
      in if bad then None
         else if lead \<and> body = [] then Some (V6 0 zone)
         else case v6_loop 8 body [] (if lead then Some 0 else None) of
           None \<Rightarrow> None
         | Some (rest, ip, ell) \<Rightarrow>
             if rest \<noteq> [] then None
             else if length ip < 16
             then map_option (\<lambda>e. V6 (word_of_int (octets_val
                    (take e ip @ replicate (16 - length ip) 0 @ drop e ip))) zone) ell
             else if ell \<noteq> None then None
             else Some (V6 (word_of_int (octets_val ip)) zone))"

definition ParseAddr :: "string \<Rightarrow> ip_addr option" where
  "ParseAddr s =
     (case dropWhile (\<lambda>c. c \<notin> set ''.:%'') s of
        [] \<Rightarrow> None
      | c # _ \<Rightarrow>
          if c = CHR ''.'' then map_option (\<lambda>bs. V4 (word_of_int (octets_val bs))) (parse_v4_fields s)
          else if c = CHR '':'' then parse_v6 s
          else None)"

definition BitLen :: "ip_addr \<Rightarrow> nat" where
  "BitLen a = (case a of V4 _ \<Rightarrow> 32 | V6 _ _ \<Rightarrow> 128)"

definition Unmap :: "ip_addr \<Rightarrow> ip_addr" where
  "Unmap a = (case a of V4 w \<Rightarrow> V4 w
     | V6 w zone \<Rightarrow> if drop_bit 32 w = 0xFFFF then V4 (ucast w) else V6 w zone)"

definition v4_string :: "32 word \<Rightarrow> string" where
  "v4_string w = join (map (\<lambda>i. itoa (uint (drop_bit (8 * i) w AND 255))) [3, 2, 1, 0]) ''.''"

text \<open>A 16-bit group in lower-case hexadecimal without leading zeros.\<close>

fun hex_digits :: "nat \<Rightarrow> nat \<Rightarrow> string" where
  "hex_digits 0 i = []"
| "hex_digits (Suc n) i =
     (if i < 16 then [hex_alphabet ! i] else hex_digits n (i div 16) @ [hex_alphabet ! (i mod 16)])"

definition v6_groups :: "128 word \<Rightarrow> nat list" where
  "v6_groups w = map (\<lambda>i. unat (drop_bit (16 * i) w AND 0xFFFF)) [7, 6, 5, 4, 3, 2, 1, 0]"

text \<open>The first longest run of at least two zero groups, as its start and its end.\<close>

definition zero_run :: "nat list \<Rightarrow> nat \<times> nat" where
  "zero_run gs = fold (\<lambda>i (s, e).
     let j = i + length (takeWhile (\<lambda>g. g = 0) (drop i gs)) in
     if j - i \<ge> 2 \<and> j - i > e - s then (i, j) else (s, e)) [0 ..< length gs] (length gs, length gs)"

definition v6_string :: "128 word \<Rightarrow> string" where
  "v6_string w =
     (let gs = v6_groups w; hex = map (hex_digits 4) gs; (s, e) = zero_run gs in
      if s = length gs then join hex '':''
      else join (take s hex) '':'' @ ''::'' @ join (drop e hex) '':'')"

definition Addr_String :: "ip_addr \<Rightarrow> string" where
  "Addr_String a = (case a of
       V4 w \<Rightarrow> v4_string w
     | V6 w zone \<Rightarrow>
         (if drop_bit 32 w = 0xFFFF then ''::ffff:'' @ v4_string (ucast w) else v6_string w) @
         (if zone = [] then [] else ''%'' @ zone))"

section \<open>Prefixes\<close>

text \<open>A prefix keeps no zone; one that was never set is not valid and contains nothing.\<close>

datatype ip_prefix = P4 "32 word" nat | P6 "128 word" nat

definition PrefixFrom :: "ip_addr \<Rightarrow> nat \<Rightarrow> ip_prefix" where
  "PrefixFrom a bits = (case a of V4 w \<Rightarrow> P4 w bits | V6 w _ \<Rightarrow> P6 w bits)"

definition keep_top :: "nat \<Rightarrow> 'a::len word \<Rightarrow> 'a word" where
  "keep_top bits w = push_bit (LENGTH('a) - bits) (drop_bit (LENGTH('a) - bits) w)"

definition Masked :: "ip_prefix \<Rightarrow> ip_prefix" where
  "Masked p = (case p of P4 w b \<Rightarrow> P4 (keep_top b w) b | P6 w b \<Rightarrow> P6 (keep_top b w) b)"

definition same_top :: "nat \<Rightarrow> 'a::len word \<Rightarrow> 'a word \<Rightarrow> bool" where
  "same_top bits v w \<longleftrightarrow> drop_bit (LENGTH('a) - bits) (v XOR w) = 0"

definition Prefix_Contains :: "ip_prefix \<Rightarrow> ip_addr \<Rightarrow> bool" where
  "Prefix_Contains p a = (case (p, a) of
       (P4 v b, V4 w) \<Rightarrow> same_top b v w
     | (P6 v b, V6 w zone) \<Rightarrow> zone = [] \<and> same_top b v w
     | _ \<Rightarrow> False)"

definition has_zone :: "ip_addr \<Rightarrow> bool" where
  "has_zone a = (case a of V4 _ \<Rightarrow> False | V6 _ zone \<Rightarrow> zone \<noteq> [])"

text \<open>The length has no sign and no leading zero and is at most that of the address.\<close>

definition ParsePrefix :: "string \<Rightarrow> ip_prefix option" where
  "ParsePrefix s =
     (case last_index (CHR ''/'') s of
        None \<Rightarrow> None
      | Some i \<Rightarrow>
          (case ParseAddr (take i s) of
             None \<Rightarrow> None
           | Some a \<Rightarrow>
               let bits = drop (i + 1) s in
               if has_zone a \<or> bits = [] \<or> \<not> list_all is_digit bits \<or>
                  (length bits > 1 \<and> hd bits = CHR ''0'') \<or> digits_val bits > int (BitLen a) then None
               else Some (PrefixFrom a (nat (digits_val bits)))))"

section \<open>Membership\<close>

lemma same_top_iff: "same_top bits (v :: 'a::len word) w \<longleftrightarrow>
    drop_bit (LENGTH('a) - bits) v = drop_bit (LENGTH('a) - bits) w"
  unfolding same_top_def by (simp add: bit_eq_iff bit_simps)

lemma drop_bit_keep_top: "drop_bit (LENGTH('a) - bits) (keep_top bits (w :: 'a::len word)) =
    drop_bit (LENGTH('a) - bits) w"
  unfolding keep_top_def
  by (rule bit_word_eqI) (auto simp: bit_simps dest: bit_imp_le_length)

lemmas drop_bit_keep_top4 [simp] = drop_bit_keep_top [where 'a=32, simplified]
lemmas drop_bit_keep_top6 [simp] = drop_bit_keep_top [where 'a=128, simplified]

text \<open>Masking a prefix keeps its members, and a host route has one member.\<close>

lemma Masked_contains [simp]: "Prefix_Contains (Masked p) a \<longleftrightarrow> Prefix_Contains p a"
  by (cases p; cases a) (simp_all add: Prefix_Contains_def Masked_def same_top_iff drop_bit_keep_top)

lemma host_route: "Prefix_Contains (PrefixFrom a (BitLen a)) b \<longleftrightarrow>
    (case (a, b) of (V4 v, V4 w) \<Rightarrow> v = w | (V6 v _, V6 w z) \<Rightarrow> v = w \<and> z = [] | _ \<Rightarrow> False)"
  by (cases a; cases b) (auto simp: Prefix_Contains_def PrefixFrom_def BitLen_def same_top_iff)

lemma zone_never_contained: "has_zone a \<Longrightarrow> \<not> Prefix_Contains p a"
  by (cases p; cases a) (auto simp: Prefix_Contains_def has_zone_def)

lemma families_apart:
  "Prefix_Contains (P4 v b) a \<Longrightarrow> \<exists>w. a = V4 w" "Prefix_Contains (P6 u b) a \<Longrightarrow> \<exists>w. a = V6 w []"
  by (cases a; simp add: Prefix_Contains_def)+

section \<open>A printed address is read back\<close>

lemma index_of_char: "index_of s [c] = index_char c s"
  by (induction s) (simp_all add: has_prefix_def)

lemma split_str_absent: "c \<notin> set a \<Longrightarrow> split_str a [c] = [a]"
  by (subst split_str.simps) (simp add: index_of_char index_char_None [THEN iffD2])

lemma split_str_char: "c \<notin> set a \<Longrightarrow> split_str (a @ c # b) [c] = a # split_str b [c]"
  by (subst split_str.simps) (simp add: index_of_char index_char_append)

lemma split_join_char: "xs \<noteq> [] \<Longrightarrow> \<forall>x\<in>set xs. c \<notin> set x \<Longrightarrow> split_str (join xs [c]) [c] = xs"
  by (induction xs rule: list_nonempty_induct) (simp_all add: join_Cons split_str_absent split_str_char)

lemma octet_parse: "0 \<le> n \<Longrightarrow> n < 256 \<Longrightarrow> parse_octet (itoa n) = Some n"
proof -
  have "list_all (\<lambda>n. parse_octet (itoa n) = Some n) [0..255]"
    by code_simp
  moreover assume "0 \<le> n" "n < 256"
  ultimately show ?thesis by (simp add: list_all_iff)
qed

lemma octet_no_dot: "0 \<le> n \<Longrightarrow> CHR ''.'' \<notin> set (itoa n)"
  using itoa_digits [of n "CHR ''.''"] by (auto simp: is_digit_def)

definition octets :: "32 word \<Rightarrow> int list" where
  "octets w = map (\<lambda>i. uint (drop_bit (8 * i) w AND 255)) [3, 2, 1, 0]"

lemma uint_octet: "uint (drop_bit k (w :: 32 word) AND 255) = uint w div 2 ^ k mod 256"
proof -
  have "uint (drop_bit k w) = drop_bit k (uint w)"
    using uint_lt2p [of w] by (simp add: unsigned_drop_bit_eq take_bit_int_eq_self)
  then have "uint (drop_bit k w AND 255) = drop_bit k (uint w) AND mask 8"
    by (simp add: unsigned_and_eq mask_eq_exp_minus_1)
  also have "\<dots> = uint w div 2 ^ k mod 256"
    by (simp only: take_bit_eq_mask [symmetric] take_bit_eq_mod) (simp add: drop_bit_eq_div)
  finally show ?thesis .
qed

lemma octets_range: "\<forall>n\<in>set (octets w). 0 \<le> n \<and> n < 256"
  by (simp add: octets_def uint_octet)

lemma octets_word: "word_of_int (octets_val (octets w)) = w"
proof -
  define u where "u = uint w"
  have "0 \<le> u" "u < 4294967296"
    using uint_lt2p [of w] by (simp_all add: u_def)
  then have "u div 16777216 mod 256 = u div 16777216"
    using zdiv_mono1 [of u 4294967295 16777216]
    by (intro mod_pos_pos_trivial) (simp_all add: pos_imp_zdiv_nonneg_iff)
  then have top: "u div 16777216 mod 256 = u div 256 div 256 div 256"
    by (simp add: zdiv_zmult2_eq [symmetric])
  have mid: "u div 65536 = u div 256 div 256"
    by (simp add: zdiv_zmult2_eq [symmetric])
  have split: "x div 256 * 256 + x mod 256 = x" for x :: int
    by simp
  have "((u div 16777216 mod 256 * 256 + u div 65536 mod 256) * 256 + u div 256 mod 256) * 256 + u mod 256 = u"
    by (simp only: top mid split)
  moreover have "octets_val [a, b, c, d] = ((a * 256 + b) * 256 + c) * 256 + d" for a b c d
    by (simp add: octets_val_def)
  moreover have "octets w = [u div 16777216 mod 256, u div 65536 mod 256, u div 256 mod 256, u mod 256]"
    by (simp add: octets_def uint_octet u_def)
  ultimately have "octets_val (octets w) = u"
    by (simp only:)
  then show ?thesis by (simp add: u_def)
qed

lemma v4_fields: "parse_v4_fields (v4_string w) = Some (octets w)"
proof -
  have "split_str (v4_string w) ''.'' = map itoa (octets w)"
    unfolding v4_string_def octets_def [symmetric]
    using split_join_char [of "map itoa (octets w)" "CHR ''.''"] octet_no_dot octets_range
    by (auto simp: octets_def)
  moreover have "those (map parse_octet (map itoa (octets w))) = Some (octets w)"
    using octets_range [of w] by (simp add: octets_def octet_parse)
  moreover have "length (octets w) = 4"
    by (simp add: octets_def)
  ultimately show ?thesis
    by (simp add: parse_v4_fields_def)
qed

lemma ParseAddr_v4: "ParseAddr (v4_string w) = Some (V4 w)"
proof -
  have "v4_string w = itoa (octets w ! 0) @ CHR ''.'' # join (map itoa (tl (octets w))) ''.''"
    by (simp add: v4_string_def octets_def)
  moreover have "0 \<le> octets w ! 0"
    by (simp add: octets_def)
  then have "\<forall>c\<in>set (itoa (octets w ! 0)). c \<notin> set ''.:%''"
    using itoa_digits by (fastforce simp: is_digit_def)
  ultimately have "dropWhile (\<lambda>c. c \<notin> set ''.:%'') (v4_string w) = CHR ''.'' # join (map itoa (tl (octets w))) ''.''"
    by (simp add: dropWhile_append)
  then show ?thesis
    unfolding ParseAddr_def by (simp add: v4_fields octets_word)
qed

end
