(* ===== verification/Go_Path.thy ===== *)
theory Go_Path
  imports Go_Unicode Go_Net
begin

text \<open>
  Glob patterns as \<open>path.Match\<close> evaluates them: the pattern is cut into chunks at its stars, a star
  never crosses a slash, and each chunk is matched at the leftmost place that works, without backtracking
  over an earlier star. A malformed pattern is the outer \<^term>\<open>None\<close>.
\<close>

section \<open>Chunks\<close>

text \<open>The length of the chunk before the next star that is neither escaped nor inside a class.\<close>

fun scan_len :: "bool \<Rightarrow> string \<Rightarrow> nat" where
  "scan_len inrange [] = 0"
| "scan_len inrange [c] = (if c = CHR ''*'' \<and> \<not> inrange then 0 else 1)"
| "scan_len inrange (c # d # cs) =
     (if c = CHR 0x5C then 2 + scan_len inrange cs
      else if c = CHR ''['' then Suc (scan_len True (d # cs))
      else if c = CHR '']'' then Suc (scan_len False (d # cs))
      else if c = CHR ''*'' \<and> \<not> inrange then 0
      else Suc (scan_len inrange (d # cs)))"

definition scan_chunk :: "string \<Rightarrow> bool \<times> string \<times> string" where
  "scan_chunk pat =
     (let p = dropWhile (\<lambda>c. c = CHR ''*'') pat; i = scan_len False p in
      (pat \<noteq> p, take i p, drop i p))"

text \<open>One character of a class, possibly escaped; something must follow it.\<close>

definition get_esc :: "string \<Rightarrow> (rune \<times> string) option" where
  "get_esc chunk =
     (if chunk = [] \<or> hd chunk = CHR ''-'' \<or> hd chunk = CHR '']'' then None
      else let body = (if hd chunk = CHR 0x5C then tl chunk else chunk) in
        if body = [] then None
        else let (r, n) = utf8_decode body in
          if r = RuneError \<and> n = 1 then None
          else if drop n body = [] then None
          else Some (r, drop n body))"

text \<open>
  The ranges of a class up to its closing bracket, for the character \<open>r\<close>. Every round takes at least one
  byte of the chunk, so its length bounds the rounds.
\<close>

fun class_ranges :: "nat \<Rightarrow> rune \<Rightarrow> bool \<Rightarrow> bool \<Rightarrow> string \<Rightarrow> (bool \<times> string) option" where
  "class_ranges 0 r matched some chunk = None"
| "class_ranges (Suc n) r matched some chunk =
     (if chunk \<noteq> [] \<and> hd chunk = CHR '']'' \<and> some then Some (matched, tl chunk)
      else case get_esc chunk of
        None \<Rightarrow> None
      | Some (lo, rest) \<Rightarrow>
          if hd rest = CHR ''-''
          then (case get_esc (tl rest) of
                  None \<Rightarrow> None
                | Some (hi, rest) \<Rightarrow> class_ranges n r (matched \<or> lo \<le> r \<and> r \<le> hi) True rest)
          else class_ranges n r (matched \<or> lo \<le> r \<and> r \<le> lo) True rest)"

lemma get_esc_shorter: "get_esc chunk = Some (r, rest) \<Longrightarrow> length rest < length chunk"
  using utf8_decode_size [of chunk] utf8_decode_size [of "tl chunk"]
  by (cases chunk) (auto simp: get_esc_def Let_def split: if_splits prod.splits)

lemma class_ranges_shorter:
  "class_ranges n r matched some chunk = Some (m, rest) \<Longrightarrow> length rest < length chunk"
proof (induction n r matched some chunk rule: class_ranges.induct)
  case (2 n r matched some chunk)
  then show ?case
    using get_esc_shorter
    by (fastforce split: if_splits option.splits prod.splits dest!: get_esc_shorter)
qed simp

text \<open>
  Once the text has failed to match, \<^term>\<open>None\<close>, the rest of the chunk is only checked for its form.
\<close>

function match_chunk :: "string \<Rightarrow> string option \<Rightarrow> string option option" where
  "match_chunk [] s = Some s"
| "match_chunk (c # cs) s0 =
     (let s = (if s0 = Some [] then None else s0) in
      if c = CHR ''['' then
        (let (r, n) = (case s of None \<Rightarrow> (0, 0) | Some t \<Rightarrow> utf8_decode t);
             negated = has_prefix cs ''^'';
             body = (if negated then tl cs else cs)
         in case class_ranges (length body) r False False body of
              None \<Rightarrow> None
            | Some (m, rest) \<Rightarrow> match_chunk rest (if m = negated then None else map_option (drop n) s))
      else if c = CHR ''?'' then
        match_chunk cs (case s of None \<Rightarrow> None
          | Some t \<Rightarrow> if hd t = CHR ''/'' then None else Some (drop (snd (utf8_decode t)) t))
      else if c = CHR 0x5C then
        (case cs of [] \<Rightarrow> None
         | d # ds \<Rightarrow> match_chunk ds (case s of None \<Rightarrow> None | Some t \<Rightarrow> if d = hd t then Some (tl t) else None))
      else match_chunk cs (case s of None \<Rightarrow> None | Some t \<Rightarrow> if c = hd t then Some (tl t) else None))"
  by pat_completeness auto
termination
proof (relation "measure (length \<circ> fst)", goal_cases)
  case (2 c cs s0 s p r n negated body q m rest)
  then have "length rest < length body"
    by (metis class_ranges_shorter)
  moreover have "length body \<le> length cs"
    using 2 by simp
  ultimately show ?case by simp
qed simp_all

section \<open>Whole patterns\<close>

text \<open>Where the last chunk must end the text; the places before the next slash are tried in order.\<close>

definition chunk_ok :: "string \<Rightarrow> string option \<Rightarrow> bool" where
  "chunk_ok rest_pat t \<longleftrightarrow> (case t of None \<Rightarrow> False | Some u \<Rightarrow> u = [] \<or> rest_pat \<noteq> [])"

fun skip_star :: "string \<Rightarrow> string \<Rightarrow> string \<Rightarrow> string option" where
  "skip_star chunk rest_pat [] = None"
| "skip_star chunk rest_pat (c # cs) =
     (if c = CHR ''/'' then None
      else case match_chunk chunk (Some cs) of
        None \<Rightarrow> None
      | Some t \<Rightarrow> if chunk_ok rest_pat t then t else skip_star chunk rest_pat cs)"

lemma scan_len_pos: "p \<noteq> [] \<Longrightarrow> hd p \<noteq> CHR ''*'' \<Longrightarrow> 0 < scan_len False p"
  by (cases p rule: remdups_adj.cases) auto

lemma scan_chunk_shorter:
  assumes "pat \<noteq> []" and "scan_chunk pat = (star, chunk, rest)"
  shows "length rest < length pat"
proof -
  define p where "p = dropWhile (\<lambda>c. c = CHR ''*'') pat"
  have "length p \<le> length pat" "rest = drop (scan_len False p) p"
    using assms(2) length_dropWhile_le by (auto simp: p_def scan_chunk_def Let_def)
  moreover have "p = pat \<Longrightarrow> hd p \<noteq> CHR ''*''"
    using assms(1) hd_dropWhile [of "\<lambda>c. c = CHR ''*''" pat] by (simp add: p_def)
  moreover have "p \<noteq> pat \<Longrightarrow> length p < length pat"
    unfolding p_def by (metis append_same_eq length_dropWhile_le le_neq_implies_less self_append_conv2 takeWhile_dropWhile_id
        length_append add_eq_self_zero add.commute length_0_conv append_Nil)
  ultimately show ?thesis
    using scan_len_pos [of p] assms(1) by (cases "p = pat") auto
qed

function path_match :: "string \<Rightarrow> string \<Rightarrow> bool" where
  "path_match pat name =
     (if pat = [] then name = []
      else let (star, chunk, rest) = scan_chunk pat in
        if star \<and> chunk = [] then CHR ''/'' \<notin> set name
        else case match_chunk chunk (Some name) of
          None \<Rightarrow> False
        | Some t \<Rightarrow>
            if chunk_ok rest t then path_match rest (the t)
            else if star then
              (case skip_star chunk rest name of None \<Rightarrow> False | Some u \<Rightarrow> path_match rest u)
            else False)"
  by pat_completeness auto
termination
  by (relation "measure (length \<circ> fst)") (simp_all, (metis scan_chunk_shorter)+)

declare path_match.simps [simp del]

section \<open>Patterns without special characters, and with a trailing star\<close>

definition literal_pattern :: "string \<Rightarrow> bool" where
  "literal_pattern p \<longleftrightarrow> set p \<inter> {CHR ''*'', CHR ''?'', CHR ''['', CHR '']'', CHR 0x5C} = {}"

lemma scan_len_literal:
  "literal_pattern p \<Longrightarrow> scan_len False (p @ q) = length p + scan_len False q"
proof (induction p)
  case (Cons c p)
  then have IH: "scan_len False (p @ q) = length p + scan_len False q"
    by (simp add: literal_pattern_def)
  show ?case
    using Cons.prems IH by (cases "p @ q") (auto simp: literal_pattern_def)
qed simp

lemma match_chunk_literal:
  "literal_pattern p \<Longrightarrow> match_chunk p (Some s) =
     Some (if has_prefix s p then Some (drop (length p) s) else None)"
proof (induction p arbitrary: s)
  case (Cons c p)
  have none: "literal_pattern p \<Longrightarrow> match_chunk p None = Some None" for p
    by (induction p) (auto simp: literal_pattern_def)
  from Cons show ?case
    by (cases s) (auto simp: literal_pattern_def none has_prefix_def)
qed simp

lemma scan_chunk_literal:
  assumes "literal_pattern p" and "p \<noteq> []"
  shows "scan_chunk p = (False, p, [])" and "scan_chunk (p @ ''*'') = (False, p, ''*'')"
proof -
  have "hd p \<noteq> CHR ''*''"
    using assms hd_in_set [of p] unfolding literal_pattern_def by fastforce
  then have "dropWhile (\<lambda>c. c = CHR ''*'') (p @ q) = p @ q" for q
    using assms(2) by (cases p) auto
  from this [of "[]"] this [of "''*''"]
  show "scan_chunk p = (False, p, [])" "scan_chunk (p @ ''*'') = (False, p, ''*'')"
    using scan_len_literal [OF assms(1), of "[]"] scan_len_literal [OF assms(1), of "''*''"]
    by (simp_all add: scan_chunk_def)
qed

lemma path_match_end [simp]: "path_match [] name \<longleftrightarrow> name = []"
  by (simp add: path_match.simps)

lemma path_match_any: "path_match ''*'' name \<longleftrightarrow> CHR ''/'' \<notin> set name"
  by (simp add: path_match.simps scan_chunk_def)

text \<open>A pattern without special characters matches itself only.\<close>

lemma path_match_literal: "literal_pattern p \<Longrightarrow> path_match p name \<longleftrightarrow> name = p"
proof (cases "p = []")
  case False
  moreover assume "literal_pattern p"
  ultimately show ?thesis
    by (subst path_match.simps)
      (auto simp: scan_chunk_literal match_chunk_literal chunk_ok_def has_prefix_def)
qed simp

text \<open>A trailing star stands for any text without a slash.\<close>

lemma path_match_star:
  assumes "literal_pattern p"
  shows "path_match (p @ ''*'') name \<longleftrightarrow> (\<exists>x. name = p @ x \<and> CHR ''/'' \<notin> set x)"
proof (cases "p = []")
  case False
  with assms show ?thesis
    by (subst path_match.simps)
      (auto simp: scan_chunk_literal match_chunk_literal chunk_ok_def path_match_any has_prefix_iff)
qed (simp add: path_match_any)

end
