(* ===== verification/Int_Policy.thy ===== *)
theory Int_Policy
  imports Int_Credential Go_Netip Go_Path
begin

text \<open>
  The integration proxy's own policy (\<open>policy/policy.go\<close>): the clients by source address, the checks and
  the compilation of their sources, and the decision on a request. A prefix that was never compiled is
  \<^term>\<open>None\<close> and contains no address.
\<close>

section \<open>The policy\<close>

record ClientIntegration =
  ci_Name :: string
  ci_Credential :: string
  ci_Read :: "string list"
  ci_Write :: "string list"
  ci_Unscoped :: "bool option"

record Client =
  cl_Name :: string
  cl_Source :: string
  cl_Integrations :: "ClientIntegration list"
  cl_prefix :: "ip_prefix option"

record Policy =
  po_Default :: string
  po_Clients :: "Client list"

record Decision =
  de_Client :: string
  de_Credential :: string

datatype policy_error =
    AllowDefault
  | BadDefault string
  | NoClients
  | NoSourceFor string
  | BadSource string string
  | ClientTwice string
  | NoIntegrations string
  | UnnamedIntegration string

text \<open>A CIDR is masked; a bare address becomes a host route of the address it maps.\<close>

definition parseSource :: "string \<Rightarrow> ip_prefix option" where
  "parseSource s =
     (if CHR ''/'' \<in> set s then map_option Masked (ParsePrefix s)
      else map_option (\<lambda>a. PrefixFrom (Unmap a) (BitLen (Unmap a))) (ParseAddr s))"

definition compile_integration :: "string \<Rightarrow> nat \<Rightarrow> ClientIntegration \<Rightarrow> unit \<Rightarrow> policy_error + unit" where
  "compile_integration name i ci u = (if ci_Name ci = [] then Inl (UnnamedIntegration name) else Inr ())"

definition compile_client ::
  "nat \<Rightarrow> Client \<Rightarrow> Client list \<times> string list \<Rightarrow> policy_error + Client list \<times> string list" where
  "compile_client i c = (\<lambda>(out, seen).
     if cl_Source c = [] then Inl (NoSourceFor (cl_Name c))
     else case parseSource (cl_Source c) of
       None \<Rightarrow> Inl (BadSource (cl_Name c) (cl_Source c))
     | Some prefix \<Rightarrow>
         let name = (if cl_Name c = [] then cl_Source c else cl_Name c);
             c' = c\<lparr>cl_prefix := Some prefix, cl_Name := name\<rparr>
         in if name \<in> set seen then Inl (ClientTwice name)
            else if cl_Integrations c' = [] then Inl (NoIntegrations name)
            else rbind (for_each 0 (compile_integration name) (cl_Integrations c') ())
                   (\<lambda>_. Inr (out @ [c'], name # seen)))"

definition Compile :: "Policy \<Rightarrow> policy_error + Policy" where
  "Compile p =
     (if po_Default p = ''allow'' then Inl AllowDefault
      else if po_Default p \<notin> {[], ''deny''} then Inl (BadDefault (po_Default p))
      else if po_Clients p = [] then Inl NoClients
      else rbind (for_each 0 compile_client (po_Clients p) ([], []))
             (\<lambda>(out, _). Inr (p\<lparr>po_Clients := out\<rparr>)))"

section \<open>The decision\<close>

definition integration :: "Client \<Rightarrow> string \<Rightarrow> ClientIntegration option" where
  "integration c name = List.find (\<lambda>ci. ci_Name ci = name) (cl_Integrations c)"

definition match_any :: "string list \<Rightarrow> string \<Rightarrow> bool" where
  "match_any patterns resource = list_ex (\<lambda>p. path_match (to_lower p) (to_lower resource)) patterns"

definition contains_ip :: "Client \<Rightarrow> ip_addr \<Rightarrow> bool" where
  "contains_ip c ip = (case cl_prefix c of None \<Rightarrow> False | Some p \<Rightarrow> Prefix_Contains p ip)"

definition forbid :: "string \<Rightarrow> token_error + Decision" where
  "forbid msg = Inl (Denial StatusForbidden msg)"

fun Allow_clients :: "Client list \<Rightarrow> ip_addr \<Rightarrow> string \<Rightarrow> string \<Rightarrow> bool \<Rightarrow> token_error + Decision" where
  "Allow_clients [] ip name resource write =
     forbid (''intproxy: no policy client matches '' @ Addr_String ip)"
| "Allow_clients (c # cs) ip name resource write =
     (if \<not> contains_ip c ip then Allow_clients cs ip name resource write
      else case integration c name of
        None \<Rightarrow> forbid (''intproxy: '' @ cl_Name c @ '' is not allowed to use the '' @ name @ '' integration'')
      | Some ci \<Rightarrow>
          let d = \<lparr>de_Client = cl_Name c, de_Credential = ci_Credential ci\<rparr> in
          if resource = [] then
            (if ci_Unscoped ci \<noteq> Some True
             then forbid (''intproxy: requests that name no repository are off for '' @ cl_Name c @
                          ''; set unscoped: true to allow them'')
             else Inr d)
          else if ci_Read ci = [] \<and> ci_Write ci = [] then Inr d
          else if write then
            (if \<not> match_any (ci_Write ci) resource
             then forbid (''intproxy: '' @ cl_Name c @ '' may not write to '' @ resource)
             else Inr d)
          else if \<not> match_any (ci_Read ci) resource \<and> \<not> match_any (ci_Write ci) resource
          then forbid (''intproxy: '' @ cl_Name c @ '' may not read '' @ resource)
          else Inr d)"

definition Allow :: "Policy \<Rightarrow> ip_addr \<Rightarrow> string \<Rightarrow> string \<Rightarrow> bool \<Rightarrow> token_error + Decision" where
  "Allow p ip name resource write = Allow_clients (po_Clients p) ip name resource write"

section \<open>What the policy promises\<close>

text \<open>
  The first client whose source contains the address decides, by its first entry for the integration.
\<close>

definition deciding_client :: "Client list \<Rightarrow> ip_addr \<Rightarrow> Client option" where
  "deciding_client cs ip = List.find (\<lambda>c. contains_ip c ip) cs"

definition permits :: "ClientIntegration \<Rightarrow> string \<Rightarrow> bool \<Rightarrow> bool" where
  "permits ci resource write \<longleftrightarrow>
     (if resource = [] then ci_Unscoped ci = Some True
      else ci_Read ci = [] \<and> ci_Write ci = [] \<or> match_any (ci_Write ci) resource \<or>
           \<not> write \<and> match_any (ci_Read ci) resource)"

definition grants :: "Policy \<Rightarrow> ip_addr \<Rightarrow> string \<Rightarrow> string \<Rightarrow> bool \<Rightarrow> Decision option" where
  "grants p ip name resource write =
     Option.bind (deciding_client (po_Clients p) ip) (\<lambda>c.
     Option.bind (integration c name) (\<lambda>ci.
       if permits ci resource write then Some \<lparr>de_Client = cl_Name c, de_Credential = ci_Credential ci\<rparr>
       else None))"

lemma Allow_clients_grants:
  "Allow_clients cs ip name resource write = Inr d \<longleftrightarrow>
     grants \<lparr>po_Default = x, po_Clients = cs\<rparr> ip name resource write = Some d"
  by (induction cs) (auto simp: grants_def deciding_client_def permits_def forbid_def Let_def split: option.split)

lemma Allow_grants: "Allow p ip name resource write = Inr d \<longleftrightarrow> grants p ip name resource write = Some d"
  using Allow_clients_grants [of "po_Clients p" ip name resource "write" d "po_Default p"]
  by (cases p) (simp add: Allow_def)

lemma Allow_clients_refusal:
  "Allow_clients cs ip name resource write = Inl e \<Longrightarrow> \<exists>msg. e = Denial StatusForbidden msg"
  by (induction cs) (auto simp: forbid_def Let_def split: option.splits if_splits)

lemma permits_write_read: "permits ci resource True \<Longrightarrow> permits ci resource False"
  by (auto simp: permits_def split: if_splits)

lemma permits_case:
  "to_lower resource = to_lower resource' \<Longrightarrow> permits ci resource write = permits ci resource' write"
  by (auto simp: permits_def match_any_def to_lower_def)

text \<open>
  Property C22. The decision is the first matching client's and its entry for the integration's: without a
  resource only where \<open>unscoped\<close> says so, otherwise by the lists, where writing implies reading and the case
  of the name does not matter; and every refusal is a 403.
\<close>

theorem Allow_correct:
  "(Allow p ip name resource write = Inr d \<longleftrightarrow> grants p ip name resource write = Some d) \<and>
   (Allow p ip name resource write = Inl e \<longrightarrow> (\<exists>msg. e = Denial StatusForbidden msg)) \<and>
   (Allow p ip name resource True = Inr d \<longrightarrow> Allow p ip name resource False = Inr d) \<and>
   (to_lower resource = to_lower resource' \<longrightarrow>
      (Allow p ip name resource write = Inr d \<longleftrightarrow> Allow p ip name resource' write = Inr d))"
  unfolding Allow_grants
  using permits_write_read permits_case [of resource resource' _ "write"] Allow_clients_refusal
  by (auto simp: grants_def bind_eq_Some_conv Allow_def split: if_splits)

definition example_policy :: Policy where
  "example_policy = \<lparr>po_Default = ''deny'', po_Clients = [
     \<lparr>cl_Name = ''ci'', cl_Source = ''10.0.0.7'', cl_Integrations = [
        \<lparr>ci_Name = ''github'', ci_Credential = ''bot'', ci_Read = [''acme/*''], ci_Write = [], ci_Unscoped = None\<rparr>],
      cl_prefix = None\<rparr>]\<rparr>"

theorem Allow_correct_witness:
  "Allow \<lparr>po_Default = [], po_Clients = map (\<lambda>c. c\<lparr>cl_prefix := Some (P4 0x0A000007 32)\<rparr>) (po_Clients example_policy)\<rparr>
     (V4 0x0A000007) ''github'' ''acme/app'' False = Inr \<lparr>de_Client = ''ci'', de_Credential = ''bot''\<rparr>"
proof -
  let ?p = "\<lparr>po_Default = [], po_Clients = map (\<lambda>c. c\<lparr>cl_prefix := Some (P4 0x0A000007 32)\<rparr>) (po_Clients example_policy)\<rparr>"
  have "Allow ?p (V4 0x0A000007) ''github'' ''Acme/App'' False = Inr \<lparr>de_Client = ''ci'', de_Credential = ''bot''\<rparr>"
    "to_lower ''Acme/App'' = to_lower ''acme/app''"
    by code_simp+
  with Allow_correct [of ?p "V4 0x0A000007" "''github''" "''Acme/App''" False _ undefined "''acme/app''"]
  show ?thesis by blast
qed

section \<open>Compiled sources\<close>

definition compiled :: "Client list \<Rightarrow> Client list \<Rightarrow> bool" where
  "compiled cs out \<longleftrightarrow> list_all2 (\<lambda>c c'. cl_Source c' = cl_Source c \<and> cl_Integrations c' = cl_Integrations c \<and>
     cl_prefix c' = parseSource (cl_Source c) \<and> cl_prefix c' \<noteq> None \<and>
     cl_Name c' = (if cl_Name c = [] then cl_Source c else cl_Name c) \<and> cl_Name c' \<noteq> [] \<and>
     cl_Integrations c \<noteq> [] \<and> (\<forall>ci\<in>set (cl_Integrations c). ci_Name ci \<noteq> [])) cs out \<and>
     distinct (map cl_Name out)"

lemma compile_integrations:
  "for_each i (compile_integration name) cis () = Inr u \<Longrightarrow> \<forall>ci\<in>set cis. ci_Name ci \<noteq> []"
  by (induction cis arbitrary: i) (auto simp: compile_integration_def split: if_splits)

lemma compile_client_Inr:
  assumes "compile_client i c (out, seen) = Inr (out', seen')" and "compiled cs out" and "set seen = set (map cl_Name out)"
  shows "compiled (cs @ [c]) out' \<and> set seen' = set (map cl_Name out')"
  using assms
  by (auto simp: compile_client_def compiled_def Let_def dest!: compile_integrations
      split: option.splits if_splits intro!: list_all2_appendI)

lemma Compile_compiled:
  assumes "Compile p = Inr q"
  shows "compiled (po_Clients p) (po_Clients q) \<and> po_Clients p \<noteq> [] \<and> po_Default p \<in> {[], ''deny''}"
proof -
  from assms obtain out seen where loop: "for_each 0 compile_client (po_Clients p) ([], []) = Inr (out, seen)"
    and q: "q = p\<lparr>po_Clients := out\<rparr>" "po_Clients p \<noteq> []" "po_Default p \<in> {[], ''deny''}"
    by (auto simp: Compile_def split: if_splits prod.splits)
  have "compiled (po_Clients p) (fst (out, seen)) \<and> set (snd (out, seen)) = set (map cl_Name (fst (out, seen)))"
    by (rule for_each_invariant [OF loop, of "\<lambda>acc s. compiled acc (fst s) \<and> set (snd s) = set (map cl_Name (fst s))"])
      (auto simp: compiled_def [of "[]"] dest: compile_client_Inr)
  with q show ?thesis by simp
qed

lemma host_source:
  assumes "CHR ''/'' \<notin> set s" and "parseSource s = Some p" and "Prefix_Contains p ip"
  shows "\<exists>a. ParseAddr s = Some a \<and> (case (Unmap a, ip) of
           (V4 v, V4 w) \<Rightarrow> v = w | (V6 v _, V6 w z) \<Rightarrow> v = w \<and> z = [] | _ \<Rightarrow> False)"
  using assms by (auto simp: parseSource_def host_route)

text \<open>
  Further result. Under a policy that compiled, a granted request comes from an address inside the source of
  one configured client, the one the decision names, for an integration that client lists, with that
  entry's credential and as its lists permit. A source without a slash admits the one address it is.
\<close>

theorem Allow_within_source:
  assumes "Compile p = Inr q" and "Allow q ip name resource write = Inr d"
  shows "\<exists>c\<in>set (po_Clients p). \<exists>pr ci.
     parseSource (cl_Source c) = Some pr \<and> Prefix_Contains pr ip \<and>
     de_Client d = (if cl_Name c = [] then cl_Source c else cl_Name c) \<and>
     ci \<in> set (cl_Integrations c) \<and> ci_Name ci = name \<and> de_Credential d = ci_Credential ci \<and>
     permits ci resource write \<and>
     (CHR ''/'' \<notin> set (cl_Source c) \<longrightarrow> (\<exists>a. ParseAddr (cl_Source c) = Some a \<and>
        (case (Unmap a, ip) of (V4 v, V4 w) \<Rightarrow> v = w | (V6 v _, V6 w z) \<Rightarrow> v = w \<and> z = [] | _ \<Rightarrow> False)))"
proof -
  from assms(2) have "grants q ip name resource write = Some d" by (simp add: Allow_grants)
  then obtain c' ci where c': "deciding_client (po_Clients q) ip = Some c'" "integration c' name = Some ci"
    and d: "permits ci resource write" "d = \<lparr>de_Client = cl_Name c', de_Credential = ci_Credential ci\<rparr>"
    by (auto simp: grants_def bind_eq_Some_conv split: if_splits)
  from c'(1) have "c' \<in> set (po_Clients q)" "contains_ip c' ip"
    by (auto simp: deciding_client_def find_Some_iff)
  moreover from c'(2) have ci: "ci \<in> set (cl_Integrations c')" "ci_Name ci = name"
    by (auto simp: integration_def find_Some_iff)
  moreover from Compile_compiled [OF assms(1)] have comp: "compiled (po_Clients p) (po_Clients q)" by simp
  ultimately obtain c where "c \<in> set (po_Clients p)" "cl_Integrations c' = cl_Integrations c"
    "cl_prefix c' = parseSource (cl_Source c)" "cl_Name c' = (if cl_Name c = [] then cl_Source c else cl_Name c)"
    unfolding compiled_def list_all2_conv_all_nth in_set_conv_nth by metis
  moreover from this \<open>contains_ip c' ip\<close> obtain pr where
    "parseSource (cl_Source c) = Some pr" "Prefix_Contains pr ip"
    by (auto simp: contains_ip_def split: option.splits)
  moreover note host_source [OF _ this]
  ultimately show ?thesis
    using ci d by (intro bexI [of _ c] exI [of _ pr] exI [of _ ci]) auto
qed

theorem Allow_within_source_witness:
  "\<exists>pr. parseSource ''10.0.0.7'' = Some pr \<and> Prefix_Contains pr (V4 0x0A000007)"
proof -
  obtain q where q: "Compile example_policy = Inr q"
    "Allow q (V4 0x0A000007) ''github'' ''Acme/App'' False = Inr \<lparr>de_Client = ''ci'', de_Credential = ''bot''\<rparr>"
  proof
    show "Compile example_policy = Inr (projr (Compile example_policy))" by code_simp
    show "Allow (projr (Compile example_policy)) (V4 0x0A000007) ''github'' ''Acme/App'' False
        = Inr \<lparr>de_Client = ''ci'', de_Credential = ''bot''\<rparr>" by code_simp
  qed
  from Allow_within_source [OF q] show ?thesis by (auto simp: example_policy_def)
qed

end
