(* ===== verification/Go_Url.thy ===== *)
theory Go_Url
  imports Go_Http Go_Netip "HOL-Library.List_Lexorder" "HOL-Library.Char_ord"
begin

text \<open>
  Query strings as \<open>net/url\<close> has them: unescaping, \<open>ParseQuery\<close> without its error (a parameter that does not
  parse is left out), \<open>Values.Get\<close> and \<open>Values.Encode\<close>, which sorts by key. Encoded parameters are read back.
\<close>

fun query_unescape :: "string \<Rightarrow> string option" where
  "query_unescape [] = Some []"
| "query_unescape (c # cs) =
     (if c = CHR ''%'' then
        (case cs of
           a # b # rest \<Rightarrow>
             (case (hex_digit a, hex_digit b) of
                (Some i, Some j) \<Rightarrow> map_option (\<lambda>s. char_of (16 * i + j) # s) (query_unescape rest)
              | _ \<Rightarrow> None)
         | _ \<Rightarrow> None)
      else map_option (\<lambda>s. (if c = CHR ''+'' then CHR '' '' else c) # s) (query_unescape cs))"

definition parse_pair :: "string \<Rightarrow> (string \<times> string) option" where
  "parse_pair p =
     (if CHR '';'' \<in> set p \<or> p = [] then None
      else let (k, v) = (case cut p ''='' of Some kv \<Rightarrow> kv | None \<Rightarrow> (p, [])) in
        case (query_unescape k, query_unescape v) of
          (Some k, Some v) \<Rightarrow> Some (k, v)
        | _ \<Rightarrow> None)"

definition parse_query :: "string \<Rightarrow> (string \<times> string) list" where
  "parse_query q = List.map_filter parse_pair (split_str q ''&'')"

definition query_get :: "(string \<times> string) list \<Rightarrow> string \<Rightarrow> string" where
  "query_get kvs k = (case map_of kvs k of None \<Rightarrow> [] | Some v \<Rightarrow> v)"

definition Values_Encode :: "(string \<times> string) list \<Rightarrow> string" where
  "Values_Encode kvs = values_encode (sort_key fst kvs)"

section \<open>Encoded parameters are read back\<close>

lemma hex_digit_upper: "i < 16 \<Longrightarrow> hex_digit (upper_hex ! i) = Some i"
proof -
  have "list_all (\<lambda>i. hex_digit (upper_hex ! i) = Some i) [0..<16]" by code_simp
  moreover assume "i < 16"
  ultimately show ?thesis by (simp add: list_all_iff)
qed

lemma query_unescape_escape: "query_unescape (query_escape s @ t) = map_option (\<lambda>u. s @ u) (query_unescape t)"
proof (induction s)
  case Nil
  then show ?case by (simp add: query_escape_def map_option.identity)
next
  case (Cons c s)
  define n where "n = (of_char c :: nat)"
  have n: "n < 256" "char_of n = c" using nat_of_char_less_256 [of c] by (simp_all add: n_def)
  have i: "(of_char c :: int) = int n" by (cases c) (simp add: n_def)
  have hex: "nat (of_char c div 16) = n div 16" "nat (of_char c mod 16) = n mod 16"
    unfolding i by (simp_all add: nat_div_distrib nat_mod_distrib)
  have split: "query_escape (c # s) @ t = (if unreserved c then [c] else if c = CHR '' '' then ''+''
      else [CHR ''%'', upper_hex ! (n div 16), upper_hex ! (n mod 16)]) @ query_escape s @ t"
    by (simp add: query_escape_def hex)
  have "unreserved c \<Longrightarrow> c \<noteq> CHR ''%'' \<and> c \<noteq> CHR ''+''"
    by (auto simp: unreserved_def is_digit_def)
  moreover have "16 * (n div 16) + n mod 16 = n" by simp
  ultimately show ?case
    unfolding split using Cons n by (auto simp: hex_digit_upper option.map_comp comp_def)
qed

lemma query_escape_free:
  assumes "\<not> unreserved c" "c \<noteq> CHR ''%''" "c \<noteq> CHR ''+''"
  shows "c \<notin> set (query_escape s)"
  using query_escape_chars [of c s] assms by blast

lemma parse_pair_escape: "parse_pair (query_escape k @ ''='' @ query_escape v) = Some (k, v)"
proof -
  have free: "CHR ''='' \<notin> set (query_escape k)" "CHR '';'' \<notin> set (query_escape k)" "CHR '';'' \<notin> set (query_escape v)"
    by (rule query_escape_free; simp add: unreserved_def is_digit_def)+
  with cut_single [OF free(1), of "query_escape v"]
    query_unescape_escape [of k "[]"] query_unescape_escape [of v "[]"]
  show ?thesis by (simp add: parse_pair_def)
qed

text \<open>Every list of parameters survives being encoded and parsed.\<close>

lemma parse_values_encode: "parse_query (values_encode kvs) = kvs"
proof (cases "kvs = []")
  case True
  then show ?thesis
    by (simp add: parse_query_def values_encode_def split_str_absent parse_pair_def map_filter_def)
next
  case False
  let ?f = "\<lambda>kv. query_escape (fst kv) @ ''='' @ query_escape (snd kv)"
  have "CHR ''&'' \<notin> set (query_escape s)" for s
    by (rule query_escape_free) (simp_all add: unreserved_def is_digit_def)
  then have "split_str (values_encode kvs) ''&'' = map ?f kvs"
    unfolding values_encode_def using False by (intro split_join_char) auto
  moreover have "List.map_filter parse_pair (map ?f kvs) = kvs"
    by (induction kvs) (simp_all add: map_filter_def parse_pair_escape [simplified])
  ultimately show ?thesis by (simp add: parse_query_def)
qed

lemma parse_Values_Encode: "parse_query (Values_Encode kvs) = sort_key fst kvs"
  by (simp add: Values_Encode_def parse_values_encode)

text \<open>Each key keeps its values in their order.\<close>

lemma query_values_kept:
  "filter (\<lambda>kv. fst kv = k) (parse_query (Values_Encode kvs)) = filter (\<lambda>kv. fst kv = k) kvs"
  by (simp add: parse_Values_Encode filter_insort_triv sort_key_stable)

end
