(* ===== verification/Int_Integration.thy ===== *)
theory Int_Integration
  imports Int_Credential Go_Url
begin

text \<open>
  The seam between the integration proxy and what it fronts (\<open>integration/integration.go\<close>): the route an
  integration makes of a request, the \<open>Integration\<close> interface as a record of its methods, the registry of
  kinds, and the contract every integration keeps as the locale \<open>integration_contract\<close>.
\<close>

section \<open>Requests and responses\<close>

text \<open>
  A request as the handler and the integrations see it; the body is what reading it gives and whether the
  read ended without an error. Header names are in canonical form.
\<close>

record http_request =
  hr_Method :: string
  hr_Host :: string
  hr_Path :: string
  hr_RawQuery :: string
  hr_RemoteAddr :: string
  hr_Header :: header
  hr_Body :: "string \<times> bool"

record http_response =
  hs_Status :: int
  hs_Header :: header
  hs_Body :: string

definition header_set :: "string \<Rightarrow> string \<Rightarrow> header \<Rightarrow> header" where
  "header_set k v h = h(k := [v])"

definition header_del :: "string \<Rightarrow> header \<Rightarrow> header" where
  "header_del k h = h(k := [])"

definition header_default :: "string \<Rightarrow> string \<Rightarrow> header \<Rightarrow> header" where
  "header_default k v h = (if header_get h k = [] then header_set k v h else h)"

lemma header_simps [simp]:
  "header_set k v h k' = (if k' = k then [v] else h k')"
  "header_del k h k' = (if k' = k then [] else h k')"
  "header_default k v h k' = (if k' = k \<and> header_get h k = [] then [v] else h k')"
  by (simp_all add: header_set_def header_del_def header_default_def)

lemma header_get_set [simp]: "header_get (header_set k v h) k' = (if k' = k then v else header_get h k')"
  by (simp add: header_get_def)

section \<open>Routes and integrations\<close>

record Route =
  rt_Kind :: string
  rt_Resource :: string
  rt_Write :: bool
  rt_UpstreamHost :: string
  rt_UpstreamPath :: string
  rt_Relay :: string

definition zeroRoute :: Route where
  "zeroRoute = \<lparr>rt_Kind = [], rt_Resource = [], rt_Write = False, rt_UpstreamHost = [], rt_UpstreamPath = [],
     rt_Relay = []\<rparr>"

record Usage =
  us_Model :: string
  us_Input :: int
  us_Output :: int
  us_CacheRead :: int
  us_CacheWrite :: int

definition zeroUsage :: Usage where
  "zeroUsage = \<lparr>us_Model = [], us_Input = 0, us_Output = 0, us_CacheRead = 0, us_CacheWrite = 0\<rparr>"

text \<open>
  The methods of an integration. Classifying may read and replace the request's body, and so may applying
  the credential to the outbound request. \<open>in_Metered\<close>: it implements \<open>Metered\<close>.
\<close>

record Integration =
  in_Name :: string
  in_Classify :: "http_request \<Rightarrow> Route option \<times> http_request"
  in_Apply :: "http_request \<Rightarrow> Route \<Rightarrow> Token \<Rightarrow> http_request"
  in_ModifyResponse :: "http_response \<Rightarrow> http_response"
  in_RenderError :: "Route \<Rightarrow> int \<Rightarrow> string \<Rightarrow> string \<times> string"
  in_Describe :: string
  in_Metered :: bool

text \<open>
  The options of a factory: the name the configuration gave, what decoding its own block gives, and the
  URL of the integration through the proxy.
\<close>

record 'c Options =
  op_Name :: string
  op_Decode :: "'c option"
  op_DocsURL :: string
  op_SelfURL :: "string option"
  op_Version :: string

text \<open>The kinds that register themselves, in the order \<open>Names\<close> sorts them.\<close>

definition registered :: "string list" where
  "registered = [''gitea'', ''github'', ''gitlab'', ''llm'']"

definition Known :: "string \<Rightarrow> bool" where
  "Known name \<longleftrightarrow> name \<in> set registered"

section \<open>The contract\<close>

text \<open>
  The headers the proxy strips before a credential is applied, and those among them that carry a client's
  identity and that no integration sets.
\<close>

definition stripped :: "string list" where
  "stripped = [''Authorization'', ''Cookie'', ''Proxy-Authorization'', ''Forwarded'', ''X-Forwarded-For'',
     ''X-Forwarded-Host'', ''X-Forwarded-Proto'', ''X-Real-Ip'', ''X-Api-Key'', ''Api-Key'', ''Chatgpt-Account-Id'']"

definition identity_headers :: "string set" where
  "identity_headers = set stripped - {''Authorization'', ''Chatgpt-Account-Id''}"

text \<open>
  What the proxy relies on: the credential reaches the outbound request and only its header and body, a
  response sets no cookie and keeps its status, a refusal has a content type and is a line of text that ends
  the body, and a route that is not relayed has an upstream path.
\<close>

locale integration_contract =
  fixes ig :: Integration
    and auth :: "Route \<Rightarrow> Token \<Rightarrow> string"
  assumes apply_auth: "hr_Header (in_Apply ig r rt tok) ''Authorization'' = [auth rt tok]"
    and apply_keeps: "hr_Method (in_Apply ig r rt tok) = hr_Method r" "hr_Host (in_Apply ig r rt tok) = hr_Host r"
      "hr_Path (in_Apply ig r rt tok) = hr_Path r" "hr_RawQuery (in_Apply ig r rt tok) = hr_RawQuery r"
    and apply_clean: "k \<in> identity_headers \<Longrightarrow> hr_Header r k = [] \<Longrightarrow> hr_Header (in_Apply ig r rt tok) k = []"
    and modify_cookie: "hs_Header (in_ModifyResponse ig rs) ''Set-Cookie'' = []"
    and modify_status: "hs_Status (in_ModifyResponse ig rs) = hs_Status rs"
    and render_type: "fst (in_RenderError ig rt status msg) \<noteq> []"
    and render_line: "\<exists>b. snd (in_RenderError ig rt status msg) = b @ [CHR 0x0A]"
    and classify_path: "fst (in_Classify ig r) = Some rt \<Longrightarrow> rt_Relay rt = [] \<Longrightarrow>
      \<exists>p. rt_UpstreamPath rt = CHR ''/'' # p"
begin

lemma render_body_nonempty: "snd (in_RenderError ig rt status msg) \<noteq> []"
  using render_line [of rt status msg] by auto

end

end
