(* ===== verification/Int_Git.thy ===== *)
theory Int_Git
  imports Int_Integration
begin

text \<open>
  The github, gitlab and gitea integrations (\<open>integration/github\<close>, \<open>integration/gitlab\<close>): how a path is
  classified, the resource and the upstream path a route gets, the credential on the outbound request, the
  rewriting of upstream URLs and the shape of a refusal. The regular expressions of the source are spelled
  out on the segments of the path.
\<close>

section \<open>Names\<close>

definition alnum :: "char \<Rightarrow> bool" where
  "alnum c \<longleftrightarrow> is_digit c \<or> (65 \<le> (of_char c :: int) \<and> (of_char c :: int) \<le> 90) \<or>
     (97 \<le> (of_char c :: int) \<and> (of_char c :: int) \<le> 122)"

text \<open>A first character of one class and at most \<open>n\<close> more of another.\<close>

definition name_like :: "(char \<Rightarrow> bool) \<Rightarrow> (char \<Rightarrow> bool) \<Rightarrow> nat \<Rightarrow> string \<Rightarrow> bool" where
  "name_like P Q n s = (case s of [] \<Rightarrow> False | c # cs \<Rightarrow> P c \<and> list_all Q cs \<and> length cs \<le> n)"

definition namePattern :: "string \<Rightarrow> bool" where
  "namePattern = name_like alnum (\<lambda>c. alnum c \<or> c \<in> set ''._-'') 99"

definition segmentPattern :: "string \<Rightarrow> bool" where
  "segmentPattern = name_like (\<lambda>c. alnum c \<or> c = CHR ''_'') (\<lambda>c. alnum c \<or> c \<in> set ''_.-'') 254"

definition validNames :: "string \<Rightarrow> string \<Rightarrow> bool" where
  "validNames owner repo \<longleftrightarrow> namePattern owner \<and> namePattern repo"

definition validProject :: "string \<Rightarrow> bool" where
  "validProject p =
     (let segs = split_str p ''/'' in
      2 \<le> length segs \<and> list_all (\<lambda>s. segmentPattern s \<and> \<not> contains s ''..'') segs)"

text \<open>The lazy group before \<open>(?:\.git)?\<close> leaves a \<open>.git\<close> out unless nothing would be left.\<close>

definition strip_git :: "string \<Rightarrow> string" where
  "strip_git s = (if has_suffix s ''.git'' \<and> length s > 4 then take (length s - 4) s else s)"

text \<open>The last part of a git path, and whether it pushes.\<close>

definition git_service :: "string \<Rightarrow> (string \<times> bool) option" where
  "git_service suffix =
     (if suffix = ''git-upload-pack'' then Some (suffix, False)
      else if suffix = ''git-receive-pack'' then Some (suffix, True) else None)"

definition refs_service :: "http_request \<Rightarrow> bool option" where
  "refs_service r =
     (let service = query_get (parse_query (hr_RawQuery r)) ''service'' in
      if service = ''git-upload-pack'' then Some False
      else if service = ''git-receive-pack'' then Some True else None)"

definition kindGit :: string where "kindGit = ''git''"
definition kindREST :: string where "kindREST = ''rest''"
definition kindGraphQL :: string where "kindGraphQL = ''graphql''"

section \<open>github\<close>

record GitHubConfig =
  gc_GitHost :: string
  gc_APIHost :: string

record GitHub =
  gh_gitHost :: string
  gh_apiHost :: string
  gh_self :: "string option"
  gh_docs :: string
  gh_version :: string

definition or_default :: "string \<Rightarrow> string \<Rightarrow> string" where
  "or_default v d = (if v = [] then d else v)"

definition NewGitHub :: "GitHubConfig Options \<Rightarrow> GitHub" where
  "NewGitHub opts =
     (let c = (case op_Decode opts of None \<Rightarrow> \<lparr>gc_GitHost = [], gc_APIHost = []\<rparr> | Some c \<Rightarrow> c) in
      \<lparr>gh_gitHost = or_default (gc_GitHost c) ''github.com'', gh_apiHost = or_default (gc_APIHost c) ''api.github.com'',
       gh_self = op_SelfURL opts, gh_docs = op_DocsURL opts, gh_version = op_Version opts\<rparr>)"

definition restPath :: "string \<Rightarrow> string option" where
  "restPath path =
     (if path = ''/api/v3'' then Some ''/''
      else if has_prefix path ''/api/v3/'' then Some (CHR ''/'' # drop 8 path) else None)"

definition github_gitRoute :: "GitHub \<Rightarrow> string \<Rightarrow> string \<Rightarrow> string \<Rightarrow> bool \<Rightarrow> Route" where
  "github_gitRoute g owner repo suffix wr =
     zeroRoute\<lparr>rt_Kind := kindGit, rt_Resource := owner @ ''/'' @ repo, rt_Write := wr,
       rt_UpstreamHost := gh_gitHost g, rt_UpstreamPath := ''/'' @ owner @ ''/'' @ repo @ ''.git/'' @ suffix\<rparr>"

text \<open>\<open>restRepoPrefix\<close>: the names after \<open>/repos\<close>, whatever follows them.\<close>

definition rest_resource :: "string \<Rightarrow> string" where
  "rest_resource rest =
     (case split_str rest ''/'' of
        root # repos # owner # repo # _ \<Rightarrow>
          if root = [] \<and> repos = ''repos'' \<and> owner \<noteq> [] \<and> repo \<noteq> [] \<and> validNames owner repo
          then owner @ ''/'' @ repo else []
      | _ \<Rightarrow> [])"

definition github_rest :: "GitHub \<Rightarrow> http_request \<Rightarrow> string \<Rightarrow> Route" where
  "github_rest g r rest =
     zeroRoute\<lparr>rt_Kind := kindREST, rt_Write := hr_Method r \<noteq> ''GET'' \<and> hr_Method r \<noteq> ''HEAD'',
       rt_UpstreamHost := gh_apiHost g, rt_UpstreamPath := rest, rt_Resource := rest_resource rest\<rparr>"

definition github_git :: "GitHub \<Rightarrow> http_request \<Rightarrow> Route option" where
  "github_git g r =
     (case split_str (hr_Path r) ''/'' of
        [root, owner, name, a, b] \<Rightarrow>
          (let repo = strip_git name in
           if root = [] \<and> owner \<noteq> [] \<and> name \<noteq> [] \<and> a = ''info'' \<and> b = ''refs'' \<and> validNames owner repo
           then map_option (github_gitRoute g owner repo ''info/refs'') (refs_service r) else None)
      | [root, owner, name, b] \<Rightarrow>
          (let repo = strip_git name in
           if root = [] \<and> owner \<noteq> [] \<and> name \<noteq> [] \<and> validNames owner repo
           then map_option (\<lambda>(suffix, wr). github_gitRoute g owner repo suffix wr) (git_service b) else None)
      | _ \<Rightarrow> None)"

definition github_Classify :: "GitHub \<Rightarrow> http_request \<Rightarrow> Route option" where
  "github_Classify g r =
     (if hr_Path r = ''/api/graphql'' \<or> hr_Path r = ''/api/v3/graphql'' then
        Some (zeroRoute\<lparr>rt_Kind := kindGraphQL, rt_Write := True, rt_UpstreamHost := gh_apiHost g,
                        rt_UpstreamPath := ''/graphql''\<rparr>)
      else case restPath (hr_Path r) of
        Some rest \<Rightarrow> Some (github_rest g r rest)
      | None \<Rightarrow> github_git g r)"

definition basic_auth :: "string \<Rightarrow> Token \<Rightarrow> string" where
  "basic_auth user tok = ''Basic '' @ b64_encode True b64_std (to_bytes (user @ '':'' @ tk_Value tok))"

definition github_auth :: "Route \<Rightarrow> Token \<Rightarrow> string" where
  "github_auth rt tok =
     (if rt_Kind rt = kindGit then basic_auth ''x-access-token'' tok else ''Bearer '' @ tk_Value tok)"

definition github_Apply :: "GitHub \<Rightarrow> http_request \<Rightarrow> Route \<Rightarrow> Token \<Rightarrow> http_request" where
  "github_Apply g r rt tok =
     (let h = header_set ''Authorization'' (github_auth rt tok) (hr_Header r);
          h = (if rt_Kind rt = kindGit then h
               else header_default ''X-Github-Api-Version'' ''2022-11-28''
                     (header_default ''Accept'' ''application/vnd.github+json'' h))
      in r\<lparr>hr_Header := header_default ''User-Agent'' (''intproxy/'' @ gh_version g) h\<rparr>)"

definition rewriteURL :: "GitHub \<Rightarrow> string \<Rightarrow> string" where
  "rewriteURL g u =
     (case gh_self g of
        None \<Rightarrow> u
      | Some self \<Rightarrow>
          let api = ''https://'' @ gh_apiHost g; git = ''https://'' @ gh_gitHost g in
          if has_prefix u api then self @ ''/api/v3'' @ drop (length api) u
          else if has_prefix u git then self @ drop (length git) u
          else u)"

text \<open>Every \<open><url>\<close> of a \<open>Link\<close> header, found from the left.\<close>

function rewrite_links :: "(string \<Rightarrow> string) \<Rightarrow> string \<Rightarrow> string" where
  "rewrite_links f [] = []"
| "rewrite_links f (c # cs) =
     (let url = takeWhile (\<lambda>d. d \<noteq> CHR ''>'') cs; rest = dropWhile (\<lambda>d. d \<noteq> CHR ''>'') cs in
      if c = CHR ''<'' \<and> url \<noteq> [] \<and> rest \<noteq> [] then CHR ''<'' # f url @ CHR ''>'' # rewrite_links f (tl rest)
      else c # rewrite_links f cs)"
  by pat_completeness auto
termination
  by (relation "measure (length \<circ> snd)") (auto simp: less_Suc_eq_le intro: le_trans [OF diff_le_self length_dropWhile_le])

definition github_ModifyResponse :: "GitHub \<Rightarrow> http_response \<Rightarrow> http_response" where
  "github_ModifyResponse g rs =
     (let h = header_del ''Set-Cookie'' (hs_Header rs);
          link = header_get h ''Link'';
          h = (if link = [] then h else header_set ''Link'' (rewrite_links (rewriteURL g) link) h);
          loc = header_get h ''Location'';
          h = (if loc = [] then h else header_set ''Location'' (rewriteURL g loc) h)
      in rs\<lparr>hs_Header := h\<rparr>)"

definition json_type :: string where "json_type = ''application/json; charset=utf-8''"
definition text_type :: string where "text_type = ''text/plain; charset=utf-8''"

definition github_RenderError :: "GitHub \<Rightarrow> Route \<Rightarrow> int \<Rightarrow> string \<Rightarrow> string \<times> string" where
  "github_RenderError g rt status msg =
     (if rt_Kind rt = kindREST then
        (json_type, print_json (JObj [(''documentation_url'', JStr (gh_docs g)), (''message'', JStr msg)]) @ [CHR 0x0A])
      else if rt_Kind rt = kindGraphQL then
        (json_type, print_json (JObj [(''errors'', JArr [JObj [(''message'', JStr msg)]])]) @ [CHR 0x0A])
      else (text_type, msg @ [CHR 0x0A]))"

definition github :: "GitHub \<Rightarrow> Integration" where
  "github g = \<lparr>in_Name = ''github'', in_Classify = (\<lambda>r. (github_Classify g r, r)), in_Apply = github_Apply g,
     in_ModifyResponse = github_ModifyResponse g, in_RenderError = github_RenderError g,
     in_Describe = ''intproxy: this host serves git over https, the github rest api under /api/v3, and graphql at /api/graphql'',
     in_Metered = False\<rparr>"

section \<open>gitlab and gitea\<close>

record GitLab =
  gl_name :: string
  gl_version :: string

definition NewGitLab :: "'c Options \<Rightarrow> GitLab option" where
  "NewGitLab opts = (if op_Name opts = [] then None else Some \<lparr>gl_name = op_Name opts, gl_version = op_Version opts\<rparr>)"

definition gitlab_gitRoute :: "string \<Rightarrow> string \<Rightarrow> bool \<Rightarrow> Route" where
  "gitlab_gitRoute project suffix wr =
     zeroRoute\<lparr>rt_Kind := kindGit, rt_Resource := project, rt_Write := wr,
       rt_UpstreamPath := ''/'' @ project @ ''.git/'' @ suffix\<rparr>"

text \<open>The project of a path that ends in a suffix: at least one character after the leading slash.\<close>

definition gitlab_project :: "string \<Rightarrow> string \<Rightarrow> string option" where
  "gitlab_project path suffix =
     (if has_prefix path ''/'' \<and> has_suffix path (CHR ''/'' # suffix) \<and> length path > length suffix + 2 then
        (let p = strip_git (drop 1 (take (length path - length suffix - 1) path)) in
         if CHR 0x0A \<notin> set p \<and> validProject p then Some p else None)
      else None)"

definition gitlab_Classify :: "http_request \<Rightarrow> Route option" where
  "gitlab_Classify r =
     (case gitlab_project (hr_Path r) ''info/refs'' of
        Some p \<Rightarrow> map_option (gitlab_gitRoute p ''info/refs'') (refs_service r)
      | None \<Rightarrow>
          (case gitlab_project (hr_Path r) ''git-upload-pack'' of
             Some p \<Rightarrow> Some (gitlab_gitRoute p ''git-upload-pack'' False)
           | None \<Rightarrow> map_option (\<lambda>p. gitlab_gitRoute p ''git-receive-pack'' True)
                       (gitlab_project (hr_Path r) ''git-receive-pack'')))"

definition gitlab_Apply :: "GitLab \<Rightarrow> http_request \<Rightarrow> Route \<Rightarrow> Token \<Rightarrow> http_request" where
  "gitlab_Apply g r rt tok =
     r\<lparr>hr_Header := header_default ''User-Agent'' (''intproxy/'' @ gl_version g)
        (header_set ''Authorization'' (basic_auth ''oauth2'' tok) (hr_Header r))\<rparr>"

definition drop_cookies :: "http_response \<Rightarrow> http_response" where
  "drop_cookies rs = rs\<lparr>hs_Header := header_del ''Set-Cookie'' (hs_Header rs)\<rparr>"

definition gitlab :: "GitLab \<Rightarrow> Integration" where
  "gitlab g = \<lparr>in_Name = gl_name g, in_Classify = (\<lambda>r. (gitlab_Classify r, r)), in_Apply = gitlab_Apply g,
     in_ModifyResponse = drop_cookies, in_RenderError = (\<lambda>rt status msg. (text_type, msg @ [CHR 0x0A])),
     in_Describe = ''intproxy: this host serves git over https, as /<owner>/<repo>.git'', in_Metered = False\<rparr>"

section \<open>The routes of a git path\<close>

definition git_suffixes :: "(string \<times> bool) set" where
  "git_suffixes = {(''info/refs'', False), (''info/refs'', True), (''git-upload-pack'', False), (''git-receive-pack'', True)}"

lemma git_service_suffix: "git_service b = Some (suffix, wr) \<Longrightarrow> (suffix, wr) \<in> git_suffixes \<and> suffix \<noteq> ''info/refs''"
  by (auto simp: git_service_def git_suffixes_def split: if_splits)

lemma refs_suffix: "(''info/refs'', wr) \<in> git_suffixes"
  by (cases wr) (simp_all add: git_suffixes_def)

lemma github_gitD:
  assumes "github_git g r = Some rt"
  shows "\<exists>owner repo suffix wr. validNames owner repo \<and> (suffix, wr) \<in> git_suffixes \<and>
    rt = github_gitRoute g owner repo suffix wr \<and> (suffix = ''info/refs'' \<longrightarrow> refs_service r = Some wr)"
proof -
  obtain segs where segs: "split_str (hr_Path r) ''/'' = segs" by blast
  consider (refs) root owner name a b where "segs = [root, owner, name, a, b]"
    | (pack) root owner name b where "segs = [root, owner, name, b]"
    using assms segs by (auto simp: github_git_def split: list.split_asm)
  then show ?thesis
  proof cases
    case refs
    with assms segs have "validNames owner (strip_git name)"
      "\<exists>wr. refs_service r = Some wr \<and> rt = github_gitRoute g owner (strip_git name) ''info/refs'' wr"
      by (auto simp: github_git_def Let_def split: if_split_asm)
    with refs_suffix show ?thesis by blast
  next
    case pack
    with assms segs have "validNames owner (strip_git name)"
      "\<exists>suffix wr. git_service b = Some (suffix, wr) \<and> rt = github_gitRoute g owner (strip_git name) suffix wr"
      by (auto simp: github_git_def Let_def split: if_split_asm)
    with git_service_suffix show ?thesis by blast
  qed
qed

section \<open>The contract holds\<close>

interpretation gh: integration_contract "github g" github_auth for g
proof
  fix r rt tok rs status msg
  show "hr_Header (in_Apply (github g) r rt tok) ''Authorization'' = [github_auth rt tok]"
    by (simp add: github_def github_Apply_def Let_def)
  show "hr_Method (in_Apply (github g) r rt tok) = hr_Method r" "hr_Host (in_Apply (github g) r rt tok) = hr_Host r"
    "hr_Path (in_Apply (github g) r rt tok) = hr_Path r" "hr_RawQuery (in_Apply (github g) r rt tok) = hr_RawQuery r"
    by (simp_all add: github_def github_Apply_def Let_def)
  show "k \<in> identity_headers \<Longrightarrow> hr_Header r k = [] \<Longrightarrow> hr_Header (in_Apply (github g) r rt tok) k = []" for k
    by (auto simp: github_def github_Apply_def identity_headers_def stripped_def Let_def)
  show "hs_Header (in_ModifyResponse (github g) rs) ''Set-Cookie'' = []"
    by (simp add: github_def github_ModifyResponse_def Let_def)
  show "hs_Status (in_ModifyResponse (github g) rs) = hs_Status rs"
    by (simp add: github_def github_ModifyResponse_def Let_def)
  show "fst (in_RenderError (github g) rt status msg) \<noteq> []"
    by (simp add: github_def github_RenderError_def json_type_def text_type_def)
  show "\<exists>b. snd (in_RenderError (github g) rt status msg) = b @ [CHR 0x0A]"
    by (simp add: github_def github_RenderError_def)
  show "fst (in_Classify (github g) r) = Some rt \<Longrightarrow> rt_Relay rt = [] \<Longrightarrow> \<exists>p. rt_UpstreamPath rt = CHR ''/'' # p"
    by (auto simp: github_def github_Classify_def github_rest_def github_gitRoute_def restPath_def
        dest!: github_gitD split: if_split_asm option.split_asm)
qed

interpretation gl: integration_contract "gitlab g" "\<lambda>_. basic_auth ''oauth2''" for g
proof
  fix r rt tok rs status msg
  show "hr_Header (in_Apply (gitlab g) r rt tok) ''Authorization'' = [basic_auth ''oauth2'' tok]"
    "hr_Method (in_Apply (gitlab g) r rt tok) = hr_Method r" "hr_Host (in_Apply (gitlab g) r rt tok) = hr_Host r"
    "hr_Path (in_Apply (gitlab g) r rt tok) = hr_Path r" "hr_RawQuery (in_Apply (gitlab g) r rt tok) = hr_RawQuery r"
    by (simp_all add: gitlab_def gitlab_Apply_def)
  show "k \<in> identity_headers \<Longrightarrow> hr_Header r k = [] \<Longrightarrow> hr_Header (in_Apply (gitlab g) r rt tok) k = []" for k
    by (auto simp: gitlab_def gitlab_Apply_def identity_headers_def stripped_def)
  show "hs_Header (in_ModifyResponse (gitlab g) rs) ''Set-Cookie'' = []"
    "hs_Status (in_ModifyResponse (gitlab g) rs) = hs_Status rs"
    by (simp_all add: gitlab_def drop_cookies_def)
  show "fst (in_RenderError (gitlab g) rt status msg) \<noteq> []"
    "\<exists>b. snd (in_RenderError (gitlab g) rt status msg) = b @ [CHR 0x0A]"
    by (simp_all add: gitlab_def text_type_def)
  show "fst (in_Classify (gitlab g) r) = Some rt \<Longrightarrow> rt_Relay rt = [] \<Longrightarrow> \<exists>p. rt_UpstreamPath rt = CHR ''/'' # p"
    by (auto simp: gitlab_def gitlab_Classify_def gitlab_gitRoute_def split: option.splits)
qed

section \<open>The resource and the upstream path agree\<close>

text \<open>A segment that cannot leave its directory.\<close>

definition plain_segment :: "string \<Rightarrow> bool" where
  "plain_segment s \<longleftrightarrow> s \<noteq> [] \<and> s \<noteq> ''.'' \<and> s \<noteq> ''..'' \<and> CHR ''/'' \<notin> set s"

definition plain_path :: "string \<Rightarrow> bool" where
  "plain_path p \<longleftrightarrow> (\<exists>segs. segs \<noteq> [] \<and> split_str p ''/'' = [] # segs \<and> list_all plain_segment segs)"

lemma alnum_other: "alnum c \<Longrightarrow> c \<noteq> CHR ''/'' \<and> c \<noteq> CHR ''.''"
  by (auto simp: alnum_def is_digit_def)

lemma name_like_plain:
  assumes "name_like P Q n s" and "\<And>c. P c \<Longrightarrow> c \<noteq> CHR ''/'' \<and> c \<noteq> CHR ''.''" and "\<And>c. Q c \<Longrightarrow> c \<noteq> CHR ''/''"
    and "CHR ''/'' \<notin> set t"
  shows "plain_segment (s @ t)"
proof (cases s)
  case (Cons c cs)
  with assms(1) have "P c" "\<forall>d\<in>set cs. Q d" by (simp_all add: name_like_def list_all_iff)
  with assms(2-4) have "c \<noteq> CHR ''/''" "c \<noteq> CHR ''.''" "CHR ''/'' \<notin> set cs" by blast+
  with Cons assms(4) show ?thesis by (simp add: plain_segment_def)
qed (use assms(1) in \<open>simp add: name_like_def\<close>)

lemma namePattern_plain: "namePattern s \<Longrightarrow> CHR ''/'' \<notin> set t \<Longrightarrow> plain_segment (s @ t)"
  unfolding namePattern_def by (erule name_like_plain) (use alnum_other in auto)

lemma segmentPattern_plain: "segmentPattern s \<Longrightarrow> CHR ''/'' \<notin> set t \<Longrightarrow> plain_segment (s @ t)"
  unfolding segmentPattern_def by (erule name_like_plain) (use alnum_other in auto)

lemma plain_path_join:
  assumes "segs \<noteq> []" and "list_all plain_segment segs"
  shows "plain_path (CHR ''/'' # join segs ''/'')"
proof -
  have "split_str (join segs ''/'') ''/'' = segs"
    using assms by (intro split_join_char) (auto simp: list_all_iff plain_segment_def)
  then show ?thesis
    using assms split_str_char [of "CHR ''/''" "[]" "join segs ''/''"] by (auto simp: plain_path_def)
qed

lemma suffix_plain:
  "plain_segment ''info''" "plain_segment ''refs''" "plain_segment ''git-upload-pack''" "plain_segment ''git-receive-pack''"
  by (simp_all add: plain_segment_def)

lemma github_git_kind:
  assumes "github_Classify g r = Some rt" and "rt_Kind rt = kindGit"
  shows "github_git g r = Some rt"
  using assms
  by (auto simp: github_Classify_def github_rest_def kindGit_def kindREST_def kindGraphQL_def
      split: if_split_asm option.split_asm)

lemma git_suffix_segments:
  assumes "(suffix, wr) \<in> git_suffixes"
  obtains segs where "suffix = join segs ''/''" "segs \<noteq> []" "list_all plain_segment segs"
proof (cases "suffix = ''info/refs''")
  case True
  then show ?thesis
    using suffix_plain by (intro that [of "[''info'', ''refs'']"]) simp_all
next
  case False
  with assms show ?thesis
    using suffix_plain by (intro that [of "[suffix]"]) (auto simp: git_suffixes_def)
qed

lemma join_append: "xs \<noteq> [] \<Longrightarrow> ys \<noteq> [] \<Longrightarrow> join (xs @ ys) sep = join xs sep @ sep @ join ys sep"
  by (induction xs rule: list_nonempty_induct) (simp_all add: join_Cons)

lemma git_path_plain:
  assumes "segs \<noteq> []" "list_all plain_segment segs" "segmentPattern last_seg \<or> namePattern last_seg"
    and "(suffix, wr) \<in> git_suffixes"
  shows "plain_path (''/'' @ join (segs @ [last_seg]) ''/'' @ ''.git/'' @ suffix)"
proof -
  obtain tail where tail: "suffix = join tail ''/''" "tail \<noteq> []" "list_all plain_segment tail"
    by (rule git_suffix_segments [OF assms(4)])
  have "plain_segment (last_seg @ ''.git'')"
    using assms(3) namePattern_plain [of last_seg "''.git''"] segmentPattern_plain [of last_seg "''.git''"] by auto
  with assms(1,2) tail have "plain_path (CHR ''/'' # join (segs @ (last_seg @ ''.git'') # tail) ''/'')"
    by (intro plain_path_join) simp_all
  moreover have "join (segs @ (last_seg @ ''.git'') # tail) ''/'' = join (segs @ [last_seg]) ''/'' @ ''.git/'' @ suffix"
    using assms(1) tail by (simp add: join_append join_Cons)
  ultimately show ?thesis by simp
qed

lemma gitlab_projectD:
  "gitlab_project path suffix = Some p \<Longrightarrow> validProject p"
  by (auto simp: gitlab_project_def Let_def split: if_split_asm)

lemma gitlab_routeD:
  assumes "gitlab_Classify r = Some rt"
  shows "\<exists>p suffix wr. validProject p \<and> (suffix, wr) \<in> git_suffixes \<and> rt = gitlab_gitRoute p suffix wr"
proof -
  have pack: "(''git-upload-pack'', False) \<in> git_suffixes" "(''git-receive-pack'', True) \<in> git_suffixes"
    by (simp_all add: git_suffixes_def)
  from assms consider
      (refs) p wr where "gitlab_project (hr_Path r) ''info/refs'' = Some p" "rt = gitlab_gitRoute p ''info/refs'' wr"
    | (upload) p where "gitlab_project (hr_Path r) ''git-upload-pack'' = Some p" "rt = gitlab_gitRoute p ''git-upload-pack'' False"
    | (receive) p where "gitlab_project (hr_Path r) ''git-receive-pack'' = Some p" "rt = gitlab_gitRoute p ''git-receive-pack'' True"
    by (auto simp: gitlab_Classify_def split: option.split_asm)
  then show ?thesis
    by cases (blast dest: gitlab_projectD intro: refs_suffix pack)+
qed

lemma route_fields [simp]:
  "rt_Resource (gitlab_gitRoute p suffix wr) = p" "rt_Write (gitlab_gitRoute p suffix wr) = wr"
  "rt_UpstreamPath (gitlab_gitRoute p suffix wr) = ''/'' @ p @ ''.git/'' @ suffix"
  "rt_Resource (github_gitRoute g owner repo suffix wr) = owner @ ''/'' @ repo"
  "rt_Write (github_gitRoute g owner repo suffix wr) = wr"
  "rt_UpstreamHost (github_gitRoute g owner repo suffix wr) = gh_gitHost g"
  "rt_UpstreamPath (github_gitRoute g owner repo suffix wr) = ''/'' @ owner @ ''/'' @ repo @ ''.git/'' @ suffix"
  by (simp_all add: gitlab_gitRoute_def github_gitRoute_def)


definition example_int_request :: "string \<Rightarrow> string \<Rightarrow> string \<Rightarrow> http_request" where
  "example_int_request meth path query = \<lparr>hr_Method = meth, hr_Host = ''github.int.example.com'', hr_Path = path,
     hr_RawQuery = query, hr_RemoteAddr = ''10.0.0.7:50000'', hr_Header = (\<lambda>_. []), hr_Body = ([], True)\<rparr>"

definition example_github :: GitHub where
  "example_github = NewGitHub \<lparr>op_Name = ''github'', op_Decode = None, op_DocsURL = [],
     op_SelfURL = Some ''https://github.int.example.com'', op_Version = ''1''\<rparr>"


section \<open>The REST api\<close>

text \<open>
  Further result. A REST request goes to the api host with its path as it came. The resource it is authorized
  for, if any, names two plain segments, and its path is below \<open>/repos/\<close> and that resource; every method but GET and
  HEAD counts as a write, and so does a GraphQL request, which has no resource.
\<close>

theorem rest_upstream_under_resource:
  assumes "github_Classify g r = Some rt" and "rt_Kind rt \<noteq> kindGit"
  shows "rt_UpstreamHost rt = gh_apiHost g \<and>
    (rt_Resource rt \<noteq> [] \<longrightarrow>
       (\<exists>owner repo tail. rt_Resource rt = owner @ ''/'' @ repo \<and> plain_segment owner \<and> plain_segment repo \<and>
          rt_UpstreamPath rt = ''/repos/'' @ rt_Resource rt @ tail \<and> (tail = [] \<or> hd tail = CHR ''/''))) \<and>
    (rt_Write rt \<longleftrightarrow> rt_Kind rt = kindGraphQL \<or> hr_Method r \<notin> {''GET'', ''HEAD''})"
proof -
  have res: "\<exists>owner repo tail. rest_resource rest = owner @ ''/'' @ repo \<and> plain_segment owner \<and> plain_segment repo \<and>
      rest = ''/repos/'' @ rest_resource rest @ tail \<and> (tail = [] \<or> hd tail = CHR ''/'')"
    if "rest_resource rest \<noteq> []" for rest
  proof -
    from that obtain owner repo more where segs: "split_str rest ''/'' = [] # ''repos'' # owner # repo # more"
      and valid: "validNames owner repo"
      by (auto simp: rest_resource_def split: list.split_asm if_split_asm)
    have "rest = join ([] # ''repos'' # owner # repo # more) ''/''"
      using join_split [of rest "''/''"] segs by simp
    also have "\<dots> = ''/repos/'' @ (owner @ ''/'' @ repo) @ (if more = [] then [] else ''/'' @ join more ''/'')"
      by (cases more) simp_all
    finally have "rest = \<dots>" .
    moreover have "rest_resource rest = owner @ ''/'' @ repo"
      using segs that by (auto simp: rest_resource_def split: if_split_asm)
    ultimately show ?thesis
      using valid namePattern_plain [of _ "[]"]
      by (intro exI [of _ owner] exI [of _ repo] exI [of _ "if more = [] then [] else ''/'' @ join more ''/''"])
        (auto simp: validNames_def)
  qed
  have not_git: "github_git g r \<noteq> Some rt"
    using assms(2) by (auto dest!: github_gitD simp: github_gitRoute_def)
  consider (ql) "rt = zeroRoute\<lparr>rt_Kind := kindGraphQL, rt_Write := True, rt_UpstreamHost := gh_apiHost g,
        rt_UpstreamPath := ''/graphql''\<rparr>"
    | (rest) rest where "rt = github_rest g r rest"
    using assms(1) not_git by (auto simp: github_Classify_def split: if_split_asm option.split_asm)
  then show ?thesis
  proof cases
    case ql
    then show ?thesis by (simp add: zeroRoute_def)
  next
    case (rest rest)
    then show ?thesis
      using res [of rest] by (auto simp: github_rest_def kindREST_def kindGraphQL_def)
  qed
qed

theorem rest_upstream_under_resource_witness:
  "\<exists>tail. ''/repos/acme/app/pulls'' = ''/repos/'' @ ''acme/app'' @ tail \<and> (tail = [] \<or> hd tail = CHR ''/'')"
proof -
  let ?r = "example_int_request ''POST'' ''/api/v3/repos/acme/app/pulls'' []"
  let ?rt = "github_rest example_github ?r ''/repos/acme/app/pulls''"
  have c: "github_Classify example_github ?r = Some ?rt" "rt_Kind ?rt \<noteq> kindGit" "rt_Resource ?rt = ''acme/app''"
    "rt_UpstreamPath ?rt = ''/repos/acme/app/pulls''"
    by code_simp+
  from rest_upstream_under_resource [OF c(1,2)] c(3,4) show ?thesis by auto
qed

text \<open>What follows the names is not looked at: it may climb out of the repository the request was authorized for.\<close>

lemma rest_path_may_climb:
  "\<exists>rt. github_Classify example_github (example_int_request ''GET'' ''/api/v3/repos/acme/app/../../evil/x'' []) = Some rt \<and>
     rt_Resource rt = ''acme/app'' \<and> rt_UpstreamPath rt = ''/repos/acme/app/../../evil/x'' \<and> \<not> plain_path (rt_UpstreamPath rt)"
proof -
  let ?r = "example_int_request ''GET'' ''/api/v3/repos/acme/app/../../evil/x'' []"
  let ?rt = "github_rest example_github ?r ''/repos/acme/app/../../evil/x''"
  have "github_Classify example_github ?r = Some ?rt" "rt_Resource ?rt = ''acme/app''"
    "rt_UpstreamPath ?rt = ''/repos/acme/app/../../evil/x''"
    by code_simp+
  moreover have "split_str ''/repos/acme/app/../../evil/x'' ''/'' =
      [[], ''repos'', ''acme'', ''app'', ''..'', ''..'', ''evil'', ''x'']"
    by code_simp
  ultimately show ?thesis
    by (intro exI [of _ ?rt]) (auto simp: plain_path_def plain_segment_def)
qed

section \<open>Links of a paginated answer lead back through the proxy\<close>

text \<open>
  Further result. A URL of the api host in a \<open>Link\<close> or \<open>Location\<close> header is rewritten to one under the proxy's own
  address which, when the client follows it, is classified back to the same upstream path; a URL of another
  host stays as it is.
\<close>

theorem rewritten_url_leads_back:
  assumes "gh_self g = Some self"
  shows "rewriteURL g (''https://'' @ gh_apiHost g @ CHR ''/'' # p) = self @ ''/api/v3/'' @ p \<and>
    (hr_Path r = ''/api/v3/'' @ p \<longrightarrow> p \<noteq> ''graphql'' \<longrightarrow>
       (\<exists>rt. github_Classify g r = Some rt \<and> rt_UpstreamPath rt = CHR ''/'' # p \<and> rt_UpstreamHost rt = gh_apiHost g)) \<and>
    (\<not> has_prefix u (''https://'' @ gh_apiHost g) \<longrightarrow> \<not> has_prefix u (''https://'' @ gh_gitHost g) \<longrightarrow> rewriteURL g u = u)"
  using assms
  by (auto simp: rewriteURL_def github_Classify_def restPath_def github_rest_def Let_def has_prefix_def)

theorem rewritten_url_leads_back_witness:
  "rewriteURL example_github ''https://api.github.com/x'' = ''https://github.int.example.com/api/v3/x''"
proof -
  have "gh_self example_github = Some ''https://github.int.example.com''" "gh_apiHost example_github = ''api.github.com''"
    by code_simp+
  with rewritten_url_leads_back [of example_github "''https://github.int.example.com''" "''x''"]
  show ?thesis by simp
qed

end
