(* ===== verification/Int_Llm.thy ===== *)
theory Int_Llm
  imports Int_Git
begin

text \<open>
  The llm integration (\<open>integration/llm\<close>): the routes, the key source taken off the model, the reshaping of a
  request for the codex backend, the credential and the refusals, and the meter that reads usage off a
  response as it streams past. A \<open>RawMessage\<close> is modelled by the value it holds: a member that is passed on is
  printed again, which can change its escapes but not its value.
\<close>

section \<open>Objects as maps\<close>

text \<open>A \<open>map[string]json.RawMessage\<close>: the last of equal keys wins, and printing sorts the keys.\<close>

definition obj_map :: "(string \<times> json) list \<Rightarrow> (string \<times> json) list" where
  "obj_map ms = sort_key fst (AList.clearjunk (rev ms))"

definition obj_put :: "string \<Rightarrow> json \<Rightarrow> (string \<times> json) list \<Rightarrow> (string \<times> json) list" where
  "obj_put k v ms = sort_key fst (AList.update k v ms)"

definition obj_del :: "string \<Rightarrow> (string \<times> json) list \<Rightarrow> (string \<times> json) list" where
  "obj_del k ms = filter (\<lambda>kv. fst kv \<noteq> k) ms"

text \<open>A missing member is an error, \<open>null\<close> leaves the empty string.\<close>

definition raw_string :: "json option \<Rightarrow> string option" where
  "raw_string v = (case v of Some (JStr s) \<Rightarrow> Some s | Some JNull \<Rightarrow> Some [] | _ \<Rightarrow> None)"

definition unmarshal_map :: "string \<Rightarrow> (string \<times> json) list option" where
  "unmarshal_map raw =
     (case unmarshal_value raw of
        Some (JObj ms) \<Rightarrow> Some (obj_map ms)
      | Some JNull \<Rightarrow> Some []
      | _ \<Rightarrow> None)"

section \<open>Routes\<close>

definition kindModels :: string where "kindModels = ''models''"
definition kindOpenAI :: string where "kindOpenAI = ''openai''"
definition kindAnthropic :: string where "kindAnthropic = ''anthropic''"
definition kindResponses :: string where "kindResponses = ''responses''"

definition RelayModels :: string where "RelayModels = ''/v1/llm/models''"

definition maxBody :: int where "maxBody = 32 * 1024 * 1024"

text \<open>Lower-case letters and digits, at least one, and an optional \<open>@global\<close>.\<close>

definition source_char :: "char \<Rightarrow> bool" where
  "source_char c \<longleftrightarrow> is_digit c \<or> (97 \<le> (of_char c :: int) \<and> (of_char c :: int) \<le> 122)"

definition sourcePattern :: "string \<Rightarrow> bool" where
  "sourcePattern s =
     (let base = (if has_suffix s ''@global'' then take (length s - 7) s else s) in
      base \<noteq> [] \<and> list_all source_char base)"

definition llm_body :: "Route \<Rightarrow> string \<Rightarrow> string \<Rightarrow> (string \<times> json) list \<Rightarrow> (string \<times> json) list" where
  "llm_body rt source name body =
     (let b = obj_put ''model'' (JStr name) body in
      if rt_Kind rt = kindOpenAI \<and> has_suffix source ''@global'' \<and> map_of b ''stream'' = Some (JBool True) \<and>
         map_of b ''stream_options'' = None
      then obj_put ''stream_options'' (JObj [(''include_usage'', JBool True)]) b else b)"

text \<open>\<open>withModel\<close>: \<^term>\<open>None\<close> where the request is not one this host serves.\<close>

definition withModel :: "http_request \<Rightarrow> Route \<Rightarrow> Route option \<times> http_request" where
  "withModel r rt =
     (let (raw, ok) = hr_Body r in
      if \<not> ok \<or> int (length raw) > maxBody then (None, r)
      else case unmarshal_map raw of
        None \<Rightarrow> (None, r)
      | Some body \<Rightarrow>
          (case raw_string (map_of body ''model'') of
             None \<Rightarrow> (None, r)
           | Some model \<Rightarrow>
               (case cut model ''/'' of
                  None \<Rightarrow> (None, r)
                | Some (source, name) \<Rightarrow>
                    if name = [] \<or> \<not> sourcePattern source then (None, r)
                    else let out = print_json (JObj (llm_body rt source name body)) in
                      (Some (rt\<lparr>rt_Resource := source @ ''/'' @ rt_Kind rt\<rparr>),
                       r\<lparr>hr_Body := (out, True),
                         hr_Header := header_set ''Content-Length'' (nat_str (length out)) (hr_Header r)\<rparr>))))"

definition llm_route :: "string \<Rightarrow> string \<Rightarrow> Route" where
  "llm_route kind path = zeroRoute\<lparr>rt_Kind := kind, rt_UpstreamPath := path, rt_Write := True\<rparr>"

definition llm_Classify :: "http_request \<Rightarrow> Route option \<times> http_request" where
  "llm_Classify r =
     (if hr_Method r = ''GET'' \<and> hr_Path r = ''/v1/models''
      then (Some (zeroRoute\<lparr>rt_Kind := kindModels, rt_Relay := RelayModels\<rparr>), r)
      else if hr_Method r = ''POST'' \<and> hr_Path r = ''/v1/chat/completions''
      then withModel r (llm_route kindOpenAI ''/chat/completions'')
      else if hr_Method r = ''POST'' \<and> hr_Path r = ''/v1/messages''
      then withModel r (llm_route kindAnthropic ''/v1/messages'')
      else if hr_Method r = ''POST'' \<and> hr_Path r = ''/v1/responses''
      then withModel r (llm_route kindResponses ''/responses'')
      else (None, r))"

section \<open>The codex backend\<close>

text \<open>A part of a message: its text, if it has one; \<open>null\<close> is a part without.\<close>

definition part_text :: "json \<Rightarrow> string option option" where
  "part_text v =
     (case v of
        JNull \<Rightarrow> Some None
      | JObj ms \<Rightarrow> decode_members
          (find_setter [(''text'', \<lambda>v m. case v of JStr s \<Rightarrow> Some (Some s) | JNull \<Rightarrow> Some None | _ \<Rightarrow> None)]) ms None
      | _ \<Rightarrow> None)"

definition parts_text :: "json list \<Rightarrow> string option" where
  "parts_text vs =
     (case those (map part_text vs) of
        None \<Rightarrow> None
      | Some ts \<Rightarrow> map_option (\<lambda>texts. join texts [CHR 0x0A]) (those ts))"

definition systemText :: "json \<Rightarrow> string option" where
  "systemText item =
     (let m = (case item of JObj ms \<Rightarrow> obj_map ms | _ \<Rightarrow> []) in
      case raw_string (map_of m ''role'') of
        None \<Rightarrow> None
      | Some role \<Rightarrow>
          if role \<noteq> ''system'' \<and> role \<noteq> ''developer'' then None
          else case raw_string (map_of m ''content'') of
            Some s \<Rightarrow> Some s
          | None \<Rightarrow> (case map_of m ''content'' of Some (JArr vs) \<Rightarrow> parts_text vs | _ \<Rightarrow> None))"

text \<open>The system messages in front, and what follows them.\<close>

fun split_lead :: "json list \<Rightarrow> string list \<times> json list" where
  "split_lead [] = ([], [])"
| "split_lead (v # vs) =
     (case systemText v of
        None \<Rightarrow> ([], v # vs)
      | Some t \<Rightarrow> let (lead, rest) = split_lead vs in (t # lead, rest))"

definition codex_input :: "json option \<Rightarrow> json list option" where
  "codex_input v =
     (case raw_string v of
        Some text \<Rightarrow> Some [JObj [(''content'', JStr text), (''role'', JStr ''user'')]]
      | None \<Rightarrow>
          (case v of
             Some (JArr items) \<Rightarrow>
               if list_all (\<lambda>i. case i of JObj _ \<Rightarrow> True | JNull \<Rightarrow> True | _ \<Rightarrow> False) items
               then Some (map (\<lambda>i. case i of JObj ms \<Rightarrow> JObj (obj_map ms) | _ \<Rightarrow> i) items) else None
           | _ \<Rightarrow> None))"

definition codex_reshape :: "(string \<times> json) list \<Rightarrow> json list \<Rightarrow> (string \<times> json) list" where
  "codex_reshape body input =
     (let instructions = (case raw_string (map_of body ''instructions'') of None \<Rightarrow> [] | Some s \<Rightarrow> s);
          (lead, rest) = (if instructions = [] then split_lead input else ([], input));
          b = (if lead \<noteq> [] then obj_put ''instructions'' (JStr (join lead [CHR 0x0A, CHR 0x0A])) body else body)
      in obj_del ''max_output_tokens'' (obj_put ''store'' (JBool False) (obj_put ''input'' (JArr rest) b)))"

definition codexBody :: "http_request \<Rightarrow> http_request" where
  "codexBody out =
     (let (text, ok) = hr_Body out;
          raw = (if int (length text) > maxBody then take (nat (maxBody + 1)) text else text);
          out' = out\<lparr>hr_Body := (raw, True)\<rparr>
      in if \<not> ok \<or> int (length raw) > maxBody then out'
         else case unmarshal_map raw of
           None \<Rightarrow> out'
         | Some body \<Rightarrow>
             (case codex_input (map_of body ''input'') of
                None \<Rightarrow> out'
              | Some input \<Rightarrow>
                  let next = print_json (JObj (codex_reshape body input)) in
                  out\<lparr>hr_Body := (next, True),
                      hr_Header := header_set ''Content-Length'' (nat_str (length next)) (hr_Header out)\<rparr>))"

definition llm_Apply :: "http_request \<Rightarrow> Route \<Rightarrow> Token \<Rightarrow> http_request" where
  "llm_Apply r rt tok =
     (let r = r\<lparr>hr_Header := header_set ''Authorization'' (''Bearer '' @ tk_Value tok) (hr_Header r)\<rparr>;
          r = (if tk_Account tok \<noteq> [] then
                 (let r = r\<lparr>hr_Header := header_set ''Originator'' ''codex_cli_rs''
                             (header_set ''Openai-Beta'' ''responses=experimental''
                               (header_set ''Chatgpt-Account-Id'' (tk_Account tok) (hr_Header r)))\<rparr>
                  in if rt_Kind rt = kindResponses then codexBody r else r)
               else r)
      in r\<lparr>hr_Header := header_del ''Accept-Encoding'' (hr_Header r)\<rparr>)"

definition llm_RenderError :: "Route \<Rightarrow> int \<Rightarrow> string \<Rightarrow> string \<times> string" where
  "llm_RenderError rt status msg =
     (let err = (''error'', JObj [(''message'', JStr msg), (''type'', JStr ''intproxy_error'')]) in
      (json_type, print_json (if rt_Kind rt = kindAnthropic then JObj [err, (''type'', JStr ''error'')]
                              else JObj [err]) @ [CHR 0x0A]))"

definition llm :: Integration where
  "llm = \<lparr>in_Name = ''llm'', in_Classify = llm_Classify, in_Apply = llm_Apply, in_ModifyResponse = drop_cookies,
     in_RenderError = llm_RenderError,
     in_Describe = ''intproxy: this host serves GET /v1/models, POST /v1/chat/completions, POST /v1/messages and POST /v1/responses; '' @
       ''the body'' @ [CHR 0x27] @ ''s model must be '' @ [dquote] @ ''<provider>/<model>'' @ [dquote] @
       '' for your own key or '' @ [dquote] @ ''<provider>@global/<model>'' @ [dquote] @ '' for the shared one'',
     in_Metered = True\<rparr>"

section \<open>Maps of members\<close>

lemma map_of_own: "map_of ms k = map_of (filter (\<lambda>kv. fst kv = k) ms) k"
  by (induction ms) auto

lemma map_of_sort [simp]: "map_of (sort_key fst ms) k = map_of ms k"
  using map_of_own [of "sort_key fst ms" k] map_of_own [of ms k] by (simp add: sort_key_stable)

lemma map_of_obj_put [simp]: "map_of (obj_put k v ms) k' = (if k' = k then Some v else map_of ms k')"
  by (simp add: obj_put_def update_conv)

lemma map_of_obj_del [simp]: "map_of (obj_del k ms) k' = (if k' = k then None else map_of ms k')"
  by (induction ms) (auto simp: obj_del_def)

lemma map_of_obj_map: "map_of (obj_map ms) = map_of (rev ms)"
  by (rule ext) (simp add: obj_map_def map_of_clearjunk)

section \<open>The contract holds\<close>

lemma codexBody_keeps:
  "hr_Method (codexBody r) = hr_Method r" "hr_Host (codexBody r) = hr_Host r" "hr_Path (codexBody r) = hr_Path r"
  "hr_RawQuery (codexBody r) = hr_RawQuery r"
  "k \<noteq> ''Content-Length'' \<Longrightarrow> hr_Header (codexBody r) k = hr_Header r k"
  by (simp_all add: codexBody_def Let_def del: print_json.simps split: prod.split option.split)

lemma withModel_fields:
  "fst (withModel r rt) = Some rt' \<Longrightarrow> rt_UpstreamPath rt' = rt_UpstreamPath rt \<and> rt_Kind rt' = rt_Kind rt \<and>
     rt_Write rt' = rt_Write rt \<and> rt_UpstreamHost rt' = rt_UpstreamHost rt \<and> rt_Relay rt' = rt_Relay rt"
  by (auto simp: withModel_def Let_def split: prod.splits if_split_asm option.split_asm)

lemma llm_Apply_header:
  assumes "k \<notin> {''Authorization'', ''Chatgpt-Account-Id'', ''Openai-Beta'', ''Originator'', ''Content-Length''}"
  shows "hr_Header (llm_Apply r rt tok) k \<in> {hr_Header r k, []}"
  using assms by (simp add: llm_Apply_def Let_def codexBody_keeps)

lemma identity_llm:
  "identity_headers \<inter> {''Authorization'', ''Chatgpt-Account-Id'', ''Openai-Beta'', ''Originator'', ''Content-Length''} = {}"
  by code_simp

interpretation llm: integration_contract llm "\<lambda>_ tok. ''Bearer '' @ tk_Value tok"
proof
  fix r rt tok rs status msg
  show "hr_Header (in_Apply llm r rt tok) ''Authorization'' = [''Bearer '' @ tk_Value tok]"
    by (simp add: llm_def llm_Apply_def Let_def codexBody_keeps)
  show "hr_Method (in_Apply llm r rt tok) = hr_Method r" "hr_Host (in_Apply llm r rt tok) = hr_Host r"
    "hr_Path (in_Apply llm r rt tok) = hr_Path r" "hr_RawQuery (in_Apply llm r rt tok) = hr_RawQuery r"
    by (simp_all add: llm_def llm_Apply_def Let_def codexBody_keeps)
  show "k \<in> identity_headers \<Longrightarrow> hr_Header r k = [] \<Longrightarrow> hr_Header (in_Apply llm r rt tok) k = []" for k
    using llm_Apply_header [of k r rt tok] identity_llm by (auto simp: llm_def)
  show "hs_Header (in_ModifyResponse llm rs) ''Set-Cookie'' = []" "hs_Status (in_ModifyResponse llm rs) = hs_Status rs"
    by (simp_all add: llm_def drop_cookies_def)
  show "fst (in_RenderError llm rt status msg) \<noteq> []" "\<exists>b. snd (in_RenderError llm rt status msg) = b @ [CHR 0x0A]"
    by (simp_all add: llm_def llm_RenderError_def json_type_def Let_def)
  show "fst (in_Classify llm r) = Some rt \<Longrightarrow> rt_Relay rt = [] \<Longrightarrow> \<exists>p. rt_UpstreamPath rt = CHR ''/'' # p"
    by (auto simp: llm_def llm_Classify_def llm_route_def RelayModels_def dest!: withModel_fields split: if_split_asm)
qed

section \<open>What goes upstream\<close>

lemma withModel_Some:
  assumes "withModel r rt = (Some rt', r')"
  obtains body source name where "unmarshal_map (fst (hr_Body r)) = Some body"
    "map_of body ''model'' = Some (JStr (source @ ''/'' @ name))" "sourcePattern source" "name \<noteq> []"
    "rt' = rt\<lparr>rt_Resource := source @ ''/'' @ rt_Kind rt\<rparr>"
    "fst (hr_Body r') = print_json (JObj (llm_body rt source name body))"
    "hr_Header r' ''Content-Length'' = [nat_str (length (fst (hr_Body r')))]"
    "int (length (fst (hr_Body r))) \<le> maxBody"
proof -
  obtain raw ok where body: "hr_Body r = (raw, ok)" by fastforce
  with assms obtain b model source name where
    b: "unmarshal_map raw = Some b" "raw_string (map_of b ''model'') = Some model" "cut model ''/'' = Some (source, name)"
      "name \<noteq> []" "sourcePattern source" "int (length raw) \<le> maxBody"
    and out: "rt' = rt\<lparr>rt_Resource := source @ ''/'' @ rt_Kind rt\<rparr>"
      "r' = r\<lparr>hr_Body := (print_json (JObj (llm_body rt source name b)), True),
         hr_Header := header_set ''Content-Length'' (nat_str (length (print_json (JObj (llm_body rt source name b))))) (hr_Header r)\<rparr>"
    by (auto simp: withModel_def Let_def simp del: print_json.simps split: if_split_asm option.split_asm prod.split_asm)
  from cut_SomeD [OF b(3)] have model: "model = source @ ''/'' @ name" by simp
  moreover from this b(2) have "map_of b ''model'' = Some (JStr model)"
    by (auto simp: raw_string_def split: option.split_asm json.split_asm)
  ultimately show ?thesis
    using b out body by (intro that [of b source name]) (simp_all del: print_json.simps)
qed

text \<open>
  Further result. A model request that is served names its model \<open>source/name\<close>; the resource the broker is asked
  about is that source with the kind of api, and the body that goes upstream has the bare name as its model and
  every other member as it was, but for \<open>stream_options\<close>, which is only added, to a metered stream that sets none.
  The announced length is that of the new body.
\<close>

theorem llm_request_rewritten:
  assumes "llm_Classify r = (Some rt, r')" and "rt_Relay rt = []"
  shows "\<exists>body out source name. unmarshal_map (fst (hr_Body r)) = Some body \<and>
     map_of body ''model'' = Some (JStr (source @ ''/'' @ name)) \<and> sourcePattern source \<and>
     rt_Resource rt = source @ ''/'' @ rt_Kind rt \<and> rt_Write rt \<and>
     fst (hr_Body r') = print_json (JObj out) \<and> map_of out ''model'' = Some (JStr name) \<and>
     (\<forall>k. k \<noteq> ''model'' \<longrightarrow> map_of out k = map_of body k \<or>
        k = ''stream_options'' \<and> map_of body k = None \<and> has_suffix source ''@global'' \<and> rt_Kind rt = kindOpenAI) \<and>
     hr_Header r' ''Content-Length'' = [nat_str (length (fst (hr_Body r')))]"
proof -
  from assms obtain kind path where w: "withModel r (llm_route kind path) = (Some rt, r')"
    by (auto simp: llm_Classify_def RelayModels_def split: if_split_asm)
  have kind: "rt_Kind (llm_route kind path) = kind" by (simp add: llm_route_def)
  obtain body source name where
    b: "unmarshal_map (fst (hr_Body r)) = Some body" "map_of body ''model'' = Some (JStr (source @ ''/'' @ name))"
      "sourcePattern source" "name \<noteq> []" "rt = (llm_route kind path)\<lparr>rt_Resource := source @ ''/'' @ kind\<rparr>"
      "fst (hr_Body r') = print_json (JObj (llm_body (llm_route kind path) source name body))"
      "hr_Header r' ''Content-Length'' = [nat_str (length (fst (hr_Body r')))]"
    by (rule withModel_Some [OF w, unfolded kind]) blast
  then show ?thesis
    by (intro exI [of _ body] exI [of _ "llm_body (llm_route kind path) source name body"] exI [of _ source] exI [of _ name])
      (auto simp: llm_body_def llm_route_def Let_def simp del: print_json.simps)
qed

definition example_llm_request :: http_request where
  "example_llm_request = (example_int_request ''POST'' ''/v1/messages'' [])\<lparr>
     hr_Body := (print_json (JObj [(''model'', JStr ''zai/glm'')]), True)\<rparr>"

theorem llm_request_rewritten_witness:
  "\<exists>body. unmarshal_map (fst (hr_Body example_llm_request)) = Some body"
proof -
  have some: "\<not> Option.is_none (fst (llm_Classify example_llm_request))"
    "rt_Relay (the (fst (llm_Classify example_llm_request))) = []"
    by code_simp+
  then obtain rt r' where c: "llm_Classify example_llm_request = (Some rt, r')" "rt_Relay rt = []"
    by (cases "llm_Classify example_llm_request") (auto simp: Option.is_none_def)
  from llm_request_rewritten [OF c] show ?thesis by blast
qed

text \<open>
  Further result. What the codex backend is sent keeps every member of the request but four: nothing is stored,
  no output cap is set, the input is the same messages less the system messages in front, and those are the
  instructions where the request gave none.
\<close>

theorem codex_members:
  "map_of (codex_reshape body input) ''store'' = Some (JBool False) \<and>
   map_of (codex_reshape body input) ''max_output_tokens'' = None \<and>
   (\<exists>lead rest. map_of (codex_reshape body input) ''input'' = Some (JArr rest) \<and>
      (lead, rest) = (if raw_string (map_of body ''instructions'') \<in> {None, Some []} then split_lead input else ([], input)) \<and>
      map_of (codex_reshape body input) ''instructions'' =
        (if lead = [] then map_of body ''instructions'' else Some (JStr (join lead [CHR 0x0A, CHR 0x0A])))) \<and>
   (k \<notin> {''store'', ''max_output_tokens'', ''input'', ''instructions''} \<longrightarrow> map_of (codex_reshape body input) k = map_of body k)"
  by (cases "split_lead input"; cases "raw_string (map_of body ''instructions'')")
    (auto simp: codex_reshape_def Let_def)

theorem codex_members_witness:
  "map_of (codex_reshape [(''model'', JStr ''m''), (''max_output_tokens'', JNum ''5'')] []) ''model'' = Some (JStr ''m'')"
  using codex_members [of "[(''model'', JStr ''m''), (''max_output_tokens'', JNum ''5'')]" "[]" "''model''"] by simp

lemma split_lead_input: "split_lead vs = (lead, rest) \<Longrightarrow> \<exists>front. vs = front @ rest \<and> map systemText front = map Some lead"
proof (induction vs arbitrary: lead)
  case (Cons v vs)
  show ?case
  proof (cases "systemText v")
    case (Some t)
    obtain l r where "split_lead vs = (l, r)" by fastforce
    with Cons.prems Some Cons.IH [of l] obtain front where "lead = t # l" "vs = front @ rest" "map systemText front = map Some l"
      by auto
    with Some show ?thesis by (intro exI [of _ "v # front"]) simp
  qed (use Cons.prems in simp)
qed simp

end
