(* ===== verification/Int_Meter.thy ===== *)
theory Int_Meter
  imports Int_Llm
begin

text \<open>
  The meter of the llm integration (\<open>integration/llm/meter.go\<close>): the usage read off a response body while it
  streams past, from a whole json document or from the \<open>data:\<close> lines of an event stream. Counts are 64-bit
  integers and the subtraction wraps.
\<close>

definition maxMetered :: int where "maxMetered = 8 * 1024 * 1024"
definition maxSSELine :: int where "maxSSELine = 1024 * 1024"

definition wrap64 :: "int \<Rightarrow> int" where
  "wrap64 i = (i + 2 ^ 63) mod 2 ^ 64 - 2 ^ 63"

lemma wrap64_id: "- (2 ^ 63) \<le> i \<Longrightarrow> i < 2 ^ 63 \<Longrightarrow> wrap64 i = i"
  by (simp add: wrap64_def)

section \<open>Events\<close>

record usageFields =
  uf_PromptTokens :: int
  uf_CompletionTokens :: int
  uf_PromptDetails :: "int option"
  uf_InputDetails :: "int option"
  uf_InputTokens :: int
  uf_OutputTokens :: int
  uf_CacheRead :: int
  uf_CacheCreate :: int

definition zeroFields :: usageFields where
  "zeroFields = \<lparr>uf_PromptTokens = 0, uf_CompletionTokens = 0, uf_PromptDetails = None, uf_InputDetails = None,
     uf_InputTokens = 0, uf_OutputTokens = 0, uf_CacheRead = 0, uf_CacheCreate = 0\<rparr>"

record part =
  pt_Model :: string
  pt_Usage :: "usageFields option"

definition zeroPart :: part where
  "zeroPart = \<lparr>pt_Model = [], pt_Usage = None\<rparr>"

record event = part +
  ev_Message :: "part option"
  ev_Response :: "part option"

definition zeroEvent :: event where
  "zeroEvent = \<lparr>pt_Model = [], pt_Usage = None, ev_Message = None, ev_Response = None\<rparr>"

text \<open>A pointer to a struct: \<open>null\<close> is nil, an object is decoded into what the pointer has or a new struct.\<close>

definition ptr_set ::
  "(string \<times> (json \<Rightarrow> 'a \<Rightarrow> 'a option)) list \<Rightarrow> 'a \<Rightarrow> ('r \<Rightarrow> 'a option) \<Rightarrow> (('a option \<Rightarrow> 'a option) \<Rightarrow> 'r \<Rightarrow> 'r) \<Rightarrow> json \<Rightarrow> 'r \<Rightarrow> 'r option" where
  "ptr_set tab zero get upd v m =
     (case v of
        JNull \<Rightarrow> Some (upd (\<lambda>_. None) m)
      | JObj ms \<Rightarrow> map_option (\<lambda>x. upd (\<lambda>_. Some x) m)
          (decode_members (find_setter tab) ms (case get m of None \<Rightarrow> zero | Some x \<Rightarrow> x))
      | _ \<Rightarrow> None)"

definition details_table :: "(string \<times> (json \<Rightarrow> int \<Rightarrow> int option)) list" where
  "details_table = [(''cached_tokens'', int_set (\<lambda>f. f))]"

definition usage_table :: "(string \<times> (json \<Rightarrow> usageFields \<Rightarrow> usageFields option)) list" where
  "usage_table =
     [(''prompt_tokens'', int_set uf_PromptTokens_update),
      (''completion_tokens'', int_set uf_CompletionTokens_update),
      (''prompt_tokens_details'', ptr_set details_table 0 uf_PromptDetails uf_PromptDetails_update),
      (''input_tokens_details'', ptr_set details_table 0 uf_InputDetails uf_InputDetails_update),
      (''input_tokens'', int_set uf_InputTokens_update),
      (''output_tokens'', int_set uf_OutputTokens_update),
      (''cache_read_input_tokens'', int_set uf_CacheRead_update),
      (''cache_creation_input_tokens'', int_set uf_CacheCreate_update)]"

definition part_table :: "(string \<times> (json \<Rightarrow> 'x part_scheme \<Rightarrow> 'x part_scheme option)) list" where
  "part_table =
     [(''model'', str_set pt_Model_update),
      (''usage'', ptr_set usage_table zeroFields pt_Usage pt_Usage_update)]"

definition event_table :: "(string \<times> (json \<Rightarrow> event \<Rightarrow> event option)) list" where
  "event_table = part_table @
     [(''message'', ptr_set part_table zeroPart ev_Message ev_Message_update),
      (''response'', ptr_set part_table zeroPart ev_Response ev_Response_update)]"

definition event_decode :: "string \<Rightarrow> event option" where
  "event_decode b =
     (case unmarshal_value b of
        Some (JObj ms) \<Rightarrow> decode_members (find_setter event_table) ms zeroEvent
      | _ \<Rightarrow> None)"

section \<open>Usage\<close>

definition meter_model :: "string \<Rightarrow> Usage \<Rightarrow> Usage" where
  "meter_model s u = (if s \<noteq> [] \<and> us_Model u = [] then u\<lparr>us_Model := s\<rparr> else u)"

definition meter_apply :: "usageFields option \<Rightarrow> Usage \<Rightarrow> Usage" where
  "meter_apply fo u =
     (case fo of
        None \<Rightarrow> u
      | Some f \<Rightarrow>
          (case uf_InputDetails f of
             Some cached \<Rightarrow>
               u\<lparr>us_Input := max (wrap64 (uf_InputTokens f - cached)) 0, us_CacheRead := cached,
                 us_Output := uf_OutputTokens f\<rparr>
           | None \<Rightarrow>
               if uf_PromptTokens f > 0 \<or> uf_CompletionTokens f > 0 then
                 (let cached = (case uf_PromptDetails f of None \<Rightarrow> 0 | Some c \<Rightarrow> c) in
                  u\<lparr>us_Input := max (wrap64 (uf_PromptTokens f - cached)) 0, us_CacheRead := cached,
                    us_Output := uf_CompletionTokens f\<rparr>)
               else u\<lparr>us_Input := max (us_Input u) (uf_InputTokens f), us_Output := max (us_Output u) (uf_OutputTokens f),
                      us_CacheRead := max (us_CacheRead u) (uf_CacheRead f),
                      us_CacheWrite := max (us_CacheWrite u) (uf_CacheCreate f)\<rparr>))"

definition apply_part :: "part option \<Rightarrow> Usage \<Rightarrow> Usage" where
  "apply_part po u = (case po of None \<Rightarrow> u | Some p \<Rightarrow> meter_apply (pt_Usage p) (meter_model (pt_Model p) u))"

definition meter_parse :: "string \<Rightarrow> Usage \<Rightarrow> Usage" where
  "meter_parse b u =
     (if b = [] \<or> hd b \<noteq> CHR ''{'' then u
      else case event_decode b of
        None \<Rightarrow> u
      | Some ev \<Rightarrow> meter_apply (pt_Usage ev) (meter_model (pt_Model ev)
          (apply_part (ev_Response ev) (apply_part (ev_Message ev) u))))"

section \<open>The body\<close>

record meterBody =
  mb_sse :: bool
  mb_buf :: string
  mb_u :: Usage
  mb_done :: "Usage list"

abbreviation nl_char :: char where
  "nl_char \<equiv> CHR 0x0A"

text \<open>One line of an event stream, and the loop over the complete lines of the buffer.\<close>

definition sse_line :: "string \<Rightarrow> Usage \<Rightarrow> Usage" where
  "sse_line raw u =
     (let line = trim_space raw in
      if has_prefix line ''data:'' then meter_parse (trim_space (drop 5 line)) u else u)"

lemma index_char_length: "index_char c s = Some i \<Longrightarrow> i < length s"
  by (induction s arbitrary: i) (auto split: if_split_asm)

function drain_lines :: "string \<Rightarrow> Usage \<Rightarrow> string \<times> Usage" where
  "drain_lines buf u =
     (case index_char nl_char buf of
        None \<Rightarrow> (buf, u)
      | Some i \<Rightarrow> drain_lines (drop (i + 1) buf) (sse_line (take i buf) u))"
  by pat_completeness auto
termination
  by (relation "measure (length \<circ> fst)") (auto dest: index_char_length)

declare drain_lines.simps [simp del]

definition meter_feed :: "string \<Rightarrow> meterBody \<Rightarrow> meterBody" where
  "meter_feed p m =
     (if \<not> mb_sse m then
        (if int (length (mb_buf m) + length p) \<le> maxMetered then m\<lparr>mb_buf := mb_buf m @ p\<rparr> else m)
      else let (buf, u) = drain_lines (mb_buf m @ p) (mb_u m) in
        m\<lparr>mb_buf := (if int (length buf) > maxSSELine then [] else buf), mb_u := u\<rparr>)"

text \<open>\<open>once\<close> has run where \<open>done\<close> has been called.\<close>

definition meter_close :: "meterBody \<Rightarrow> meterBody" where
  "meter_close m =
     (if mb_done m \<noteq> [] then m
      else let u = (if mb_sse m then mb_u m else meter_parse (mb_buf m) (mb_u m)) in
        m\<lparr>mb_u := u, mb_done := [u]\<rparr>)"

text \<open>
  \<open>Meter\<close>: an encoded body is not read, and its usage is reported at once. The media type is what comes before
  the parameters of \<open>Content-Type\<close>, as \<open>mime.ParseMediaType\<close> gives it where they are well formed.
\<close>

definition media_type :: "string \<Rightarrow> string" where
  "media_type v = trim_space (to_lower (takeWhile (\<lambda>c. c \<noteq> CHR '';'') v))"

definition Meter :: "http_response \<Rightarrow> meterBody" where
  "Meter rs =
     (if header_get (hs_Header rs) ''Content-Encoding'' \<noteq> []
      then \<lparr>mb_sse = False, mb_buf = [], mb_u = zeroUsage, mb_done = [zeroUsage]\<rparr>
      else \<lparr>mb_sse = media_type (header_get (hs_Header rs) ''Content-Type'') = ''text/event-stream'',
            mb_buf = [], mb_u = zeroUsage, mb_done = []\<rparr>)"

text \<open>A response read in chunks, as the client happens to read it.\<close>

definition meter_run :: "string list \<Rightarrow> meterBody \<Rightarrow> meterBody" where
  "meter_run chunks m = meter_close (fold meter_feed chunks m)"

section \<open>The chunks do not matter\<close>

text \<open>What the loop does, on the lines of the text.\<close>

lemma drain_lines_absent: "nl_char \<notin> set buf \<Longrightarrow> drain_lines buf u = (buf, u)"
  by (subst drain_lines.simps) (simp add: index_char_None [THEN iffD2])

lemma drain_lines_line: "nl_char \<notin> set l \<Longrightarrow> drain_lines (l @ nl_char # rest) u = drain_lines rest (sse_line l u)"
  by (subst drain_lines.simps) (simp add: index_char_append)

lemma drain_lines_split:
  "drain_lines buf u = (last (split_str buf [nl_char]), fold sse_line (butlast (split_str buf [nl_char])) u)"
proof (induction buf u rule: drain_lines.induct)
  case (1 buf u)
  show ?case
  proof (cases "index_char nl_char buf")
    case None
    then show ?thesis by (simp add: drain_lines_absent split_str_absent)
  next
    case (Some i)
    have buf: "buf = take i buf @ nl_char # drop (i + 1) buf" "nl_char \<notin> set (take i buf)"
      using Some by (induction buf arbitrary: i) (auto split: if_split_asm)
    have "split_str buf [nl_char] = take i buf # split_str (drop (i + 1) buf) [nl_char]"
      by (subst buf(1)) (rule split_str_char [OF buf(2)])
    moreover have "drain_lines buf u = drain_lines (drop (i + 1) buf) (sse_line (take i buf) u)"
      by (subst buf(1)) (rule drain_lines_line [OF buf(2)])
    ultimately show ?thesis using 1 [OF Some] by simp
  qed
qed

lemma split_str_append:
  "split_str (a @ b) [c] = butlast (split_str a [c]) @ split_str (last (split_str a [c]) @ b) [c]"
proof (induction "length a" arbitrary: a rule: less_induct)
  case less
  show ?case
  proof (cases "c \<in> set a")
    case True
    then obtain l r where a: "a = l @ c # r" "c \<notin> set l" by (meson split_list_first)
    then have "split_str (r @ b) [c] = butlast (split_str r [c]) @ split_str (last (split_str r [c]) @ b) [c]"
      by (intro less) simp
    with a show ?thesis by (simp add: split_str_char)
  qed (simp add: split_str_absent)
qed

lemma split_str_longer: "c \<notin> set a \<Longrightarrow> \<exists>l\<in>set (split_str (a @ b) [c]). length a \<le> length l"
proof (cases "c \<in> set b")
  case True
  moreover assume "c \<notin> set a"
  moreover obtain l r where "b = l @ c # r" "c \<notin> set l" using True by (meson split_list_first)
  ultimately have "split_str (a @ b) [c] = (a @ l) # split_str r [c]"
    using split_str_char [of c "a @ l" r] by simp
  then show ?thesis by simp
qed (simp add: split_str_absent)

lemma split_str_last_free: "c \<notin> set (last (split_str a [c]))"
proof (induction "length a" arbitrary: a rule: less_induct)
  case less
  show ?case
  proof (cases "c \<in> set a")
    case True
    then obtain l r where "a = l @ c # r" "c \<notin> set l" by (meson split_list_first)
    with less [of r] show ?thesis by (simp add: split_str_char)
  qed (simp add: split_str_absent)
qed

definition lines_bounded :: "string \<Rightarrow> bool" where
  "lines_bounded s \<longleftrightarrow> list_all (\<lambda>l. int (length l) \<le> maxSSELine) (split_str s [nl_char])"

lemma feed_chunks:
  assumes "mb_sse m" and "nl_char \<notin> set (mb_buf m)" and "lines_bounded (mb_buf m @ concat chunks)"
  shows "fold meter_feed chunks m =
    (let (buf, u) = drain_lines (mb_buf m @ concat chunks) (mb_u m) in m\<lparr>mb_buf := buf, mb_u := u\<rparr>)"
  using assms
proof (induction chunks arbitrary: m)
  case Nil
  then show ?case by (simp add: drain_lines_absent)
next
  case (Cons p ps)
  let ?segs = "split_str (mb_buf m @ p) [nl_char]"
  let ?rest = "last ?segs" and ?u = "fold sse_line (butlast ?segs) (mb_u m)"
  have all: "split_str (mb_buf m @ p @ concat ps) [nl_char] = butlast ?segs @ split_str (?rest @ concat ps) [nl_char]"
    using split_str_append [of "mb_buf m @ p" "concat ps" nl_char] by simp
  then have bounded: "lines_bounded (?rest @ concat ps)"
    using Cons.prems(3) by (simp add: lines_bounded_def)
  moreover have free: "nl_char \<notin> set ?rest" by (rule split_str_last_free)
  ultimately have "int (length ?rest) \<le> maxSSELine"
    using split_str_longer [OF free, of "concat ps"] by (force simp: lines_bounded_def list_all_iff)
  then have feed: "meter_feed p m = m\<lparr>mb_buf := ?rest, mb_u := ?u\<rparr>"
    using Cons.prems(1) by (simp add: meter_feed_def drain_lines_split)
  have "drain_lines (mb_buf m @ p @ concat ps) (mb_u m) = drain_lines (?rest @ concat ps) ?u"
    unfolding drain_lines_split [of "mb_buf m @ p @ concat ps"] drain_lines_split [of "?rest @ concat ps"] all
    by (simp add: butlast_append)
  with Cons.IH [of "m\<lparr>mb_buf := ?rest, mb_u := ?u\<rparr>"] Cons.prems(1) bounded free show ?case
    by (simp add: feed split: prod.splits)
qed

lemma feed_document:
  assumes "\<not> mb_sse m" and "int (length (mb_buf m @ concat chunks)) \<le> maxMetered"
  shows "fold meter_feed chunks m = m\<lparr>mb_buf := mb_buf m @ concat chunks\<rparr>"
  using assms by (induction chunks arbitrary: m) (simp_all add: meter_feed_def)

text \<open>The reference: the usage of a whole body, with no chunks and no buffer.\<close>

definition body_usage :: "bool \<Rightarrow> string \<Rightarrow> Usage" where
  "body_usage sse body =
     (if sse then fold sse_line (butlast (split_str body [nl_char])) zeroUsage else meter_parse body zeroUsage)"

text \<open>
  Further result. However a response is cut into reads, the usage reported when it is closed is that of the whole
  body, the events of its complete lines in order or the one document it is, and it is reported exactly once,
  however often the body is closed; provided no line or document passes the size that is kept.
\<close>

theorem meter_chunks_irrelevant:
  assumes "if sse then lines_bounded (concat chunks) else int (length (concat chunks)) \<le> maxMetered"
    and "header_get (hs_Header rs) ''Content-Encoding'' = []"
    and "sse \<longleftrightarrow> media_type (header_get (hs_Header rs) ''Content-Type'') = ''text/event-stream''"
  shows "mb_done (meter_run chunks (Meter rs)) = [body_usage sse (concat chunks)] \<and>
    meter_close (meter_run chunks (Meter rs)) = meter_run chunks (Meter rs)"
proof -
  have m: "Meter rs = \<lparr>mb_sse = sse, mb_buf = [], mb_u = zeroUsage, mb_done = []\<rparr>"
    using assms(2,3) by (simp add: Meter_def)
  show ?thesis
  proof (cases sse)
    case True
    with assms(1) feed_chunks [of "Meter rs" chunks] m show ?thesis
      by (simp add: meter_run_def meter_close_def body_usage_def drain_lines_split Let_def)
  next
    case False
    with assms(1) feed_document [of "Meter rs" chunks] m show ?thesis
      by (simp add: meter_run_def meter_close_def body_usage_def Let_def)
  qed
qed

definition sse_response :: http_response where
  "sse_response = \<lparr>hs_Status = 200, hs_Header = (\<lambda>k. if k = ''Content-Type'' then [''text/event-stream''] else []), hs_Body = []\<rparr>"

theorem meter_chunks_irrelevant_witness:
  "mb_done (meter_run [''da'', ''ta: {}'' @ [nl_char]] (Meter sse_response)) = [body_usage True (''data: {}'' @ [nl_char])]"
proof -
  have "lines_bounded (''data: {}'' @ [nl_char])" by code_simp
  moreover have "media_type ''text/event-stream'' = ''text/event-stream''" by code_simp
  ultimately show ?thesis
    using meter_chunks_irrelevant [of True "[''da'', ''ta: {}'' @ [nl_char]]" sse_response]
    by (simp add: sse_response_def header_get_def)
qed

section \<open>What is counted\<close>

text \<open>The first model named stays, and the input count is never negative.\<close>

lemma meter_apply_model [simp]: "us_Model (meter_apply f u) = us_Model u"
  by (simp add: meter_apply_def Let_def split: option.split)

lemma meter_model_input [simp]: "us_Input (meter_model s u) = us_Input u"
  by (simp add: meter_model_def)

lemma meter_apply_input: "0 \<le> us_Input u \<Longrightarrow> 0 \<le> us_Input (meter_apply f u)"
  by (auto simp: meter_apply_def Let_def split: option.split)

lemma meter_parse_input: "0 \<le> us_Input u \<Longrightarrow> 0 \<le> us_Input (meter_parse b u)"
  by (auto simp: meter_parse_def apply_part_def intro!: meter_apply_input split: option.split)

lemma fold_sse_input: "0 \<le> us_Input u \<Longrightarrow> 0 \<le> us_Input (fold sse_line ls u)"
  by (induction ls arbitrary: u) (auto simp: sse_line_def Let_def meter_parse_input)

lemma meter_model_kept: "us_Model u \<noteq> [] \<Longrightarrow> us_Model (meter_parse b u) = us_Model u"
  by (auto simp: meter_parse_def apply_part_def meter_model_def split: option.split)

text \<open>
  Further result. Counts an api reports cumulatively, without details and without prompt tokens, are combined by
  taking the largest of each; where cached tokens are counted inside the input, they are taken out of it, and the
  input is never below zero.
\<close>

theorem meter_counts:
  "(uf_InputDetails f = None \<and> uf_PromptTokens f \<le> 0 \<and> uf_CompletionTokens f \<le> 0 \<longrightarrow>
     us_Input (meter_apply (Some f) u) = max (us_Input u) (uf_InputTokens f) \<and>
     us_Output (meter_apply (Some f) u) = max (us_Output u) (uf_OutputTokens f)) \<and>
   (uf_InputDetails f = Some cached \<and> 0 \<le> cached \<and> cached \<le> uf_InputTokens f \<and> uf_InputTokens f < 2 ^ 63 \<longrightarrow>
     us_Input (meter_apply (Some f) u) + us_CacheRead (meter_apply (Some f) u) = uf_InputTokens f) \<and>
   0 \<le> us_Input (body_usage sse body)"
  by (auto simp: meter_apply_def wrap64_id body_usage_def zeroUsage_def intro: fold_sse_input meter_parse_input)

theorem meter_counts_witness:
  "us_Input (meter_apply (Some (zeroFields\<lparr>uf_InputTokens := 7\<rparr>)) zeroUsage) = 7"
  using meter_counts [of "zeroFields\<lparr>uf_InputTokens := 7\<rparr>" zeroUsage 0 True "[]"]
  by (simp add: zeroFields_def zeroUsage_def)

section \<open>Counts stay in 64 bits\<close>

definition int64 :: "int \<Rightarrow> bool" where
  "int64 i \<longleftrightarrow> - (2 ^ 63) \<le> i \<and> i < 2 ^ 63"

definition opt64 :: "int option \<Rightarrow> bool" where
  "opt64 io = (case io of None \<Rightarrow> True | Some i \<Rightarrow> int64 i)"

definition fields64 :: "usageFields \<Rightarrow> bool" where
  "fields64 f \<longleftrightarrow> int64 (uf_PromptTokens f) \<and> int64 (uf_CompletionTokens f) \<and> opt64 (uf_PromptDetails f) \<and>
     opt64 (uf_InputDetails f) \<and> int64 (uf_InputTokens f) \<and> int64 (uf_OutputTokens f) \<and> int64 (uf_CacheRead f) \<and>
     int64 (uf_CacheCreate f)"

definition part64 :: "'x part_scheme \<Rightarrow> bool" where
  "part64 p = (case pt_Usage p of None \<Rightarrow> True | Some f \<Rightarrow> fields64 f)"

definition event64 :: "event \<Rightarrow> bool" where
  "event64 ev \<longleftrightarrow> part64 ev \<and> (case ev_Message ev of None \<Rightarrow> True | Some p \<Rightarrow> part64 p) \<and>
     (case ev_Response ev of None \<Rightarrow> True | Some p \<Rightarrow> part64 p)"

definition usage64 :: "Usage \<Rightarrow> bool" where
  "usage64 u \<longleftrightarrow> int64 (us_Input u) \<and> int64 (us_Output u) \<and> int64 (us_CacheRead u) \<and> int64 (us_CacheWrite u)"

lemma int64_simps [simp]: "int64 0" "int64 (wrap64 i)" "int64 i \<Longrightarrow> int64 j \<Longrightarrow> int64 (max i j)"
  by (auto simp: int64_def wrap64_def max_def)

lemma atoi_int64: "atoi s = Some i \<Longrightarrow> int64 i"
  by (auto simp: atoi_def int64_def Let_def split: if_split_asm)

lemma opt64_iff: "opt64 io \<longleftrightarrow> (\<forall>i. io = Some i \<longrightarrow> int64 i)"
  by (simp add: opt64_def split: option.split)

lemma usage64_zero: "usage64 zeroUsage"
  by (simp add: usage64_def zeroUsage_def)

text \<open>What every setter of a table keeps, decoding keeps.\<close>

lemma decode_members_keep:
  assumes "\<forall>e\<in>set tab. \<forall>v m m'. P m \<longrightarrow> snd e v m = Some m' \<longrightarrow> P m'"
  shows "P m \<Longrightarrow> decode_members (find_setter tab) ms m = Some m' \<Longrightarrow> P m'"
proof (induction ms arbitrary: m)
  case (Cons kv ms)
  obtain k v where kv: "kv = (k, v)" by fastforce
  show ?case
  proof (cases "find_setter tab k")
    case None
    with Cons kv show ?thesis by simp
  next
    case (Some f)
    then obtain e where e: "List.find (\<lambda>e. equal_fold (fst e) k) tab = Some e" "snd e = f"
      unfolding find_setter_def by (cases "List.find (\<lambda>e. equal_fold (fst e) k) tab") simp_all
    from e(1) have "e \<in> set tab"
      unfolding find_Some_iff by (elim exE conjE) simp
    with e(2) have "\<forall>v m m'. P m \<longrightarrow> f v m = Some m' \<longrightarrow> P m'" using assms by blast
    moreover obtain m1 where m1: "f v m = Some m1" "decode_members (find_setter tab) ms m1 = Some m'"
      using Cons.prems(2) Some kv by (auto simp: bind_eq_Some_conv)
    ultimately have "P m1" using Cons.prems(1) by blast
    with Cons.IH m1(2) show ?thesis by blast
  qed
qed simp

lemma ptr_set_keep:
  assumes "ptr_set tab zero get upd v m = Some m'"
    and "\<forall>e\<in>set tab. \<forall>v m m'. P m \<longrightarrow> snd e v m = Some m' \<longrightarrow> P m'"
    and "P zero" "\<forall>x. get m = Some x \<longrightarrow> P x"
  shows "\<exists>xo. m' = upd (\<lambda>_. xo) m \<and> (\<forall>x. xo = Some x \<longrightarrow> P x)"
proof -
  have "P (case get m of None \<Rightarrow> zero | Some x \<Rightarrow> x)"
    using assms(3,4) by (auto split: option.split)
  from decode_members_keep [OF assms(2) this] assms(1) show ?thesis
    by (auto simp: ptr_set_def split: json.split_asm)
qed

lemma int_set_cases: "int_set upd v m = Some m' \<Longrightarrow> m' = m \<or> (\<exists>i. int64 i \<and> m' = upd (\<lambda>_. i) m)"
  by (auto simp: int_set_def dest: atoi_int64 split: json.split_asm)

lemma details_table_keep: "\<forall>e\<in>set details_table. \<forall>v m m'. int64 m \<longrightarrow> snd e v m = Some m' \<longrightarrow> int64 m'"
  by (auto simp: details_table_def dest!: int_set_cases)

lemma usage_table_keep: "\<forall>e\<in>set usage_table. \<forall>v m m'. fields64 m \<longrightarrow> snd e v m = Some m' \<longrightarrow> fields64 m'"
proof -
  have details: "\<exists>xo. m' = upd (\<lambda>_. xo) m \<and> opt64 xo"
    if "ptr_set details_table 0 get upd v m = Some m'" "opt64 (get m)" for get upd v and m m' :: usageFields
    using ptr_set_keep [OF that(1) details_table_keep] that(2) by (simp add: opt64_iff)
  show ?thesis
    unfolding usage_table_def fields64_def
    by (auto dest!: int_set_cases details)
qed

lemma fields64_zero [simp]: "fields64 zeroFields"
  by (simp add: fields64_def zeroFields_def opt64_def)

lemma str_set_cases: "str_set upd v m = Some m' \<Longrightarrow> m' = m \<or> (\<exists>s. m' = upd (\<lambda>_. s) m)"
  by (auto simp: str_set_def split: json.split_asm)

lemma part_table_keep:
  "\<forall>e\<in>set part_table. \<forall>v m m'. part64 m \<longrightarrow> snd e v m = Some m' \<longrightarrow> part64 (m' :: 'x part_scheme)"
proof -
  have "part64 m'" if "ptr_set usage_table zeroFields pt_Usage pt_Usage_update v m = Some m'" "part64 m"
    for v and m m' :: "'x part_scheme"
    using ptr_set_keep [OF that(1) usage_table_keep] that(2) by (auto simp: part64_def split: option.splits)
  then show ?thesis
    unfolding part_table_def by (auto dest!: str_set_cases simp: part64_def)
qed

lemma event_table_keep: "\<forall>e\<in>set event_table. \<forall>v m m'. event64 m \<longrightarrow> snd e v m = Some m' \<longrightarrow> event64 m'"
proof -
  have usage: "event64 m'" if "ptr_set usage_table zeroFields pt_Usage pt_Usage_update v m = Some m'" "event64 m"
    for v and m m' :: event
    using ptr_set_keep [OF that(1) usage_table_keep] that(2) by (auto simp: event64_def part64_def split: option.splits)
  have zero: "part64 zeroPart" by (simp add: part64_def zeroPart_def)
  have message: "event64 m'" if "ptr_set part_table zeroPart ev_Message ev_Message_update v m = Some m'" "event64 m" for v m m'
    using ptr_set_keep [OF that(1) part_table_keep zero] that(2) by (auto simp: event64_def part64_def split: option.splits)
  have response: "event64 m'" if "ptr_set part_table zeroPart ev_Response ev_Response_update v m = Some m'" "event64 m" for v m m'
    using ptr_set_keep [OF that(1) part_table_keep zero] that(2) by (auto simp: event64_def part64_def split: option.splits)
  have model: "event64 m'" if "str_set pt_Model_update v m = Some m'" "event64 m" for v m m'
    using str_set_cases [OF that(1)] that(2) by (auto simp: event64_def part64_def)
  show ?thesis
  proof (intro ballI allI impI)
    fix e :: "string \<times> (json \<Rightarrow> event \<Rightarrow> event option)" and v m m'
    assume "e \<in> set event_table" and prem: "event64 m" "snd e v m = Some m'"
    then have "snd e \<in> {str_set pt_Model_update, ptr_set usage_table zeroFields pt_Usage pt_Usage_update,
        ptr_set part_table zeroPart ev_Message ev_Message_update, ptr_set part_table zeroPart ev_Response ev_Response_update}"
      by (auto simp: event_table_def part_table_def [where 'x = "\<lparr>ev_Message :: part option, ev_Response :: part option\<rparr>"])
    with prem show "event64 m'"
      using usage message response model by auto
  qed
qed

lemma event_decode_64: "event_decode b = Some ev \<Longrightarrow> event64 ev"
proof -
  have "event64 zeroEvent" by (simp add: event64_def part64_def zeroEvent_def)
  moreover assume "event_decode b = Some ev"
  ultimately show ?thesis
    using decode_members_keep [OF event_table_keep, of zeroEvent]
    by (auto simp: event_decode_def split: option.split_asm json.split_asm)
qed

lemma meter_apply_64: "usage64 u \<Longrightarrow> (\<And>f. fo = Some f \<Longrightarrow> fields64 f) \<Longrightarrow> usage64 (meter_apply fo u)"
  by (auto simp: meter_apply_def usage64_def fields64_def opt64_def Let_def split: option.split)

lemma meter_model_64 [simp]: "usage64 (meter_model s u) = usage64 u"
  by (simp add: meter_model_def usage64_def)

lemma meter_parse_64: "usage64 u \<Longrightarrow> usage64 (meter_parse b u)"
  using event_decode_64 [of b]
  by (auto simp: meter_parse_def apply_part_def event64_def part64_def intro!: meter_apply_64 split: option.splits)

lemma fold_sse_64: "usage64 u \<Longrightarrow> usage64 (fold sse_line ls u)"
  by (induction ls arbitrary: u) (auto simp: sse_line_def Let_def meter_parse_64)


end
