(* ===== verification/Int_Config.thy ===== *)
theory Int_Config
  imports Int_Policy Int_Meter
begin

text \<open>
  The configuration of the integration proxy (\<open>intproxy/config.go\<close>): the structures a file decodes into and
  the checks of \<open>Validate\<close>. An integration's own block stays the parameter \<open>'c\<close> of its decoder.
\<close>

definition ModeBroker :: string where "ModeBroker = ''broker''"
definition ModeLocal :: string where "ModeLocal = ''local''"

text \<open>A duration of zero stands for the default.\<close>

definition dur_or :: "duration \<Rightarrow> duration \<Rightarrow> duration" where
  "dur_or d fallback = (if d = 0 then fallback else d)"

record TLSConfig =
  tl_Enabled :: "bool option"
  tl_Cert :: string
  tl_Key :: string
  tl_MinVersion :: string

definition tls_enabled :: "TLSConfig \<Rightarrow> bool" where
  "tls_enabled t \<longleftrightarrow> tl_Enabled t \<noteq> Some False"

record BrokerConfig =
  bc_Socket :: string
  bc_Timeout :: duration

record CredentialConfig =
  cc_Mode :: string
  cc_TokenSkew :: duration
  cc_MaxAge :: duration
  cc_Broker :: BrokerConfig

record IntegrationConfig =
  ic_Name :: string
  ic_Kind :: string
  ic_Enabled :: bool
  ic_Auth :: StaticConfig
  ic_Block :: GitHubConfig

definition ic_kind :: "IntegrationConfig \<Rightarrow> string" where
  "ic_kind i = (if ic_Kind i = [] then ic_Name i else ic_Kind i)"

record IntConfig =
  co_Listen :: string
  co_Reuseport :: bool
  co_TLD :: string
  co_Label :: string
  co_DocsURL :: string
  co_TLS :: TLSConfig
  co_Credential :: CredentialConfig
  co_Integrations :: "IntegrationConfig list"
  co_Policy :: "Policy option"
  co_path :: string

definition defaultLabel :: string where
  "defaultLabel = ''int''"

definition co_label :: "IntConfig \<Rightarrow> string" where
  "co_label c = (if co_Label c = [] then defaultLabel else co_Label c)"

definition hostname :: "IntConfig \<Rightarrow> string \<Rightarrow> string" where
  "hostname c name = name @ ''.'' @ co_label c @ ''.'' @ co_TLD c"

text \<open>A label starts and ends with a lower-case letter or a digit and has hyphens only inside.\<close>

definition labelPattern :: "string \<Rightarrow> bool" where
  "labelPattern s \<longleftrightarrow> s \<noteq> [] \<and> source_char (hd s) \<and> source_char (last s) \<and>
     list_all (\<lambda>c. source_char c \<or> c = CHR ''-'') s"

definition int_hostnamePattern :: "string \<Rightarrow> bool" where
  "int_hostnamePattern s \<longleftrightarrow> 2 \<le> length (split_str s ''.'') \<and> list_all labelPattern (split_str s ''.'')"

datatype iconfig_error =
    ListenRequired
  | ListenNotHostPort string
  | ListenPort string
  | ListenWildcard string
  | ListenNotIP string
  | TLDRequired
  | TLDNotHostname string
  | LabelNotLabel string
  | CertAndKey
  | MinVersion string
  | NoIntegrationsListed
  | IntegrationUnnamed
  | IntegrationTwice string
  | IntegrationNotLabel string
  | IntegrationUnknown string
  | AllDisabled
  | SocketRequired
  | SocketNotAbsolute string
  | PolicyInBroker
  | AuthInBroker string
  | SocketInLocal
  | PolicyRequired
  | NeedsBroker string
  | NeedsAuth string
  | ModeRequired
  | ModeUnknown string

definition wildcard_host :: "string \<Rightarrow> bool" where
  "wildcard_host host \<longleftrightarrow> host \<in> {[], ''0.0.0.0'', ''::''} \<or> CHR ''*'' \<in> set host"

text \<open>\<open>net.ParseIP\<close> takes no zone.\<close>

definition ParseIP :: "string \<Rightarrow> ip_addr option" where
  "ParseIP s = (case ParseAddr s of Some a \<Rightarrow> if has_zone a then None else Some a | None \<Rightarrow> None)"

definition validateListen :: "IntConfig \<Rightarrow> iconfig_error + unit" where
  "validateListen c =
     (if co_Listen c = [] then Inl ListenRequired
      else case split_host_port (co_Listen c) of
        None \<Rightarrow> Inl (ListenNotHostPort (co_Listen c))
      | Some (host, port) \<Rightarrow>
          if (case atoi port of None \<Rightarrow> True | Some p \<Rightarrow> p \<le> 0 \<or> p > 65535) then Inl (ListenPort (co_Listen c))
          else if \<not> co_Reuseport c then Inr ()
          else if wildcard_host host then Inl (ListenWildcard (co_Listen c))
          else if ParseIP host = None then Inl (ListenNotIP (co_Listen c))
          else Inr ())"

definition validateIntegration ::
  "nat \<Rightarrow> IntegrationConfig \<Rightarrow> string list \<times> nat \<Rightarrow> iconfig_error + string list \<times> nat" where
  "validateIntegration i ic = (\<lambda>(seen, enabled).
     if ic_Name ic = [] then Inl IntegrationUnnamed
     else if ic_Name ic \<in> set seen then Inl (IntegrationTwice (ic_Name ic))
     else if \<not> labelPattern (ic_Name ic) then Inl (IntegrationNotLabel (ic_Name ic))
     else if \<not> Known (ic_kind ic) then Inl (IntegrationUnknown (ic_kind ic))
     else Inr (ic_Name ic # seen, if ic_Enabled ic then Suc enabled else enabled))"

definition validateIntegrations :: "IntConfig \<Rightarrow> iconfig_error + unit" where
  "validateIntegrations c =
     (if co_Integrations c = [] then Inl NoIntegrationsListed
      else rbind (for_each 0 validateIntegration (co_Integrations c) ([], 0)) (\<lambda>(_, enabled).
        if enabled = 0 then Inl AllDisabled else Inr ()))"

definition broker_integration :: "nat \<Rightarrow> IntegrationConfig \<Rightarrow> unit \<Rightarrow> iconfig_error + unit" where
  "broker_integration i ic u = (if \<not> StaticConfig_Empty (ic_Auth ic) then Inl (AuthInBroker (ic_Name ic)) else Inr ())"

definition local_integration :: "nat \<Rightarrow> IntegrationConfig \<Rightarrow> unit \<Rightarrow> iconfig_error + unit" where
  "local_integration i ic u =
     (if ic_Enabled ic \<and> ic_kind ic \<in> {''llm'', ''gitlab'', ''gitea''} then Inl (NeedsBroker (ic_Name ic))
      else if ic_Enabled ic \<and> StaticConfig_Empty (ic_Auth ic) then Inl (NeedsAuth (ic_Name ic))
      else Inr ())"

definition validateCredential :: "IntConfig \<Rightarrow> iconfig_error + unit" where
  "validateCredential c =
     (let mode = cc_Mode (co_Credential c); socket = bc_Socket (cc_Broker (co_Credential c)) in
      if mode = ModeBroker then
        (if socket = [] then Inl SocketRequired
         else if \<not> has_prefix socket ''/'' then Inl (SocketNotAbsolute socket)
         else if co_Policy c \<noteq> None then Inl PolicyInBroker
         else for_each 0 broker_integration (co_Integrations c) ())
      else if mode = ModeLocal then
        (if socket \<noteq> [] then Inl SocketInLocal
         else if co_Policy c = None then Inl PolicyRequired
         else for_each 0 local_integration (co_Integrations c) ())
      else if mode = [] then Inl ModeRequired
      else Inl (ModeUnknown mode))"

definition IntConfig_Validate :: "IntConfig \<Rightarrow> iconfig_error + unit" where
  "IntConfig_Validate c =
     rbind (validateListen c) (\<lambda>_.
       if co_TLD c = [] then Inl TLDRequired
       else if \<not> int_hostnamePattern (co_TLD c) then Inl (TLDNotHostname (co_TLD c))
       else if \<not> labelPattern (co_label c) then Inl (LabelNotLabel (co_label c))
       else if tls_enabled (co_TLS c) \<and> (tl_Cert (co_TLS c) = [] \<or> tl_Key (co_TLS c) = []) then Inl CertAndKey
       else if tls_enabled (co_TLS c) \<and> tl_MinVersion (co_TLS c) \<notin> {[], ''1.2'', ''1.3''}
         then Inl (MinVersion (tl_MinVersion (co_TLS c)))
       else rbind (validateIntegrations c) (\<lambda>_. validateCredential c))"

datatype log_level = LevelDebug | LevelInfo | LevelWarn | LevelError

definition int_ParseLogLevel :: "string \<Rightarrow> log_level" where
  "int_ParseLogLevel s =
     (if s = ''debug'' then LevelDebug
      else if s \<in> {[], ''info''} then LevelInfo
      else if s \<in> {''warn'', ''warning''} then LevelWarn
      else if s = ''error'' then LevelError
      else LevelInfo)"

section \<open>What a valid configuration says\<close>

lemma validateIntegrations_ok:
  assumes "validateIntegrations c = Inr ()"
  shows "distinct (map ic_Name (co_Integrations c)) \<and>
    (\<forall>ic\<in>set (co_Integrations c). labelPattern (ic_Name ic) \<and> Known (ic_kind ic)) \<and>
    (\<exists>ic\<in>set (co_Integrations c). ic_Enabled ic)"
proof -
  from assms obtain seen n where loop: "for_each 0 validateIntegration (co_Integrations c) ([], 0) = Inr (seen, n)" "n \<noteq> 0"
    by (auto simp: validateIntegrations_def split: if_split_asm prod.splits)
  have "set (fst (seen, n)) = set (map ic_Name (co_Integrations c)) \<and> distinct (map ic_Name (co_Integrations c)) \<and>
      (\<forall>ic\<in>set (co_Integrations c). labelPattern (ic_Name ic) \<and> Known (ic_kind ic)) \<and>
      (snd (seen, n) \<noteq> 0 \<longrightarrow> (\<exists>ic\<in>set (co_Integrations c). ic_Enabled ic))"
    by (rule for_each_invariant [OF loop(1), of "\<lambda>acc s. set (fst s) = set (map ic_Name acc) \<and> distinct (map ic_Name acc) \<and>
        (\<forall>ic\<in>set acc. labelPattern (ic_Name ic) \<and> Known (ic_kind ic)) \<and> (snd s \<noteq> 0 \<longrightarrow> (\<exists>ic\<in>set acc. ic_Enabled ic))"])
      (auto simp: validateIntegration_def split: if_split_asm)
  with loop(2) show ?thesis by simp
qed

lemma validateCredential_local:
  assumes "validateCredential c = Inr ()" and "cc_Mode (co_Credential c) = ModeLocal"
  shows "co_Policy c \<noteq> None \<and> (\<forall>ic\<in>set (co_Integrations c). ic_Enabled ic \<longrightarrow>
    ic_kind ic \<notin> {''llm'', ''gitlab'', ''gitea''} \<and> \<not> StaticConfig_Empty (ic_Auth ic))"
proof -
  from assms have "for_each 0 local_integration (co_Integrations c) () = Inr ()" "co_Policy c \<noteq> None"
    by (auto simp: validateCredential_def ModeBroker_def ModeLocal_def Let_def split: if_split_asm)
  then show ?thesis
    by (auto dest!: for_each_unit simp: local_integration_def split: if_split_asm)
qed

lemma validateCredential_broker:
  assumes "validateCredential c = Inr ()" and "cc_Mode (co_Credential c) = ModeBroker"
  shows "co_Policy c = None \<and> (\<forall>ic\<in>set (co_Integrations c). StaticConfig_Empty (ic_Auth ic)) \<and>
    has_prefix (bc_Socket (cc_Broker (co_Credential c))) ''/''"
proof -
  from assms have "for_each 0 broker_integration (co_Integrations c) () = Inr ()" "co_Policy c = None"
    "has_prefix (bc_Socket (cc_Broker (co_Credential c))) ''/''"
    by (auto simp: validateCredential_def Let_def split: if_split_asm)
  then show ?thesis
    by (auto dest!: for_each_unit simp: broker_integration_def split: if_split_asm)
qed

lemma validateCredential_mode:
  "validateCredential c = Inr () \<Longrightarrow> cc_Mode (co_Credential c) \<in> {ModeBroker, ModeLocal}"
  by (auto simp: validateCredential_def Let_def split: if_split_asm)

text \<open>
  Further result. A configuration that validates either holds no credential and no policy and names the broker's
  socket, or holds both a policy and a credential for every integration it serves; every integration is of a
  known kind under a name of its own, and one is enabled.
\<close>

theorem valid_config_holds_one_authority:
  assumes "IntConfig_Validate c = Inr ()"
  shows "distinct (map ic_Name (co_Integrations c)) \<and> (\<exists>ic\<in>set (co_Integrations c). ic_Enabled ic) \<and>
    (\<forall>ic\<in>set (co_Integrations c). labelPattern (ic_Name ic) \<and> Known (ic_kind ic)) \<and>
    (cc_Mode (co_Credential c) = ModeBroker \<and> co_Policy c = None \<and>
       (\<forall>ic\<in>set (co_Integrations c). StaticConfig_Empty (ic_Auth ic)) \<or>
     cc_Mode (co_Credential c) = ModeLocal \<and> co_Policy c \<noteq> None \<and>
       (\<forall>ic\<in>set (co_Integrations c). ic_Enabled ic \<longrightarrow> ic_kind ic = ''github'' \<and> \<not> StaticConfig_Empty (ic_Auth ic)))"
proof -
  from assms have v: "validateIntegrations c = Inr ()" "validateCredential c = Inr ()"
    by (auto simp: IntConfig_Validate_def split: if_split_asm)
  note ok = validateIntegrations_ok [OF v(1)]
  have "ic_kind ic = ''github''" if "ic \<in> set (co_Integrations c)" "ic_kind ic \<notin> {''llm'', ''gitlab'', ''gitea''}" for ic
    using ok that by (auto simp: Known_def registered_def)
  then show ?thesis
    using ok validateCredential_mode [OF v(2)] validateCredential_local [OF v(2)] validateCredential_broker [OF v(2)]
    by blast
qed

definition example_int_config :: IntConfig where
  "example_int_config = \<lparr>co_Listen = ''0.0.0.0:443'', co_Reuseport = False, co_TLD = ''example.com'', co_Label = [],
     co_DocsURL = [],
     co_TLS = \<lparr>tl_Enabled = None, tl_Cert = ''/c'', tl_Key = ''/k'', tl_MinVersion = []\<rparr>,
     co_Credential = \<lparr>cc_Mode = ''local'', cc_TokenSkew = 0, cc_MaxAge = 0,
       cc_Broker = \<lparr>bc_Socket = [], bc_Timeout = 0\<rparr>\<rparr>,
     co_Integrations = [\<lparr>ic_Name = ''github'', ic_Kind = [], ic_Enabled = True, ic_Auth = example_static,
       ic_Block = \<lparr>gc_GitHost = [], gc_APIHost = []\<rparr>\<rparr>],
     co_Policy = Some example_policy, co_path = []\<rparr>"

theorem valid_config_holds_one_authority_witness:
  "cc_Mode (co_Credential example_int_config) = ModeLocal \<and> IntConfig_Validate example_int_config = Inr ()"
proof -
  have "IntConfig_Validate example_int_config = Inr ()" "cc_Mode (co_Credential example_int_config) \<noteq> ModeBroker"
    by code_simp+
  with valid_config_holds_one_authority [of example_int_config] show ?thesis by blast
qed

end
