(* ===== verification/Int_Cache.thy ===== *)
theory Int_Cache
  imports Int_Credential
begin

text \<open>
  The credential cache of the integration proxy (\<open>credential/cache.go\<close>): the entries by scope, the entry a
  leading call fills while later calls for the same scope wait for it, and the calls in flight as a step
  relation. The source behind the cache is an interface: the locale \<open>token_source\<close>.
\<close>

section \<open>The cache\<close>

text \<open>
  An entry belongs to a scope; \<^term>\<open>None\<close> is an open \<open>ready\<close> channel. Entries are allocated, and the map
  holds their addresses, because the code compares pointers.
\<close>

type_synonym answer = "token_error + Token"

record entry =
  en_scope :: Scope
  en_filled :: "(instant \<times> answer) option"

record Cache =
  ca_skew :: duration
  ca_maxAge :: duration
  ca_heap :: "entry list"
  ca_entries :: "Scope \<Rightarrow> nat option"

definition NewCache :: "duration \<Rightarrow> duration \<Rightarrow> Cache" where
  "NewCache skew maxAge =
     \<lparr>ca_skew = (if skew \<le> 0 then minute_ns else skew), ca_maxAge = (if maxAge \<le> 0 then minute_ns else maxAge),
      ca_heap = [], ca_entries = (\<lambda>_. None)\<rparr>"

definition reusable :: "Cache \<Rightarrow> instant \<Rightarrow> instant \<times> answer \<Rightarrow> bool" where
  "reusable c now = (\<lambda>(at, r). case r of
       Inl _ \<Rightarrow> False
     | Inr tok \<Rightarrow> Time_Sub now at < ca_maxAge c \<and> \<not> stale tok (ca_skew c) now)"

text \<open>The part of \<open>Token\<close> under the first lock, the filling of the entry, and the part under the second.\<close>

datatype lookup_result = Hit instant answer | Wait nat | Lead nat

definition allocate :: "Scope \<Rightarrow> Cache \<Rightarrow> lookup_result \<times> Cache" where
  "allocate s c =
     (let i = length (ca_heap c) in
      (Lead i, c\<lparr>ca_heap := ca_heap c @ [\<lparr>en_scope = s, en_filled = None\<rparr>],
                 ca_entries := (ca_entries c)(s := Some i)\<rparr>))"

definition Token_lookup :: "instant \<Rightarrow> Scope \<Rightarrow> Cache \<Rightarrow> lookup_result \<times> Cache" where
  "Token_lookup now s c =
     (case ca_entries c s of
        None \<Rightarrow> allocate s c
      | Some i \<Rightarrow>
          (case en_filled (ca_heap c ! i) of
             None \<Rightarrow> (Wait i, c)
           | Some (at, r) \<Rightarrow>
               if reusable c now (at, r) then (Hit at r, c)
               else allocate s (c\<lparr>ca_entries := (ca_entries c)(s := None)\<rparr>)))"

definition Token_fill :: "nat \<Rightarrow> instant \<Rightarrow> answer \<Rightarrow> Cache \<Rightarrow> Cache" where
  "Token_fill i now r c = c\<lparr>ca_heap := (ca_heap c)[i := (ca_heap c ! i)\<lparr>en_filled := Some (now, r)\<rparr>]\<rparr>"

definition Token_forget :: "Scope \<Rightarrow> nat \<Rightarrow> Cache \<Rightarrow> Cache" where
  "Token_forget s i c =
     (if ca_entries c s = Some i then c\<lparr>ca_entries := (ca_entries c)(s := None)\<rparr> else c)"

section \<open>Calls in flight\<close>

text \<open>
  A call remembers its scope and when it took the lock. \<open>Returned\<close> also holds when the source gave the answer,
  \<^term>\<open>None\<close> for the call's own failure.
\<close>

datatype call =
    Asking Scope instant nat
  | Forgetting Scope instant nat token_error
  | Waiting Scope instant nat
  | Returned Scope instant "instant option" answer

record flight =
  fl_cache :: Cache
  fl_clock :: instant
  fl_calls :: "nat \<Rightarrow> call option"
  fl_minted :: "(Scope \<times> instant \<times> answer) set"

definition enter :: "nat \<Rightarrow> Scope \<Rightarrow> flight \<Rightarrow> flight" where
  "enter k s f =
     (let now = fl_clock f; (l, c) = Token_lookup now s (fl_cache f);
          call = (case l of Hit at r \<Rightarrow> Returned s now (Some at) r | Wait i \<Rightarrow> Waiting s now i | Lead i \<Rightarrow> Asking s now i)
      in f\<lparr>fl_cache := c, fl_calls := (fl_calls f)(k \<mapsto> call)\<rparr>)"

definition answered :: "nat \<Rightarrow> Scope \<Rightarrow> instant \<Rightarrow> nat \<Rightarrow> answer \<Rightarrow> flight \<Rightarrow> flight" where
  "answered k s start i r f =
     (let now = fl_clock f in
      f\<lparr>fl_cache := Token_fill i now r (fl_cache f),
        fl_minted := insert (s, now, r) (fl_minted f),
        fl_calls := (fl_calls f)(k \<mapsto> (case r of
            Inl e \<Rightarrow> Forgetting s start i e
          | Inr tok \<Rightarrow> Returned s start (Some now) (Inr tok)))\<rparr>)"

inductive cache_step :: "(Scope \<Rightarrow> answer \<Rightarrow> bool) \<Rightarrow> flight \<Rightarrow> flight \<Rightarrow> bool" for src where
  Enter: "fl_calls f k = None \<Longrightarrow> cache_step src f (enter k s f)"
| Answer: "fl_calls f k = Some (Asking s start i) \<Longrightarrow> src s r \<Longrightarrow> cache_step src f (answered k s start i r f)"
| Forget: "fl_calls f k = Some (Forgetting s start i e) \<Longrightarrow>
    cache_step src f (f\<lparr>fl_cache := Token_forget s i (fl_cache f),
                        fl_calls := (fl_calls f)(k \<mapsto> Returned s start None (Inl e))\<rparr>)"
| Wake: "fl_calls f k = Some (Waiting s start i) \<Longrightarrow> en_filled (ca_heap (fl_cache f) ! i) = Some (at, r) \<Longrightarrow>
    cache_step src f (f\<lparr>fl_calls := (fl_calls f)(k \<mapsto> Returned s start (Some at) r)\<rparr>)"
| Cancel: "fl_calls f k = Some (Waiting s start i) \<Longrightarrow>
    cache_step src f (f\<lparr>fl_calls := (fl_calls f)(k \<mapsto> Returned s start None (Inl (OtherError e)))\<rparr>)"
| Tick: "fl_clock f \<le> t \<Longrightarrow> cache_step src f (f\<lparr>fl_clock := t\<rparr>)"

definition initial_flight :: "duration \<Rightarrow> duration \<Rightarrow> instant \<Rightarrow> flight" where
  "initial_flight skew maxAge now =
     \<lparr>fl_cache = NewCache skew maxAge, fl_clock = now, fl_calls = (\<lambda>_. None), fl_minted = {}\<rparr>"

inductive cache_reachable :: "(Scope \<Rightarrow> answer \<Rightarrow> bool) \<Rightarrow> duration \<Rightarrow> duration \<Rightarrow> flight \<Rightarrow> bool"
  for src skew maxAge where
  start: "cache_reachable src skew maxAge (initial_flight skew maxAge now)"
| step: "cache_reachable src skew maxAge f \<Longrightarrow> cache_step src f f' \<Longrightarrow> cache_reachable src skew maxAge f'"

section \<open>The invariant\<close>

text \<open>
  Every entry in the map is for its scope; an open entry is in the map and has exactly one call asking the
  source for it; a filled entry holds an answer the source gave for its scope; a failure stays in the map
  only until the call that got it removes it.
\<close>

definition entries_ok :: "flight \<Rightarrow> bool" where
  "entries_ok f \<longleftrightarrow> (\<forall>s i. ca_entries (fl_cache f) s = Some i \<longrightarrow>
     i < length (ca_heap (fl_cache f)) \<and> en_scope (ca_heap (fl_cache f) ! i) = s)"

definition led :: "flight \<Rightarrow> nat \<Rightarrow> bool" where
  "led f i \<longleftrightarrow> (\<exists>k start. fl_calls f k = Some (Asking (en_scope (ca_heap (fl_cache f) ! i)) start i) \<and>
     (\<forall>k' s' start'. fl_calls f k' = Some (Asking s' start' i) \<longrightarrow> k' = k)) \<and>
     ca_entries (fl_cache f) (en_scope (ca_heap (fl_cache f) ! i)) = Some i"

definition open_ok :: "flight \<Rightarrow> bool" where
  "open_ok f \<longleftrightarrow> (\<forall>i < length (ca_heap (fl_cache f)). en_filled (ca_heap (fl_cache f) ! i) = None \<longrightarrow> led f i)"

definition filled_ok :: "flight \<Rightarrow> bool" where
  "filled_ok f \<longleftrightarrow> (\<forall>i < length (ca_heap (fl_cache f)). \<forall>at r.
     en_filled (ca_heap (fl_cache f) ! i) = Some (at, r) \<longrightarrow>
       (en_scope (ca_heap (fl_cache f) ! i), at, r) \<in> fl_minted f \<and> at \<le> fl_clock f)"

definition errors_ok :: "flight \<Rightarrow> bool" where
  "errors_ok f \<longleftrightarrow> (\<forall>s i at e. ca_entries (fl_cache f) s = Some i \<longrightarrow>
     en_filled (ca_heap (fl_cache f) ! i) = Some (at, Inl e) \<longrightarrow>
     (\<exists>k start. fl_calls f k = Some (Forgetting s start i e)))"

text \<open>
  What a call knows: its entry, and, unless it failed by itself, when the source gave the answer: after the
  call began, or it is a token that was fresh enough when the call began.
\<close>

definition call_ok :: "flight \<Rightarrow> call \<Rightarrow> bool" where
  "call_ok f call = (case call of
       Asking s start i \<Rightarrow> i < length (ca_heap (fl_cache f)) \<and> en_scope (ca_heap (fl_cache f) ! i) = s \<and>
         en_filled (ca_heap (fl_cache f) ! i) = None \<and> start \<le> fl_clock f
     | Forgetting s start i e \<Rightarrow> i < length (ca_heap (fl_cache f)) \<and> en_filled (ca_heap (fl_cache f) ! i) \<noteq> None
     | Waiting s start i \<Rightarrow> i < length (ca_heap (fl_cache f)) \<and> en_scope (ca_heap (fl_cache f) ! i) = s \<and>
         start \<le> fl_clock f \<and> (\<forall>at r. en_filled (ca_heap (fl_cache f) ! i) = Some (at, r) \<longrightarrow> start \<le> at)
     | Returned s start at r \<Rightarrow> (case at of
           None \<Rightarrow> \<exists>e. r = Inl e
         | Some t \<Rightarrow> (s, t, r) \<in> fl_minted f \<and> (start \<le> t \<or> (\<exists>tok. r = Inr tok \<and>
             Time_Sub start t < ca_maxAge (fl_cache f) \<and> \<not> stale tok (ca_skew (fl_cache f)) start))))"

definition flight_ok :: "flight \<Rightarrow> bool" where
  "flight_ok f \<longleftrightarrow> entries_ok f \<and> open_ok f \<and> filled_ok f \<and> errors_ok f \<and>
     (\<forall>k call. fl_calls f k = Some call \<longrightarrow> call_ok f call)"

lemmas flight_defs = entries_ok_def open_ok_def filled_ok_def errors_ok_def led_def

lemma flight_okD:
  assumes "flight_ok f"
  shows "entries_ok f" "open_ok f" "filled_ok f" "errors_ok f" "fl_calls f k = Some call \<Longrightarrow> call_ok f call"
  using assms by (simp_all add: flight_ok_def)

lemma ledE:
  assumes "led f i"
  obtains k start where "fl_calls f k = Some (Asking (en_scope (ca_heap (fl_cache f) ! i)) start i)"
    "\<forall>k' s' start'. fl_calls f k' = Some (Asking s' start' i) \<longrightarrow> k' = k"
    "ca_entries (fl_cache f) (en_scope (ca_heap (fl_cache f) ! i)) = Some i"
  using assms unfolding led_def by blast

lemma errors_okE:
  assumes "flight_ok f" "ca_entries (fl_cache f) s = Some i" "en_filled (ca_heap (fl_cache f) ! i) = Some (at, Inl e)"
  obtains k start where "fl_calls f k = Some (Forgetting s start i e)"
  using flight_okD(4) [OF assms(1)] assms(2,3) unfolding errors_ok_def by blast

text \<open>A step that leaves the cache and what was minted alone, and changes a call that does not lead.\<close>

lemma change_call:
  assumes ok: "flight_ok f" and call: "call_ok f call'"
    and old: "\<forall>s start i. fl_calls f k \<noteq> Some (Asking s start i)" "\<forall>s start i e. fl_calls f k \<noteq> Some (Forgetting s start i e)"
    and new: "\<forall>s start i. call' \<noteq> Asking s start i"
  shows "flight_ok (f\<lparr>fl_calls := (fl_calls f)(k \<mapsto> call')\<rparr>)"
proof -
  let ?f = "f\<lparr>fl_calls := (fl_calls f)(k \<mapsto> call')\<rparr>"
  have calls: "call_ok ?f c \<longleftrightarrow> call_ok f c" for c
    by (cases c) (simp_all add: call_ok_def split: option.split)
  have "entries_ok ?f" "filled_ok ?f"
    using flight_okD(1,3) [OF ok] by (simp_all add: entries_ok_def filled_ok_def)
  moreover have "led ?f i" if l: "led f i" for i
  proof -
    let ?s = "en_scope (ca_heap (fl_cache f) ! i)"
    obtain k0 start where k0: "fl_calls f k0 = Some (Asking ?s start i)"
      "\<forall>k' s' start'. fl_calls f k' = Some (Asking s' start' i) \<longrightarrow> k' = k0"
      "ca_entries (fl_cache f) ?s = Some i"
      using l unfolding led_def by blast
    with old(1) have "k0 \<noteq> k" by auto
    with k0 new show ?thesis
      unfolding led_def by (intro conjI exI [of _ k0] exI [of _ start]) auto
  qed
  then have "open_ok ?f"
    using flight_okD(2) [OF ok] by (simp add: open_ok_def)
  moreover have "errors_ok ?f"
    unfolding errors_ok_def
  proof (intro allI impI)
    fix s i at e
    assume "ca_entries (fl_cache ?f) s = Some i" "en_filled (ca_heap (fl_cache ?f) ! i) = Some (at, Inl e)"
    then obtain k0 start where "fl_calls f k0 = Some (Forgetting s start i e)"
      using errors_okE [OF ok, of s i at e] by auto
    moreover from this old(2) have "k0 \<noteq> k" by auto
    ultimately show "\<exists>k start. fl_calls ?f k = Some (Forgetting s start i e)"
      by (intro exI [of _ k0] exI [of _ start]) simp
  qed
  ultimately show ?thesis
    using ok call calls by (auto simp: flight_ok_def)
qed

lemma allocate_ok:
  assumes ok: "flight_ok f" and k: "fl_calls f k = None"
    and free: "\<forall>i. ca_entries (fl_cache f) s = Some i \<longrightarrow> en_filled (ca_heap (fl_cache f) ! i) \<noteq> None"
    and c: "ca_heap c = ca_heap (fl_cache f)" "ca_skew c = ca_skew (fl_cache f)" "ca_maxAge c = ca_maxAge (fl_cache f)"
      "(ca_entries c)(s := Some i) = (ca_entries (fl_cache f))(s := Some i)"
    and i: "i = length (ca_heap c)"
  shows "flight_ok (f\<lparr>fl_cache := snd (allocate s c), fl_calls := (fl_calls f)(k \<mapsto> Asking s (fl_clock f) i)\<rparr>)"
    (is "flight_ok ?f")
proof -
  let ?h = "ca_heap (fl_cache f)"
  have cache: "ca_heap (fl_cache ?f) = ?h @ [\<lparr>en_scope = s, en_filled = None\<rparr>]"
    "ca_entries (fl_cache ?f) = (ca_entries (fl_cache f))(s := Some i)"
    "ca_skew (fl_cache ?f) = ca_skew (fl_cache f)" "ca_maxAge (fl_cache ?f) = ca_maxAge (fl_cache f)"
    using c i by (simp_all add: allocate_def Let_def)
  have len: "i = length ?h" using i c by simp
  have "entries_ok ?f"
    using flight_okD(1) [OF ok] len unfolding entries_ok_def cache
    by (auto simp: nth_append intro: less_SucI)
  moreover have "open_ok ?f"
    unfolding open_ok_def
  proof (intro allI impI)
    fix j assume j: "j < length (ca_heap (fl_cache ?f))" "en_filled (ca_heap (fl_cache ?f) ! j) = None"
    show "led ?f j"
    proof (cases "j = i")
      case True
      have "fl_calls f k' \<noteq> Some (Asking s' start' i)" for k' s' start'
        using flight_okD(5) [OF ok, of k' "Asking s' start' i"] len by (auto simp: call_ok_def)
      with True show ?thesis
        unfolding led_def cache by (auto simp: len nth_append)
    next
      case False
      with j len have "j < length ?h" "en_filled (?h ! j) = None"
        unfolding cache by (auto simp: nth_append)
      with flight_okD(2) [OF ok] have l: "led f j" by (simp add: open_ok_def)
      with \<open>en_filled (?h ! j) = None\<close> free have "en_scope (?h ! j) \<noteq> s"
        by (auto simp: led_def)
      moreover obtain k0 start where k0: "fl_calls f k0 = Some (Asking (en_scope (?h ! j)) start j)"
        "\<forall>k' s' start'. fl_calls f k' = Some (Asking s' start' j) \<longrightarrow> k' = k0"
        "ca_entries (fl_cache f) (en_scope (?h ! j)) = Some j"
        using l unfolding led_def by blast
      moreover have "k0 \<noteq> k" using k k0 by auto
      ultimately show ?thesis
        unfolding led_def cache using \<open>j < length ?h\<close> False
        by (intro conjI exI [of _ k0] exI [of _ start]) (auto simp: nth_append)
    qed
  qed
  moreover have "filled_ok ?f"
    using flight_okD(3) [OF ok] unfolding filled_ok_def cache by (auto simp: nth_append)
  moreover have "errors_ok ?f"
    unfolding errors_ok_def
  proof (intro allI impI)
    fix s' j at e
    assume j: "ca_entries (fl_cache ?f) s' = Some j" "en_filled (ca_heap (fl_cache ?f) ! j) = Some (at, Inl e)"
    have "s' \<noteq> s"
      using j unfolding cache by (auto simp: len)
    with j(1) have "ca_entries (fl_cache f) s' = Some j" unfolding cache by simp
    moreover from this j(2) have "en_filled (?h ! j) = Some (at, Inl e)"
      using flight_okD(1) [OF ok] unfolding cache by (simp add: entries_ok_def nth_append)
    ultimately obtain k0 start where "fl_calls f k0 = Some (Forgetting s' start j e)"
      using errors_okE [OF ok] by blast
    moreover from this k have "k0 \<noteq> k" by auto
    ultimately show "\<exists>k start. fl_calls ?f k = Some (Forgetting s' start j e)"
      by (intro exI [of _ k0] exI [of _ start]) simp
  qed
  moreover have "call_ok ?f call" if "call_ok f call" for call
    using that unfolding call_ok_def cache by (auto simp: nth_append split: call.splits option.splits)
  moreover have "call_ok ?f (Asking s (fl_clock f) i)"
    unfolding call_ok_def cache by (simp add: len)
  ultimately show ?thesis
    using flight_okD(5) [OF ok] by (auto simp: flight_ok_def split: if_splits)
qed

lemma enter_ok:
  assumes ok: "flight_ok f" and k: "fl_calls f k = None"
  shows "flight_ok (enter k s f)"
proof (cases "ca_entries (fl_cache f) s")
  case None
  then show ?thesis
    using allocate_ok [OF ok k, of s "fl_cache f" "length (ca_heap (fl_cache f))"]
    by (simp add: enter_def Token_lookup_def allocate_def Let_def)
next
  case (Some i)
  have i: "i < length (ca_heap (fl_cache f))" "en_scope (ca_heap (fl_cache f) ! i) = s"
    using flight_okD(1) [OF ok] Some by (auto simp: entries_ok_def)
  have same: "f\<lparr>fl_cache := fl_cache f, fl_calls := cs\<rparr> = f\<lparr>fl_calls := cs\<rparr>" for cs
    by simp
  show ?thesis
  proof (cases "en_filled (ca_heap (fl_cache f) ! i)")
    case None
    have "flight_ok (f\<lparr>fl_calls := (fl_calls f)(k \<mapsto> Waiting s (fl_clock f) i)\<rparr>)"
      by (rule change_call [OF ok]) (use i None k in \<open>simp_all add: call_ok_def\<close>)
    with Some None show ?thesis
      by (simp add: enter_def Token_lookup_def Let_def same)
  next
    case filled: (Some p)
    obtain at r where p: "p = (at, r)" by fastforce
    show ?thesis
    proof (cases "reusable (fl_cache f) (fl_clock f) (at, r)")
      case True
      moreover have "(s, at, r) \<in> fl_minted f"
        using flight_okD(3) [OF ok] i filled p by (auto simp: filled_ok_def)
      ultimately have "call_ok f (Returned s (fl_clock f) (Some at) r)"
        by (auto simp: call_ok_def reusable_def split: sum.splits)
      from change_call [OF ok this, of k] Some filled p True k show ?thesis
        by (simp add: enter_def Token_lookup_def Let_def same)
    next
      case False
      let ?c = "(fl_cache f)\<lparr>ca_entries := (ca_entries (fl_cache f))(s := None)\<rparr>"
      let ?i = "length (ca_heap (fl_cache f))"
      have "Token_lookup (fl_clock f) s (fl_cache f) = (Lead ?i, snd (allocate s ?c))"
        using Some filled p False by (simp add: Token_lookup_def allocate_def Let_def)
      then have "enter k s f = f\<lparr>fl_cache := snd (allocate s ?c),
          fl_calls := (fl_calls f)(k \<mapsto> Asking s (fl_clock f) ?i)\<rparr>"
        by (simp add: enter_def Let_def)
      moreover have "flight_ok \<dots>"
        by (rule allocate_ok [OF ok k]) (use Some filled in simp_all)
      ultimately show ?thesis by simp
    qed
  qed
qed

lemma answered_ok:
  assumes ok: "flight_ok f" and k: "fl_calls f k = Some (Asking s start i)"
  shows "flight_ok (answered k s start i r f)" (is "flight_ok ?f")
proof -
  let ?h = "ca_heap (fl_cache f)"
  have i: "i < length ?h" "en_scope (?h ! i) = s" "en_filled (?h ! i) = None" "start \<le> fl_clock f"
    using flight_okD(5) [OF ok k] by (simp_all add: call_ok_def)
  have cache: "ca_heap (fl_cache ?f) = ?h[i := (?h ! i)\<lparr>en_filled := Some (fl_clock f, r)\<rparr>]"
    "ca_entries (fl_cache ?f) = ca_entries (fl_cache f)" "fl_clock ?f = fl_clock f"
    "ca_skew (fl_cache ?f) = ca_skew (fl_cache f)" "ca_maxAge (fl_cache ?f) = ca_maxAge (fl_cache f)"
    "fl_minted ?f = insert (s, fl_clock f, r) (fl_minted f)"
    by (simp_all add: answered_def Token_fill_def Let_def)
  have calls: "fl_calls ?f = (fl_calls f)(k \<mapsto> (case r of
      Inl e \<Rightarrow> Forgetting s start i e | Inr tok \<Rightarrow> Returned s start (Some (fl_clock f)) (Inr tok)))"
    by (simp add: answered_def Let_def)
  have scope: "en_scope (ca_heap (fl_cache ?f) ! j) = en_scope (?h ! j)" if "j < length ?h" for j
    using that i(1) unfolding cache by (simp add: nth_list_update)
  have other: "ca_heap (fl_cache ?f) ! j = ?h ! j" if "j \<noteq> i" for j
    using that unfolding cache by simp
  have "led f i"
    using flight_okD(2) [OF ok] i by (simp add: open_ok_def)
  then have alone: "k' = k" if "fl_calls f k' = Some (Asking s' start' i)" for k' s' start'
    using k that by (metis ledE)
  have "entries_ok ?f"
    using flight_okD(1) [OF ok] scope unfolding entries_ok_def by (simp add: cache)
  moreover have "open_ok ?f"
    unfolding open_ok_def
  proof (intro allI impI)
    fix j assume j: "j < length (ca_heap (fl_cache ?f))" "en_filled (ca_heap (fl_cache ?f) ! j) = None"
    then have ji: "j \<noteq> i" using i unfolding cache by (auto simp: nth_list_update)
    with j have "led f j"
      using flight_okD(2) [OF ok] other unfolding cache by (simp add: open_ok_def)
    then obtain k0 start0 where k0: "fl_calls f k0 = Some (Asking (en_scope (?h ! j)) start0 j)"
      "\<forall>k' s' start'. fl_calls f k' = Some (Asking s' start' j) \<longrightarrow> k' = k0"
      "ca_entries (fl_cache f) (en_scope (?h ! j)) = Some j"
      unfolding led_def by blast
    with k ji have "k0 \<noteq> k" by auto
    with k0 show "led ?f j"
      unfolding led_def other [OF ji] cache(2) calls
      by (intro conjI exI [of _ k0] exI [of _ start0]) (auto split: sum.splits)
  qed
  moreover have "filled_ok ?f"
    using flight_okD(3) [OF ok] i unfolding filled_ok_def cache by (auto simp: nth_list_update)
  moreover have "errors_ok ?f"
    unfolding errors_ok_def
  proof (intro allI impI)
    fix s' j at e
    assume j: "ca_entries (fl_cache ?f) s' = Some j" "en_filled (ca_heap (fl_cache ?f) ! j) = Some (at, Inl e)"
    then have e: "ca_entries (fl_cache f) s' = Some j" unfolding cache by simp
    then have s': "j < length ?h" "en_scope (?h ! j) = s'"
      using flight_okD(1) [OF ok] by (simp_all add: entries_ok_def)
    show "\<exists>k start. fl_calls ?f k = Some (Forgetting s' start j e)"
    proof (cases "j = i")
      case True
      with j(2) s' i have "r = Inl e" "s' = s" unfolding cache by simp_all
      with True show ?thesis unfolding calls by (intro exI [of _ k] exI [of _ start]) simp
    next
      case False
      with e j(2) other obtain k0 start0 where "fl_calls f k0 = Some (Forgetting s' start0 j e)"
        using errors_okE [OF ok, of s' j at e] by auto
      moreover from this k have "k0 \<noteq> k" by auto
      ultimately show ?thesis unfolding calls by (intro exI [of _ k0] exI [of _ start0]) simp
    qed
  qed
  moreover have "call_ok ?f call" if "fl_calls f k' = Some call" "k' \<noteq> k" for k' call
    using flight_okD(5) [OF ok that(1)] that alone i unfolding call_ok_def cache
    by (cases call) (auto simp: nth_list_update split: option.splits)
  moreover have "call_ok ?f (the (fl_calls ?f k))"
    unfolding calls call_ok_def cache using i by (auto split: sum.split option.split)
  ultimately show ?thesis
    unfolding flight_ok_def by (metis calls fun_upd_other fun_upd_same option.sel)
qed

lemma forget_ok:
  assumes ok: "flight_ok f" and k: "fl_calls f k = Some (Forgetting s start i e)"
  shows "flight_ok (f\<lparr>fl_cache := Token_forget s i (fl_cache f),
                      fl_calls := (fl_calls f)(k \<mapsto> Returned s start None (Inl e))\<rparr>)" (is "flight_ok ?f")
proof -
  let ?h = "ca_heap (fl_cache f)"
  have i: "i < length ?h" "en_filled (?h ! i) \<noteq> None"
    using flight_okD(5) [OF ok k] by (simp_all add: call_ok_def)
  have cache: "ca_heap (fl_cache ?f) = ?h" "ca_skew (fl_cache ?f) = ca_skew (fl_cache f)"
    "ca_maxAge (fl_cache ?f) = ca_maxAge (fl_cache f)"
    by (simp_all add: Token_forget_def)
  have entry: "ca_entries (fl_cache ?f) s' = Some j \<longleftrightarrow> ca_entries (fl_cache f) s' = Some j \<and> (s' = s \<longrightarrow> j \<noteq> i)" for s' j
    by (auto simp: Token_forget_def)
  have "entries_ok ?f"
    using flight_okD(1) [OF ok] unfolding entries_ok_def cache entry by blast
  moreover have "led ?f j" if "led f j" "en_filled (?h ! j) = None" for j
  proof -
    from that(1) obtain k0 start0 where k0: "fl_calls f k0 = Some (Asking (en_scope (?h ! j)) start0 j)"
      "\<forall>k' s' start'. fl_calls f k' = Some (Asking s' start' j) \<longrightarrow> k' = k0"
      "ca_entries (fl_cache f) (en_scope (?h ! j)) = Some j"
      unfolding led_def by blast
    moreover have "k0 \<noteq> k" using k0 k by auto
    moreover have "j \<noteq> i" using that(2) i by auto
    ultimately show ?thesis
      unfolding led_def cache entry by (intro conjI exI [of _ k0] exI [of _ start0]) auto
  qed
  then have "open_ok ?f"
    using flight_okD(2) [OF ok] unfolding open_ok_def cache by blast
  moreover have "filled_ok ?f"
    using flight_okD(3) [OF ok] unfolding filled_ok_def cache by simp
  moreover have "errors_ok ?f"
    unfolding errors_ok_def
  proof (intro allI impI)
    fix s' j at e'
    assume j: "ca_entries (fl_cache ?f) s' = Some j" "en_filled (ca_heap (fl_cache ?f) ! j) = Some (at, Inl e')"
    then obtain k0 start0 where k0: "fl_calls f k0 = Some (Forgetting s' start0 j e')"
      using errors_okE [OF ok, of s' j at e'] unfolding cache entry by blast
    with j k have "k0 \<noteq> k" unfolding entry by auto
    with k0 show "\<exists>k start. fl_calls ?f k = Some (Forgetting s' start j e')"
      by (intro exI [of _ k0] exI [of _ start0]) simp
  qed
  moreover have "call_ok ?f call \<longleftrightarrow> call_ok f call" for call
    unfolding call_ok_def cache by (simp split: call.splits option.splits)
  ultimately show ?thesis
    using flight_okD(5) [OF ok] by (auto simp: flight_ok_def call_ok_def)
qed

lemma cache_step_ok: "cache_step src f f' \<Longrightarrow> flight_ok f \<Longrightarrow> flight_ok f'"
proof (induction rule: cache_step.induct)
  case (Wake f k s start i at r)
  from flight_okD(5) [OF Wake(3) Wake(1)] flight_okD(3) [OF Wake(3)] Wake(2)
  have "call_ok f (Returned s start (Some at) r)"
    by (auto simp: call_ok_def filled_ok_def)
  with Wake show ?case by (intro change_call) simp_all
next
  case (Cancel f k s start i e)
  then show ?case by (intro change_call) (simp_all add: call_ok_def)
next
  case (Tick f t)
  have "call_ok (f\<lparr>fl_clock := t\<rparr>) call" if "call_ok f call" for call
    using that Tick(1) by (cases call) (auto simp: call_ok_def split: option.splits)
  with Tick show ?case
    unfolding flight_ok_def flight_defs by fastforce
qed (blast intro: enter_ok answered_ok forget_ok)+

lemma cache_reachable_ok: "cache_reachable src skew maxAge f \<Longrightarrow> flight_ok f"
proof (induction rule: cache_reachable.induct)
  case (start now)
  show ?case by (simp add: flight_ok_def flight_defs initial_flight_def NewCache_def)
qed (rule cache_step_ok)

lemma cache_step_settings:
  "cache_step src f f' \<Longrightarrow> ca_skew (fl_cache f') = ca_skew (fl_cache f) \<and> ca_maxAge (fl_cache f') = ca_maxAge (fl_cache f)"
  by (induction rule: cache_step.induct)
    (auto simp: enter_def answered_def Token_lookup_def allocate_def Token_fill_def Token_forget_def Let_def
      split: option.splits prod.splits)

lemma cache_reachable_settings:
  "cache_reachable src skew maxAge f \<Longrightarrow>
     ca_skew (fl_cache f) = (if skew \<le> 0 then minute_ns else skew) \<and>
     ca_maxAge (fl_cache f) = (if maxAge \<le> 0 then minute_ns else maxAge)"
  by (induction rule: cache_reachable.induct)
    (auto simp: initial_flight_def NewCache_def dest: cache_step_settings)

section \<open>The source behind the cache\<close>

text \<open>What the source may answer, and what it promises of a token it gives for a scope.\<close>

locale token_source =
  fixes src :: "Scope \<Rightarrow> answer \<Rightarrow> bool"
    and granted :: "Scope \<Rightarrow> Token \<Rightarrow> bool"
  assumes src_granted: "src s (Inr tok) \<Longrightarrow> granted s tok"
begin

lemma minted_step:
  "cache_step src f f' \<Longrightarrow> (s, t, Inr tok) \<in> fl_minted f' \<Longrightarrow> (s, t, Inr tok) \<in> fl_minted f \<or> src s (Inr tok)"
  by (induction rule: cache_step.induct) (auto simp: enter_def answered_def Let_def split: prod.splits)

lemma minted_granted:
  "cache_reachable src skew maxAge f \<Longrightarrow> (s, t, Inr tok) \<in> fl_minted f \<Longrightarrow> granted s tok"
  by (induction rule: cache_reachable.induct)
    (auto simp: initial_flight_def dest: minted_step src_granted)

lemma returned_granted:
  assumes "cache_reachable src skew maxAge f" and "fl_calls f k = Some (Returned s start at (Inr tok))"
  shows "granted s tok"
proof -
  from flight_okD(5) [OF cache_reachable_ok [OF assms(1)] assms(2)]
  obtain t where "(s, t, Inr tok) \<in> fl_minted f"
    by (auto simp: call_ok_def split: option.splits)
  then show ?thesis by (rule minted_granted [OF assms(1)])
qed

end

text \<open>The configured tokens, and the broker, whose client may answer differently each time.\<close>

definition static_answers :: "Static \<Rightarrow> Scope \<Rightarrow> answer \<Rightarrow> bool" where
  "static_answers st s r \<longleftrightarrow> r = Static_Token st s"

definition broker_answers :: "Broker \<Rightarrow> Scope \<Rightarrow> answer \<Rightarrow> bool" where
  "broker_answers b s r \<longleftrightarrow> (\<exists>hc. r = Broker_Token hc b s)"

definition static_grants :: "Static \<Rightarrow> Scope \<Rightarrow> Token \<Rightarrow> bool" where
  "static_grants st s tok \<longleftrightarrow>
     map_of (ss_tokens st) (if sc_Credential s = [] then ss_def st else sc_Credential s) = Some (tk_Value tok) \<and>
     tk_ExpiresAt tok = 0"

definition broker_grants :: "Broker \<Rightarrow> Scope \<Rightarrow> Token \<Rightarrow> bool" where
  "broker_grants b s tok \<longleftrightarrow> tk_Value tok \<noteq> [] \<and>
     (\<exists>hc body clean v. hc ''/v1/token'' (print_json (brokerRequest s)) (br_timeout b) = Some (200 :: int, body, clean :: bool) \<and>
        unmarshal_value (take tokenLimit body) = Some v \<and> brokerResponse v = Some tok)"

interpretation static_source: token_source "static_answers st" "static_grants st" for st
  by unfold_locales
    (auto simp: static_answers_def static_grants_def Static_Token_def zeroToken_def Let_def
      split: if_splits option.splits)

interpretation broker_source: token_source "broker_answers b" "broker_grants b" for b
proof
  fix s tok
  assume "broker_answers b s (Inr tok)"
  then obtain hc where "Broker_Token hc b s = Inr tok" by (auto simp: broker_answers_def)
  from Broker_Token_granted [OF this] show "broker_grants b s tok"
    by (auto simp: broker_grants_def)
qed

text \<open>Every token the source may give for a scope can be returned, by a call that leads.\<close>

lemma cache_can_answer:
  assumes "src s (Inr tok)"
  shows "\<exists>f. cache_reachable src skew maxAge f \<and> fl_calls f 0 = Some (Returned s 0 (Some 0) (Inr tok))"
proof -
  let ?f = "enter 0 s (initial_flight skew maxAge 0)"
  have 1: "cache_reachable src skew maxAge ?f"
    by (rule cache_reachable.step [OF cache_reachable.start [of src skew maxAge 0]], rule cache_step.Enter)
      (simp add: initial_flight_def)
  have call: "fl_calls ?f 0 = Some (Asking s 0 0)"
    by (simp add: enter_def initial_flight_def NewCache_def Token_lookup_def allocate_def Let_def)
  from cache_reachable.step [OF 1 cache_step.Answer [of ?f 0 s 0 0 src "Inr tok", OF call assms]]
  show ?thesis
    by (intro exI [of _ "answered 0 s 0 0 (Inr tok) ?f"] conjI)
      (simp_all add: answered_def Let_def enter_def initial_flight_def NewCache_def Token_lookup_def allocate_def)
qed

section \<open>What a caller of the cache gets\<close>

text \<open>A first call asks the source, a second one waits for it, and once it answered a third one is a hit.\<close>

definition example_st :: Static where
  "example_st = \<lparr>ss_tokens = [(''bot'', ''ghp_x'')], ss_def = ''bot''\<rparr>"

definition asking_flight :: flight where
  "asking_flight = enter 1 example_scope (enter 0 example_scope (initial_flight minute_ns minute_ns 5))"

definition answered_flight :: flight where
  "answered_flight = enter 2 example_scope
     (answered 0 example_scope 5 0 (Inr (zeroToken\<lparr>tk_Value := ''ghp_x''\<rparr>)) asking_flight)"

lemma asking_flight_calls:
  "fl_calls asking_flight 0 = Some (Asking example_scope 5 0)"
  "fl_calls asking_flight 1 = Some (Waiting example_scope 5 0)"
  "en_filled (ca_heap (fl_cache asking_flight) ! 0) = None"
  "fl_calls asking_flight 2 = None"
  by code_simp+

lemma asking_flight_reachable: "cache_reachable (static_answers example_st) minute_ns minute_ns asking_flight"
proof -
  let ?f = "initial_flight minute_ns minute_ns 5"
  have "cache_reachable (static_answers example_st) minute_ns minute_ns (enter 0 example_scope ?f)"
    by (rule cache_reachable.step [OF cache_reachable.start], rule cache_step.Enter)
      (simp add: initial_flight_def)
  then show ?thesis
    unfolding asking_flight_def
    by (rule cache_reachable.step, intro cache_step.Enter)
      (simp add: initial_flight_def enter_def Let_def split: prod.split)
qed

lemma answered_flight_calls:
  "fl_calls answered_flight 2 = Some (Returned example_scope 5 (Some 5) (Inr (zeroToken\<lparr>tk_Value := ''ghp_x''\<rparr>)))"
  by code_simp

lemma answered_flight_reachable: "cache_reachable (static_answers example_st) minute_ns minute_ns answered_flight"
proof -
  have "static_answers example_st example_scope (Inr (zeroToken\<lparr>tk_Value := ''ghp_x''\<rparr>))"
    using example_static_new(2) by (simp add: static_answers_def example_st_def)
  from cache_step.Answer [of asking_flight 0 example_scope 5 0 "static_answers example_st", OF asking_flight_calls(1) this]
  have 1: "cache_reachable (static_answers example_st) minute_ns minute_ns
      (answered 0 example_scope 5 0 (Inr (zeroToken\<lparr>tk_Value := ''ghp_x''\<rparr>)) asking_flight)"
    by (rule cache_reachable.step [OF asking_flight_reachable])
  show ?thesis
    unfolding answered_flight_def
    by (rule cache_reachable.step [OF 1], rule cache_step.Enter)
      (simp add: answered_def Let_def asking_flight_calls)
qed

text \<open>
  Property C20. A token the cache returns was given by the source for this very scope; either the source
  gave it after the call began, or the cached one was younger than \<open>maxAge\<close> and not about to expire when the
  call began. So a revoked grant stops working after \<open>maxAge\<close>. A refusal is never served from the cache: it
  was given after the call began or is the call's own.
\<close>

theorem cache_answer_fresh:
  assumes "cache_reachable src skew maxAge f" and "fl_calls f k = Some (Returned s start (Some t) r)"
    and "0 < skew" "0 < maxAge"
  shows "(s, t, r) \<in> fl_minted f \<and> (start \<le> t \<or>
     (\<exists>tok. r = Inr tok \<and> Time_Sub start t < maxAge \<and> \<not> stale tok skew start))"
  using flight_okD(5) [OF cache_reachable_ok [OF assms(1)] assms(2)] cache_reachable_settings [OF assms(1)] assms(3,4)
  by (simp add: call_ok_def)

theorem cache_answer_fresh_witness:
  "(example_scope, 5, Inr (zeroToken\<lparr>tk_Value := ''ghp_x''\<rparr>)) \<in> fl_minted answered_flight"
  using cache_answer_fresh [OF answered_flight_reachable answered_flight_calls]
  by (simp add: minute_ns_def second_ns_def)

text \<open>
  Property C26. At most one call at a time asks the source for a scope, and a call that waits for an open
  entry waits for a call that is asking for the same scope, so no waiter is lost.
\<close>

theorem cache_single_flight:
  assumes "cache_reachable src skew maxAge f"
  shows "(fl_calls f k = Some (Asking s start i) \<longrightarrow> fl_calls f k' = Some (Asking s start' i') \<longrightarrow> k' = k) \<and>
    (fl_calls f k = Some (Waiting s start i) \<longrightarrow>
       (\<exists>at r. en_filled (ca_heap (fl_cache f) ! i) = Some (at, r) \<and> start \<le> at) \<or>
       (\<exists>k' start'. fl_calls f k' = Some (Asking s start' i)))"
proof -
  note ok = cache_reachable_ok [OF assms]
  have led: "led f j" if "fl_calls f l = Some (Asking s st j)" for l st j
    using flight_okD(2) [OF ok] flight_okD(5) [OF ok that] by (auto simp: open_ok_def call_ok_def)
  have "k' = k" if k: "fl_calls f k = Some (Asking s start i)" and k': "fl_calls f k' = Some (Asking s start' i')"
  proof -
    have "ca_entries (fl_cache f) s = Some j" if "fl_calls f l = Some (Asking s st j)" for l st j
      using led [OF that] flight_okD(5) [OF ok that] by (auto simp: led_def call_ok_def)
    from this [OF k] this [OF k'] have "i' = i" by simp
    with k k' led [OF k] show ?thesis by (metis ledE)
  qed
  moreover have "(\<exists>at r. en_filled (ca_heap (fl_cache f) ! i) = Some (at, r) \<and> start \<le> at) \<or>
      (\<exists>k' start'. fl_calls f k' = Some (Asking s start' i))" if "fl_calls f k = Some (Waiting s start i)"
  proof (cases "en_filled (ca_heap (fl_cache f) ! i)")
    case None
    with flight_okD(5) [OF ok that] flight_okD(2) [OF ok] have "led f i" "en_scope (ca_heap (fl_cache f) ! i) = s"
      by (simp_all add: call_ok_def open_ok_def)
    then show ?thesis by (metis ledE)
  next
    case (Some p)
    with flight_okD(5) [OF ok that] show ?thesis by (cases p) (simp add: call_ok_def)
  qed
  ultimately show ?thesis by blast
qed

theorem cache_single_flight_witness:
  "\<exists>k' start'. fl_calls asking_flight k' = Some (Asking example_scope start' 0)"
  using cache_single_flight [OF asking_flight_reachable, of 1 example_scope 5 0 0] asking_flight_calls
  by auto

text \<open>
  Further result. Through the cache a caller gets no token but the operator's: what it returns for a scope is
  the value of the credential the scope selects, which was configured for that name.
\<close>

theorem cached_static_token:
  assumes "NewStatic env cfg = Inr st" and "cache_reachable (static_answers st) skew maxAge f"
    and "fl_calls f k = Some (Returned s start at (Inr tok))"
  shows "configured env cfg (if sc_Credential s = [] then ss_def st else sc_Credential s) (tk_Value tok)"
  using static_source.returned_granted [OF assms(2,3)]
  by (intro NewStatic_configured [OF assms(1)]) (auto simp: static_grants_def split: if_splits)

theorem cached_static_token_witness: "configured example_os example_static ''bot'' ''ghp_x''"
  using cached_static_token [of example_os example_static example_st, OF _ answered_flight_reachable answered_flight_calls]
    example_static_new(1)
  by (simp add: example_st_def example_scope_def)

end
