(* ===== verification/Int_Server.thy ===== *)
theory Int_Server
  imports Int_Config Int_Cache
begin

text \<open>
  The integration proxy itself (\<open>intproxy/server.go\<close>, \<open>proxy.go\<close>, \<open>usage.go\<close>, \<open>listen.go\<close>): how a server is
  built from its configuration, the handler from the host of a request to the answer or the proxied request,
  the outbound request, what becomes of the response, the usage line, reloading and the certificate. The
  certificate files, the file system and the parser of URLs are parameters; the credential cache is what the
  handler asks, as a function of the scope.
\<close>

section \<open>The credential source\<close>

datatype source = FromBroker Broker | FromStatic "(string \<times> Static) list"

datatype server_error =
    CertificateFailed string
  | AuthFailed string static_error
  | ModeNotKnown string
  | PolicyFailed policy_error
  | KindNotKnown string
  | NameRequired
  | ConfigFailed
  | NeedsRestart

definition static_source :: "os \<Rightarrow> nat \<Rightarrow> IntegrationConfig \<Rightarrow> (string \<times> Static) list \<Rightarrow> server_error + (string \<times> Static) list" where
  "static_source env i ic sources =
     (if \<not> ic_Enabled ic then Inr sources
      else case NewStatic env (ic_Auth ic) of
        Inl e \<Rightarrow> Inl (AuthFailed (ic_Name ic) e)
      | Inr st \<Rightarrow> Inr (AList.update (ic_Name ic) st sources))"

definition credentialSource :: "os \<Rightarrow> IntConfig \<Rightarrow> server_error + source" where
  "credentialSource env cfg =
     (let mode = cc_Mode (co_Credential cfg) in
      if mode = ModeBroker then
        Inr (FromBroker (NewBroker (dur_or (bc_Timeout (cc_Broker (co_Credential cfg))) (5 * second_ns)) (co_DocsURL cfg)))
      else if mode = ModeLocal then
        rbind (for_each 0 (static_source env) (co_Integrations cfg) []) (\<lambda>sources. Inr (FromStatic sources))
      else Inl (ModeNotKnown mode))"

definition multiSource_Token :: "(string \<times> Static) list \<Rightarrow> Scope \<Rightarrow> token_error + Token" where
  "multiSource_Token m s =
     (case map_of m (sc_Integration s) of
        None \<Rightarrow> Inl (Denial StatusForbidden
          (''intproxy: no credential is configured for the '' @ sc_Integration s @ '' integration''))
      | Some st \<Rightarrow> Static_Token st s)"

text \<open>What the source may answer, the broker at any time.\<close>

definition source_answers :: "source \<Rightarrow> Scope \<Rightarrow> answer \<Rightarrow> bool" where
  "source_answers src s r =
     (case src of
        FromBroker b \<Rightarrow> broker_answers b s r
      | FromStatic m \<Rightarrow> r = multiSource_Token m s)"

definition source_grants :: "source \<Rightarrow> Scope \<Rightarrow> Token \<Rightarrow> bool" where
  "source_grants src s tok =
     (case src of
        FromBroker b \<Rightarrow> broker_grants b s tok
      | FromStatic m \<Rightarrow> (\<exists>st. map_of m (sc_Integration s) = Some st \<and> static_grants st s tok))"

interpretation server_source: token_source "source_answers src" "source_grants src" for src
proof
  fix s tok
  assume "source_answers src s (Inr tok)"
  then show "source_grants src s tok"
    using broker_source.src_granted static_source.src_granted
    by (cases src) (auto simp: source_answers_def source_grants_def multiSource_Token_def static_answers_def
        split: option.split_asm)
qed

section \<open>The server\<close>

record IntServer =
  sv_cfg :: IntConfig
  sv_cert :: "string option"
  sv_policy :: "Policy option"
  sv_source :: source
  sv_cache :: Cache
  sv_hosts :: "(string \<times> Integration) list"
  sv_names :: "string list"
  sv_version :: string

text \<open>The URL under which a client reaches a host of this proxy.\<close>

definition selfURL :: "IntConfig \<Rightarrow> string \<Rightarrow> string" where
  "selfURL cfg host = (if tls_enabled (co_TLS cfg) then ''https://'' else ''http://'') @ host"

text \<open>\<open>integration.New\<close> on the registered kinds.\<close>

definition New_integration :: "string \<Rightarrow> GitHubConfig Options \<Rightarrow> server_error + Integration" where
  "New_integration kind opts =
     (if kind = ''github'' then Inr (github (NewGitHub opts))
      else if kind = ''gitlab'' \<or> kind = ''gitea'' then
        (case NewGitLab opts of None \<Rightarrow> Inl NameRequired | Some g \<Rightarrow> Inr (gitlab g))
      else if kind = ''llm'' then Inr llm
      else Inl (KindNotKnown kind))"

definition add_integration ::
  "IntConfig \<Rightarrow> string \<Rightarrow> nat \<Rightarrow> IntegrationConfig \<Rightarrow> (string \<times> Integration) list \<times> string list \<Rightarrow>
     server_error + (string \<times> Integration) list \<times> string list" where
  "add_integration cfg version i ic = (\<lambda>(hosts, names).
     if \<not> ic_Enabled ic then Inr (hosts, names)
     else let host = hostname cfg (ic_Name ic) in
       rbind (New_integration (ic_kind ic)
           \<lparr>op_Name = ic_Name ic, op_Decode = Some (ic_Block ic), op_DocsURL = co_DocsURL cfg,
            op_SelfURL = Some (selfURL cfg host), op_Version = version\<rparr>)
         (\<lambda>ig. Inr (AList.update host ig hosts, names @ [host])))"

text \<open>\<open>load\<close>: what \<open>tls.LoadX509KeyPair\<close> gives for a certificate and a key file.\<close>

definition loadCertificate :: "(string \<Rightarrow> string \<Rightarrow> string option) \<Rightarrow> IntConfig \<Rightarrow> server_error + string" where
  "loadCertificate load cfg =
     (case load (tl_Cert (co_TLS cfg)) (tl_Key (co_TLS cfg)) of
        None \<Rightarrow> Inl (CertificateFailed (tl_Cert (co_TLS cfg)))
      | Some pair \<Rightarrow> Inr pair)"

definition start_policy :: "IntConfig \<Rightarrow> server_error + Policy option" where
  "start_policy cfg =
     (if cc_Mode (co_Credential cfg) \<noteq> ModeLocal then Inr None
      else case co_Policy cfg of
        None \<Rightarrow> Inr None
      | Some p \<Rightarrow> (case Compile p of Inl e \<Rightarrow> Inl (PolicyFailed e) | Inr q \<Rightarrow> Inr (Some q)))"

definition NewIntServer ::
  "os \<Rightarrow> (string \<Rightarrow> string \<Rightarrow> string option) \<Rightarrow> IntConfig \<Rightarrow> string \<Rightarrow> server_error + IntServer" where
  "NewIntServer env load cfg version =
     rbind (if tls_enabled (co_TLS cfg) then rbind (loadCertificate load cfg) (\<lambda>c. Inr (Some c)) else Inr None) (\<lambda>cert.
     rbind (credentialSource env cfg) (\<lambda>src.
     rbind (start_policy cfg) (\<lambda>pol.
     rbind (for_each 0 (add_integration cfg version) (co_Integrations cfg) ([], [])) (\<lambda>(hosts, names).
       Inr \<lparr>sv_cfg = cfg, sv_cert = cert, sv_policy = pol, sv_source = src,
            sv_cache = NewCache (dur_or (cc_TokenSkew (co_Credential cfg)) minute_ns)
                         (dur_or (cc_MaxAge (co_Credential cfg)) minute_ns),
            sv_hosts = hosts, sv_names = sort names, sv_version = version\<rparr>))))"

section \<open>The handler\<close>

datatype int_outcome =
    Answer int "(string \<times> string) list" string
  | Forward Integration Route Token http_request

definition StatusNotFound :: int where "StatusNotFound = 404"
definition StatusNotImplemented :: int where "StatusNotImplemented = 501"

definition int_hostOnly :: "string \<Rightarrow> string" where
  "int_hostOnly host = to_lower (case split_host_port host of Some (h, _) \<Rightarrow> h | None \<Rightarrow> host)"

definition clientIP :: "string \<Rightarrow> ip_addr option" where
  "clientIP remote =
     (case split_host_port remote of
        None \<Rightarrow> None
      | Some (host, _) \<Rightarrow> map_option Unmap (ParseAddr host))"

definition int_writeError :: "Integration \<Rightarrow> Route \<Rightarrow> int \<Rightarrow> string \<Rightarrow> int_outcome" where
  "int_writeError ig rt status msg =
     (let (ct, body) = in_RenderError ig rt status msg in
      Answer status [(''Content-Type'', ct), (''Content-Length'', nat_str (length body))] body)"

definition notFound :: "IntServer \<Rightarrow> int_outcome" where
  "notFound sv = Answer StatusNotFound [(''Content-Type'', text_type)]
     (''intproxy: nothing is served on this host; this proxy answers for '' @ join (sv_names sv) '', '' @ [CHR 0x0A])"

definition deny :: "Integration \<Rightarrow> Route \<Rightarrow> token_error \<Rightarrow> int_outcome" where
  "deny ig rt e =
     (case e of
        OtherError _ \<Rightarrow> int_writeError ig rt StatusBadGateway ''intproxy: could not obtain a credential for this request''
      | Denial status msg \<Rightarrow> int_writeError ig rt status msg)"

text \<open>\<open>relay\<close>: the client of the broker, \<^term>\<open>None\<close> in local mode.\<close>

definition relayed :: "http_client \<Rightarrow> IntServer \<Rightarrow> Integration \<Rightarrow> Route \<Rightarrow> ip_addr \<Rightarrow> int_outcome" where
  "relayed hc sv ig rt ip =
     (case sv_source sv of
        FromStatic _ \<Rightarrow> int_writeError ig rt StatusNotImplemented ''intproxy: this endpoint needs credential.mode: broker''
      | FromBroker _ \<Rightarrow>
          (case Broker_Relay hc (rt_Relay rt) (Addr_String ip) of
             None \<Rightarrow> int_writeError ig rt StatusBadGateway
               ''intproxy: could not reach the control server, so this request can be retried''
           | Some (status, body) \<Rightarrow>
               if status \<noteq> 200 then
                 (let msg = brokerError body in
                  int_writeError ig rt status (''intproxy: '' @
                    (if msg = [] then ''the control server could not answer this request'' else msg)))
               else Answer 200 [(''Content-Type'', ''application/json''), (''Content-Length'', nat_str (length body))] body))"

definition request_scope :: "Integration \<Rightarrow> Route \<Rightarrow> ip_addr \<Rightarrow> string \<Rightarrow> Scope" where
  "request_scope ig rt ip cred = \<lparr>sc_Integration = in_Name ig, sc_ClientIP = Addr_String ip, sc_Credential = cred,
     sc_Resource = rt_Resource rt, sc_Write = rt_Write rt\<rparr>"

definition choose_credential :: "IntServer \<Rightarrow> Integration \<Rightarrow> Route \<Rightarrow> ip_addr \<Rightarrow> token_error + string" where
  "choose_credential sv ig rt ip =
     (case sv_policy sv of
        None \<Rightarrow> Inr []
      | Some p \<Rightarrow> (case Allow p ip (in_Name ig) (rt_Resource rt) (rt_Write rt) of
          Inl e \<Rightarrow> Inl e | Inr d \<Rightarrow> Inr (de_Credential d)))"

definition ServeHTTP :: "http_client \<Rightarrow> (Scope \<Rightarrow> answer) \<Rightarrow> IntServer \<Rightarrow> http_request \<Rightarrow> int_outcome" where
  "ServeHTTP hc ask sv r =
     (case map_of (sv_hosts sv) (int_hostOnly (hr_Host r)) of
        None \<Rightarrow> notFound sv
      | Some ig \<Rightarrow>
          (case in_Classify ig r of
             (None, _) \<Rightarrow> int_writeError ig zeroRoute StatusNotFound (in_Describe ig)
           | (Some rt, r') \<Rightarrow>
               (case clientIP (hr_RemoteAddr r') of
                  None \<Rightarrow> int_writeError ig rt StatusForbidden ''intproxy: could not determine the calling client''
                | Some ip \<Rightarrow>
                    if rt_Relay rt \<noteq> [] then relayed hc sv ig rt ip
                    else case choose_credential sv ig rt ip of
                      Inl e \<Rightarrow> deny ig rt e
                    | Inr cred \<Rightarrow>
                        (case ask (request_scope ig rt ip cred) of
                           Inl e \<Rightarrow> deny ig rt e
                         | Inr tok \<Rightarrow> Forward ig rt tok r'))))"

section \<open>The outbound request\<close>

text \<open>A URL as \<open>url.Parse\<close> gives it.\<close>

record base_url =
  bu_Scheme :: string
  bu_Host :: string
  bu_User :: bool
  bu_Path :: string
  bu_RawQuery :: string
  bu_Fragment :: string

definition upstreamBase :: "(string \<Rightarrow> base_url option) \<Rightarrow> string \<Rightarrow> base_url option" where
  "upstreamBase parse raw =
     (if raw = [] then None
      else case parse raw of
        None \<Rightarrow> None
      | Some u \<Rightarrow>
          if bu_Scheme u \<noteq> ''https'' \<or> bu_Host u = [] \<or> bu_User u \<or> bu_RawQuery u \<noteq> [] \<or> bu_Fragment u \<noteq> [] then None
          else Some u)"

definition strip_headers :: "header \<Rightarrow> header" where
  "strip_headers h = fold header_del stripped h"

text \<open>
  \<open>rewrite\<close>: \<open>out\<close> is the outbound request as \<open>ReverseProxy\<close> hands it over, a copy of the inbound one without
  its hop-by-hop headers. The result also has the scheme of the outbound URL.
\<close>

definition rewrite ::
  "(string \<Rightarrow> base_url option) \<Rightarrow> Integration \<Rightarrow> Route \<Rightarrow> Token \<Rightarrow> http_request \<Rightarrow> http_request \<Rightarrow> string \<times> http_request" where
  "rewrite parse ig rt tok inr out =
     (let (host, path) = (case upstreamBase parse (tk_Upstream tok) of
            None \<Rightarrow> (rt_UpstreamHost rt, rt_UpstreamPath rt)
          | Some base \<Rightarrow> (bu_Host base, trim_suffix (bu_Path base) ''/'' @ rt_UpstreamPath rt));
          q = parse_query (hr_RawQuery inr);
          query = (if q = [] then [] else Values_Encode q)
      in (''https'', in_Apply ig (out\<lparr>hr_Host := host, hr_Path := path, hr_RawQuery := query,
            hr_Header := strip_headers (hr_Header out)\<rparr>) rt tok))"

section \<open>The response\<close>

definition credential_rejected :: string where
  "credential_rejected = ''intproxy: this proxy'' @ [CHR 0x27] @ ''s own credential was rejected upstream, so it has expired or been revoked; nothing is wrong with your request''"

definition replaceWithError :: "Integration \<Rightarrow> Route \<Rightarrow> int \<Rightarrow> string \<Rightarrow> http_response" where
  "replaceWithError ig rt status msg =
     (let (ct, body) = in_RenderError ig rt status msg in
      \<lparr>hs_Status = status,
       hs_Header = header_set ''Content-Length'' (nat_str (length body)) (header_set ''Content-Type'' ct (\<lambda>_. [])),
       hs_Body = body\<rparr>)"

text \<open>The response the client gets, and the meter that watches its body.\<close>

definition modifyResponse :: "Integration \<Rightarrow> Route \<Rightarrow> Token \<Rightarrow> http_response \<Rightarrow> http_response \<times> meterBody option" where
  "modifyResponse ig rt tok rs =
     (if hs_Status rs = 401 then (replaceWithError ig rt StatusForbidden credential_rejected, None)
      else let rs' = in_ModifyResponse ig rs in
        (rs', if in_Metered ig \<and> tk_Meter tok \<noteq> [] then Some (Meter rs') else None))"

definition upstreamError :: "Integration option \<Rightarrow> Route \<Rightarrow> int_outcome" where
  "upstreamError igo rt =
     (case igo of
        None \<Rightarrow> Answer StatusBadGateway [(''Content-Type'', text_type)]
          (''intproxy: the upstream could not be reached'' @ [CHR 0x0A])
      | Some ig \<Rightarrow> int_writeError ig rt StatusBadGateway
          ''intproxy: the upstream could not be reached, so this request can be retried'')"

definition UsageMarker :: string where "UsageMarker = ''intproxyusage''"

definition usageLine :: "string \<Rightarrow> string \<Rightarrow> string \<Rightarrow> int \<Rightarrow> duration \<Rightarrow> Usage \<Rightarrow> json" where
  "usageLine ts ig meter status took u = JObj
     [(''ts'', JStr ts), (''meter'', JStr meter), (''integration'', JStr ig), (''status'', JNum (itoa status)),
      (''duration_ms'', JNum (itoa (took div 1000000))), (''model'', JStr (take 128 (us_Model u))),
      (''input_tokens'', JNum (itoa (us_Input u))), (''output_tokens'', JNum (itoa (us_Output u))),
      (''cache_read_tokens'', JNum (itoa (us_CacheRead u))), (''cache_write_tokens'', JNum (itoa (us_CacheWrite u)))]"

definition recordUsage :: "string \<Rightarrow> string \<Rightarrow> string \<Rightarrow> int \<Rightarrow> duration \<Rightarrow> Usage \<Rightarrow> string" where
  "recordUsage ts ig meter status took u =
     UsageMarker @ '' '' @ print_json (usageLine ts ig meter status took u) @ [CHR 0x0A]"

section \<open>Reloading and the certificate\<close>

text \<open>
  \<open>reload\<close> changes the server step by step: what a failure leaves is the state so far. \<open>loadcfg\<close> is
  \<open>LoadConfig\<close> of a path.
\<close>

definition reload ::
  "(string \<Rightarrow> string \<Rightarrow> string option) \<Rightarrow> (string \<Rightarrow> IntConfig option) \<Rightarrow> IntServer \<Rightarrow> server_error option \<times> IntServer" where
  "reload load loadcfg sv =
     (let cfg = sv_cfg sv in
      case (if tls_enabled (co_TLS cfg)
            then (case loadCertificate load cfg of Inl e \<Rightarrow> (Some e, sv) | Inr pair \<Rightarrow> (None, sv\<lparr>sv_cert := Some pair\<rparr>))
            else (None, sv)) of
        (Some e, sv) \<Rightarrow> (Some e, sv)
      | (None, sv) \<Rightarrow>
          if cc_Mode (co_Credential cfg) \<noteq> ModeLocal \<or> co_path cfg = [] then (None, sv)
          else case loadcfg (co_path cfg) of
            None \<Rightarrow> (Some ConfigFailed, sv)
          | Some fresh \<Rightarrow>
              if cc_Mode (co_Credential fresh) \<noteq> ModeLocal then (Some NeedsRestart, sv)
              else case start_policy fresh of
                Inl e \<Rightarrow> (Some e, sv)
              | Inr q \<Rightarrow> (None, sv\<lparr>sv_policy := q\<rparr>))"

definition getCertificate :: "IntServer \<Rightarrow> string \<Rightarrow> string option" where
  "getCertificate sv sni =
     (let name = to_lower sni in
      if name \<noteq> [] \<and> map_of (sv_hosts sv) name = None then None else sv_cert sv)"

section \<open>What a server serves\<close>

definition contracted :: "Integration \<Rightarrow> bool" where
  "contracted ig \<longleftrightarrow> (\<exists>auth. integration_contract ig auth)"

lemma New_integration_contracted: "New_integration kind opts = Inr ig \<Longrightarrow> contracted ig"
  using gh.integration_contract_axioms gl.integration_contract_axioms llm.integration_contract_axioms
  by (auto simp: New_integration_def contracted_def split: if_split_asm option.split_asm)

definition served_hosts :: "IntConfig \<Rightarrow> IntegrationConfig list \<Rightarrow> string set" where
  "served_hosts cfg ics = {hostname cfg (ic_Name ic) |ic. ic \<in> set ics \<and> ic_Enabled ic}"

lemma served_hosts_snoc:
  "served_hosts cfg (ics @ [ic]) = served_hosts cfg ics \<union> (if ic_Enabled ic then {hostname cfg (ic_Name ic)} else {})"
  by (auto simp: served_hosts_def)

definition serves :: "IntConfig \<Rightarrow> IntegrationConfig list \<Rightarrow> (string \<times> Integration) list \<times> string list \<Rightarrow> bool" where
  "serves cfg ics s \<longleftrightarrow> dom (map_of (fst s)) = served_hosts cfg ics \<and> set (snd s) = served_hosts cfg ics \<and>
     (\<forall>h ig. map_of (fst s) h = Some ig \<longrightarrow> contracted ig)"

lemma add_integration_serves:
  assumes "add_integration cfg version i ic s = Inr s'" and "serves cfg acc s"
  shows "serves cfg (acc @ [ic]) s'"
proof (cases "ic_Enabled ic")
  case True
  obtain hosts names where s: "s = (hosts, names)" by fastforce
  with assms(1) True obtain ig where ig: "contracted ig"
    "s' = (AList.update (hostname cfg (ic_Name ic)) ig hosts, names @ [hostname cfg (ic_Name ic)])"
    by (auto simp: add_integration_def Let_def dest: New_integration_contracted)
  with assms(2) s True show ?thesis
    unfolding serves_def served_hosts_snoc by (simp add: update_conv' del: dom_map_of_conv_image_fst)
next
  case False
  with assms have "s' = s" by (auto simp: add_integration_def split: prod.split_asm)
  with assms(2) False show ?thesis
    unfolding serves_def served_hosts_snoc by simp
qed

lemma integrations_served:
  assumes "for_each 0 (add_integration cfg version) ics ([], []) = Inr s"
  shows "serves cfg ics s"
proof (rule for_each_invariant [OF assms, of "serves cfg"])
  show "serves cfg [] ([], [])" by (simp add: serves_def served_hosts_def)
qed (rule add_integration_serves)

lemma NewIntServer_parts:
  assumes "NewIntServer env load cfg version = Inr sv"
  shows "sv_cfg sv = cfg" "credentialSource env cfg = Inr (sv_source sv)" "start_policy cfg = Inr (sv_policy sv)"
    "\<exists>names. for_each 0 (add_integration cfg version) (co_Integrations cfg) ([], []) = Inr (sv_hosts sv, names) \<and>
       sv_names sv = sort names"
    "tls_enabled (co_TLS cfg) \<longleftrightarrow> sv_cert sv \<noteq> None"
  using assms by (auto simp: NewIntServer_def loadCertificate_def split: if_split_asm option.split_asm)

lemma served_integration:
  assumes "NewIntServer env load cfg version = Inr sv" and "map_of (sv_hosts sv) h = Some ig"
  shows "contracted ig" "h \<in> served_hosts cfg (co_Integrations cfg)"
proof -
  obtain names where "for_each 0 (add_integration cfg version) (co_Integrations cfg) ([], []) = Inr (sv_hosts sv, names)"
    using NewIntServer_parts(4) [OF assms(1)] by blast
  from integrations_served [OF this] have "serves cfg (co_Integrations cfg) (sv_hosts sv, names)" .
  with assms(2) show "contracted ig" "h \<in> served_hosts cfg (co_Integrations cfg)"
    by (auto simp: serves_def dom_def)
qed

text \<open>
  Further result. The proxy answers, and shows its certificate, for exactly the names of its enabled integrations;
  any other name is refused in the handshake and on a request.
\<close>

theorem served_names:
  assumes "NewIntServer env load cfg version = Inr sv"
  shows "(ServeHTTP hc ask sv r = notFound sv \<or> int_hostOnly (hr_Host r) \<in> served_hosts cfg (co_Integrations cfg)) \<and>
    set (sv_names sv) = served_hosts cfg (co_Integrations cfg) \<and>
    (getCertificate sv sni \<noteq> None \<longleftrightarrow> tls_enabled (co_TLS cfg) \<and>
       (sni = [] \<or> to_lower sni \<in> served_hosts cfg (co_Integrations cfg)))"
proof -
  obtain names where "for_each 0 (add_integration cfg version) (co_Integrations cfg) ([], []) = Inr (sv_hosts sv, names)"
    and names: "sv_names sv = sort names"
    using NewIntServer_parts(4) [OF assms] by blast
  from integrations_served [OF this(1)] have hosts: "dom (map_of (sv_hosts sv)) = served_hosts cfg (co_Integrations cfg)"
    "set names = served_hosts cfg (co_Integrations cfg)" by (simp_all add: serves_def)
  have "to_lower sni = [] \<longleftrightarrow> sni = []" by (simp add: to_lower_def)
  with hosts names NewIntServer_parts(5) [OF assms] show ?thesis
    by (auto simp: ServeHTTP_def getCertificate_def Let_def split: option.split)
qed

text \<open>The server of the example configuration.\<close>

definition example_int_server :: IntServer where
  "example_int_server = projr (NewIntServer example_os (\<lambda>_ _. Some ''pair'') example_int_config ''1'')"

lemma example_int_server_new: "NewIntServer example_os (\<lambda>_ _. Some ''pair'') example_int_config ''1'' = Inr example_int_server"
proof -
  have "\<not> isl (NewIntServer example_os (\<lambda>_ _. Some ''pair'') example_int_config ''1'')" by code_simp
  then show ?thesis by (simp add: example_int_server_def)
qed

lemma example_int_server_source: "sv_source example_int_server = FromStatic [(''github'', example_st)]"
  by code_simp

lemma example_int_server_host: "\<exists>ig. map_of (sv_hosts example_int_server) ''github.int.example.com'' = Some ig"
proof -
  have "\<not> Option.is_none (map_of (sv_hosts example_int_server) ''github.int.example.com'')" by code_simp
  then show ?thesis by (auto simp: Option.is_none_def)
qed

theorem served_names_witness: "getCertificate example_int_server [] \<noteq> None"
  using served_names [OF example_int_server_new, of undefined undefined undefined "[]"]
  by (simp add: example_int_config_def tls_enabled_def)

section \<open>No credential without a grant\<close>

definition from_cache :: "IntServer \<Rightarrow> (Scope \<Rightarrow> answer) \<Rightarrow> bool" where
  "from_cache sv ask \<longleftrightarrow> (\<forall>s tok. ask s = Inr tok \<longrightarrow> (\<exists>skew maxAge f k start at.
     cache_reachable (source_answers (sv_source sv)) skew maxAge f \<and> fl_calls f k = Some (Returned s start at (Inr tok))))"

text \<open>
  Property C12. A request is forwarded only where its host belongs to an integration that serves it, its
  connection has an address, the policy, if the proxy has one, grants that address the route's resource, and the
  token is one the source granted for exactly that client, integration, resource and access, with the credential
  the policy chose.
\<close>

theorem forwarded_with_grant:
  assumes "IntConfig_Validate cfg = Inr ()" and "NewIntServer env load cfg version = Inr sv" and "from_cache sv ask"
    and "ServeHTTP hc ask sv r = Forward ig rt tok r'"
  shows "map_of (sv_hosts sv) (int_hostOnly (hr_Host r)) = Some ig \<and> in_Classify ig r = (Some rt, r') \<and> rt_Relay rt = [] \<and>
    (\<exists>ip cred. clientIP (hr_RemoteAddr r') = Some ip \<and>
       source_grants (sv_source sv) (request_scope ig rt ip cred) tok \<and>
       (case sv_policy sv of
          None \<Rightarrow> cc_Mode (co_Credential cfg) = ModeBroker \<and> cred = []
        | Some p \<Rightarrow> \<exists>d. grants p ip (in_Name ig) (rt_Resource rt) (rt_Write rt) = Some d \<and> cred = de_Credential d))"
proof -
  from assms(4) obtain ip cred where host: "map_of (sv_hosts sv) (int_hostOnly (hr_Host r)) = Some ig"
    and route: "in_Classify ig r = (Some rt, r')" "rt_Relay rt = []"
    and ip: "clientIP (hr_RemoteAddr r') = Some ip" "choose_credential sv ig rt ip = Inr cred"
    and tok: "ask (request_scope ig rt ip cred) = Inr tok"
    by (auto simp: ServeHTTP_def notFound_def int_writeError_def relayed_def deny_def Let_def
        split: option.split_asm prod.split_asm if_split_asm sum.split_asm source.split_asm token_error.split_asm)
  from assms(3) tok have "source_grants (sv_source sv) (request_scope ig rt ip cred) tok"
    unfolding from_cache_def using server_source.returned_granted by blast
  moreover have "cc_Mode (co_Credential cfg) \<in> {ModeBroker, ModeLocal}" "cc_Mode (co_Credential cfg) = ModeLocal \<Longrightarrow> co_Policy cfg \<noteq> None"
    using assms(1) validateCredential_mode validateCredential_local
    by (auto simp: IntConfig_Validate_def split: if_split_asm)
  then have "case sv_policy sv of
          None \<Rightarrow> cc_Mode (co_Credential cfg) = ModeBroker \<and> cred = []
        | Some p \<Rightarrow> \<exists>d. grants p ip (in_Name ig) (rt_Resource rt) (rt_Write rt) = Some d \<and> cred = de_Credential d"
    using ip(2) NewIntServer_parts(3) [OF assms(2)]
    by (auto simp: choose_credential_def Allow_grants start_policy_def split: option.split_asm sum.split_asm if_split_asm)
  ultimately show ?thesis
    using host route ip by blast
qed

definition example_ask :: "Scope \<Rightarrow> answer" where
  "example_ask = multiSource_Token [(''github'', example_st)]"

lemma example_from_cache: "from_cache example_int_server example_ask"
  unfolding from_cache_def example_int_server_source
proof (intro allI impI)
  fix s tok
  assume "example_ask s = Inr tok"
  then have "source_answers (FromStatic [(''github'', example_st)]) s (Inr tok)"
    by (simp add: source_answers_def example_ask_def)
  from cache_can_answer [of "source_answers (FromStatic [(''github'', example_st)])", OF this]
  show "\<exists>skew maxAge f k start at. cache_reachable (source_answers (FromStatic [(''github'', example_st)])) skew maxAge f \<and>
      fl_calls f k = Some (Returned s start at (Inr tok))" by blast
qed

definition is_forward :: "int_outcome \<Rightarrow> bool" where
  "is_forward x = (case x of Forward _ _ _ _ \<Rightarrow> True | Answer _ _ _ \<Rightarrow> False)"

lemma is_forwardD: "is_forward x \<Longrightarrow> \<exists>ig rt tok r. x = Forward ig rt tok r"
  by (cases x) (simp_all add: is_forward_def)

theorem forwarded_with_grant_witness:
  "\<exists>(ig :: Integration) (rt :: Route) r'. in_Classify ig (example_int_request ''GET'' ''/api/v3/repos/acme/app'' []) = (Some rt, r')"
proof -
  have "is_forward (ServeHTTP (\<lambda>_ _ _. None) example_ask example_int_server (example_int_request ''GET'' ''/api/v3/repos/acme/app'' []))"
    by code_simp
  then obtain ig rt tok r' where f:
    "ServeHTTP (\<lambda>_ _ _. None) example_ask example_int_server (example_int_request ''GET'' ''/api/v3/repos/acme/app'' [])
       = Forward ig rt tok r'"
    using is_forwardD by blast
  have "IntConfig_Validate example_int_config = Inr ()" by code_simp
  from forwarded_with_grant [OF this example_int_server_new example_from_cache f]
  have "in_Classify ig (example_int_request ''GET'' ''/api/v3/repos/acme/app'' []) = (Some rt, r')" by (elim conjE)
  then show ?thesis by blast
qed

section \<open>What goes out and what comes back\<close>

lemma strip_headers_apply: "strip_headers h k = (if k \<in> set stripped then [] else h k)"
proof -
  have "fold header_del ks h k = (if k \<in> set ks then [] else h k)" for ks
    by (induction ks arbitrary: h) auto
  then show ?thesis by (simp add: strip_headers_def)
qed



text \<open>
  Further result. A response never reaches the client as a 401, whatever the upstream says of the proxy's own
  credential, and never sets a cookie; a 401 becomes a 403 of the proxy's own, with nothing of the upstream's
  headers, so no prompt for credentials either. Every other status is the upstream's.
\<close>

theorem response_never_unauthorized:
  assumes "NewIntServer env load cfg version = Inr sv" and "map_of (sv_hosts sv) h = Some ig"
    and "modifyResponse ig rt tok rs = (rs', meter)"
  shows "hs_Status rs' \<noteq> 401 \<and> hs_Header rs' ''Set-Cookie'' = [] \<and>
    (hs_Status rs \<noteq> 401 \<longrightarrow> hs_Status rs' = hs_Status rs) \<and>
    (hs_Status rs = 401 \<longrightarrow> hs_Status rs' = 403 \<and> hs_Header rs' ''Www-Authenticate'' = [] \<and> meter = None \<and>
       hs_Body rs' = snd (in_RenderError ig rt 403 credential_rejected))"
proof -
  obtain auth where contract: "integration_contract ig auth"
    using served_integration(1) [OF assms(1,2)] by (auto simp: contracted_def)
  note integration_contract.modify_cookie [OF contract] integration_contract.modify_status [OF contract]
  with assms(3) show ?thesis
    by (auto simp: modifyResponse_def replaceWithError_def StatusForbidden_def Let_def split: prod.split_asm if_split_asm)
qed

theorem response_never_unauthorized_witness:
  "\<exists>ig. hs_Status (fst (modifyResponse ig zeroRoute zeroToken \<lparr>hs_Status = 401, hs_Header = (\<lambda>_. []), hs_Body = []\<rparr>)) = 403"
proof -
  let ?rs = "\<lparr>hs_Status = 401, hs_Header = (\<lambda>_. []), hs_Body = []\<rparr>"
  obtain ig where ig: "map_of (sv_hosts example_int_server) ''github.int.example.com'' = Some ig"
    using example_int_server_host by blast
  from response_never_unauthorized [OF example_int_server_new ig prod.collapse [symmetric], of zeroRoute zeroToken ?rs]
  show ?thesis by auto
qed

section \<open>Reloading\<close>

text \<open>
  Further result. A reload that fails leaves the policy as it was, and one that succeeds in local mode installs the
  compiled policy of a configuration that is still in local mode. What is served and how tokens are
  obtained never changes.
\<close>

theorem reload_policy:
  assumes "reload load loadcfg sv = (e, sv')"
  shows "sv_hosts sv' = sv_hosts sv \<and> sv_source sv' = sv_source sv \<and> sv_cfg sv' = sv_cfg sv \<and>
    (e \<noteq> None \<longrightarrow> sv_policy sv' = sv_policy sv) \<and>
    (sv_policy sv' \<noteq> sv_policy sv \<longrightarrow> (\<exists>fresh. loadcfg (co_path (sv_cfg sv)) = Some fresh \<and>
       cc_Mode (co_Credential (sv_cfg sv)) = ModeLocal \<and> cc_Mode (co_Credential fresh) = ModeLocal \<and>
       start_policy fresh = Inr (sv_policy sv')))"
  using assms
  by (auto simp: reload_def Let_def split: if_split_asm option.split_asm sum.split_asm prod.split_asm)

theorem reload_policy_witness: "sv_policy (snd (reload (\<lambda>_ _. None) (\<lambda>_. None) example_int_server)) = sv_policy example_int_server"
  using reload_policy [of "\<lambda>_ _. None" "\<lambda>_. None" example_int_server] by (metis prod.collapse option.distinct(1))

text \<open>
  A failed reload is logged as leaving the running configuration unchanged; the certificate may have changed.
\<close>

lemma failed_reload_changes_certificate:
  assumes "tls_enabled (co_TLS (sv_cfg sv))" and "load (tl_Cert (co_TLS (sv_cfg sv))) (tl_Key (co_TLS (sv_cfg sv))) = Some pair"
    and "cc_Mode (co_Credential (sv_cfg sv)) = ModeLocal" and "co_path (sv_cfg sv) \<noteq> []" and "loadcfg (co_path (sv_cfg sv)) = None"
  shows "reload load loadcfg sv = (Some ConfigFailed, sv\<lparr>sv_cert := Some pair\<rparr>)"
  using assms by (simp add: reload_def loadCertificate_def Let_def)

text \<open>
  A github integration calls itself github whatever the configuration names it, so under another name its
  configured credential is never found.
\<close>

lemma renamed_github_refused:
  assumes "for_each 0 (static_source env) ics [] = Inr m" and "\<forall>ic\<in>set ics. ic_Name ic \<noteq> ''github''"
  shows "\<exists>msg. multiSource_Token m (request_scope (github g) rt ip cred) = Inl (Denial StatusForbidden msg)"
proof -
  have "map_of m ''github'' = None"
    by (rule for_each_invariant [OF assms(1), of "\<lambda>acc m. map_of m ''github'' = None"])
      (use assms(2) in \<open>auto simp: static_source_def update_conv split: if_split_asm sum.split_asm\<close>)
  then show ?thesis by (simp add: multiSource_Token_def request_scope_def github_def)
qed

end
