(* ===== verification/Go_Ip.thy ===== *)
theory Go_Ip
  imports Go_Netip
begin

unbundle bit_operations_syntax

text \<open>
  Addresses as package \<open>net\<close> has them: an \<open>IP\<close> is a byte slice of four or sixteen bytes, and an IPv4 address
  inside sixteen bytes is the same address. The nil slice is the empty list.
\<close>

definition v4_in_v6 :: bytes where
  "v4_in_v6 = replicate 10 0 @ [0xFF, 0xFF]"

definition As16 :: "ip_addr \<Rightarrow> bytes" where
  "As16 a = (case a of V4 w \<Rightarrow> v4_in_v6 @ be_bytes 4 (uint w) | V6 w _ \<Rightarrow> be_bytes 16 (uint w))"

definition ParseIP :: "string \<Rightarrow> bytes" where
  "ParseIP s = (case ParseAddr s of
       None \<Rightarrow> []
     | Some a \<Rightarrow> if has_zone a then [] else As16 a)"

definition To4 :: "bytes \<Rightarrow> bytes" where
  "To4 ip =
     (if length ip = 4 then ip
      else if length ip = 16 \<and> take 12 ip = v4_in_v6 then drop 12 ip
      else [])"

definition ip_word :: "bytes \<Rightarrow> 32 word" where
  "ip_word b = word_of_int (be_val b)"

definition IP_String :: "bytes \<Rightarrow> string" where
  "IP_String ip =
     (if ip = [] then ''<nil>''
      else if length ip \<noteq> 4 \<and> length ip \<noteq> 16 then CHR ''?'' # hex_encode ip
      else if To4 ip \<noteq> [] then v4_string (ip_word (To4 ip))
      else v6_string (word_of_int (be_val ip)))"

definition IP_Equal :: "bytes \<Rightarrow> bytes \<Rightarrow> bool" where
  "IP_Equal a b =
     (if length a = length b then a = b
      else if length a = 4 \<and> length b = 16 then take 12 b = v4_in_v6 \<and> a = drop 12 b
      else if length a = 16 \<and> length b = 4 then take 12 a = v4_in_v6 \<and> b = drop 12 a
      else False)"

section \<open>Networks\<close>

record IPNet =
  net_IP :: bytes
  net_Mask :: bytes

text \<open>\<open>CIDRMask(n, bits)\<close>: \<open>n\<close> ones and then zeros.\<close>

fun cidr_bytes :: "nat \<Rightarrow> nat \<Rightarrow> bytes" where
  "cidr_bytes 0 n = []"
| "cidr_bytes (Suc k) n =
     (if n \<ge> 8 then 0xFF # cidr_bytes k (n - 8)
      else NOT (drop_bit n (0xFF :: byte)) # cidr_bytes k 0)"

definition and_bytes :: "bytes \<Rightarrow> bytes \<Rightarrow> bytes" where
  "and_bytes a b = map2 (AND) a b"

definition IP_Mask :: "bytes \<Rightarrow> bytes \<Rightarrow> bytes" where
  "IP_Mask ip m =
     (let m = (if length m = 16 \<and> length ip = 4 \<and> take 12 m = replicate 12 0xFF then drop 12 m else m);
          ip = (if length m = 4 \<and> length ip = 16 \<and> take 12 ip = v4_in_v6 then drop 12 ip else ip)
      in if length ip \<noteq> length m then [] else and_bytes ip m)"

text \<open>A run of digits, as \<open>dtoi\<close> reads it: the length may have leading zeros.\<close>

definition parse_bits :: "string \<Rightarrow> nat option" where
  "parse_bits s =
     (if s = [] \<or> \<not> list_all is_digit s \<or> digits_val s \<ge> 0xFFFFFF then None else Some (nat (digits_val s)))"

definition ParseCIDR :: "string \<Rightarrow> (bytes \<times> IPNet) option" where
  "ParseCIDR s =
     (case index_char (CHR ''/'') s of
        None \<Rightarrow> None
      | Some i \<Rightarrow>
          (case (ParseAddr (take i s), parse_bits (drop (i + 1) s)) of
             (Some a, Some n) \<Rightarrow>
               if has_zone a \<or> n > BitLen a then None
               else let m = cidr_bytes (BitLen a div 8) n in
                 Some (As16 a, \<lparr>net_IP = IP_Mask (As16 a) m, net_Mask = m\<rparr>)
           | _ \<Rightarrow> None))"

definition IPNet_Contains :: "IPNet \<Rightarrow> bytes \<Rightarrow> bool" where
  "IPNet_Contains n ip =
     (let x = (if To4 ip \<noteq> [] then To4 ip else ip);
          nn = (if To4 (net_IP n) \<noteq> [] then To4 (net_IP n) else net_IP n);
          m = (if length (net_Mask n) = 16 \<and> length nn = 4 then drop 12 (net_Mask n) else net_Mask n)
      in if length nn \<noteq> 4 \<and> length nn \<noteq> 16 \<or> length m \<noteq> length nn \<or> length x \<noteq> length nn then False
         else and_bytes nn m = and_bytes x m)"

text \<open>\<open>Mask.Size\<close>: the number of ones and of all bits of a mask that is a prefix.\<close>

definition leading_ones :: "bytes \<Rightarrow> nat" where
  "leading_ones m = length (takeWhile (\<lambda>b. b) (concat (map (\<lambda>b. map (bit b) [7, 6, 5, 4, 3, 2, 1, 0]) m)))"

definition Mask_Size :: "bytes \<Rightarrow> nat \<times> nat" where
  "Mask_Size m =
     (let n = leading_ones m in
      if m = cidr_bytes (length m) n then (n, 8 * length m) else (0, 0))"

section \<open>An IPv4 address as a word\<close>

definition v4_bytes :: "32 word \<Rightarrow> bytes" where
  "v4_bytes w = be_bytes 4 (uint w)"

lemma length_v4_bytes [simp]: "length (v4_bytes w) = 4"
  by (simp add: v4_bytes_def)

lemma length_v4_in_v6 [simp]: "length v4_in_v6 = 12"
  by (simp add: v4_in_v6_def)

lemma ip_word_v4_bytes [simp]: "ip_word (v4_bytes w) = w"
  using uint_lt2p [of w] by (simp add: ip_word_def v4_bytes_def)

lemma v4_bytes_inject [simp]: "v4_bytes v = v4_bytes w \<longleftrightarrow> v = w"
  by (metis ip_word_v4_bytes)

lemma v4_bytes_ip_word: "length b = 4 \<Longrightarrow> v4_bytes (ip_word b) = b"
proof -
  assume len: "length b = 4"
  then have "uint (ip_word b) = be_val b"
    using be_val_less [of b] by (simp add: ip_word_def uint_word_of_int)
  then show ?thesis using len by (simp add: v4_bytes_def)
qed

lemma v4_bytes_nonempty [simp]: "v4_bytes w \<noteq> []"
  by (metis length_v4_bytes list.size(3) zero_neq_numeral)

lemma Nil_v4_bytes [simp]: "[] \<noteq> v4_bytes w"
  by (metis v4_bytes_nonempty)

lemma To4_v4 [simp]: "To4 (v4_bytes w) = v4_bytes w" "To4 (v4_in_v6 @ v4_bytes w) = v4_bytes w"
  by (simp_all add: To4_def)

lemma To4_Nil [simp]: "To4 [] = []"
  by (simp add: To4_def)

lemma To4_length: "To4 ip \<noteq> [] \<Longrightarrow> length (To4 ip) = 4"
  by (auto simp: To4_def split: if_splits)

lemma To4_word: "To4 ip \<noteq> [] \<Longrightarrow> \<exists>w. To4 ip = v4_bytes w"
  using To4_length v4_bytes_ip_word by metis

lemma ParseIP_v4 [simp]: "ParseIP (v4_string w) = v4_in_v6 @ v4_bytes w"
  by (simp add: ParseIP_def ParseAddr_v4 has_zone_def As16_def v4_bytes_def)

lemma IP_String_v4 [simp]:
  "IP_String (v4_bytes w) = v4_string w" "IP_String (v4_in_v6 @ v4_bytes w) = v4_string w"
  by (simp_all add: IP_String_def)

lemma v4_string_inject [simp]: "v4_string v = v4_string w \<longleftrightarrow> v = w"
proof
  assume "v4_string v = v4_string w"
  then have "Some (V4 v) = Some (V4 w)"
    by (simp only: ParseAddr_v4 [symmetric])
  then show "v = w" by simp
qed simp

lemma IP_Equal_refl [simp]: "IP_Equal a a"
  by (simp add: IP_Equal_def)

lemma To4_append: "To4 ip \<noteq> [] \<Longrightarrow> ip = To4 ip \<or> ip = v4_in_v6 @ To4 ip"
  by (simp add: To4_def split: if_split_asm) (metis append_take_drop_id)

end
