(* ===== verification/Dcl_Net.thy ===== *)
theory Dcl_Net
  imports Go_Ip
begin

text \<open>
  The addresses of a host's virtual machines (\<open>cmd/dclient\<close>: \<open>net.go\<close>, \<open>vmstore.go\<close>, and the network part of
  \<open>vm.go\<close> and \<open>create.go\<close>). The records on disk are a list in the order of their creation time, as
  \<open>listVMs\<close> gives it.
\<close>

section \<open>Records\<close>

record vmNet =
  vn_Tap :: string
  vn_IP :: string
  vn_Gateway :: string
  vn_DNS :: string
  vn_MAC :: string
  vn_Egress :: "string list"
  vn_RateMbit :: int
  vn_BurstKbit :: int

datatype bootMode = bootDirect | bootDisk

record vm =
  vm_ID :: string
  vm_Name :: string
  vm_Boot :: bootMode
  vm_CPUs :: int
  vm_MemoryMiB :: int
  vm_Kernel :: string
  vm_Initrd :: string
  vm_Append :: string
  vm_Backing :: string
  vm_Firmware :: string
  vm_GuestInit :: bool
  vm_Net :: "vmNet option"
  vm_Disk :: string
  vm_Cgroup :: string
  vm_DiskBytes :: int
  vm_UID :: int

record netConfig =
  nc_Pool :: string
  nc_Gateway :: string
  nc_Uplink :: string
  nc_DNS :: string
  nc_Suricata :: bool
  nc_Queues :: "16 word"
  nc_NoDockerCompat :: bool

definition resolver :: "netConfig \<Rightarrow> string" where
  "resolver c = (if nc_Suricata c then nc_Gateway c else nc_DNS c)"

text \<open>What the operations of a host can answer with; \<open>Panic\<close> is an index out of range.\<close>

datatype dclient_error =
    InvalidPool | GatewayOutsidePool | NoFreeAddress | NotIPv4 | OutsidePool | IsGateway | IsIntproxy
  | HeldBy string | Panic | Failed string | ENOENT | NotAddress string | InvalidGateway | InvalidAddress string
  | BadBoot | BadCPUs | BadMemory | UnknownUnit | NotASize | KernelRequired | OneRootfs | DiskNotForDirect
  | DiskRequired | DirectOnly | UseDisk | ShrinkDisk | NoSuchVM | ManyVMs nat | NoFreeUID | NotRoot | NoNetwork
  | Running

definition intproxyAddr :: string where
  "intproxyAddr = ''10.64.255.254''"

section \<open>Allocation\<close>

definition ipToU32 :: "bytes \<Rightarrow> dclient_error + 32 word" where
  "ipToU32 ip = (if To4 ip = [] then Inl Panic else Inr (ip_word (To4 ip)))"

definition u32ToIP :: "32 word \<Rightarrow> bytes" where
  "u32ToIP n = v4_bytes n"

definition macForIP :: "string \<Rightarrow> dclient_error + string" where
  "macForIP ip =
     (let b = To4 (ParseIP ip) in
      if b = [] then Inl Panic
      else Inr (''52:54:00:'' @ join (map (\<lambda>x. hex_encode [x]) (drop 1 b)) '':''))"

definition tapName :: "string \<Rightarrow> string" where
  "tapName vid = ''dvm-'' @ vid"

text \<open>The addresses that are not free, as the loop over the records collects them.\<close>

definition taken_step :: "nat \<Rightarrow> vm \<Rightarrow> 32 word list \<Rightarrow> dclient_error + 32 word list" where
  "taken_step i v taken =
     (case vm_Net v of
        None \<Rightarrow> Inr taken
      | Some n \<Rightarrow>
          if ParseIP (vn_IP n) = [] then Inr taken
          else rbind (ipToU32 (ParseIP (vn_IP n))) (\<lambda>w. Inr (w # taken)))"

definition taken_base :: "IPNet \<Rightarrow> bytes \<Rightarrow> dclient_error + 32 word list" where
  "taken_base ipnet gw =
     rbind (ipToU32 gw) (\<lambda>g.
       let ip = ParseIP intproxyAddr in
       if ip \<noteq> [] \<and> IPNet_Contains ipnet ip then rbind (ipToU32 ip) (\<lambda>w. Inr [w, g]) else Inr [g])"

text \<open>
  The loop \<open>for n := first; n <= last; n++\<close> over unsigned words. One round more than there are taken addresses
  is enough: \<open>Some None\<close> is the end of the loop, and \<open>None\<close>, no rounds left, does not happen.
\<close>

fun alloc_loop :: "nat \<Rightarrow> 32 word \<Rightarrow> 32 word \<Rightarrow> 32 word list \<Rightarrow> 32 word option option" where
  "alloc_loop 0 n stop taken = None"
| "alloc_loop (Suc k) n stop taken =
     (if n > stop then Some None
      else if n \<notin> set taken then Some (Some n)
      else alloc_loop k (n + 1) stop taken)"

definition pool_bounds :: "IPNet \<Rightarrow> dclient_error + (32 word \<times> 32 word)" where
  "pool_bounds ipnet =
     rbind (ipToU32 (net_IP ipnet)) (\<lambda>base.
       let (ones, bits) = Mask_Size (net_Mask ipnet) in
       Inr (base + 1, base + push_bit (bits - ones) 1 - 2))"

definition allocateIP :: "dclient_error + vm list \<Rightarrow> string \<Rightarrow> string \<Rightarrow> dclient_error + string" where
  "allocateIP listed pool gateway =
     (case ParseCIDR pool of
        None \<Rightarrow> Inl InvalidPool
      | Some (_, ipnet) \<Rightarrow>
          let gw = ParseIP gateway in
          if gw = [] \<or> \<not> IPNet_Contains ipnet gw then Inl GatewayOutsidePool
          else rbind (taken_base ipnet gw) (\<lambda>base.
            rbind listed (\<lambda>vms.
            rbind (for_each 0 taken_step vms base) (\<lambda>taken.
            rbind (pool_bounds ipnet) (\<lambda>(first, stop).
              case alloc_loop (length taken + 1) first stop taken of
                Some (Some n) \<Rightarrow> Inr (IP_String (u32ToIP n))
              | _ \<Rightarrow> Inl NoFreeAddress)))))"

definition reserve_check :: "string \<Rightarrow> nat \<Rightarrow> vm \<Rightarrow> unit \<Rightarrow> dclient_error + unit" where
  "reserve_check s i v u =
     (case vm_Net v of
        None \<Rightarrow> Inr ()
      | Some n \<Rightarrow> if vn_IP n = s then Inl (HeldBy (vm_ID v)) else Inr ())"

definition reserveIP :: "dclient_error + vm list \<Rightarrow> string \<Rightarrow> string \<Rightarrow> string \<Rightarrow> dclient_error + string" where
  "reserveIP listed pool gateway want =
     (let ip = ParseIP want in
      if ip = [] \<or> To4 ip = [] then Inl NotIPv4
      else case ParseCIDR pool of
        None \<Rightarrow> Inl InvalidPool
      | Some (_, ipnet) \<Rightarrow>
          if \<not> IPNet_Contains ipnet ip then Inl OutsidePool
          else if IP_Equal ip (ParseIP gateway) then Inl IsGateway
          else if IP_Equal ip (ParseIP intproxyAddr) then Inl IsIntproxy
          else rbind listed (\<lambda>vms.
            rbind (for_each 0 (reserve_check (IP_String ip)) vms ()) (\<lambda>_. Inr (IP_String ip))))"

record netOptions =
  no_IP :: string
  no_Egress :: "string list"
  no_EgressAny :: bool
  no_RateMbit :: int
  no_BurstKbit :: int

text \<open>The part of \<open>setupVMNetwork\<close> before the devices: the address and the record of the machine's network.\<close>

definition choose_net ::
  "bool \<Rightarrow> dclient_error + netConfig \<Rightarrow> dclient_error + vm list \<Rightarrow> string \<Rightarrow> netOptions \<Rightarrow> dclient_error + vmNet" where
  "choose_net root loaded listed vid opts =
     (if \<not> root then Inl NotRoot
      else rbind loaded (\<lambda>cfg.
        rbind (if no_IP opts \<noteq> [] then reserveIP listed (nc_Pool cfg) (nc_Gateway cfg) (no_IP opts)
               else allocateIP listed (nc_Pool cfg) (nc_Gateway cfg)) (\<lambda>ip.
        rbind (macForIP ip) (\<lambda>mac.
          Inr \<lparr>vn_Tap = tapName vid, vn_IP = ip, vn_Gateway = nc_Gateway cfg, vn_DNS = resolver cfg,
               vn_MAC = mac,
               vn_Egress = no_Egress opts @ (if no_EgressAny opts then [''0.0.0.0/0''] else []),
               vn_RateMbit = no_RateMbit opts, vn_BurstKbit = no_BurstKbit opts\<rparr>))))"

end
