(* ===== verification/Dcl_Nft.thy ===== *)
theory Dcl_Nft
  imports Dcl_Net
begin

unbundle bit_operations_syntax

text \<open>
  The packet filter of a host (\<open>cmd/dclient\<close>: \<open>nft.go\<close> and the reconciliation of \<open>netd.go\<close>): the rules and sets
  the program sends to the kernel, and what they let through. The kernel is not part of the program; what it
  does with a batch and with a packet is a parameter, and the theorems assume of it what nftables documents.
\<close>

section \<open>Rules as the program builds them\<close>

datatype meta_key = MetaIIF | MetaOIF | MetaOIFNAME | MetaL4PROTO
datatype payload_base = NetworkHeader | TransportHeader
datatype verdict = Accept | Drop | Queued "16 word" "16 word" | Masqueraded
datatype hook = ForwardHook | InputHook | PostroutingHook

text \<open>An expression carries its register first; \<open>Lookup\<close> and \<open>Cmp\<close> carry whether they are inverted.\<close>

datatype nft_expr =
    Meta nat meta_key
  | Lookup nat string bool
  | CtState nat
  | Bitwise nat nat nat bytes bytes
  | Cmp nat bool bytes
  | Payload nat payload_base nat nat
  | Counter
  | Queue "16 word" "16 word"
  | Masq
  | Verdict verdict

datatype key_type = TypeIFIndex | TypeIPAddr

record nft_set =
  ns_Name :: string
  ns_KeyType :: "key_type list"
  ns_Interval :: bool

record nft_elem =
  ne_Key :: bytes
  ne_KeyEnd :: bytes

record nft_chain =
  nch_Name :: string
  nch_Hook :: hook
  nch_Policy :: verdict

datatype nft_op =
    DelTable | AddTable | AddSet nft_set | FlushSet string | AddElems string "nft_elem list"
  | DelElems string "nft_elem list" | AddChain nft_chain | AddRule string "nft_expr list"

definition setTaps :: string where "setTaps = ''vm_taps''"
definition setVMIPs :: string where "setVMIPs = ''vm_ips''"
definition setVMSrc :: string where "setVMSrc = ''vm_src''"
definition setEgress :: string where "setEgress = ''egress_allow''"

definition base_sets :: "nft_set list" where
  "base_sets =
     [\<lparr>ns_Name = setTaps, ns_KeyType = [TypeIFIndex], ns_Interval = False\<rparr>,
      \<lparr>ns_Name = setVMIPs, ns_KeyType = [TypeIPAddr], ns_Interval = False\<rparr>,
      \<lparr>ns_Name = setVMSrc, ns_KeyType = [TypeIFIndex, TypeIPAddr], ns_Interval = False\<rparr>,
      \<lparr>ns_Name = setEgress, ns_KeyType = [TypeIPAddr, TypeIPAddr], ns_Interval = True\<rparr>]"

definition native32 :: "32 word \<Rightarrow> bytes" where
  "native32 w = le_bytes 4 (uint w)"

definition big16 :: "16 word \<Rightarrow> bytes" where
  "big16 w = be_bytes 2 (uint w)"

definition established_exprs :: "nft_expr list" where
  "established_exprs =
     [CtState 1, Bitwise 1 1 4 (native32 (2 OR 4)) (native32 0), Cmp 1 True [0, 0, 0, 0]]"

definition from_tap :: "nft_expr list" where
  "from_tap = [Meta 1 MetaIIF, Lookup 1 setTaps False]"

text \<open>The chain \<open>forward\<close>: replies, the source check, no tap to tap, no other machine, and the allowed egress.\<close>

definition fwd_rules :: "netConfig \<Rightarrow> nft_expr list list" where
  "fwd_rules cfg =
     [[Meta 1 MetaIIF, Lookup 1 setTaps True] @ established_exprs @ [Verdict Accept],
      from_tap @ [Payload 9 NetworkHeader 12 4, Lookup 1 setVMSrc True, Counter, Verdict Drop],
      from_tap @ [Meta 1 MetaOIF, Lookup 1 setTaps False, Counter, Verdict Drop],
      from_tap @ [Payload 1 NetworkHeader 16 4, Lookup 1 setVMIPs False, Counter, Verdict Drop],
      from_tap @ [Payload 1 NetworkHeader 12 4, Payload 9 NetworkHeader 16 4, Lookup 1 setEgress False, Counter,
        if nc_Suricata cfg then Queue 0 (nc_Queues cfg) else Verdict Accept]]"

definition metadataPort :: "16 word" where "metadataPort = 8345"
definition dhcpServerPort :: "16 word" where "dhcpServerPort = 67"

text \<open>What a guest may reach on the host: an address, a protocol and a port; 6 is tcp and 17 is udp.\<close>

definition host_services :: "bytes \<Rightarrow> (bytes \<times> byte \<times> 16 word) list" where
  "host_services gw =
     filter (\<lambda>(d, _, _). d \<noteq> [])
       [(gw, 6, metadataPort), (gw, 17, 53), (gw, 6, 53),
        (To4 (ParseIP intproxyAddr), 6, 443), (To4 (ParseIP intproxyAddr), 6, 80)]"

definition service_rule :: "bytes \<times> byte \<times> 16 word \<Rightarrow> nft_expr list" where
  "service_rule svc = (case svc of (daddr, proto, port) \<Rightarrow>
     from_tap @ [Payload 1 NetworkHeader 16 4, Cmp 1 False daddr, Meta 1 MetaL4PROTO, Cmp 1 False [proto],
       Payload 1 TransportHeader 2 2, Cmp 1 False (big16 port), Counter, Verdict Accept])"

definition in_rules :: "bytes \<Rightarrow> nft_expr list list" where
  "in_rules gw =
     [established_exprs @ [Verdict Accept],
      from_tap @ [Meta 1 MetaL4PROTO, Cmp 1 False [17], Payload 1 TransportHeader 2 2,
        Cmp 1 False (big16 dhcpServerPort), Verdict Accept]] @
     map service_rule (host_services gw) @
     [from_tap @ [Meta 1 MetaL4PROTO, Cmp 1 False [1], Verdict Accept],
      from_tap @ [Counter, Verdict Drop]]"

text \<open>An interface name in sixteen bytes; a longer name is cut.\<close>

definition ifname :: "string \<Rightarrow> bytes" where
  "ifname name = take 16 (to_bytes name @ replicate 16 0)"

definition post_rules :: "netConfig \<Rightarrow> nft_expr list list" where
  "post_rules cfg =
     [[Payload 1 NetworkHeader 12 4, Lookup 1 setVMIPs False, Meta 1 MetaOIFNAME,
       Cmp 1 False (ifname (nc_Uplink cfg)), Masq]]"

definition chain_ops :: "nft_chain \<Rightarrow> nft_expr list list \<Rightarrow> nft_op list" where
  "chain_ops ch rules = AddChain ch # map (AddRule (nch_Name ch)) rules"

definition fwd_chain :: nft_chain where
  "fwd_chain = \<lparr>nch_Name = ''forward'', nch_Hook = ForwardHook, nch_Policy = Drop\<rparr>"

definition in_chain :: nft_chain where
  "in_chain = \<lparr>nch_Name = ''input'', nch_Hook = InputHook, nch_Policy = Accept\<rparr>"

definition post_chain :: nft_chain where
  "post_chain = \<lparr>nch_Name = ''postrouting'', nch_Hook = PostroutingHook, nch_Policy = Accept\<rparr>"

section \<open>The kernel, as far as nftables documents it\<close>

record nft_table =
  nt_sets :: "(nft_set \<times> nft_elem list) list"
  nt_chains :: "(nft_chain \<times> nft_expr list list) list"

text \<open>The table of this program, absent or present, and what each message of a batch does to it.\<close>

definition update_set :: "string \<Rightarrow> (nft_elem list \<Rightarrow> nft_elem list) \<Rightarrow> nft_table \<Rightarrow> nft_table" where
  "update_set n f t = t\<lparr>nt_sets := map (\<lambda>(s, es). if ns_Name s = n then (s, f es) else (s, es)) (nt_sets t)\<rparr>"

definition apply_op :: "nft_op \<Rightarrow> nft_table option \<Rightarrow> nft_table option" where
  "apply_op op st = (case op of
       DelTable \<Rightarrow> None
     | AddTable \<Rightarrow> (if st = None then Some \<lparr>nt_sets = [], nt_chains = []\<rparr> else st)
     | AddSet s \<Rightarrow> map_option (\<lambda>t. t\<lparr>nt_sets := nt_sets t @ [(s, [])]\<rparr>) st
     | FlushSet n \<Rightarrow> map_option (update_set n (\<lambda>_. [])) st
     | AddElems n es \<Rightarrow> map_option (update_set n (\<lambda>old. old @ es)) st
     | DelElems n es \<Rightarrow> map_option (update_set n (filter (\<lambda>e. e \<notin> set es))) st
     | AddChain ch \<Rightarrow> map_option (\<lambda>t. t\<lparr>nt_chains := nt_chains t @ [(ch, [])]\<rparr>) st
     | AddRule n r \<Rightarrow> map_option (\<lambda>t. t\<lparr>nt_chains :=
          map (\<lambda>(ch, rs). if nch_Name ch = n then (ch, rs @ [r]) else (ch, rs)) (nt_chains t)\<rparr>) st)"

record packet =
  pk_iif :: "32 word"
  pk_oif :: "32 word"
  pk_oifname :: bytes
  pk_l4proto :: byte
  pk_ct :: "32 word"
  pk_network :: bytes
  pk_transport :: bytes

text \<open>
  The registers are sixty-four bytes: register 1 is the first sixteen, registers from 8 on are its words.
  Data is stored in whole words.
\<close>

definition reg_off :: "nat \<Rightarrow> nat" where
  "reg_off r = (if r < 8 then 16 * (r - 1) else 4 * (r - 8))"

definition reg_get :: "nat \<Rightarrow> nat \<Rightarrow> bytes \<Rightarrow> bytes" where
  "reg_get r n regs = take n (drop (reg_off r) regs)"

definition pad4 :: "bytes \<Rightarrow> bytes" where
  "pad4 bs = bs @ replicate ((4 - length bs mod 4) mod 4) 0"

definition reg_put :: "nat \<Rightarrow> bytes \<Rightarrow> bytes \<Rightarrow> bytes" where
  "reg_put r bs regs = take (reg_off r) regs @ pad4 bs @ drop (reg_off r + length (pad4 bs)) regs"

definition meta_bytes :: "packet \<Rightarrow> meta_key \<Rightarrow> bytes" where
  "meta_bytes pk k = (case k of
       MetaIIF \<Rightarrow> native32 (pk_iif pk)
     | MetaOIF \<Rightarrow> native32 (pk_oif pk)
     | MetaOIFNAME \<Rightarrow> pk_oifname pk
     | MetaL4PROTO \<Rightarrow> [pk_l4proto pk])"

text \<open>A range of a concatenation holds a key when each of its four-byte fields lies between the ends.\<close>

fun fields_between :: "nat \<Rightarrow> bytes \<Rightarrow> bytes \<Rightarrow> bytes \<Rightarrow> bool" where
  "fields_between 0 lo x hi \<longleftrightarrow> True"
| "fields_between (Suc k) lo x hi \<longleftrightarrow>
     be_val (take 4 lo) \<le> be_val (take 4 x) \<and> be_val (take 4 x) \<le> be_val (take 4 hi) \<and>
     fields_between k (drop 4 lo) (drop 4 x) (drop 4 hi)"

definition elem_holds :: "nft_set \<Rightarrow> nft_elem \<Rightarrow> bytes \<Rightarrow> bool" where
  "elem_holds s e key \<longleftrightarrow>
     (if ne_KeyEnd e = [] then key = ne_Key e
      else fields_between (length (ns_KeyType s)) (ne_Key e) key (ne_KeyEnd e))"

definition set_lookup :: "nft_table \<Rightarrow> string \<Rightarrow> bytes \<Rightarrow> bool" where
  "set_lookup t n regs \<longleftrightarrow>
     list_ex (\<lambda>(s, es). ns_Name s = n \<and> list_ex (\<lambda>e. elem_holds s e (take (4 * length (ns_KeyType s)) regs)) es)
       (nt_sets t)"

datatype eval_step = Next bytes | Break | Final verdict

definition header :: "packet \<Rightarrow> payload_base \<Rightarrow> bytes" where
  "header pk b = (case b of NetworkHeader \<Rightarrow> pk_network pk | TransportHeader \<Rightarrow> pk_transport pk)"

definition expr_eval :: "nft_table \<Rightarrow> packet \<Rightarrow> nft_expr \<Rightarrow> bytes \<Rightarrow> eval_step" where
  "expr_eval t pk e regs = (case e of
       Meta r k \<Rightarrow> Next (reg_put r (meta_bytes pk k) regs)
     | Lookup r n neg \<Rightarrow> (if set_lookup t n (drop (reg_off r) regs) \<noteq> neg then Next regs else Break)
     | CtState r \<Rightarrow> Next (reg_put r (native32 (pk_ct pk)) regs)
     | Bitwise s d n m x \<Rightarrow> Next (reg_put d (map2 (XOR) (map2 (AND) (reg_get s n regs) m) x) regs)
     | Cmp r neq dat \<Rightarrow> (if (reg_get r (length dat) regs = dat) \<noteq> neq then Next regs else Break)
     | Payload r b off n \<Rightarrow>
         (if off + n \<le> length (header pk b) then Next (reg_put r (take n (drop off (header pk b))) regs) else Break)
     | Counter \<Rightarrow> Next regs
     | Queue num tot \<Rightarrow> Final (Queued num tot)
     | Masq \<Rightarrow> Final Masqueraded
     | Verdict v \<Rightarrow> Final v)"

text \<open>A rule ends at its verdict; a rule that breaks or has none leaves the packet to the next one.\<close>

fun rule_eval :: "nft_table \<Rightarrow> packet \<Rightarrow> nft_expr list \<Rightarrow> bytes \<Rightarrow> verdict option" where
  "rule_eval t pk [] regs = None"
| "rule_eval t pk (e # es) regs =
     (case expr_eval t pk e regs of
        Next regs' \<Rightarrow> rule_eval t pk es regs'
      | Break \<Rightarrow> None
      | Final v \<Rightarrow> Some v)"

fun rules_eval :: "nft_table \<Rightarrow> packet \<Rightarrow> verdict \<Rightarrow> nft_expr list list \<Rightarrow> verdict" where
  "rules_eval t pk policy [] = policy"
| "rules_eval t pk policy (r # rs) =
     (case rule_eval t pk r (replicate 64 0) of
        Some v \<Rightarrow> v
      | None \<Rightarrow> rules_eval t pk policy rs)"

definition table_verdict :: "nft_table option \<Rightarrow> hook \<Rightarrow> packet \<Rightarrow> verdict" where
  "table_verdict st h pk =
     (case st of
        None \<Rightarrow> Accept
      | Some t \<Rightarrow>
          (case filter (\<lambda>(ch, _). nch_Hook ch = h) (nt_chains t) of
             [] \<Rightarrow> Accept
           | (ch, rules) # _ \<Rightarrow> rules_eval t pk (nch_Policy ch) rules))"

end
