(* ===== verification/Dcl_Policy.thy ===== *)
theory Dcl_Policy
  imports Dcl_Nft
begin

unbundle bit_operations_syntax

text \<open>
  The operations on the packet filter: installing the ruleset, adding and removing the policy of one machine,
  and the reconciliation with the records on disk (\<open>cmd/dclient\<close>: \<open>nft.go\<close>, \<open>netd.go\<close>). Each returns its error,
  if any, and the host afterwards. A batch is applied whole or not at all.
\<close>

section \<open>The kernel as a parameter\<close>

record netfilter =
  nf_New :: "dclient_error option"
  nf_List :: "dclient_error option"
  nf_AddSet :: "nft_set \<Rightarrow> dclient_error option"
  nf_Elems :: "string \<Rightarrow> nft_elem list \<Rightarrow> dclient_error option"
  nf_Flush :: "nft_op list \<Rightarrow> nft_table option \<Rightarrow> dclient_error + nft_table option"
  nf_Verdict :: "nft_table option \<Rightarrow> hook \<Rightarrow> packet \<Rightarrow> verdict"

definition documented :: "netfilter \<Rightarrow> bool" where
  "documented nf \<longleftrightarrow>
     (\<forall>ops st st'. nf_Flush nf ops st = Inr st' \<longrightarrow> st' = fold apply_op ops st) \<and>
     (\<forall>st h pk. nf_Verdict nf st h pk = table_verdict st h pk)"

text \<open>The filter, the marker of its generation in \<open>/run\<close>, and the interfaces with their indexes.\<close>

record host =
  h_table :: "nft_table option"
  h_generation :: "string option"
  h_links :: "(string \<times> 32 word) list"

definition nftRulesetGeneration :: int where
  "nftRulesetGeneration = 2"

definition tapIndex :: "host \<Rightarrow> string \<Rightarrow> dclient_error + bytes" where
  "tapIndex h tap = (case map_of (h_links h) tap of
       None \<Rightarrow> Inl (Failed tap)
     | Some i \<Rightarrow> Inr (native32 i))"

definition nft_flush :: "netfilter \<Rightarrow> nft_op list \<Rightarrow> host \<Rightarrow> dclient_error option \<times> host" where
  "nft_flush nf ops h = (case nf_Flush nf ops (h_table h) of
       Inl e \<Rightarrow> (Some e, h)
     | Inr t \<Rightarrow> (None, h\<lparr>h_table := t\<rparr>))"

section \<open>Elements of the sets\<close>

definition invert_bytes :: "bytes \<Rightarrow> bytes" where
  "invert_bytes b = map (NOT) b"

definition or_bytes :: "bytes \<Rightarrow> bytes \<Rightarrow> bytes" where
  "or_bytes a b = map2 (OR) a b"

text \<open>
  \<open>cidrRange\<close>: the first and last address. The network of an IPv4 address written as IPv6 may not be an IPv4
  network, and then \<open>first[i]\<close> is out of range; otherwise its mask is the first four bytes of a long one.
\<close>

definition cidrRange :: "string \<Rightarrow> dclient_error + (bytes \<times> bytes)" where
  "cidrRange cidr = (case ParseCIDR cidr of
       None \<Rightarrow>
         (let single = ParseIP cidr in
          if single \<noteq> [] \<and> To4 single \<noteq> [] then Inr (To4 single, To4 single) else Inl (NotAddress cidr))
     | Some (ip, ipnet) \<Rightarrow>
         if To4 ip = [] then Inl (NotAddress cidr)
         else let first = To4 (net_IP ipnet) in
           if first = [] then Inl Panic
           else Inr (first, or_bytes first (invert_bytes (take 4 (net_Mask ipnet)))))"

definition srcKey :: "bytes \<Rightarrow> bytes \<Rightarrow> bytes" where
  "srcKey idx ip = idx @ ip"

definition exact :: "bytes \<Rightarrow> nft_elem" where
  "exact key = \<lparr>ne_Key = key, ne_KeyEnd = []\<rparr>"

definition egress_step :: "bytes \<Rightarrow> nat \<Rightarrow> string \<Rightarrow> nft_elem list \<Rightarrow> dclient_error + nft_elem list" where
  "egress_step ip i cidr es =
     rbind (cidrRange cidr) (\<lambda>(start, stop). Inr (es @ [\<lparr>ne_Key = ip @ start, ne_KeyEnd = ip @ stop\<rparr>]))"

definition egressElements :: "string list \<Rightarrow> bytes \<Rightarrow> dclient_error + nft_elem list" where
  "egressElements cidrs ip = for_each 0 (egress_step ip) cidrs []"

section \<open>Installing the ruleset\<close>

definition base_ops :: "netConfig \<Rightarrow> bytes \<Rightarrow> bool \<Rightarrow> nft_op list" where
  "base_ops cfg gw present =
     (if present then [DelTable] else []) @ [AddTable] @ map AddSet base_sets @
     chain_ops fwd_chain (fwd_rules cfg) @ chain_ops in_chain (in_rules gw) @ chain_ops post_chain (post_rules cfg)"

definition first_error :: "dclient_error option list \<Rightarrow> dclient_error option" where
  "first_error es = (case filter (\<lambda>e. e \<noteq> None) es of [] \<Rightarrow> None | e # _ \<Rightarrow> e)"

definition applyBaseRuleset :: "netfilter \<Rightarrow> netConfig \<Rightarrow> host \<Rightarrow> dclient_error option \<times> host" where
  "applyBaseRuleset nf cfg h =
     (case first_error ([nf_New nf, nf_List nf] @ map (nf_AddSet nf) base_sets) of
        Some e \<Rightarrow> (Some e, h)
      | None \<Rightarrow>
          let gw = To4 (ParseIP (nc_Gateway cfg)) in
          if gw = [] then (Some InvalidGateway, h)
          else nft_flush nf (base_ops cfg gw (h_table h \<noteq> None)) h)"

definition rulesetGenerationInstalled :: "host \<Rightarrow> bool" where
  "rulesetGenerationInstalled h = (case h_generation h of
       None \<Rightarrow> False
     | Some b \<Rightarrow> trim_space b = itoa nftRulesetGeneration)"

text \<open>The marker may fail to be written; that is only logged.\<close>

definition recordRulesetGeneration :: "bool \<Rightarrow> host \<Rightarrow> host" where
  "recordRulesetGeneration written h =
     (if written then h\<lparr>h_generation := Some (itoa nftRulesetGeneration)\<rparr> else h)"

definition ensureRuleset :: "netfilter \<Rightarrow> bool \<Rightarrow> netConfig \<Rightarrow> host \<Rightarrow> dclient_error option \<times> host" where
  "ensureRuleset nf written cfg h =
     (case first_error [nf_New nf, nf_List nf] of
        Some e \<Rightarrow> (Some e, h)
      | None \<Rightarrow>
          if h_table h \<noteq> None \<and> rulesetGenerationInstalled h then (None, h)
          else case applyBaseRuleset nf cfg h of
            (Some e, h') \<Rightarrow> (Some e, h')
          | (None, h') \<Rightarrow> (None, recordRulesetGeneration written h'))"

definition deleteRuleset :: "netfilter \<Rightarrow> host \<Rightarrow> dclient_error option \<times> host" where
  "deleteRuleset nf h =
     (case first_error [nf_New nf, nf_List nf] of
        Some e \<Rightarrow> (Some e, h)
      | None \<Rightarrow> nft_flush nf (if h_table h \<noteq> None then [DelTable] else []) h)"

section \<open>One machine\<close>

definition add_elems :: "netfilter \<Rightarrow> string \<Rightarrow> nft_elem list \<Rightarrow> dclient_error + nft_op list" where
  "add_elems nf n es = (case nf_Elems nf n es of Some e \<Rightarrow> Inl e | None \<Rightarrow> Inr [AddElems n es])"

definition policy_ops :: "netfilter \<Rightarrow> string list \<Rightarrow> bytes \<Rightarrow> bytes \<Rightarrow> dclient_error + nft_op list" where
  "policy_ops nf egress ip idx =
     rbind (add_elems nf setTaps [exact idx]) (\<lambda>a.
     rbind (add_elems nf setVMIPs [exact ip]) (\<lambda>b.
     rbind (add_elems nf setVMSrc [exact (srcKey idx ip)]) (\<lambda>c.
     rbind (egressElements egress ip) (\<lambda>es.
     rbind (if es \<noteq> [] then add_elems nf setEgress es else Inr []) (\<lambda>d.
       Inr (a @ b @ c @ d))))))"

definition addVMPolicy :: "netfilter \<Rightarrow> vm \<Rightarrow> host \<Rightarrow> dclient_error option \<times> host" where
  "addVMPolicy nf v h =
     (case nf_New nf of
        Some e \<Rightarrow> (Some e, h)
      | None \<Rightarrow>
          (case vm_Net v of
             None \<Rightarrow> (Some Panic, h)
           | Some n \<Rightarrow>
               let ip = To4 (ParseIP (vn_IP n)) in
               if ip = [] then (Some (InvalidAddress (vn_IP n)), h)
               else case rbind (tapIndex h (vn_Tap n)) (policy_ops nf (vn_Egress n) ip) of
                 Inl e \<Rightarrow> (Some e, h)
               | Inr ops \<Rightarrow> nft_flush nf ops h))"

text \<open>One deletion is one batch; an element that is absent is no error.\<close>

definition del_elem :: "netfilter \<Rightarrow> string \<times> nft_elem \<Rightarrow> host \<Rightarrow> dclient_error option \<times> host" where
  "del_elem nf se h =
     (case nf_Elems nf (fst se) [snd se] of
        Some e \<Rightarrow> (Some e, h)
      | None \<Rightarrow>
          (case nft_flush nf [DelElems (fst se) [snd se]] h of
             (Some e, h') \<Rightarrow> (if e = ENOENT then None else Some e, h')
           | (None, h') \<Rightarrow> (None, h')))"

fun del_all :: "netfilter \<Rightarrow> (string \<times> nft_elem) list \<Rightarrow> host \<Rightarrow> dclient_error option list \<times> host" where
  "del_all nf [] h = ([], h)"
| "del_all nf (se # ses) h =
     (let (e, h') = del_elem nf se h; (es, h'') = del_all nf ses h' in (e # es, h''))"

definition policy_elems :: "host \<Rightarrow> vmNet \<Rightarrow> bytes \<Rightarrow> (string \<times> nft_elem) list" where
  "policy_elems h n ip =
     (case tapIndex h (vn_Tap n) of
        Inl _ \<Rightarrow> []
      | Inr idx \<Rightarrow> [(setTaps, exact idx), (setVMSrc, exact (srcKey idx ip))]) @
     [(setVMIPs, exact ip)] @
     (case egressElements (vn_Egress n) ip of Inl _ \<Rightarrow> [] | Inr es \<Rightarrow> map (Pair setEgress) es)"

definition removeVMPolicy :: "netfilter \<Rightarrow> vm \<Rightarrow> host \<Rightarrow> dclient_error option \<times> host" where
  "removeVMPolicy nf v h =
     (case vm_Net v of
        None \<Rightarrow> (None, h)
      | Some n \<Rightarrow>
          (case nf_New nf of
             Some e \<Rightarrow> (Some e, h)
           | None \<Rightarrow>
               let ip = To4 (ParseIP (vn_IP n)) in
               if ip = [] then (None, h)
               else let (es, h') = del_all nf (policy_elems h n ip) h in
               if egressElements (vn_Egress n) ip = Inl Panic then (Some Panic, h') else (first_error es, h')))"

section \<open>All machines\<close>

text \<open>A machine that does not run loses its tap; one that runs is to have its policy.\<close>

definition remove_link :: "string \<Rightarrow> host \<Rightarrow> host" where
  "remove_link tap h = h\<lparr>h_links := filter (\<lambda>(n, _). n \<noteq> tap) (h_links h)\<rparr>"

definition live_vms :: "(vm \<Rightarrow> bool) \<Rightarrow> vm list \<Rightarrow> vm list" where
  "live_vms running vms = filter (\<lambda>v. vm_Net v \<noteq> None \<and> running v) vms"

definition drop_taps :: "(vm \<Rightarrow> bool) \<Rightarrow> vm list \<Rightarrow> host \<Rightarrow> host" where
  "drop_taps running vms h =
     fold (\<lambda>v h. case vm_Net v of None \<Rightarrow> h | Some n \<Rightarrow> if running v then h else remove_link (vn_Tap n) h) vms h"

text \<open>
  One machine of the loop: an address or a tap that cannot be used skips it, and egress that cannot be used
  leaves it without any.
\<close>

definition reconcile_step :: "netfilter \<Rightarrow> host \<Rightarrow> nat \<Rightarrow> vm \<Rightarrow> nft_op list \<Rightarrow> dclient_error + nft_op list" where
  "reconcile_step nf h i v ops =
     (case vm_Net v of
        None \<Rightarrow> Inl Panic
      | Some n \<Rightarrow>
          let ip = To4 (ParseIP (vn_IP n)) in
          if ip = [] then Inr ops
          else case tapIndex h (vn_Tap n) of
            Inl _ \<Rightarrow> Inr ops
          | Inr idx \<Rightarrow>
              rbind (add_elems nf setTaps [exact idx]) (\<lambda>a.
              rbind (add_elems nf setVMIPs [exact ip]) (\<lambda>b.
              rbind (add_elems nf setVMSrc [exact (srcKey idx ip)]) (\<lambda>c.
                case egressElements (vn_Egress n) ip of
                  Inl e \<Rightarrow> if e = Panic then Inl Panic else Inr (ops @ a @ b @ c)
                | Inr es \<Rightarrow>
                    rbind (if es \<noteq> [] then add_elems nf setEgress es else Inr []) (\<lambda>d.
                      Inr (ops @ a @ b @ c @ d))))))"

definition flush_sets :: "nft_op list" where
  "flush_sets = map FlushSet [setTaps, setVMIPs, setVMSrc, setEgress]"

definition reconcile ::
  "netfilter \<Rightarrow> bool \<Rightarrow> netConfig \<Rightarrow> dclient_error + vm list \<Rightarrow> (vm \<Rightarrow> bool) \<Rightarrow> host \<Rightarrow> dclient_error option \<times> host" where
  "reconcile nf written cfg listed running h =
     (case ensureRuleset nf written cfg h of
        (Some e, h') \<Rightarrow> (Some e, h')
      | (None, h') \<Rightarrow>
          (case listed of
             Inl e \<Rightarrow> (Some e, h')
           | Inr vms \<Rightarrow>
               let h'' = drop_taps running vms h' in
               case nf_New nf of
                 Some e \<Rightarrow> (Some e, h'')
               | None \<Rightarrow>
                   (case for_each 0 (reconcile_step nf h'') (live_vms running vms) flush_sets of
                      Inl e \<Rightarrow> (Some e, h'')
                    | Inr ops \<Rightarrow> nft_flush nf ops h'')))"

end
