(* ===== verification/Dcl_Cidr.thy ===== *)
theory Dcl_Cidr
  imports Dcl_Policy
begin

unbundle bit_operations_syntax

text \<open>
  The range of addresses of a prefix, as the program gives it to the kernel, holds only addresses of the prefix.
\<close>

section \<open>Bytes and words\<close>

lemma uint_drop_bit: "uint (drop_bit k (w :: 'a::len word)) = uint w div 2 ^ k"
proof -
  have "uint (drop_bit k w) = drop_bit k (uint w)"
    using uint_lt2p [of w] by (simp add: unsigned_drop_bit_eq take_bit_int_eq_self)
  then show ?thesis by (simp only: drop_bit_eq_div)
qed

lemma v4_bytes_ucast:
  "v4_bytes w = [ucast (drop_bit 24 w), ucast (drop_bit 16 w), ucast (drop_bit 8 w), ucast w]"
proof -
  have div: "word_of_int (uint w div 2 ^ k) = (ucast (drop_bit k w) :: byte)" for k
    by (simp only: uint_drop_bit [symmetric] ucast_eq)
  have "be_bytes 4 v = [word_of_int (v div 2 ^ 24), word_of_int (v div 2 ^ 16), word_of_int (v div 2 ^ 8), word_of_int v]" for v
  proof -
    have "le_bytes 4 v = le_bytes (Suc (Suc (Suc (Suc 0)))) v"
      by (simp add: eval_nat_numeral)
    then show ?thesis
      by (simp add: be_bytes_def zdiv_zmult2_eq [symmetric])
  qed
  then show ?thesis
    using div [of 8] div [of 16] div [of 24] div [of 0] by (simp add: v4_bytes_def)
qed

lemma and_v4 [simp]: "and_bytes (v4_bytes a) (v4_bytes b) = v4_bytes (a AND b)"
  by (simp add: and_bytes_def v4_bytes_ucast) (simp add: bit_eq_iff bit_simps)

lemma or_v4 [simp]: "or_bytes (v4_bytes a) (v4_bytes b) = v4_bytes (a OR b)"
  by (simp add: or_bytes_def v4_bytes_ucast) (simp add: bit_eq_iff bit_simps)

lemma not_v4 [simp]: "invert_bytes (v4_bytes a) = v4_bytes (NOT a)"
  by (simp add: invert_bytes_def v4_bytes_ucast) (auto simp: bit_eq_iff bit_simps)

lemma be_val_v4 [simp]: "be_val (v4_bytes w) = uint w"
  using uint_lt2p [of w] by (simp add: v4_bytes_def)

lemma drop_bit_mono: "(a :: 'a::len word) \<le> b \<Longrightarrow> drop_bit k a \<le> drop_bit k b"
  by (simp only: word_le_def uint_drop_bit) (rule zdiv_mono1; simp)

text \<open>A prefix is the interval from its first address to that one with all host bits set.\<close>

lemma prefix_interval:
  fixes w x :: "'a::len word"
  assumes "w AND NOT (mask k) \<le> x" "x \<le> (w AND NOT (mask k)) OR mask k"
  shows "x AND NOT (mask k) = w AND NOT (mask k)"
proof -
  have top: "drop_bit k (w AND NOT (mask k)) = drop_bit k w"
    by (rule bit_word_eqI) (auto simp: bit_simps dest: bit_imp_le_length)
  have top': "drop_bit k ((w AND NOT (mask k)) OR mask k) = drop_bit k w"
    by (rule bit_word_eqI) (auto simp: bit_simps dest: bit_imp_le_length)
  have "drop_bit k x = drop_bit k w"
    using drop_bit_mono [OF assms(1), of k] drop_bit_mono [OF assms(2), of k] unfolding top top' by (rule antisym [rotated])
  then have "bit (drop_bit k x) n = bit (drop_bit k w) n" for n
    by (rule arg_cong)
  then have "bit x (k + n) = bit w (k + n)" for n
    by (simp only: bit_drop_bit_eq comp_def)
  then have "bit x n = bit w n" if "k \<le> n" for n
    using that by (metis le_add_diff_inverse)
  then show ?thesis
    by (intro bit_word_eqI) (auto simp: bit_simps not_less)
qed

section \<open>The mask of a prefix\<close>

lemma cidr_mask4: "n \<le> 32 \<Longrightarrow> cidr_bytes 4 n = v4_bytes (NOT (mask (32 - n)))"
proof -
  have "list_all (\<lambda>n. cidr_bytes 4 n = v4_bytes (NOT (mask (32 - n)))) [0..<33]"
    by code_simp
  then show "n \<le> 32 \<Longrightarrow> ?thesis" by (simp add: list_all_iff)
qed

lemma cidr_mask16: "n \<le> 128 \<Longrightarrow> cidr_bytes 16 n ! 11 = 0xFF \<Longrightarrow> take 4 (cidr_bytes 16 n) = replicate 4 0xFF"
proof -
  have "list_all (\<lambda>n. cidr_bytes 16 n ! 11 = 0xFF \<longrightarrow> take 4 (cidr_bytes 16 n) = replicate 4 0xFF) [0..<129]"
    by code_simp
  then show "n \<le> 128 \<Longrightarrow> cidr_bytes 16 n ! 11 = 0xFF \<Longrightarrow> ?thesis" by (simp add: list_all_iff)
qed

lemma length_cidr_bytes [simp]: "length (cidr_bytes k n) = k"
  by (induction k arbitrary: n) auto

section \<open>Ranges\<close>

text \<open>What an egress entry is to allow: a network, or a single address.\<close>

definition cidr_holds :: "string \<Rightarrow> bytes \<Rightarrow> bool" where
  "cidr_holds c d \<longleftrightarrow> (case ParseCIDR c of
       None \<Rightarrow> To4 (ParseIP c) = d
     | Some (_, net) \<Rightarrow> IPNet_Contains net d)"

lemma ParseCIDR_cases:
  assumes "ParseCIDR c = Some (ip, net)"
  obtains (four) w n where "ip = v4_in_v6 @ v4_bytes w" "n \<le> 32"
      "net = \<lparr>net_IP = v4_bytes (w AND NOT (mask (32 - n))), net_Mask = v4_bytes (NOT (mask (32 - n)))\<rparr>"
  | (six) n where "length ip = 16" "n \<le> 128"
      "net = \<lparr>net_IP = and_bytes ip (cidr_bytes 16 n), net_Mask = cidr_bytes 16 n\<rparr>"
proof -
  from assms obtain a n where a: "\<not> has_zone a" "n \<le> BitLen a" "ip = As16 a"
      "net = \<lparr>net_IP = IP_Mask (As16 a) (cidr_bytes (BitLen a div 8) n), net_Mask = cidr_bytes (BitLen a div 8) n\<rparr>"
    by (clarsimp simp: ParseCIDR_def Let_def not_less split: option.splits if_split_asm)
  show thesis
  proof (cases a)
    case (V4 w)
    with a have "n \<le> 32" by (simp add: BitLen_def)
    then show thesis
      using a V4 four [of w n] by (simp add: As16_def BitLen_def IP_Mask_def cidr_mask4 v4_bytes_def [symmetric])
  next
    case (V6 u zone)
    then show thesis
      using a six [of n] by (simp add: As16_def BitLen_def IP_Mask_def)
  qed
qed

lemma be_val_four_inject: "length a = 4 \<Longrightarrow> length b = 4 \<Longrightarrow> be_val a = be_val b \<Longrightarrow> a = b"
  by (metis be_bytes_be_val)

lemma cidrRange_length: "cidrRange c = Inr (start, stop) \<Longrightarrow> length start = 4 \<and> length stop = 4"
proof (cases "ParseCIDR c")
  case None
  assume "cidrRange c = Inr (start, stop)"
  then show ?thesis
    using None To4_length by (auto simp: cidrRange_def Let_def split: if_split_asm)
next
  case (Some r)
  obtain ip net where r: "r = (ip, net)" by (cases r)
  assume "cidrRange c = Inr (start, stop)"
  then have range: "start = To4 (net_IP net)" "To4 (net_IP net) \<noteq> []"
      "stop = or_bytes start (invert_bytes (take 4 (net_Mask net)))"
    using Some r by (auto simp: cidrRange_def Let_def split: if_split_asm)
  moreover have "4 \<le> length (net_Mask net)"
    using Some [unfolded r] by (cases rule: ParseCIDR_cases) simp_all
  ultimately show ?thesis
    using To4_length by (simp add: or_bytes_def invert_bytes_def)
qed

lemma all_ones: "replicate 4 0xFF = v4_bytes (- 1)"
  by code_simp

lemma and_bytes_nth: "i < length a \<Longrightarrow> i < length b \<Longrightarrow> and_bytes a b ! i = a ! i AND b ! i"
  by (simp add: and_bytes_def)

lemma byte_and_full: "a AND b = (0xFF :: byte) \<Longrightarrow> b = 0xFF"
proof -
  have full: "(0xFF :: byte) = mask 8" by (simp add: mask_eq_exp_minus_1)
  assume "a AND b = 0xFF"
  then have "bit (a AND b) n" if "n < 8" for n
    using that by (simp only: full) (simp add: bit_mask_iff)
  then show "b = 0xFF"
    by (intro bit_word_eqI) (simp add: full bit_mask_iff bit_and_iff)
qed

lemma cidrRange_sound:
  assumes "cidrRange c = Inr (start, stop)" "length d = 4" "be_val start \<le> be_val d" "be_val d \<le> be_val stop"
  shows "cidr_holds c d"
proof (cases "ParseCIDR c")
  case None
  then have "start = To4 (ParseIP c)" "stop = To4 (ParseIP c)"
    using assms(1) by (auto simp: cidrRange_def Let_def split: if_split_asm)
  moreover from this have "start = d"
    using assms cidrRange_length [OF assms(1)] by (intro be_val_four_inject) auto
  ultimately show ?thesis using None by (simp add: cidr_holds_def)
next
  case (Some r)
  obtain ip net where r: "r = (ip, net)" by (cases r)
  have range: "start = To4 (net_IP net)" "To4 (net_IP net) \<noteq> []"
      "stop = or_bytes start (invert_bytes (take 4 (net_Mask net)))"
    using Some r assms(1) by (auto simp: cidrRange_def Let_def split: if_split_asm)
  have d: "d = v4_bytes (ip_word d)" using v4_bytes_ip_word [OF assms(2)] by simp
  show ?thesis
    using Some [unfolded r]
  proof (cases rule: ParseCIDR_cases)
    case (four w n)
    define k where "k = 32 - n"
    from four range have "start = v4_bytes (w AND NOT (mask k))" "stop = v4_bytes ((w AND NOT (mask k)) OR mask k)"
      by (simp_all add: k_def)
    with assms(3,4) d have "w AND NOT (mask k) \<le> ip_word d" "ip_word d \<le> (w AND NOT (mask k)) OR mask k"
      by (metis be_val_v4 word_le_def)+
    from prefix_interval [OF this] have "ip_word d AND NOT (mask k) = w AND NOT (mask k)" .
    then show ?thesis
      using Some r four by (subst d) (simp add: cidr_holds_def IPNet_Contains_def k_def)
  next
    case (six n)
    have "take 12 (and_bytes ip (cidr_bytes 16 n)) = v4_in_v6"
      using range(2) six by (simp add: To4_def and_bytes_def split: if_split_asm)
    then have "take 12 (and_bytes ip (cidr_bytes 16 n)) ! 11 = v4_in_v6 ! 11"
      by (rule arg_cong)
    then have "and_bytes ip (cidr_bytes 16 n) ! 11 = v4_in_v6 ! 11"
      by simp
    then have "ip ! 11 AND cidr_bytes 16 n ! 11 = 0xFF"
      using six(1) by (simp add: and_bytes_nth v4_in_v6_def nth_append)
    then have "take 4 (net_Mask net) = replicate 4 0xFF"
      using six cidr_mask16 [OF six(2)] byte_and_full by simp
    moreover have "length start = 4" using cidrRange_length [OF assms(1)] by simp
    then have "or_bytes start (invert_bytes (replicate 4 0xFF)) = start"
      using v4_bytes_ip_word or_v4 not_v4 all_ones by (metis or.right_neutral word_not_not bit.compl_one)
    ultimately have "stop = start"
      using range(3) by simp
    then have "d = start"
      using assms \<open>length start = 4\<close> by (intro be_val_four_inject) auto
    moreover from this have "To4 d = d" "length d = 4" "d \<noteq> []"
      using \<open>length start = 4\<close> by (auto simp: To4_def)
    moreover have "length (net_Mask net) = 16"
      using six by simp
    ultimately show ?thesis
      using Some r range(1) by (simp add: cidr_holds_def IPNet_Contains_def)
  qed
qed

end
