(* ===== verification/Dcl_Verdict.thy ===== *)
theory Dcl_Verdict
  imports Dcl_Cidr
begin

unbundle bit_operations_syntax

text \<open>
  The table the program installs, and what its chains let through, packet by packet.
\<close>

section \<open>Registers\<close>

lemma length_native32 [simp]: "length (native32 w) = 4"
  by (simp add: native32_def)

lemma native32_inject [simp]: "native32 v = native32 w \<longleftrightarrow> v = w"
proof
  assume "native32 v = native32 w"
  then have "le_val (le_bytes 4 (uint v)) = le_val (le_bytes 4 (uint w))"
    by (simp add: native32_def)
  then have "uint v = uint w"
    using uint_lt2p [of v] uint_lt2p [of w] by simp
  then show "v = w"
    by (rule word_uint_eqI)
qed simp

lemma pad4_word [simp]: "length b = 4 \<Longrightarrow> pad4 b = b"
  by (simp add: pad4_def)

text \<open>The first word of the registers, and the word after it.\<close>

lemma put_first: "length b = 4 \<Longrightarrow> length regs = 64 \<Longrightarrow> reg_put (Suc 0) b regs = b @ drop 4 regs"
  by (simp add: reg_put_def reg_off_def)

lemma put_second: "length a = 4 \<Longrightarrow> length b = 4 \<Longrightarrow> length rest = 60 \<Longrightarrow>
    reg_put 9 b (a @ rest) = a @ b @ drop 4 rest"
  by (simp add: reg_put_def reg_off_def)

lemma get_first: "length a = n \<Longrightarrow> reg_get (Suc 0) n (a @ rest) = a"
  by (simp add: reg_get_def reg_off_def)

lemma eval_simps:
  "expr_eval t pk (Meta (Suc 0) k) regs = Next (reg_put (Suc 0) (meta_bytes pk k) regs)"
  "expr_eval t pk (Lookup (Suc 0) n neg) regs = (if set_lookup t n regs \<noteq> neg then Next regs else Break)"
  "expr_eval t pk (CtState (Suc 0)) regs = Next (reg_put (Suc 0) (native32 (pk_ct pk)) regs)"
  "expr_eval t pk (Cmp r neq dat) regs = (if (reg_get r (length dat) regs = dat) \<noteq> neq then Next regs else Break)"
  "expr_eval t pk Counter regs = Next regs"
  "expr_eval t pk (Verdict v) regs = Final v"
  "expr_eval t pk (Queue num tot) regs = Final (Queued num tot)"
  "expr_eval t pk Masq regs = Final Masqueraded"
  "expr_eval t pk (Payload r b off len) regs =
     (if off + len \<le> length (header pk b) then Next (reg_put r (take len (drop off (header pk b))) regs) else Break)"
  by (simp_all add: expr_eval_def reg_off_def)

section \<open>The table the program installs\<close>

definition wf_table :: "netConfig \<Rightarrow> bytes \<Rightarrow> nft_table \<Rightarrow> bool" where
  "wf_table cfg gw t \<longleftrightarrow>
     map fst (nt_sets t) = base_sets \<and>
     nt_chains t = [(fwd_chain, fwd_rules cfg), (in_chain, in_rules gw), (post_chain, post_rules cfg)]"

definition elems :: "nft_table \<Rightarrow> string \<Rightarrow> nft_elem list" where
  "elems t n = concat (map (\<lambda>(s, es). if ns_Name s = n then es else []) (nt_sets t))"

lemmas set_names = setTaps_def setVMIPs_def setVMSrc_def setEgress_def

lemma apply_op_simps [simp]:
  "apply_op DelTable st = None"
  "apply_op AddTable None = Some \<lparr>nt_sets = [], nt_chains = []\<rparr>"
  "apply_op (AddSet s) (Some t) = Some (t\<lparr>nt_sets := nt_sets t @ [(s, [])]\<rparr>)"
  "apply_op (FlushSet n) (Some t) = Some (update_set n (\<lambda>_. []) t)"
  "apply_op (AddElems n es) (Some t) = Some (update_set n (\<lambda>old. old @ es) t)"
  "apply_op (DelElems n es) (Some t) = Some (update_set n (filter (\<lambda>e. e \<notin> set es)) t)"
  "apply_op (AddChain ch) (Some t) = Some (t\<lparr>nt_chains := nt_chains t @ [(ch, [])]\<rparr>)"
  "apply_op (AddRule n r) (Some t) = Some (t\<lparr>nt_chains :=
     map (\<lambda>(ch, rs). if nch_Name ch = n then (ch, rs @ [r]) else (ch, rs)) (nt_chains t)\<rparr>)"
  by (simp_all add: apply_op_def)

lemma add_rules:
  "fold apply_op (map (AddRule n) rs) (Some t) = Some (t\<lparr>nt_chains :=
     map (\<lambda>(ch, r0). if nch_Name ch = n then (ch, r0 @ rs) else (ch, r0)) (nt_chains t)\<rparr>)"
proof (induction rs arbitrary: t)
  case Nil
  have "map (\<lambda>(ch, r0). if nch_Name ch = n then (ch, r0 @ []) else (ch, r0)) (nt_chains t) = nt_chains t"
    by (intro map_idI) (auto split: prod.split)
  then show ?case by simp
next
  case (Cons r rs)
  show ?case
    by (simp add: Cons.IH) (auto intro!: map_cong simp: comp_def split: prod.split)
qed

lemma add_chain:
  "fold apply_op (chain_ops ch rs) (Some t) = Some (t\<lparr>nt_chains := nt_chains t @ [(ch, rs)]\<rparr>)"
  if "\<forall>c\<in>set (nt_chains t). nch_Name (fst c) \<noteq> nch_Name ch"
proof -
  have "map (\<lambda>(c, r0). if nch_Name c = nch_Name ch then (c, r0 @ rs) else (c, r0)) (nt_chains t) = nt_chains t"
    using that by (intro map_idI) (auto split: prod.split)
  then show ?thesis
    by (simp add: chain_ops_def add_rules)
qed

lemma base_ops_table:
  "fold apply_op (base_ops cfg gw (st \<noteq> None)) st =
     Some \<lparr>nt_sets = map (\<lambda>s. (s, [])) base_sets,
           nt_chains = [(fwd_chain, fwd_rules cfg), (in_chain, in_rules gw), (post_chain, post_rules cfg)]\<rparr>"
proof -
  have "fold apply_op ((if st \<noteq> None then [DelTable] else []) @ [AddTable]) st = Some \<lparr>nt_sets = [], nt_chains = []\<rparr>"
    by (cases st) simp_all
  moreover have "fold apply_op (map AddSet ss) (Some t) = Some (t\<lparr>nt_sets := nt_sets t @ map (\<lambda>s. (s, [])) ss\<rparr>)" for ss t
    by (induction ss arbitrary: t) simp_all
  ultimately show ?thesis
    by (simp add: base_ops_def add_chain fwd_chain_def in_chain_def post_chain_def)
qed

text \<open>Lookups, by the key that the registers start with.\<close>

definition taps_has :: "nft_table \<Rightarrow> 32 word \<Rightarrow> bool" where
  "taps_has t i \<longleftrightarrow> set_lookup t setTaps (native32 i)"

definition ips_has :: "nft_table \<Rightarrow> bytes \<Rightarrow> bool" where
  "ips_has t ip \<longleftrightarrow> set_lookup t setVMIPs ip"

definition src_has :: "nft_table \<Rightarrow> 32 word \<Rightarrow> bytes \<Rightarrow> bool" where
  "src_has t i ip \<longleftrightarrow> set_lookup t setVMSrc (native32 i @ ip)"

definition egress_has :: "nft_table \<Rightarrow> bytes \<Rightarrow> bytes \<Rightarrow> bool" where
  "egress_has t s d \<longleftrightarrow> set_lookup t setEgress (s @ d)"

lemma wf_sets:
  assumes "wf_table cfg gw t"
  obtains a b c d where "nt_sets t = [(base_sets ! 0, a), (base_sets ! 1, b), (base_sets ! 2, c), (base_sets ! 3, d)]"
    "elems t setTaps = a" "elems t setVMIPs = b" "elems t setVMSrc = c" "elems t setEgress = d"
proof -
  have "length (nt_sets t) = 4"
  proof -
    have "map fst (nt_sets t) = base_sets" using assms by (simp add: wf_table_def)
    then have "length (map fst (nt_sets t)) = length base_sets" by (rule arg_cong)
    then show ?thesis by (simp add: base_sets_def)
  qed
  then obtain p q r s where ps: "nt_sets t = [p, q, r, s]"
    by (auto simp: length_Suc_conv numeral_eq_Suc)
  with assms have "fst p = base_sets ! 0" "fst q = base_sets ! 1" "fst r = base_sets ! 2" "fst s = base_sets ! 3"
    by (auto simp: wf_table_def base_sets_def)
  with ps that [of "snd p" "snd q" "snd r" "snd s"] show ?thesis
    by (cases p; cases q; cases r; cases s) (simp add: elems_def base_sets_def set_names)
qed

lemma lookups:
  assumes "wf_table cfg gw t" "length k = 4" "length k' = 4"
  shows "set_lookup t setTaps (native32 i @ rest) = taps_has t i"
    and "set_lookup t setVMIPs (k @ rest) = ips_has t k"
    and "set_lookup t setVMSrc (native32 i @ k @ rest) = src_has t i k"
    and "set_lookup t setEgress (k @ k' @ rest) = egress_has t k k'"
  using assms by (auto elim!: wf_sets simp: taps_has_def ips_has_def src_has_def egress_has_def set_lookup_def
      base_sets_def set_names)

section \<open>The verdict of the chain \<open>forward\<close>\<close>

definition established :: "packet \<Rightarrow> bool" where
  "established pk \<longleftrightarrow> map2 (XOR) (map2 (AND) (native32 (pk_ct pk)) (native32 6)) (native32 0) \<noteq> [0, 0, 0, 0]"

abbreviation saddr :: "packet \<Rightarrow> bytes" where
  "saddr pk \<equiv> take 4 (drop 12 (pk_network pk))"

abbreviation daddr :: "packet \<Rightarrow> bytes" where
  "daddr pk \<equiv> take 4 (drop 16 (pk_network pk))"

lemma established_step:
  assumes "length regs = 64"
  shows "rule_eval t pk (established_exprs @ [Verdict v]) regs = (if established pk then Some v else None)"
proof -
  define a where "a = native32 (pk_ct pk)"
  define b where "b = map2 (XOR) (map2 (AND) a (native32 6)) (native32 0)"
  have len: "length a = 4" "length b = 4" by (simp_all add: a_def b_def)
  have "expr_eval t pk (CtState (Suc 0)) regs = Next (a @ drop 4 regs)"
    by (simp add: eval_simps put_first assms a_def)
  moreover have "expr_eval t pk (Bitwise (Suc 0) (Suc 0) 4 (native32 6) (native32 0)) (a @ drop 4 regs)
      = Next (b @ drop 4 regs)"
    using assms len by (simp add: expr_eval_def get_first put_first b_def [symmetric])
  ultimately show ?thesis
    using len by (simp add: established_exprs_def eval_simps get_first established_def a_def [symmetric] b_def [symmetric])
qed

lemma from_tap_step:
  assumes "wf_table cfg gw t" "length regs = 64"
  shows "rule_eval t pk (from_tap @ es) regs =
    (if taps_has t (pk_iif pk) then rule_eval t pk es (native32 (pk_iif pk) @ drop 4 regs) else None)"
  using assms lookups(1) [OF assms(1), of "[0,0,0,0]" "[0,0,0,0]"]
  by (simp add: from_tap_def eval_simps meta_bytes_def put_first)

lemma src_rule:
  assumes "wf_table cfg gw t" "length regs = 64"
  shows "rule_eval t pk (from_tap @ [Payload 9 NetworkHeader 12 4, Lookup 1 setVMSrc True, Counter, Verdict Drop]) regs =
    (if taps_has t (pk_iif pk) \<and> 16 \<le> length (pk_network pk) \<and> \<not> src_has t (pk_iif pk) (saddr pk) then Some Drop else None)"
proof (cases "16 \<le> length (pk_network pk)")
  case True
  then have "length (saddr pk) = 4" by simp
  with assms True show ?thesis
    using lookups(3) [OF assms(1), of "saddr pk" "[0,0,0,0]"]
    by (simp add: from_tap_step [OF assms] eval_simps header_def put_second)
next
  case False
  then show ?thesis by (simp add: from_tap_step [OF assms] eval_simps header_def)
qed

lemma tap_rule:
  assumes "wf_table cfg gw t" "length regs = 64"
  shows "rule_eval t pk (from_tap @ [Meta 1 MetaOIF, Lookup 1 setTaps False, Counter, Verdict Drop]) regs =
    (if taps_has t (pk_iif pk) \<and> taps_has t (pk_oif pk) then Some Drop else None)"
  using assms lookups(1) [OF assms(1), of "[0,0,0,0]" "[0,0,0,0]"]
  by (simp add: from_tap_step [OF assms] eval_simps meta_bytes_def put_first)

lemma dst_rule:
  assumes "wf_table cfg gw t" "length regs = 64"
  shows "rule_eval t pk (from_tap @ [Payload 1 NetworkHeader 16 4, Lookup 1 setVMIPs False, Counter, Verdict Drop]) regs =
    (if taps_has t (pk_iif pk) \<and> 20 \<le> length (pk_network pk) \<and> ips_has t (daddr pk) then Some Drop else None)"
proof (cases "20 \<le> length (pk_network pk)")
  case True
  then have "length (daddr pk) = 4" by simp
  with assms True show ?thesis
    using lookups(2) [OF assms(1), of "daddr pk" "[0,0,0,0]"]
    by (simp add: from_tap_step [OF assms] eval_simps header_def put_first)
next
  case False
  then show ?thesis by (simp add: from_tap_step [OF assms] eval_simps header_def)
qed

definition let_through :: "netConfig \<Rightarrow> verdict" where
  "let_through cfg = (if nc_Suricata cfg then Queued 0 (nc_Queues cfg) else Accept)"

lemma egress_rule:
  assumes "wf_table cfg gw t" "length regs = 64"
  shows "rule_eval t pk (from_tap @ [Payload 1 NetworkHeader 12 4, Payload 9 NetworkHeader 16 4,
      Lookup 1 setEgress False, Counter, if nc_Suricata cfg then Queue 0 (nc_Queues cfg) else Verdict Accept]) regs =
    (if taps_has t (pk_iif pk) \<and> 20 \<le> length (pk_network pk) \<and> egress_has t (saddr pk) (daddr pk)
     then Some (let_through cfg) else None)"
proof (cases "20 \<le> length (pk_network pk)")
  case True
  then have "length (saddr pk) = 4" "length (daddr pk) = 4" by simp_all
  with assms True show ?thesis
    using lookups(4) [OF assms(1), of "saddr pk" "daddr pk"]
    by (simp add: from_tap_step [OF assms] eval_simps header_def put_first put_second let_through_def)
next
  case False
  then show ?thesis by (simp add: from_tap_step [OF assms] eval_simps header_def put_first)
qed

lemma reply_rule:
  assumes "wf_table cfg gw t" "length regs = 64"
  shows "rule_eval t pk ([Meta 1 MetaIIF, Lookup 1 setTaps True] @ established_exprs @ [Verdict Accept]) regs =
    (if \<not> taps_has t (pk_iif pk) \<and> established pk then Some Accept else None)"
  using assms lookups(1) [OF assms(1), of "[0,0,0,0]" "[0,0,0,0]"]
  by (simp add: eval_simps meta_bytes_def put_first established_step)

text \<open>What becomes of a packet that is to be forwarded.\<close>

definition forward_verdict :: "netConfig \<Rightarrow> nft_table \<Rightarrow> packet \<Rightarrow> verdict" where
  "forward_verdict cfg t pk =
     (if \<not> taps_has t (pk_iif pk) then (if established pk then Accept else Drop)
      else if length (pk_network pk) < 20 then Drop
      else if \<not> src_has t (pk_iif pk) (saddr pk) then Drop
      else if taps_has t (pk_oif pk) \<or> ips_has t (daddr pk) then Drop
      else if egress_has t (saddr pk) (daddr pk) then let_through cfg
      else Drop)"

lemma forward_chain:
  assumes "wf_table cfg gw t"
  shows "table_verdict (Some t) ForwardHook pk = forward_verdict cfg t pk"
proof -
  have "table_verdict (Some t) ForwardHook pk = rules_eval t pk Drop (fwd_rules cfg)"
    using assms by (simp add: table_verdict_def wf_table_def fwd_chain_def in_chain_def post_chain_def)
  also have "\<dots> = forward_verdict cfg t pk"
    unfolding fwd_rules_def
    by (simp only: rules_eval.simps src_rule [OF assms] tap_rule [OF assms] dst_rule [OF assms] egress_rule [OF assms]
        reply_rule [OF assms] length_replicate) (simp add: forward_verdict_def)
  finally show ?thesis .
qed

section \<open>The verdict of the chain \<open>input\<close>\<close>

definition dport :: "packet \<Rightarrow> bytes" where
  "dport pk = take 2 (drop 2 (pk_transport pk))"

definition serves :: "packet \<Rightarrow> bytes \<times> byte \<times> 16 word \<Rightarrow> bool" where
  "serves pk svc \<longleftrightarrow> (case svc of (d, proto, port) \<Rightarrow>
     20 \<le> length (pk_network pk) \<and> daddr pk = d \<and> pk_l4proto pk = proto \<and>
     4 \<le> length (pk_transport pk) \<and> dport pk = big16 port)"

lemma pad_byte: "pad4 [x] = [x, 0, 0, 0]"
proof -
  have "(4 - length [x] mod 4) mod 4 = 3" by simp
  moreover have "replicate 3 0 = [0, 0, 0 :: byte]" by (simp add: numeral_3_eq_3)
  ultimately show ?thesis by (simp only: pad4_def append.simps)
qed

lemma pad_half: "length b = 2 \<Longrightarrow> pad4 b = b @ [0, 0]"
  by (simp add: pad4_def) (simp add: numeral_2_eq_2)

lemma put_padded: "length (pad4 b) = 4 \<Longrightarrow> length regs = 64 \<Longrightarrow> reg_put (Suc 0) b regs = pad4 b @ drop 4 regs"
  by (simp add: reg_put_def reg_off_def)

lemma put_byte: "length regs = 64 \<Longrightarrow> reg_put (Suc 0) [x] regs = [x, 0, 0, 0] @ drop 4 regs"
  using put_padded [of "[x]" regs] unfolding pad_byte by simp

lemma put_half: "length b = 2 \<Longrightarrow> length regs = 64 \<Longrightarrow> reg_put (Suc 0) b regs = (b @ [0, 0]) @ drop 4 regs"
  using put_padded [of b regs] by (simp add: pad_half)

lemma length_big16 [simp]: "length (big16 w) = 2"
  by (simp add: big16_def)

lemma port_step:
  assumes "length regs = 64"
  shows "rule_eval t pk (Payload (Suc 0) TransportHeader 2 2 # Cmp (Suc 0) False (big16 port) # es) regs =
    (if 4 \<le> length (pk_transport pk) \<and> dport pk = big16 port
     then rule_eval t pk es ((dport pk @ [0, 0]) @ drop 4 regs) else None)"
proof (cases "4 \<le> length (pk_transport pk)")
  case True
  then have "length (dport pk) = 2" by (simp add: dport_def)
  with True assms show ?thesis
    by (simp add: eval_simps header_def put_half dport_def [symmetric] reg_get_def reg_off_def)
next
  case False
  then show ?thesis by (simp add: eval_simps header_def)
qed

lemma proto_step:
  assumes "length regs = 64"
  shows "rule_eval t pk (Meta (Suc 0) MetaL4PROTO # Cmp (Suc 0) False [p] # es) regs =
    (if pk_l4proto pk = p then rule_eval t pk es ([p, 0, 0, 0] @ drop 4 regs) else None)"
  using assms by (simp add: eval_simps meta_bytes_def put_byte reg_get_def reg_off_def)

lemma daddr_step:
  assumes "length regs = 64" "length d = 4"
  shows "rule_eval t pk (Payload (Suc 0) NetworkHeader 16 4 # Cmp (Suc 0) False d # es) regs =
    (if 20 \<le> length (pk_network pk) \<and> daddr pk = d then rule_eval t pk es (d @ drop 4 regs) else None)"
proof (cases "20 \<le> length (pk_network pk)")
  case True
  then have "length (daddr pk) = 4" by simp
  with True assms show ?thesis
    by (simp add: eval_simps header_def put_first get_first)
next
  case False
  then show ?thesis by (simp add: eval_simps header_def)
qed

lemma verdict_step:
  "rule_eval t pk [Verdict v] regs = Some v" "rule_eval t pk [Counter, Verdict v] regs = Some v"
  by (simp_all add: eval_simps)

lemma service_step:
  assumes "wf_table cfg gw t" "length regs = 64" "length (fst svc) = 4"
  shows "rule_eval t pk (service_rule svc) regs = (if taps_has t (pk_iif pk) \<and> serves pk svc then Some Accept else None)"
proof -
  obtain d proto port where svc: "svc = (d, proto, port)" by (cases svc)
  with assms(3) have d: "length d = 4" by simp
  show ?thesis
    using assms(2) by (simp add: svc service_rule_def from_tap_step [OF assms(1,2)] daddr_step proto_step port_step
        verdict_step d serves_def del: rule_eval.simps)
qed

lemma rules_services:
  assumes "wf_table cfg gw t" "\<forall>s\<in>set svcs. length (fst s) = 4"
  shows "rules_eval t pk policy (map service_rule svcs @ rest) =
    (if taps_has t (pk_iif pk) \<and> list_ex (serves pk) svcs then Accept else rules_eval t pk policy rest)"
  using assms(2) by (induction svcs) (auto simp: service_step [OF assms(1)])

text \<open>What becomes of a packet that is addressed to the host.\<close>

definition input_verdict :: "bytes \<Rightarrow> nft_table \<Rightarrow> packet \<Rightarrow> verdict" where
  "input_verdict gw t pk =
     (if established pk \<or> \<not> taps_has t (pk_iif pk) then Accept
      else if pk_l4proto pk = 17 \<and> 4 \<le> length (pk_transport pk) \<and> dport pk = big16 dhcpServerPort then Accept
      else if list_ex (serves pk) (host_services gw) then Accept
      else if pk_l4proto pk = 1 then Accept
      else Drop)"

lemma input_chain:
  assumes "wf_table cfg gw t" "length gw = 4"
  shows "table_verdict (Some t) InputHook pk = input_verdict gw t pk"
proof -
  have "table_verdict (Some t) InputHook pk = rules_eval t pk Accept (in_rules gw)"
    using assms by (simp add: table_verdict_def wf_table_def fwd_chain_def in_chain_def post_chain_def)
  also have "\<dots> = input_verdict gw t pk"
  proof -
    have "\<forall>s\<in>set (host_services gw). length (fst s) = 4"
      using assms(2) To4_length by (auto simp: host_services_def)
    note services = rules_services [OF assms(1) this]
    have len: "length (replicate 64 (0 :: byte)) = 64" by simp
    note tap = from_tap_step [OF assms(1) len]
    have dhcp: "rule_eval t pk (from_tap @ [Meta 1 MetaL4PROTO, Cmp 1 False [17], Payload 1 TransportHeader 2 2,
        Cmp 1 False (big16 dhcpServerPort), Verdict Accept]) (replicate 64 0) =
      (if taps_has t (pk_iif pk) \<and> pk_l4proto pk = 17 \<and> 4 \<le> length (pk_transport pk) \<and> dport pk = big16 dhcpServerPort
       then Some Accept else None)"
      by (simp add: tap proto_step port_step verdict_step del: rule_eval.simps)
    have icmp: "rule_eval t pk (from_tap @ [Meta 1 MetaL4PROTO, Cmp 1 False [1], Verdict Accept]) (replicate 64 0) =
      (if taps_has t (pk_iif pk) \<and> pk_l4proto pk = 1 then Some Accept else None)"
      by (simp add: tap proto_step verdict_step del: rule_eval.simps)
    have rest: "rule_eval t pk (from_tap @ [Counter, Verdict Drop]) (replicate 64 0) =
      (if taps_has t (pk_iif pk) then Some Drop else None)"
      by (simp add: tap eval_simps)
    show ?thesis
      unfolding in_rules_def append.simps rules_eval.simps established_step [OF len] dhcp services icmp rest input_verdict_def
      by simp
  qed
  finally show ?thesis .
qed

end
