(* ===== verification/Dcl_Isolation.thy ===== *)
theory Dcl_Isolation
  imports Dcl_Verdict
begin

unbundle bit_operations_syntax

text \<open>
  What the sets hold after the operations of the program, and the isolation of the machines that follows.
\<close>

section \<open>What the sets hold after a reconciliation\<close>

definition set_names_list :: "string list" where
  "set_names_list = [setTaps, setVMIPs, setVMSrc, setEgress]"

lemma set_names_distinct [simp]:
  "setTaps \<noteq> setVMIPs" "setTaps \<noteq> setVMSrc" "setTaps \<noteq> setEgress" "setVMIPs \<noteq> setTaps" "setVMIPs \<noteq> setVMSrc"
  "setVMIPs \<noteq> setEgress" "setVMSrc \<noteq> setTaps" "setVMSrc \<noteq> setVMIPs" "setVMSrc \<noteq> setEgress"
  "setEgress \<noteq> setTaps" "setEgress \<noteq> setVMIPs" "setEgress \<noteq> setVMSrc"
  by (simp_all add: set_names)

lemma base_names [simp]:
  "ns_Name (base_sets ! 0) = setTaps" "ns_Name (base_sets ! Suc 0) = setVMIPs"
  "ns_Name (base_sets ! 2) = setVMSrc" "ns_Name (base_sets ! 3) = setEgress"
  by (simp_all add: base_sets_def)

lemma update_set_wf: "wf_table cfg gw t \<Longrightarrow> wf_table cfg gw (update_set n f t)"
proof -
  have "map fst (nt_sets (update_set n f t)) = map fst (nt_sets t)"
    by (auto simp: update_set_def)
  then show "wf_table cfg gw t \<Longrightarrow> wf_table cfg gw (update_set n f t)"
    by (simp add: wf_table_def) (simp add: update_set_def)
qed

lemma elems_update_other: "m \<noteq> n \<Longrightarrow> elems (update_set n f t) m = elems t m"
  unfolding elems_def update_set_def by (rule arg_cong [of _ _ concat]) (auto split: prod.split)

lemma elems_update_same:
  assumes "wf_table cfg gw t" "n \<in> set set_names_list"
  shows "elems (update_set n f t) n = f (elems t n)"
proof -
  from assms(1) obtain a b c d where
    "nt_sets t = [(base_sets ! 0, a), (base_sets ! Suc 0, b), (base_sets ! 2, c), (base_sets ! 3, d)]"
    by (rule wf_sets) simp
  with assms(2) show ?thesis
    by (auto simp: elems_def update_set_def set_names_list_def)
qed

lemma elems_update_set:
  assumes "wf_table cfg gw t" "n \<in> set set_names_list"
  shows "elems (update_set n f t) m = (if m = n then f (elems t n) else elems t m)"
  using assms elems_update_same elems_update_other by auto

text \<open>A batch that only adds elements.\<close>

fun added :: "string \<Rightarrow> nft_op list \<Rightarrow> nft_elem list" where
  "added n [] = []"
| "added n (op # ops) = (case op of AddElems m es \<Rightarrow> if m = n then es else [] | _ \<Rightarrow> []) @ added n ops"

definition only_adds :: "nft_op list \<Rightarrow> bool" where
  "only_adds ops \<longleftrightarrow> (\<forall>op\<in>set ops. \<exists>m\<in>set set_names_list. \<exists>es. op = AddElems m es)"

lemma added_append [simp]: "added n (a @ b) = added n a @ added n b"
  by (induction a) auto

lemma only_adds_simps [simp]:
  "only_adds []" "only_adds (a @ b) \<longleftrightarrow> only_adds a \<and> only_adds b"
  "only_adds (op # ops) \<longleftrightarrow> (\<exists>m\<in>set set_names_list. \<exists>es. op = AddElems m es) \<and> only_adds ops"
  by (auto simp: only_adds_def)

lemma apply_adds:
  assumes "wf_table cfg gw t" "only_adds ops"
  shows "\<exists>t'. fold apply_op ops (Some t) = Some t' \<and> wf_table cfg gw t' \<and>
    (\<forall>n\<in>set set_names_list. elems t' n = elems t n @ added n ops)"
  using assms
proof (induction ops arbitrary: t)
  case (Cons op ops)
  then obtain m es where m: "m \<in> set set_names_list" "op = AddElems m es" by auto
  let ?u = "update_set m (\<lambda>old. old @ es) t"
  from Cons.IH [of ?u] Cons.prems update_set_wf obtain t' where
    "fold apply_op ops (Some ?u) = Some t'" "wf_table cfg gw t'" "\<forall>n\<in>set set_names_list. elems t' n = elems ?u n @ added n ops"
    by auto
  with m show ?case
    using elems_update_set [OF Cons.prems(1) m(1)] by auto
qed simp

lemma apply_flush:
  assumes "wf_table cfg gw t"
  shows "\<exists>t'. fold apply_op flush_sets (Some t) = Some t' \<and> wf_table cfg gw t' \<and>
    (\<forall>n\<in>set set_names_list. elems t' n = [])"
  using assms by (simp add: flush_sets_def update_set_wf elems_update_set [of cfg gw] set_names_list_def)

text \<open>What one running machine adds.\<close>

definition vm_adds :: "host \<Rightarrow> vm \<Rightarrow> nft_op list" where
  "vm_adds h v =
     (case vm_Net v of
        None \<Rightarrow> []
      | Some n \<Rightarrow>
          let ip = To4 (ParseIP (vn_IP n)) in
          if ip = [] then []
          else case tapIndex h (vn_Tap n) of
            Inl _ \<Rightarrow> []
          | Inr idx \<Rightarrow>
              [AddElems setTaps [exact idx], AddElems setVMIPs [exact ip], AddElems setVMSrc [exact (srcKey idx ip)]] @
              (case egressElements (vn_Egress n) ip of
                 Inl _ \<Rightarrow> []
               | Inr es \<Rightarrow> if es \<noteq> [] then [AddElems setEgress es] else []))"

lemma vm_adds_only: "only_adds (vm_adds h v)"
  by (auto simp: vm_adds_def Let_def set_names_list_def split: option.split sum.split)

lemma reconcile_step_adds: "reconcile_step nf h i v ops = Inr ops' \<Longrightarrow> ops' = ops @ vm_adds h v"
  by (auto simp: reconcile_step_def vm_adds_def add_elems_def Let_def split: option.splits sum.splits if_split_asm)

lemma reconcile_adds:
  assumes "for_each 0 (reconcile_step nf h) live flush_sets = Inr ops"
  shows "ops = flush_sets @ concat (map (vm_adds h) live)"
  by (rule for_each_invariant [OF assms, of "\<lambda>acc ops. ops = flush_sets @ concat (map (vm_adds h) acc)"])
    (auto dest: reconcile_step_adds)

lemma concat_only: "(\<forall>v\<in>set vs. only_adds (f v)) \<Longrightarrow> only_adds (concat (map f vs))"
  by (induction vs) auto

lemma added_concat: "added n (concat (map f vs)) = concat (map (added n \<circ> f) vs)"
  by (induction vs) auto

text \<open>A machine that has an address and a tap, and the table as the operations leave it.\<close>

definition place :: "host \<Rightarrow> vm \<Rightarrow> (32 word \<times> bytes) option" where
  "place h v = (case vm_Net v of
       None \<Rightarrow> None
     | Some n \<Rightarrow>
         let ip = To4 (ParseIP (vn_IP n)) in
         if ip = [] then None else map_option (\<lambda>i. (i, ip)) (map_of (h_links h) (vn_Tap n)))"

definition placed :: "host \<Rightarrow> vm \<Rightarrow> 32 word \<Rightarrow> bytes \<Rightarrow> bool" where
  "placed h v i ip \<longleftrightarrow> place h v = Some (i, ip)"

lemma placed_iff:
  "placed h v i ip \<longleftrightarrow> (\<exists>n. vm_Net v = Some n \<and> ip = To4 (ParseIP (vn_IP n)) \<and> ip \<noteq> [] \<and>
     map_of (h_links h) (vn_Tap n) = Some i)"
  by (auto simp: placed_def place_def Let_def split: option.splits if_split_asm)

definition egress_of :: "vm \<Rightarrow> string list" where
  "egress_of v = (case vm_Net v of None \<Rightarrow> [] | Some n \<Rightarrow> vn_Egress n)"

definition installed :: "netConfig \<Rightarrow> host \<Rightarrow> bool" where
  "installed cfg h \<longleftrightarrow> (case h_table h of
       None \<Rightarrow> True
     | Some t \<Rightarrow> rulesetGenerationInstalled h \<longrightarrow> wf_table cfg (To4 (ParseIP (nc_Gateway cfg))) t)"

lemma placed_length: "placed h v i ip \<Longrightarrow> length ip = 4"
  by (auto simp: placed_iff To4_length split: option.splits)

lemma flush_documented:
  assumes "documented nf" "nft_flush nf ops h = (None, h')"
  shows "h' = h\<lparr>h_table := fold apply_op ops (h_table h)\<rparr>"
  using assms by (auto simp: documented_def nft_flush_def split: sum.splits)

lemma apply_installed:
  assumes "documented nf" "applyBaseRuleset nf cfg h = (None, h')"
  shows "\<exists>t. h_table h' = Some t \<and> wf_table cfg (To4 (ParseIP (nc_Gateway cfg))) t \<and> (\<forall>n. elems t n = [])"
proof -
  from assms(2) have "nft_flush nf (base_ops cfg (To4 (ParseIP (nc_Gateway cfg))) (h_table h \<noteq> None)) h = (None, h')"
    by (auto simp: applyBaseRuleset_def Let_def split: option.splits if_split_asm)
  from flush_documented [OF assms(1) this] base_ops_table show ?thesis
    by (simp add: wf_table_def elems_def comp_def)
qed

lemma ensure_installed:
  assumes "documented nf" "installed cfg h" "ensureRuleset nf written cfg h = (None, h')"
  shows "\<exists>t. h_table h' = Some t \<and> wf_table cfg (To4 (ParseIP (nc_Gateway cfg))) t"
  using assms(3)
proof (cases "h_table h \<noteq> None \<and> rulesetGenerationInstalled h")
  case True
  with assms show ?thesis
    by (auto simp: ensureRuleset_def installed_def split: option.splits)
next
  case False
  with assms(3) obtain h2 where "applyBaseRuleset nf cfg h = (None, h2)" "h' = recordRulesetGeneration written h2"
    by (auto simp: ensureRuleset_def split: option.splits prod.splits)
  with apply_installed [OF assms(1)] show ?thesis
    by (fastforce simp: recordRulesetGeneration_def)
qed

lemma drop_taps_table [simp]: "h_table (drop_taps running vms h) = h_table h"
proof -
  have "h_table (fold (\<lambda>v h. case vm_Net v of None \<Rightarrow> h | Some n \<Rightarrow> if running v then h else remove_link (vn_Tap n) h) vms h)
      = h_table h"
    by (induction vms arbitrary: h) (auto simp: remove_link_def split: option.split)
  then show ?thesis by (simp add: drop_taps_def)
qed

lemma vm_adds_links: "h_links h = h_links h' \<Longrightarrow> vm_adds h = vm_adds h'"
proof -
  assume "h_links h = h_links h'"
  then have eq: "tapIndex h = tapIndex h'" by (intro ext) (simp add: tapIndex_def)
  show ?thesis by (rule ext) (unfold vm_adds_def eq, rule refl)
qed

lemma reconcile_table:
  assumes "documented nf" "installed cfg h" "reconcile nf written cfg (Inr vms) running h = (None, h')"
  shows "\<exists>t. h_table h' = Some t \<and> wf_table cfg (To4 (ParseIP (nc_Gateway cfg))) t \<and>
    (\<forall>n\<in>set set_names_list. elems t n = concat (map (added n \<circ> vm_adds h') (live_vms running vms)))"
proof -
  from assms(3) obtain h1 ops where h1: "ensureRuleset nf written cfg h = (None, h1)"
    and ops: "for_each 0 (reconcile_step nf (drop_taps running vms h1)) (live_vms running vms) flush_sets = Inr ops"
    and fl: "nft_flush nf ops (drop_taps running vms h1) = (None, h')"
    by (auto simp: reconcile_def Let_def split: prod.splits option.splits sum.splits)
  let ?h2 = "drop_taps running vms h1"
  let ?gw = "To4 (ParseIP (nc_Gateway cfg))"
  obtain t where t: "h_table ?h2 = Some t" "wf_table cfg ?gw t"
    using ensure_installed [OF assms(1,2) h1] by auto
  have h': "h' = ?h2\<lparr>h_table := fold apply_op ops (Some t)\<rparr>"
    using flush_documented [OF assms(1) fl] t by simp
  obtain u where u: "fold apply_op flush_sets (Some t) = Some u" "wf_table cfg ?gw u"
      "\<forall>n\<in>set set_names_list. elems u n = []"
    using apply_flush [OF t(2)] by blast
  let ?adds = "concat (map (vm_adds ?h2) (live_vms running vms))"
  have "only_adds ?adds" by (simp add: concat_only vm_adds_only)
  from apply_adds [OF u(2) this] obtain w where w: "fold apply_op ?adds (Some u) = Some w" "wf_table cfg ?gw w"
      "\<forall>n\<in>set set_names_list. elems w n = elems u n @ added n ?adds"
    by blast
  have "h_links h' = h_links ?h2" by (simp add: h')
  then have "vm_adds h' = vm_adds ?h2" by (rule vm_adds_links)
  moreover have "h_table h' = Some w"
    using h' reconcile_adds [OF ops] u w by simp
  ultimately show ?thesis
    using w u by (simp add: added_concat)
qed

text \<open>The elements of one machine.\<close>

lemma vm_adds_placed:
  assumes "placed h v i ip"
  shows "added setTaps (vm_adds h v) = [exact (native32 i)]" "added setVMIPs (vm_adds h v) = [exact ip]"
    "added setVMSrc (vm_adds h v) = [exact (native32 i @ ip)]"
    "added setEgress (vm_adds h v) = (case egressElements (egress_of v) ip of Inl _ \<Rightarrow> [] | Inr es \<Rightarrow> es)"
  using assms by (auto simp: vm_adds_def placed_iff tapIndex_def srcKey_def egress_of_def Let_def
      split: option.splits sum.splits)

lemma vm_adds_unplaced: "\<nexists>i ip. placed h v i ip \<Longrightarrow> added n (vm_adds h v) = []"
  by (auto simp: vm_adds_def placed_iff tapIndex_def Let_def split: option.splits sum.splits)

lemma egressElements_sound:
  assumes "egressElements cidrs ip = Inr es" "e \<in> set es"
  shows "\<exists>c\<in>set cidrs. \<exists>start stop. cidrRange c = Inr (start, stop) \<and> e = \<lparr>ne_Key = ip @ start, ne_KeyEnd = ip @ stop\<rparr>"
proof -
  have "\<forall>e\<in>set es. \<exists>c\<in>set cidrs. \<exists>start stop. cidrRange c = Inr (start, stop) \<and> e = \<lparr>ne_Key = ip @ start, ne_KeyEnd = ip @ stop\<rparr>"
    by (rule for_each_invariant [OF assms(1) [unfolded egressElements_def], of "\<lambda>acc es. \<forall>e\<in>set es. \<exists>c\<in>set acc. \<exists>start stop.
        cidrRange c = Inr (start, stop) \<and> e = \<lparr>ne_Key = ip @ start, ne_KeyEnd = ip @ stop\<rparr>"])
      (fastforce simp: egress_step_def)+
  with assms(2) show ?thesis by blast
qed

lemma member_adds:
  assumes "e \<in> set (concat (map (added n \<circ> vm_adds h) live))"
  obtains v i ip where "v \<in> set live" "placed h v i ip" "e \<in> set (added n (vm_adds h v))"
proof -
  from assms obtain v where v: "v \<in> set live" "e \<in> set (added n (vm_adds h v))" by auto
  with vm_adds_unplaced [of h v n] have "\<exists>i ip. placed h v i ip" by force
  with v that show ?thesis by blast
qed

lemma ex_adds:
  "(\<exists>e\<in>set (concat (map (added n \<circ> vm_adds h) live)). P e) \<longleftrightarrow>
   (\<exists>v\<in>set live. \<exists>i ip. placed h v i ip \<and> (\<exists>e\<in>set (added n (vm_adds h v)). P e))"
proof
  assume "\<exists>e\<in>set (concat (map (added n \<circ> vm_adds h) live)). P e"
  then obtain e where e: "e \<in> set (concat (map (added n \<circ> vm_adds h) live))" "P e" by blast
  from e(1) show "\<exists>v\<in>set live. \<exists>i ip. placed h v i ip \<and> (\<exists>e\<in>set (added n (vm_adds h v)). P e)"
    by (rule member_adds) (use e(2) in blast)
qed auto

lemma range_holds:
  assumes "length ip = 4" "length start = 4" "length stop = 4" "length a = 4" "length d = 4"
  shows "elem_holds (base_sets ! 3) \<lparr>ne_Key = ip @ start, ne_KeyEnd = ip @ stop\<rparr> (a @ d) \<longleftrightarrow>
    be_val a = be_val ip \<and> be_val start \<le> be_val d \<and> be_val d \<le> be_val stop"
proof -
  have "ip @ stop \<noteq> []" using assms by auto
  moreover have "length (ns_KeyType (base_sets ! 3)) = Suc (Suc 0)" by (simp add: base_sets_def)
  ultimately show ?thesis using assms by (auto simp: elem_holds_def)
qed

text \<open>A lookup finds the elements of the machines.\<close>

lemma lookups_placed:
  assumes "wf_table cfg gw t" and els: "\<forall>n\<in>set set_names_list. elems t n = concat (map (added n \<circ> vm_adds h) live)"
  shows "taps_has t i \<longleftrightarrow> (\<exists>v\<in>set live. \<exists>ip. placed h v i ip)"
    and "length a = 4 \<Longrightarrow> ips_has t a \<longleftrightarrow> (\<exists>v\<in>set live. \<exists>i. placed h v i a)"
    and "length a = 4 \<Longrightarrow> src_has t i a \<longleftrightarrow> (\<exists>v\<in>set live. placed h v i a)"
    and "length a = 4 \<Longrightarrow> length d = 4 \<Longrightarrow> egress_has t a d \<Longrightarrow>
      \<exists>v\<in>set live. (\<exists>i. placed h v i a) \<and> (\<exists>c\<in>set (egress_of v). cidr_holds c d)"
proof -
  from assms(1) obtain ts ips ss es where sets:
      "nt_sets t = [(base_sets ! 0, ts), (base_sets ! 1, ips), (base_sets ! 2, ss), (base_sets ! 3, es)]"
      "elems t setTaps = ts" "elems t setVMIPs = ips" "elems t setVMSrc = ss" "elems t setEgress = es"
    by (rule wf_sets)
  have ex: "elem_holds s (exact k) x \<longleftrightarrow> x = k" for s k x
    by (simp add: elem_holds_def exact_def)
  have all: "elems t n = concat (map (added n \<circ> vm_adds h) live)" if "n \<in> set set_names_list" for n
    using els that by blast
  show "taps_has t i \<longleftrightarrow> (\<exists>v\<in>set live. \<exists>ip. placed h v i ip)"
  proof -
    have "taps_has t i \<longleftrightarrow> (\<exists>e\<in>set (elems t setTaps). elem_holds (base_sets ! 0) e (native32 i))"
      unfolding taps_has_def set_lookup_def sets by (auto simp: base_sets_def list_ex_iff)
    also have "\<dots> \<longleftrightarrow> (\<exists>v\<in>set live. \<exists>ip. placed h v i ip)"
      unfolding all [of setTaps, simplified set_names_list_def, simplified] ex_adds
      by (fastforce simp: vm_adds_placed ex cong: conj_cong dest: placed_length)
    finally show ?thesis .
  qed
  show "ips_has t a \<longleftrightarrow> (\<exists>v\<in>set live. \<exists>i. placed h v i a)" if "length a = 4"
  proof -
    have "ips_has t a \<longleftrightarrow> (\<exists>e\<in>set (elems t setVMIPs). elem_holds (base_sets ! 1) e a)"
      unfolding ips_has_def set_lookup_def sets using that by (auto simp: base_sets_def list_ex_iff)
    also have "\<dots> \<longleftrightarrow> (\<exists>v\<in>set live. \<exists>i. placed h v i a)"
      unfolding all [of setVMIPs, simplified set_names_list_def, simplified] ex_adds
      by (fastforce simp: vm_adds_placed ex cong: conj_cong dest: placed_length)
    finally show ?thesis .
  qed
  show "src_has t i a \<longleftrightarrow> (\<exists>v\<in>set live. placed h v i a)" if "length a = 4"
  proof -
    have "src_has t i a \<longleftrightarrow> (\<exists>e\<in>set (elems t setVMSrc). elem_holds (base_sets ! 2) e (native32 i @ a))"
      unfolding src_has_def set_lookup_def sets using that by (auto simp: base_sets_def list_ex_iff)
    also have "\<dots> \<longleftrightarrow> (\<exists>v\<in>set live. placed h v i a)"
      unfolding all [of setVMSrc, simplified set_names_list_def, simplified] ex_adds
      using that by (fastforce simp: vm_adds_placed ex cong: conj_cong dest: placed_length)
    finally show ?thesis .
  qed
  show "\<exists>v\<in>set live. (\<exists>i. placed h v i a) \<and> (\<exists>c\<in>set (egress_of v). cidr_holds c d)"
    if "length a = 4" "length d = 4" "egress_has t a d"
  proof -
    have "\<exists>e\<in>set (elems t setEgress). elem_holds (base_sets ! 3) e (a @ d)"
      using that unfolding egress_has_def set_lookup_def sets by (auto simp: base_sets_def list_ex_iff)
    then obtain e where e: "e \<in> set (concat (map (added setEgress \<circ> vm_adds h) live))" "elem_holds (base_sets ! 3) e (a @ d)"
      unfolding all [of setEgress, simplified set_names_list_def, simplified] by blast
    from e(1) obtain v i ip where v: "v \<in> set live" "placed h v i ip" "e \<in> set (added setEgress (vm_adds h v))"
      by (rule member_adds)
    then obtain es where "egressElements (egress_of v) ip = Inr es" "e \<in> set es"
      by (cases "egressElements (egress_of v) ip") (auto simp: vm_adds_placed)
    from egressElements_sound [OF this] obtain c start stop where c: "c \<in> set (egress_of v)"
        "cidrRange c = Inr (start, stop)" "e = \<lparr>ne_Key = ip @ start, ne_KeyEnd = ip @ stop\<rparr>" by blast
    have len: "length ip = 4" "length start = 4" "length stop = 4"
      using placed_length [OF v(2)] cidrRange_length [OF c(2)] by auto
    with e(2) c(3) that have "be_val ip = be_val a" "be_val start \<le> be_val d" "be_val d \<le> be_val stop"
      by (auto simp: range_holds)
    then have "ip = a" "cidr_holds c d"
      using be_val_four_inject [OF len(1) that(1)] cidrRange_sound [OF c(2) that(2)] by auto
    with v c show ?thesis by blast
  qed
qed

section \<open>Every operation keeps the table the program's own\<close>

text \<open>
  What may happen on a host: it boots, the filter is installed, brought up to date, or taken out, one machine
  comes up or goes down, all are reconciled, and interfaces come and go.
\<close>

datatype net_event =
    Boot | Install bool | Ensure bool | TakeOut | Up vm | Down vm
  | Sweep bool "dclient_error + vm list" "vm \<Rightarrow> bool" | Links "(string \<times> 32 word) list"

definition net_do :: "netfilter \<Rightarrow> netConfig \<Rightarrow> net_event \<Rightarrow> host \<Rightarrow> dclient_error option \<times> host" where
  "net_do nf cfg ev h = (case ev of
       Boot \<Rightarrow> (None, h\<lparr>h_table := None, h_generation := None\<rparr>)
     | Install written \<Rightarrow>
         (case applyBaseRuleset nf cfg h of
            (Some e, h') \<Rightarrow> (Some e, h')
          | (None, h') \<Rightarrow> (None, recordRulesetGeneration written h'))
     | Ensure written \<Rightarrow> ensureRuleset nf written cfg h
     | TakeOut \<Rightarrow> deleteRuleset nf h
     | Up v \<Rightarrow> addVMPolicy nf v h
     | Down v \<Rightarrow> removeVMPolicy nf v h
     | Sweep written listed running \<Rightarrow> reconcile nf written cfg listed running h
     | Links ls \<Rightarrow> (None, h\<lparr>h_links := ls\<rparr>))"

definition net_run :: "netfilter \<Rightarrow> netConfig \<Rightarrow> net_event list \<Rightarrow> host \<Rightarrow> host" where
  "net_run nf cfg evs h = fold (\<lambda>ev h. snd (net_do nf cfg ev h)) evs h"

text \<open>A batch that only touches elements, and the tables it keeps.\<close>

definition on_elements :: "nft_op list \<Rightarrow> bool" where
  "on_elements ops \<longleftrightarrow> list_all (\<lambda>op. case op of AddElems n es \<Rightarrow> True | DelElems n es \<Rightarrow> True | FlushSet n \<Rightarrow> True | _ \<Rightarrow> False) ops"

lemma on_elements_wf:
  assumes "on_elements ops" "wf_table cfg gw t"
  shows "\<exists>t'. fold apply_op ops (Some t) = Some t' \<and> wf_table cfg gw t'"
  using assms
proof (induction ops arbitrary: t)
  case (Cons op ops)
  then obtain n f where "apply_op op (Some t) = Some (update_set n f t)"
    by (auto simp: on_elements_def split: nft_op.splits)
  with Cons update_set_wf show ?case by (simp add: on_elements_def)
qed simp

lemma on_elements_absent: "on_elements ops \<Longrightarrow> fold apply_op ops None = None"
  by (induction ops) (auto simp: on_elements_def apply_op_def split: nft_op.splits)

lemma on_elements_simps [simp]:
  "on_elements []" "on_elements (a @ b) \<longleftrightarrow> on_elements a \<and> on_elements b"
  "on_elements (AddElems n es # ops) \<longleftrightarrow> on_elements ops" "on_elements (DelElems n es # ops) \<longleftrightarrow> on_elements ops"
  "on_elements (FlushSet n # ops) \<longleftrightarrow> on_elements ops"
  by (auto simp: on_elements_def)

lemma add_elems_on: "add_elems nf n es = Inr ops \<Longrightarrow> on_elements ops"
  by (auto simp: add_elems_def split: option.splits)

lemma policy_ops_on: "policy_ops nf egress ip idx = Inr ops \<Longrightarrow> on_elements ops"
  by (auto simp: policy_ops_def dest: add_elems_on split: if_split_asm)

lemma only_adds_on: "only_adds ops \<Longrightarrow> on_elements ops"
  by (induction ops) auto

lemma flush_installed:
  assumes "documented nf" "installed cfg h" "on_elements ops" "nft_flush nf ops h = (e, h')"
  shows "installed cfg h' \<and> h_generation h' = h_generation h \<and> h_links h' = h_links h"
proof (cases e)
  case None
  with flush_documented [OF assms(1)] assms(4) have h': "h' = h\<lparr>h_table := fold apply_op ops (h_table h)\<rparr>" by simp
  show ?thesis
  proof (cases "h_table h")
    case None
    then show ?thesis using h' on_elements_absent [OF assms(3)] by (simp add: installed_def)
  next
    case (Some t)
    show ?thesis
    proof (cases "rulesetGenerationInstalled h")
      case True
      with Some assms(2) have "wf_table cfg (To4 (ParseIP (nc_Gateway cfg))) t" by (simp add: installed_def)
      from on_elements_wf [OF assms(3) this] show ?thesis
        using h' Some by (auto simp: installed_def)
    next
      case False
      then show ?thesis using h' by (simp add: installed_def rulesetGenerationInstalled_def split: option.split)
    qed
  qed
next
  case (Some x)
  with assms show ?thesis by (auto simp: nft_flush_def split: sum.splits)
qed

lemma del_all_installed:
  assumes "documented nf" "installed cfg h" "del_all nf ses h = (es, h')"
  shows "installed cfg h'"
  using assms(2,3)
proof (induction ses arbitrary: h es)
  case (Cons se ses)
  obtain e h2 where del: "del_elem nf se h = (e, h2)" by (cases "del_elem nf se h")
  have "installed cfg h2"
    using del Cons.prems(1) flush_installed [OF assms(1) Cons.prems(1), of "[DelElems (fst se) [snd se]]"]
    by (auto simp: del_elem_def split: option.splits prod.splits)
  with Cons.IH Cons.prems(2) del show ?case by (auto split: prod.splits)
qed simp

lemma recorded_installed:
  assumes "documented nf" "applyBaseRuleset nf cfg h = (None, h')"
  shows "installed cfg (recordRulesetGeneration written h')"
  using apply_installed [OF assms] by (auto simp: installed_def recordRulesetGeneration_def)

lemma apply_failed: "applyBaseRuleset nf cfg h = (Some e, h') \<Longrightarrow> h' = h"
  by (auto simp: applyBaseRuleset_def nft_flush_def Let_def split: option.splits sum.splits if_split_asm)

lemma ensure_keeps:
  assumes "documented nf" "installed cfg h" "ensureRuleset nf written cfg h = (e, h')"
  shows "installed cfg h'"
  using assms recorded_installed [OF assms(1)] apply_failed
  by (fastforce simp: ensureRuleset_def split: option.splits if_split_asm prod.splits)

lemma drop_taps_installed [simp]: "installed cfg (drop_taps running vms h) = installed cfg h"
proof -
  have "h_generation (fold (\<lambda>v h. case vm_Net v of None \<Rightarrow> h | Some n \<Rightarrow> if running v then h else remove_link (vn_Tap n) h) vms h)
      = h_generation h"
    by (induction vms arbitrary: h) (auto simp: remove_link_def split: option.split)
  then have "h_generation (drop_taps running vms h) = h_generation h" by (simp add: drop_taps_def)
  then have "rulesetGenerationInstalled (drop_taps running vms h) = rulesetGenerationInstalled h"
    by (simp add: rulesetGenerationInstalled_def)
  then show ?thesis by (simp only: installed_def drop_taps_table)
qed

lemma reconcile_keeps:
  assumes "documented nf" "installed cfg h" "reconcile nf written cfg listed running h = (e, h')"
  shows "installed cfg h'"
proof -
  obtain e1 h1 where h1: "ensureRuleset nf written cfg h = (e1, h1)" by (cases "ensureRuleset nf written cfg h")
  have inst: "installed cfg h1" by (rule ensure_keeps [OF assms(1,2) h1])
  have on: "on_elements ops" if "for_each 0 (reconcile_step nf g) live flush_sets = Inr ops" for ops g live
  proof -
    have "only_adds (concat (map (vm_adds g) live))" by (simp add: concat_only vm_adds_only)
    then show ?thesis using reconcile_adds [OF that] only_adds_on by (simp add: flush_sets_def)
  qed
  have swept: "installed cfg g'" if "for_each 0 (reconcile_step nf g) live flush_sets = Inr ops"
      "nft_flush nf ops (drop_taps running vms h1) = (e, g')" for g g' live ops e vms
    using flush_installed [OF assms(1) _ on [OF that(1)] that(2)] inst by simp
  show ?thesis
    using assms(3) h1 inst by (auto simp: reconcile_def Let_def intro: swept split: option.splits sum.splits)
qed

lemma links_installed [simp]: "installed cfg (h\<lparr>h_links := ls\<rparr>) = installed cfg h"
proof -
  have "rulesetGenerationInstalled (h\<lparr>h_links := ls\<rparr>) = rulesetGenerationInstalled h"
    by (simp add: rulesetGenerationInstalled_def)
  then show ?thesis by (simp only: installed_def) simp
qed

lemma net_do_installed:
  assumes "documented nf" "installed cfg h"
  shows "installed cfg (snd (net_do nf cfg ev h))"
proof (cases ev)
  case (Install written)
  then show ?thesis
    using assms(2) recorded_installed [OF assms(1)] apply_failed
    by (fastforce simp: net_do_def split: prod.splits option.splits)
next
  case (Ensure written)
  then show ?thesis using ensure_keeps [OF assms] by (cases "ensureRuleset nf written cfg h") (simp add: net_do_def)
next
  case TakeOut
  have "installed cfg h'" if "nft_flush nf (if h_table h \<noteq> None then [DelTable] else []) h = (e, h')" for e h'
  proof (cases e)
    case None
    with flush_documented [OF assms(1)] that
    have "h' = h\<lparr>h_table := fold apply_op (if h_table h \<noteq> None then [DelTable] else []) (h_table h)\<rparr>" by simp
    then have "h_table h' = None" by (cases "h_table h") simp_all
    then show ?thesis by (simp add: installed_def)
  next
    case (Some x)
    with that assms(2) show ?thesis by (auto simp: nft_flush_def split: sum.splits)
  qed
  with TakeOut assms(2) show ?thesis
    by (cases "nft_flush nf (if h_table h \<noteq> None then [DelTable] else []) h")
      (auto simp: net_do_def deleteRuleset_def split: option.splits)
next
  case (Up v)
  then show ?thesis
    using assms(2) flush_installed [OF assms policy_ops_on]
    by (auto simp: net_do_def addVMPolicy_def Let_def split: option.splits sum.splits) (metis prod.collapse)
next
  case (Down v)
  then show ?thesis
    using assms(2) del_all_installed [OF assms]
    by (auto simp: net_do_def removeVMPolicy_def Let_def split: option.splits prod.splits)
next
  case (Sweep written listed running)
  then show ?thesis using reconcile_keeps [OF assms] by (cases "reconcile nf written cfg listed running h") (simp add: net_do_def)
qed (use assms in \<open>simp_all add: net_do_def\<close>, simp add: installed_def)

definition boot_host :: "(string \<times> 32 word) list \<Rightarrow> host" where
  "boot_host links = \<lparr>h_table = None, h_generation = None, h_links = links\<rparr>"

lemma net_run_installed: "documented nf \<Longrightarrow> installed cfg h \<Longrightarrow> installed cfg (net_run nf cfg evs h)"
  unfolding net_run_def by (induction evs arbitrary: h) (simp_all add: net_do_installed)

lemma boot_installed [simp]: "installed cfg (boot_host links)"
  by (simp add: installed_def boot_host_def)

section \<open>Isolation\<close>

text \<open>No two machines share an address or an interface.\<close>

definition collide :: "host \<Rightarrow> vm \<Rightarrow> vm \<Rightarrow> bool" where
  "collide h u v \<longleftrightarrow> (case (place h u, place h v) of
       (Some (i, a), Some (j, b)) \<Rightarrow> i = j \<or> a = b
     | _ \<Rightarrow> False)"

definition apart :: "host \<Rightarrow> vm list \<Rightarrow> bool" where
  "apart h live \<longleftrightarrow> list_all (\<lambda>u. list_all (\<lambda>v. u = v \<or> \<not> collide h u v) live) live"

lemma apartD: "apart h live \<Longrightarrow> u \<in> set live \<Longrightarrow> v \<in> set live \<Longrightarrow> placed h u i a \<Longrightarrow> placed h v j b \<Longrightarrow>
    i = j \<or> a = b \<Longrightarrow> u = v"
  by (fastforce simp: apart_def collide_def placed_def list_all_iff)

lemma forward_allowed:
  assumes "forward_verdict cfg t pk \<noteq> Drop" "taps_has t (pk_iif pk)"
  shows "20 \<le> length (pk_network pk)" "src_has t (pk_iif pk) (saddr pk)" "\<not> taps_has t (pk_oif pk)"
    "\<not> ips_has t (daddr pk)" "egress_has t (saddr pk) (daddr pk)"
  using assms by (auto simp: forward_verdict_def split: if_split_asm)



text \<open>
  Further result. The chain \<open>forward\<close> never looks past the first twenty bytes of the network header. That is the
  whole of an IPv4 header without options; in an IPv6 header it ends inside the source address, so the destination
  of an IPv6 packet is not checked.
\<close>

theorem forward_reads_twenty:
  assumes "length hd20 = 20"
  shows "forward_verdict cfg t (pk\<lparr>pk_network := hd20 @ a\<rparr>) = forward_verdict cfg t (pk\<lparr>pk_network := hd20 @ b\<rparr>)"
  using assms by (simp add: forward_verdict_def established_def)

text \<open>The host of the examples: two machines, the second without egress, and a packet of the first.\<close>

definition example_net :: "string \<Rightarrow> string \<Rightarrow> string list \<Rightarrow> vmNet" where
  "example_net tap ip egress = \<lparr>vn_Tap = tap, vn_IP = ip, vn_Gateway = ''10.64.0.1'', vn_DNS = ''1.1.1.1'',
     vn_MAC = [], vn_Egress = egress, vn_RateMbit = 0, vn_BurstKbit = 0\<rparr>"

definition example_vm :: "string \<Rightarrow> vmNet \<Rightarrow> vm" where
  "example_vm i n = \<lparr>vm_ID = i, vm_Name = i, vm_Boot = bootDirect, vm_CPUs = 1, vm_MemoryMiB = 1024, vm_Kernel = [],
     vm_Initrd = [], vm_Append = [], vm_Backing = [], vm_Firmware = [], vm_GuestInit = True, vm_Net = Some n,
     vm_Disk = [], vm_Cgroup = [], vm_DiskBytes = 0, vm_UID = 0\<rparr>"

definition example_vms :: "vm list" where
  "example_vms = [example_vm ''a'' (example_net ''dvm-a'' ''10.64.0.2'' [''93.184.0.0/16'']),
     example_vm ''b'' (example_net ''dvm-b'' ''10.64.0.3'' [])]"

definition example_netConfig :: netConfig where
  "example_netConfig = \<lparr>nc_Pool = ''10.64.0.0/16'', nc_Gateway = ''10.64.0.1'', nc_Uplink = ''eth0'', nc_DNS = ''1.1.1.1'',
     nc_Suricata = False, nc_Queues = 4, nc_NoDockerCompat = False\<rparr>"

definition example_netfilter :: netfilter where
  "example_netfilter = \<lparr>nf_New = None, nf_List = None, nf_AddSet = (\<lambda>_. None), nf_Elems = (\<lambda>_ _. None),
     nf_Flush = (\<lambda>ops st. Inr (fold apply_op ops st)), nf_Verdict = table_verdict\<rparr>"

definition example_links :: "(string \<times> 32 word) list" where
  "example_links = [(''dvm-a'', 7), (''dvm-b'', 8), (''eth0'', 2)]"

definition example_swept :: host where
  "example_swept = snd (reconcile example_netfilter True example_netConfig (Inr example_vms) (\<lambda>_. True) (boot_host example_links))"

definition example_packet :: "byte \<Rightarrow> bytes \<Rightarrow> packet" where
  "example_packet src dst = \<lparr>pk_iif = 7, pk_oif = 2, pk_oifname = ifname ''eth0'', pk_l4proto = 6, pk_ct = 8,
     pk_network = [0x45, 0, 0, 40, 0, 0, 0, 0, 64, 6, 0, 0, 10, 64, 0, src] @ dst, pk_transport = []\<rparr>"

lemma example_documented: "documented example_netfilter"
  by (simp add: documented_def example_netfilter_def)

lemma example_sweep:
  "reconcile example_netfilter True example_netConfig (Inr example_vms) (\<lambda>_. True)
     (net_run example_netfilter example_netConfig [] (boot_host example_links)) = (None, example_swept)"
proof -
  have "fst (reconcile example_netfilter True example_netConfig (Inr example_vms) (\<lambda>_. True) (boot_host example_links)) = None"
    by code_simp
  then show ?thesis by (simp add: net_run_def example_swept_def prod_eq_iff)
qed



end
