(* ===== verification/Dcl_Alloc.thy ===== *)
theory Dcl_Alloc
  imports Dcl_Cidr
begin

unbundle bit_operations_syntax

text \<open>
  The address a new machine gets: it is free, inside the pool, and the lowest such; and what keeps the addresses
  of all machines distinct.
\<close>

section \<open>The loop\<close>

lemma above_next: "n \<le> x \<Longrightarrow> x \<noteq> n \<Longrightarrow> n + 1 \<le> (x :: 'a::len word)"
  by (rule inc_le) (rule le_neq_trans; simp)

lemma next_above: "n \<le> stop \<Longrightarrow> stop \<noteq> - 1 \<Longrightarrow> n < n + (1 :: 'a::len word)"
  using inc_less_eq_self_iff_eq [of n] by (auto simp: not_le [symmetric] word_order.extremum_unique)

lemma alloc_loop_found:
  assumes "alloc_loop k n stop taken = Some (Some w)" "stop \<noteq> - 1"
  shows "n \<le> w \<and> w \<le> stop \<and> w \<notin> set taken \<and> (\<forall>x. n \<le> x \<and> x < w \<longrightarrow> x \<in> set taken)"
  using assms
proof (induction k n stop taken rule: alloc_loop.induct)
  case (2 k n stop taken)
  show ?case
  proof (cases "n > stop \<or> n \<notin> set taken")
    case True
    with "2.prems" show ?thesis by (auto split: if_split_asm)
  next
    case False
    with 2 have IH: "n + 1 \<le> w" "w \<le> stop" "w \<notin> set taken" "\<forall>x. n + 1 \<le> x \<and> x < w \<longrightarrow> x \<in> set taken"
      by auto
    have "n < n + 1" using False 2 next_above by (auto simp: not_less)
    with IH(1) have "n \<le> w" by simp
    moreover have "x \<in> set taken" if "n \<le> x" "x < w" for x
      using that IH(4) False above_next by (cases "x = n") auto
    ultimately show ?thesis using IH by blast
  qed
qed simp

lemma alloc_loop_rounds:
  assumes "alloc_loop k n stop taken = None" "j < k"
  shows "n + word_of_nat j \<in> set taken"
  using assms
proof (induction k n stop taken arbitrary: j rule: alloc_loop.induct)
  case (2 k n stop taken)
  then have "n \<in> set taken" "alloc_loop k (n + 1) stop taken = None" by (auto split: if_split_asm)
  then show ?case
    using "2.IH" [of "j - 1"] "2.prems" by (cases j) (auto split: if_split_asm simp: add.assoc)
qed simp

text \<open>One round more than there are taken addresses is enough.\<close>

lemma alloc_loop_returns:
  assumes "length taken < 2 ^ 32"
  shows "alloc_loop (length taken + 1) n stop taken \<noteq> None"
proof
  assume none: "alloc_loop (length taken + 1) n stop taken = None"
  let ?f = "\<lambda>j. n + word_of_nat j"
  have inj: "inj_on ?f {..<length taken + 1}"
  proof (rule inj_onI)
    fix i j assume "i \<in> {..<length taken + 1}" "j \<in> {..<length taken + 1}" "?f i = ?f j"
    then have "i < 2 ^ 32" "j < 2 ^ 32" "(word_of_nat i :: 32 word) = word_of_nat j"
      using assms by auto
    then show "i = j" by (simp add: word_of_nat_eq_iff take_bit_nat_eq_self)
  qed
  have "?f ` {..<length taken + 1} \<subseteq> set taken"
    using alloc_loop_rounds [OF none] by auto
  then have "card (?f ` {..<length taken + 1}) \<le> card (set taken)"
    by (intro card_mono) auto
  with inj card_length [of taken] show False by (simp add: card_image)
qed

lemma alloc_loop_full:
  assumes "alloc_loop k n stop taken = Some None" "stop \<noteq> - 1" "n \<le> x" "x \<le> stop"
  shows "x \<in> set taken"
  using assms
proof (induction k n stop taken rule: alloc_loop.induct)
  case (2 k n stop taken)
  show ?case
  proof (cases "x = n")
    case True
    with 2 show ?thesis by (auto split: if_split_asm)
  next
    case False
    with 2 above_next have "n + 1 \<le> x" by blast
    with 2 show ?thesis by (auto split: if_split_asm)
  qed
qed simp

section \<open>The bounds of a pool\<close>

lemma mask_size: "n \<le> 32 \<Longrightarrow> Mask_Size (v4_bytes (NOT (mask (32 - n)))) = (n, 32)"
proof -
  have "list_all (\<lambda>n. Mask_Size (v4_bytes (NOT (mask (32 - n)))) = (n, 32)) [0..<33]"
    by code_simp
  then show "n \<le> 32 \<Longrightarrow> ?thesis" by (simp add: list_all_iff)
qed

lemma base_mask: "(w AND NOT (mask k)) + mask k = (w AND NOT (mask k)) OR (mask k :: 'a::len word)"
  by (rule disjunctive_add) (auto simp: bit_simps)

text \<open>The words between the network address and the broadcast address are the other addresses of the network.\<close>

lemma between_iff:
  fixes w x base :: "32 word"
  assumes base_def: "base = w AND NOT (mask k)" and "0 < k" "k \<le> 32"
  shows "base + 1 \<le> x \<and> x \<le> base + push_bit k 1 - 2 \<longleftrightarrow>
    x AND NOT (mask k) = base \<and> x \<noteq> base \<and> x \<noteq> base OR mask k"
    and "base + push_bit k 1 - 2 \<noteq> - 1"
proof -
  have even: "\<not> bit base 0" "bit (base OR mask k) 0"
    using assms by (simp_all add: base_def bit_simps)
  have ends: "base \<noteq> - 1" "base OR mask k \<noteq> 0"
  proof -
    show "base \<noteq> - 1" using even(1) by auto
    show "base OR mask k \<noteq> 0"
    proof
      assume "base OR mask k = 0"
      with even(2) have "bit (0 :: 32 word) 0" by (simp only:)
      then show False by simp
    qed
  qed
  have "push_bit k 1 - 1 = (mask k :: 32 word)"
    by (simp add: mask_eq_exp_minus_1 push_bit_eq_mult)
  then have "base + push_bit k 1 - 2 = base + mask k - 1"
    by (simp add: algebra_simps)
  also have "base + mask k = base OR mask k"
    unfolding base_def by (rule disjunctive_add) (auto simp: bit_simps)
  finally have stop: "base + push_bit k 1 - 2 = (base OR mask k) - 1" .
  show "base + push_bit k 1 - 2 \<noteq> - 1"
    unfolding stop using ends by (metis add_diff_cancel_right' diff_add_cancel diff_0)
  have "base + 1 \<le> x \<and> x \<le> base + push_bit k 1 - 2 \<longleftrightarrow> base < x \<and> x < base OR mask k"
    unfolding stop using ends by (simp add: inc_less_eq_iff less_eq_dec_iff)
  also have "\<dots> \<longleftrightarrow> x AND NOT (mask k) = base \<and> x \<noteq> base \<and> x \<noteq> base OR mask k"
  proof
    assume a: "base < x \<and> x < base OR mask k"
    then have "w AND NOT (mask k) \<le> x" "x \<le> (w AND NOT (mask k)) OR mask k"
      by (auto simp: base_def)
    from prefix_interval [OF this] a show "x AND NOT (mask k) = base \<and> x \<noteq> base \<and> x \<noteq> base OR mask k"
      by (auto simp: base_def)
  next
    assume a: "x AND NOT (mask k) = base \<and> x \<noteq> base \<and> x \<noteq> base OR mask k"
    then have "base \<le> x" using word_and_le2 [of x "NOT (mask k)"] by simp
    moreover have "x OR mask k = base OR mask k"
      using a by (auto simp: bit_eq_iff bit_simps)
    then have "x \<le> base OR mask k" by (metis le_word_or2)
    ultimately show "base < x \<and> x < base OR mask k"
      using a by (auto simp: order.strict_iff_order)
  qed
  finally show "base + 1 \<le> x \<and> x \<le> base + push_bit k 1 - 2 \<longleftrightarrow>
    x AND NOT (mask k) = base \<and> x \<noteq> base \<and> x \<noteq> base OR mask k" .
qed

section \<open>What is taken\<close>

definition holds_word :: "vm \<Rightarrow> 32 word \<Rightarrow> bool" where
  "holds_word v x \<longleftrightarrow> (case vm_Net v of None \<Rightarrow> False | Some n \<Rightarrow> To4 (ParseIP (vn_IP n)) = v4_bytes x)"

lemma ipToU32_word: "ipToU32 ip = Inr x \<longleftrightarrow> To4 ip = v4_bytes x"
  using To4_word [of ip] by (auto simp: ipToU32_def)

lemma taken_step_set:
  "taken_step i v taken = Inr taken' \<Longrightarrow> set taken' = set taken \<union> {x. holds_word v x}"
  using ipToU32_word by (auto simp: taken_step_def holds_word_def split: option.splits if_split_asm)

lemma taken_set:
  assumes "for_each 0 taken_step vms base = Inr taken"
  shows "set taken = set base \<union> {x. \<exists>v\<in>set vms. holds_word v x}"
  by (rule for_each_invariant [OF assms, of "\<lambda>acc taken. set taken = set base \<union> {x. \<exists>v\<in>set acc. holds_word v x}"])
    (auto dest: taken_step_set)

text \<open>An address a machine may be given.\<close>

definition free_address :: "IPNet \<Rightarrow> string \<Rightarrow> vm list \<Rightarrow> 32 word \<Rightarrow> bool" where
  "free_address net gateway vms x \<longleftrightarrow>
     IPNet_Contains net (v4_bytes x) \<and> v4_bytes x \<noteq> net_IP net \<and>
     v4_bytes x \<noteq> or_bytes (net_IP net) (invert_bytes (net_Mask net)) \<and>
     To4 (ParseIP gateway) \<noteq> v4_bytes x \<and> To4 (ParseIP intproxyAddr) \<noteq> v4_bytes x \<and>
     (\<forall>v\<in>set vms. \<not> holds_word v x)"

lemma four_pool:
  assumes "ParseCIDR pool = Some (ip, net)" "length (net_Mask net) = 4" "net_Mask net \<noteq> replicate 4 0xFF"
  obtains w k where "0 < k" "k \<le> 32" "net = \<lparr>net_IP = v4_bytes (w AND NOT (mask k)), net_Mask = v4_bytes (NOT (mask k))\<rparr>"
    "Mask_Size (net_Mask net) = (32 - k, 32)"
  using assms(1)
proof (cases rule: ParseCIDR_cases)
  case (four w n)
  have "n \<noteq> 32" using assms(3) four by (auto simp: all_ones)
  with four that [of "32 - n" w] mask_size [of n] show ?thesis by simp
qed (use assms(2) in simp)

lemma contains_iff:
  "IPNet_Contains \<lparr>net_IP = v4_bytes (w AND NOT (mask k)), net_Mask = v4_bytes (NOT (mask k))\<rparr> (v4_bytes x) \<longleftrightarrow>
     x AND NOT (mask k) = w AND NOT (mask k)"
  by (auto simp: IPNet_Contains_def)

lemma base_taken:
  assumes "taken_base net (ParseIP gateway) = Inr base"
  shows "{y. To4 (ParseIP gateway) = v4_bytes y} \<subseteq> set base"
    "IPNet_Contains net (v4_bytes x) \<Longrightarrow> x \<in> set base \<longleftrightarrow>
      To4 (ParseIP gateway) = v4_bytes x \<or> To4 (ParseIP intproxyAddr) = v4_bytes x"
proof -
  have addr: "ParseIP intproxyAddr = v4_in_v6 @ v4_bytes 0x0A40FFFE" by code_simp
  have same: "IPNet_Contains net (v4_in_v6 @ v4_bytes y) = IPNet_Contains net (v4_bytes y)" for y
    by (simp add: IPNet_Contains_def)
  obtain g where g: "To4 (ParseIP gateway) = v4_bytes g"
    using assms by (auto simp: taken_base_def Let_def ipToU32_word split: if_split_asm)
  then have "ipToU32 (ParseIP gateway) = Inr g" by (simp add: ipToU32_word)
  with assms g show "{y. To4 (ParseIP gateway) = v4_bytes y} \<subseteq> set base"
    by (auto simp: taken_base_def Let_def split: if_split_asm)
  show "x \<in> set base \<longleftrightarrow> To4 (ParseIP gateway) = v4_bytes x \<or> To4 (ParseIP intproxyAddr) = v4_bytes x"
    if "IPNet_Contains net (v4_bytes x)"
    using assms g that \<open>ipToU32 (ParseIP gateway) = Inr g\<close>
    by (auto simp: taken_base_def Let_def addr same ipToU32_def split: if_split_asm)
qed

lemma taken_length:
  assumes "taken_base net gw = Inr base" "for_each 0 taken_step vms base = Inr taken"
  shows "length taken \<le> length vms + 2"
proof -
  have "length taken \<le> length base + length vms"
    by (rule for_each_invariant [OF assms(2), of "\<lambda>acc taken. length taken \<le> length base + length acc"])
      (auto simp: taken_step_def split: option.splits if_split_asm)
  moreover have "length base \<le> 2"
    using assms(1) by (auto simp: taken_base_def Let_def split: if_split_asm)
  ultimately show ?thesis by simp
qed

lemma taken_errors:
  "for_each i taken_step vms base = Inl e \<Longrightarrow> e = Panic"
  by (induction i taken_step vms base rule: for_each.induct)
    (auto simp: rbind_def taken_step_def ipToU32_def split: sum.splits option.splits if_split_asm)

lemma alloc_cases:
  assumes "ParseCIDR pool = Some (ip, net)" "pool_bounds net = Inr (first, stop)"
  shows "(\<exists>e. allocateIP (Inr vms) pool gateway = Inl e \<and> e \<noteq> NoFreeAddress) \<or>
    (\<exists>base taken. taken_base net (ParseIP gateway) = Inr base \<and> for_each 0 taken_step vms base = Inr taken \<and>
      allocateIP (Inr vms) pool gateway = (case alloc_loop (length taken + 1) first stop taken of
        Some (Some x) \<Rightarrow> Inr (v4_string x) | _ \<Rightarrow> Inl NoFreeAddress))"
proof (cases "ParseIP gateway = [] \<or> \<not> IPNet_Contains net (ParseIP gateway)")
  case True
  then show ?thesis using assms by (auto simp: allocateIP_def)
next
  case gw: False
  show ?thesis
  proof (cases "taken_base net (ParseIP gateway)")
    case (Inl e)
    then have "e = Panic"
      by (auto simp: taken_base_def rbind_def Let_def ipToU32_def split: sum.splits if_split_asm)
    then show ?thesis using gw Inl assms by (simp add: allocateIP_def)
  next
    case base: (Inr base)
    show ?thesis
    proof (cases "for_each 0 taken_step vms base")
      case (Inl e)
      then show ?thesis using gw base assms taken_errors [OF Inl] by (simp add: allocateIP_def)
    next
      case (Inr taken)
      then show ?thesis using gw base assms
        by (simp add: allocateIP_def u32ToIP_def cong: option.case_cong)
    qed
  qed
qed

text \<open>
  Property C18. A machine that asks for any address gets the lowest address of the pool that is neither the network
  nor the broadcast address, the gateway, the integration proxy nor held by another machine; and when the answer is
  that none is left, there is none.
\<close>

theorem allocateIP_lowest_free:
  assumes "ParseCIDR pool = Some (ip, net)" "length (net_Mask net) = 4" "net_Mask net \<noteq> replicate 4 0xFF"
    and "length vms < 2 ^ 32 - 2"
  shows "case allocateIP (Inr vms) pool gateway of
      Inr s \<Rightarrow> (\<exists>x. s = v4_string x \<and> free_address net gateway vms x \<and> (\<forall>y<x. \<not> free_address net gateway vms y))
    | Inl e \<Rightarrow> e = NoFreeAddress \<longrightarrow> (\<forall>y. \<not> free_address net gateway vms y)"
proof -
  obtain w k where k: "0 < k" "k \<le> 32" "net = \<lparr>net_IP = v4_bytes (w AND NOT (mask k)), net_Mask = v4_bytes (NOT (mask k))\<rparr>"
    "Mask_Size (net_Mask net) = (32 - k, 32)"
    using four_pool [OF assms(1-3)] by blast
  define base where "base = w AND NOT (mask k)"
  define stop where "stop = base + push_bit k 1 - 2"
  have bounds: "pool_bounds net = Inr (base + 1, stop)"
    using k by (simp add: pool_bounds_def ipToU32_def base_def stop_def)
  note range = between_iff(1) [OF base_def k(1,2), folded stop_def] and top = between_iff(2) [OF base_def k(1,2), folded stop_def]
  have host: "base + 1 \<le> y \<and> y \<le> stop \<longleftrightarrow> IPNet_Contains net (v4_bytes y) \<and> v4_bytes y \<noteq> net_IP net \<and>
      v4_bytes y \<noteq> or_bytes (net_IP net) (invert_bytes (net_Mask net))" for y
    unfolding range using k by (simp add: contains_iff base_def)
  let ?r = "allocateIP (Inr vms) pool gateway"
  show ?thesis
  proof (cases "\<exists>e. ?r = Inl e \<and> e \<noteq> NoFreeAddress")
    case False
    from False alloc_cases [OF assms(1) bounds, of vms gateway] obtain base0 taken where
      t: "taken_base net (ParseIP gateway) = Inr base0" "for_each 0 taken_step vms base0 = Inr taken"
        "?r = (case alloc_loop (length taken + 1) (base + 1) stop taken of
            Some (Some x) \<Rightarrow> Inr (v4_string x) | _ \<Rightarrow> Inl NoFreeAddress)"
      by blast
    have in_taken: "y \<in> set taken \<longleftrightarrow> To4 (ParseIP gateway) = v4_bytes y \<or> To4 (ParseIP intproxyAddr) = v4_bytes y \<or>
        (\<exists>v\<in>set vms. holds_word v y)" if "base + 1 \<le> y \<and> y \<le> stop" for y
      using base_taken(2) [OF t(1)] taken_set [OF t(2)] that host by blast
    then have free: "free_address net gateway vms y \<longleftrightarrow> base + 1 \<le> y \<and> y \<le> stop \<and> y \<notin> set taken" for y
      using host by (auto simp: free_address_def)
    have "length taken < 2 ^ 32"
      using taken_length [OF t(1,2)] assms(4) by simp
    from alloc_loop_returns [OF this, of "base + 1" stop] consider
      (found) x where "alloc_loop (length taken + 1) (base + 1) stop taken = Some (Some x)"
      | (full) "alloc_loop (length taken + 1) (base + 1) stop taken = Some None"
      by (metis not_None_eq)
    then show ?thesis
    proof cases
      case found
      from alloc_loop_found [OF this top] have x: "base + 1 \<le> x" "x \<le> stop" "x \<notin> set taken"
          "\<forall>y. base + 1 \<le> y \<and> y < x \<longrightarrow> y \<in> set taken" by auto
      then have "free_address net gateway vms x" "\<forall>y<x. \<not> free_address net gateway vms y"
        by (auto simp: free)
      then show ?thesis using t(3) found by auto
    next
      case full
      with alloc_loop_full [OF full top] have "\<not> free_address net gateway vms y" for y
        by (auto simp: free)
      then show ?thesis using t(3) full by simp
    qed
  qed auto
qed

theorem allocateIP_lowest_free_witness:
  "\<exists>net x. v4_string x = ''10.64.0.2'' \<and> free_address net ''10.64.0.1'' [] x \<and> (\<forall>y<x. \<not> free_address net ''10.64.0.1'' [] y)"
proof -
  have alloc: "allocateIP (Inr []) ''10.64.0.0/16'' ''10.64.0.1'' = Inr ''10.64.0.2''"
    by code_simp
  obtain ip net where p: "ParseCIDR ''10.64.0.0/16'' = Some (ip, net)" "length (net_Mask net) = 4"
      "net_Mask net \<noteq> replicate 4 0xFF"
  proof -
    have "case ParseCIDR ''10.64.0.0/16'' of Some (ip, net) \<Rightarrow> length (net_Mask net) = 4 \<and> net_Mask net \<noteq> replicate 4 0xFF | None \<Rightarrow> False"
      by code_simp
    then show thesis by (auto split: option.splits intro: that)
  qed
  from allocateIP_lowest_free [OF p, of "[]" "''10.64.0.1''"] alloc show ?thesis
    by (auto simp: eq_commute [of "''10.64.0.2''"])
qed

section \<open>Reservation\<close>

lemma To4_forms: "To4 a = v4_bytes x \<Longrightarrow> a = v4_bytes x \<or> a = v4_in_v6 @ v4_bytes x"
  using To4_append [of a] by (metis v4_bytes_nonempty)

lemma IP_Equal_v4: "To4 a = v4_bytes x \<Longrightarrow> To4 b = v4_bytes x \<Longrightarrow> IP_Equal a b"
  by (drule To4_forms, drule To4_forms, elim disjE) (simp_all add: IP_Equal_def)

text \<open>An address that was asked for is given only when it is in the pool and nobody else's.\<close>

lemma reserveIP_free:
  assumes "reserveIP (Inr vms) pool gateway want = Inr s" "ParseCIDR pool = Some (ip, net)"
  shows "\<exists>x. s = v4_string x \<and> To4 (ParseIP want) = v4_bytes x \<and> IPNet_Contains net (ParseIP want) \<and>
    To4 (ParseIP gateway) \<noteq> v4_bytes x \<and> To4 (ParseIP intproxyAddr) \<noteq> v4_bytes x \<and>
    (\<forall>v\<in>set vms. \<forall>n. vm_Net v = Some n \<longrightarrow> vn_IP n \<noteq> s)"
proof -
  let ?ip = "ParseIP want"
  from assms have ok: "To4 ?ip \<noteq> []" "IPNet_Contains net ?ip" "\<not> IP_Equal ?ip (ParseIP gateway)"
      "\<not> IP_Equal ?ip (ParseIP intproxyAddr)" "for_each 0 (reserve_check (IP_String ?ip)) vms () = Inr ()" "s = IP_String ?ip"
    by (auto simp: reserveIP_def Let_def split: if_split_asm)
  obtain x where x: "To4 ?ip = v4_bytes x" using To4_word [OF ok(1)] by blast
  have "s = v4_string x"
    using To4_append [OF ok(1)] ok(6) x by (metis IP_String_v4)
  moreover have "vn_IP n \<noteq> s" if "v \<in> set vms" "vm_Net v = Some n" for v n
    using for_each_unit [OF ok(5) that(1)] that(2) ok(6) by (auto simp: reserve_check_def)
  moreover have "To4 (ParseIP gateway) \<noteq> v4_bytes x" "To4 (ParseIP intproxyAddr) \<noteq> v4_bytes x"
    using ok(3,4) IP_Equal_v4 [OF x] by blast+
  ultimately show ?thesis using ok x by blast
qed

section \<open>Machines are created one by one, or not\<close>

lemma alloc_loop_fresh: "alloc_loop k n stop taken = Some (Some w) \<Longrightarrow> w \<notin> set taken"
  by (induction k n stop taken rule: alloc_loop.induct) (auto split: if_split_asm)

lemma allocateIP_unheld:
  assumes "allocateIP (Inr vms) pool gateway = Inr s" "v \<in> set vms" "vm_Net v = Some n"
  shows "vn_IP n \<noteq> s"
proof
  assume eq: "vn_IP n = s"
  obtain ip net where "ParseCIDR pool = Some (ip, net)"
    using assms(1) by (auto simp: allocateIP_def split: option.splits)
  moreover obtain first stop where "pool_bounds net = Inr (first, stop)"
    using assms(1) calculation by (cases "pool_bounds net") (auto simp: allocateIP_def Let_def split: if_split_asm)
  ultimately obtain base taken where t0: "for_each 0 taken_step vms base = Inr taken"
      "Inr s = (case alloc_loop (length taken + 1) first stop taken of
        Some (Some x) \<Rightarrow> Inr (v4_string x) | _ \<Rightarrow> Inl NoFreeAddress)"
    using alloc_cases [of pool ip net first stop vms gateway] assms(1) by auto
  then obtain x where t: "for_each 0 taken_step vms base = Inr taken" "s = v4_string x"
      "alloc_loop (length taken + 1) first stop taken = Some (Some x)"
    by (auto simp del: alloc_loop.simps split: option.splits)
  have "holds_word v x"
    using assms(3) eq t(2) by (simp add: holds_word_def)
  then have "x \<in> set taken"
    using taken_set [OF t(1)] assms(2) by blast
  with alloc_loop_fresh [OF t(3)] show False by blast
qed

lemma choose_net_unheld:
  assumes "choose_net root loaded (Inr vms) vid opts = Inr n" "v \<in> set vms" "vm_Net v = Some m"
  shows "vn_IP m \<noteq> vn_IP n"
proof (cases "no_IP opts = []")
  case True
  then obtain cfg :: netConfig where "allocateIP (Inr vms) (nc_Pool cfg) (nc_Gateway cfg) = Inr (vn_IP n)"
    using assms(1) by (auto simp: choose_net_def split: if_split_asm)
  from allocateIP_unheld [OF this assms(2,3)] show ?thesis .
next
  case False
  then obtain cfg :: netConfig where cfg: "reserveIP (Inr vms) (nc_Pool cfg) (nc_Gateway cfg) (no_IP opts) = Inr (vn_IP n)"
    using assms(1) by (auto simp: choose_net_def split: if_split_asm)
  then obtain ip net where "ParseCIDR (nc_Pool cfg) = Some (ip, net)"
    by (auto simp: reserveIP_def Let_def split: option.splits if_split_asm)
  from reserveIP_free [OF cfg this] assms(2,3) show ?thesis by blast
qed

text \<open>
  A creation chooses an address from the records on disk, and writes its own record only when the machine runs. The
  jobs of the control server each run in a goroutine, and nothing orders them.
\<close>

record fleet =
  fl_disk :: "vm list"
  fl_pending :: "vm list"

datatype fleet_event = Begin vm "netOptions option" | Commit string | Abort string | Remove string

definition saveVM :: "vm \<Rightarrow> vm list \<Rightarrow> vm list" where
  "saveVM v disk = filter (\<lambda>u. vm_ID u \<noteq> vm_ID v) disk @ [v]"

definition fleet_do :: "bool \<Rightarrow> dclient_error + netConfig \<Rightarrow> fleet_event \<Rightarrow> fleet \<Rightarrow> fleet" where
  "fleet_do root loaded ev fl = (case ev of
       Begin v None \<Rightarrow> fl\<lparr>fl_pending := fl_pending fl @ [v\<lparr>vm_Net := None\<rparr>]\<rparr>
     | Begin v (Some opts) \<Rightarrow>
         (case choose_net root loaded (Inr (fl_disk fl)) (vm_ID v) opts of
            Inl _ \<Rightarrow> fl
          | Inr n \<Rightarrow> fl\<lparr>fl_pending := fl_pending fl @ [v\<lparr>vm_Net := Some n\<rparr>]\<rparr>)
     | Commit vid \<Rightarrow>
         (case find (\<lambda>v. vm_ID v = vid) (fl_pending fl) of
            None \<Rightarrow> fl
          | Some v \<Rightarrow> fl\<lparr>fl_disk := saveVM v (fl_disk fl), fl_pending := remove1 v (fl_pending fl)\<rparr>)
     | Abort vid \<Rightarrow> fl\<lparr>fl_pending := filter (\<lambda>v. vm_ID v \<noteq> vid) (fl_pending fl)\<rparr>
     | Remove vid \<Rightarrow> fl\<lparr>fl_disk := filter (\<lambda>v. vm_ID v \<noteq> vid) (fl_disk fl)\<rparr>)"

definition fleet_run :: "bool \<Rightarrow> dclient_error + netConfig \<Rightarrow> fleet_event list \<Rightarrow> fleet" where
  "fleet_run root loaded evs = fold (fleet_do root loaded) evs \<lparr>fl_disk = [], fl_pending = []\<rparr>"

definition addresses :: "vm list \<Rightarrow> string list" where
  "addresses vms = concat (map (\<lambda>v. case vm_Net v of None \<Rightarrow> [] | Some n \<Rightarrow> [vn_IP n]) vms)"

text \<open>No creation begins while another is under way.\<close>

fun one_by_one :: "bool \<Rightarrow> dclient_error + netConfig \<Rightarrow> fleet_event list \<Rightarrow> fleet \<Rightarrow> bool" where
  "one_by_one root loaded [] fl \<longleftrightarrow> True"
| "one_by_one root loaded (ev # evs) fl \<longleftrightarrow>
     (case ev of Begin v opts \<Rightarrow> fl_pending fl = [] | _ \<Rightarrow> True) \<and> one_by_one root loaded evs (fleet_do root loaded ev fl)"

lemma addresses_simps [simp]:
  "addresses [] = []" "addresses (v # vs) = (case vm_Net v of None \<Rightarrow> [] | Some n \<Rightarrow> [vn_IP n]) @ addresses vs"
  "addresses (a @ b) = addresses a @ addresses b"
  by (simp_all add: addresses_def)

lemma addresses_member: "a \<in> set (addresses vms) \<longleftrightarrow> (\<exists>v\<in>set vms. \<exists>n. vm_Net v = Some n \<and> vn_IP n = a)"
proof (induction vms)
  case (Cons v vs)
  then show ?case by (cases "vm_Net v") auto
qed simp

lemma distinct_filter_addresses: "distinct (addresses (vms @ rest)) \<Longrightarrow> distinct (addresses (filter P vms @ rest))"
  by (induction vms) (auto simp: addresses_member split: option.splits)

text \<open>
  Property C27. When creations do not overlap, no two machines of the host have the same address.
\<close>

theorem serial_creations_distinct:
  assumes "one_by_one root loaded evs \<lparr>fl_disk = [], fl_pending = []\<rparr>"
  shows "distinct (addresses (fl_disk (fleet_run root loaded evs)))"
proof -
  have "distinct (addresses (fl_disk fl' @ fl_pending fl'))"
    if "one_by_one root loaded evs fl" "length (fl_pending fl) \<le> 1" "distinct (addresses (fl_disk fl @ fl_pending fl))"
      "fl' = fold (fleet_do root loaded) evs fl" for fl fl' evs
    using that
  proof (induction evs arbitrary: fl)
    case (Cons ev evs)
    let ?g = "fleet_do root loaded ev fl"
    have "length (fl_pending ?g) \<le> 1 \<and> distinct (addresses (fl_disk ?g @ fl_pending ?g))"
    proof (cases ev)
      case (Begin v opts)
      with Cons.prems have none: "fl_pending fl = []" by simp
      show ?thesis
        using Begin none Cons.prems(3) choose_net_unheld
        by (cases opts) (fastforce simp: fleet_do_def addresses_member split: sum.splits)+
    next
      case (Commit vid)
      show ?thesis
      proof (cases "find (\<lambda>v. vm_ID v = vid) (fl_pending fl)")
        case None
        then show ?thesis using Commit Cons.prems by (simp add: fleet_do_def)
      next
        case (Some v)
        with Cons.prems(2) have "fl_pending fl = [v]"
          by (cases "fl_pending fl") (auto split: if_split_asm)
        with Some Commit Cons.prems(3) show ?thesis
          using distinct_filter_addresses [of "fl_disk fl" "[v]"] by (simp add: fleet_do_def saveVM_def)
      qed
    next
      case (Abort vid)
      have "length (filter (\<lambda>v. vm_ID v \<noteq> vid) (fl_pending fl)) \<le> 1"
        using Cons.prems(2) length_filter_le order_trans by blast
      then show ?thesis
        using Abort Cons.prems(2,3) by (cases "fl_pending fl") (auto simp: fleet_do_def split: option.splits)
    next
      case (Remove vid)
      then show ?thesis
        using Cons.prems distinct_filter_addresses by (simp add: fleet_do_def del: addresses_simps)
    qed
    with Cons show ?case by simp
  qed simp
  from this [OF assms] show ?thesis by (simp add: fleet_run_def)
qed

definition example_opts :: netOptions where
  "example_opts = \<lparr>no_IP = [], no_Egress = [], no_EgressAny = True, no_RateMbit = 0, no_BurstKbit = 0\<rparr>"

definition blank_vm :: "string \<Rightarrow> vm" where
  "blank_vm i = \<lparr>vm_ID = i, vm_Name = i, vm_Boot = bootDirect, vm_CPUs = 1, vm_MemoryMiB = 1024, vm_Kernel = [],
     vm_Initrd = [], vm_Append = [], vm_Backing = [], vm_Firmware = [], vm_GuestInit = True, vm_Net = None,
     vm_Disk = [], vm_Cgroup = [], vm_DiskBytes = 0, vm_UID = 0\<rparr>"

definition example_pool :: netConfig where
  "example_pool = \<lparr>nc_Pool = ''10.64.0.0/16'', nc_Gateway = ''10.64.0.1'', nc_Uplink = ''eth0'', nc_DNS = ''1.1.1.1'',
     nc_Suricata = False, nc_Queues = 4, nc_NoDockerCompat = False\<rparr>"

theorem serial_creations_distinct_witness:
  "let ads = addresses (fl_disk (fleet_run True (Inr example_pool) [Begin (blank_vm ''a'') (Some example_opts), Commit ''a'',
     Begin (blank_vm ''b'') (Some example_opts), Commit ''b''])) in distinct ads \<and> ads = [''10.64.0.2'', ''10.64.0.3'']"
proof -
  let ?evs = "[Begin (blank_vm ''a'') (Some example_opts), Commit ''a'', Begin (blank_vm ''b'') (Some example_opts), Commit ''b'']"
  have "one_by_one True (Inr example_pool) ?evs \<lparr>fl_disk = [], fl_pending = []\<rparr>"
    by code_simp
  from serial_creations_distinct [OF this]
  have "distinct (addresses (fl_disk (fleet_run True (Inr example_pool) ?evs)))" .
  moreover have "addresses (fl_disk (fleet_run True (Inr example_pool) ?evs)) = [''10.64.0.2'', ''10.64.0.3'']"
    by code_simp
  ultimately show ?thesis by (simp only: Let_def simp_thms)
qed


end
