(* ===== verification/Dcl_Vm.thy ===== *)
theory Dcl_Vm
  imports Dcl_Alloc
begin

text \<open>
  A virtual machine of a host (\<open>cmd/dclient\<close>: \<open>create.go\<close>, \<open>vm.go\<close>, \<open>uid.go\<close>, \<open>qemu.go\<close>, \<open>guestinit.go\<close>): what a
  request asks for, its creation and start with everything that is undone when a step fails, its size, and the
  command line it boots with. What the operating system and the image tools answer is a parameter.
\<close>

section \<open>Sizes\<close>

definition wrap_int64 :: "int \<Rightarrow> int" where
  "wrap_int64 n = sint (word_of_int n :: 64 word)"

definition size_unit :: "char \<Rightarrow> nat option" where
  "size_unit c =
     (if c \<in> {CHR ''K'', CHR ''k''} then Some 10
      else if c \<in> {CHR ''M'', CHR ''m''} then Some 20
      else if c \<in> {CHR ''G'', CHR ''g''} then Some 30
      else if c \<in> {CHR ''T'', CHR ''t''} then Some 40
      else None)"

text \<open>\<open>n * mult\<close> is a product of 64-bit integers.\<close>

definition parseSize :: "string \<Rightarrow> dclient_error + int" where
  "parseSize text =
     (let s = trim_space text in
      if s = [] then Inr 0
      else case size_unit (last s) of
        None \<Rightarrow>
          if \<not> is_digit (last s) then Inl UnknownUnit
          else (case atoi (trim_space s) of None \<Rightarrow> Inl NotASize | Some n \<Rightarrow> Inr n)
      | Some k \<Rightarrow>
          (case atoi (trim_space (butlast s)) of
             None \<Rightarrow> Inl NotASize
           | Some n \<Rightarrow> Inr (wrap_int64 (n * 2 ^ k))))"

section \<open>Finding a machine\<close>

definition matches_ref :: "string \<Rightarrow> vm \<Rightarrow> bool" where
  "matches_ref ref v \<longleftrightarrow> vm_Name v = ref \<or> has_prefix (vm_ID v) ref"

definition resolveVM :: "(string \<Rightarrow> dclient_error + vm) \<Rightarrow> dclient_error + vm list \<Rightarrow> string \<Rightarrow> dclient_error + vm" where
  "resolveVM loadVM listed text =
     (let ref = trim_space text in
      if ref = [] then Inl NoSuchVM
      else case loadVM ref of
        Inr v \<Rightarrow> Inr v
      | Inl _ \<Rightarrow>
          rbind listed (\<lambda>vms.
            case filter (matches_ref ref) vms of
              [v] \<Rightarrow> Inr v
            | [] \<Rightarrow> Inl NoSuchVM
            | ms \<Rightarrow> Inl (ManyVMs (length ms))))"

section \<open>User ids\<close>

definition uidBase :: int where "uidBase = 2000000"
definition uidCount :: nat where "uidCount = 65536"

fun uid_loop :: "nat \<Rightarrow> int \<Rightarrow> int list \<Rightarrow> (int \<Rightarrow> bool) \<Rightarrow> int option" where
  "uid_loop 0 uid taken known = None"
| "uid_loop (Suc k) uid taken known =
     (if uid \<in> set taken \<or> known uid then uid_loop k (uid + 1) taken known else Some uid)"

definition taken_uids :: "vm list \<Rightarrow> int list" where
  "taken_uids vms = filter (\<lambda>u. u \<noteq> 0) (map vm_UID vms)"

definition allocateUID :: "dclient_error + vm list \<Rightarrow> (int \<Rightarrow> bool) \<Rightarrow> dclient_error + int" where
  "allocateUID listed known =
     rbind listed (\<lambda>vms.
       case uid_loop uidCount uidBase (taken_uids vms) known of
         None \<Rightarrow> Inl NoFreeUID
       | Some u \<Rightarrow> Inr u)"

section \<open>The command line of the guest\<close>

definition ascii_alnum :: "char \<Rightarrow> bool" where
  "ascii_alnum c \<longleftrightarrow> (let n = (of_char c :: int) in 97 \<le> n \<and> n \<le> 122 \<or> 65 \<le> n \<and> n \<le> 90 \<or> 48 \<le> n \<and> n \<le> 57)"

definition guestHostname :: "string \<Rightarrow> string" where
  "guestHostname name =
     (if name = [] \<or> length name > 63 then []
      else if list_all (\<lambda>i. ascii_alnum (name ! i) \<or> name ! i = CHR ''-'' \<and> i > 0 \<and> i + 1 < length name) [0 ..< length name]
      then name else [])"

definition defaultAppend :: "bool \<Rightarrow> string" where
  "defaultAppend arm = ''console='' @ (if arm then ''ttyAMA0'' else ''ttyS0'') @ '' root=/dev/vda rw reboot=k panic=1''"

definition has_param :: "string \<Rightarrow> string \<Rightarrow> bool" where
  "has_param p line \<longleftrightarrow> list_ex (\<lambda>f. has_prefix f p) (Go_Prelude.fields line)"

definition withHostname :: "string \<Rightarrow> string \<Rightarrow> string" where
  "withHostname line name =
     (let h = guestHostname name in
      if h = [] \<or> has_param ''systemd.hostname='' line then line
      else if line = [] then ''systemd.hostname='' @ h
      else line @ '' systemd.hostname='' @ h)"

definition withGuestInit :: "string \<Rightarrow> vm \<Rightarrow> string" where
  "withGuestInit line v =
     (if \<not> vm_GuestInit v \<or> has_param ''init='' line then line
      else let add = [''init=/sbin/dinit''] @ (case vm_Net v of
             None \<Rightarrow> []
           | Some n \<Rightarrow> [''dclient.ip='' @ vn_IP n, ''dclient.gw='' @ vn_Gateway n] @
               (if vn_DNS n \<noteq> [] then [''dclient.dns='' @ vn_DNS n] else []))
        in trim_space (line @ '' '' @ join add '' ''))"

text \<open>\<open>url.PathEscape\<close> keeps the unreserved characters and those a path segment may hold.\<close>

definition hex_upper :: string where
  "hex_upper = ''0123456789ABCDEF''"

definition PathEscape :: "string \<Rightarrow> string" where
  "PathEscape s = concat (map (\<lambda>c.
     if ascii_alnum c \<or> c \<in> set ''-_.~$&+:=@'' then [c]
     else CHR ''%'' # [hex_upper ! (of_char c div 16), hex_upper ! (of_char c mod 16)]) s)"

record GitIdentity =
  gi_Name :: string
  gi_Email :: string

definition withGitIdentity :: "string \<Rightarrow> GitIdentity option \<Rightarrow> string" where
  "withGitIdentity line g = (case g of
       None \<Rightarrow> line
     | Some g \<Rightarrow>
         let add = (if gi_Name g \<noteq> [] then [''dclient.git.name='' @ PathEscape (gi_Name g)] else []) @
                   (if gi_Email g \<noteq> [] then [''dclient.git.email='' @ PathEscape (gi_Email g)] else [])
         in trim_space (line @ '' '' @ join add '' ''))"

section \<open>The command line of the emulator\<close>

definition machineType :: "bool \<Rightarrow> bootMode \<Rightarrow> string \<times> bool" where
  "machineType arm boot =
     (if arm then (''virt'', True) else if boot = bootDirect then (''microvm'', True) else (''q35'', False))"

definition device :: "string \<Rightarrow> bool \<Rightarrow> string" where
  "device base mmio = base @ (if mmio then ''-device'' else ''-pci'')"

text \<open>\<open>dir\<close> is the data directory as \<open>filepath.Join\<close> writes it.\<close>

definition vmDir :: "string \<Rightarrow> string \<Rightarrow> string" where
  "vmDir dir vid = dir @ ''/vms/'' @ vid"

definition vmPath :: "string \<Rightarrow> string \<Rightarrow> string \<Rightarrow> string" where
  "vmPath dir vid f = vmDir dir vid @ ''/'' @ f"

definition qemuArgs :: "bool \<Rightarrow> string \<Rightarrow> vm \<Rightarrow> bool \<Rightarrow> string list" where
  "qemuArgs arm dir v kvm =
     (let (machine, mmio) = machineType arm (vm_Boot v) in
      [''-name'', ''dclient-'' @ vm_ID v, ''-no-user-config'', ''-nodefaults'', ''-display'', ''none'', ''-no-reboot'',
       ''-machine'', machine, ''-smp'', itoa (vm_CPUs v), ''-m'', itoa (vm_MemoryMiB v)] @
      (if kvm then [''-enable-kvm'', ''-cpu'', ''host''] else [''-cpu'', ''max'']) @
      [''-sandbox'', ''on,obsolete=deny,elevateprivileges=deny,spawn=deny,resourcecontrol=deny''] @
      (case vm_Net v of
         None \<Rightarrow> [''-nic'', ''none'']
       | Some n \<Rightarrow> [''-netdev'', ''tap,id=net0,fd=3,vhost=off'',
           ''-device'', device ''virtio-net'' mmio @ '',netdev=net0,mac='' @ vn_MAC n]) @
      (if vm_Firmware v \<noteq> [] then [''-bios'', vm_Firmware v] else []) @
      [''-qmp'', ''unix:'' @ vmPath dir (vm_ID v) ''run/qmp.sock'' @ '',server=on,wait=off'',
       ''-chardev'', ''socket,id=con0,path='' @ vmPath dir (vm_ID v) ''run/console.sock'' @
         '',server=on,wait=off,logfile='' @ vmPath dir (vm_ID v) ''run/console.log'' @ '',logappend=on'',
       ''-serial'', ''chardev:con0'',
       ''-drive'', ''file='' @ vm_Disk v @ '',format=qcow2,if=none,id=root,cache=none'',
       ''-device'', device ''virtio-blk'' mmio @ '',drive=root'',
       ''-device'', device ''virtio-rng'' mmio] @
      (if vm_Boot v = bootDirect
       then [''-kernel'', vm_Kernel v] @ (if vm_Initrd v \<noteq> [] then [''-initrd'', vm_Initrd v] else []) @
            [''-append'', withGuestInit (vm_Append v) v]
       else []))"

section \<open>A request\<close>

record VMSpec =
  sp_Name :: string
  sp_Boot :: string
  sp_Kernel :: string
  sp_Initrd :: string
  sp_Rootfs :: string
  sp_RootfsTar :: string
  sp_RootfsSize :: string
  sp_Disk :: string
  sp_DiskSize :: string
  sp_Append :: string
  sp_Firmware :: string
  sp_CPUs :: int
  sp_Memory :: int
  sp_NoNetwork :: bool
  sp_IP :: string
  sp_Egress :: "string list"
  sp_EgressAny :: bool
  sp_RateMbit :: int
  sp_BurstKbit :: int
  sp_Git :: "GitIdentity option"

definition orDefault :: "string \<Rightarrow> string \<Rightarrow> string" where
  "orDefault v fallback = (if v = [] then fallback else v)"

definition parseBootMode :: "string \<Rightarrow> dclient_error + bootMode" where
  "parseBootMode s = (if s = ''direct'' then Inr bootDirect else if s = ''disk'' then Inr bootDisk else Inl BadBoot)"

text \<open>An artifact is absent when its reference is blank.\<close>

definition no_artifact :: "string \<Rightarrow> bool" where
  "no_artifact ref \<longleftrightarrow> trim_space ref = []"

record plan =
  pl_Boot :: bootMode
  pl_CPUs :: int
  pl_Memory :: int
  pl_Size :: int
  pl_RootfsSize :: int
  pl_Backing :: string
  pl_FromTar :: bool

definition choose_backing :: "bootMode \<Rightarrow> VMSpec \<Rightarrow> dclient_error + (string \<times> bool)" where
  "choose_backing boot req = (case boot of
       bootDirect \<Rightarrow>
         (if no_artifact (sp_Kernel req) then Inl KernelRequired
          else if no_artifact (sp_Rootfs req) = no_artifact (sp_RootfsTar req) then Inl OneRootfs
          else if \<not> no_artifact (sp_Disk req) then Inl DiskNotForDirect
          else if \<not> no_artifact (sp_RootfsTar req) then Inr (sp_RootfsTar req, True)
          else Inr (sp_Rootfs req, False))
     | bootDisk \<Rightarrow>
         (if no_artifact (sp_Disk req) then Inl DiskRequired
          else if \<not> no_artifact (sp_Kernel req) \<or> \<not> no_artifact (sp_Initrd req) \<or> sp_Append req \<noteq> [] then Inl DirectOnly
          else if \<not> no_artifact (sp_Rootfs req) \<or> \<not> no_artifact (sp_RootfsTar req) then Inl UseDisk
          else Inr (sp_Disk req, False)))"

definition create_plan :: "VMSpec \<Rightarrow> dclient_error + plan" where
  "create_plan req =
     rbind (parseBootMode (orDefault (sp_Boot req) ''direct'')) (\<lambda>boot.
       let cpus = (if sp_CPUs req = 0 then 1 else sp_CPUs req);
           memory = (if sp_Memory req = 0 then 1024 else sp_Memory req)
       in if cpus < 1 then Inl BadCPUs
          else if memory < 64 then Inl BadMemory
          else rbind (parseSize (sp_DiskSize req)) (\<lambda>size.
               rbind (parseSize (sp_RootfsSize req)) (\<lambda>rootfsSize.
               rbind (choose_backing boot req) (\<lambda>(backing, fromTar).
                 Inr \<lparr>pl_Boot = boot, pl_CPUs = cpus, pl_Memory = memory, pl_Size = size,
                      pl_RootfsSize = rootfsSize, pl_Backing = backing, pl_FromTar = fromTar\<rparr>))))"

section \<open>Creation\<close>

text \<open>The calls that leave something behind on the host, and those that take it away again, in the order they are made.\<close>

datatype act =
    Mkdir string | Overlay string | NetworkUp vmNet | CgroupUp string | Chown string | Launch string | Save string
  | Stop string | NetworkDown "vmNet option" | CgroupDown string | RemoveDir string | GrowDisk string

type_synonym 'a traced = "act list \<times> (dclient_error + 'a)"

definition tbind :: "'a traced \<Rightarrow> ('a \<Rightarrow> 'b traced) \<Rightarrow> 'b traced" where
  "tbind m f = (case snd m of Inl e \<Rightarrow> (fst m, Inl e) | Inr a \<Rightarrow> let (t, r) = f a in (fst m @ t, r))"

definition quiet :: "dclient_error + 'a \<Rightarrow> 'a traced" where
  "quiet r = ([], r)"

text \<open>A call that is made, and that answers; when it fails, what is to be undone follows.\<close>

definition attempt :: "act \<Rightarrow> dclient_error option \<Rightarrow> act list \<Rightarrow> unit traced" where
  "attempt a r undo = (case r of None \<Rightarrow> ([a], Inr ()) | Some e \<Rightarrow> (a # undo, Inl e))"

record vm_world =
  w_root :: bool
  w_arm :: bool
  w_newID :: "dclient_error + string"
  w_known :: "int \<Rightarrow> bool"
  w_listed :: "dclient_error + vm list"
  w_netConfig :: "dclient_error + netConfig"
  w_resolve :: "string \<Rightarrow> dclient_error + string"
  w_pubKey :: "dclient_error + string"
  w_ext4 :: "string \<Rightarrow> string \<Rightarrow> string \<Rightarrow> int \<Rightarrow> dclient_error + (string \<times> bool)"
  w_mkdir :: "dclient_error option"
  w_unlink :: "dclient_error option"
  w_traverse :: "dclient_error option"
  w_overlay :: "string \<Rightarrow> int \<Rightarrow> dclient_error option"
  w_bringUp :: "vmNet \<Rightarrow> dclient_error option"
  w_cgroup :: "vm \<Rightarrow> dclient_error + string"
  w_chown :: "vm \<Rightarrow> dclient_error option"
  w_qemuLog :: "dclient_error option"
  w_kvm :: bool
  w_openCgroup :: "string \<Rightarrow> dclient_error option"
  w_exec :: "string list \<Rightarrow> bool \<Rightarrow> dclient_error + int"
  w_writePID :: "int \<Rightarrow> dclient_error option"
  w_grace :: "int \<Rightarrow> dclient_error option"
  w_save :: "vm \<Rightarrow> dclient_error option"
  w_diskSize :: "string \<Rightarrow> dclient_error + int"
  w_grow :: "string \<Rightarrow> int \<Rightarrow> dclient_error option"
  w_stop :: "string \<Rightarrow> dclient_error option"
  w_netDown :: "dclient_error option"
  w_cgroupDown :: "dclient_error option"
  w_removeDir :: "dclient_error option"

text \<open>The record before anything is set up, and the images it boots.\<close>

definition first_record :: "vm_world \<Rightarrow> string \<Rightarrow> plan \<Rightarrow> VMSpec \<Rightarrow> string \<Rightarrow> int \<Rightarrow> vm" where
  "first_record w dir pl req vid uid =
     (let name = (if sp_Name req = [] then vid else sp_Name req) in
      \<lparr>vm_ID = vid, vm_Name = name, vm_Boot = pl_Boot pl, vm_CPUs = pl_CPUs pl, vm_MemoryMiB = pl_Memory pl,
       vm_Kernel = [], vm_Initrd = [],
       vm_Append = (if pl_Boot pl = bootDirect
          then withHostname (orDefault (sp_Append req) (defaultAppend (w_arm w))) name else sp_Append req),
       vm_Backing = [], vm_Firmware = sp_Firmware req, vm_GuestInit = False, vm_Net = None,
       vm_Disk = vmPath dir vid ''root.qcow2'', vm_Cgroup = [], vm_DiskBytes = pl_Size pl, vm_UID = uid\<rparr>)"

definition with_images :: "vm_world \<Rightarrow> plan \<Rightarrow> VMSpec \<Rightarrow> vm \<Rightarrow> dclient_error + vm" where
  "with_images w pl req v =
     rbind (w_resolve w (pl_Backing pl)) (\<lambda>backing.
     rbind (if pl_FromTar pl
            then rbind (w_pubKey w) (\<lambda>key.
                 rbind (w_netConfig w) (\<lambda>cfg.
                 rbind (w_ext4 w backing key (resolver cfg) (pl_RootfsSize pl)) (\<lambda>(image, dinit).
                   Inr (v\<lparr>vm_Backing := image, vm_GuestInit := dinit,
                     vm_Append := (if dinit then withGitIdentity (vm_Append v) (sp_Git req) else vm_Append v)\<rparr>))))
            else Inr (v\<lparr>vm_Backing := backing\<rparr>)) (\<lambda>v.
     if pl_Boot pl = bootDirect
     then rbind (w_resolve w (sp_Kernel req)) (\<lambda>kernel.
          let v = v\<lparr>vm_Kernel := kernel\<rparr> in
          if no_artifact (sp_Initrd req) then Inr v
          else rbind (w_resolve w (sp_Initrd req)) (\<lambda>initrd. Inr (v\<lparr>vm_Initrd := initrd\<rparr>)))
     else Inr v))"

definition cleanup :: "string \<Rightarrow> vm \<Rightarrow> act list" where
  "cleanup dir v = [NetworkDown (vm_Net v), CgroupDown (vm_Cgroup v), RemoveDir (vmDir dir (vm_ID v))]"

definition options_of :: "VMSpec \<Rightarrow> netOptions" where
  "options_of req = \<lparr>no_IP = sp_IP req, no_Egress = sp_Egress req, no_EgressAny = sp_EgressAny req,
     no_RateMbit = sp_RateMbit req, no_BurstKbit = sp_BurstKbit req\<rparr>"

text \<open>\<open>setupVMNetwork\<close>: the record has its network before the devices are made.\<close>

definition setup_network :: "vm_world \<Rightarrow> string \<Rightarrow> VMSpec \<Rightarrow> vm \<Rightarrow> vm traced" where
  "setup_network w dir req v =
     (case choose_net (w_root w) (w_netConfig w) (w_listed w) (vm_ID v) (options_of req) of
        Inl e \<Rightarrow> (cleanup dir v, Inl e)
      | Inr n \<Rightarrow>
          let v = v\<lparr>vm_Net := Some n\<rparr> in
          tbind (attempt (NetworkUp n) (w_bringUp w n) (cleanup dir v)) (\<lambda>_. quiet (Inr v)))"

text \<open>A machine without a cgroup runs without limits; one that cannot be started inside it, too.\<close>

definition setup_cgroup :: "vm_world \<Rightarrow> vm \<Rightarrow> vm traced" where
  "setup_cgroup w v = (case w_cgroup w v of
       Inl _ \<Rightarrow> ([], Inr (v\<lparr>vm_Cgroup := []\<rparr>))
     | Inr cg \<Rightarrow> ([CgroupUp cg], Inr (v\<lparr>vm_Cgroup := cg\<rparr>)))"

text \<open>
  \<open>launchVM\<close> answers with the cgroup the record is left with: it is dropped when the emulator cannot be started
  inside it. \<open>w_grace\<close> says what ends the wait for an early exit.
\<close>

definition start_qemu :: "vm_world \<Rightarrow> string list \<Rightarrow> string \<Rightarrow> string \<times> (dclient_error + int)" where
  "start_qemu w args cg =
     (if cg \<noteq> []
      then (case w_exec w args True of Inr pid \<Rightarrow> (cg, Inr pid) | Inl _ \<Rightarrow> ([], w_exec w args False))
      else (cg, w_exec w args False))"

definition launchVM :: "vm_world \<Rightarrow> string \<Rightarrow> vm \<Rightarrow> string \<times> (dclient_error + int)" where
  "launchVM w dir v = (case w_qemuLog w of
       Some e \<Rightarrow> (vm_Cgroup v, Inl e)
     | None \<Rightarrow> (case (if vm_Cgroup v \<noteq> [] then w_openCgroup w (vm_Cgroup v) else None) of
         Some e \<Rightarrow> (vm_Cgroup v, Inl e)
       | None \<Rightarrow> (case start_qemu w (qemuArgs (w_arm w) dir v (w_kvm w)) (vm_Cgroup v) of
           (cg, Inl e) \<Rightarrow> (cg, Inl e)
         | (cg, Inr pid) \<Rightarrow> (case w_writePID w pid of
             Some e \<Rightarrow> (cg, Inl e)
           | None \<Rightarrow> (cg, case w_grace w pid of Some e \<Rightarrow> Inl e | None \<Rightarrow> Inr pid)))))"

definition launch :: "vm_world \<Rightarrow> string \<Rightarrow> vm \<Rightarrow> (vm \<Rightarrow> act list) \<Rightarrow> (int \<times> vm) traced" where
  "launch w dir v undo =
     (let (cg, r) = launchVM w dir v; v = v\<lparr>vm_Cgroup := cg\<rparr> in
      case r of Inl e \<Rightarrow> (Launch (vm_ID v) # undo v, Inl e) | Inr pid \<Rightarrow> ([Launch (vm_ID v)], Inr (pid, v)))"

definition boot_guest :: "vm_world \<Rightarrow> string \<Rightarrow> vm \<Rightarrow> vm traced" where
  "boot_guest w dir v =
     tbind (setup_cgroup w v) (\<lambda>v.
     tbind (attempt (Chown (vm_ID v)) (w_chown w v) (cleanup dir v)) (\<lambda>_.
     tbind (launch w dir v (cleanup dir)) (\<lambda>(pid, v).
     tbind (attempt (Save (vm_ID v)) (w_save w v) (Stop (vm_ID v) # cleanup dir v)) (\<lambda>_.
       quiet (Inr v)))))"

definition provision :: "vm_world \<Rightarrow> string \<Rightarrow> VMSpec \<Rightarrow> int \<Rightarrow> vm \<Rightarrow> vm traced" where
  "provision w dir req bytes v =
     tbind (attempt (Overlay (vm_Disk v)) (w_overlay w (vm_Backing v) bytes) (cleanup dir v)) (\<lambda>_.
     tbind (if sp_NoNetwork req then quiet (Inr v) else setup_network w dir req v) (\<lambda>v.
       boot_guest w dir v))"

definition createVM :: "vm_world \<Rightarrow> string \<Rightarrow> VMSpec \<Rightarrow> vm traced" where
  "createVM w dir req =
     tbind (quiet (create_plan req)) (\<lambda>pl.
     tbind (quiet (w_newID w)) (\<lambda>vid.
     tbind (quiet (if w_root w then allocateUID (w_listed w) (w_known w) else Inr 0)) (\<lambda>uid.
     tbind (quiet (with_images w pl req (first_record w dir pl req vid uid))) (\<lambda>v.
     tbind (attempt (Mkdir (vmPath dir vid ''run'')) (w_mkdir w) []) (\<lambda>_.
     tbind (quiet (if uid \<noteq> 0 then (case w_traverse w of None \<Rightarrow> Inr () | Some e \<Rightarrow> Inl e) else Inr ())) (\<lambda>_.
       provision w dir req (pl_Size pl) v))))))"

text \<open>\<open>growDisk\<close> and \<open>startVM\<close>: a machine that runs is left alone.\<close>

definition growDisk :: "vm_world \<Rightarrow> vm \<Rightarrow> bool traced" where
  "growDisk w v =
     (if vm_DiskBytes v \<le> 0 then quiet (Inr False)
      else tbind (quiet (w_diskSize w (vm_Disk v))) (\<lambda>current.
        if current \<ge> vm_DiskBytes v then quiet (Inr False)
        else tbind (attempt (GrowDisk (vm_Disk v)) (w_grow w (vm_Disk v) (vm_DiskBytes v)) []) (\<lambda>_. quiet (Inr True))))"

definition stop_again :: "vm \<Rightarrow> act list" where
  "stop_again v = [NetworkDown (vm_Net v), CgroupDown (vm_Cgroup v)]"

definition restored_net :: "netConfig \<Rightarrow> string \<Rightarrow> vmNet \<Rightarrow> vmNet" where
  "restored_net cfg vid n =
     (let n = n\<lparr>vn_Gateway := nc_Gateway cfg, vn_DNS := resolver cfg\<rparr> in
      if vn_Tap n = [] then n\<lparr>vn_Tap := tapName vid\<rparr> else n)"

definition restore_network :: "vm_world \<Rightarrow> vm \<Rightarrow> vm traced" where
  "restore_network w v = (case vm_Net v of
       None \<Rightarrow> quiet (Inr v)
     | Some n \<Rightarrow>
         if \<not> w_root w then quiet (Inl NotRoot)
         else tbind (quiet (w_netConfig w)) (\<lambda>cfg.
           let n = restored_net cfg (vm_ID v) n in
           tbind (attempt (NetworkUp n) (w_bringUp w n) []) (\<lambda>_. quiet (Inr (v\<lparr>vm_Net := Some n\<rparr>)))))"

definition startVM :: "vm_world \<Rightarrow> string \<Rightarrow> int \<Rightarrow> vm \<Rightarrow> (int \<times> vm) traced" where
  "startVM w dir pid v =
     (if pid \<noteq> 0 then quiet (Inr (pid, v))
      else tbind (attempt (Mkdir (vmPath dir (vm_ID v) ''run'')) (w_mkdir w) []) (\<lambda>_.
        tbind (quiet (case w_unlink w of None \<Rightarrow> Inr () | Some e \<Rightarrow> Inl e)) (\<lambda>_.
        tbind (growDisk w v) (\<lambda>_.
        tbind (restore_network w v) (\<lambda>v.
        tbind (setup_cgroup w v) (\<lambda>v.
        tbind (attempt (Chown (vm_ID v)) (w_chown w v) (stop_again v)) (\<lambda>_.
        tbind (launch w dir v stop_again) (\<lambda>(pid, v).
        tbind (attempt (Save (vm_ID v)) (w_save w v) (Stop (vm_ID v) # stop_again v)) (\<lambda>_.
          quiet (Inr (pid, v)))))))))))"

section \<open>Size and removal\<close>

record VMResize =
  rz_CPUs :: int
  rz_Memory :: int
  rz_DiskSize :: string
  rz_Kernel :: string

definition resizeVM :: "vm_world \<Rightarrow> vm \<Rightarrow> VMResize \<Rightarrow> vm traced" where
  "resizeVM w v req =
     (if rz_CPUs req < 1 then quiet (Inl BadCPUs)
      else if rz_Memory req < 64 then quiet (Inl BadMemory)
      else tbind (quiet (parseSize (rz_DiskSize req))) (\<lambda>size.
        tbind (quiet (if size > 0 \<and> size \<noteq> vm_DiskBytes v
           then rbind (if vm_DiskBytes v = 0 then w_diskSize w (vm_Disk v) else Inr (vm_DiskBytes v)) (\<lambda>current.
             if size < current then Inl ShrinkDisk else Inr (v\<lparr>vm_DiskBytes := size\<rparr>))
           else Inr v)) (\<lambda>v.
        tbind (quiet (if no_artifact (rz_Kernel req) then Inr v
           else if vm_Boot v \<noteq> bootDirect then Inl DirectOnly
           else rbind (w_resolve w (rz_Kernel req)) (\<lambda>k. Inr (v\<lparr>vm_Kernel := k\<rparr>)))) (\<lambda>v.
        let v = v\<lparr>vm_CPUs := rz_CPUs req, vm_MemoryMiB := rz_Memory req\<rparr> in
        tbind (attempt (Save (vm_ID v)) (w_save w v) []) (\<lambda>_. quiet (Inr v))))))"

definition removeVM :: "vm_world \<Rightarrow> string \<Rightarrow> vm \<Rightarrow> unit traced" where
  "removeVM w dir v =
     tbind (attempt (Stop (vm_ID v)) (w_stop w (vm_ID v)) []) (\<lambda>_.
     tbind (attempt (NetworkDown (vm_Net v)) (w_netDown w) []) (\<lambda>_.
     tbind (attempt (CgroupDown (vm_Cgroup v)) (w_cgroupDown w) []) (\<lambda>_.
       attempt (RemoveDir (vmDir dir (vm_ID v))) (w_removeDir w) [])))"

end
