(* ===== verification/Dcl_Life.thy ===== *)
theory Dcl_Life
  imports Dcl_Vm
begin

text \<open>
  What holds of a virtual machine from its request to its first boot: the sizes and user ids it may be given, the
  kernel command line it boots with, and the state of the host after a creation that failed and one that worked.
\<close>

section \<open>Words of a command line\<close>

lemma fields_Nil [simp]: "Go_Prelude.fields [] = []"
  by (subst Go_Prelude.fields.simps) simp

lemma fields_word:
  assumes "w \<noteq> []" "list_all (\<lambda>c. \<not> is_space c) w"
  shows "Go_Prelude.fields w = [w]"
proof -
  obtain c cs where w: "w = c # cs" using assms(1) by (cases w) auto
  have "dropWhile is_space w = w" using assms(2) w by simp
  moreover have "takeWhile (\<lambda>c. \<not> is_space c) w = w" "dropWhile (\<lambda>c. \<not> is_space c) w = []"
    using assms(2) by (auto simp: list_all_iff takeWhile_eq_all_conv)
  ultimately show ?thesis using w by (subst Go_Prelude.fields.simps) (simp add: Let_def)
qed

lemma fields_step:
  assumes "dropWhile is_space s = t" "t \<noteq> []"
  shows "Go_Prelude.fields s = takeWhile (\<lambda>c. \<not> is_space c) t # Go_Prelude.fields (dropWhile (\<lambda>c. \<not> is_space c) t)"
  using assms by (subst Go_Prelude.fields.simps) (simp only: Let_def if_False)

lemma fields_drop_spaces: "Go_Prelude.fields (dropWhile is_space s) = Go_Prelude.fields s"
  by (subst (1 2) Go_Prelude.fields.simps) simp

lemma fields_space_append:
  assumes "is_space c"
  shows "Go_Prelude.fields (a @ c # b) = Go_Prelude.fields a @ Go_Prelude.fields b"
proof (induction a rule: Go_Prelude.fields.induct)
  case (1 s)
  let ?t = "dropWhile is_space s" and ?n = "\<lambda>c. \<not> is_space c"
  show ?case
  proof (cases "?t = []")
    case True
    have all: "\<forall>x\<in>set s. is_space x" using True by (simp add: dropWhile_eq_Nil_conv)
    have "Go_Prelude.fields s = []" using True by (subst Go_Prelude.fields.simps) simp
    moreover have "dropWhile is_space (s @ c # b) = dropWhile is_space b"
      using all assms by (simp add: dropWhile_append2)
    ultimately show ?thesis by (metis append_Nil fields_drop_spaces)
  next
    case False
    have d: "dropWhile is_space (s @ c # b) = ?t @ c # b"
      using False dropWhile_eq_Nil_conv [of is_space s] by (metis dropWhile_append1)
    have tk: "takeWhile ?n (?t @ c # b) = takeWhile ?n ?t"
      using assms by (simp add: takeWhile_tail)
    have dd: "dropWhile ?n (?t @ c # b) = dropWhile ?n ?t @ c # b"
      using assms by (simp add: dropWhile_append)
    have "Go_Prelude.fields (s @ c # b) = takeWhile ?n ?t # Go_Prelude.fields (dropWhile ?n ?t @ c # b)"
      using fields_step [OF d] unfolding tk dd by simp
    also have "\<dots> = takeWhile ?n ?t # (Go_Prelude.fields (dropWhile ?n ?t) @ Go_Prelude.fields b)"
      using 1 [OF refl] False by simp
    also have "\<dots> = Go_Prelude.fields s @ Go_Prelude.fields b"
      using fields_step [OF refl False] by simp
    finally show ?thesis .
  qed
qed

lemma fields_spaces_end:
  assumes "list_all is_space b"
  shows "Go_Prelude.fields (a @ b) = Go_Prelude.fields a"
proof (cases b)
  case Nil then show ?thesis by simp
next
  case (Cons c b')
  have "Go_Prelude.fields b' = []"
    using assms Cons by (subst Go_Prelude.fields.simps) (auto simp: list_all_iff dropWhile_eq_Nil_conv)
  then show ?thesis using Cons assms by (simp add: fields_space_append)
qed

lemma fields_trim_space [simp]: "Go_Prelude.fields (trim_space s) = Go_Prelude.fields s"
proof -
  let ?t = "dropWhile is_space s"
  have "?t = drop_while_end is_space ?t @ rev (takeWhile is_space (rev ?t))"
    unfolding drop_while_end_def by (metis rev_append rev_rev_ident takeWhile_dropWhile_id)
  moreover have "list_all is_space (rev (takeWhile is_space (rev ?t)))"
    by (auto simp: list_all_iff dest: set_takeWhileD)
  ultimately have "Go_Prelude.fields ?t = Go_Prelude.fields (drop_while_end is_space ?t)"
    by (metis fields_spaces_end)
  then show ?thesis by (simp add: trim_space_def fields_drop_spaces)
qed

lemma fields_join_words:
  assumes "list_all (\<lambda>w. w \<noteq> [] \<and> list_all (\<lambda>c. \<not> is_space c) w) ws"
  shows "Go_Prelude.fields (join ws '' '') = ws"
  using assms
proof (induction ws rule: induct_list012)
  case (3 x y ys)
  have "Go_Prelude.fields (x @ CHR '' '' # join (y # ys) '' '') = Go_Prelude.fields x @ Go_Prelude.fields (join (y # ys) '' '')"
    by (rule fields_space_append) (simp add: is_space_def)
  then show ?case using 3 by (simp add: fields_word)
qed (simp_all add: fields_word)

lemma fields_add_words:
  assumes "list_all (\<lambda>w. w \<noteq> [] \<and> list_all (\<lambda>c. \<not> is_space c) w) ws"
  shows "Go_Prelude.fields (trim_space (line @ '' '' @ join ws '' '')) = Go_Prelude.fields line @ ws"
  using fields_space_append [of "CHR '' ''" line "join ws '' ''"] fields_join_words [OF assms]
  by (simp add: is_space_def)

section \<open>The owner's identity\<close>

lemma hex_upper_no_space:
  assumes "n < 16"
  shows "\<not> is_space (hex_upper ! n)"
proof -
  have "\<forall>c\<in>set hex_upper. \<not> is_space c" by (simp add: hex_upper_def is_space_def)
  moreover have "hex_upper ! n \<in> set hex_upper" using assms by (intro nth_mem) (simp add: hex_upper_def)
  ultimately show ?thesis by blast
qed

lemma ascii_alnum_no_space: "ascii_alnum c \<Longrightarrow> \<not> is_space c"
  by (auto simp: ascii_alnum_def is_space_def Let_def)

lemma PathEscape_words: "list_all (\<lambda>c. \<not> is_space c) (PathEscape s)"
proof -
  have "\<not> is_space (hex_upper ! (of_char c div 16))" "\<not> is_space (hex_upper ! (of_char c mod 16))" for c :: char
    using nat_of_char_less_256 [of c] hex_upper_no_space by (simp_all add: hex_upper_no_space less_mult_imp_div_less)
  moreover have "\<not> is_space c" if "ascii_alnum c \<or> c \<in> set ''-_.~$&+:=@''" for c
    using that ascii_alnum_no_space by (auto simp: is_space_def)
  moreover have "\<not> is_space (CHR ''%'')" by (simp add: is_space_def)
  ultimately show ?thesis
    unfolding PathEscape_def list_all_iff by (auto split: if_splits)
qed

definition git_param :: "string \<Rightarrow> bool" where
  "git_param p \<longleftrightarrow> has_prefix p ''dclient.git.name='' \<or> has_prefix p ''dclient.git.email=''"

text \<open>
  Further result. The name and the address of the owner are put on the kernel's command line, and whatever they hold, the
  words of the line are those it had followed by at most one for each: neither can add a parameter (such as \<open>init=\<close>)
  nor change one that is there.
\<close>

theorem git_identity_adds_no_parameter:
  "\<exists>ps. Go_Prelude.fields (withGitIdentity line g) = Go_Prelude.fields line @ ps \<and> length ps \<le> 2 \<and> list_all git_param ps"
proof (cases g)
  case None
  then show ?thesis by (simp add: withGitIdentity_def exI [of _ "[]"])
next
  case (Some i)
  define ps where "ps = (if gi_Name i \<noteq> [] then [''dclient.git.name='' @ PathEscape (gi_Name i)] else []) @
    (if gi_Email i \<noteq> [] then [''dclient.git.email='' @ PathEscape (gi_Email i)] else [])"
  have "list_all (\<lambda>w. w \<noteq> [] \<and> list_all (\<lambda>c. \<not> is_space c) w) ps"
    using PathEscape_words by (auto simp: ps_def is_space_def)
  from fields_add_words [OF this, of line]
  have "Go_Prelude.fields (withGitIdentity line g) = Go_Prelude.fields line @ ps"
    using Some by (simp add: withGitIdentity_def ps_def Let_def)
  moreover have "list_all git_param ps" "length ps \<le> 2"
    by (auto simp: ps_def git_param_def has_prefix_def)
  ultimately show ?thesis by blast
qed

section \<open>Sizes\<close>

lemma dropWhile_none: "list_all (\<lambda>c. \<not> P c) s \<Longrightarrow> dropWhile P s = s"
  by (cases s) auto

lemma trim_space_word: "list_all (\<lambda>c. \<not> is_space c) s \<Longrightarrow> trim_space s = s"
  by (simp add: trim_space_def drop_while_end_def dropWhile_none)

lemma digit_no_space: "is_digit c \<Longrightarrow> \<not> is_space c"
  by (auto simp: is_digit_def is_space_def)

lemma space_no_unit: "is_space c \<Longrightarrow> size_unit c = None"
  by (auto simp: is_space_def size_unit_def)

lemma parseSize_unit:
  assumes "size_unit c = Some k" "0 \<le> n" "n < 2 ^ 63"
  shows "parseSize (itoa n @ [c]) = Inr (wrap_int64 (n * 2 ^ k))"
proof -
  have c: "\<not> is_space c" using assms(1) space_no_unit [of c] by auto
  have d: "list_all (\<lambda>c. \<not> is_space c) (itoa n)"
    using itoa_digits [OF assms(2)] digit_no_space by (auto simp: list_all_iff)
  have "trim_space (itoa n @ [c]) = itoa n @ [c]" "trim_space (itoa n) = itoa n"
    using c d by (auto intro!: trim_space_word)
  then show ?thesis using assms by (simp add: parseSize_def Let_def atoi_itoa)
qed

lemma wrap_int64_id: "- (2 ^ 63) \<le> n \<Longrightarrow> n < 2 ^ 63 \<Longrightarrow> wrap_int64 n = n"
  unfolding wrap_int64_def by (simp add: sint_sbintrunc' signed_take_bit_int_eq_self)

lemma wrap_int64_mod: "wrap_int64 n mod 2 ^ 64 = n mod 2 ^ 64"
proof -
  have "take_bit 64 (signed_take_bit 63 n) = take_bit 64 n" by (simp add: take_bit_signed_take_bit)
  then have "signed_take_bit 63 n mod 2 ^ 64 = n mod 2 ^ 64" by (simp only: take_bit_eq_mod)
  then show ?thesis by (simp add: wrap_int64_def sint_sbintrunc')
qed

text \<open>
  Property C40. A size written as a number and a unit is that number of bytes as long as it fits in 63 bits; beyond that
  it is the number modulo \<open>2^64\<close>, so that some very large sizes are accepted as small ones, or as none at all.
\<close>

theorem parseSize_bounds:
  assumes "size_unit c = Some k" and "0 \<le> n" and "n < 2 ^ 63"
  shows "\<exists>m. parseSize (itoa n @ [c]) = Inr m \<and> - (2 ^ 63) \<le> m \<and> m < 2 ^ 63 \<and>
    m mod 2 ^ 64 = (n * 2 ^ k) mod 2 ^ 64 \<and> (m = n * 2 ^ k) = (n * 2 ^ k < 2 ^ 63)"
proof -
  define m where "m = wrap_int64 (n * 2 ^ k)"
  have r: "- (2 ^ 63) \<le> m" "m < 2 ^ 63"
    using sint_ge [of "word_of_int (n * 2 ^ k) :: 64 word"] sint_lt [of "word_of_int (n * 2 ^ k) :: 64 word"]
    by (simp_all add: m_def wrap_int64_def)
  have "m mod 2 ^ 64 = (n * 2 ^ k) mod 2 ^ 64"
    unfolding m_def by (rule wrap_int64_mod)
  moreover have "(m = n * 2 ^ k) = (n * 2 ^ k < 2 ^ 63)"
  proof -
    have "0 \<le> n * 2 ^ k" using assms(2) by simp
    then have "n * 2 ^ k < 2 ^ 63 \<Longrightarrow> m = n * 2 ^ k" unfolding m_def by (intro wrap_int64_id) auto
    then show ?thesis using r by auto
  qed
  ultimately show ?thesis
    using parseSize_unit [OF assms] r unfolding m_def [symmetric] by blast
qed

theorem parseSize_bounds_witness:
  "(\<exists>m. parseSize (itoa 10 @ ''G'') = Inr m \<and> m = 10737418240) \<and>
   (\<exists>m. parseSize (itoa 16777216 @ ''T'') = Inr m \<and> m = 0)"
proof -
  have u: "size_unit (CHR ''G'') = Some 30" "size_unit (CHR ''T'') = Some 40" by (simp_all add: size_unit_def)
  from parseSize_bounds [OF u(1), of 10] obtain m where
    m: "parseSize (itoa 10 @ ''G'') = Inr m" "(m = 10 * 2 ^ 30) = ((10 * 2 ^ 30 :: int) < 2 ^ 63)" by auto
  from parseSize_bounds [OF u(2), of 16777216] obtain m' where
    m': "parseSize (itoa 16777216 @ ''T'') = Inr m'" "- (2 ^ 63) \<le> m'" "m' < 2 ^ 63"
      "m' mod 2 ^ 64 = (16777216 * 2 ^ 40) mod 2 ^ 64" by auto
  have "m = 10737418240" using m(2) by simp
  moreover have "m' = 0"
  proof -
    have "2 ^ 64 dvd m'" using m'(4) by (simp add: mod_eq_0_iff_dvd)
    then show ?thesis using dvd_imp_le_int [of m' "2 ^ 64"] m'(2,3) by (cases "m' = 0") simp_all
  qed
  ultimately show ?thesis using m(1) m'(1) by blast
qed

section \<open>User ids\<close>

lemma uid_loop_some:
  "uid_loop k uid taken known = Some u \<Longrightarrow>
     uid \<le> u \<and> u < uid + int k \<and> u \<notin> set taken \<and> \<not> known u \<and> (\<forall>x. uid \<le> x \<longrightarrow> x < u \<longrightarrow> x \<in> set taken \<or> known x)"
proof (induction k uid taken known rule: uid_loop.induct)
  case (2 k uid taken known)
  show ?case
  proof (cases "uid \<in> set taken \<or> known uid")
    case True
    then have i: "uid + 1 \<le> u \<and> u < uid + 1 + int k \<and> u \<notin> set taken \<and> \<not> known u \<and>
      (\<forall>x. uid + 1 \<le> x \<longrightarrow> x < u \<longrightarrow> x \<in> set taken \<or> known x)"
      using 2 by simp
    have "x \<in> set taken \<or> known x" if "uid \<le> x" "x < u" for x
      using i True that by (cases "x = uid") auto
    then show ?thesis using i by auto
  qed (use 2 in auto)
qed simp

lemma uid_loop_none:
  "uid_loop k uid taken known = None \<Longrightarrow> uid \<le> x \<Longrightarrow> x < uid + int k \<Longrightarrow> x \<in> set taken \<or> known x"
proof (induction k uid taken known rule: uid_loop.induct)
  case (2 k uid taken known)
  then show ?case by (cases "x = uid") (auto split: if_splits)
qed simp

lemma uid_loop_Suc: "0 < k \<Longrightarrow> uid_loop k uid taken known =
    (if uid \<in> set taken \<or> known uid then uid_loop (k - 1) (uid + 1) taken known else Some uid)"
  by (cases k) simp_all

lemma allocateUID_range:
  assumes "allocateUID (Inr vms) known = Inr u"
  shows "2000000 \<le> u \<and> u < 2065536 \<and> u \<notin> vm_UID ` set vms \<and> \<not> known u \<and>
    (\<forall>x. 2000000 \<le> x \<longrightarrow> x < u \<longrightarrow> x \<in> vm_UID ` set vms \<or> known x)"
proof -
  have s: "x \<in> set (taken_uids vms) \<longleftrightarrow> x \<in> vm_UID ` set vms" if "2000000 \<le> x" for x
    using that by (auto simp: taken_uids_def)
  have "uid_loop uidCount uidBase (taken_uids vms) known = Some u"
    using assms by (auto simp: allocateUID_def split: option.splits)
  from uid_loop_some [OF this] have l: "2000000 \<le> u \<and> u < 2065536 \<and> u \<notin> set (taken_uids vms) \<and> \<not> known u \<and>
    (\<forall>x. 2000000 \<le> x \<longrightarrow> x < u \<longrightarrow> x \<in> set (taken_uids vms) \<or> known x)"
    by (simp add: uidBase_def uidCount_def)
  then show ?thesis using s by auto
qed

section \<open>Size of a machine that exists\<close>

lemma tbind_Inr:
  assumes "tbind m f = (t, Inr b)"
  obtains t1 a t2 where "m = (t1, Inr a)" "f a = (t2, Inr b)" "t = t1 @ t2"
  using assms by (cases m; cases "snd m") (auto simp: tbind_def split: prod.splits)

lemma tbind_Inl:
  assumes "tbind m f = (t, Inl e)"
  obtains "m = (t, Inl e)" | t1 a t2 where "m = (t1, Inr a)" "f a = (t2, Inl e)" "t = t1 @ t2"
  using assms by (cases m; cases "snd m") (auto simp: tbind_def split: prod.splits)

lemma attempt_simps [simp]:
  "attempt a r u = (t, Inr x) \<longleftrightarrow> r = None \<and> t = [a]"
  "attempt a r u = (t, Inl e) \<longleftrightarrow> r = Some e \<and> t = a # u"
  by (auto simp: attempt_def split: option.splits)

lemma quiet_simps [simp]:
  "quiet r = (t, x) \<longleftrightarrow> t = [] \<and> r = x"
  by (auto simp: quiet_def)

text \<open>
  Further result. A machine that was given a new size has at least one processor and 64 MiB, a disk that is no smaller than
  the one recorded (or, where none was recorded, than the image), and is otherwise the machine it was.
\<close>

theorem resizeVM_bounds:
  assumes "resizeVM w v req = (acts, Inr v')"
  shows "1 \<le> vm_CPUs v' \<and> 64 \<le> vm_MemoryMiB v' \<and> vm_DiskBytes v \<le> vm_DiskBytes v' \<and>
    (vm_DiskBytes v' = vm_DiskBytes v \<or> vm_DiskBytes v \<noteq> 0 \<or>
      (\<exists>n. w_diskSize w (vm_Disk v) = Inr n \<and> n \<le> vm_DiskBytes v')) \<and>
    v' = v\<lparr>vm_CPUs := vm_CPUs v', vm_MemoryMiB := vm_MemoryMiB v', vm_DiskBytes := vm_DiskBytes v', vm_Kernel := vm_Kernel v'\<rparr> \<and>
    acts = [Save (vm_ID v)]"
  using assms unfolding resizeVM_def
  by (auto elim!: tbind_Inr simp: Let_def split: if_splits sum.splits)

section \<open>A creation that fails\<close>

lemma start_qemu_cgroup: "start_qemu w args c = (cg, r) \<Longrightarrow> cg = c \<or> cg = []"
  by (auto simp: start_qemu_def split: if_splits sum.splits)

lemma launchVM_cgroup: "launchVM w dir v = (cg, r) \<Longrightarrow> cg = vm_Cgroup v \<or> cg = []"
  unfolding launchVM_def
  by (drule sym) (auto simp del: vm.simps split: option.splits prod.splits sum.splits dest: start_qemu_cgroup)

lemma launch_eq:
  assumes "launchVM w dir v = (cg, r)"
  shows "launch w dir v undo = (case r of
     Inl e \<Rightarrow> (Launch (vm_ID v) # undo (v\<lparr>vm_Cgroup := cg\<rparr>), Inl e)
   | Inr pid \<Rightarrow> ([Launch (vm_ID v)], Inr (pid, v\<lparr>vm_Cgroup := cg\<rparr>)))"
  unfolding launch_def assms Let_def by (simp split: sum.splits)

lemma launch_Inl:
  assumes "launch w dir v undo = (t, Inl e)"
  obtains cg where "cg = vm_Cgroup v \<or> cg = []" "t = Launch (vm_ID v) # undo (v\<lparr>vm_Cgroup := cg\<rparr>)"
proof -
  obtain cg r where l: "launchVM w dir v = (cg, r)" by fastforce
  show thesis
    using launchVM_cgroup [OF l] assms unfolding launch_eq [OF l]
    by (intro that [of cg]) (simp_all split: sum.splits)
qed

lemma launch_Inr:
  assumes "launch w dir v undo = (t, Inr (pid, v'))"
  obtains cg where "cg = vm_Cgroup v \<or> cg = []" "v' = v\<lparr>vm_Cgroup := cg\<rparr>" "t = [Launch (vm_ID v)]"
proof -
  obtain cg r where l: "launchVM w dir v = (cg, r)" by fastforce
  show thesis
    using launchVM_cgroup [OF l] assms unfolding launch_eq [OF l]
    by (intro that [of cg]) (simp_all split: sum.splits)
qed

text \<open>What a trace may have brought up when it ends with what takes it away.\<close>

definition undone :: "string \<Rightarrow> string \<Rightarrow> act list \<Rightarrow> bool" where
  "undone dir vid acts \<longleftrightarrow> (\<exists>ds n cg.
     acts = ds @ [NetworkDown n, CgroupDown cg, RemoveDir (vmDir dir vid)] \<and>
     (\<forall>m. NetworkUp m \<in> set ds \<longrightarrow> n = Some m) \<and>
     (\<forall>c. CgroupUp c \<in> set ds \<longrightarrow> cg = c \<or> cg = []) \<and>
     (Save vid \<in> set ds \<longrightarrow> Stop vid \<in> set ds))"

lemma undoneI:
  assumes "\<And>m. NetworkUp m \<in> set ds \<Longrightarrow> n = Some m" "\<And>c. CgroupUp c \<in> set ds \<Longrightarrow> cg = c \<or> cg = []"
    and "Save vid \<in> set ds \<Longrightarrow> Stop vid \<in> set ds"
  shows "undone dir vid (ds @ [NetworkDown n, CgroupDown cg, RemoveDir (vmDir dir vid)])"
  unfolding undone_def using assms by blast

lemma undone_Cons:
  assumes "undone dir vid acts" "\<And>m. a \<noteq> NetworkUp m" "\<And>c. a \<noteq> CgroupUp c" "a \<noteq> Save vid"
  shows "undone dir vid (a # acts)"
proof -
  from assms(1) obtain ds n cg where d: "acts = ds @ [NetworkDown n, CgroupDown cg, RemoveDir (vmDir dir vid)]"
    "\<forall>m. NetworkUp m \<in> set ds \<longrightarrow> n = Some m" "\<forall>c. CgroupUp c \<in> set ds \<longrightarrow> cg = c \<or> cg = []"
    "Save vid \<in> set ds \<longrightarrow> Stop vid \<in> set ds"
    unfolding undone_def by blast
  have "undone dir vid ((a # ds) @ [NetworkDown n, CgroupDown cg, RemoveDir (vmDir dir vid)])"
    by (rule undoneI) (use d assms(2-4) in auto)
  then show ?thesis using d(1) by simp
qed

text \<open>The last steps, from the cgroup on.\<close>

lemma setup_cgroup_cases:
  assumes "setup_cgroup w v = (t, r)"
  obtains "t = []" "r = Inr (v\<lparr>vm_Cgroup := []\<rparr>)" | cg where "t = [CgroupUp cg]" "r = Inr (v\<lparr>vm_Cgroup := cg\<rparr>)"
  using assms by (auto simp: setup_cgroup_def split: sum.splits)

lemma setup_network_Inl:
  assumes "setup_network w dir req v = (t, Inl e)"
  obtains "t = cleanup dir v" | n where "t = NetworkUp n # cleanup dir (v\<lparr>vm_Net := Some n\<rparr>)"
  using assms by (auto simp: setup_network_def Let_def elim!: tbind_Inl split: sum.splits)

lemma setup_network_Inr:
  assumes "setup_network w dir req v = (t, Inr v')"
  obtains n where "t = [NetworkUp n]" "v' = v\<lparr>vm_Net := Some n\<rparr>" "w_root w"
    "choose_net (w_root w) (w_netConfig w) (w_listed w) (vm_ID v) (options_of req) = Inr n"
  using assms
  by (auto simp: setup_network_def Let_def choose_net_def elim!: tbind_Inr split: sum.splits if_splits)

lemma boot_guest_Inl:
  assumes "boot_guest w dir v = (t, Inl e)"
  obtains ds cg where "t = ds @ [NetworkDown (vm_Net v), CgroupDown cg, RemoveDir (vmDir dir (vm_ID v))]"
    "\<And>m. NetworkUp m \<notin> set ds" "\<And>c. CgroupUp c \<in> set ds \<Longrightarrow> cg = c \<or> cg = []"
    "Save (vm_ID v) \<in> set ds \<Longrightarrow> Stop (vm_ID v) \<in> set ds"
  using assms unfolding boot_guest_def
proof (cases rule: tbind_Inl)
  case 1
  then show thesis by (cases rule: setup_cgroup_cases) simp_all
next
  case (2 t1 v1 t2)
  have v1: "vm_Net v1 = vm_Net v" "vm_ID v1 = vm_ID v" "t1 = [] \<or> t1 = [CgroupUp (vm_Cgroup v1)]"
    using 2(1) by (cases rule: setup_cgroup_cases; simp)+
  let ?undo = "\<lambda>cg. [NetworkDown (vm_Net v), CgroupDown cg, RemoveDir (vmDir dir (vm_ID v))]"
  have "\<exists>ds cg. t2 = ds @ ?undo cg \<and> (cg = vm_Cgroup v1 \<or> cg = []) \<and>
    set ds \<subseteq> {Chown (vm_ID v), Launch (vm_ID v), Save (vm_ID v), Stop (vm_ID v)} \<and>
    (Save (vm_ID v) \<in> set ds \<longrightarrow> Stop (vm_ID v) \<in> set ds)"
    using 2(2)
  proof (cases rule: tbind_Inl)
    case 1
    then have "t2 = [Chown (vm_ID v)] @ ?undo (vm_Cgroup v1)" using v1 by (simp add: cleanup_def)
    then show ?thesis by (intro exI conjI) auto
  next
    case (2 u1 x u2)
    then have u1: "u1 = [Chown (vm_ID v)]" using v1 by simp
    from 2(2) show ?thesis
    proof (cases rule: tbind_Inl)
      case 1
      from launch_Inl [OF this] obtain cg where c: "cg = vm_Cgroup v1 \<or> cg = []"
        "u2 = Launch (vm_ID v1) # cleanup dir (v1\<lparr>vm_Cgroup := cg\<rparr>)" .
      then have "t2 = [Chown (vm_ID v), Launch (vm_ID v)] @ ?undo cg" using 2(3) u1 v1 by (simp add: cleanup_def)
      then show ?thesis using c(1) by (intro exI conjI) auto
    next
      case (2 s1 pv s2)
      obtain pid v2 where pv: "pv = (pid, v2)" by (cases pv)
      from launch_Inr [OF 2(1) [unfolded pv]] obtain cg where c: "cg = vm_Cgroup v1 \<or> cg = []"
        "v2 = v1\<lparr>vm_Cgroup := cg\<rparr>" "s1 = [Launch (vm_ID v1)]" .
      have "s2 = [Save (vm_ID v), Stop (vm_ID v)] @ ?undo cg"
        using 2(2) c v1 by (auto simp: pv cleanup_def elim!: tbind_Inl)
      then have "t2 = [Chown (vm_ID v), Launch (vm_ID v), Save (vm_ID v), Stop (vm_ID v)] @ ?undo cg"
        using \<open>t2 = u1 @ u2\<close> 2(3) u1 c(3) v1 by simp
      then show ?thesis using c(1) by (intro exI conjI) auto
    qed
  qed
  then obtain ds cg where d: "t2 = ds @ ?undo cg" "cg = vm_Cgroup v1 \<or> cg = []"
    "set ds \<subseteq> {Chown (vm_ID v), Launch (vm_ID v), Save (vm_ID v), Stop (vm_ID v)}"
    "Save (vm_ID v) \<in> set ds \<longrightarrow> Stop (vm_ID v) \<in> set ds" by blast
  show thesis
  proof (rule that)
    show "t = (t1 @ ds) @ ?undo cg" using 2(3) d(1) by simp
  qed (use d v1(3) in auto)
qed

lemma provision_Inl:
  assumes "provision w dir req bytes v = (t, Inl e)" "vm_Cgroup v = []" "vm_Net v = None"
  shows "undone dir (vm_ID v) t"
  using assms(1) unfolding provision_def
proof (cases rule: tbind_Inl)
  case 1
  then have "t = [Overlay (vm_Disk v)] @ [NetworkDown None, CgroupDown [], RemoveDir (vmDir dir (vm_ID v))]"
    using assms(2,3) by (simp add: cleanup_def)
  then show ?thesis by (simp only:) (rule undoneI, auto)
next
  case (2 t1 x t2)
  have t1: "t1 = [Overlay (vm_Disk v)]" using 2(1) by simp
  have "undone dir (vm_ID v) t2" using 2(2)
  proof (cases rule: tbind_Inl)
    case 1
    then have n: "setup_network w dir req v = (t2, Inl e)" by (simp split: if_splits)
    from setup_network_Inl [OF this] consider "t2 = [] @ [NetworkDown None, CgroupDown [], RemoveDir (vmDir dir (vm_ID v))]"
      | n where "t2 = [NetworkUp n] @ [NetworkDown (Some n), CgroupDown [], RemoveDir (vmDir dir (vm_ID v))]"
      using assms(2,3) by (auto simp: cleanup_def)
    then show ?thesis
    proof cases
      case 1 then show ?thesis by (simp only:) (rule undoneI, auto)
    next
      case 2 then show ?thesis by (simp only:) (rule undoneI, auto)
    qed
  next
    case (2 u1 v1 u2)
    have v1: "vm_ID v1 = vm_ID v" "\<And>m. NetworkUp m \<in> set u1 \<Longrightarrow> vm_Net v1 = Some m" "\<And>c. CgroupUp c \<notin> set u1"
      "Save (vm_ID v) \<notin> set u1"
      using 2(1) by (auto split: if_splits elim!: setup_network_Inr)
    from boot_guest_Inl [OF 2(2)] obtain ds cg where
      d: "u2 = ds @ [NetworkDown (vm_Net v1), CgroupDown cg, RemoveDir (vmDir dir (vm_ID v1))]"
      "\<And>m. NetworkUp m \<notin> set ds" "\<And>c. CgroupUp c \<in> set ds \<Longrightarrow> cg = c \<or> cg = []"
      "Save (vm_ID v1) \<in> set ds \<Longrightarrow> Stop (vm_ID v1) \<in> set ds" by blast
    have "undone dir (vm_ID v) ((u1 @ ds) @ [NetworkDown (vm_Net v1), CgroupDown cg, RemoveDir (vmDir dir (vm_ID v))])"
      by (rule undoneI) (use d(2-4) v1 in auto)
    then show ?thesis using 2(3) d(1) v1(1) by simp
  qed
  then show ?thesis using 2(3) t1 by (simp add: undone_Cons)
qed

lemma with_images_keeps:
  assumes "with_images w pl req v = Inr v'"
  shows "vm_ID v' = vm_ID v \<and> vm_Net v' = vm_Net v \<and> vm_Cgroup v' = vm_Cgroup v \<and> vm_UID v' = vm_UID v \<and>
    vm_CPUs v' = vm_CPUs v \<and> vm_MemoryMiB v' = vm_MemoryMiB v \<and> vm_Disk v' = vm_Disk v"
  using assms unfolding with_images_def
  by (auto simp: rbind_def Let_def split: sum.splits if_splits prod.splits)

lemma first_record_fields [simp]:
  "vm_ID (first_record w dir pl req vid uid) = vid" "vm_Net (first_record w dir pl req vid uid) = None"
  "vm_Cgroup (first_record w dir pl req vid uid) = []" "vm_UID (first_record w dir pl req vid uid) = uid"
  "vm_CPUs (first_record w dir pl req vid uid) = pl_CPUs pl"
  "vm_MemoryMiB (first_record w dir pl req vid uid) = pl_Memory pl"
  by (simp_all add: first_record_def Let_def)

text \<open>What \<open>createVM\<close> has done when it comes to \<open>provision\<close>.\<close>

lemma createVM_cases:
  assumes "createVM w dir req = (acts, r)"
  obtains e where "r = Inl e" "acts = [] \<or> (\<exists>vid. acts = [Mkdir (vmPath dir vid ''run'')])"
  | pl vid uid v t where "create_plan req = Inr pl" "w_newID w = Inr vid"
      "(if w_root w then allocateUID (w_listed w) (w_known w) else Inr 0) = Inr uid"
      "with_images w pl req (first_record w dir pl req vid uid) = Inr v"
      "provision w dir req (pl_Size pl) v = (t, r)" "acts = Mkdir (vmPath dir vid ''run'') # t"
proof (cases "create_plan req")
  case (Inl e)
  then show thesis using assms that(1) by (auto simp: createVM_def tbind_def quiet_def)
next
  case pl: (Inr pl)
  show thesis
  proof (cases "w_newID w")
    case (Inl e)
    then show thesis using assms that(1) pl by (auto simp: createVM_def tbind_def quiet_def)
  next
    case vid: (Inr vid)
    show thesis
    proof (cases "if w_root w then allocateUID (w_listed w) (w_known w) else Inr 0")
      case uid: (Inl e)
      then show thesis using assms that(1) pl vid unfolding createVM_def uid by (auto simp: tbind_def quiet_def)
    next
      case uid: (Inr uid)
      show thesis
      proof (cases "with_images w pl req (first_record w dir pl req vid uid)")
        case v: (Inl e)
        then show thesis using assms that(1) pl vid unfolding createVM_def uid by (auto simp: tbind_def quiet_def v)
      next
        case v: (Inr v)
        obtain t r' where p: "provision w dir req (pl_Size pl) v = (t, r')" by fastforce
        consider "\<exists>e. r = Inl e \<and> acts = [Mkdir (vmPath dir vid ''run'')]" | "r = r'" "acts = Mkdir (vmPath dir vid ''run'') # t"
          using assms pl vid p unfolding createVM_def uid
          by (auto simp: tbind_def quiet_def attempt_def v split: option.splits if_splits)
        then show thesis
        proof cases
          case 1 then show thesis using that(1) by blast
        next
          case 2 then show thesis using that(2) [OF pl vid uid v] p by simp
        qed
      qed
    qed
  qed
qed


text \<open>A host on which every call succeeds but the start of the emulator, and a request for a machine on it.\<close>

definition demo_world :: "dclient_error + int \<Rightarrow> vm_world" where
  "demo_world started = \<lparr>w_root = True, w_arm = False, w_newID = Inr ''5f'', w_known = (\<lambda>_. False), w_listed = Inr [],
     w_netConfig = Inr example_pool, w_resolve = Inr, w_pubKey = Inr [], w_ext4 = (\<lambda>i _ _ _. Inr (i, True)),
     w_mkdir = None, w_unlink = None, w_traverse = None, w_overlay = (\<lambda>_ _. None), w_bringUp = (\<lambda>_. None),
     w_cgroup = (\<lambda>_. Inr ''/sys/fs/cgroup/dclient.slice/vm-5f''), w_chown = (\<lambda>_. None), w_qemuLog = None,
     w_kvm = True, w_openCgroup = (\<lambda>_. None), w_exec = (\<lambda>_ _. started), w_writePID = (\<lambda>_. None), w_grace = (\<lambda>_. None),
     w_save = (\<lambda>_. None), w_diskSize = (\<lambda>_. Inr 0), w_grow = (\<lambda>_ _. None), w_stop = (\<lambda>_. None), w_netDown = None,
     w_cgroupDown = None, w_removeDir = None\<rparr>"

definition demo_request :: VMSpec where
  "demo_request = \<lparr>sp_Name = ''web'', sp_Boot = [], sp_Kernel = ''/k'', sp_Initrd = [], sp_Rootfs = ''/r'', sp_RootfsTar = [],
     sp_RootfsSize = [], sp_Disk = [], sp_DiskSize = ''10G'', sp_Append = [], sp_Firmware = [], sp_CPUs = 0, sp_Memory = 0,
     sp_NoNetwork = False, sp_IP = [], sp_Egress = [], sp_EgressAny = True, sp_RateMbit = 0, sp_BurstKbit = 0, sp_Git = None\<rparr>"

definition demo_net :: vmNet where
  "demo_net = \<lparr>vn_Tap = ''dvm-5f'', vn_IP = ''10.64.0.2'', vn_Gateway = ''10.64.0.1'', vn_DNS = resolver example_pool,
     vn_MAC = ''52:54:00:40:00:02'', vn_Egress = [''0.0.0.0/0''], vn_RateMbit = 0, vn_BurstKbit = 0\<rparr>"

lemma example_choose: "choose_net True (Inr example_pool) (Inr []) ''5f'' (options_of demo_request) = Inr demo_net"
  by code_simp

lemma example_uid: "allocateUID (Inr []) (\<lambda>_. False) = Inr 2000000"
  by (simp add: allocateUID_def uidCount_def uidBase_def taken_uids_def uid_loop_Suc)

lemma example_plan: "create_plan demo_request = Inr \<lparr>pl_Boot = bootDirect, pl_CPUs = 1, pl_Memory = 1024, pl_Size = 10737418240,
    pl_RootfsSize = 0, pl_Backing = ''/r'', pl_FromTar = False\<rparr>"
  by code_simp

definition demo_vm :: "string \<Rightarrow> vm" where
  "demo_vm cg = \<lparr>vm_ID = ''5f'', vm_Name = ''web'', vm_Boot = bootDirect, vm_CPUs = 1, vm_MemoryMiB = 1024,
     vm_Kernel = ''/k'', vm_Initrd = [], vm_Append = ''console=ttyS0 root=/dev/vda rw reboot=k panic=1 systemd.hostname=web'',
     vm_Backing = ''/r'', vm_Firmware = [], vm_GuestInit = False, vm_Net = Some demo_net,
     vm_Disk = ''/d/vms/5f/root.qcow2'', vm_Cgroup = cg, vm_DiskBytes = 10737418240, vm_UID = 2000000\<rparr>"

lemma example_images:
  "with_images (demo_world s) \<lparr>pl_Boot = bootDirect, pl_CPUs = 1, pl_Memory = 1024, pl_Size = 10737418240,
     pl_RootfsSize = 0, pl_Backing = ''/r'', pl_FromTar = False\<rparr> demo_request
     (first_record (demo_world s) ''/d'' \<lparr>pl_Boot = bootDirect, pl_CPUs = 1, pl_Memory = 1024, pl_Size = 10737418240,
     pl_RootfsSize = 0, pl_Backing = ''/r'', pl_FromTar = False\<rparr> demo_request ''5f'' 2000000) =
   Inr ((demo_vm [])\<lparr>vm_Net := None\<rparr>)"
  by code_simp

lemma example_createVM:
  "createVM (demo_world s) ''/d'' demo_request =
     (let (t, r) = provision (demo_world s) ''/d'' demo_request 10737418240 ((demo_vm [])\<lparr>vm_Net := None\<rparr>)
      in (Mkdir ''/d/vms/5f/run'' # t, r))"
proof -
  have w: "w_newID (demo_world s) = Inr ''5f''" "w_root (demo_world s)" "w_listed (demo_world s) = Inr []"
    "w_known (demo_world s) = (\<lambda>_. False)" "w_mkdir (demo_world s) = None" "w_traverse (demo_world s) = None"
    by (simp_all add: demo_world_def)
  have d: "vmPath ''/d'' ''5f'' ''run'' = ''/d/vms/5f/run''" by code_simp
  show ?thesis
    unfolding createVM_def example_plan
    by (simp add: tbind_def quiet_def attempt_def w d example_uid example_images)
qed

lemma example_failed: "createVM (demo_world (Inl Running)) ''/d'' demo_request =
   ([Mkdir ''/d/vms/5f/run'', Overlay ''/d/vms/5f/root.qcow2'', NetworkUp demo_net,
     CgroupUp ''/sys/fs/cgroup/dclient.slice/vm-5f'', Chown ''5f'', Launch ''5f'',
     NetworkDown (Some demo_net), CgroupDown [], RemoveDir ''/d/vms/5f''], Inl Running)"
  unfolding example_createVM by code_simp

lemma example_created: "createVM (demo_world (Inr 77)) ''/d'' demo_request =
   ([Mkdir ''/d/vms/5f/run'', Overlay ''/d/vms/5f/root.qcow2'', NetworkUp demo_net,
     CgroupUp ''/sys/fs/cgroup/dclient.slice/vm-5f'', Chown ''5f'', Launch ''5f'', Save ''5f''],
    Inr (demo_vm ''/sys/fs/cgroup/dclient.slice/vm-5f''))"
  unfolding example_createVM by code_simp


theorem resizeVM_bounds_witness:
  "\<exists>v'. resizeVM (demo_world (Inr 77)) (demo_vm [])
       \<lparr>rz_CPUs = 2, rz_Memory = 2048, rz_DiskSize = ''20G'', rz_Kernel = []\<rparr> = ([Save ''5f''], Inr v') \<and>
     vm_DiskBytes v' = 21474836480 \<and> vm_DiskBytes (demo_vm []) \<le> vm_DiskBytes v'"
proof -
  have r: "resizeVM (demo_world (Inr 77)) (demo_vm [])
      \<lparr>rz_CPUs = 2, rz_Memory = 2048, rz_DiskSize = ''20G'', rz_Kernel = []\<rparr> =
    ([Save ''5f''], Inr ((demo_vm [])\<lparr>vm_CPUs := 2, vm_MemoryMiB := 2048, vm_DiskBytes := 21474836480\<rparr>))"
    by code_simp
  from resizeVM_bounds [OF r] show ?thesis unfolding r by simp
qed

section \<open>A creation that works\<close>

lemma boot_guest_Inr:
  assumes "boot_guest w dir v = (t, Inr v')"
  obtains cg cgs where "v' = v\<lparr>vm_Cgroup := cg\<rparr>" "cgs = [] \<or> (\<exists>c. cgs = [CgroupUp c])"
    "t = cgs @ [Chown (vm_ID v), Launch (vm_ID v), Save (vm_ID v)]"
  using assms unfolding boot_guest_def
proof (cases rule: tbind_Inr)
  case (1 t1 v1 t2)
  obtain c where v1: "v1 = v\<lparr>vm_Cgroup := c\<rparr>" "t1 = [] \<or> t1 = [CgroupUp c]"
    using 1(1) by (cases rule: setup_cgroup_cases) auto
  from 1(2) obtain a1 x a2 where a: "attempt (Chown (vm_ID v1)) (w_chown w v1) (cleanup dir v1) = (a1, Inr x)"
    "tbind (launch w dir v1 (cleanup dir)) (\<lambda>(pid, v).
       tbind (attempt (Save (vm_ID v)) (w_save w v) (Stop (vm_ID v) # cleanup dir v)) (\<lambda>_. quiet (Inr v))) = (a2, Inr v')"
    "t2 = a1 @ a2" by (rule tbind_Inr)
  from a(2) obtain s1 pv s2 where l: "launch w dir v1 (cleanup dir) = (s1, Inr pv)"
    "(case pv of (pid, v) \<Rightarrow> tbind (attempt (Save (vm_ID v)) (w_save w v) (Stop (vm_ID v) # cleanup dir v)) (\<lambda>_. quiet (Inr v))) =
       (s2, Inr v')" "a2 = s1 @ s2" by (rule tbind_Inr)
  obtain pid v2 where pv: "pv = (pid, v2)" by (cases pv)
  have e: "s2 = [Save (vm_ID v2)] \<and> v' = v2"
    using l(2) unfolding pv prod.case by (elim tbind_Inr) simp
  have s: "t2 = Chown (vm_ID v1) # s1 @ s2" "launch w dir v1 (cleanup dir) = (s1, Inr (pid, v2))"
    "s2 = [Save (vm_ID v2)]" "v' = v2"
    using a(1,3) l(1,3) pv e by simp_all
  from launch_Inr [OF s(2)] obtain cg where "v2 = v1\<lparr>vm_Cgroup := cg\<rparr>" "s1 = [Launch (vm_ID v1)]" by blast
  then show thesis using that [of cg t1] v1 s 1(3) by auto
qed



end
