(* ===== verification/Ctl_Broker.thy ===== *)
theory Ctl_Broker
  imports Go_Ip Go_Url Go_Crypto
begin

text \<open>
  The broker of the control server (\<open>control\<close>: \<open>integration_token.go\<close>, \<open>gitlab.go\<close>, \<open>llm_broker.go\<close>, \<open>llm_providers.go\<close> and
  the queries of \<open>internal/db\<close> they rest on): which host may ask, which grants a machine has, and the token it gets. The
  tables are lists of rows; \<open>bd_ok\<close> says which query succeeds, by its name and the integration it is about. Minting at
  github, opening a sealed secret and refreshing a login are parameters. A refusal is its status.
\<close>

section \<open>Tables and queries\<close>

record client_row =
  cl_ID :: string
  cl_TokenHash :: string
  cl_Revoked :: bool

record machine_row =
  ma_ID :: string
  ma_Client :: string
  ma_VMID :: string
  ma_IP :: string
  ma_Name :: string
  ma_Status :: string
  ma_Owner :: "string option"

record integration_row =
  ir_ID :: string
  ir_Kind :: string
  ir_Name :: string
  ir_AllRepos :: bool
  ir_Readonly :: bool
  ir_Installation :: string
  ir_GitLab :: string
  ir_Owner :: "string option"
  ir_TokenEnc :: bytes
  ir_CreatedAt :: int

record installation_row =
  in_ID :: string
  in_InstallationID :: int
  in_Account :: string
  in_Suspended :: bool

record gitlab_row =
  gl_ID :: string
  gl_Name :: string
  gl_BaseURL :: string

record key_row =
  ke_Provider :: string
  ke_Plan :: string
  ke_Owner :: "string option"
  ke_Enc :: bytes

record broker_db =
  bd_ok :: "string \<Rightarrow> string \<Rightarrow> bool"
  bd_clients :: "client_row list"
  bd_machines :: "machine_row list"
  bd_attached :: "(string \<times> string) list"
  bd_integrations :: "integration_row list"
  bd_installations :: "installation_row list"
  bd_gitlabs :: "gitlab_row list"
  bd_repos :: "(string \<times> string \<times> string) list"
  bd_scope :: "(string \<times> string \<times> string \<times> string) list"
  bd_keys :: "key_row list"

text \<open>The machines that a host and an address name; the queries do not ask whether a machine is gone.\<close>

definition machines_at :: "broker_db \<Rightarrow> string \<Rightarrow> string \<Rightarrow> machine_row list" where
  "machines_at db client ip = filter (\<lambda>v. ma_Client v = client \<and> ma_IP v = ip) (bd_machines db)"

text \<open>What a host no longer reports is marked gone, and keeps its address.\<close>

definition mark_missing :: "string \<Rightarrow> string list \<Rightarrow> machine_row \<Rightarrow> machine_row" where
  "mark_missing client vm_ids v =
     (if ma_Client v = client \<and> ma_VMID v \<noteq> [] \<and> ma_Status v \<in> {''running'', ''stopped''} \<and> ma_VMID v \<notin> set vm_ids
      then v\<lparr>ma_Status := ''gone''\<rparr> else v)"

definition MarkMissingVMsGone :: "string \<Rightarrow> string list \<Rightarrow> broker_db \<Rightarrow> broker_db" where
  "MarkMissingVMsGone client vm_ids db = db\<lparr>bd_machines := map (mark_missing client vm_ids) (bd_machines db)\<rparr>"

definition attached_integrations :: "broker_db \<Rightarrow> string \<Rightarrow> machine_row \<Rightarrow> integration_row list" where
  "attached_integrations db kind v =
     filter (\<lambda>i. ir_Kind i = kind \<and> (ma_ID v, ir_ID i) \<in> set (bd_attached db)) (bd_integrations db)"

record grant_row =
  gr_Integration :: integration_row
  gr_Installation :: installation_row
  gr_Machine :: machine_row

definition ListIntegrationGrantsForVM :: "broker_db \<Rightarrow> string \<Rightarrow> string \<Rightarrow> string \<Rightarrow> grant_row list" where
  "ListIntegrationGrantsForVM db kind client ip =
     sort_key (\<lambda>g. ir_Name (gr_Integration g))
       [\<lparr>gr_Integration = i, gr_Installation = n, gr_Machine = v\<rparr>.
          v \<leftarrow> machines_at db client ip, i \<leftarrow> attached_integrations db kind v, n \<leftarrow> bd_installations db,
          in_ID n = ir_Installation i]"

definition same_repo :: "string \<Rightarrow> string \<Rightarrow> string \<Rightarrow> string \<Rightarrow> bool" where
  "same_repo owner name owner' name' \<longleftrightarrow> to_lower owner = to_lower owner' \<and> to_lower name = to_lower name'"

definition FindIntegrationRepo :: "broker_db \<Rightarrow> string \<Rightarrow> string \<Rightarrow> string \<Rightarrow> string option" where
  "FindIntegrationRepo db integ owner name =
     map_option (\<lambda>(_, _, n). n) (find (\<lambda>(i, o', n). i = integ \<and> same_repo o' n owner name) (bd_repos db))"

definition scope_of :: "broker_db \<Rightarrow> string \<Rightarrow> string \<Rightarrow> (string \<times> string) list" where
  "scope_of db v integ = [(o', n). (v', i, o', n) \<leftarrow> bd_scope db, v' = v \<and> i = integ]"

definition VMIntegrationAllowsRepo :: "broker_db \<Rightarrow> string \<Rightarrow> string \<Rightarrow> string \<Rightarrow> string \<Rightarrow> bool" where
  "VMIntegrationAllowsRepo db v integ owner name \<longleftrightarrow>
     scope_of db v integ = [] \<or> list_ex (\<lambda>(o', n). same_repo o' n owner name) (scope_of db v integ)"

definition ListVMIntegrationRepos :: "broker_db \<Rightarrow> string \<Rightarrow> string \<Rightarrow> string list" where
  "ListVMIntegrationRepos db v integ = map snd (sort_key fst (sort_key snd (scope_of db v integ)))"

section \<open>The calling host\<close>

definition authClient :: "broker_db \<Rightarrow> string \<Rightarrow> int + client_row" where
  "authClient db authorization =
     (let raw = (if has_prefix authorization ''Bearer '' then drop 7 authorization else []) in
      if raw = [] then Inl 401
      else if \<not> bd_ok db ''GetClientByTokenHash'' [] then Inl 500
      else case find (\<lambda>c. cl_TokenHash c = hex_encode (sha256 (to_bytes raw))) (bd_clients db) of
        None \<Rightarrow> Inl 401
      | Some c \<Rightarrow> if cl_Revoked c then Inl 401 else Inr c)"

section \<open>The decision on a github grant\<close>

text \<open>The regular expression \<open>^[A-Za-z0-9][A-Za-z0-9._-]{0,99}$\<close>.\<close>

definition github_alnum :: "char \<Rightarrow> bool" where
  "github_alnum c \<longleftrightarrow> (let n = (of_char c :: int) in 97 \<le> n \<and> n \<le> 122 \<or> 65 \<le> n \<and> n \<le> 90 \<or> 48 \<le> n \<and> n \<le> 57)"

definition githubNameRe :: "string \<Rightarrow> bool" where
  "githubNameRe s \<longleftrightarrow> s \<noteq> [] \<and> length s \<le> 100 \<and> github_alnum (hd s) \<and> list_all (\<lambda>c. github_alnum c \<or> c \<in> set ''._-'') (tl s)"

record grantDecision =
  de_InstallationID :: int
  de_InstallationPK :: string
  de_IntegrationName :: string
  de_Account :: string
  de_VMName :: string
  de_Repos :: "string list"

text \<open>One grant of the loop: it is passed over, with what it shows for the refusal, or taken.\<close>

datatype consideration = PassOver | Suspended | ReadOnly | OutOfScope | Take grantDecision

definition decision :: "grant_row \<Rightarrow> string list \<Rightarrow> grantDecision" where
  "decision g repos =
     \<lparr>de_InstallationID = in_InstallationID (gr_Installation g), de_InstallationPK = in_ID (gr_Installation g),
      de_IntegrationName = ir_Name (gr_Integration g), de_Account = in_Account (gr_Installation g),
      de_VMName = ma_Name (gr_Machine g), de_Repos = repos\<rparr>"

definition reposForAttachment :: "broker_db \<Rightarrow> grant_row \<Rightarrow> string list" where
  "reposForAttachment db g =
     (if bd_ok db ''ListVMIntegrationRepos'' (ir_ID (gr_Integration g))
      then ListVMIntegrationRepos db (ma_ID (gr_Machine g)) (ir_ID (gr_Integration g)) else [])"

definition named_repo :: "broker_db \<Rightarrow> string \<Rightarrow> string \<Rightarrow> grant_row \<Rightarrow> consideration" where
  "named_repo db owner repo g =
     (let i = gr_Integration g; v = ma_ID (gr_Machine g);
          covered = (if ir_AllRepos i then Some repo
                     else if bd_ok db ''FindIntegrationRepo'' (ir_ID i) then FindIntegrationRepo db (ir_ID i) owner repo else None)
      in case covered of
        None \<Rightarrow> PassOver
      | Some canonical \<Rightarrow>
          if \<not> bd_ok db ''CountVMIntegrationRepos'' (ir_ID i) then PassOver
          else if length (scope_of db v (ir_ID i)) = 0 then OutOfScope
          else if \<not> bd_ok db ''VMIntegrationAllowsRepo'' (ir_ID i) then PassOver
          else if \<not> VMIntegrationAllowsRepo db v (ir_ID i) owner repo then OutOfScope
          else Take (decision g [canonical]))"

definition consider_grant :: "broker_db \<Rightarrow> string \<Rightarrow> string \<Rightarrow> bool \<Rightarrow> grant_row \<Rightarrow> consideration" where
  "consider_grant db owner repo wr g =
     (if in_Suspended (gr_Installation g) then Suspended
      else if wr \<and> ir_Readonly (gr_Integration g) then ReadOnly
      else if repo \<noteq> [] then named_repo db owner repo g
      else let repos = reposForAttachment db g in if repos = [] then PassOver else Take (decision g repos))"

fun first_taken :: "consideration list \<Rightarrow> grantDecision option" where
  "first_taken [] = None"
| "first_taken (Take d # cs) = Some d"
| "first_taken (c # cs) = first_taken cs"

definition pickGrant :: "broker_db \<Rightarrow> grant_row list \<Rightarrow> string \<Rightarrow> string \<Rightarrow> bool \<Rightarrow> int + grantDecision" where
  "pickGrant db grants owner repo wr =
     (if grants = [] then Inl 403
      else let cs = map (consider_grant db owner repo wr) grants in
        case first_taken cs of
          Some d \<Rightarrow> Inr d
        | None \<Rightarrow> if list_all (\<lambda>c. c = Suspended) cs then Inl 409 else Inl 403)"

section \<open>The other sources\<close>

record token_response =
  tr_Token :: string
  tr_Account :: string
  tr_Upstream :: string
  tr_Meter :: string

definition gitlabTokenAAD :: "string option \<Rightarrow> string \<Rightarrow> bytes" where
  "gitlabTokenAAD owner inst = to_bytes (''gitlab|'' @ (case owner of None \<Rightarrow> [] | Some u \<Rightarrow> u) @ ''|'' @ inst)"

definition ListGitLabGrantsForVM :: "broker_db \<Rightarrow> string \<Rightarrow> string \<Rightarrow> gitlab_row \<Rightarrow> integration_row list" where
  "ListGitLabGrantsForVM db client ip g =
     sort_key ir_Readonly (sort_key ir_CreatedAt
       [i. v \<leftarrow> machines_at db client ip, i \<leftarrow> attached_integrations db ''gitlab'' v,
           ir_GitLab i = gl_ID g \<and> ir_Owner i \<noteq> None \<and> ir_Owner i = ma_Owner v])"

definition gitlabToken ::
  "(bytes \<Rightarrow> bytes \<Rightarrow> string option) option \<Rightarrow> broker_db \<Rightarrow> client_row \<Rightarrow> gitlab_row \<Rightarrow> string \<Rightarrow> bool \<Rightarrow> int + token_response" where
  "gitlabToken sealer db client g ip wr =
     (case sealer of
        None \<Rightarrow> Inl 503
      | Some open' \<Rightarrow>
          if \<not> bd_ok db ''ListGitLabGrantsForVM'' [] then Inl 500
          else case find (\<lambda>i. \<not> (wr \<and> ir_Readonly i)) (ListGitLabGrantsForVM db (cl_ID client) ip g) of
            None \<Rightarrow> Inl 403
          | Some i \<Rightarrow>
              (case open' (ir_TokenEnc i) (gitlabTokenAAD (ir_Owner i) (gl_ID g)) of
                 None \<Rightarrow> Inl 500
               | Some token \<Rightarrow> Inr \<lparr>tr_Token = token, tr_Account = [], tr_Upstream = gl_BaseURL g, tr_Meter = []\<rparr>))"

text \<open>The providers of language models: their plans with the address of each format.\<close>

record llmPlan =
  pl_ID :: string
  pl_OpenAIBase :: string
  pl_AnthropicBase :: string
  pl_ResponsesBase :: string

definition base :: "llmPlan \<Rightarrow> string \<Rightarrow> string" where
  "base p format =
     (if format = ''openai'' then pl_OpenAIBase p else if format = ''anthropic'' then pl_AnthropicBase p
      else if format = ''responses'' then pl_ResponsesBase p else [])"

record llmProvider =
  lp_ID :: string
  lp_Device :: bool
  lp_Plans :: "llmPlan list"

definition llmProviders :: "llmProvider list" where
  "llmProviders =
     [\<lparr>lp_ID = ''zai'', lp_Device = False, lp_Plans =
         [\<lparr>pl_ID = ''api'', pl_OpenAIBase = ''https://api.z.ai/api/paas/v4'', pl_AnthropicBase = ''https://api.z.ai/api/anthropic'', pl_ResponsesBase = []\<rparr>,
          \<lparr>pl_ID = ''coding'', pl_OpenAIBase = ''https://api.z.ai/api/coding/paas/v4'', pl_AnthropicBase = ''https://api.z.ai/api/anthropic'', pl_ResponsesBase = []\<rparr>]\<rparr>,
      \<lparr>lp_ID = ''chatgpt'', lp_Device = True, lp_Plans =
         [\<lparr>pl_ID = ''subscription'', pl_OpenAIBase = [], pl_AnthropicBase = [], pl_ResponsesBase = ''https://chatgpt.com/backend-api/codex''\<rparr>]\<rparr>]"

definition llmPlanFor :: "string \<Rightarrow> string \<Rightarrow> llmPlan option" where
  "llmPlanFor provider plan = find (\<lambda>pl. pl_ID pl = plan) (concat (map lp_Plans (filter (\<lambda>p. lp_ID p = provider) llmProviders)))"

definition llmUsesDevice :: "string \<Rightarrow> bool" where
  "llmUsesDevice provider = (case find (\<lambda>p. lp_ID p = provider) llmProviders of None \<Rightarrow> False | Some p \<Rightarrow> lp_Device p)"

text \<open>The regular expression \<open>^([a-z0-9]+)(@global)?/(openai|anthropic|responses)$\<close>, with its groups.\<close>

definition llmResourceRe :: "string \<Rightarrow> (string \<times> bool \<times> string) option" where
  "llmResourceRe s = (case cut s ''/'' of
       None \<Rightarrow> None
     | Some (source', format) \<Rightarrow>
         let glob = has_suffix source' ''@global''; provider = trim_suffix source' ''@global'' in
         if provider \<noteq> [] \<and> list_all (\<lambda>c. is_digit c \<or> (97 \<le> (of_char c :: int) \<and> (of_char c :: int) \<le> 122)) provider \<and>
            format \<in> {''openai'', ''anthropic'', ''responses''}
         then Some (provider, glob, format) else None)"

definition llmKeyAAD :: "string \<Rightarrow> string option \<Rightarrow> bytes" where
  "llmKeyAAD provider owner = to_bytes (provider @ ''|'' @ (case owner of None \<Rightarrow> ''global'' | Some u \<Rightarrow> u))"

definition ListLLMKeysForVM :: "broker_db \<Rightarrow> string \<Rightarrow> string \<Rightarrow> (key_row \<times> machine_row) list" where
  "ListLLMKeysForVM db client ip =
     sort_key (\<lambda>(k, v). ke_Owner k = None) (sort_key (\<lambda>(k, v). ke_Provider k)
       [(k, v). v \<leftarrow> machines_at db client ip, k \<leftarrow> bd_keys db,
          ke_Owner k = None \<or> ke_Owner k = ma_Owner v])"

definition llmToken ::
  "(bytes \<Rightarrow> bytes \<Rightarrow> string option) option \<Rightarrow> (key_row \<Rightarrow> int + (string \<times> string)) \<Rightarrow> broker_db \<Rightarrow> client_row \<Rightarrow>
   string \<Rightarrow> string \<Rightarrow> int + token_response" where
  "llmToken sealer chatgptAccess db client ip resource =
     (case sealer of
        None \<Rightarrow> Inl 503
      | Some open' \<Rightarrow>
          (case llmResourceRe resource of
             None \<Rightarrow> Inl 400
           | Some (provider, glob, format) \<Rightarrow>
               if \<not> bd_ok db ''ListLLMKeysForVM'' [] then Inl 500
               else case find (\<lambda>(k, v). ke_Provider k = provider \<and> (ke_Owner k = None) = glob) (ListLLMKeysForVM db (cl_ID client) ip) of
                 None \<Rightarrow> Inl 403
               | Some (k, v) \<Rightarrow>
                   (case llmPlanFor (ke_Provider k) (ke_Plan k) of
                      None \<Rightarrow> Inl 403
                    | Some plan \<Rightarrow>
                        if base plan format = [] then Inl 403
                        else rbind (if llmUsesDevice (ke_Provider k) then chatgptAccess k
                                    else case open' (ke_Enc k) (llmKeyAAD (ke_Provider k) (if ke_Owner k = None then None else ma_Owner v)) of
                                      None \<Rightarrow> Inl 500 | Some key \<Rightarrow> Inr (key, [])) (\<lambda>(token, account).
                          Inr \<lparr>tr_Token = token, tr_Account = account, tr_Upstream = base plan format,
                               tr_Meter = (case ma_Owner v of
                                  None \<Rightarrow> []
                                | Some u \<Rightarrow> if glob then u @ ''/'' @ ma_ID v @ ''/'' @ provider else [])\<rparr>))))"

section \<open>The handler\<close>

text \<open>What minting at github answers with: a status of github with whether it asks to retry later, or no answer.\<close>

datatype mint_error = GithubStatus int bool | Unreachable

definition suspendInstallation :: "string \<Rightarrow> broker_db \<Rightarrow> broker_db" where
  "suspendInstallation pk db =
     (if bd_ok db ''SetInstallationSuspended'' []
      then db\<lparr>bd_installations := map (\<lambda>n. if in_ID n = pk then n\<lparr>in_Suspended := True\<rparr> else n) (bd_installations db)\<rparr> else db)"

definition githubMintError :: "string \<Rightarrow> mint_error \<Rightarrow> broker_db \<Rightarrow> int \<times> broker_db" where
  "githubMintError pk e db = (case e of
       Unreachable \<Rightarrow> (504, db)
     | GithubStatus s retry \<Rightarrow>
         if s = 404 \<or> s = 410 then (409, suspendInstallation pk db)
         else if s = 401 then (502, suspendInstallation pk db)
         else if s = 403 then (if retry then 429 else 403, db)
         else if s = 422 then (403, db)
         else (502, db))"

record token_request =
  tq_VMIP :: string
  tq_Integration :: string
  tq_Repo :: string
  tq_Resource :: string
  tq_Write :: bool

record broker =
  br_sealer :: "(bytes \<Rightarrow> bytes \<Rightarrow> string option) option"
  br_chatgpt :: "key_row \<Rightarrow> int + (string \<times> string)"
  br_app :: "int option"
  br_mint :: "int \<Rightarrow> string list \<Rightarrow> bool \<Rightarrow> mint_error + string"

definition split_repo :: "string \<Rightarrow> (string \<times> string) option" where
  "split_repo repo =
     (if repo = [] then Some ([], [])
      else case split_str repo ''/'' of
        [owner, name] \<Rightarrow> if githubNameRe owner \<and> githubNameRe name then Some (owner, name) else None
      | _ \<Rightarrow> None)"

text \<open>\<open>br_app\<close> is the status that refuses when there is no usable github app.\<close>

definition githubToken :: "broker \<Rightarrow> broker_db \<Rightarrow> client_row \<Rightarrow> string \<Rightarrow> token_request \<Rightarrow> (int + token_response) \<times> broker_db" where
  "githubToken b db client ip req =
     (case split_repo (tq_Repo req) of
        None \<Rightarrow> (Inl 400, db)
      | Some (owner, repo) \<Rightarrow>
          if \<not> bd_ok db ''ListIntegrationGrantsForVM'' [] then (Inl 500, db)
          else case pickGrant db (ListIntegrationGrantsForVM db ''github'' (cl_ID client) ip) owner repo (tq_Write req) of
            Inl s \<Rightarrow> (Inl s, db)
          | Inr d \<Rightarrow>
              (case br_app b of
                 Some s \<Rightarrow> (Inl s, db)
               | None \<Rightarrow>
                   (case br_mint b (de_InstallationID d) (de_Repos d) (tq_Write req) of
                      Inl e \<Rightarrow> let (s, db') = githubMintError (de_InstallationPK d) e db in (Inl s, db')
                    | Inr token \<Rightarrow> (Inr \<lparr>tr_Token = token, tr_Account = de_Account d, tr_Upstream = [], tr_Meter = []\<rparr>, db))))"

definition IntegrationToken :: "broker \<Rightarrow> broker_db \<Rightarrow> string \<Rightarrow> token_request option \<Rightarrow> (int + token_response) \<times> broker_db" where
  "IntegrationToken b db authorization body =
     (case authClient db authorization of
        Inl s \<Rightarrow> (Inl s, db)
      | Inr client \<Rightarrow>
          (case body of
             None \<Rightarrow> (Inl 400, db)
           | Some req \<Rightarrow>
               let ip = ParseIP (trim_space (tq_VMIP req)) in
               if ip = [] \<or> To4 ip = [] then (Inl 400, db)
               else if tq_Integration req = ''github'' then githubToken b db client (IP_String ip) req
               else if tq_Integration req = ''llm''
                 then (llmToken (br_sealer b) (br_chatgpt b) db client (IP_String ip) (tq_Resource req), db)
               else if \<not> bd_ok db ''GetGitLabInstanceByName'' [] then (Inl 500, db)
               else case find (\<lambda>g. gl_Name g = tq_Integration req) (bd_gitlabs db) of
                 None \<Rightarrow> (Inl 400, db)
               | Some g \<Rightarrow> (gitlabToken (br_sealer b) db client g (IP_String ip) (tq_Write req), db)))"

section \<open>A github token\<close>

lemma authClient_sound:
  assumes "authClient db authorization = Inr c"
  shows "c \<in> set (bd_clients db)" "cl_TokenHash c = hex_encode (sha256 (to_bytes (drop 7 authorization)))" "\<not> cl_Revoked c"
        "has_prefix authorization ''Bearer ''"
  using assms by (auto simp: authClient_def Let_def find_Some_iff split: if_splits option.splits)

lemma first_taken_in: "first_taken cs = Some d \<Longrightarrow> Take d \<in> set cs"
  by (induction cs rule: first_taken.induct) auto

lemma pickGrant_taken:
  assumes "pickGrant db grants owner repo wr = Inr d"
  obtains g where "g \<in> set grants" "consider_grant db owner repo wr g = Take d"
  using assms by (auto simp: pickGrant_def Let_def split: if_splits option.splits dest!: first_taken_in)

lemma consider_taken:
  assumes "consider_grant db owner repo wr g = Take d"
  shows "\<not> in_Suspended (gr_Installation g)" "wr \<longrightarrow> \<not> ir_Readonly (gr_Integration g)"
        "repo \<noteq> [] \<Longrightarrow> named_repo db owner repo g = Take d"
        "repo = [] \<Longrightarrow> d = decision g (ListVMIntegrationRepos db (ma_ID (gr_Machine g)) (ir_ID (gr_Integration g))) \<and>
           ListVMIntegrationRepos db (ma_ID (gr_Machine g)) (ir_ID (gr_Integration g)) \<noteq> []"
  using assms by (auto simp: consider_grant_def reposForAttachment_def Let_def split: if_splits)

text \<open>A repository is within the reach of a grant: the attachment names it, and the integration covers it.\<close>

definition repo_granted :: "broker_db \<Rightarrow> machine_row \<Rightarrow> integration_row \<Rightarrow> string \<Rightarrow> string \<Rightarrow> string \<Rightarrow> bool" where
  "repo_granted db v i owner name canonical \<longleftrightarrow>
     list_ex (\<lambda>(o', n'). same_repo o' n' owner name) (scope_of db (ma_ID v) (ir_ID i)) \<and>
     (if ir_AllRepos i then canonical = name
      else list_ex (\<lambda>(j, o', n'). j = ir_ID i \<and> same_repo o' n' owner name \<and> n' = canonical) (bd_repos db))"

lemma find_Some_in: "find P xs = Some x \<Longrightarrow> P x \<and> x \<in> set xs"
  by (induction xs) (auto split: if_splits)

lemma FindIntegrationRepo_some:
  "FindIntegrationRepo db integ owner name = Some n \<Longrightarrow>
   list_ex (\<lambda>(j, o', n'). j = integ \<and> same_repo o' n' owner name \<and> n' = n) (bd_repos db)"
proof -
  let ?P = "\<lambda>(j, o', n'). j = integ \<and> same_repo o' n' owner name"
  assume "FindIntegrationRepo db integ owner name = Some n"
  then obtain j o' where f: "find ?P (bd_repos db) = Some (j, o', n)"
    by (auto simp: FindIntegrationRepo_def)
  have "?P (j, o', n)" "(j, o', n) \<in> set (bd_repos db)" using find_Some_in[OF f] by auto
  then show ?thesis by (auto simp: list_ex_iff)
qed

lemma named_repo_taken:
  assumes "named_repo db owner name g = Take d"
  obtains canonical where "d = decision g [canonical]" "repo_granted db (gr_Machine g) (gr_Integration g) owner name canonical"
  using assms
  by (auto simp: named_repo_def repo_granted_def VMIntegrationAllowsRepo_def Let_def
           split: if_splits option.splits dest!: FindIntegrationRepo_some)

lemma grants_in:
  assumes "g \<in> set (ListIntegrationGrantsForVM db kind client ip)"
  shows "gr_Machine g \<in> set (bd_machines db)" "ma_Client (gr_Machine g) = client" "ma_IP (gr_Machine g) = ip"
        "gr_Integration g \<in> set (bd_integrations db)" "ir_Kind (gr_Integration g) = kind"
        "(ma_ID (gr_Machine g), ir_ID (gr_Integration g)) \<in> set (bd_attached db)"
        "gr_Installation g \<in> set (bd_installations db)" "in_ID (gr_Installation g) = ir_Installation (gr_Integration g)"
  using assms by (auto simp: ListIntegrationGrantsForVM_def machines_at_def attached_integrations_def)

text \<open>What a grant must satisfy for a token to be minted from it.\<close>

definition grant_valid :: "broker_db \<Rightarrow> string \<Rightarrow> string \<Rightarrow> bool \<Rightarrow> grant_row \<Rightarrow> bool" where
  "grant_valid db client ip wr g \<longleftrightarrow>
     gr_Machine g \<in> set (bd_machines db) \<and> ma_Client (gr_Machine g) = client \<and> ma_IP (gr_Machine g) = ip \<and>
     gr_Integration g \<in> set (bd_integrations db) \<and> ir_Kind (gr_Integration g) = ''github'' \<and>
     (ma_ID (gr_Machine g), ir_ID (gr_Integration g)) \<in> set (bd_attached db) \<and>
     gr_Installation g \<in> set (bd_installations db) \<and> in_ID (gr_Installation g) = ir_Installation (gr_Integration g) \<and>
     \<not> in_Suspended (gr_Installation g) \<and> (wr \<longrightarrow> \<not> ir_Readonly (gr_Integration g))"

lemma pickGrant_sound:
  assumes "pickGrant db (ListIntegrationGrantsForVM db ''github'' client ip) owner repo wr = Inr d"
  obtains g repos where "grant_valid db client ip wr g" "d = decision g repos" "repos \<noteq> []"
    "if repo = [] then repos = ListVMIntegrationRepos db (ma_ID (gr_Machine g)) (ir_ID (gr_Integration g))
     else \<exists>canonical. repos = [canonical] \<and> repo_granted db (gr_Machine g) (gr_Integration g) owner repo canonical"
proof -
  obtain g where g: "g \<in> set (ListIntegrationGrantsForVM db ''github'' client ip)" "consider_grant db owner repo wr g = Take d"
    using assms by (rule pickGrant_taken)
  have valid: "grant_valid db client ip wr g"
    unfolding grant_valid_def using grants_in[OF g(1)] consider_taken(1,2)[OF g(2)] by auto
  show thesis
  proof (cases "repo = []")
    case True
    then show thesis using consider_taken(4)[OF g(2) True] valid that[of g "ListVMIntegrationRepos db (ma_ID (gr_Machine g)) (ir_ID (gr_Integration g))"]
      by simp
  next
    case False
    obtain canonical where "d = decision g [canonical]" "repo_granted db (gr_Machine g) (gr_Integration g) owner repo canonical"
      using consider_taken(3)[OF g(2) False] by (rule named_repo_taken)
    then show thesis using False valid that[of g "[canonical]"] by simp
  qed
qed

lemma githubToken_minted:
  assumes "githubToken b db client ip req = (Inr r, db')"
  obtains owner repo d where "split_repo (tq_Repo req) = Some (owner, repo)"
    "pickGrant db (ListIntegrationGrantsForVM db ''github'' (cl_ID client) ip) owner repo (tq_Write req) = Inr d"
    "br_mint b (de_InstallationID d) (de_Repos d) (tq_Write req) = Inr (tr_Token r)" "tr_Account r = de_Account d" "db' = db"
proof (cases "split_repo (tq_Repo req)")
  case None
  then show thesis using assms by (simp add: githubToken_def)
next
  case repo: (Some p)
  obtain owner repo where p: "p = (owner, repo)" by (cases p)
  let ?grants = "ListIntegrationGrantsForVM db ''github'' (cl_ID client) ip"
  have ok: "bd_ok db ''ListIntegrationGrantsForVM'' []" using assms repo p by (auto simp: githubToken_def split: if_splits)
  show thesis
  proof (cases "pickGrant db ?grants owner repo (tq_Write req)")
    case (Inl s)
    then show thesis using assms repo p ok by (simp add: githubToken_def)
  next
    case (Inr d)
    have app: "br_app b = None" using assms repo p ok Inr by (cases "br_app b") (simp_all add: githubToken_def)
    show thesis
    proof (cases "br_mint b (de_InstallationID d) (de_Repos d) (tq_Write req)")
      case (Inl e)
      then show thesis using assms repo p ok Inr app by (simp add: githubToken_def case_prod_beta)
    next
      case minted: (Inr token)
      have r: "r = \<lparr>tr_Token = token, tr_Account = de_Account d, tr_Upstream = [], tr_Meter = []\<rparr>" "db' = db"
        using assms repo p ok Inr app minted by (simp_all add: githubToken_def)
      show thesis by (rule that[OF _ Inr _ _ r(2)]) (simp_all add: repo p minted r(1))
    qed
  qed
qed

lemma split_repo_empty: "split_repo r = Some (owner, name) \<Longrightarrow> name = [] \<longleftrightarrow> r = []"
  by (auto simp: split_repo_def githubNameRe_def split: if_splits list.splits)

lemma IntegrationToken_github:
  assumes "IntegrationToken b db authorization (Some req) = (Inr r, db')" "tq_Integration req = ''github''"
  obtains c where "authClient db authorization = Inr c"
    "githubToken b db c (IP_String (ParseIP (trim_space (tq_VMIP req)))) req = (Inr r, db')"
  using assms by (auto simp: IntegrationToken_def Let_def split: sum.splits if_splits)

section \<open>A concrete fleet\<close>

definition demo_client :: "string \<Rightarrow> client_row" where
  "demo_client h = \<lparr>cl_ID = ''host1'', cl_TokenHash = h, cl_Revoked = False\<rparr>"

definition demo_fleet :: "string \<Rightarrow> broker_db" where
  "demo_fleet h =
     \<lparr>bd_ok = \<lambda>_ _. True, bd_clients = [demo_client h],
      bd_machines = [\<lparr>ma_ID = ''m1'', ma_Client = ''host1'', ma_VMID = ''v1'', ma_IP = ''10.0.0.7'', ma_Name = ''box'',
                      ma_Status = ''running'', ma_Owner = Some ''ann''\<rparr>],
      bd_attached = [(''m1'', ''i1'')],
      bd_integrations = [\<lparr>ir_ID = ''i1'', ir_Kind = ''github'', ir_Name = ''work'', ir_AllRepos = False, ir_Readonly = False,
                          ir_Installation = ''p1'', ir_GitLab = [], ir_Owner = Some ''ann'', ir_TokenEnc = [], ir_CreatedAt = 0\<rparr>],
      bd_installations = [\<lparr>in_ID = ''p1'', in_InstallationID = 4711, in_Account = ''acme'', in_Suspended = False\<rparr>],
      bd_gitlabs = [],
      bd_repos = [(''i1'', ''acme'', ''Site'')],
      bd_scope = [(''m1'', ''i1'', ''acme'', ''Site'')],
      bd_keys = [\<lparr>ke_Provider = ''zai'', ke_Plan = ''coding'', ke_Owner = Some ''ann'', ke_Enc = []\<rparr>,
                 \<lparr>ke_Provider = ''zai'', ke_Plan = ''api'', ke_Owner = None, ke_Enc = []\<rparr>]\<rparr>"

definition demo_broker :: broker where
  "demo_broker =
     \<lparr>br_sealer = Some (\<lambda>_ aad. Some (of_bytes aad)), br_chatgpt = \<lambda>_. Inl 403, br_app = None,
      br_mint = \<lambda>inst repos wr. Inr (if repos = [''Site''] then ''ghs_site'' else ''ghs_many'')\<rparr>"

definition demo_hash :: string where "demo_hash = hex_encode (sha256 (to_bytes ''secret''))"

lemma demo_auth: "authClient (demo_fleet demo_hash) ''Bearer secret'' = Inr (demo_client demo_hash)"
  by (simp add: authClient_def demo_fleet_def demo_client_def demo_hash_def Let_def has_prefix_def)

definition demo_git_request :: token_request where
  "demo_git_request = \<lparr>tq_VMIP = ''10.0.0.7'', tq_Integration = ''github'', tq_Repo = ''Acme/site'', tq_Resource = [], tq_Write = True\<rparr>"

definition demo_llm_request :: token_request where
  "demo_llm_request = \<lparr>tq_VMIP = ''10.0.0.7'', tq_Integration = ''llm'', tq_Repo = [], tq_Resource = ''zai@global/openai'', tq_Write = False\<rparr>"

lemma demo_ip: "IP_String (ParseIP (trim_space ''10.0.0.7'')) = ''10.0.0.7''" "ParseIP (trim_space ''10.0.0.7'') \<noteq> []"
  "To4 (ParseIP (trim_space ''10.0.0.7'')) \<noteq> []"
  by code_simp+

lemma demo_git_token:
  "githubToken demo_broker (demo_fleet h) (demo_client h) ''10.0.0.7'' demo_git_request =
   (Inr \<lparr>tr_Token = ''ghs_site'', tr_Account = ''acme'', tr_Upstream = [], tr_Meter = []\<rparr>, demo_fleet h)"
proof -
  have token: "fst (githubToken demo_broker (demo_fleet h) (demo_client h) ''10.0.0.7'' demo_git_request) =
    Inr \<lparr>tr_Token = ''ghs_site'', tr_Account = ''acme'', tr_Upstream = [], tr_Meter = []\<rparr>"
    by code_simp
  obtain db' where pair: "githubToken demo_broker (demo_fleet h) (demo_client h) ''10.0.0.7'' demo_git_request =
    (Inr \<lparr>tr_Token = ''ghs_site'', tr_Account = ''acme'', tr_Upstream = [], tr_Meter = []\<rparr>, db')"
    using token by (metis prod.collapse)
  show ?thesis by (rule githubToken_minted[OF pair]) (simp add: pair)
qed

lemma demo_llm_token:
  "llmToken (br_sealer demo_broker) (br_chatgpt demo_broker) (demo_fleet h) (demo_client h) ''10.0.0.7'' ''zai@global/openai'' =
   Inr \<lparr>tr_Token = ''zai|global'', tr_Account = [], tr_Upstream = ''https://api.z.ai/api/paas/v4'', tr_Meter = ''ann/m1/zai''\<rparr>"
  by code_simp

lemma demo_IntegrationToken:
  "IntegrationToken demo_broker (demo_fleet demo_hash) ''Bearer secret'' (Some demo_git_request) =
   (Inr \<lparr>tr_Token = ''ghs_site'', tr_Account = ''acme'', tr_Upstream = [], tr_Meter = []\<rparr>, demo_fleet demo_hash)"
  "IntegrationToken demo_broker (demo_fleet demo_hash) ''Bearer secret'' (Some demo_llm_request) =
   (Inr \<lparr>tr_Token = ''zai|global'', tr_Account = [], tr_Upstream = ''https://api.z.ai/api/paas/v4'', tr_Meter = ''ann/m1/zai''\<rparr>, demo_fleet demo_hash)"
  using demo_ip demo_git_token[of demo_hash] demo_llm_token[of demo_hash]
  by (simp_all add: IntegrationToken_def demo_auth demo_git_request_def demo_llm_request_def)



section \<open>A key of a language model\<close>

lemma ListLLMKeysForVM_in:
  assumes "(k, v) \<in> set (ListLLMKeysForVM db client ip)"
  shows "v \<in> set (bd_machines db)" "ma_Client v = client" "ma_IP v = ip" "k \<in> set (bd_keys db)"
        "ke_Owner k = None \<or> ke_Owner k = ma_Owner v"
  using assms by (auto simp: ListLLMKeysForVM_def machines_at_def)

lemma IntegrationToken_llm:
  assumes "IntegrationToken b db authorization (Some req) = (Inr r, db')" "tq_Integration req = ''llm''"
  obtains c where "authClient db authorization = Inr c"
    "llmToken (br_sealer b) (br_chatgpt b) db c (IP_String (ParseIP (trim_space (tq_VMIP req)))) (tq_Resource req) = Inr r"
  using assms by (auto simp: IntegrationToken_def Let_def split: sum.splits if_splits)

text \<open>What the answer for a key of a machine is: the secret, the address of its plan, and who is to be billed.\<close>

definition llm_answer ::
  "(bytes \<Rightarrow> bytes \<Rightarrow> string option) \<Rightarrow> (key_row \<Rightarrow> int + (string \<times> string)) \<Rightarrow> string \<Rightarrow> bool \<Rightarrow> string \<Rightarrow> key_row \<Rightarrow> machine_row \<Rightarrow>
   token_response \<Rightarrow> bool" where
  "llm_answer unseal chatgptAccess provider glob format k v r \<longleftrightarrow>
     ke_Provider k = provider \<and> (ke_Owner k = None \<longleftrightarrow> glob) \<and> (\<not> glob \<longrightarrow> ke_Owner k = ma_Owner v) \<and>
     (case llmPlanFor provider (ke_Plan k) of None \<Rightarrow> False | Some plan \<Rightarrow> tr_Upstream r = base plan format \<and> tr_Upstream r \<noteq> []) \<and>
     (if llmUsesDevice provider then chatgptAccess k = Inr (tr_Token r, tr_Account r)
      else unseal (ke_Enc k) (llmKeyAAD provider (ke_Owner k)) = Some (tr_Token r)) \<and>
     tr_Meter r = (case ma_Owner v of None \<Rightarrow> [] | Some u \<Rightarrow> if glob then u @ ''/'' @ ma_ID v @ ''/'' @ provider else [])"

lemma llmToken_sound:
  assumes "llmToken sealer chatgptAccess db client ip resource = Inr r"
  obtains unseal provider glob format k v where
    "sealer = Some unseal" "llmResourceRe resource = Some (provider, glob, format)"
    "(k, v) \<in> set (ListLLMKeysForVM db (cl_ID client) ip)" "llm_answer unseal chatgptAccess provider glob format k v r"
proof -
  obtain unseal where s: "sealer = Some unseal" using assms by (auto simp: llmToken_def split: option.splits)
  obtain provider glob format where re: "llmResourceRe resource = Some (provider, glob, format)"
    using assms s by (auto simp: llmToken_def split: option.splits)
  obtain k v where kv:
    "find (\<lambda>(k, v). ke_Provider k = provider \<and> (ke_Owner k = None) = glob) (ListLLMKeysForVM db (cl_ID client) ip) = Some (k, v)"
    using assms s re by (auto simp: llmToken_def split: option.splits if_splits)
  have in_list: "(k, v) \<in> set (ListLLMKeysForVM db (cl_ID client) ip)" and key: "ke_Provider k = provider" "(ke_Owner k = None) = glob"
    using find_Some_in[OF kv] by auto
  obtain plan where plan: "llmPlanFor provider (ke_Plan k) = Some plan" "base plan format \<noteq> []"
    using assms s re kv key by (auto simp: llmToken_def split: option.splits if_splits)
  obtain token account where cred:
    "(if llmUsesDevice (ke_Provider k) then chatgptAccess k
      else case unseal (ke_Enc k) (llmKeyAAD (ke_Provider k) (if ke_Owner k = None then None else ma_Owner v)) of
             None \<Rightarrow> Inl 500 | Some key \<Rightarrow> Inr (key, [])) = Inr (token, account)"
    and r: "r = \<lparr>tr_Token = token, tr_Account = account, tr_Upstream = base plan format,
      tr_Meter = (case ma_Owner v of None \<Rightarrow> [] | Some u \<Rightarrow> if glob then u @ ''/'' @ ma_ID v @ ''/'' @ provider else [])\<rparr>"
    using assms s re kv key plan
    by (cases "if llmUsesDevice (ke_Provider k) then chatgptAccess k
      else case unseal (ke_Enc k) (llmKeyAAD (ke_Provider k) (if ke_Owner k = None then None else ma_Owner v)) of
             None \<Rightarrow> Inl 500 | Some key \<Rightarrow> Inr (key, [])") (auto simp: llmToken_def split: if_splits)
  have owner: "(if ke_Owner k = None then None else ma_Owner v) = ke_Owner k" "\<not> glob \<longrightarrow> ke_Owner k = ma_Owner v"
    using ListLLMKeysForVM_in(5)[OF in_list] key(2) by auto
  have "llm_answer unseal chatgptAccess provider glob format k v r"
    unfolding llm_answer_def using key plan cred owner r by (auto split: if_splits option.splits)
  then show thesis using s re in_list that by blast
qed



section \<open>A machine that is gone\<close>

lemma sort_key_map_same: "(\<And>x. k (f x) = k' x) \<Longrightarrow> sort_key k (map f xs) = map f (sort_key k' xs)"
proof -
  assume k: "\<And>x. k (f x) = k' x"
  have ins: "insort_key k (f x) (map f ys) = map f (insort_key k' x ys)" for x ys by (induction ys) (auto simp: k)
  show ?thesis by (induction xs) (simp_all add: ins)
qed

lemma mark_missing_fields [simp]:
  "ma_ID (mark_missing c ids v) = ma_ID v" "ma_Client (mark_missing c ids v) = ma_Client v"
  "ma_IP (mark_missing c ids v) = ma_IP v" "ma_Name (mark_missing c ids v) = ma_Name v"
  "ma_Owner (mark_missing c ids v) = ma_Owner v"
  by (simp_all add: mark_missing_def)

lemma MarkMissingVMsGone_fields [simp]:
  "bd_ok (MarkMissingVMsGone c ids db) = bd_ok db" "bd_clients (MarkMissingVMsGone c ids db) = bd_clients db"
  "bd_attached (MarkMissingVMsGone c ids db) = bd_attached db" "bd_integrations (MarkMissingVMsGone c ids db) = bd_integrations db"
  "bd_installations (MarkMissingVMsGone c ids db) = bd_installations db" "bd_gitlabs (MarkMissingVMsGone c ids db) = bd_gitlabs db"
  "bd_repos (MarkMissingVMsGone c ids db) = bd_repos db" "bd_scope (MarkMissingVMsGone c ids db) = bd_scope db"
  "bd_keys (MarkMissingVMsGone c ids db) = bd_keys db"
  by (simp_all add: MarkMissingVMsGone_def)

lemma machines_at_marked:
  "machines_at (MarkMissingVMsGone c ids db) client ip = map (mark_missing c ids) (machines_at db client ip)"
  by (simp add: machines_at_def MarkMissingVMsGone_def filter_map o_def)

lemma attached_marked:
  "attached_integrations (MarkMissingVMsGone c ids db) kind (mark_missing c ids v) = attached_integrations db kind v"
  by (simp add: attached_integrations_def)

abbreviation mark_grant :: "string \<Rightarrow> string list \<Rightarrow> grant_row \<Rightarrow> grant_row" where
  "mark_grant c ids g \<equiv> g\<lparr>gr_Machine := mark_missing c ids (gr_Machine g)\<rparr>"

lemma grants_marked:
  "ListIntegrationGrantsForVM (MarkMissingVMsGone c ids db) kind client ip = map (mark_grant c ids) (ListIntegrationGrantsForVM db kind client ip)"
  unfolding ListIntegrationGrantsForVM_def
  by (subst sort_key_map_same[where k = "\<lambda>g. ir_Name (gr_Integration g)", symmetric], simp)
     (simp add: machines_at_marked attached_marked map_concat o_def if_distrib cong: if_cong)

lemma queries_marked [simp]:
  "scope_of (MarkMissingVMsGone c ids db) = scope_of db" "FindIntegrationRepo (MarkMissingVMsGone c ids db) = FindIntegrationRepo db"
  "VMIntegrationAllowsRepo (MarkMissingVMsGone c ids db) = VMIntegrationAllowsRepo db"
  "ListVMIntegrationRepos (MarkMissingVMsGone c ids db) = ListVMIntegrationRepos db"
  "authClient (MarkMissingVMsGone c ids db) = authClient db"
  by (simp_all add: fun_eq_iff scope_of_def FindIntegrationRepo_def VMIntegrationAllowsRepo_def ListVMIntegrationRepos_def authClient_def)

lemma consider_marked:
  "consider_grant (MarkMissingVMsGone c ids db) owner repo wr (mark_grant c ids g) = consider_grant db owner repo wr g"
  by (simp add: consider_grant_def named_repo_def reposForAttachment_def decision_def Let_def cong: if_cong option.case_cong)

lemma pickGrant_marked:
  "pickGrant (MarkMissingVMsGone c ids db) (map (mark_grant c ids) gs) owner repo wr = pickGrant db gs owner repo wr"
  by (simp add: pickGrant_def o_def consider_marked)

lemma gitlab_grants_marked:
  "ListGitLabGrantsForVM (MarkMissingVMsGone c ids db) client ip g = ListGitLabGrantsForVM db client ip g"
  by (simp add: ListGitLabGrantsForVM_def machines_at_marked attached_marked o_def)

lemma gitlab_marked: "gitlabToken sealer (MarkMissingVMsGone c ids db) client g ip wr = gitlabToken sealer db client g ip wr"
  unfolding gitlabToken_def gitlab_grants_marked MarkMissingVMsGone_fields ..

lemma keys_marked:
  "ListLLMKeysForVM (MarkMissingVMsGone c ids db) client ip = map (apsnd (mark_missing c ids)) (ListLLMKeysForVM db client ip)"
proof -
  let ?rows = "\<lambda>m. [(k, v). v \<leftarrow> map m (machines_at db client ip), k \<leftarrow> bd_keys db, ke_Owner k = None \<or> ke_Owner k = ma_Owner v]"
  have rows: "?rows (mark_missing c ids) = map (apsnd (mark_missing c ids)) (?rows (\<lambda>v. v))"
    by (simp add: map_concat o_def if_distrib cong: if_cong)
  have "sort_key (\<lambda>(k, v). ke_Owner k = None) (sort_key (\<lambda>(k, v). ke_Provider k) (map (apsnd (mark_missing c ids)) xs)) =
        map (apsnd (mark_missing c ids)) (sort_key (\<lambda>(k, v). ke_Owner k = None) (sort_key (\<lambda>(k, v). ke_Provider k) xs))"
    for xs :: "(key_row \<times> machine_row) list"
    by (simp add: sort_key_map_same[where k' = "\<lambda>(k, v). ke_Provider k"] sort_key_map_same[where k' = "\<lambda>(k, v). ke_Owner k = None"] split: prod.split)
  then show ?thesis
    unfolding ListLLMKeysForVM_def machines_at_marked rows MarkMissingVMsGone_fields by simp
qed

lemma llm_marked:
  "llmToken sealer acc (MarkMissingVMsGone c ids db) client ip resource = llmToken sealer acc db client ip resource"
proof (cases "llmResourceRe resource")
  case None
  then show ?thesis by (simp add: llmToken_def split: option.split)
next
  case (Some pgf)
  obtain provider glob format where pgf: "pgf = (provider, glob, format)" by (cases pgf)
  have found: "find (\<lambda>(k, v). ke_Provider k = provider \<and> (ke_Owner k = None) = glob) (map (apsnd m) xs) =
               map_option (apsnd m) (find (\<lambda>(k, v). ke_Provider k = provider \<and> (ke_Owner k = None) = glob) xs)" for m xs
    by (induction xs) auto
  show ?thesis
    unfolding llmToken_def Some pgf option.case prod.case keys_marked found MarkMissingVMsGone_fields
    by (cases sealer; cases "find (\<lambda>(k, v). ke_Provider k = provider \<and> (ke_Owner k = None) = glob) (ListLLMKeysForVM db (cl_ID client) ip)")
       (simp_all add: case_prod_beta cong del: option.case_cong_weak if_weak_cong)
qed

lemma github_marked:
  "fst (githubToken b (MarkMissingVMsGone c ids db) client ip req) = fst (githubToken b db client ip req)"
  by (simp add: githubToken_def grants_marked pickGrant_marked githubMintError_def split: option.split sum.split prod.split mint_error.split)

text \<open>
  Further result. That a host reports a machine as gone changes no answer of the broker: whoever has the machine's address on
  that host, a new machine of another owner included, is served the tokens and keys of the gone machine.
\<close>
theorem gone_machine_still_served:
  "fst (IntegrationToken b (MarkMissingVMsGone c ids db) authorization body) = fst (IntegrationToken b db authorization body)"
  by (simp add: IntegrationToken_def Let_def github_marked llm_marked gitlab_marked split: sum.split option.split)

end
