(* ===== verification/Ctl_Tasks.thy ===== *)
theory Ctl_Tasks
  imports Go_Time
begin

text \<open>
  The scheduled tasks of the control server (\<open>control/tasks.go\<close>, the queries of \<open>internal/db/scheduled_tasks.sql.go\<close>): the
  table and its queries, the claiming of what is due, the settling of a finished task and the sweep that queues stale tasks
  again. The table is a list of rows; its check constraint makes the status a datatype, its unique index lets at most one
  task of a kind and subject be live, and a statement that would break it fails. The time is in nanoseconds. The texts that
  explain an outcome are left out.
\<close>

section \<open>The table\<close>

datatype task_status = Pending | Running | Done | Failed | Cancelled

record task =
  tk_ID :: string
  tk_Kind :: string
  tk_SubjectKind :: string
  tk_SubjectID :: "string option"
  tk_Payload :: string
  tk_Status :: task_status
  tk_RunAt :: instant
  tk_Attempts :: int
  tk_MaxAttempts :: int
  tk_LockedBy :: string
  tk_LockedAt :: "instant option"
  tk_FinishedAt :: "instant option"

definition live :: "task \<Rightarrow> bool" where
  "live t \<longleftrightarrow> tk_Status t = Pending \<or> tk_Status t = Running"

definition subject_key :: "task \<Rightarrow> string \<times> string \<times> string option" where
  "subject_key t = (tk_Kind t, tk_SubjectKind t, tk_SubjectID t)"

definition live_unique :: "task list \<Rightarrow> bool" where
  "live_unique ts \<longleftrightarrow> distinct (map subject_key (filter (\<lambda>t. live t \<and> tk_SubjectID t \<noteq> None) ts))"

definition checked :: "task list \<Rightarrow> task list option" where
  "checked ts = (if live_unique ts then Some ts else None)"

definition update_where :: "(task \<Rightarrow> bool) \<Rightarrow> (task \<Rightarrow> task) \<Rightarrow> task list \<Rightarrow> task list" where
  "update_where P f ts = map (\<lambda>t. if P t then f t else t) ts"

section \<open>The queries\<close>

definition unlock :: "task \<Rightarrow> task" where
  "unlock t = t\<lparr>tk_LockedBy := [], tk_LockedAt := None\<rparr>"

definition CreateScheduledTask :: "task \<Rightarrow> task list \<Rightarrow> task list option" where
  "CreateScheduledTask row ts = checked (ts @ [row])"

definition CreateSingletonScheduledTask :: "task \<Rightarrow> task list \<Rightarrow> task list option" where
  "CreateSingletonScheduledTask row ts =
     (if list_ex (\<lambda>t. tk_Kind t = tk_Kind row \<and> live t) ts then Some ts else checked (ts @ [row]))"

definition due_tasks :: "instant \<Rightarrow> task list \<Rightarrow> task list" where
  "due_tasks now ts = sort_key tk_RunAt (filter (\<lambda>t. tk_Status t = Pending \<and> tk_RunAt t \<le> now) ts)"

definition claim :: "instant \<Rightarrow> string \<Rightarrow> task \<Rightarrow> task" where
  "claim now inst t =
     t\<lparr>tk_Status := Running, tk_Attempts := tk_Attempts t + 1, tk_LockedBy := inst, tk_LockedAt := Some now\<rparr>"

definition ClaimDueScheduledTasks :: "instant \<Rightarrow> string \<Rightarrow> nat \<Rightarrow> task list \<Rightarrow> task list \<times> task list" where
  "ClaimDueScheduledTasks now inst n ts =
     (let picked = map tk_ID (take n (due_tasks now ts)) in
      (update_where (\<lambda>t. tk_ID t \<in> set picked) (claim now inst) ts,
       map (claim now inst) (filter (\<lambda>t. tk_ID t \<in> set picked) ts)))"

definition RetryScheduledTask :: "instant \<Rightarrow> string \<Rightarrow> duration \<Rightarrow> task list \<Rightarrow> task list option" where
  "RetryScheduledTask now i after ts =
     checked (update_where (\<lambda>t. tk_ID t = i) (\<lambda>t. unlock (t\<lparr>tk_Status := Pending, tk_RunAt := now + after\<rparr>)) ts)"

definition FinishScheduledTask :: "instant \<Rightarrow> string \<Rightarrow> task_status \<Rightarrow> task list \<Rightarrow> task list option" where
  "FinishScheduledTask now i status ts =
     checked (update_where (\<lambda>t. tk_ID t = i) (\<lambda>t. unlock (t\<lparr>tk_Status := status, tk_FinishedAt := Some now\<rparr>)) ts)"

definition stale :: "instant \<Rightarrow> string list \<Rightarrow> duration \<Rightarrow> duration \<Rightarrow> task \<Rightarrow> bool" where
  "stale now longKinds longLease lease t \<longleftrightarrow> tk_Status t = Running \<and>
     (case tk_LockedAt t of None \<Rightarrow> False | Some l \<Rightarrow> l < now - (if tk_Kind t \<in> set longKinds then longLease else lease))"

definition ReclaimStaleScheduledTasks ::
  "instant \<Rightarrow> string list \<Rightarrow> duration \<Rightarrow> duration \<Rightarrow> task list \<Rightarrow> task list option" where
  "ReclaimStaleScheduledTasks now longKinds longLease lease ts =
     checked (update_where (stale now longKinds longLease lease) (\<lambda>t. unlock (t\<lparr>tk_Status := Pending\<rparr>)) ts)"

definition CancelLiveScheduledTasksForSubject :: "instant \<Rightarrow> string \<Rightarrow> string \<Rightarrow> task list \<Rightarrow> task list option" where
  "CancelLiveScheduledTasksForSubject now kind subject ts =
     checked (update_where (\<lambda>t. tk_SubjectKind t = kind \<and> tk_SubjectID t = Some subject \<and> live t)
       (\<lambda>t. unlock (t\<lparr>tk_Status := Cancelled, tk_FinishedAt := Some now\<rparr>)) ts)"

definition CancelScheduledTask :: "instant \<Rightarrow> string \<Rightarrow> task list \<Rightarrow> task list option" where
  "CancelScheduledTask now i ts =
     checked (update_where (\<lambda>t. tk_ID t = i \<and> tk_Status t = Pending) (\<lambda>t. t\<lparr>tk_Status := Cancelled, tk_FinishedAt := Some now\<rparr>) ts)"

definition RunScheduledTaskNow :: "instant \<Rightarrow> string \<Rightarrow> task list \<Rightarrow> task list option" where
  "RunScheduledTaskNow now i ts =
     checked (update_where (\<lambda>t. tk_ID t = i \<and> (tk_Status t = Pending \<or> tk_Status t = Failed))
       (\<lambda>t. unlock (t\<lparr>tk_Status := Pending, tk_RunAt := now, tk_Attempts := 0, tk_FinishedAt := None\<rparr>)) ts)"

definition DeleteSettledScheduledTasksBefore :: "instant \<Rightarrow> duration \<Rightarrow> task list \<Rightarrow> task list" where
  "DeleteSettledScheduledTasksBefore now age ts =
     filter (\<lambda>t. \<not> (\<not> live t \<and> (case tk_FinishedAt t of None \<Rightarrow> False | Some f \<Rightarrow> f < now - age))) ts"

definition CountOverdueScheduledTasks :: "instant \<Rightarrow> duration \<Rightarrow> task list \<Rightarrow> nat" where
  "CountOverdueScheduledTasks now grace ts = length (filter (\<lambda>t. tk_Status t = Pending \<and> tk_RunAt t < now - grace) ts)"

section \<open>Times to live\<close>

definition Second :: duration where "Second = 1000000000"
definition Minute :: duration where "Minute = 60 * Second"
definition Hour :: duration where "Hour = 60 * Minute"

definition taskTick :: duration where "taskTick = Second"
definition taskWorkers :: nat where "taskWorkers = 8"
definition taskTimeout :: duration where "taskTimeout = 30 * Second"
definition taskOSImageBuildTimeout :: duration where "taskOSImageBuildTimeout = 30 * Minute"
definition taskLease :: duration where "taskLease = 2 * Minute"
definition taskLongLease :: duration where "taskLongLease = taskOSImageBuildTimeout + 2 * Minute"
definition taskOverdueGrace :: duration where "taskOverdueGrace = 60 * Second"
definition taskRetention :: duration where "taskRetention = 30 * 24 * Hour"
definition minTaskTTL :: duration where "minTaskTTL = 10 * Second"
definition maxTaskTTL :: duration where "maxTaskTTL = 30 * 24 * Hour"

datatype ttl_error = TooShort | TooLong

definition int64_of :: "int \<Rightarrow> int" where
  "int64_of n = (n + 2 ^ 63) mod 2 ^ 64 - 2 ^ 63"

definition parseTTLSeconds :: "int \<Rightarrow> ttl_error + duration" where
  "parseTTLSeconds secs =
     (if secs = 0 then Inr 0
      else let ttl = int64_of (secs * Second) in
        if secs < 0 \<or> ttl < minTaskTTL then Inl TooShort
        else if ttl > maxTaskTTL then Inl TooLong
        else Inr ttl)"

text \<open>\<open>%\<close> truncates; the durations formatted are not negative.\<close>

definition formatTTL :: "duration \<Rightarrow> string" where
  "formatTTL d =
     (if d mod (24 * Hour) = 0 \<and> d \<ge> 24 * Hour then itoa (d div Hour div 24) @ ''d''
      else if d mod Hour = 0 \<and> d \<ge> Hour then itoa (d div Hour) @ ''h''
      else if d mod Minute = 0 \<and> d \<ge> Minute then itoa (d div Minute) @ ''m''
      else itoa (d div Second) @ ''s'')"

section \<open>The runner\<close>

text \<open>An outcome without a status asks for another attempt.\<close>

record taskOutcome =
  to_status :: "task_status option"
  to_after :: duration

definition taskDone :: taskOutcome where "taskDone = \<lparr>to_status = Some Done, to_after = 0\<rparr>"
definition taskFailed :: taskOutcome where "taskFailed = \<lparr>to_status = Some Failed, to_after = 0\<rparr>"
definition taskCancelled :: taskOutcome where "taskCancelled = \<lparr>to_status = Some Cancelled, to_after = 0\<rparr>"
definition taskRetry :: "duration \<Rightarrow> taskOutcome" where "taskRetry after = \<lparr>to_status = None, to_after = after\<rparr>"

definition taskKindTimeouts :: "(string \<times> duration) list" where
  "taskKindTimeouts = [(''osimage.build'', taskOSImageBuildTimeout)]"

definition taskKindTimeout :: "string \<Rightarrow> duration" where
  "taskKindTimeout kind = (case map_of taskKindTimeouts kind of Some d \<Rightarrow> d | None \<Rightarrow> taskTimeout)"

definition taskLongKinds :: "string list" where
  "taskLongKinds = map fst taskKindTimeouts"

definition taskHandlers :: "string list" where
  "taskHandlers = [''vm_target.expire'', ''vm.expire'', ''tasks.cleanup'', ''cert.renew'', ''custom_domain.issue'',
     ''custom_cert.purge'', ''osimage.build'', ''llm.prices'', ''audit.prune'']"

definition taskBackoff :: "int \<Rightarrow> duration" where
  "taskBackoff attempts = min (2 ^ nat (min attempts 6) * Second) (2 * Minute)"

text \<open>What a statement that ends a task does to the table; the database may refuse it, and it may break the index.\<close>

definition settle :: "instant \<Rightarrow> task \<Rightarrow> taskOutcome \<Rightarrow> task list \<Rightarrow> task list option" where
  "settle now t out ts =
     (case to_status out of
        Some s \<Rightarrow> FinishScheduledTask now (tk_ID t) s ts
      | None \<Rightarrow>
          if tk_Attempts t \<ge> tk_MaxAttempts t then FinishScheduledTask now (tk_ID t) Failed ts
          else RetryScheduledTask now (tk_ID t) (if to_after out \<le> 0 then taskBackoff (tk_Attempts t) else to_after out) ts)"

text \<open>A handler returns an outcome or panics.\<close>

definition execute :: "instant \<Rightarrow> (task \<Rightarrow> taskOutcome option) \<Rightarrow> task \<Rightarrow> task list \<Rightarrow> task list option" where
  "execute now handler t ts =
     (if tk_Kind t \<notin> set taskHandlers then settle now t taskFailed ts
      else case handler t of
        Some out \<Rightarrow> settle now t out ts
      | None \<Rightarrow> settle now t (taskRetry (taskBackoff (tk_Attempts t))) ts)"

record taskRunner =
  ru_now :: instant
  ru_instance :: string
  ru_tasks :: "task list"
  ru_inflight :: "task list"

definition poll :: "taskRunner \<Rightarrow> taskRunner" where
  "poll r =
     (let free = taskWorkers - length (ru_inflight r) in
      if free = 0 then r
      else let (ts, claimed) = ClaimDueScheduledTasks (ru_now r) (ru_instance r) free (ru_tasks r) in
        r\<lparr>ru_tasks := ts, ru_inflight := ru_inflight r @ claimed\<rparr>)"

definition with_tasks :: "taskRunner \<Rightarrow> task list option \<Rightarrow> taskRunner" where
  "with_tasks r ts = (case ts of Some ts \<Rightarrow> r\<lparr>ru_tasks := ts\<rparr> | None \<Rightarrow> r)"

definition reclaim :: "taskRunner \<Rightarrow> duration \<Rightarrow> duration \<Rightarrow> taskRunner" where
  "reclaim r lease longLease =
     with_tasks r (ReclaimStaleScheduledTasks (ru_now r) taskLongKinds longLease lease (ru_tasks r))"

definition scheduled_row :: "string \<Rightarrow> string \<Rightarrow> string \<Rightarrow> string option \<Rightarrow> string \<Rightarrow> instant \<Rightarrow> int \<Rightarrow> task" where
  "scheduled_row i kind skind subject payload at attempts =
     \<lparr>tk_ID = i, tk_Kind = kind, tk_SubjectKind = skind, tk_SubjectID = subject, tk_Payload = payload, tk_Status = Pending,
      tk_RunAt = at, tk_Attempts = 0, tk_MaxAttempts = (if attempts = 0 then 20 else attempts), tk_LockedBy = [],
      tk_LockedAt = None, tk_FinishedAt = None\<rparr>"

definition scheduleTask ::
  "instant \<Rightarrow> string \<Rightarrow> string \<Rightarrow> string \<Rightarrow> string option \<Rightarrow> string \<Rightarrow> duration \<Rightarrow> int \<Rightarrow> task list \<Rightarrow> task list option" where
  "scheduleTask now i kind skind subject payload after attempts ts =
     CreateScheduledTask (scheduled_row i kind skind subject payload (now + after) attempts) ts"

text \<open>What the server does at its start: no task of this process runs yet, and the singletons are there.\<close>

definition singletons :: "(string \<times> duration) list" where
  "singletons = [(''tasks.cleanup'', 24 * Hour), (''cert.renew'', 24 * Hour), (''custom_cert.purge'', 24 * Hour),
     (''audit.prune'', 24 * Hour), (''llm.prices'', 0)]"

fun add_singletons :: "instant \<Rightarrow> string list \<Rightarrow> (string \<times> duration) list \<Rightarrow> task list \<Rightarrow> task list" where
  "add_singletons now (i # ids) ((kind, delay) # rest) ts =
     add_singletons now ids rest
       (case CreateSingletonScheduledTask (scheduled_row i kind [] None ''{}'' (now + delay) 20) ts of Some ts' \<Rightarrow> ts' | None \<Rightarrow> ts)"
| "add_singletons now ids rest ts = ts"

definition start_runner :: "string list \<Rightarrow> taskRunner \<Rightarrow> taskRunner" where
  "start_runner ids r =
     (let r' = reclaim (r\<lparr>ru_inflight := []\<rparr>) 0 0 in r'\<lparr>ru_tasks := add_singletons (ru_now r) ids singletons (ru_tasks r')\<rparr>)"

section \<open>The steps of a server\<close>

text \<open>
  One server process and its table. The time passes only as far as every handler that runs heeds its deadline, a handler ends
  with any outcome, the database may refuse the statement that settles a task, and the process may be restarted, which ends
  its handlers. The identifiers of new rows are fresh.
\<close>

definition ids_of :: "taskRunner \<Rightarrow> string set" where
  "ids_of r = tk_ID ` set (ru_tasks r) \<union> tk_ID ` set (ru_inflight r)"

definition in_time :: "instant \<Rightarrow> task \<Rightarrow> bool" where
  "in_time now e \<longleftrightarrow> (case tk_LockedAt e of None \<Rightarrow> False | Some l \<Rightarrow> l \<le> now \<and> now \<le> l + taskKindTimeout (tk_Kind e))"

inductive runner_step :: "taskRunner \<Rightarrow> taskRunner \<Rightarrow> bool" where
  passes: "ru_now r \<le> now \<Longrightarrow> list_all (in_time now) (ru_inflight r) \<Longrightarrow> runner_step r (r\<lparr>ru_now := now\<rparr>)"
| polls: "runner_step r (poll r)"
| settles: "e \<in> set (ru_inflight r) \<Longrightarrow>
     runner_step r (with_tasks (r\<lparr>ru_inflight := remove1 e (ru_inflight r)\<rparr>) (execute (ru_now r) handler e (ru_tasks r)))"
| unsettled: "e \<in> set (ru_inflight r) \<Longrightarrow> runner_step r (r\<lparr>ru_inflight := remove1 e (ru_inflight r)\<rparr>)"
| reclaims: "runner_step r (reclaim r taskLease taskLongLease)"
| schedules: "i \<notin> ids_of r \<Longrightarrow>
     runner_step r (with_tasks r (scheduleTask (ru_now r) i kind skind subject payload after attempts (ru_tasks r)))"
| cancels_subject: "runner_step r (with_tasks r (CancelLiveScheduledTasksForSubject (ru_now r) skind subj (ru_tasks r)))"
| cancels: "runner_step r (with_tasks r (CancelScheduledTask (ru_now r) i (ru_tasks r)))"
| brings_forward: "runner_step r (with_tasks r (RunScheduledTaskNow (ru_now r) i (ru_tasks r)))"
| prunes: "runner_step r (r\<lparr>ru_tasks := DeleteSettledScheduledTasksBefore (ru_now r) age (ru_tasks r)\<rparr>)"
| restarts: "distinct ids \<Longrightarrow> set ids \<inter> ids_of r = {} \<Longrightarrow> runner_step r (start_runner ids r)"

inductive runner_reachable :: "taskRunner \<Rightarrow> bool" where
  fresh: "runner_reachable \<lparr>ru_now = now, ru_instance = inst, ru_tasks = [], ru_inflight = []\<rparr>"
| steps: "runner_reachable r \<Longrightarrow> runner_step r r' \<Longrightarrow> runner_reachable r'"

section \<open>The invariant\<close>

text \<open>A task that is being executed is the row that was claimed, or its row has been cancelled since.\<close>

definition held :: "task \<Rightarrow> task \<Rightarrow> bool" where
  "held e t \<longleftrightarrow> (tk_ID t = tk_ID e \<longrightarrow> tk_Kind t = tk_Kind e \<and>
     (tk_Status t = Cancelled \<or> tk_Status t = Running \<and> tk_LockedAt t = tk_LockedAt e))"

definition all_held :: "task list \<Rightarrow> task list \<Rightarrow> bool" where
  "all_held es ts \<longleftrightarrow> (\<forall>e\<in>set es. \<forall>t\<in>set ts. held e t)"

definition runner_ok :: "taskRunner \<Rightarrow> bool" where
  "runner_ok r \<longleftrightarrow> length (ru_inflight r) \<le> taskWorkers \<and> distinct (map tk_ID (ru_tasks r)) \<and>
     distinct (map tk_ID (ru_inflight r)) \<and> live_unique (ru_tasks r) \<and> list_all (in_time (ru_now r)) (ru_inflight r) \<and>
     all_held (ru_inflight r) (ru_tasks r)"

lemma set_update_where: "set (update_where P f ts) = {if P t then f t else t | t. t \<in> set ts}"
  by (auto simp: update_where_def)

lemma ids_update_where: "(\<And>t. tk_ID (f t) = tk_ID t) \<Longrightarrow> map tk_ID (update_where P f ts) = map tk_ID ts"
  by (simp add: update_where_def)

lemma unlock_simps [simp]:
  "tk_ID (unlock t) = tk_ID t" "tk_Kind (unlock t) = tk_Kind t" "tk_Status (unlock t) = tk_Status t"
  "tk_SubjectKind (unlock t) = tk_SubjectKind t" "tk_SubjectID (unlock t) = tk_SubjectID t" "tk_Attempts (unlock t) = tk_Attempts t"
  "tk_MaxAttempts (unlock t) = tk_MaxAttempts t" "tk_RunAt (unlock t) = tk_RunAt t" "tk_LockedAt (unlock t) = None"
  by (simp_all add: unlock_def)

lemma checked_Some: "checked ts = Some ts' \<Longrightarrow> ts' = ts \<and> live_unique ts"
  by (simp add: checked_def split: if_splits)

lemma live_unique_update:
  assumes "\<And>t. t \<in> set ts \<Longrightarrow> P t \<Longrightarrow> live (f t) = live t \<and> subject_key (f t) = subject_key t \<and> tk_SubjectID (f t) = tk_SubjectID t"
  shows "live_unique (update_where P f ts) = live_unique ts"
proof -
  have "map subject_key (filter (\<lambda>t. live t \<and> tk_SubjectID t \<noteq> None) (update_where P f ts)) =
        map subject_key (filter (\<lambda>t. live t \<and> tk_SubjectID t \<noteq> None) ts)"
    using assms by (induction ts) (auto simp: update_where_def)
  then show ?thesis by (simp add: live_unique_def)
qed

lemma live_unique_filter: "live_unique ts \<Longrightarrow> live_unique (filter P ts)"
proof -
  have swap: "filter Q (filter P ts) = filter P (filter Q ts)" for Q by (induction ts) auto
  show "live_unique ts \<Longrightarrow> live_unique (filter P ts)" unfolding live_unique_def swap by (rule distinct_map_filter)
qed

lemma all_held_update:
  assumes "all_held es ts" "\<And>e t. e \<in> set es \<Longrightarrow> t \<in> set ts \<Longrightarrow> P t \<Longrightarrow> held e t \<Longrightarrow> held e (f t)"
  shows "all_held es (update_where P f ts)"
  using assms by (auto simp: all_held_def set_update_where)

lemma all_held_mono: "all_held es ts \<Longrightarrow> set es' \<subseteq> set es \<Longrightarrow> set ts' \<subseteq> set ts \<Longrightarrow> all_held es' ts'"
  by (auto simp: all_held_def)

text \<open>A change of the table that keeps the identifiers and what runs keeps the invariant.\<close>

lemma runner_ok_tasks:
  assumes "runner_ok r" "distinct (map tk_ID ts)" "live_unique ts" "all_held (ru_inflight r) ts"
  shows "runner_ok (r\<lparr>ru_tasks := ts\<rparr>)"
  using assms by (simp add: runner_ok_def)

lemma runner_ok_with_tasks:
  assumes "runner_ok r" "\<And>ts'. ts = Some ts' \<Longrightarrow> distinct (map tk_ID ts') \<and> live_unique ts' \<and> all_held (ru_inflight r) ts'"
  shows "runner_ok (with_tasks r ts)"
  using assms runner_ok_tasks by (cases ts) (simp_all add: with_tasks_def)

lemma runner_ok_update:
  assumes ok: "runner_ok r" and ids: "\<And>t. tk_ID (f t) = tk_ID t"
    and held: "\<And>e t. e \<in> set (ru_inflight r) \<Longrightarrow> t \<in> set (ru_tasks r) \<Longrightarrow> P t \<Longrightarrow> held e t \<Longrightarrow> held e (f t)"
  shows "runner_ok (with_tasks r (checked (update_where P f (ru_tasks r))))"
proof (rule runner_ok_with_tasks[OF ok])
  fix ts' assume "checked (update_where P f (ru_tasks r)) = Some ts'"
  then have ts': "ts' = update_where P f (ru_tasks r)" "live_unique ts'" using checked_Some by blast+
  show "distinct (map tk_ID ts') \<and> live_unique ts' \<and> all_held (ru_inflight r) ts'"
    using ok ts' held by (simp add: runner_ok_def ids_update_where ids all_held_update)
qed

subsection \<open>Each step\<close>

lemma Second_pos [simp]: "0 < Second" by (simp add: Second_def)

lemma taskKindTimeout_bounds:
  "0 \<le> taskKindTimeout kind" "kind \<notin> set taskLongKinds \<Longrightarrow> taskKindTimeout kind < taskLease"
  "taskKindTimeout kind < taskLongLease"
  by (auto simp: taskKindTimeout_def taskKindTimeouts_def taskLongKinds_def taskTimeout_def taskOSImageBuildTimeout_def
      taskLease_def taskLongLease_def Minute_def Second_def split: if_splits)

text \<open>What runs in time is never stale, which is why the leases are longer than the timeouts.\<close>

lemma in_time_not_stale:
  assumes "in_time now e" "held e t" "tk_ID t = tk_ID e"
  shows "\<not> stale now taskLongKinds taskLongLease taskLease t"
  using assms taskKindTimeout_bounds[of "tk_Kind e"]
  by (auto simp: in_time_def held_def stale_def split: option.splits if_splits)

lemma runner_ok_reclaim:
  assumes "runner_ok r"
  shows "runner_ok (reclaim r taskLease taskLongLease)"
  unfolding reclaim_def ReclaimStaleScheduledTasks_def
proof (rule runner_ok_update[OF assms])
  fix e t assume "e \<in> set (ru_inflight r)" "stale (ru_now r) taskLongKinds taskLongLease taskLease t" "held e t"
  then show "held e (unlock (t\<lparr>tk_Status := Pending\<rparr>))"
    using assms in_time_not_stale by (auto simp: runner_ok_def held_def list_all_iff)
qed simp

lemma length_filter_ids:
  assumes "distinct (map tk_ID ts)"
  shows "length (filter (\<lambda>t. tk_ID t \<in> set is') ts) \<le> length is'"
proof -
  let ?fs = "filter (\<lambda>t. tk_ID t \<in> set is') ts"
  have "length ?fs = card (set (map tk_ID ?fs))" using assms by (metis distinct_card distinct_map_filter length_map)
  also have "\<dots> \<le> card (set is')" by (intro card_mono) auto
  also have "\<dots> \<le> length is'" by (rule card_length)
  finally show ?thesis .
qed

lemma claim_simps [simp]:
  "tk_ID (claim now inst t) = tk_ID t" "tk_Kind (claim now inst t) = tk_Kind t" "tk_Status (claim now inst t) = Running"
  "tk_LockedAt (claim now inst t) = Some now" "tk_SubjectID (claim now inst t) = tk_SubjectID t"
  "subject_key (claim now inst t) = subject_key t" "tk_Attempts (claim now inst t) = tk_Attempts t + 1"
  "tk_MaxAttempts (claim now inst t) = tk_MaxAttempts t"
  by (simp_all add: claim_def subject_key_def)

lemma picked_pending:
  assumes "tk_ID t \<in> set (map tk_ID (take n (due_tasks now ts)))" "t \<in> set ts" "distinct (map tk_ID ts)"
  shows "tk_Status t = Pending" "tk_RunAt t \<le> now"
proof -
  obtain u where u: "u \<in> set (due_tasks now ts)" "tk_ID u = tk_ID t" using assms(1) by (auto dest: in_set_takeD)
  then have "u = t" using assms(2,3) by (auto simp: due_tasks_def distinct_map inj_on_def)
  then show "tk_Status t = Pending" "tk_RunAt t \<le> now" using u by (auto simp: due_tasks_def)
qed

lemma runner_ok_poll:
  assumes ok: "runner_ok r"
  shows "runner_ok (poll r)"
proof (cases "taskWorkers - length (ru_inflight r) = 0")
  case True
  then show ?thesis using ok by (simp add: poll_def)
next
  case False
  let ?n = "taskWorkers - length (ru_inflight r)" and ?ts = "ru_tasks r" and ?now = "ru_now r"
  let ?P = "\<lambda>t. tk_ID t \<in> set (map tk_ID (take ?n (due_tasks ?now ?ts)))" and ?c = "claim ?now (ru_instance r)"
  let ?new = "map ?c (filter ?P ?ts)"
  have r': "poll r = r\<lparr>ru_tasks := update_where ?P ?c ?ts, ru_inflight := ru_inflight r @ ?new\<rparr>"
    using False by (simp add: poll_def ClaimDueScheduledTasks_def Let_def)
  have dist: "distinct (map tk_ID ?ts)" and held: "all_held (ru_inflight r) ?ts" using ok by (simp_all add: runner_ok_def)
  have pend: "tk_Status t = Pending" if "t \<in> set ?ts" "?P t" for t using picked_pending(1) that dist by blast
  have apart: "tk_ID e \<noteq> tk_ID t" if "e \<in> set (ru_inflight r)" "t \<in> set ?ts" "?P t" for e t
  proof
    assume "tk_ID e = tk_ID t"
    moreover have "held e t" using held that by (simp add: all_held_def)
    ultimately show False using pend[OF that(2,3)] by (simp add: held_def)
  qed
  have len: "length (ru_inflight r @ ?new) \<le> taskWorkers"
    using length_filter_ids[OF dist, of "map tk_ID (take ?n (due_tasks ?now ?ts))"] False by auto
  have ids: "distinct (map tk_ID (ru_inflight r @ ?new))"
    using ok apart dist by (auto simp: runner_ok_def o_def distinct_map_filter)
  have uniq: "live_unique (update_where ?P ?c ?ts)"
    using ok pend by (subst live_unique_update) (auto simp: runner_ok_def live_def)
  have old: "all_held (ru_inflight r) (update_where ?P ?c ?ts)"
  proof (rule all_held_update[OF held])
    fix e t assume "e \<in> set (ru_inflight r)" "t \<in> set ?ts" "?P t"
    then have "tk_ID e \<noteq> tk_ID t" by (rule apart)
    then show "held e (?c t)" by (simp add: held_def)
  qed
  have new: "all_held ?new (update_where ?P ?c ?ts)"
    unfolding all_held_def
  proof (intro ballI)
    fix e t assume e: "e \<in> set ?new" and t: "t \<in> set (update_where ?P ?c ?ts)"
    obtain u where u: "u \<in> set ?ts" "?P u" "e = ?c u" using e by auto
    obtain v where v: "v \<in> set ?ts" "t = (if ?P v then ?c v else v)" using t by (auto simp: set_update_where)
    show "held e t"
    proof (cases "tk_ID v = tk_ID u")
      case True
      then have "v = u" using u(1) v(1) dist by (auto simp: distinct_map inj_on_def)
      then show ?thesis using u v by (simp add: held_def)
    next
      case False
      then show ?thesis using u v by (auto simp: held_def)
    qed
  qed
  have both: "all_held (ru_inflight r @ ?new) (update_where ?P ?c ?ts)" using old new by (auto simp: all_held_def)
  have time: "list_all (in_time ?now) (ru_inflight r @ ?new)"
    using ok taskKindTimeout_bounds(1) by (auto simp: runner_ok_def list_all_iff in_time_def)
  show ?thesis
    unfolding r' runner_ok_def
    using len ids uniq both time dist by (simp add: ids_update_where)
qed

lemma runner_ok_settle:
  assumes ok: "runner_ok r" and e: "e \<in> set (ru_inflight r)"
  shows "runner_ok (with_tasks (r\<lparr>ru_inflight := remove1 e (ru_inflight r)\<rparr>) (execute (ru_now r) handler e (ru_tasks r)))"
    and "runner_ok (r\<lparr>ru_inflight := remove1 e (ru_inflight r)\<rparr>)"
proof -
  let ?r = "r\<lparr>ru_inflight := remove1 e (ru_inflight r)\<rparr>"
  have ids: "distinct (map tk_ID (ru_inflight r))" using ok by (simp add: runner_ok_def)
  have "distinct (ru_inflight r)" using ids by (simp add: distinct_map)
  then have rest: "set (remove1 e (ru_inflight r)) = set (ru_inflight r) - {e}" by simp
  have other: "tk_ID e' \<noteq> tk_ID e" if "e' \<in> set (remove1 e (ru_inflight r))" for e'
    using that ids e unfolding rest by (auto simp: distinct_map inj_on_def)
  have sub: "length (remove1 e (ru_inflight r)) \<le> length (ru_inflight r)" by (simp add: length_remove1)
  have rids: "distinct (map tk_ID (remove1 e (ru_inflight r)))"
    using ids \<open>distinct (ru_inflight r)\<close> unfolding distinct_map rest by (auto simp: inj_on_def)
  show ok': "runner_ok ?r"
    using ok rids sub rest by (auto simp: runner_ok_def list_all_iff all_held_def)
  have fin: "runner_ok (with_tasks ?r (checked (update_where (\<lambda>t. tk_ID t = tk_ID e) f (ru_tasks r))))"
    if f: "\<And>t. tk_ID (f t) = tk_ID t" for f
  proof -
    have "runner_ok (with_tasks ?r (checked (update_where (\<lambda>t. tk_ID t = tk_ID e) f (ru_tasks ?r))))"
    proof (rule runner_ok_update[OF ok' f])
      fix e' t assume "e' \<in> set (ru_inflight ?r)" "t \<in> set (ru_tasks ?r)" "tk_ID t = tk_ID e"
      then show "held e' (f t)" using other[of e'] f by (simp add: held_def)
    qed
    then show ?thesis by simp
  qed
  have settle: "runner_ok (with_tasks ?r (settle (ru_now r) e out (ru_tasks r)))" for out
    unfolding settle_def FinishScheduledTask_def RetryScheduledTask_def
    by (cases "to_status out") (simp_all add: fin)
  show "runner_ok (with_tasks ?r (execute (ru_now r) handler e (ru_tasks r)))"
    unfolding execute_def by (cases "handler e") (simp_all add: settle)
qed

lemma runner_ok_schedule:
  assumes ok: "runner_ok r" and i: "i \<notin> ids_of r"
  shows "runner_ok (with_tasks r (scheduleTask (ru_now r) i kind skind subject payload after attempts (ru_tasks r)))"
proof (rule runner_ok_with_tasks[OF ok])
  let ?row = "scheduled_row i kind skind subject payload (ru_now r + after) attempts"
  fix ts' assume "scheduleTask (ru_now r) i kind skind subject payload after attempts (ru_tasks r) = Some ts'"
  then have ts': "ts' = ru_tasks r @ [?row]" "live_unique ts'"
    unfolding scheduleTask_def CreateScheduledTask_def using checked_Some by blast+
  have row: "tk_ID ?row = i" by (simp add: scheduled_row_def)
  show "distinct (map tk_ID ts') \<and> live_unique ts' \<and> all_held (ru_inflight r) ts'"
    using ok i ts' row by (auto simp: runner_ok_def ids_of_def all_held_def held_def)
qed

lemma add_singletons_ok:
  assumes "distinct (map tk_ID ts)" "live_unique ts" "distinct ids" "set ids \<inter> tk_ID ` set ts = {}"
  shows "distinct (map tk_ID (add_singletons now ids kinds ts)) \<and> live_unique (add_singletons now ids kinds ts)"
  using assms
proof (induction now ids kinds ts rule: add_singletons.induct)
  case (1 now i ids kind delay rest ts)
  let ?row = "scheduled_row i kind [] None ''{}'' (now + delay) 20"
  let ?ts = "case CreateSingletonScheduledTask ?row ts of Some ts' \<Rightarrow> ts' | None \<Rightarrow> ts"
  have "?ts = ts \<or> ?ts = ts @ [?row] \<and> live_unique (ts @ [?row])"
    by (auto simp: CreateSingletonScheduledTask_def checked_def)
  moreover have "tk_ID ?row = i" by (simp add: scheduled_row_def)
  moreover have "distinct (map tk_ID (ts @ [?row]))" "set ids \<inter> tk_ID ` set (ts @ [?row]) = {}" "set ids \<inter> tk_ID ` set ts = {}"
    using "1.prems" by (auto simp: scheduled_row_def)
  ultimately have "distinct (map tk_ID ?ts)" "live_unique ?ts" "set ids \<inter> tk_ID ` set ?ts = {}"
    using "1.prems"(1,2) by metis+
  then show ?case using "1.IH" "1.prems"(3) by simp
qed simp_all

lemma runner_ok_restart:
  assumes ok: "runner_ok r" and ids: "distinct ids" "set ids \<inter> ids_of r = {}"
  shows "runner_ok (start_runner ids r)"
proof -
  let ?r0 = "r\<lparr>ru_inflight := []\<rparr>"
  have ok0: "runner_ok ?r0" using ok by (simp add: runner_ok_def all_held_def)
  have ok1: "runner_ok (reclaim ?r0 0 0)"
    unfolding reclaim_def ReclaimStaleScheduledTasks_def by (rule runner_ok_update[OF ok0]) simp_all
  have "map tk_ID (ru_tasks (reclaim ?r0 0 0)) = map tk_ID (ru_tasks r)"
    by (simp add: reclaim_def ReclaimStaleScheduledTasks_def with_tasks_def checked_def ids_update_where)
  then have same: "tk_ID ` set (ru_tasks (reclaim ?r0 0 0)) = tk_ID ` set (ru_tasks r)" "ru_inflight (reclaim ?r0 0 0) = []"
    by (metis set_map) (simp add: reclaim_def ReclaimStaleScheduledTasks_def with_tasks_def checked_def)
  have "distinct (map tk_ID (add_singletons (ru_now r) ids singletons (ru_tasks (reclaim ?r0 0 0)))) \<and>
        live_unique (add_singletons (ru_now r) ids singletons (ru_tasks (reclaim ?r0 0 0)))"
    using ok1 ids same by (intro add_singletons_ok) (auto simp: runner_ok_def ids_of_def)
  then show ?thesis
    unfolding start_runner_def Let_def using ok1 same(2) by (intro runner_ok_tasks) (simp_all add: all_held_def)
qed

lemma runner_ok_step:
  assumes "runner_step r r'" "runner_ok r"
  shows "runner_ok r'"
  using assms
proof (cases rule: runner_step.cases)
  case (passes now)
  then show ?thesis using assms(2) by (simp add: runner_ok_def)
next
  case (cancels_subject skind subj)
  show ?thesis
    unfolding cancels_subject CancelLiveScheduledTasksForSubject_def
    by (rule runner_ok_update[OF assms(2)]) (auto simp: held_def)
next
  case (cancels i)
  show ?thesis
    unfolding cancels CancelScheduledTask_def by (rule runner_ok_update[OF assms(2)]) (auto simp: held_def)
next
  case (brings_forward i)
  show ?thesis
    unfolding brings_forward RunScheduledTaskNow_def by (rule runner_ok_update[OF assms(2)]) (auto simp: held_def)
next
  case (prunes age)
  show ?thesis
    unfolding prunes DeleteSettledScheduledTasksBefore_def
    using assms(2) by (intro runner_ok_tasks) (auto simp: runner_ok_def distinct_map_filter live_unique_filter intro: all_held_mono)
qed (simp_all add: runner_ok_poll runner_ok_settle runner_ok_reclaim runner_ok_schedule runner_ok_restart)

lemma runner_reachable_ok: "runner_reachable r \<Longrightarrow> runner_ok r"
proof (induction rule: runner_reachable.induct)
  case (fresh now inst)
  then show ?case by (simp add: runner_ok_def live_unique_def all_held_def)
next
  case (steps r r')
  then show ?case by (blast intro: runner_ok_step)
qed

section \<open>A run\<close>

text \<open>A task is scheduled, comes due, is claimed and, while its handler runs, cancelled by its owner.\<close>

definition demo_start :: taskRunner where
  "demo_start = \<lparr>ru_now = 0, ru_instance = ''a'', ru_tasks = [], ru_inflight = []\<rparr>"

definition demo_scheduled :: taskRunner where
  "demo_scheduled = with_tasks demo_start (scheduleTask 0 ''t1'' ''vm.expire'' ''vm'' (Some ''v1'') ''{}'' Minute 240 [])"

definition demo_due :: taskRunner where "demo_due = demo_scheduled\<lparr>ru_now := 2 * Minute\<rparr>"
definition demo_polled :: taskRunner where "demo_polled = poll demo_due"

definition demo_cancelled :: taskRunner where
  "demo_cancelled =
     with_tasks demo_polled (CancelLiveScheduledTasksForSubject (2 * Minute) ''vm'' ''v1'' (ru_tasks demo_polled))"

definition demo_settled :: taskRunner where
  "demo_settled = with_tasks (demo_cancelled\<lparr>ru_inflight := remove1 (hd (ru_inflight demo_cancelled)) (ru_inflight demo_cancelled)\<rparr>)
     (execute (ru_now demo_cancelled) (\<lambda>_. Some (taskRetry (30 * Second))) (hd (ru_inflight demo_cancelled)) (ru_tasks demo_cancelled))"

lemma demo_states:
  "ru_now demo_scheduled = 0" "ru_inflight demo_scheduled = []" "ru_now demo_polled = 2 * Minute"
  "map tk_Status (ru_tasks demo_polled) = [Running]" "map tk_ID (ru_inflight demo_polled) = [''t1'']"
  "map tk_Status (ru_tasks demo_cancelled) = [Cancelled]" "ru_inflight demo_cancelled = ru_inflight demo_polled"
  "map tk_Status (ru_tasks demo_settled) = [Pending]" "tk_RunAt (hd (ru_tasks demo_due)) = Minute"
  by code_simp+

lemma demo_due_reachable: "runner_reachable demo_due"
proof -
  have "runner_reachable demo_start" unfolding demo_start_def by (rule fresh)
  then have "runner_reachable demo_scheduled"
  proof (rule steps)
    show "runner_step demo_start demo_scheduled"
      using schedules[of "''t1''" demo_start "''vm.expire''" "''vm''" "Some ''v1''" "''{}''" Minute 240]
      by (simp add: demo_scheduled_def demo_start_def ids_of_def)
  qed
  then show ?thesis
    unfolding demo_due_def
    by (rule steps) (rule passes; simp add: demo_states Minute_def less_imp_le)
qed

lemma demo_polled_reachable: "runner_reachable demo_polled"
  unfolding demo_polled_def using demo_due_reachable polls by (rule steps)

lemma demo_cancelled_reachable: "runner_reachable demo_cancelled"
  using steps[OF demo_polled_reachable cancels_subject[of demo_polled "''vm''" "''v1''"]]
  by (simp add: demo_cancelled_def demo_states(3))

section \<open>Properties\<close>

text \<open>
  Property C90. While handlers heed their deadlines, no task is ever executed twice at once, across claims, sweeps,
  cancellations and restarts, at most eight are executed at a time, and of each kind and subject at most one task is pending
  or running; the row of every task that is executed is still claimed by that execution, or has been cancelled.
\<close>
theorem no_task_runs_twice:
  assumes "runner_reachable r"
  shows "distinct (map tk_ID (ru_inflight r)) \<and> length (ru_inflight r) \<le> 8 \<and>
    (\<forall>t\<in>set (ru_tasks r). \<forall>u\<in>set (ru_tasks r). live t \<and> live u \<and> tk_SubjectID t \<noteq> None \<and> subject_key t = subject_key u \<longrightarrow> t = u) \<and>
    (\<forall>e\<in>set (ru_inflight r). \<forall>t\<in>set (ru_tasks r). tk_ID t = tk_ID e \<longrightarrow>
       tk_Status t = Cancelled \<or> tk_Status t = Running \<and> tk_LockedAt t = tk_LockedAt e)"
proof -
  have ok: "runner_ok r" using assms by (rule runner_reachable_ok)
  have "t = u" if "t \<in> set (ru_tasks r)" "u \<in> set (ru_tasks r)" "live t" "live u" "tk_SubjectID t \<noteq> None" "subject_key t = subject_key u" for t u
  proof -
    have "tk_SubjectID u \<noteq> None" using that(5,6) by (simp add: subject_key_def)
    then show ?thesis
      using ok that unfolding runner_ok_def live_unique_def distinct_map inj_on_def by auto
  qed
  then show ?thesis using ok by (auto simp: runner_ok_def taskWorkers_def all_held_def held_def)
qed

theorem no_task_runs_twice_witness:
  "length (ru_inflight demo_polled) = 1 \<and> distinct (map tk_ID (ru_inflight demo_polled)) \<and>
   (\<forall>e\<in>set (ru_inflight demo_polled). \<forall>t\<in>set (ru_tasks demo_polled). tk_ID t = tk_ID e \<longrightarrow>
       tk_Status t = Cancelled \<or> tk_Status t = Running \<and> tk_LockedAt t = tk_LockedAt e)"
proof -
  have "length (map tk_ID (ru_inflight demo_polled)) = 1" unfolding demo_states(5) by simp
  then show ?thesis using no_task_runs_twice[OF demo_polled_reachable] by simp
qed

text \<open>
  Property C91. A poll claims as many of the tasks that are due as there are free workers, the earliest first: with fewer
  than eight executions after it none that is due is left, and what is left behind is not due earlier than anything claimed.
\<close>
theorem poll_claims_earliest:
  assumes "runner_reachable r"
  shows "length (ru_inflight (poll r)) = min 8 (length (ru_inflight r) + length (due_tasks (ru_now r) (ru_tasks r))) \<and>
    (\<forall>t\<in>set (due_tasks (ru_now r) (ru_tasks r)).
       claim (ru_now r) (ru_instance r) t \<in> set (ru_inflight (poll r)) \<or>
       (length (ru_inflight (poll r)) = 8 \<and>
        (\<forall>e\<in>set (drop (length (ru_inflight r)) (ru_inflight (poll r))). tk_RunAt e \<le> tk_RunAt t)))"
proof -
  have ok: "runner_ok r" using assms by (rule runner_reachable_ok)
  let ?n = "taskWorkers - length (ru_inflight r)" and ?ts = "ru_tasks r" and ?due = "due_tasks (ru_now r) (ru_tasks r)"
  let ?P = "\<lambda>t. tk_ID t \<in> set (map tk_ID (take ?n ?due))" and ?c = "claim (ru_now r) (ru_instance r)"
  have inflight: "ru_inflight (poll r) = ru_inflight r @ map ?c (filter ?P ?ts)"
    by (simp add: poll_def ClaimDueScheduledTasks_def Let_def)
  have dist: "distinct (map tk_ID ?ts)" and few: "length (ru_inflight r) \<le> taskWorkers" using ok by (simp_all add: runner_ok_def)
  have sub: "set ?due \<subseteq> set ?ts" by (auto simp: due_tasks_def)
  have due: "distinct (map tk_ID ?due)"
  proof -
    have "distinct (map tk_ID (filter (\<lambda>t. tk_Status t = Pending \<and> tk_RunAt t \<le> ru_now r) ?ts))" using dist by (rule distinct_map_filter)
    then show ?thesis by (auto simp: due_tasks_def distinct_map)
  qed
  have picked: "set (filter ?P ?ts) = set (take ?n ?due)"
  proof -
    have "t \<in> set (take ?n ?due)" if t: "t \<in> set ?ts" "?P t" for t
    proof -
      obtain u where u: "u \<in> set (take ?n ?due)" "tk_ID u = tk_ID t" using t(2) by auto
      then have "u \<in> set ?ts" using sub in_set_takeD by fastforce
      then have "u = t" using dist t(1) u(2) by (auto simp: distinct_map inj_on_def)
      then show ?thesis using u(1) by simp
    qed
    then show ?thesis using sub by (auto dest: in_set_takeD)
  qed
  have "length (filter ?P ?ts) = length (take ?n ?due)"
  proof -
    have "distinct (filter ?P ?ts)" "distinct (take ?n ?due)" using dist due by (auto simp: distinct_map distinct_take)
    then show ?thesis using picked by (metis distinct_card)
  qed
  then have len: "length (ru_inflight (poll r)) = min 8 (length (ru_inflight r) + length ?due)"
    using few by (simp add: inflight taskWorkers_def)
  have "set (map ?c (filter ?P ?ts)) = ?c ` set (take ?n ?due)" by (simp only: set_map[of ?c "filter ?P ?ts"] picked)
  then have claimed: "set (drop (length (ru_inflight r)) (ru_inflight (poll r))) = ?c ` set (take ?n ?due)"
    "?c ` set (take ?n ?due) \<subseteq> set (ru_inflight (poll r))"
    unfolding inflight by (simp_all only: drop_append set_append) (auto simp del: set_map)
  have sorted: "sorted (map tk_RunAt ?due)" by (simp add: due_tasks_def)
  have "?c t \<in> set (ru_inflight (poll r)) \<or> (length (ru_inflight (poll r)) = 8 \<and>
        (\<forall>e\<in>set (drop (length (ru_inflight r)) (ru_inflight (poll r))). tk_RunAt e \<le> tk_RunAt t))" if t: "t \<in> set ?due" for t
  proof (cases "t \<in> set (take ?n ?due)")
    case True
    then show ?thesis using claimed by blast
  next
    case False
    then have late: "t \<in> set (drop ?n ?due)" using t by (metis Un_iff append_take_drop_id set_append)
    then have "?n < length ?due" by (metis drop_all empty_iff empty_set not_le)
    then have "length (ru_inflight (poll r)) = 8" using len few by (simp add: taskWorkers_def)
    moreover have "tk_RunAt u \<le> tk_RunAt t" if "u \<in> set (take ?n ?due)" for u
      using sorted late that sorted_append[of "map tk_RunAt (take ?n ?due)" "map tk_RunAt (drop ?n ?due)"]
      by (metis (no_types, lifting) append_take_drop_id imageI list.set_map map_append)
    ultimately show ?thesis unfolding claimed(1) by (auto simp: claim_def)
  qed
  then show ?thesis using len by blast
qed

theorem poll_claims_earliest_witness:
  "length (ru_inflight (poll demo_due)) = 1 \<and> length (due_tasks (ru_now demo_due) (ru_tasks demo_due)) = 1 \<and>
   (\<forall>t\<in>set (due_tasks (ru_now demo_due) (ru_tasks demo_due)). claim (ru_now demo_due) (ru_instance demo_due) t \<in> set (ru_inflight (poll demo_due)))"
proof -
  have "length (due_tasks (ru_now demo_due) (ru_tasks demo_due)) = 1" "length (ru_inflight demo_due) = 0" by code_simp+
  then show ?thesis using poll_claims_earliest[OF demo_due_reachable] by auto
qed

text \<open>
  Property C92. Below 9223372037 seconds a time to live is taken exactly when it is zero or lies between ten seconds and
  thirty days, and is then that many seconds.
\<close>
theorem parseTTLSeconds_spec:
  assumes "secs < 9223372037"
  shows "parseTTLSeconds secs =
    (if secs = 0 then Inr 0 else if secs < 10 then Inl TooShort else if secs > 2592000 then Inl TooLong
     else Inr (secs * 1000000000))"
proof -
  consider "secs < 0" | "secs = 0" | "0 < secs" by linarith
  then show ?thesis
  proof cases
    case 3
    then have "int64_of (secs * 1000000000) = secs * 1000000000" using assms by (simp add: int64_of_def)
    then show ?thesis
      using 3 by (simp add: parseTTLSeconds_def Let_def minTaskTTL_def maxTaskTTL_def Hour_def Minute_def Second_def)
  qed (simp_all add: parseTTLSeconds_def)
qed

theorem parseTTLSeconds_spec_witness:
  "parseTTLSeconds 2592000 = Inr (2592000 * 1000000000) \<and> parseTTLSeconds 2592001 = Inl TooLong \<and> parseTTLSeconds 9 = Inl TooShort"
  using parseTTLSeconds_spec[of 2592000] parseTTLSeconds_spec[of 2592001] parseTTLSeconds_spec[of 9] by simp

text \<open>Above that the product wraps around: a time to live of 584 years is taken for ten seconds.\<close>

lemma ttl_wraps: "parseTTLSeconds 18446744084 = Inr 10290448384"
  by code_simp

text \<open>
  Property C93. A task that is cancelled while its handler runs comes back: the handler asks for another attempt, and the
  statement that queues it again does not ask whether the task is still running.
\<close>
theorem cancelled_task_comes_back:
  "\<exists>r r'. runner_reachable r \<and> runner_step r r' \<and>
     map tk_Status (ru_tasks r) = [Cancelled] \<and> map tk_Status (ru_tasks r') = [Pending]"
proof (intro exI conjI)
  have "ru_inflight demo_cancelled \<noteq> []" using demo_states(5,7) by auto
  then have "hd (ru_inflight demo_cancelled) \<in> set (ru_inflight demo_cancelled)" by simp
  then show "runner_step demo_cancelled demo_settled" unfolding demo_settled_def by (rule settles)
qed (simp_all add: demo_states demo_cancelled_reachable)

section \<open>Attempts\<close>

text \<open>One attempt of a task whose handler asks for another one: it is claimed and settled.\<close>

definition attempt_again :: "instant \<Rightarrow> string \<Rightarrow> duration \<Rightarrow> task \<Rightarrow> task list option" where
  "attempt_again now inst after t = settle now (claim now inst t) (taskRetry after) [claim now inst t]"

fun attempts_again :: "instant list \<Rightarrow> string \<Rightarrow> duration \<Rightarrow> task \<Rightarrow> task list option" where
  "attempts_again [] inst after t = Some [t]"
| "attempts_again (now # nows) inst after t =
     (case attempt_again now inst after t of
        Some [t'] \<Rightarrow> if nows = [] then Some [t'] else if tk_Status t' = Pending then attempts_again nows inst after t' else None
      | _ \<Rightarrow> None)"

lemma live_unique_single: "live_unique [t]"
  by (simp add: live_unique_def)

lemma attempt_again_row:
  assumes "tk_Attempts t + 1 < tk_MaxAttempts t"
  obtains t' where "attempt_again now inst after t = Some [t']" "tk_Status t' = Pending" "tk_Attempts t' = tk_Attempts t + 1"
    "tk_MaxAttempts t' = tk_MaxAttempts t" "now < tk_RunAt t'"
proof -
  have "0 < taskBackoff n" for n by (simp add: taskBackoff_def Minute_def)
  then show thesis
    using assms that[of "unlock (claim now inst t\<lparr>tk_Status := Pending,
        tk_RunAt := now + (if after \<le> 0 then taskBackoff (tk_Attempts t + 1) else after)\<rparr>)"]
    by (simp add: attempt_again_def settle_def taskRetry_def RetryScheduledTask_def update_where_def checked_def live_unique_single
        split: if_splits)
qed

lemma attempt_again_last:
  assumes "tk_Attempts t + 1 \<ge> tk_MaxAttempts t"
  obtains t' where "attempt_again now inst after t = Some [t']" "tk_Status t' = Failed"
  using assms that
  by (simp add: attempt_again_def settle_def taskRetry_def FinishScheduledTask_def update_where_def checked_def live_unique_single)

text \<open>
  Property C94. A task whose handler always asks for another attempt is queued again after every attempt before the last
  that it is allowed, and is failed by that one.
\<close>
theorem gives_up_after_last_attempt:
  assumes "tk_Attempts t + int (length nows) \<le> tk_MaxAttempts t" "nows \<noteq> []"
  shows "\<exists>t'. attempts_again nows inst after t = Some [t'] \<and>
    tk_Status t' = (if tk_Attempts t + int (length nows) = tk_MaxAttempts t then Failed else Pending)"
  using assms
proof (induction nows arbitrary: t)
  case (Cons now nows)
  show ?case
  proof (cases "tk_Attempts t + 1 < tk_MaxAttempts t")
    case True
    then obtain t' where t': "attempt_again now inst after t = Some [t']" "tk_Status t' = Pending" "tk_Attempts t' = tk_Attempts t + 1"
      "tk_MaxAttempts t' = tk_MaxAttempts t" by (rule attempt_again_row)
    show ?thesis
    proof (cases "nows = []")
      case True
      then show ?thesis using t' \<open>tk_Attempts t + 1 < tk_MaxAttempts t\<close> by simp
    next
      case False
      then have "\<exists>u. attempts_again nows inst after t' = Some [u] \<and>
        tk_Status u = (if tk_Attempts t' + int (length nows) = tk_MaxAttempts t' then Failed else Pending)"
        using Cons.prems(1) t'(3,4) by (intro Cons.IH) simp_all
      then show ?thesis using t' False by (simp add: algebra_simps)
    qed
  next
    case False
    have "int (length (now # nows)) = int (length nows) + 1" by simp
    then have "int (length nows) = 0" "tk_Attempts t + 1 = tk_MaxAttempts t" using Cons.prems(1) False by linarith+
    then have "nows = []" "tk_Attempts t + 1 = tk_MaxAttempts t" by simp_all
    have most: "tk_MaxAttempts t \<le> tk_Attempts t + 1" using False by simp
    obtain t' where "attempt_again now inst after t = Some [t']" "tk_Status t' = Failed"
      using attempt_again_last[OF most] .
    then show ?thesis using \<open>nows = []\<close> \<open>tk_Attempts t + 1 = tk_MaxAttempts t\<close> by simp
  qed
qed simp

definition demo_task :: task where
  "demo_task = scheduled_row ''t1'' ''vm.expire'' ''vm'' (Some ''v1'') ''{}'' 0 3"

theorem gives_up_after_last_attempt_witness:
  "\<exists>t'. attempts_again [1, 2, 3] ''a'' Second demo_task = Some [t'] \<and> tk_Status t' = Failed"
  using gives_up_after_last_attempt[of demo_task "[1, 2, 3]" "''a''" Second] by (simp add: demo_task_def scheduled_row_def)

end
