(* ===== verification/Ctl_Handlers.thy ===== *)
theory Ctl_Handlers
  imports Ctl_Tasks Go_Netip
begin

text \<open>
  Handlers of the scheduled tasks (\<open>control/task_handlers.go\<close>): the withdrawal of a temporary destination, the end of a
  temporary machine, the pruning of settled tasks, and the path of a custom domain from its CNAME to a certificate, with the
  check of the CNAME. A handler answers with its outcome and the calls it made; what the database, the resolver and the
  connected hosts answer are arguments. A row is \<open>None\<close> when the query fails and \<open>Some None\<close> when there is no such row.
\<close>

section \<open>Constants\<close>

definition taskExpireRetry :: duration where "taskExpireRetry = 30 * Second"
definition taskExpireAttempts :: int where "taskExpireAttempts = 240"
definition taskCleanupEvery :: duration where "taskCleanupEvery = 24 * Hour"
definition customDomainAttempts :: int where "customDomainAttempts = 40"
definition customDomainRetry :: duration where "customDomainRetry = 30 * Second"
definition customDomainCNAMEChecks :: int where "customDomainCNAMEChecks = 3"
definition customDomainCNAMERetry :: duration where "customDomainCNAMERetry = 10 * Second"
definition customDomainOrderTimeout :: duration where "customDomainOrderTimeout = 5 * Minute"
definition certRenewBefore :: duration where "certRenewBefore = 30 * 24 * Hour"

datatype task_call =
    DeleteTarget string | PushSuricata string | PushCoreDNS string
  | SendDestroy string string string
  | SendCertOrder string string
  | NoteDomain string string
  | MarkOrdered string

section \<open>A temporary destination\<close>

text \<open>\<open>removed\<close> is the number of rows that the deletion removed, or \<open>None\<close> when it fails; the row names its host.\<close>

definition handleVMTargetExpire :: "string option option \<Rightarrow> nat option \<Rightarrow> task \<Rightarrow> taskOutcome \<times> task_call list" where
  "handleVMTargetExpire row removed t =
     (case tk_SubjectID t of
        None \<Rightarrow> (taskFailed, [])
      | Some target \<Rightarrow>
          (case row of
             None \<Rightarrow> (taskRetry taskExpireRetry, [])
           | Some None \<Rightarrow> (taskCancelled, [])
           | Some (Some client) \<Rightarrow>
               (case removed of
                  None \<Rightarrow> (taskRetry taskExpireRetry, [DeleteTarget target])
                | Some n \<Rightarrow> (taskDone, [DeleteTarget target, PushSuricata client, PushCoreDNS client]))))"

section \<open>A temporary machine\<close>

record expiring_vm =
  ev_Status :: string
  ev_VMID :: string
  ev_Client :: string

definition handleVMExpire ::
  "expiring_vm option option \<Rightarrow> (string \<Rightarrow> bool) \<Rightarrow> (string \<Rightarrow> bool) \<Rightarrow> task \<Rightarrow> taskOutcome \<times> task_call list" where
  "handleVMExpire row connected send t =
     (case tk_SubjectID t of
        None \<Rightarrow> (taskFailed, [])
      | Some vm \<Rightarrow>
          (case row of
             None \<Rightarrow> (taskRetry taskExpireRetry, [])
           | Some None \<Rightarrow> (taskCancelled, [])
           | Some (Some v) \<Rightarrow>
               if ev_Status v = ''gone'' then (taskDone, [])
               else if ev_Status v = ''failed'' then (taskCancelled, [])
               else if ev_Status v = ''pending'' then (taskRetry taskExpireRetry, [])
               else if ev_VMID v = [] then (taskRetry taskExpireRetry, [])
               else if \<not> connected (ev_Client v) then (taskRetry taskExpireRetry, [])
               else if \<not> send (ev_Client v) then (taskRetry taskExpireRetry, [])
               else (taskRetry taskExpireRetry, [SendDestroy (ev_Client v) vm (ev_VMID v)])))"

section \<open>The pruning of settled tasks\<close>

text \<open>\<open>ok\<close> says whether the deletion and the insertion succeed; the task that runs is still live when its successor is made.\<close>

definition handleTaskCleanup :: "instant \<Rightarrow> bool \<Rightarrow> bool \<Rightarrow> string \<Rightarrow> task list \<Rightarrow> taskOutcome \<times> task list" where
  "handleTaskCleanup now prune_ok insert_ok i ts =
     (if \<not> prune_ok then (taskRetry taskExpireRetry, ts)
      else let pruned = DeleteSettledScheduledTasksBefore now taskRetention ts in
        case (if insert_ok then scheduleTask now i ''tasks.cleanup'' [] None ''{}'' taskCleanupEvery 0 pruned else None) of
          None \<Rightarrow> (taskRetry taskExpireRetry, pruned)
        | Some ts' \<Rightarrow> (taskDone, ts'))"

section \<open>The CNAME of a custom domain\<close>

definition normalizeDNSName :: "string \<Rightarrow> string" where
  "normalizeDNSName name = trim_suffix (to_lower name) ''.''"

text \<open>The CNAME records of an answer, by owner and target, in order; a later record of a name replaces an earlier one.\<close>

definition cname_next :: "(string \<times> string) list \<Rightarrow> string \<Rightarrow> string option" where
  "cname_next answers = map_of (rev (map (\<lambda>(owner, target). (normalizeDNSName owner, normalizeDNSName target)) answers))"

fun chain_from :: "(string \<Rightarrow> string option) \<Rightarrow> nat \<Rightarrow> string \<Rightarrow> string list" where
  "chain_from next 0 name = []"
| "chain_from next (Suc n) name =
     (case next name of None \<Rightarrow> [] | Some target \<Rightarrow> target # chain_from next n target)"

definition cnameChain :: "string \<Rightarrow> (string \<times> string) list \<Rightarrow> string list" where
  "cnameChain domain answers = chain_from (cname_next answers) 16 (normalizeDNSName domain)"

datatype cname_error = NoCNAME | OtherCNAME string

definition matchCNAMEChain :: "string \<Rightarrow> string list \<Rightarrow> cname_error option" where
  "matchCNAMEChain target chain =
     (case chain of
        [] \<Rightarrow> Some NoCNAME
      | c # _ \<Rightarrow> if normalizeDNSName target \<in> set chain then None else Some (OtherCNAME c))"

definition matchFlattened :: "ip_addr list \<Rightarrow> ip_addr list \<Rightarrow> ip_addr option" where
  "matchFlattened got want = map_option Unmap (find (\<lambda>a. Unmap a \<notin> Unmap ` set want) got)"

text \<open>What the resolver knows: the records of an A query, and the addresses of a name.\<close>

record resolver_world =
  rs_apex :: "string \<Rightarrow> bool"
  rs_answers :: "string \<Rightarrow> (string \<times> string) list option"
  rs_addrs :: "string \<Rightarrow> ip_addr list option"

definition addrs_of :: "resolver_world \<Rightarrow> string \<Rightarrow> ip_addr list option" where
  "addrs_of w name = (case rs_addrs w name of None \<Rightarrow> None | Some as \<Rightarrow> if as = [] then None else Some as)"

definition verifyFlattened :: "resolver_world \<Rightarrow> string \<Rightarrow> string \<Rightarrow> bool" where
  "verifyFlattened w domain target =
     (case addrs_of w target of
        None \<Rightarrow> False
      | Some want \<Rightarrow> (case addrs_of w domain of None \<Rightarrow> False | Some got \<Rightarrow> matchFlattened got want = None))"

definition verifyCNAME :: "resolver_world \<Rightarrow> string \<Rightarrow> string \<Rightarrow> bool" where
  "verifyCNAME w domain target =
     (if rs_apex w domain then verifyFlattened w domain target
      else case rs_answers w domain of
        None \<Rightarrow> False
      | Some answers \<Rightarrow> matchCNAMEChain target (cnameChain domain answers) = None)"

section \<open>The certificate of a custom domain\<close>

record issue_row =
  is_ID :: string
  is_Domain :: string
  is_Status :: string
  is_CertNotAfter :: "instant option"
  is_OrderedAt :: "instant option"
  is_VMName :: string
  is_Client :: string
  is_DomainTLD :: string

text \<open>\<open>renew\<close> is the member of the payload; the status is noted only for a claim that is not renewed.\<close>

definition give_up :: "bool \<Rightarrow> issue_row \<Rightarrow> taskOutcome \<times> task_call list" where
  "give_up renew row = (taskFailed, if renew then [] else [NoteDomain (is_ID row) ''failed''])"

definition settled_already :: "instant \<Rightarrow> bool \<Rightarrow> issue_row \<Rightarrow> taskOutcome option" where
  "settled_already now renew row =
     (if renew
      then (case is_CertNotAfter row of None \<Rightarrow> None | Some e \<Rightarrow> if e - now > certRenewBefore then Some taskDone else None)
      else if is_Status row = ''active'' then Some taskDone
      else if is_Status row = ''failed'' then Some taskFailed else None)"

definition being_ordered :: "instant \<Rightarrow> issue_row \<Rightarrow> bool" where
  "being_ordered now row =
     (case is_OrderedAt row of None \<Rightarrow> False | Some t \<Rightarrow> now - t < customDomainOrderTimeout)"

definition handleCustomDomainIssue ::
  "instant \<Rightarrow> bool \<Rightarrow> issue_row option option \<Rightarrow> resolver_world \<Rightarrow> (string \<Rightarrow> bool) \<Rightarrow> (string \<Rightarrow> bool) \<Rightarrow> task \<Rightarrow>
   taskOutcome \<times> task_call list" where
  "handleCustomDomainIssue now renew row w connected send t =
     (if tk_SubjectID t = None then (taskFailed, [])
      else case row of
        None \<Rightarrow> (taskRetry customDomainRetry, [])
      | Some None \<Rightarrow> (taskCancelled, [])
      | Some (Some r) \<Rightarrow>
          (case settled_already now renew r of
             Some out \<Rightarrow> (out, [])
           | None \<Rightarrow>
               let lastAttempt = tk_Attempts t + 1 \<ge> tk_MaxAttempts t in
               if is_DomainTLD r = [] then give_up renew r
               else let target = is_VMName r @ ''.'' @ is_DomainTLD r in
               if being_ordered now r then (if lastAttempt then give_up renew r else (taskRetry customDomainRetry, []))
               else if \<not> verifyCNAME w (is_Domain r) target
               then (if lastAttempt then give_up renew r
                     else if renew then (taskRetry customDomainRetry, [])
                     else if tk_Attempts t + 1 \<ge> customDomainCNAMEChecks
                     then (taskFailed, [NoteDomain (is_ID r) ''pending_dns''])
                     else (taskRetry customDomainCNAMERetry, []))
               else if \<not> connected (is_Client r)
               then (if lastAttempt then give_up renew r else (taskRetry customDomainRetry, []))
               else if \<not> send (is_Client r) then (taskRetry customDomainRetry, [])
               else (taskRetry customDomainRetry,
                     SendCertOrder (is_Client r) (is_Domain r) #
                     (if renew then [] else [NoteDomain (is_ID r) ''issuing'']) @ [MarkOrdered (is_ID r)])))"

section \<open>The chain of a domain\<close>

fun follow :: "(string \<Rightarrow> string option) \<Rightarrow> nat \<Rightarrow> string \<Rightarrow> string option" where
  "follow next 0 name = Some name"
| "follow next (Suc n) name = (case next name of None \<Rightarrow> None | Some target \<Rightarrow> follow next n target)"

lemma chain_from_iff: "c \<in> set (chain_from next n name) \<longleftrightarrow> (\<exists>k. 1 \<le> k \<and> k \<le> n \<and> follow next k name = Some c)"
proof (induction n arbitrary: name)
  case (Suc n)
  show ?case
  proof (cases "next name")
    case None
    then have "follow next k name \<noteq> Some c" if "1 \<le> k" for k using that by (cases k) auto
    then show ?thesis using None by auto
  next
    case (Some target)
    have "(\<exists>k. 1 \<le> k \<and> k \<le> Suc n \<and> follow next k name = Some c) \<longleftrightarrow>
          c = target \<or> (\<exists>k. 1 \<le> k \<and> k \<le> n \<and> follow next k target = Some c)"
    proof safe
      fix k assume "1 \<le> k" "k \<le> Suc n" "follow next k name = Some c"
        "\<not> (\<exists>k. 1 \<le> k \<and> k \<le> n \<and> follow next k target = Some c)"
      then show "c = target" using Some by (cases k; cases "k - 1") auto
    next
      show "\<exists>k\<ge>1. k \<le> Suc n \<and> follow next k name = Some target" using Some by (intro exI[of _ 1]) simp
    next
      fix k assume "1 \<le> k" "k \<le> n" "follow next k target = Some c"
      then show "\<exists>k\<ge>1. k \<le> Suc n \<and> follow next k name = Some c" using Some by (intro exI[of _ "Suc k"]) simp
    qed
    then show ?thesis using Some Suc.IH by simp
  qed
qed simp

lemma matchCNAMEChain_None: "matchCNAMEChain target chain = None \<longleftrightarrow> normalizeDNSName target \<in> set chain"
  by (cases chain) (auto simp: matchCNAMEChain_def)

lemma cname_accepted_iff:
  "matchCNAMEChain target (cnameChain domain answers) = None \<longleftrightarrow>
   (\<exists>k. 1 \<le> k \<and> k \<le> 16 \<and> follow (cname_next answers) k (normalizeDNSName domain) = Some (normalizeDNSName target))"
  unfolding matchCNAMEChain_None cnameChain_def chain_from_iff ..

lemma verifyFlattened_addrs:
  assumes "verifyFlattened w domain target"
  obtains got want where "rs_addrs w domain = Some got" "got \<noteq> []" "rs_addrs w target = Some want"
    "Unmap ` set got \<subseteq> Unmap ` set want"
proof -
  obtain want got where w: "addrs_of w target = Some want" "addrs_of w domain = Some got" "matchFlattened got want = None"
    using assms by (auto simp: verifyFlattened_def split: option.splits)
  have "rs_addrs w target = Some want" "rs_addrs w domain = Some got" "got \<noteq> []"
    using w(1,2) by (auto simp: addrs_of_def split: option.splits if_splits)
  moreover have "Unmap ` set got \<subseteq> Unmap ` set want" using w(3) by (auto simp: matchFlattened_def find_None_iff)
  ultimately show thesis using that by blast
qed

lemma handleCustomDomainIssue_sends:
  assumes "handleCustomDomainIssue now renew row w connected send t = (out, calls)" "SendCertOrder client domain \<in> set calls"
  obtains r where "row = Some (Some r)" "client = is_Client r" "domain = is_Domain r" "settled_already now renew r = None"
    "is_DomainTLD r \<noteq> []" "\<not> being_ordered now r" "verifyCNAME w domain (is_VMName r @ ''.'' @ is_DomainTLD r)" "connected client" "send client"
  using assms
  by (auto simp: handleCustomDomainIssue_def give_up_def Let_def split: option.splits if_splits)

text \<open>
  Property C90. A host is asked for the certificate of a custom domain only when that is its own machine's domain, it is
  connected, no order is in flight, and the name leads to the machine: by at most sixteen CNAME records from the domain, or,
  for an apex, with every address of the domain one of the addresses of the machine's name.
\<close>
theorem certificate_ordered_for_pointing_domain:
  assumes "handleCustomDomainIssue now renew row w connected send t = (out, calls)" "SendCertOrder client domain \<in> set calls"
  shows "\<exists>r. row = Some (Some r) \<and> client = is_Client r \<and> domain = is_Domain r \<and> connected client \<and> is_DomainTLD r \<noteq> [] \<and>
    (\<forall>o'. is_OrderedAt r = Some o' \<longrightarrow> now - o' \<ge> 5 * Minute) \<and>
    (if rs_apex w domain
     then \<exists>got want. rs_addrs w domain = Some got \<and> got \<noteq> [] \<and> rs_addrs w (is_VMName r @ ''.'' @ is_DomainTLD r) = Some want \<and>
            Unmap ` set got \<subseteq> Unmap ` set want
     else \<exists>answers k. rs_answers w domain = Some answers \<and> 1 \<le> k \<and> k \<le> 16 \<and>
            follow (cname_next answers) k (normalizeDNSName domain) = Some (normalizeDNSName (is_VMName r @ ''.'' @ is_DomainTLD r)))"
proof -
  obtain r where r: "row = Some (Some r)" "client = is_Client r" "domain = is_Domain r" "settled_already now renew r = None"
    "is_DomainTLD r \<noteq> []" "\<not> being_ordered now r" "verifyCNAME w domain (is_VMName r @ ''.'' @ is_DomainTLD r)" "connected client"
    using assms by (rule handleCustomDomainIssue_sends)
  have "\<forall>o'. is_OrderedAt r = Some o' \<longrightarrow> now - o' \<ge> 5 * Minute"
    using r(6) by (auto simp: being_ordered_def customDomainOrderTimeout_def)
  moreover have "if rs_apex w domain
     then \<exists>got want. rs_addrs w domain = Some got \<and> got \<noteq> [] \<and> rs_addrs w (is_VMName r @ ''.'' @ is_DomainTLD r) = Some want \<and>
            Unmap ` set got \<subseteq> Unmap ` set want
     else \<exists>answers k. rs_answers w domain = Some answers \<and> 1 \<le> k \<and> k \<le> 16 \<and>
            follow (cname_next answers) k (normalizeDNSName domain) = Some (normalizeDNSName (is_VMName r @ ''.'' @ is_DomainTLD r))"
  proof (cases "rs_apex w domain")
    case True
    then have "verifyFlattened w domain (is_VMName r @ ''.'' @ is_DomainTLD r)" using r(7) by (simp add: verifyCNAME_def)
    then show ?thesis using True by (auto elim: verifyFlattened_addrs)
  next
    case False
    then show ?thesis using r(7) by (auto simp: verifyCNAME_def cname_accepted_iff split: option.splits)
  qed
  ultimately show ?thesis using r(1-3,5,8) by blast
qed

definition demo_issue_row :: issue_row where
  "demo_issue_row = \<lparr>is_ID = ''d1'', is_Domain = ''www.example.org'', is_Status = ''verifying'', is_CertNotAfter = None,
     is_OrderedAt = None, is_VMName = ''web'', is_Client = ''host1'', is_DomainTLD = ''vm.example''\<rparr>"

definition demo_issue_task :: "int \<Rightarrow> task" where
  "demo_issue_task n = (scheduled_row ''t9'' ''custom_domain.issue'' ''vm_custom_domain'' (Some ''d1'') ''{}'' 0 40)\<lparr>tk_Status := Running, tk_Attempts := n\<rparr>"

definition demo_resolver :: resolver_world where
  "demo_resolver = \<lparr>rs_apex = \<lambda>_. False, rs_answers = \<lambda>_. Some [(''WWW.example.org.'', ''web.vm.example.'')], rs_addrs = \<lambda>_. None\<rparr>"

theorem certificate_ordered_for_pointing_domain_witness:
  "\<exists>answers k. rs_answers demo_resolver ''www.example.org'' = Some answers \<and> 1 \<le> k \<and> k \<le> (16::nat) \<and>
     follow (cname_next answers) k ''www.example.org'' = Some ''web.vm.example''"
proof -
  let ?h = "handleCustomDomainIssue 0 False (Some (Some demo_issue_row)) demo_resolver (\<lambda>_. True) (\<lambda>_. True) (demo_issue_task 1)"
  have h: "?h = (fst ?h, snd ?h)" by simp
  have sent: "SendCertOrder ''host1'' ''www.example.org'' \<in> set (snd ?h)" by code_simp
  have names: "normalizeDNSName ''www.example.org'' = ''www.example.org''" "normalizeDNSName (''web'' @ ''.'' @ ''vm.example'') = ''web.vm.example''"
    by code_simp+
  show ?thesis
    using certificate_ordered_for_pointing_domain[OF h sent] names
    by (auto simp: demo_issue_row_def demo_resolver_def)
qed

text \<open>
  Property C91. A renewal never changes the status of a domain, whatever happens: the certificate in use goes on serving.
\<close>
theorem renewal_keeps_status:
  "NoteDomain i s \<notin> set (snd (handleCustomDomainIssue now True row w connected send t))"
  by (auto simp: handleCustomDomainIssue_def give_up_def Let_def split: option.split)

text \<open>
  Property C92. A CNAME that is missing is checked twice and not the three times that are meant: the attempts of a task are
  counted when it is claimed, and the handler adds one more. In the same way the attempt before the last counts as the last.
\<close>
theorem cname_checked_twice:
  assumes "\<not> verifyCNAME w (is_Domain r) (is_VMName r @ ''.'' @ is_DomainTLD r)" "is_DomainTLD r \<noteq> []" "is_OrderedAt r = None"
    "is_Status r \<notin> {''active'', ''failed''}" "tk_SubjectID t \<noteq> None" "tk_MaxAttempts t = customDomainAttempts"
  shows "handleCustomDomainIssue now False (Some (Some r)) w connected send (t\<lparr>tk_Attempts := 1\<rparr>) = (taskRetry customDomainCNAMERetry, []) \<and>
    handleCustomDomainIssue now False (Some (Some r)) w connected send (t\<lparr>tk_Attempts := 2\<rparr>) =
      (taskFailed, [NoteDomain (is_ID r) ''pending_dns'']) \<and> customDomainCNAMEChecks = 3"
  using assms
  by (auto simp: handleCustomDomainIssue_def settled_already_def being_ordered_def customDomainAttempts_def customDomainCNAMEChecks_def Let_def)

theorem cname_checked_twice_witness:
  "handleCustomDomainIssue 0 False (Some (Some demo_issue_row)) (demo_resolver\<lparr>rs_answers := \<lambda>_. Some []\<rparr>) (\<lambda>_. True) (\<lambda>_. True) (demo_issue_task 2) =
   (taskFailed, [NoteDomain ''d1'' ''pending_dns''])"
proof -
  let ?w = "demo_resolver\<lparr>rs_answers := \<lambda>_. Some []\<rparr>" and ?r = demo_issue_row
  have "\<not> verifyCNAME ?w (is_Domain ?r) (is_VMName ?r @ ''.'' @ is_DomainTLD ?r)" "is_DomainTLD ?r \<noteq> []" "is_OrderedAt ?r = None"
    "is_Status ?r \<notin> {''active'', ''failed''}" "tk_SubjectID (demo_issue_task 2) \<noteq> None"
    "tk_MaxAttempts (demo_issue_task 2) = customDomainAttempts"
    by code_simp+
  from cname_checked_twice[OF this, of 0 "\<lambda>_. True" "\<lambda>_. True"]
  show ?thesis by (simp add: demo_issue_task_def demo_issue_row_def)
qed

section \<open>The end of a temporary machine\<close>

text \<open>
  Property C93. The task that ends a temporary machine is done only once the machine is gone, and cancelled only when there
  is no such machine or it never started; the host is asked to destroy exactly the machine it has, under the identifier it
  reported.
\<close>
theorem expiry_done_only_when_gone:
  assumes "handleVMExpire row connected send t = (out, calls)"
  shows "(to_status out = Some Done \<longrightarrow> (\<exists>v. row = Some (Some v) \<and> ev_Status v = ''gone'')) \<and>
    (to_status out = Some Cancelled \<longrightarrow> row = Some None \<or> (\<exists>v. row = Some (Some v) \<and> ev_Status v = ''failed'')) \<and>
    (\<forall>client vm i. SendDestroy client vm i \<in> set calls \<longrightarrow>
       tk_SubjectID t = Some vm \<and> (\<exists>v. row = Some (Some v) \<and> ev_Client v = client \<and> ev_VMID v = i \<and> i \<noteq> [] \<and>
         ev_Status v \<notin> {''gone'', ''failed'', ''pending''} \<and> connected client))"
  using assms
  by (auto simp: handleVMExpire_def taskDone_def taskFailed_def taskCancelled_def taskRetry_def split: option.splits if_splits)

theorem expiry_done_only_when_gone_witness:
  "SendDestroy ''host1'' ''v1'' ''a1b2c3'' \<in>
     set (snd (handleVMExpire (Some (Some \<lparr>ev_Status = ''running'', ev_VMID = ''a1b2c3'', ev_Client = ''host1''\<rparr>)) (\<lambda>_. True) (\<lambda>_. True) demo_task)) \<and>
   to_status (fst (handleVMExpire (Some (Some \<lparr>ev_Status = ''running'', ev_VMID = ''a1b2c3'', ev_Client = ''host1''\<rparr>)) (\<lambda>_. True) (\<lambda>_. True) demo_task)) \<noteq> Some Done"
  (is "?s \<in> set (snd ?h) \<and> _")
proof -
  have h: "?h = (fst ?h, snd ?h)" by simp
  have "?s \<in> set (snd ?h)" by code_simp
  then show ?thesis using expiry_done_only_when_gone[OF h] by simp
qed

end
