(* ===== verification/Ctl_Login.thy ===== *)
theory Ctl_Login
  imports Proxy_Auth Go_Url
begin

text \<open>
  The login of the control server for the hosts of its machines (\<open>control\<close>: \<open>proxy_login.go\<close>, \<open>vm_name.go\<close>, the
  hash of \<open>tokens.go\<close>): who may reach a host, and the token that \<open>dproxy\<close> accepts for it. The tables the queries read
  are a record; \<open>cd_ok\<close> says which query succeeds. The JWT library, \<open>uuid.Parse\<close> and \<open>url.Parse\<close> are parameters.
\<close>

section \<open>Tables and queries\<close>

record ctl_user =
  us_ID :: string
  us_Email :: string
  us_UserType :: string

record vm_row =
  vr_ID :: string
  vr_Name :: string
  vr_TLD :: "string option"
  vr_Gone :: bool
  vr_Owner :: "string option"

record domain_row =
  cr_Domain :: string
  cr_VM :: string
  cr_Active :: bool

record refresh_row =
  rf_Hash :: string
  rf_User :: string
  rf_Expires :: int
  rf_Revoked :: bool

record ctl_db =
  cd_ok :: "string \<Rightarrow> bool"
  cd_domains :: "string list"
  cd_vms :: "vm_row list"
  cd_customs :: "domain_row list"
  cd_users :: "ctl_user list"
  cd_refresh :: "refresh_row list"

definition query :: "ctl_db \<Rightarrow> string \<Rightarrow> 'a \<Rightarrow> 'a option" where
  "query db name r = (if cd_ok db name then Some r else None)"

definition owned :: "bool \<Rightarrow> string \<Rightarrow> vm_row \<Rightarrow> bool" where
  "owned isAdmin owner v \<longleftrightarrow> \<not> vr_Gone v \<and> (isAdmin \<or> vr_Owner v = Some owner)"

definition GetVMForOwnerByHostname :: "ctl_db \<Rightarrow> string \<Rightarrow> string \<Rightarrow> bool \<Rightarrow> string \<Rightarrow> bool" where
  "GetVMForOwnerByHostname db name tld isAdmin owner =
     list_ex (\<lambda>v. vr_Name v = name \<and> vr_TLD v = Some tld \<and> owned isAdmin owner v) (cd_vms db)"

definition GetVMForOwnerByCustomDomain :: "ctl_db \<Rightarrow> string \<Rightarrow> bool \<Rightarrow> string \<Rightarrow> bool" where
  "GetVMForOwnerByCustomDomain db domain isAdmin owner =
     list_ex (\<lambda>v. list_ex (\<lambda>c. cr_VM c = vr_ID v \<and> cr_Domain c = domain \<and> cr_Active c) (cd_customs db) \<and>
       owned isAdmin owner v) (cd_vms db)"

definition CustomDomainIsServed :: "ctl_db \<Rightarrow> string \<Rightarrow> bool" where
  "CustomDomainIsServed db domain = list_ex (\<lambda>c. cr_Domain c = domain \<and> cr_Active c) (cd_customs db)"

definition GetUserByID :: "ctl_db \<Rightarrow> string \<Rightarrow> ctl_user option" where
  "GetUserByID db i = (if cd_ok db ''GetUserByID'' then find (\<lambda>u. us_ID u = i) (cd_users db) else None)"

definition GetRefreshTokenByHash :: "ctl_db \<Rightarrow> string \<Rightarrow> refresh_row option" where
  "GetRefreshTokenByHash db h =
     (if cd_ok db ''GetRefreshTokenByHash'' then find (\<lambda>r. rf_Hash r = h) (cd_refresh db) else None)"

section \<open>The token\<close>

record proxyAuthConfig =
  pa_secret :: string
  pa_controlURL :: string
  pa_cookieSecure :: bool

definition proxyTokenTTL :: Duration where
  "proxyTokenTTL = 5 * 60 * second"

definition proxyLoginPath :: string where
  "proxyLoginPath = ''/login''"

definition loginURL :: "proxyAuthConfig \<Rightarrow> string" where
  "loginURL c = trim_right (pa_controlURL c) ''/'' @ proxyLoginPath"

definition cookieSameSite :: "proxyAuthConfig \<Rightarrow> string" where
  "cookieSameSite c = (if pa_cookieSecure c then ''none'' else ''lax'')"

definition proxyTokenPayload :: "string \<Rightarrow> string \<Rightarrow> int \<Rightarrow> json" where
  "proxyTokenPayload sub aud exp = JObj [(''sub'', JStr sub), (''aud'', JStr aud), (''exp'', JNum (itoa exp))]"

definition mintProxyToken :: "string \<Rightarrow> string \<Rightarrow> string \<Rightarrow> int \<Rightarrow> string" where
  "mintProxyToken secret sub aud now =
     (let payload = print_json (proxyTokenPayload sub aud ((now + proxyTokenTTL) div second));
          b = rawurl_encode (to_bytes payload);
          mac = hmac sha256 (to_bytes secret) (to_bytes b)
      in b @ ''.'' @ rawurl_encode mac)"

section \<open>Hosts\<close>

record redirect_url =
  ru_Scheme :: string
  ru_User :: bool
  ru_Hostname :: string
  ru_Rest :: string
  ru_RawQuery :: string
  ru_Fragment :: string

definition parseRedirectTarget :: "(string \<Rightarrow> redirect_url option) \<Rightarrow> string \<Rightarrow> string \<Rightarrow> redirect_url option" where
  "parseRedirectTarget parse rd host =
     (if host = [] \<or> length host > 253 \<or> \<not> hostnamePattern host then None
      else case parse rd of
        None \<Rightarrow> None
      | Some u \<Rightarrow>
          if ru_Scheme u \<noteq> ''http'' \<and> ru_Scheme u \<noteq> ''https'' then None
          else if ru_User u \<or> \<not> equal_fold (ru_Hostname u) host then None
          else Some u)"

definition hostIsOurs :: "ctl_db \<Rightarrow> string \<Rightarrow> bool option" where
  "hostIsOurs db host = (case query db ''ListDomains'' (cd_domains db) of
       None \<Rightarrow> None
     | Some tlds \<Rightarrow>
         if list_ex (\<lambda>d. host = d \<or> has_suffix host (''.'' @ d)) tlds then Some True
         else query db ''CustomDomainIsServed'' (CustomDomainIsServed db host))"

definition splitVMHost :: "string \<Rightarrow> (string \<times> string) option" where
  "splitVMHost host = (case cut host ''.'' of
       None \<Rightarrow> None
     | Some (label, tld) \<Rightarrow>
         let name = (case cut label ''--'' of None \<Rightarrow> label | Some (n, _) \<Rightarrow> n) in
         if name \<noteq> [] \<and> tld \<noteq> [] then Some (name, tld) else None)"

definition custom_reach :: "ctl_db \<Rightarrow> ctl_user \<Rightarrow> string \<Rightarrow> bool option" where
  "custom_reach db u host =
     query db ''GetVMForOwnerByCustomDomain''
       (GetVMForOwnerByCustomDomain db host (us_UserType u = ''admin'') (us_ID u))"

definition mayReachHost :: "ctl_db \<Rightarrow> ctl_user \<Rightarrow> string \<Rightarrow> bool option" where
  "mayReachHost db u host =
     (case splitVMHost host of
        None \<Rightarrow> custom_reach db u host
      | Some (name, tld) \<Rightarrow>
          (case query db ''GetVMForOwnerByHostname''
                  (GetVMForOwnerByHostname db name tld (us_UserType u = ''admin'') (us_ID u)) of
             None \<Rightarrow> None
           | Some True \<Rightarrow> Some True
           | Some False \<Rightarrow> custom_reach db u host))"

section \<open>The handler\<close>

definition hashRefresh :: "string \<Rightarrow> string" where
  "hashRefresh raw = hex_encode (sha256 (to_bytes raw))"

text \<open>\<open>jwt secret token\<close> is the claim \<open>sub\<close> of a token that the library finds valid and signed with an HMAC.\<close>

definition sessionUser ::
  "(string \<Rightarrow> string \<Rightarrow> string option) \<Rightarrow> (string \<Rightarrow> string option) \<Rightarrow> string \<Rightarrow> ctl_db \<Rightarrow> int \<Rightarrow> request \<Rightarrow> ctl_user option" where
  "sessionUser jwt parseUUID jwtSecret db now req =
     (let by_access = (case request_cookie req ''access_token'' of
            None \<Rightarrow> None
          | Some v \<Rightarrow> if v = [] then None
              else Option.bind (jwt jwtSecret v) (\<lambda>sub. Option.bind (parseUUID sub) (GetUserByID db)));
          by_refresh = (case request_cookie req ''refresh_token'' of
            None \<Rightarrow> None
          | Some v \<Rightarrow> if v = [] then None
              else (case GetRefreshTokenByHash db (hashRefresh v) of
                None \<Rightarrow> None
              | Some rt \<Rightarrow> if rf_Revoked rt \<or> rf_Expires rt < now then None else GetUserByID db (rf_User rt)))
      in case by_access of Some u \<Rightarrow> Some u | None \<Rightarrow> by_refresh)"

definition safeNextPath :: "string \<Rightarrow> string" where
  "safeNextPath nxt =
     (if nxt = [] \<or> \<not> has_prefix nxt ''/'' \<or> has_prefix nxt ''//'' then ''/''
      else if contains_any nxt [CHR 0x0D, CHR 0x0A] then ''/''
      else nxt)"

definition signinReturnURL :: "string \<Rightarrow> string \<Rightarrow> string \<Rightarrow> string" where
  "signinReturnURL rd host nxt =
     (let back = proxyLoginPath @ ''?'' @ Values_Encode [(''rd'', rd), (''host'', host), (''next'', nxt)]
      in ''/signin?'' @ Values_Encode [(''redirect'', back)])"

text \<open>\<open>url.Values.Set\<close>: the values under the key are replaced by one.\<close>

definition values_set :: "string \<Rightarrow> string \<Rightarrow> (string \<times> string) list \<Rightarrow> (string \<times> string) list" where
  "values_set k v kvs = filter (\<lambda>p. fst p \<noteq> k) kvs @ [(k, v)]"

datatype login_answer = LoginError int | ToSignin string | ToHost redirect_url

definition Login ::
  "(string \<Rightarrow> string \<Rightarrow> string option) \<Rightarrow> (string \<Rightarrow> string option) \<Rightarrow> (string \<Rightarrow> redirect_url option) \<Rightarrow>
   string \<Rightarrow> proxyAuthConfig \<Rightarrow> ctl_db \<Rightarrow> int \<Rightarrow> request \<Rightarrow> login_answer" where
  "Login jwt parseUUID parse jwtSecret proxy db now req =
     (if pa_secret proxy = [] then LoginError 503
      else
        let host = to_lower (trim_space (u_Query (rq_URL req) ''host''));
            rd = u_Query (rq_URL req) ''rd'';
            nxt = safeNextPath (u_Query (rq_URL req) ''next'')
        in case parseRedirectTarget parse rd host of
          None \<Rightarrow> LoginError 400
        | Some url \<Rightarrow>
            (case hostIsOurs db host of
               None \<Rightarrow> LoginError 500
             | Some False \<Rightarrow> LoginError 400
             | Some True \<Rightarrow>
                 (case sessionUser jwt parseUUID jwtSecret db now req of
                    None \<Rightarrow> ToSignin (signinReturnURL rd host nxt)
                  | Some u \<Rightarrow>
                      (case mayReachHost db u host of
                         None \<Rightarrow> LoginError 500
                       | Some False \<Rightarrow> LoginError 403
                       | Some True \<Rightarrow>
                           let token = mintProxyToken (pa_secret proxy) (us_Email u) host now;
                               q = values_set ''next'' nxt (values_set ''token'' token (parse_query (ru_RawQuery url)))
                           in ToHost (url\<lparr>ru_RawQuery := Values_Encode q, ru_Fragment := []\<rparr>)))))"

section \<open>Names of machines\<close>

definition vmNameMinLen :: nat where "vmNameMinLen = 3"
definition vmNameMaxLen :: nat where "vmNameMaxLen = 52"

text \<open>The regular expression \<open>^[a-z0-9]+(-[a-z0-9]+)*$\<close>: nonempty words of letters and digits, one hyphen between two.\<close>

definition vmNamePattern :: "string \<Rightarrow> bool" where
  "vmNamePattern s = list_all (\<lambda>w. w \<noteq> [] \<and> list_all is_label_end w) (split_str s ''-'')"

definition validateVMName :: "string \<Rightarrow> string option" where
  "validateVMName s =
     (let name = to_lower (trim_space s) in
      if name = [] then Some []
      else if length name < vmNameMinLen \<or> length name > vmNameMaxLen then None
      else if \<not> vmNamePattern name then None
      else Some name)"

definition systemReservedVMNames :: "string list" where
  "systemReservedVMNames = [''www'', ''shell'', ''console'', ''int'']"

definition vmNameAllowed :: "string list \<Rightarrow> string \<Rightarrow> bool" where
  "vmNameAllowed reserved name \<longleftrightarrow> name = [] \<or> name \<notin> set systemReservedVMNames \<union> set reserved"

datatype 'e name_error = VMNameTaken | NoUnusedName | NameFailed 'e

text \<open>
  \<open>nameLoop\<close>: at most six attempts; \<open>generated\<close> are the names drawn at random, or the error of drawing, and \<open>insert\<close>
  answers with its error and whether that says the name is taken.
\<close>

definition vmNameAttempts :: nat where "vmNameAttempts = 6"

fun name_attempts ::
  "nat \<Rightarrow> nat \<Rightarrow> string \<Rightarrow> bool \<Rightarrow> (nat \<Rightarrow> 'e + string) \<Rightarrow> (nat \<Rightarrow> string \<Rightarrow> ('e \<times> bool) option) \<Rightarrow> 'e name_error + string" where
  "name_attempts 0 attempt preferred reportTaken generated ins = Inl NoUnusedName"
| "name_attempts (Suc k) attempt preferred reportTaken generated ins =
     (case (if attempt > 0 \<or> preferred = [] then generated attempt else Inr preferred) of
        Inl e \<Rightarrow> Inl (NameFailed e)
      | Inr name \<Rightarrow>
          (case ins attempt name of
             None \<Rightarrow> Inr name
           | Some (e, taken) \<Rightarrow>
               if \<not> taken then Inl (NameFailed e)
               else if attempt = 0 \<and> preferred \<noteq> [] \<and> reportTaken then Inl VMNameTaken
               else name_attempts k (attempt + 1) preferred reportTaken generated ins))"

definition nameLoop ::
  "string \<Rightarrow> bool \<Rightarrow> (nat \<Rightarrow> 'e + string) \<Rightarrow> (nat \<Rightarrow> string \<Rightarrow> ('e \<times> bool) option) \<Rightarrow> 'e name_error + string" where
  "nameLoop preferred reportTaken generated ins =
     name_attempts vmNameAttempts 0 preferred reportTaken generated ins"

section \<open>Facts\<close>

lemma index_word:
  "list_all (\<lambda>c. c \<noteq> CHR ''-'') w \<Longrightarrow> index_of (w @ t) ''--'' = map_option (\<lambda>i. length w + i) (index_of t ''--'')"
  by (induction w; cases "index_of t ''--''") (auto simp: has_prefix_def)

lemma index_hyphen: "c \<noteq> CHR ''-'' \<Longrightarrow> index_of (CHR ''-'' # c # t) ''--'' = map_option Suc (index_of (c # t) ''--'')"
  by (simp add: has_prefix_def)

lemma label_end_no_hyphen: "is_label_end c \<Longrightarrow> c \<noteq> CHR ''-'' \<and> c \<noteq> CHR ''.''"
  by (auto simp: is_label_end_def is_digit_def)

lemma label_word: "list_all is_label_end w \<Longrightarrow> list_all (\<lambda>c. c \<noteq> CHR ''-'') w \<and> CHR ''.'' \<notin> set w \<and> CHR ''-'' \<notin> set w"
  using label_end_no_hyphen by (auto simp: list_all_iff)

lemma hyphen_words:
  assumes "list_all (\<lambda>w. w \<noteq> [] \<and> list_all is_label_end w) ws" "ws \<noteq> []"
  shows "join ws ''-'' \<noteq> [] \<and> hd (join ws ''-'') \<noteq> CHR ''-'' \<and> last (join ws ''-'') \<noteq> CHR ''-'' \<and>
    CHR ''.'' \<notin> set (join ws ''-'') \<and> index_of (join ws ''-'') ''--'' = None"
  using assms
proof (induction ws rule: induct_list012)
  case (2 w)
  then have "list_all (\<lambda>c. c \<noteq> CHR ''-'') w" "CHR ''.'' \<notin> set w" "CHR ''-'' \<notin> set w" "w \<noteq> []"
    using label_word [of w] by simp_all
  moreover from this have "index_of w ''--'' = None" using index_word [of w "[]"] by simp
  ultimately show ?case by (metis append_Nil2 hd_in_set join.simps(2) last_in_set)
next
  case (3 w v ws)
  let ?r = "join (v # ws) ''-''"
  have r: "?r \<noteq> []" "hd ?r \<noteq> CHR ''-''" "last ?r \<noteq> CHR ''-''" "CHR ''.'' \<notin> set ?r" "index_of ?r ''--'' = None"
    using 3 by simp_all
  have w: "list_all (\<lambda>c. c \<noteq> CHR ''-'') w" "CHR ''.'' \<notin> set w" "CHR ''-'' \<notin> set w" "w \<noteq> []"
    using 3(3) label_word [of w] by simp_all
  obtain c t where ct: "?r = c # t" using r(1) by (cases ?r) auto
  have "index_of (w @ CHR ''-'' # ?r) ''--'' = None"
    using r(2,5) w(1) by (simp add: index_word index_hyphen ct del: index_of.simps)
  moreover have "hd (w @ CHR ''-'' # ?r) \<noteq> CHR ''-''" using w by (metis hd_append2 hd_in_set)
  ultimately show ?case using r w by simp
qed simp

lemma vmName_shape:
  assumes "vmNamePattern n"
  shows "n \<noteq> [] \<and> last n \<noteq> CHR ''-'' \<and> CHR ''.'' \<notin> set n \<and> \<not> contains n ''--''"
  using hyphen_words [of "split_str n ''-''"] assms by (simp add: vmNamePattern_def contains_def)

text \<open>
  Property C30. The control server and \<open>dproxy\<close> read a host of the form \<open>name--port.tld\<close> alike: for the name of a
  machine that passes validation, \<open>dproxy\<close> routes it to the port of \<open>name.tld\<close>, and the control server asks who may reach
  the machine of that name and domain.
\<close>

theorem port_hosts_agree:
  assumes "validateVMName s = Some n" and "n \<noteq> []" and "tld \<noteq> []" and "1 \<le> p" and "p \<le> 65535"
  shows "splitVMHost (port_host n p tld) = Some (n, tld) \<and> splitPortHost (port_host n p tld) = Some (n @ ''.'' @ tld, p) \<and>
    splitVMHost (n @ ''.'' @ tld) = Some (n, tld) \<and> splitPortHost (n @ ''.'' @ tld) = None"
proof -
  have n: "last n \<noteq> CHR ''-''" "CHR ''.'' \<notin> set n" "\<not> contains n ''--''"
    using assms(1,2) vmName_shape by (auto simp: validateVMName_def Let_def split: if_splits)
  then have ok: "port_host_ok n p tld" using assms by (simp add: port_host_ok_def)
  have c1: "cut (port_host n p tld) ''.'' = Some (n @ ''--'' @ itoa p, tld)"
    using n(2) itoa_port_no_dot [of p] assms(4) by (subst cut_dot_iff) (simp add: port_host_def)
  have c2: "cut (n @ ''--'' @ itoa p) ''--'' = Some (n, itoa p)"
    using cut_portSeparator [OF assms(2), of "n @ ''--'' @ itoa p" "itoa p"] n by (simp add: portSeparator_def)
  have c3: "cut (n @ ''.'' @ tld) ''.'' = Some (n, tld)" using n(2) by (subst cut_dot_iff) simp
  have c4: "cut n ''--'' = None" using n(3) by (simp add: contains_def cut_def)
  show ?thesis
    using assms(2,3) c2 c3 c4 splitPortHost_port_host [OF ok]
    by (simp add: splitVMHost_def c1 splitPortHost_def portSeparator_def)
qed

theorem port_hosts_agree_witness:
  "splitVMHost (port_host ''hello-kitty'' 8080 ''vm.example'') = Some (''hello-kitty'', ''vm.example'') \<and>
   splitPortHost (port_host ''hello-kitty'' 8080 ''vm.example'') = Some (''hello-kitty.vm.example'', 8080)"
proof -
  have "validateVMName ''Hello-Kitty '' = Some ''hello-kitty''" by code_simp
  from port_hosts_agree [OF this, of "''vm.example''" 8080] show ?thesis by simp
qed

section \<open>The token on the other side\<close>

lemma verify_same_secret: "at_secret a = at_secret a' \<Longrightarrow> verify now a = verify now a'"
proof -
  assume "at_secret a = at_secret a'"
  then have "sign a = sign a'" by (intro ext) (simp add: sign_def)
  then show ?thesis by (intro ext) (simp only: verify_def)
qed

lemma mintProxyToken_Mint:
  assumes "at_secret a = to_bytes secret" "ttl a = proxyTokenTTL"
  shows "mintProxyToken secret sub aud now = Mint now a sub aud"
  using assms by (simp add: mintProxyToken_def Mint_def proxyTokenPayload_def claims_json_def sign_def Let_def)

lemma verify_mintProxyToken:
  assumes "at_secret a = to_bytes secret" "valid_utf8 sub" "valid_utf8 host" "host \<noteq> []"
    and "- (2 ^ 63) \<le> (now + proxyTokenTTL) div second" "(now + proxyTokenTTL) div second < 2 ^ 63"
    and "now' div second < (now + proxyTokenTTL) div second"
  shows "verify now' a (mintProxyToken secret sub host now) host = Some sub"
proof -
  define a' where "a' = a\<lparr>at_cfg := (at_cfg a)\<lparr>au_CookieTTL := proxyTokenTTL\<rparr>\<rparr>"
  have t: "ttl a' = proxyTokenTTL" by (simp add: ttl_def a'_def Duration_Or_def proxyTokenTTL_def second_def)
  have s: "at_secret a' = to_bytes secret" using assms(1) by (simp add: a'_def)
  have "verify now' a' (Mint now a' sub host) host = Some sub"
    by (rule verify_Mint) (use assms t in simp_all)
  then show ?thesis
    using verify_same_secret [of a a' now'] s assms(1) mintProxyToken_Mint [OF s t] by simp
qed

lemma hostname_chars:
  assumes "hostnamePattern h" "c \<in> set h"
  shows "is_label_end c \<or> c = CHR ''-'' \<or> c = CHR ''.''"
proof -
  have j: "c \<in> set (join (split_str h ''.'') ''.'')" using assms(2) by simp
  have "c \<in> set (join ws ''.'') \<Longrightarrow> list_all hostLabelPattern ws \<Longrightarrow> is_label_end c \<or> c = CHR ''-'' \<or> c = CHR ''.''" for ws
    by (induction ws rule: induct_list012) (auto simp: hostLabelPattern_def list_all_iff)
  from this [OF j] show ?thesis using assms(1) by (simp add: hostnamePattern_def)
qed

lemma hostname_utf8: "hostnamePattern h \<Longrightarrow> valid_utf8 h"
  by (rule valid_utf8_ascii) (auto simp: list_all_iff is_ascii_def is_label_end_def is_digit_def dest!: hostname_chars)

lemma hostname_no_label:
  assumes "hostnamePattern h"
  shows "\<not> list_ex (has_prefix h) [consoleAudPrefix, desktopAudPrefix, agentAudPrefix]"
proof -
  have "CHR '':'' \<notin> set h"
    using hostname_chars [OF assms, of "CHR '':''"] by (auto simp: is_label_end_def is_digit_def)
  moreover have "CHR '':'' \<in> set p \<Longrightarrow> \<not> has_prefix h p" for p
    using calculation by (auto simp: has_prefix_iff)
  ultimately show ?thesis by (simp add: consoleAudPrefix_def desktopAudPrefix_def agentAudPrefix_def)
qed

lemma map_of_filter: "map_of kvs k = (case filter (\<lambda>p. fst p = k) kvs of [] \<Rightarrow> None | p # _ \<Rightarrow> Some (snd p))"
  by (induction kvs) auto

lemma query_get_encoded: "query_get (parse_query (Values_Encode kvs)) k = query_get kvs k"
  unfolding query_get_def map_of_filter [of _ k] query_values_kept ..

lemma map_of_filter_ne: "map_of (filter (\<lambda>p. fst p \<noteq> k) kvs) k' = (if k' = k then None else map_of kvs k')"
  by (induction kvs) auto

lemma query_get_set: "query_get (values_set k v kvs) k' = (if k' = k then v else query_get kvs k')"
  by (cases "map_of kvs k'") (simp_all add: query_get_def values_set_def map_add_def map_of_filter_ne)

text \<open>What it takes to be sent on with a token.\<close>

lemma Login_ToHost:
  assumes "Login jwt parseUUID parse jwtSecret proxy db now req = ToHost url"
  defines "host \<equiv> to_lower (trim_space (u_Query (rq_URL req) ''host''))"
  obtains target u where "pa_secret proxy \<noteq> []" "parseRedirectTarget parse (u_Query (rq_URL req) ''rd'') host = Some target"
    "hostIsOurs db host = Some True" "sessionUser jwt parseUUID jwtSecret db now req = Some u" "mayReachHost db u host = Some True"
    "url = target\<lparr>ru_RawQuery := Values_Encode (values_set ''next'' (safeNextPath (u_Query (rq_URL req) ''next''))
        (values_set ''token'' (mintProxyToken (pa_secret proxy) (us_Email u) host now) (parse_query (ru_RawQuery target)))),
      ru_Fragment := []\<rparr>"
  using assms unfolding Login_def Let_def by (auto split: if_splits option.splits bool.splits)

text \<open>The machine that lets a user reach a host.\<close>

definition reaches :: "ctl_db \<Rightarrow> ctl_user \<Rightarrow> string \<Rightarrow> vm_row \<Rightarrow> bool" where
  "reaches db u host v \<longleftrightarrow> v \<in> set (cd_vms db) \<and> \<not> vr_Gone v \<and> (us_UserType u = ''admin'' \<or> vr_Owner v = Some (us_ID u)) \<and>
     ((\<exists>tld. splitVMHost host = Some (vr_Name v, tld) \<and> vr_TLD v = Some tld) \<or>
      (\<exists>c\<in>set (cd_customs db). cr_Domain c = host \<and> cr_Active c \<and> cr_VM c = vr_ID v))"

lemma mayReachHost_reaches:
  assumes "mayReachHost db u host = Some True"
  shows "\<exists>v. reaches db u host v"
proof -
  let ?admin = "us_UserType u = ''admin''"
  consider n tld where "splitVMHost host = Some (n, tld)" "GetVMForOwnerByHostname db n tld ?admin (us_ID u)"
    | "GetVMForOwnerByCustomDomain db host ?admin (us_ID u)"
    using assms by (auto simp: mayReachHost_def custom_reach_def query_def split: option.splits bool.splits if_splits)
  then show ?thesis
  proof cases
    case 1
    then obtain v where "v \<in> set (cd_vms db)" "vr_Name v = n" "vr_TLD v = Some tld" "owned ?admin (us_ID u) v"
      unfolding GetVMForOwnerByHostname_def list_ex_iff by blast
    then have "reaches db u host v" using 1(1) by (simp add: reaches_def owned_def)
    then show ?thesis ..
  next
    case 2
    then obtain v c where "v \<in> set (cd_vms db)" "c \<in> set (cd_customs db)" "cr_VM c = vr_ID v" "cr_Domain c = host" "cr_Active c"
      "owned ?admin (us_ID u) v"
      unfolding GetVMForOwnerByCustomDomain_def list_ex_iff by blast
    then have "reaches db u host v" by (auto simp: reaches_def owned_def)
    then show ?thesis ..
  qed
qed

text \<open>A user signed in by the cookie \<open>access_token\<close>, who owns the machine \<open>web\<close> of the domain \<open>vm.example\<close>.\<close>

definition example_login_db :: ctl_db where
  "example_login_db = \<lparr>cd_ok = (\<lambda>_. True), cd_domains = [''vm.example''],
     cd_vms = [\<lparr>vr_ID = ''v1'', vr_Name = ''web'', vr_TLD = Some ''vm.example'', vr_Gone = False, vr_Owner = Some ''u1''\<rparr>],
     cd_customs = [], cd_users = [\<lparr>us_ID = ''u1'', us_Email = ''ann@vm.example'', us_UserType = ''user''\<rparr>], cd_refresh = []\<rparr>"

definition example_jwt :: "string \<Rightarrow> string \<Rightarrow> string option" where
  "example_jwt secret token = (if token = ''signed'' then Some ''u1'' else None)"

definition example_target :: redirect_url where
  "example_target = \<lparr>ru_Scheme = ''https'', ru_User = False, ru_Hostname = ''web.vm.example'',
     ru_Rest = ''web.vm.example/__auth/callback'', ru_RawQuery = [], ru_Fragment = []\<rparr>"

definition example_login_request :: request where
  "example_login_request = \<lparr>rq_URL = \<lparr>u_Path = ''/login'', u_RequestURI = ''/login'', u_Query = (\<lambda>k.
       if k = ''host'' then ''Web.vm.example'' else if k = ''rd'' then ''https://web.vm.example/__auth/callback''
       else if k = ''next'' then ''/shop'' else [])\<rparr>,
     rq_Header = (\<lambda>h. if h = ''Cookie'' then [''access_token=signed''] else [])\<rparr>"

definition example_proxyAuth :: proxyAuthConfig where
  "example_proxyAuth = \<lparr>pa_secret = ''0123456789abcdef0123456789abcdef'', pa_controlURL = ''https://control.example'', pa_cookieSecure = True\<rparr>"

definition example_handed :: redirect_url where
  "example_handed = example_target\<lparr>ru_RawQuery := Values_Encode (values_set ''next'' ''/shop'' (values_set ''token''
     (mintProxyToken ''0123456789abcdef0123456789abcdef'' ''ann@vm.example'' ''web.vm.example'' example_now) [])),
     ru_Fragment := []\<rparr>"

lemma example_login_facts:
  "to_lower (trim_space (u_Query (rq_URL example_login_request) ''host'')) = ''web.vm.example''"
  "safeNextPath (u_Query (rq_URL example_login_request) ''next'') = ''/shop''"
  "parseRedirectTarget (\<lambda>_. Some example_target) (u_Query (rq_URL example_login_request) ''rd'') ''web.vm.example'' = Some example_target"
  "hostIsOurs example_login_db ''web.vm.example'' = Some True"
  "sessionUser example_jwt Some ''jwt'' example_login_db example_now example_login_request =
     Some \<lparr>us_ID = ''u1'', us_Email = ''ann@vm.example'', us_UserType = ''user''\<rparr>"
  "mayReachHost example_login_db \<lparr>us_ID = ''u1'', us_Email = ''ann@vm.example'', us_UserType = ''user''\<rparr> ''web.vm.example'' = Some True"
  "parse_query [] = []" "pa_secret example_proxyAuth = ''0123456789abcdef0123456789abcdef''"
  "ru_RawQuery example_target = []"
  by code_simp+

lemma example_login: "Login example_jwt Some (\<lambda>_. Some example_target) ''jwt'' example_proxyAuth example_login_db example_now example_login_request =
    ToHost example_handed"
  by (simp add: Login_def Let_def example_login_facts example_handed_def)

text \<open>
  Property C11. The control server sends a browser on with a token only when a user is signed in and owns (or, as an
  administrator, may see) a machine that is there and has that host as its name or its active custom domain; the address
  is an http or https address of that very host with no user part, and the host lies in a domain of the fleet or is
  a custom domain that is served.
\<close>

theorem login_only_to_reachable_host:
  assumes "Login jwt parseUUID parse jwtSecret proxy db now req = ToHost url"
  shows "\<exists>u v. sessionUser jwt parseUUID jwtSecret db now req = Some u \<and>
    reaches db u (to_lower (trim_space (u_Query (rq_URL req) ''host''))) v \<and>
    equal_fold (ru_Hostname url) (to_lower (trim_space (u_Query (rq_URL req) ''host''))) \<and>
    hostnamePattern (to_lower (trim_space (u_Query (rq_URL req) ''host''))) \<and>
    ru_Scheme url \<in> {''http'', ''https''} \<and> \<not> ru_User url \<and>
    (CustomDomainIsServed db (to_lower (trim_space (u_Query (rq_URL req) ''host''))) \<or>
     (\<exists>d\<in>set (cd_domains db). to_lower (trim_space (u_Query (rq_URL req) ''host'')) = d \<or>
       has_suffix (to_lower (trim_space (u_Query (rq_URL req) ''host''))) (''.'' @ d)))"
proof -
  let ?host = "to_lower (trim_space (u_Query (rq_URL req) ''host''))"
  from assms show ?thesis
  proof (cases rule: Login_ToHost)
    case (1 target u)
    have l: "ru_Scheme url = ru_Scheme target" "ru_User url = ru_User target" "ru_Hostname url = ru_Hostname target"
      unfolding 1(6) by simp_all
    have t: "hostnamePattern ?host" "ru_Scheme target \<in> {''http'', ''https''}" "\<not> ru_User target" "equal_fold (ru_Hostname target) ?host"
      using 1(2) by (auto simp: parseRedirectTarget_def split: if_splits option.splits)
    have o: "CustomDomainIsServed db ?host \<or> (\<exists>d\<in>set (cd_domains db). ?host = d \<or> has_suffix ?host (''.'' @ d))"
      using 1(3) by (auto simp: hostIsOurs_def query_def list_ex_iff split: if_splits option.splits)
    obtain v where "reaches db u ?host v" using mayReachHost_reaches [OF 1(5)] by blast
    then show ?thesis using 1(4) l t o by (intro exI [of _ u] exI [of _ v] conjI) simp_all
  qed
qed

theorem login_only_to_reachable_host_witness:
  "\<exists>u v. us_Email u = ''ann@vm.example'' \<and> reaches example_login_db u ''web.vm.example'' v \<and> ru_Scheme example_handed \<in> {''http'', ''https''}"
proof -
  from login_only_to_reachable_host [OF example_login]
  obtain u v where "sessionUser example_jwt Some ''jwt'' example_login_db example_now example_login_request = Some u"
    "reaches example_login_db u ''web.vm.example'' v" "ru_Scheme example_handed \<in> {''http'', ''https''}"
    unfolding example_login_facts(1) by blast
  then show ?thesis using example_login_facts(5) by force
qed

text \<open>
  Property C14. The token a login hands out is accepted by the \<open>dproxy\<close> that was pushed the same secret, at the callback
  of the host it was asked for and until it expires, which answers with the session cookie and the local path the user
  came from; at every other host the same callback is refused.
\<close>

theorem login_completes_at_its_host_only:
  assumes "Login jwt parseUUID parse jwtSecret proxy db now req = ToHost url"
    and "NewAuthenticator (Some (pa_secret proxy)) (Some cfg) = Inr (Some a)" and "trim_space (pa_secret proxy) = pa_secret proxy"
    and "sessionUser jwt parseUUID jwtSecret db now req = Some u" and "valid_utf8 (us_Email u)"
    and "- (2 ^ 63) \<le> (now + proxyTokenTTL) div second" and "(now + proxyTokenTTL) div second < 2 ^ 63"
    and "now' div second < (now + proxyTokenTTL) div second"
    and "u_Query (rq_URL callback) = query_get (parse_query (ru_RawQuery url))"
  shows "completeLogin now' a (to_lower (trim_space (u_Query (rq_URL req) ''host''))) callback =
      \<lparr>av_ok = False, av_status = 302, av_location = safeNextPath (u_Query (rq_URL req) ''next''),
       av_setCookie = SetCookie a (Mint now' a (us_Email u) (to_lower (trim_space (u_Query (rq_URL req) ''host''))))\<rparr> \<and>
    (\<forall>host. host \<noteq> to_lower (trim_space (u_Query (rq_URL req) ''host'')) \<longrightarrow> completeLogin now' a host callback = verdictStatus 401)"
proof -
  define host where "host = to_lower (trim_space (u_Query (rq_URL req) ''host''))"
  let ?next = "safeNextPath (u_Query (rq_URL req) ''next'')"
  let ?token = "mintProxyToken (pa_secret proxy) (us_Email u) host now"
  from assms(1) show ?thesis
  proof (cases rule: Login_ToHost)
    case (1 target u')
    note l = 1(2) [folded host_def] 1(4) 1(6) [folded host_def]
    have u: "u' = u" using l(2) assms(4) by simp
    have q: "u_Query (rq_URL callback) ''token'' = ?token" "u_Query (rq_URL callback) ''next'' = ?next"
      unfolding assms(9) l(3) u by (simp_all add: query_get_encoded query_get_set)
    have h: "host \<noteq> []" "hostnamePattern host" using l(1) by (auto simp: parseRedirectTarget_def split: if_splits)
    have s: "at_secret a = to_bytes (pa_secret proxy)"
      using assms(2,3) by (auto simp: NewAuthenticator_def Let_def split: if_splits)
    have v: "verify now' a ?token host = Some (us_Email u)"
      by (rule verify_mintProxyToken [OF s assms(5) hostname_utf8 [OF h(2)] h(1) assms(6,7,8)])
    then have V: "Verify now' a ?token host = Some (us_Email u)"
      using hostname_no_label [OF h(2)] by (simp add: Verify_def)
    have other: "Verify now' a ?token x = None" if "x \<noteq> host" for x
      using verify_one_audience [OF v, of now' a x] that by (cases "verify now' a ?token x") (auto simp: Verify_def)
    have n: "has_prefix ?next ''/'' \<and> \<not> has_prefix ?next ''//'' \<and> \<not> contains_any ?next [CHR 0x0D, CHR 0x0A]"
      by (auto simp: safeNextPath_def has_prefix_def contains_any_def)
    show ?thesis
      using n V other unfolding host_def [symmetric] by (simp add: completeLogin_def q Let_def)
  qed
qed

theorem login_completes_at_its_host_only_witness:
  "\<exists>a callback. at_secret a = to_bytes ''0123456789abcdef0123456789abcdef'' \<and>
     av_status (completeLogin example_now a ''web.vm.example'' callback) = 302 \<and>
     av_location (completeLogin example_now a ''web.vm.example'' callback) = ''/shop'' \<and>
     av_status (completeLogin example_now a ''mail.vm.example'' callback) = 401"
proof -
  define a where "a = \<lparr>at_cfg = at_cfg example_auth, at_secret = to_bytes ''0123456789abcdef0123456789abcdef''\<rparr>"
  define callback where "callback = \<lparr>rq_URL = \<lparr>u_Path = CallbackPath, u_RequestURI = CallbackPath,
    u_Query = query_get (parse_query (ru_RawQuery example_handed))\<rparr>, rq_Header = (\<lambda>_. [])\<rparr>"
  have trim: "trim_space (pa_secret example_proxyAuth) = pa_secret example_proxyAuth" by code_simp
  have new: "NewAuthenticator (Some (pa_secret example_proxyAuth)) (Some (at_cfg example_auth)) = Inr (Some a)"
    unfolding NewAuthenticator_def Let_def option.case trim by (simp add: a_def example_login_facts)
  have utf: "valid_utf8 (us_Email \<lparr>us_ID = ''u1'', us_Email = ''ann@vm.example'', us_UserType = ''user''\<rparr>)"
    by (rule valid_utf8_ascii) code_simp
  have now: "- (2 ^ 63) \<le> (example_now + proxyTokenTTL) div second" "(example_now + proxyTokenTTL) div second < 2 ^ 63"
    "example_now div second < (example_now + proxyTokenTTL) div second" by code_simp+
  have q: "u_Query (rq_URL callback) = query_get (parse_query (ru_RawQuery example_handed))" by (simp add: callback_def)
  from login_completes_at_its_host_only [OF example_login new trim example_login_facts(5) utf now q]
  show ?thesis
    by (intro exI [of _ a] exI [of _ callback]) (simp add: example_login_facts verdictStatus_def, simp add: a_def)
qed

end
