(* ===== verification/Spec2Isabelle.thy ===== *)
theory Spec2Isabelle
  imports Control_Peer Dpipe_Rdp Dpipe_Ws Dpipe_Tls Int_Server Dcl_Isolation Dcl_Life Ctl_Broker Ctl_Handlers Ctl_Login
begin

text \<open>
  A verification development for the data plane of dummie.
\<close>

end
